(* ===== verification/Prelude.thy ===== *)
theory Prelude
  imports Main "HOL-Library.Sublist" "HOL-Library.AList" "HOL-Library.Multiset"
begin

text \<open>
  The parts of JavaScript the data layer is written in: strings (trim, split, numbers printed
  and read), arrays (includes, the order-preserving removal of duplicates that
  \<open>[...new Set(xs)]\<close> performs, stable sorting with a comparator), the \<open>Map\<close> class, and
  results that may be an error.

  A string is a list of \<open>char\<close>, each read as the code point with its number: the model covers
  strings whose code points are below 256.
\<close>

named_theorems cone_simps \<open>disjointness of configuration subtrees\<close>
named_theorems edit_intros \<open>what an edit script does to the device, one rule per script\<close>

section \<open>Results that may be an error\<close>

fun map_res :: "('a \<Rightarrow> 'e + 'b) \<Rightarrow> 'a list \<Rightarrow> 'e + 'b list" where
  "map_res f [] = Inr []"
| "map_res f (x # xs) =
     (case f x of Inl e \<Rightarrow> Inl e
      | Inr y \<Rightarrow> (case map_res f xs of Inl e \<Rightarrow> Inl e | Inr ys \<Rightarrow> Inr (y # ys)))"

lemma map_res_Inr:
  assumes "map_res f xs = Inr ys"
  shows "list_all2 (\<lambda>x y. f x = Inr y) xs ys"
  using assms by (induction xs arbitrary: ys) (auto split: sum.splits)

lemma map_res_origin: "map_res f xs = Inr ys \<Longrightarrow> y \<in> set ys \<Longrightarrow> \<exists>x\<in>set xs. f x = Inr y"
  by (induction xs arbitrary: ys) (auto split: sum.splits)

lemma map_res_total: "(\<And>x. x \<in> set xs \<Longrightarrow> f x = Inr (g x)) \<Longrightarrow> map_res f xs = Inr (map g xs)"
  by (induction xs) auto

lemma map_res_length: "map_res f xs = Inr ys \<Longrightarrow> length ys = length xs"
  by (induction xs arbitrary: ys) (auto split: sum.splits)

lemma map_option_eq_inj: "(\<And>x y. f x = f y \<longleftrightarrow> x = y) \<Longrightarrow> map_option f a = map_option f b \<longleftrightarrow> a = b"
  by (cases a; cases b) simp_all

section \<open>Strings\<close>

definition js_space :: "char \<Rightarrow> bool" where
  "js_space c \<longleftrightarrow> (9 \<le> (of_char c :: nat) \<and> (of_char c :: nat) \<le> 13)
     \<or> (of_char c :: nat) = 32 \<or> (of_char c :: nat) = 160"

text \<open>\<open>String.prototype.trim\<close>.\<close>

definition trim :: "string \<Rightarrow> string" where
  "trim s = rev (dropWhile js_space (rev (dropWhile js_space s)))"

definition trimmed_string :: "string \<Rightarrow> bool" where
  "trimmed_string s \<longleftrightarrow> s = [] \<or> (\<not> js_space (hd s) \<and> \<not> js_space (last s))"

lemma dropWhile_idle: "s = [] \<or> \<not> P (hd s) \<Longrightarrow> dropWhile P s = s"
  by (cases s) auto

lemma hd_rev_dropWhile_rev:
  assumes "rev (dropWhile P (rev s)) \<noteq> []"
  shows "hd (rev (dropWhile P (rev s))) = hd s"
proof -
  have "suffix (dropWhile P (rev s)) (rev s)" by (rule suffix_dropWhile)
  then have "prefix (rev (dropWhile P (rev s))) s" by (simp add: suffix_to_prefix)
  then obtain t where "s = rev (dropWhile P (rev s)) @ t" by (auto simp: prefix_def)
  with assms show ?thesis by (metis hd_append2)
qed

lemma trim_trimmed [simp]: "trimmed_string (trim s)"
proof (cases "trim s = []")
  case True
  then show ?thesis by (simp add: trimmed_string_def)
next
  case False
  let ?d = "dropWhile js_space s"
  from False have ne: "rev (dropWhile js_space (rev ?d)) \<noteq> []" by (simp add: trim_def)
  then have d: "?d \<noteq> []" by (metis dropWhile.simps(1) rev.simps(1))
  have "hd (trim s) = hd ?d" unfolding trim_def by (rule hd_rev_dropWhile_rev [OF ne])
  moreover have "\<not> js_space (hd ?d)" by (rule hd_dropWhile [OF d])
  moreover have "\<not> js_space (last (trim s))"
    using False hd_dropWhile [of js_space "rev ?d"] by (simp add: trim_def last_rev)
  ultimately show ?thesis by (simp add: trimmed_string_def)
qed

lemma trim_id: "trimmed_string s \<Longrightarrow> trim s = s"
  by (auto simp: trim_def trimmed_string_def dropWhile_idle hd_rev)

lemma trim_trim [simp]: "trim (trim s) = trim s"
  by (rule trim_id) (rule trim_trimmed)

lemma trim_Nil [simp]: "trim [] = []"
  by (simp add: trim_def)

text \<open>\<open>s?.trim() || null\<close> and the \<open>trimmed\<close> helper: a blank string counts as absent.\<close>

definition blank_to_none :: "string option \<Rightarrow> string option" where
  "blank_to_none s = (case s of None \<Rightarrow> None
     | Some t \<Rightarrow> if trim t = [] then None else Some (trim t))"

lemma blank_to_none_idem [simp]: "blank_to_none (blank_to_none s) = blank_to_none s"
  by (auto simp: blank_to_none_def split: option.splits)

lemma blank_to_none_None [simp]: "blank_to_none None = None"
  by (simp add: blank_to_none_def)

text \<open>\<open>s.split(c)\<close> for a one-character separator.\<close>

fun split_on :: "char \<Rightarrow> string \<Rightarrow> string list" where
  "split_on c [] = [[]]"
| "split_on c (x # xs) =
     (if x = c then [] # split_on c xs
      else (case split_on c xs of [] \<Rightarrow> [[x]] | w # ws \<Rightarrow> (x # w) # ws))"

lemma split_on_nonempty [simp]: "split_on c s \<noteq> []"
  by (induction s) (auto split: list.splits)

lemma split_on_no_sep: "c \<notin> set s \<Longrightarrow> split_on c s = [s]"
  by (induction s) auto

lemma split_on_append_sep: "c \<notin> set s \<Longrightarrow> split_on c (s @ c # t) = s # split_on c t"
  by (induction s) auto

lemma span_sep: "c \<notin> set a \<Longrightarrow> takeWhile (\<lambda>x. x \<noteq> c) (a @ c # b) = a \<and> dropWhile (\<lambda>x. x \<noteq> c) (a @ c # b) = c # b"
  by (induction a) auto

text \<open>Tokens separated by runs of white space, as \<open>split(/\\s+/)\<close> gives on a trimmed string.\<close>

fun words_of :: "string \<Rightarrow> string list" where
  "words_of [] = [[]]"
| "words_of (x # xs) =
     (if js_space x then (if xs \<noteq> [] \<and> js_space (hd xs) then words_of xs else [] # words_of xs)
      else (case words_of xs of [] \<Rightarrow> [[x]] | w # ws \<Rightarrow> (x # w) # ws))"

text \<open>\<open>xs.join(sep)\<close>.\<close>

fun join_with :: "string \<Rightarrow> string list \<Rightarrow> string" where
  "join_with sep [] = []"
| "join_with sep [x] = x"
| "join_with sep (x # y # ys) = x @ sep @ join_with sep (y # ys)"

section \<open>Numbers as strings\<close>

definition is_digit :: "char \<Rightarrow> bool" where
  "is_digit c \<longleftrightarrow> 48 \<le> (of_char c :: nat) \<and> (of_char c :: nat) \<le> 57"

definition is_letter :: "char \<Rightarrow> bool" where
  "is_letter c \<longleftrightarrow> (65 \<le> (of_char c :: nat) \<and> (of_char c :: nat) \<le> 90)
     \<or> (97 \<le> (of_char c :: nat) \<and> (of_char c :: nat) \<le> 122)"

definition digit_value :: "char \<Rightarrow> nat" where
  "digit_value c = of_char c - 48"

definition digit_char :: "nat \<Rightarrow> char" where
  "digit_char d = char_of (48 + d)"

definition nat_of_digits :: "string \<Rightarrow> nat" where
  "nat_of_digits s = foldl (\<lambda>n c. 10 * n + digit_value c) 0 s"

fun string_of_nat :: "nat \<Rightarrow> string" where
  "string_of_nat n =
     (if n < 10 then [digit_char n] else string_of_nat (n div 10) @ [digit_char (n mod 10)])"

declare string_of_nat.simps [simp del]

text \<open>\<open>String(n)\<close> of an integer.\<close>

definition string_of_int :: "int \<Rightarrow> string" where
  "string_of_int i = (if i < 0 then CHR ''-'' # string_of_nat (nat (- i)) else string_of_nat (nat i))"

text \<open>
  \<open>Number(s)\<close>, \<open>None\<close> for \<open>NaN\<close>. White space around the number is dropped, the empty
  string reads as 0, and an optionally signed run of decimal digits reads as its value. The other
  literals of the language (fractions, exponents, hexadecimal, \<open>Infinity\<close>) do not occur as the
  rule numbers, VLAN ids or ports that the device prints; they are outside the model and read
  as \<open>None\<close>.
\<close>

definition js_number :: "string \<Rightarrow> int option" where
  "js_number s =
     (let t = trim s in
      if t = [] then Some 0
      else if list_all is_digit t then Some (int (nat_of_digits t))
      else if hd t = CHR ''-'' \<and> tl t \<noteq> [] \<and> list_all is_digit (tl t)
        then Some (- int (nat_of_digits (tl t)))
      else if hd t = CHR ''+'' \<and> tl t \<noteq> [] \<and> list_all is_digit (tl t)
        then Some (int (nat_of_digits (tl t)))
      else None)"

text \<open>\<open>Number(s) || 0\<close>.\<close>

definition number_or_zero :: "string \<Rightarrow> int" where
  "number_or_zero s = (case js_number s of None \<Rightarrow> 0 | Some n \<Rightarrow> n)"

lemma of_char_digit_char: "d < 10 \<Longrightarrow> of_char (digit_char d) = (48 + d :: nat)"
  by (simp add: digit_char_def)

lemma digit_value_digit_char [simp]: "d < 10 \<Longrightarrow> digit_value (digit_char d) = d"
  by (simp add: digit_value_def of_char_digit_char)

lemma is_digit_digit_char [simp]: "d < 10 \<Longrightarrow> is_digit (digit_char d)"
  by (simp add: is_digit_def of_char_digit_char)

lemma nat_of_digits_snoc: "nat_of_digits (s @ [c]) = 10 * nat_of_digits s + digit_value c"
  by (simp add: nat_of_digits_def)

lemma string_of_nat_digits: "list_all is_digit (string_of_nat n)"
proof (induction n rule: string_of_nat.induct)
  case (1 n)
  then show ?case by (cases "n < 10") (simp_all add: string_of_nat.simps [of n])
qed

lemma string_of_nat_nonempty [simp]: "string_of_nat n \<noteq> []"
  by (subst string_of_nat.simps) simp

lemma nat_of_digits_string_of_nat [simp]: "nat_of_digits (string_of_nat n) = n"
proof (induction n rule: string_of_nat.induct)
  case (1 n)
  show ?case
  proof (cases "n < 10")
    case True
    then show ?thesis by (simp add: string_of_nat.simps [of n] nat_of_digits_def)
  next
    case False
    with 1 show ?thesis by (simp add: string_of_nat.simps [of n] nat_of_digits_snoc)
  qed
qed

lemma digit_not_space: "is_digit c \<Longrightarrow> \<not> js_space c"
  by (auto simp: is_digit_def js_space_def)

lemma digit_not_minus: "is_digit c \<Longrightarrow> c \<noteq> CHR ''-''"
  by (auto simp: is_digit_def)

lemma digits_trimmed: "list_all is_digit s \<Longrightarrow> trimmed_string s"
  by (cases s rule: rev_cases)
    (auto simp: trimmed_string_def digit_not_space list_all_iff hd_append split: list.splits)

lemma js_number_string_of_int [simp]: "js_number (string_of_int i) = Some i"
proof (cases "i < 0")
  case True
  let ?d = "string_of_nat (nat (- i))"
  have dg: "list_all is_digit ?d" by (rule string_of_nat_digits)
  have "trimmed_string (CHR ''-'' # ?d)"
    using digits_trimmed [OF dg] by (auto simp: trimmed_string_def js_space_def)
  then have "trim (CHR ''-'' # ?d) = CHR ''-'' # ?d" by (rule trim_id)
  then show ?thesis using True dg
    by (simp add: js_number_def string_of_int_def is_digit_def Let_def)
next
  case False
  have dg: "list_all is_digit (string_of_nat (nat i))" by (rule string_of_nat_digits)
  then have "trim (string_of_nat (nat i)) = string_of_nat (nat i)"
    by (intro trim_id digits_trimmed)
  with False dg show ?thesis by (simp add: js_number_def string_of_int_def Let_def)
qed

lemma string_of_int_inj [simp]: "string_of_int i = string_of_int j \<longleftrightarrow> i = j"
  by (metis js_number_string_of_int option.inject)

lemma number_or_zero_string_of_int [simp]: "number_or_zero (string_of_int i) = i"
  by (simp add: number_or_zero_def)

section \<open>Arrays\<close>

text \<open>
  \<open>[...new Set(xs)]\<close>: the first occurrence of each element, in order.
\<close>

fun uniq_from :: "'a list \<Rightarrow> 'a list \<Rightarrow> 'a list" where
  "uniq_from seen [] = []"
| "uniq_from seen (x # xs) =
     (if x \<in> set seen then uniq_from seen xs else x # uniq_from (x # seen) xs)"

definition uniq :: "'a list \<Rightarrow> 'a list" where
  "uniq xs = uniq_from [] xs"

lemma set_uniq_from: "set (uniq_from seen xs) = set xs - set seen"
  by (induction xs arbitrary: seen) auto

lemma distinct_uniq_from: "distinct (uniq_from seen xs)"
  by (induction xs arbitrary: seen) (auto simp: set_uniq_from)

lemma set_uniq [simp]: "set (uniq xs) = set xs"
  by (simp add: uniq_def set_uniq_from)

lemma distinct_uniq [simp]: "distinct (uniq xs)"
  by (simp add: uniq_def distinct_uniq_from)

lemma uniq_from_id: "distinct xs \<Longrightarrow> set xs \<inter> set seen = {} \<Longrightarrow> uniq_from seen xs = xs"
  by (induction xs arbitrary: seen) auto

lemma uniq_id: "distinct xs \<Longrightarrow> uniq xs = xs"
  by (simp add: uniq_def uniq_from_id)

lemma uniq_Nil [simp]: "uniq [] = []"
  by (simp add: uniq_def)

lemma uniq_eq_Nil [simp]: "uniq xs = [] \<longleftrightarrow> xs = []"
  using set_uniq [of xs] by (metis list.set(1) set_empty)

text \<open>
  \<open>xs.sort(cmp)\<close>: the language's sort is stable, so for a consistent comparator its result is
  the one insertion sort gives.
\<close>

fun insert_by :: "('a \<Rightarrow> 'a \<Rightarrow> int) \<Rightarrow> 'a \<Rightarrow> 'a list \<Rightarrow> 'a list" where
  "insert_by cmp x [] = [x]"
| "insert_by cmp x (y # ys) = (if cmp x y \<le> 0 then x # y # ys else y # insert_by cmp x ys)"

definition sort_by :: "('a \<Rightarrow> 'a \<Rightarrow> int) \<Rightarrow> 'a list \<Rightarrow> 'a list" where
  "sort_by cmp xs = foldr (insert_by cmp) xs []"

lemma mset_insert_by [simp]: "mset (insert_by cmp x xs) = add_mset x (mset xs)"
  by (induction xs) auto

lemma sort_by_Cons: "sort_by cmp (x # xs) = insert_by cmp x (sort_by cmp xs)"
  by (simp add: sort_by_def)

lemma sort_by_Nil [simp]: "sort_by cmp [] = []"
  by (simp add: sort_by_def)

lemma mset_sort_by [simp]: "mset (sort_by cmp xs) = mset xs"
  by (induction xs) (simp_all add: sort_by_Cons)

lemma set_sort_by [simp]: "set (sort_by cmp xs) = set xs"
  by (metis mset_sort_by set_mset_mset)

lemma distinct_sort_by [simp]: "distinct (sort_by cmp xs) = distinct xs"
  by (metis mset_eq_imp_distinct_iff mset_sort_by)

lemma length_sort_by [simp]: "length (sort_by cmp xs) = length xs"
  by (metis mset_sort_by size_mset)

lemma sort_by_eq_Nil [simp]: "sort_by cmp xs = [] \<longleftrightarrow> xs = []"
  by (metis length_0_conv length_sort_by)

text \<open>A consistent comparator: its sign is that of a total preorder.\<close>

definition consistent_cmp :: "('a \<Rightarrow> 'a \<Rightarrow> int) \<Rightarrow> bool" where
  "consistent_cmp cmp \<longleftrightarrow>
     (\<forall>x y. cmp x y \<le> 0 \<or> cmp y x \<le> 0) \<and>
     (\<forall>x y z. cmp x y \<le> 0 \<longrightarrow> cmp y z \<le> 0 \<longrightarrow> cmp x z \<le> 0)"

lemma sorted_insert_by:
  assumes "consistent_cmp cmp" and "sorted_wrt (\<lambda>a b. cmp a b \<le> 0) xs"
  shows "sorted_wrt (\<lambda>a b. cmp a b \<le> 0) (insert_by cmp x xs)"
  using assms(2)
proof (induction xs)
  case Nil
  then show ?case by simp
next
  case (Cons y ys)
  have set_ins: "set (insert_by cmp x ys) = insert x (set ys)"
    by (metis mset_insert_by set_mset_add_mset_insert set_mset_mset)
  show ?case
  proof (cases "cmp x y \<le> 0")
    case True
    with Cons.prems assms(1) show ?thesis by (auto simp: consistent_cmp_def)
  next
    case False
    with assms(1) have "cmp y x \<le> 0" by (auto simp: consistent_cmp_def)
    with False Cons show ?thesis by (auto simp: set_ins)
  qed
qed

lemma sorted_sort_by:
  "consistent_cmp cmp \<Longrightarrow> sorted_wrt (\<lambda>a b. cmp a b \<le> 0) (sort_by cmp xs)"
  by (induction xs) (simp_all add: sort_by_Cons sorted_insert_by)

lemma sort_by_sorted_id:
  "sorted_wrt (\<lambda>a b. cmp a b \<le> 0) xs \<Longrightarrow> sort_by cmp xs = xs"
proof (induction xs)
  case Nil
  then show ?case by simp
next
  case (Cons x xs)
  then show ?case by (cases xs) (simp_all add: sort_by_Cons)
qed

lemma consistent_cmp_diff: "consistent_cmp (\<lambda>x y. (f x :: int) - f y)"
  by (auto simp: consistent_cmp_def)

text \<open>The order of \<open>Array.prototype.sort\<close> without a comparator: by code units.\<close>

fun str_cmp :: "string \<Rightarrow> string \<Rightarrow> int" where
  "str_cmp [] [] = 0"
| "str_cmp [] (_ # _) = -1"
| "str_cmp (_ # _) [] = 1"
| "str_cmp (x # xs) (y # ys) =
     (if x = y then str_cmp xs ys
      else if (of_char x :: nat) < of_char y then -1 else 1)"

section \<open>The Map class\<close>

text \<open>
  A \<open>Map\<close> keeps its keys in the order of their first insertion and the value of the last
  \<open>set\<close>: \<open>update\<close> on association lists. \<open>new Map(entries)\<close> sets them one by one.
\<close>

definition js_map :: "('k \<times> 'v) list \<Rightarrow> ('k \<times> 'v) list" where
  "js_map es = foldl (\<lambda>m (k, v). AList.update k v m) [] es"

lemma map_of_foldl_update:
  "map_of (foldl (\<lambda>m (k, v). AList.update k v m) m es) = map_of m ++ map_of (rev es)"
  by (induction es arbitrary: m) (auto simp: update_conv' fun_eq_iff map_add_def split: option.splits)

lemma map_of_js_map: "map_of (js_map es) = map_of (rev es)"
  by (simp add: js_map_def map_of_foldl_update)

lemma distinct_keys_foldl_update:
  "distinct (map fst m) \<Longrightarrow> distinct (map fst (foldl (\<lambda>m (k, v). AList.update k v m) m es))"
  by (induction es arbitrary: m) (auto simp: distinct_update)

lemma distinct_js_map: "distinct (map fst (js_map es))"
  by (simp add: js_map_def distinct_keys_foldl_update)

lemma keys_foldl_update:
  "set (map fst (foldl (\<lambda>m (k, v). AList.update k v m) m es)) = set (map fst m) \<union> set (map fst es)"
proof (induction es arbitrary: m)
  case Nil
  then show ?case by simp
next
  case (Cons e es)
  obtain k v where e: "e = (k, v)" by (cases e)
  have "set (map fst (AList.update k v m)) = insert k (set (map fst m))"
    by (auto simp: update_keys)
  with Cons [of "AList.update k v m"] show ?case by (simp add: e)
qed

lemma keys_js_map: "set (map fst (js_map es)) = set (map fst es)"
  by (simp only: js_map_def keys_foldl_update) simp

lemma map_of_js_map_distinct: "distinct (map fst es) \<Longrightarrow> map_of (js_map es) = map_of es"
  by (simp add: map_of_js_map map_of_inject_set rev_map [symmetric])

lemma js_map_origin: "(k, v) \<in> set (js_map es) \<Longrightarrow> (k, v) \<in> set es"
  using map_of_is_SomeI [OF distinct_js_map, of k v es] map_of_SomeD [of "rev es" k v] by (simp add: map_of_js_map)

lemma js_map_by_key:
  assumes "\<forall>x\<in>set xs. \<forall>y\<in>set xs. f x = f y \<longrightarrow> x = y"
  shows "set (js_map (map (\<lambda>x. (f x, x)) xs)) = (\<lambda>x. (f x, x)) ` set xs"
    and "map_of (js_map (map (\<lambda>x. (f x, x)) xs)) k = None \<longleftrightarrow> k \<notin> f ` set xs"
proof -
  let ?m = "js_map (map (\<lambda>x. (f x, x)) xs)"
  have keys: "fst ` set ?m = f ` set xs"
    using keys_js_map [of "map (\<lambda>x. (f x, x)) xs"] by (simp add: comp_def image_image)
  show none: "map_of ?m k = None \<longleftrightarrow> k \<notin> f ` set xs" for k
    using keys by (simp add: map_of_eq_None_iff)
  have sub: "set ?m \<subseteq> (\<lambda>x. (f x, x)) ` set xs"
    using js_map_origin by fastforce
  moreover have "(f x, x) \<in> set ?m" if x: "x \<in> set xs" for x
  proof -
    have "f x \<in> fst ` set ?m" using keys x by simp
    then obtain v where "(f x, v) \<in> set ?m" by auto
    moreover from this obtain y where "y \<in> set xs" "f y = f x" "v = y" using sub by auto
    ultimately show ?thesis using assms x by auto
  qed
  ultimately show "set ?m = (\<lambda>x. (f x, x)) ` set xs" by auto
qed

text \<open>Sorting the elements of a list by key into one list per key keeps them all.\<close>

lemma mset_concat_by_key:
  "distinct ns \<Longrightarrow> f ` set xs \<subseteq> set ns \<Longrightarrow>
     mset (concat (map (\<lambda>n. filter (\<lambda>x. f x = n) xs) ns)) = mset xs"
proof (induction ns arbitrary: xs)
  case Nil
  then show ?case by simp
next
  case (Cons a ns)
  let ?rest = "filter (\<lambda>x. f x \<noteq> a) xs"
  have rest: "map (\<lambda>n. filter (\<lambda>x. f x = n) xs) ns = map (\<lambda>n. filter (\<lambda>x. f x = n) ?rest) ns"
    using Cons.prems(1) by (auto intro!: filter_cong)
  have IH: "mset (concat (map (\<lambda>n. filter (\<lambda>x. f x = n) ?rest) ns)) = mset ?rest"
    using Cons.prems by (intro Cons.IH) auto
  show ?case
    unfolding list.map concat.simps mset_append rest IH mset_filter
    by (rule multiset_partition [symmetric])
qed

text \<open>A key identifies its element.\<close>

lemma key_unique: "distinct (map f xs) \<Longrightarrow> x \<in> set xs \<Longrightarrow> y \<in> set xs \<Longrightarrow> f x = f y \<Longrightarrow> x = y"
  by (metis distinct_map inj_onD)

section \<open>Fresh keys\<close>

text \<open>The largest element of a list, by a fold.\<close>

lemma foldl_max_upper: "m \<le> foldl max m xs \<and> (\<forall>x\<in>set xs. x \<le> foldl max m xs)" for m :: int
proof (induction xs arbitrary: m)
  case (Cons x xs)
  from Cons.IH [of "max m x"] show ?case by auto
qed simp

text \<open>
  The interface of everything that hands out a key not in use: rule numbers, policy ids, names of
  auto-managed groups.
\<close>

locale fresh_key =
  fixes used :: "'s \<Rightarrow> 'k set" and fresh :: "'p \<Rightarrow> 's \<Rightarrow> 'k"
  assumes fresh_unused: "fresh p s \<notin> used s"
begin

lemma fresh_neq: "k \<in> used s \<Longrightarrow> fresh p s \<noteq> k"
  using fresh_unused by blast

lemma fresh_again:
  assumes "insert (fresh p s) (used s) \<subseteq> used t"
  shows "fresh q t \<noteq> fresh p s \<and> fresh q t \<notin> used s"
  using assms fresh_unused [of q t] by auto

end

end
