(* ===== verification/Vyos_Config.thy ===== *)
theory Vyos_Config
  imports Prelude
begin

text \<open>
  What every data module shares: the JSON values in which the device reports its configuration
  and the readers over them, the set/delete commands the modules produce
  (\<open>VyosCommand\<close> in \<open>lib/interfaces.ts\<close>), and what such a command list does to the
  device.

  The device is not part of the repository. It is a parameter \<open>dev\<close> of the statements, a
  function from a command and the set of configured paths to the new set, with the documented
  behaviour of the two commands as the hypothesis \<open>device_laws\<close>. A path is the words of a
  \<open>set\<close> command, so a leaf value is its last word.
\<close>

section \<open>JSON values and their readers\<close>

datatype json =
    JNull
  | JBool bool
  | JNum int
  | JStr string
  | JArr "json list"
  | JObj "(string \<times> json) list"

text \<open>
  An object is the list of its own enumerable entries in the order \<open>Object.entries\<close> gives
  them. Reading a key that is missing gives \<open>undefined\<close>, here \<open>None\<close>; the keys the
  modules read by name are no array indices, so they are missing in arrays and strings.
\<close>

definition empty_obj :: json where
  "empty_obj = JObj []"

fun js_get :: "json \<Rightarrow> string \<Rightarrow> json option" where
  "js_get (JObj kvs) k = map_of kvs k"
| "js_get _ k = None"

fun obj_entries :: "json \<Rightarrow> (string \<times> json) list" where
  "obj_entries (JObj kvs) = kvs"
| "obj_entries (JArr xs) = map (\<lambda>(i, x). (string_of_nat i, x)) (List.enumerate 0 xs)"
| "obj_entries (JStr s) = map (\<lambda>(i, c). (string_of_nat i, JStr [c])) (List.enumerate 0 s)"
| "obj_entries _ = []"

text \<open>\<open>(raw ?? {}) as Cfg\<close>.\<close>

fun or_empty :: "json \<Rightarrow> json" where
  "or_empty JNull = empty_obj"
| "or_empty v = v"

text \<open>\<open>childCfg(v, k) ?? {}\<close>.\<close>

definition obj_or_empty :: "json option \<Rightarrow> json" where
  "obj_or_empty v = (case v of None \<Rightarrow> empty_obj | Some x \<Rightarrow> x)"

text \<open>
  The errors a read can end in: \<open>key in v\<close> throws a \<open>TypeError\<close> when \<open>v\<close> is a primitive
  value, and a failed request throws the device's message.
\<close>

datatype read_error = TypeError | DeviceError string

fun has_key :: "string \<Rightarrow> json \<Rightarrow> read_error + bool" where
  "has_key k (JObj kvs) = Inr (k \<in> fst ` set kvs)"
| "has_key k (JArr xs) = Inr (k \<in> set (map (string_of_nat \<circ> fst) (List.enumerate 0 xs)))"
| "has_key k _ = Inl TypeError"

text \<open>\<open>childStr\<close>: a non-blank string child, trimmed.\<close>

definition childStr :: "json \<Rightarrow> string \<Rightarrow> string option" where
  "childStr v key = (case js_get v key of
       Some (JStr x) \<Rightarrow> (let s = trim x in if s = [] then None else Some s)
     | _ \<Rightarrow> None)"

text \<open>\<open>childCfg\<close>: a child that is an object and not an array.\<close>

definition childCfg :: "json \<Rightarrow> string \<Rightarrow> json option" where
  "childCfg v key = (case js_get v key of Some (JObj kvs) \<Rightarrow> Some (JObj kvs) | _ \<Rightarrow> None)"

text \<open>
  \<open>childList\<close>: a multi-value leaf, which the device renders as a string when it holds one
  value and as an array when it holds several.
\<close>

fun strings_of :: "json list \<Rightarrow> string list" where
  "strings_of [] = []"
| "strings_of (JStr s # xs) = s # strings_of xs"
| "strings_of (_ # xs) = strings_of xs"

definition childList :: "json \<Rightarrow> string \<Rightarrow> string list" where
  "childList v key = (case js_get v key of
       Some (JStr x) \<Rightarrow> [x]
     | Some (JArr xs) \<Rightarrow> strings_of xs
     | _ \<Rightarrow> [])"

lemma childStr_trimmed: "childStr v k = Some s \<Longrightarrow> s \<noteq> [] \<and> trim s = s"
  by (auto simp: childStr_def Let_def split: option.splits json.splits if_splits)

text \<open>How the device renders the values of a multi-value leaf, and that \<open>childList\<close> reads it back.\<close>

definition render_list :: "string list \<Rightarrow> json option" where
  "render_list vs = (case vs of [] \<Rightarrow> None | [v] \<Rightarrow> Some (JStr v) | _ \<Rightarrow> Some (JArr (map JStr vs)))"

lemma strings_of_map_JStr [simp]: "strings_of (map JStr vs) = vs"
  by (induction vs) auto

lemma childList_render: "js_get v k = render_list vs \<Longrightarrow> childList v k = vs"
  by (auto simp: childList_def render_list_def split: list.splits)

text \<open>
  The reply of \<open>showConfig\<close>: a reported failure whose message says the path is empty means
  an empty configuration.
\<close>

record vyos_response =
  resp_success :: bool
  resp_data :: "json option"
  resp_error :: "string option"

definition lower_char :: "char \<Rightarrow> char" where
  "lower_char c = (if 65 \<le> (of_char c :: nat) \<and> (of_char c :: nat) \<le> 90
     then char_of (of_char c + 32 :: nat) else c)"

definition upper_char :: "char \<Rightarrow> char" where
  "upper_char c = (if 97 \<le> (of_char c :: nat) \<and> (of_char c :: nat) \<le> 122
     then char_of (of_char c - 32 :: nat) else c)"

definition config_of_response :: "string \<Rightarrow> vyos_response \<Rightarrow> read_error + json" where
  "config_of_response default_message resp =
     (if resp_success resp then Inr (case resp_data resp of None \<Rightarrow> empty_obj | Some d \<Rightarrow> or_empty d)
      else let e = (case resp_error resp of None \<Rightarrow> [] | Some e \<Rightarrow> e) in
        if sublist ''empty'' (map lower_char e) then Inr empty_obj
        else Inl (DeviceError (if e = [] then default_message else e)))"

section \<open>Commands\<close>

type_synonym path = "string list"

datatype cmd_op = OpSet | OpDelete

datatype vyos_command = Command (cmd_op: cmd_op) (cmd_path: path)

abbreviation cset :: "path \<Rightarrow> vyos_command" where
  "cset p \<equiv> Command OpSet p"

abbreviation cdel :: "path \<Rightarrow> vyos_command" where
  "cdel p \<equiv> Command OpDelete p"

definition has_set :: "vyos_command list \<Rightarrow> bool" where
  "has_set cs \<longleftrightarrow> (\<exists>c \<in> set cs. cmd_op c = OpSet)"

text \<open>
  The three edits the modules are made of: a single-value leaf that goes from \<open>live\<close> to
  \<open>desired\<close>, a multi-value leaf, and a valueless flag.
\<close>

definition leaf_cmds :: "path \<Rightarrow> string option \<Rightarrow> string option \<Rightarrow> vyos_command list" where
  "leaf_cmds p live desired =
     (if desired = live then []
      else (case desired of Some v \<Rightarrow> [cset (p @ [v])] | None \<Rightarrow> [cdel p]))"

definition list_cmds :: "path \<Rightarrow> string list \<Rightarrow> string list \<Rightarrow> vyos_command list" where
  "list_cmds p live desired =
     map (\<lambda>m. cset (p @ [m])) (filter (\<lambda>m. m \<notin> set live) desired) @
     map (\<lambda>m. cdel (p @ [m])) (filter (\<lambda>m. m \<notin> set desired) live)"

definition flag_cmds :: "path \<Rightarrow> bool \<Rightarrow> bool \<Rightarrow> vyos_command list" where
  "flag_cmds p live desired = (if desired = live then [] else if desired then [cset p] else [cdel p])"

text \<open>
  A new node with nothing else set is created explicitly: the trailing block of every
  \<open>diff\<close> function, \<open>ensureCreated\<close> in \<open>lib/interfaces.ts\<close>.
\<close>

definition ensureCreated :: "vyos_command list \<Rightarrow> path \<Rightarrow> bool \<Rightarrow> vyos_command list" where
  "ensureCreated out base is_new = (if is_new \<and> \<not> has_set out then [cset base] else out)"

text \<open>\<open>members.map((m) => m.trim()).filter(Boolean)\<close>.\<close>

definition clean :: "string list \<Rightarrow> string list" where
  "clean xs = filter (\<lambda>s. s \<noteq> []) (map trim xs)"

lemma clean_clean [simp]: "clean (clean xs) = clean xs"
  by (induction xs) (auto simp: clean_def)

section \<open>The device\<close>

definition cone :: "path \<Rightarrow> path set" where
  "cone p = {q. prefix p q}"

definition device_laws :: "(vyos_command \<Rightarrow> path set \<Rightarrow> path set) \<Rightarrow> (path \<Rightarrow> bool) \<Rightarrow> bool" where
  "device_laws dev single \<longleftrightarrow>
     (\<forall>p S. dev (cdel p) S = S - cone p) \<and>
     (\<forall>p S. dev (cset p) S = insert p (if single (butlast p) then S - cone (butlast p) else S))"

definition run :: "('c \<Rightarrow> 's \<Rightarrow> 's) \<Rightarrow> 'c list \<Rightarrow> 's \<Rightarrow> 's" where
  "run dev cs S = fold dev cs S"

text \<open>
  A concrete device with these laws, for the witnesses: \<open>single\<close> tells which nodes hold at
  most one value.
\<close>

definition ref_dev :: "(path \<Rightarrow> bool) \<Rightarrow> vyos_command \<Rightarrow> path set \<Rightarrow> path set" where
  "ref_dev single c S = (case cmd_op c of
       OpDelete \<Rightarrow> S - cone (cmd_path c)
     | OpSet \<Rightarrow> insert (cmd_path c)
         (if single (butlast (cmd_path c)) then S - cone (butlast (cmd_path c)) else S))"

lemma ref_dev_laws: "device_laws (ref_dev single) single"
  by (simp add: device_laws_def ref_dev_def)

text \<open>The schema in which the nodes with one of the given names hold one value.\<close>

definition leaf_nodes :: "string list \<Rightarrow> path \<Rightarrow> bool" where
  "leaf_nodes names p \<longleftrightarrow> p \<noteq> [] \<and> last p \<in> set names"

lemma run_Nil [simp]: "run dev [] S = S"
  by (simp add: run_def)

lemma run_Cons [simp]: "run dev (c # cs) S = run dev cs (dev c S)"
  by (simp add: run_def)

lemma run_append [simp]: "run dev (cs @ ds) S = run dev ds (run dev cs S)"
  by (simp add: run_def)

lemma dev_delete: "device_laws dev single \<Longrightarrow> dev (cdel p) S = S - cone p"
  by (simp add: device_laws_def)

lemma dev_set_multi: "device_laws dev single \<Longrightarrow> \<not> single (butlast p) \<Longrightarrow> dev (cset p) S = insert p S"
  by (simp add: device_laws_def)

lemma dev_set_single:
  "device_laws dev single \<Longrightarrow> single (butlast p) \<Longrightarrow> dev (cset p) S = insert p (S - cone (butlast p))"
  by (simp add: device_laws_def)

section \<open>Cones\<close>

lemma in_cone [simp]: "q \<in> cone p \<longleftrightarrow> prefix p q"
  by (simp add: cone_def)

lemma cone_disjoint_iff [cone_simps]: "cone p \<inter> cone q = {} \<longleftrightarrow> \<not> prefix p q \<and> \<not> prefix q p"
proof -
  have "cone p \<inter> cone q \<noteq> {} \<longleftrightarrow> (prefix p q \<or> prefix q p)"
  proof
    assume "cone p \<inter> cone q \<noteq> {}"
    then obtain r where "prefix p r" "prefix q r" by auto
    then show "prefix p q \<or> prefix q p" by (rule prefix_same_cases)
  next
    assume "prefix p q \<or> prefix q p"
    then show "cone p \<inter> cone q \<noteq> {}" by (auto simp: disjoint_iff)
  qed
  then show ?thesis by auto
qed

lemmas cone_unions [cone_simps] = Int_Un_distrib Int_Un_distrib2

lemma cone_mono: "prefix p q \<Longrightarrow> cone q \<subseteq> cone p"
  by (auto intro: prefix_order.trans)

lemma cone_append_subset: "cone (p @ q) \<subseteq> cone p"
  by (rule cone_mono) simp

lemma cone_disjoint_mono: "cone p \<inter> C = {} \<Longrightarrow> prefix p q \<Longrightarrow> cone q \<inter> C = {}"
  using cone_mono by blast

section \<open>Edits: what a command list does inside a region of the configuration\<close>

text \<open>
  \<open>edits dev C cs L D\<close>: on any device whose part inside the region \<open>C\<close> is \<open>L\<close>, the
  commands make that part \<open>D\<close> and leave everything outside the region as it was.
\<close>

definition edits ::
  "(vyos_command \<Rightarrow> path set \<Rightarrow> path set) \<Rightarrow> path set \<Rightarrow> vyos_command list \<Rightarrow> path set \<Rightarrow> path set \<Rightarrow> bool" where
  "edits dev C cs L D \<longleftrightarrow>
     L \<subseteq> C \<and> D \<subseteq> C \<and> (\<forall>R. R \<inter> C = {} \<longrightarrow> run dev cs (R \<union> L) = R \<union> D)"

lemma editsI:
  assumes "L \<subseteq> C" "D \<subseteq> C" "\<And>R. R \<inter> C = {} \<Longrightarrow> run dev cs (R \<union> L) = R \<union> D"
  shows "edits dev C cs L D"
  using assms by (simp add: edits_def)

lemma edits_run:
  assumes "edits dev C cs L D" and "S \<inter> C = L"
  shows "run dev cs S = (S - C) \<union> D"
proof -
  have "S = (S - C) \<union> L" using assms(2) by auto
  moreover have "run dev cs ((S - C) \<union> L) = (S - C) \<union> D"
    using assms(1) by (auto simp: edits_def)
  ultimately show ?thesis by simp
qed

lemma edits_nil: "L \<subseteq> C \<Longrightarrow> edits dev C [] L L"
  by (auto intro: editsI)

lemma edits_seq: "edits dev C cs L M \<Longrightarrow> edits dev C ds M D \<Longrightarrow> edits dev C (cs @ ds) L D"
  by (auto simp: edits_def)

lemma edits_frame:
  assumes "edits dev C cs L D" and "C \<subseteq> C'" and "X \<subseteq> C' - C"
  shows "edits dev C' cs (L \<union> X) (D \<union> X)"
proof (rule editsI)
  fix R :: "path set"
  assume "R \<inter> C' = {}"
  then have "(R \<union> X) \<inter> C = {}" using assms(2,3) by blast
  with assms(1) have "run dev cs ((R \<union> X) \<union> L) = (R \<union> X) \<union> D" by (simp add: edits_def)
  then show "run dev cs (R \<union> (L \<union> X)) = R \<union> (D \<union> X)" by (simp add: Un_ac)
qed (use assms in \<open>auto simp: edits_def\<close>)

lemma edits_append:
  assumes a: "edits dev C1 cs L1 D1" and b: "edits dev C2 ds L2 D2" and disj: "C1 \<inter> C2 = {}"
  shows "edits dev (C1 \<union> C2) (cs @ ds) (L1 \<union> L2) (D1 \<union> D2)"
proof (rule edits_seq)
  have sub: "L2 \<subseteq> C2" "D1 \<subseteq> C1" using a b by (auto simp: edits_def)
  show "edits dev (C1 \<union> C2) cs (L1 \<union> L2) (D1 \<union> L2)"
    by (rule edits_frame [OF a]) (use sub disj in auto)
  have "edits dev (C1 \<union> C2) ds (L2 \<union> D1) (D2 \<union> D1)"
    by (rule edits_frame [OF b]) (use sub disj in auto)
  then show "edits dev (C1 \<union> C2) ds (D1 \<union> L2) (D1 \<union> D2)" by (simp add: Un_commute)
qed

lemma edits_concat:
  assumes "\<And>x. x \<in> set xs \<Longrightarrow> edits dev (C x) (cs x) (L x) (D x)"
    and "distinct xs"
    and "\<And>x y. x \<in> set xs \<Longrightarrow> y \<in> set xs \<Longrightarrow> x \<noteq> y \<Longrightarrow> C x \<inter> C y = {}"
  shows "edits dev (\<Union>x\<in>set xs. C x) (concat (map cs xs)) (\<Union>x\<in>set xs. L x) (\<Union>x\<in>set xs. D x)"
  using assms
proof (induction xs)
  case Nil
  then show ?case by (simp add: edits_nil)
next
  case (Cons x xs)
  have "edits dev (C x \<union> (\<Union>x\<in>set xs. C x)) (cs x @ concat (map cs xs))
          (L x \<union> (\<Union>x\<in>set xs. L x)) (D x \<union> (\<Union>x\<in>set xs. D x))"
  proof (rule edits_append)
    show "edits dev (C x) (cs x) (L x) (D x)" using Cons.prems(1) by simp
    show "edits dev (\<Union>x\<in>set xs. C x) (concat (map cs xs)) (\<Union>x\<in>set xs. L x) (\<Union>x\<in>set xs. D x)"
      using Cons.prems by (intro Cons.IH) auto
    show "C x \<inter> (\<Union>x\<in>set xs. C x) = {}"
      using Cons.prems(2,3) by (force simp: disjoint_iff)
  qed
  then show ?case by simp
qed

text \<open>Deleting a node empties its subtree.\<close>

lemma edits_delete:
  assumes dev: "device_laws dev single" and "L \<subseteq> cone p"
  shows "edits dev (cone p) [cdel p] L {}"
proof (rule editsI)
  fix R :: "path set"
  assume "R \<inter> cone p = {}"
  then show "run dev [cdel p] (R \<union> L) = R \<union> {}"
    using assms by (auto simp: dev_delete [OF dev])
qed (use assms in auto)

definition leaf_paths :: "path \<Rightarrow> string option \<Rightarrow> path set" where
  "leaf_paths p v = (case v of None \<Rightarrow> {} | Some x \<Rightarrow> {p @ [x]})"

definition list_paths :: "path \<Rightarrow> string list \<Rightarrow> path set" where
  "list_paths p vs = (\<lambda>v. p @ [v]) ` set vs"

definition flag_paths :: "path \<Rightarrow> bool \<Rightarrow> path set" where
  "flag_paths p b = (if b then {p} else {})"

lemma leaf_paths_cone: "leaf_paths p v \<subseteq> cone p"
  by (auto simp: leaf_paths_def split: option.splits)

lemma list_paths_cone: "list_paths p vs \<subseteq> cone p"
  by (auto simp: list_paths_def)

lemma flag_paths_cone: "flag_paths p b \<subseteq> cone p"
  by (auto simp: flag_paths_def)

lemma edits_leaf [edit_intros]:
  assumes dev: "device_laws dev single" and "single p"
  shows "edits dev (cone p) (leaf_cmds p live desired) (leaf_paths p live) (leaf_paths p desired)"
proof (rule editsI)
  fix R :: "path set"
  assume R: "R \<inter> cone p = {}"
  then have diff: "R \<union> leaf_paths p live - cone p = R" using leaf_paths_cone [of p live] by blast
  show "run dev (leaf_cmds p live desired) (R \<union> leaf_paths p live) = R \<union> leaf_paths p desired"
  proof (cases desired)
    case None
    then show ?thesis
      by (simp add: leaf_cmds_def dev_delete [OF dev] diff) (auto simp: leaf_paths_def)
  next
    case (Some v)
    then show ?thesis
      using assms(2)
      by (simp add: leaf_cmds_def dev_set_single [OF dev] diff) (auto simp: leaf_paths_def)
  qed
qed (simp_all add: leaf_paths_cone)

lemma run_sets:
  assumes dev: "device_laws dev single" and "\<And>m. m \<in> set ms \<Longrightarrow> \<not> single (butlast (f m))"
  shows "run dev (map (\<lambda>m. cset (f m)) ms) S = S \<union> f ` set ms"
  using assms(2)
proof (induction ms arbitrary: S)
  case Nil
  then show ?case by simp
next
  case (Cons m ms)
  have "run dev (map (\<lambda>m. cset (f m)) ms) (insert (f m) S) = insert (f m) S \<union> f ` set ms"
    using Cons.prems by (intro Cons.IH) simp
  then show ?case using Cons.prems by (simp add: dev_set_multi [OF dev])
qed

lemma run_deletes:
  assumes dev: "device_laws dev single"
  shows "run dev (map (\<lambda>m. cdel (f m)) ms) S = S - (\<Union>m\<in>set ms. cone (f m))"
  by (induction ms arbitrary: S) (auto simp: dev_delete [OF dev])

lemma edits_list [edit_intros]:
  assumes dev: "device_laws dev single" and "\<not> single p"
  shows "edits dev (cone p) (list_cmds p live desired) (list_paths p live) (list_paths p desired)"
proof (rule editsI)
  fix R :: "path set"
  assume R: "R \<inter> cone p = {}"
  let ?f = "\<lambda>m. p @ [m]"
  have out: "q \<in> R \<Longrightarrow> \<not> prefix (?f m) q" for q m
    using R by (metis append_prefixD disjoint_iff in_cone)
  have "run dev (list_cmds p live desired) (R \<union> list_paths p live) =
      R \<union> list_paths p live \<union> ?f ` (set desired - set live) - (\<Union>m\<in>set live - set desired. cone (?f m))"
    using assms(2)
    by (auto simp: list_cmds_def run_sets [OF dev] run_deletes [OF dev])
  also have "\<dots> = R \<union> list_paths p desired"
    using out by (auto simp: list_paths_def)
  finally show "run dev (list_cmds p live desired) (R \<union> list_paths p live) = R \<union> list_paths p desired" .
qed (simp_all add: list_paths_cone)

lemma edits_flag [edit_intros]:
  assumes dev: "device_laws dev single" and "\<not> single (butlast p)"
  shows "edits dev (cone p) (flag_cmds p live desired) (flag_paths p live) (flag_paths p desired)"
proof (rule editsI)
  fix R :: "path set"
  assume "R \<inter> cone p = {}"
  then show "run dev (flag_cmds p live desired) (R \<union> flag_paths p live) = R \<union> flag_paths p desired"
    using assms(2)
    by (auto simp: flag_cmds_def flag_paths_def dev_delete [OF dev] dev_set_multi [OF dev])
qed (simp_all add: flag_paths_cone)

text \<open>A command list whose paths all lie in a region leaves the rest alone.\<close>

definition within :: "path set \<Rightarrow> vyos_command list \<Rightarrow> bool" where
  "within C cs \<longleftrightarrow> (\<forall>c \<in> set cs. cmd_path c \<in> C)"

lemma within_append [simp]: "within C (cs @ ds) \<longleftrightarrow> within C cs \<and> within C ds"
  by (auto simp: within_def)

lemma within_Nil [simp]: "within C []"
  by (simp add: within_def)

lemma within_Cons [simp]: "within C (c # cs) \<longleftrightarrow> cmd_path c \<in> C \<and> within C cs"
  by (auto simp: within_def)

lemma within_leaf: "within (cone p) (leaf_cmds p live desired)"
  by (auto simp: leaf_cmds_def split: option.splits)

lemma within_list: "within (cone p) (list_cmds p live desired)"
  by (auto simp: list_cmds_def within_def)

lemma within_flag: "within (cone p) (flag_cmds p live desired)"
  by (auto simp: flag_cmds_def)

text \<open>Nothing is emitted when the live value is the desired one.\<close>

lemma leaf_cmds_same [simp]: "leaf_cmds p v v = []"
  by (simp add: leaf_cmds_def)

lemma list_cmds_same [simp]: "list_cmds p vs vs = []"
  by (auto simp: list_cmds_def filter_empty_conv)

lemma flag_cmds_same [simp]: "flag_cmds p b b = []"
  by (simp add: flag_cmds_def)

lemma leaf_cmds_None_set: "has_set (leaf_cmds p None d) \<longleftrightarrow> d \<noteq> None"
  by (auto simp: leaf_cmds_def has_set_def split: option.splits)

lemma list_cmds_Nil_set: "has_set (list_cmds p [] d) \<longleftrightarrow> d \<noteq> []"
  by (cases d) (auto simp: list_cmds_def has_set_def)

lemma flag_cmds_False_set: "has_set (flag_cmds p False d) \<longleftrightarrow> d"
  by (auto simp: flag_cmds_def has_set_def)

lemma has_set_append [simp]: "has_set (cs @ ds) \<longleftrightarrow> has_set cs \<or> has_set ds"
  by (auto simp: has_set_def)

lemma has_set_Nil [simp]: "\<not> has_set []"
  by (simp add: has_set_def)

text \<open>
  The deletes of a diff always name something that is configured: the device refuses a commit
  that deletes a missing node.
\<close>

definition deletes_live :: "path set \<Rightarrow> vyos_command list \<Rightarrow> bool" where
  "deletes_live L cs \<longleftrightarrow> (\<forall>p. cdel p \<in> set cs \<longrightarrow> L \<inter> cone p \<noteq> {})"

lemma deletes_live_append [simp]: "deletes_live L (cs @ ds) \<longleftrightarrow> deletes_live L cs \<and> deletes_live L ds"
  by (auto simp: deletes_live_def)

lemma deletes_live_mono: "deletes_live L cs \<Longrightarrow> L \<subseteq> M \<Longrightarrow> deletes_live M cs"
  by (auto simp: deletes_live_def)

lemma deletes_live_leaf: "deletes_live (leaf_paths p live) (leaf_cmds p live desired)"
  by (auto simp: deletes_live_def leaf_cmds_def leaf_paths_def split: option.splits)

lemma deletes_live_list: "deletes_live (list_paths p live) (list_cmds p live desired)"
  by (auto simp: deletes_live_def list_cmds_def list_paths_def)

lemma deletes_live_flag: "deletes_live (flag_paths p live) (flag_cmds p live desired)"
  by (auto simp: deletes_live_def flag_cmds_def flag_paths_def)

lemma prefix_same_length: "prefix p q \<Longrightarrow> length p = length q \<Longrightarrow> p = q"
  by (auto simp: prefix_def)

text \<open>Setting the same value on a family of single-value leaves, none inside another.\<close>

lemma run_single_sets:
  assumes dev: "device_laws dev single"
    and "\<And>r. r \<in> set rs \<Longrightarrow> single (p r)"
    and sep: "\<And>r s. prefix (p r) (p s) \<Longrightarrow> p r = p s"
  shows "run dev (map (\<lambda>r. cset (p r @ [v])) rs) S =
    (S - (\<Union>r\<in>set rs. cone (p r))) \<union> (\<lambda>r. p r @ [v]) ` set rs"
  using assms(2)
proof (induction rs arbitrary: S)
  case Nil
  then show ?case by simp
next
  case (Cons r rs)
  have out: "p r @ [v] \<in> (\<lambda>r. p r @ [v]) ` set rs"
    if "s \<in> set rs" and "prefix (p s) (p r @ [v])" for s
  proof -
    have "prefix (p s) (p r) \<or> prefix (p r) (p s)"
      using that(2) prefix_same_cases [of "p s" "p r @ [v]" "p r"] by simp
    then have "p s = p r" using sep by metis
    with that(1) show ?thesis by (metis image_eqI)
  qed
  have "run dev (map (\<lambda>r. cset (p r @ [v])) (r # rs)) S =
    (insert (p r @ [v]) (S - cone (p r)) - (\<Union>r\<in>set rs. cone (p r))) \<union> (\<lambda>r. p r @ [v]) ` set rs"
    using Cons by (simp add: dev_set_single [OF dev])
  also have "\<dots> = (S - (\<Union>r\<in>set (r # rs). cone (p r))) \<union> (\<lambda>r. p r @ [v]) ` set (r # rs)"
    using out by (auto simp del: prefix_snoc)
  finally show ?case .
qed

text \<open>Deleting all of a region's content, and filling an empty region.\<close>

lemma edits_dels:
  assumes dev: "device_laws dev single" and L: "L \<subseteq> (\<Union>p\<in>set dels. cone p)"
    and C: "(\<Union>p\<in>set dels. cone p) \<subseteq> C"
  shows "edits dev C (map cdel dels) L {}"
proof (rule editsI)
  show "L \<subseteq> C" using L C by (rule order_trans)
  define U where "U = (\<Union>p\<in>set dels. cone p)"
  fix R :: "path set"
  assume "R \<inter> C = {}"
  then have "R - U = R" "L - U = {}" using L C unfolding U_def [symmetric] by blast+
  moreover have "run dev (map cdel dels) (R \<union> L) = (R \<union> L) - U"
    unfolding U_def by (rule run_deletes [OF dev])
  ultimately show "run dev (map cdel dels) (R \<union> L) = R \<union> {}" by (simp only: Un_Diff)
qed simp

lemma edits_sets:
  assumes dev: "device_laws dev single" and D: "set ps = D" "D \<subseteq> C"
    and own: "\<And>p. p \<in> D \<Longrightarrow> single (butlast p) \<Longrightarrow> D \<inter> cone (butlast p) = {p} \<and> cone (butlast p) \<subseteq> C"
  shows "edits dev C (map cset ps) {} D"
proof (rule editsI)
  fix R :: "path set"
  assume R: "R \<inter> C = {}"
  have "run dev (map cset qs) (R \<union> E) = R \<union> E \<union> set qs" if "set qs \<subseteq> D" "E \<subseteq> D" for qs E
    using that
  proof (induction qs arbitrary: E)
    case Nil
    then show ?case by simp
  next
    case (Cons p qs)
    have step: "dev (cset p) (R \<union> E) = R \<union> insert p E"
    proof (cases "single (butlast p)")
      case True
      with Cons.prems own have "D \<inter> cone (butlast p) = {p}" "cone (butlast p) \<subseteq> C" by auto
      then have "R - cone (butlast p) = R" "E - cone (butlast p) \<union> {p} = insert p E"
        using R Cons.prems by auto
      then show ?thesis using True by (auto simp: dev_set_single [OF dev] Un_Diff)
    next
      case False
      then show ?thesis by (simp add: dev_set_multi [OF dev])
    qed
    show ?case using Cons.IH [of "insert p E"] Cons.prems by (simp add: step)
  qed
  from this [of ps "{}"] D(1) show "run dev (map cset ps) (R \<union> {}) = R \<union> D" by simp
qed (use D in auto)

text \<open>What lies below a node.\<close>

definition subtree :: "path set \<Rightarrow> path \<Rightarrow> path set" where
  "subtree S b = {p. b @ p \<in> S}"

lemma subtree_image: "S \<inter> cone b = (\<lambda>p. b @ p) ` subtree S b"
proof
  show "S \<inter> cone b \<subseteq> (\<lambda>p. b @ p) ` subtree S b"
  proof
    fix q assume "q \<in> S \<inter> cone b"
    then have "q \<in> S" "prefix b q" by simp_all
    then obtain p where "q = b @ p" by (auto elim: prefixE)
    with \<open>q \<in> S\<close> show "q \<in> (\<lambda>p. b @ p) ` subtree S b" by (simp add: subtree_def)
  qed
qed (auto simp: subtree_def)

lemma subtree_cong: "S \<inter> cone b = T \<inter> cone b \<Longrightarrow> subtree S b = subtree T b"
  by (rule set_eqI) (metis (no_types, lifting) IntD1 IntI in_cone mem_Collect_eq prefixI subtree_def)

end
