(* ===== verification/Firewall_Model.thy ===== *)
theory Firewall_Model
  imports Vyos_Config "HOL-Library.Word"
begin

unbundle bit_operations_syntax

text \<open>
  The object kinds of \<open>lib/firewall.ts\<close>: aliases, policies, zones and their pairs, rules with
  their scopes, the per-chain set-up and the whole \<open>FirewallConfig\<close>; the constants that name
  VyOS nodes; and the small functions on chains.
\<close>

section \<open>Aliases\<close>

datatype alias_type = Host | Network | Fqdn | Iface

fun alias_node :: "alias_type \<Rightarrow> string" where
  "alias_node Host = ''address-group''"
| "alias_node Network = ''network-group''"
| "alias_node Fqdn = ''domain-group''"
| "alias_node Iface = ''interface-group''"

fun alias_member_leaf :: "alias_type \<Rightarrow> string" where
  "alias_member_leaf Host = ''address''"
| "alias_member_leaf Network = ''network''"
| "alias_member_leaf Fqdn = ''address''"
| "alias_member_leaf Iface = ''interface''"

fun alias_label :: "alias_type \<Rightarrow> string" where
  "alias_label Host = ''Host''"
| "alias_label Network = ''Network''"
| "alias_label Fqdn = ''FQDN''"
| "alias_label Iface = ''Interface Group''"

definition group_node_to_type :: "(string \<times> alias_type) list" where
  "group_node_to_type =
     [(''address-group'', Host), (''network-group'', Network),
      (''domain-group'', Fqdn), (''interface-group'', Iface)]"

lemma group_node_to_type_iff: "map_of group_node_to_type n = Some t \<longleftrightarrow> n = alias_node t"
  by (cases t) (auto simp: group_node_to_type_def)

lemma alias_node_inj: "alias_node t = alias_node u \<longleftrightarrow> t = u"
  by (cases t; cases u) simp_all

record firewall_alias =
  al_name :: string
  al_display :: string
  al_type :: alias_type
  al_description :: "string option"
  al_members :: "string list"

record interface_alias =
  ia_iface :: string
  ia_display :: string
  ia_description :: "string option"
  ia_networks :: "string list"

text \<open>An interface as \<open>interfaceAliases\<close> takes it.\<close>

record iface_info =
  if_name :: string
  if_description :: "string option"
  if_addresses :: "string list"

section \<open>The network of an IPv4 address\<close>

text \<open>
  The bit operators of the language work on 32-bit integers and shift by the low five bits of
  the count; \<open>>>> 0\<close> reads the result unsigned. So the address, the mask and the network are
  values of \<open>32 word\<close>. The expression of the mask for prefix 0 is the special case of the
  source, since a shift by 32 would be a shift by 0.
\<close>

definition ipv4_addr :: "nat \<Rightarrow> nat \<Rightarrow> nat \<Rightarrow> nat \<Rightarrow> 32 word" where
  "ipv4_addr a b c d =
     push_bit 24 (of_nat a) OR push_bit 16 (of_nat b) OR push_bit 8 (of_nat c) OR of_nat d"

definition ipv4_mask :: "nat \<Rightarrow> 32 word" where
  "ipv4_mask prefix_len =
     (if prefix_len = 0 then 0 else push_bit ((32 - prefix_len) mod 32) (NOT 0))"

definition ipv4_print :: "32 word \<Rightarrow> nat \<Rightarrow> string" where
  "ipv4_print net prefix_len =
     string_of_nat (unat (drop_bit 24 net)) @ ''.'' @
     string_of_nat (unat (drop_bit 16 net AND 255)) @ ''.'' @
     string_of_nat (unat (drop_bit 8 net AND 255)) @ ''.'' @
     string_of_nat (unat (net AND 255)) @ ''/'' @ string_of_nat prefix_len"

definition digits_upto :: "nat \<Rightarrow> string \<Rightarrow> bool" where
  "digits_upto n s \<longleftrightarrow> s \<noteq> [] \<and> length s \<le> n \<and> list_all is_digit s"

definition ipv4Network :: "string \<Rightarrow> string option" where
  "ipv4Network cidr =
     (case split_on (CHR ''/'') (trim cidr) of
        [addr, p] \<Rightarrow>
          (case split_on (CHR ''.'') addr of
             [a, b, c, d] \<Rightarrow>
               if list_all (digits_upto 3) [a, b, c, d] \<and> digits_upto 2 p then
                 let prefix_len = nat_of_digits p; octets = map nat_of_digits [a, b, c, d] in
                 if 32 < prefix_len \<or> \<not> list_all (\<lambda>n. n \<le> 255) octets then None
                 else Some (ipv4_print
                   (ipv4_addr (nat_of_digits a) (nat_of_digits b) (nat_of_digits c) (nat_of_digits d)
                      AND ipv4_mask prefix_len) prefix_len)
               else None
           | _ \<Rightarrow> None)
      | _ \<Rightarrow> None)"

definition interfaceAliases :: "(string \<Rightarrow> string \<Rightarrow> int) \<Rightarrow> iface_info list \<Rightarrow> interface_alias list" where
  "interfaceAliases lc ifaces =
     sort_by (\<lambda>a b. lc (ia_display a) (ia_display b))
       (map (\<lambda>i. \<lparr>ia_iface = if_name i,
            ia_display = (case if_description i of None \<Rightarrow> if_name i | Some d \<Rightarrow> d),
            ia_description = if_description i,
            ia_networks = uniq (List.map_filter ipv4Network (if_addresses i))\<rparr>)
         (filter (\<lambda>i. if_description i \<noteq> None \<or> if_addresses i \<noteq> []) ifaces))"

section \<open>Policies, zones and actions\<close>

datatype policy_protocol = Tcp | Udp | Tcp_udp

fun protocol_str :: "policy_protocol \<Rightarrow> string" where
  "protocol_str Tcp = ''tcp''"
| "protocol_str Udp = ''udp''"
| "protocol_str Tcp_udp = ''tcp_udp''"

fun protocol_label :: "policy_protocol \<Rightarrow> string" where
  "protocol_label Tcp = ''TCP''"
| "protocol_label Udp = ''UDP''"
| "protocol_label Tcp_udp = ''TCP/UDP''"

record firewall_policy =
  fp_name :: string
  fp_protocol :: policy_protocol
  fp_ports :: "string list"
  fp_description :: "string option"

definition builtin_policies :: "(string \<times> policy_protocol \<times> string list) list" where
  "builtin_policies = [(''HTTPS'', Tcp, [''443'']), (''SSH'', Tcp, [''22''])]"

datatype rule_action = Accept | Drop | Reject

fun action_str :: "rule_action \<Rightarrow> string" where
  "action_str Accept = ''accept''"
| "action_str Drop = ''drop''"
| "action_str Reject = ''reject''"

datatype zone_default_action = ZDrop | ZReject

fun zone_action_str :: "zone_default_action \<Rightarrow> string" where
  "zone_action_str ZDrop = ''drop''"
| "zone_action_str ZReject = ''reject''"

record firewall_zone =
  zn_name :: string
  zn_display :: string
  zn_description :: "string option"
  zn_local :: bool
  zn_interfaces :: "string list"
  zn_default_action :: "zone_default_action option"
  zn_default_log :: bool
  zn_intra_zone :: "rule_action option"

record zone_pair =
  zp_src :: string
  zp_dst :: string
  zp_ruleset :: string

definition pairRuleset :: "string \<Rightarrow> string \<Rightarrow> string" where
  "pairRuleset src dst = ''QZ-Z-'' @ src @ ''-TO-'' @ dst"

section \<open>Chains\<close>

text \<open>A rule's scope is a plain string: a base chain, or \<open>name:<ruleset>\<close>.\<close>

type_synonym rule_chain = string

datatype base_chain = Forward | Input | Output

fun base_chain_str :: "base_chain \<Rightarrow> rule_chain" where
  "base_chain_str Forward = ''forward''"
| "base_chain_str Input = ''input''"
| "base_chain_str Output = ''output''"

definition rulesetName :: "rule_chain \<Rightarrow> string option" where
  "rulesetName chain =
     (if prefix ''name:'' chain then Some (drop (length ''name:'') chain) else None)"

definition isBaseChain :: "rule_chain \<Rightarrow> bool" where
  "isBaseChain chain \<longleftrightarrow> \<not> prefix ''name:'' chain"

definition zoneRuleChain :: "string \<Rightarrow> rule_chain" where
  "zoneRuleChain ruleset = ''name:'' @ ruleset"

definition base_chain_rank :: "(string \<times> int) list" where
  "base_chain_rank = [(''forward'', 0), (''input'', 1), (''output'', 2)]"

definition chainRank :: "rule_chain \<Rightarrow> int option" where
  "chainRank chain = (if rulesetName chain = None then map_of base_chain_rank chain else Some 3)"

text \<open>The values the type \<open>RuleChain\<close> admits.\<close>

definition wf_chain :: "rule_chain \<Rightarrow> bool" where
  "wf_chain c \<longleftrightarrow> c \<in> {''forward'', ''input'', ''output''} \<or> prefix ''name:'' c"

lemma rulesetName_zoneRuleChain [simp]: "rulesetName (zoneRuleChain r) = Some r"
  by (simp add: rulesetName_def zoneRuleChain_def)

lemma zoneRuleChain_rulesetName: "rulesetName c = Some r \<Longrightarrow> zoneRuleChain r = c"
  by (auto simp: rulesetName_def zoneRuleChain_def prefix_def split: if_splits)

lemma isBaseChain_iff: "isBaseChain c \<longleftrightarrow> rulesetName c = None"
  by (simp add: isBaseChain_def rulesetName_def)

lemma zoneRuleChain_inj [simp]: "zoneRuleChain r = zoneRuleChain s \<longleftrightarrow> r = s"
  by (simp add: zoneRuleChain_def)

lemma rulesetName_base [simp]: "rulesetName (base_chain_str b) = None"
  by (cases b) (simp_all add: rulesetName_def)

lemma zoneRuleChain_base [simp]: "zoneRuleChain r \<noteq> base_chain_str b"
  by (metis option.distinct(1) rulesetName_base rulesetName_zoneRuleChain)

section \<open>Rules\<close>

record auto_group =
  ag_name :: string
  ag_node :: string
  ag_includes :: "string list"
  ag_interfaces :: "string list"
  ag_members :: "string list"

definition AUTO_MARK :: string where "AUTO_MARK = ''[qz-rule]''"
definition SYS_MARK :: string where "SYS_MARK = ''[qz-sys]''"
definition IPS_CONNMARK :: int where "IPS_CONNMARK = 81"

record rule_endpoint =
  ep_group_type :: "string option"
  ep_group_name :: "string option"
  ep_address :: "string option"
  ep_iface :: "string option"
  ep_iface_group :: "string option"

definition no_endpoint :: rule_endpoint where
  "no_endpoint = \<lparr>ep_group_type = None, ep_group_name = None, ep_address = None,
     ep_iface = None, ep_iface_group = None\<rparr>"

record rule_scope =
  sc_chain :: rule_chain
  sc_raw :: json

record firewall_rule =
  fr_rule :: int
  fr_chain :: rule_chain
  fr_scopes :: "rule_scope list"
  fr_name :: "string option"
  fr_action :: "rule_action option"
  fr_ips :: bool
  fr_from :: rule_endpoint
  fr_to :: rule_endpoint
  fr_policy :: "string option"
  fr_protocol :: "string option"
  fr_enabled :: bool
  fr_log :: bool
  fr_raw :: json

definition ruleKey :: "firewall_rule \<Rightarrow> string" where
  "ruleKey r = (if isBaseChain (fr_chain r) then fr_chain r @ '':'' @ string_of_int (fr_rule r)
     else ''zone:'' @ string_of_int (fr_rule r))"

record chain_setup =
  cs_baseline :: bool
  cs_ips_flow :: bool
  cs_default_action :: "string option"
  cs_default_log :: bool

record firewall_config =
  fc_aliases :: "firewall_alias list"
  fc_policies :: "firewall_policy list"
  fc_rules :: "firewall_rule list"
  fc_auto_groups :: "auto_group list"
  fc_group_names :: "string list"
  fc_default_action :: "string option"
  fc_setup :: "base_chain \<Rightarrow> chain_setup"
  fc_zones :: "firewall_zone list"
  fc_zone_pairs :: "zone_pair list"
  fc_state_policy :: bool

definition empty_setup :: chain_setup where
  "empty_setup = \<lparr>cs_baseline = False, cs_ips_flow = False, cs_default_action = None,
     cs_default_log = False\<rparr>"

definition emptyFirewallConfig :: firewall_config where
  "emptyFirewallConfig = \<lparr>fc_aliases = [], fc_policies = [], fc_rules = [], fc_auto_groups = [],
     fc_group_names = [], fc_default_action = None, fc_setup = (\<lambda>_. empty_setup),
     fc_zones = [], fc_zone_pairs = [], fc_state_policy = False\<rparr>"

end
