(* ===== verification/Firewall_Read.thy ===== *)
theory Firewall_Read
  imports Firewall_Model
begin

text \<open>
  The read half of \<open>lib/firewall.ts\<close>: the markers kept in VyOS descriptions (policy protocol,
  friendly alias name), the parsers from the running configuration to the object kinds, the
  collapse of per-pair copies into one rule, and the usage look-ups behind the delete guards.

  \<open>localeCompare\<close> depends on the browser's locale; it is the parameter \<open>lc\<close>.
\<close>

section \<open>Markers in descriptions\<close>

definition proto_mark :: "policy_protocol \<Rightarrow> string" where
  "proto_mark p = ''['' @ protocol_str p @ '']''"

definition match_proto_mark :: "string \<Rightarrow> policy_protocol option" where
  "match_proto_mark desc = List.find (\<lambda>p. prefix (proto_mark p) desc) [Tcp, Udp, Tcp_udp]"

definition decodePolicyDescription :: "string option \<Rightarrow> policy_protocol \<times> string option" where
  "decodePolicyDescription desc = (case desc of
       None \<Rightarrow> (Tcp_udp, None)
     | Some d \<Rightarrow>
         if d = [] then (Tcp_udp, None)
         else (case match_proto_mark d of
             None \<Rightarrow> (Tcp_udp, Some d)
           | Some p \<Rightarrow>
               let rest = trim (drop (length (proto_mark p)) d)
               in (p, if rest = [] then None else Some rest)))"

definition encodePolicyDescription :: "policy_protocol \<Rightarrow> string option \<Rightarrow> string" where
  "encodePolicyDescription p description =
     (let d = (case description of None \<Rightarrow> [] | Some x \<Rightarrow> trim x)
      in if d = [] then proto_mark p else proto_mark p @ '' '' @ d)"

definition match_dn_mark :: "string \<Rightarrow> (string \<times> string) option" where
  "match_dn_mark desc =
     (if prefix ''[dn:'' desc then
        let rest = drop 4 desc; nm = takeWhile (\<lambda>c. c \<noteq> CHR '']'') rest;
            after = dropWhile (\<lambda>c. c \<noteq> CHR '']'') rest
        in if nm \<noteq> [] \<and> after \<noteq> [] then Some (nm, tl after) else None
      else None)"

definition decodeAliasDescription :: "string \<Rightarrow> string option \<Rightarrow> string \<times> string option" where
  "decodeAliasDescription name desc = (case desc of
       None \<Rightarrow> (name, None)
     | Some d \<Rightarrow>
         if d = [] then (name, None)
         else (case match_dn_mark d of
             None \<Rightarrow> (name, Some d)
           | Some (nm, after) \<Rightarrow> (nm, if trim after = [] then None else Some (trim after))))"

definition encodeAliasDescription :: "string \<Rightarrow> string \<Rightarrow> string option \<Rightarrow> string option" where
  "encodeAliasDescription name display description =
     (let p1 = (if trim display \<noteq> name then [''[dn:'' @ trim display @ '']''] else []);
          d = (case description of None \<Rightarrow> [] | Some x \<Rightarrow> trim x);
          parts = p1 @ (if d \<noteq> [] then [d] else [])
      in if parts = [] then None else Some (join_with '' '' parts))"

fun hyphenate :: "string \<Rightarrow> string" where
  "hyphenate [] = []"
| "hyphenate (x # xs) =
     (if js_space x then (if xs \<noteq> [] \<and> js_space (hd xs) then hyphenate xs else CHR ''-'' # hyphenate xs)
      else x # hyphenate xs)"

definition sanitizeAliasName :: "string \<Rightarrow> string" where
  "sanitizeAliasName display = hyphenate (trim display)"

definition aliasDisplayName :: "firewall_alias list \<Rightarrow> alias_type \<Rightarrow> string \<Rightarrow> string" where
  "aliasDisplayName aliases type name =
     (case List.find (\<lambda>a. al_type a = type \<and> al_name a = name) aliases of
        None \<Rightarrow> name | Some a \<Rightarrow> al_display a)"

section \<open>Parsers\<close>

definition fetchFirewallConfig :: "vyos_response \<Rightarrow> read_error + json" where
  "fetchFirewallConfig = config_of_response ''Device returned an error reading the firewall.''"

definition starts_auto :: "string option \<Rightarrow> bool" where
  "starts_auto d \<longleftrightarrow> (case d of None \<Rightarrow> False | Some s \<Rightarrow> prefix AUTO_MARK s)"

definition parse_alias :: "alias_type \<Rightarrow> string \<times> json \<Rightarrow> firewall_alias option" where
  "parse_alias type e = (case e of (name, raw) \<Rightarrow>
     let cfg = or_empty raw; rawDesc = childStr cfg ''description'' in
     if starts_auto rawDesc then None
     else (case decodeAliasDescription name rawDesc of (display, description) \<Rightarrow>
       Some \<lparr>al_name = name, al_display = display, al_type = type, al_description = description,
         al_members = childList cfg (alias_member_leaf type)\<rparr>))"

definition parseAliases :: "(string \<Rightarrow> string \<Rightarrow> int) \<Rightarrow> json \<Rightarrow> firewall_alias list" where
  "parseAliases lc grp =
     sort_by (\<lambda>a b. lc (al_display a) (al_display b))
       (concat (map (\<lambda>(node, type).
            List.map_filter (parse_alias type) (obj_entries (obj_or_empty (childCfg grp node))))
          group_node_to_type))"

definition AUTO_NODES :: "string list" where
  "AUTO_NODES = [''address-group'', ''network-group'', ''domain-group'', ''interface-group'']"

definition AUTO_MEMBER_LEAF :: "(string \<times> string) list" where
  "AUTO_MEMBER_LEAF = [(''address-group'', ''address''), (''network-group'', ''network''),
     (''domain-group'', ''address'')]"

definition parseAutoGroups :: "json \<Rightarrow> auto_group list" where
  "parseAutoGroups grp =
     concat (map (\<lambda>node. List.map_filter (\<lambda>(name, raw).
         let cfg = or_empty raw in
         if \<not> starts_auto (childStr cfg ''description'') then None
         else Some \<lparr>ag_name = name, ag_node = node, ag_includes = childList cfg ''include'',
           ag_interfaces = childList cfg ''interface'',
           ag_members = (case map_of AUTO_MEMBER_LEAF node of
               Some leaf \<Rightarrow> childList cfg leaf | None \<Rightarrow> [])\<rparr>)
       (obj_entries (obj_or_empty (childCfg grp node)))) AUTO_NODES)"

definition parseGroupNames :: "json \<Rightarrow> string list" where
  "parseGroupNames grp =
     concat (map (\<lambda>(k, v). case v of JObj kvs \<Rightarrow> map fst kvs | _ \<Rightarrow> []) (obj_entries grp))"

definition parsePolicies :: "(string \<Rightarrow> string \<Rightarrow> int) \<Rightarrow> json \<Rightarrow> firewall_policy list" where
  "parsePolicies lc grp =
     sort_by (\<lambda>a b. lc (fp_name a) (fp_name b))
       (map (\<lambda>(name, raw). let cfg = or_empty raw in
          (case decodePolicyDescription (childStr cfg ''description'') of (protocol, description) \<Rightarrow>
             \<lparr>fp_name = name, fp_protocol = protocol, fp_ports = childList cfg ''port'',
              fp_description = description\<rparr>))
        (obj_entries (obj_or_empty (childCfg grp ''port-group''))))"

definition asZoneDefault :: "string option \<Rightarrow> zone_default_action option" where
  "asZoneDefault v = (if v = Some ''drop'' then Some ZDrop
     else if v = Some ''reject'' then Some ZReject else None)"

definition asAction :: "string option \<Rightarrow> rule_action option" where
  "asAction v = (if v = Some ''accept'' then Some Accept else if v = Some ''drop'' then Some Drop
     else if v = Some ''reject'' then Some Reject else None)"

definition parse_zone :: "string \<times> json \<Rightarrow> read_error + firewall_zone" where
  "parse_zone e = (case e of (name, raw) \<Rightarrow>
     let cfg = or_empty raw in
     (case decodeAliasDescription name (childStr cfg ''description'') of (display, description) \<Rightarrow>
       (case has_key ''local-zone'' cfg of Inl err \<Rightarrow> Inl err | Inr local \<Rightarrow>
         (case has_key ''default-log'' cfg of Inl err \<Rightarrow> Inl err | Inr dlog \<Rightarrow>
           Inr \<lparr>zn_name = name, zn_display = display, zn_description = description,
             zn_local = local,
             zn_interfaces = childList (obj_or_empty (childCfg cfg ''member'')) ''interface'',
             zn_default_action = asZoneDefault (childStr cfg ''default-action''),
             zn_default_log = dlog,
             zn_intra_zone = asAction
               (childStr (obj_or_empty (childCfg cfg ''intra-zone-filtering'')) ''action'')\<rparr>))))"

definition parseZones :: "(string \<Rightarrow> string \<Rightarrow> int) \<Rightarrow> json \<Rightarrow> read_error + firewall_zone list" where
  "parseZones lc fw =
     (case map_res parse_zone (obj_entries (obj_or_empty (childCfg fw ''zone''))) of
        Inl e \<Rightarrow> Inl e
      | Inr zs \<Rightarrow> Inr (sort_by (\<lambda>a b. lc (zn_display a) (zn_display b)) zs))"

definition parseZonePairs :: "json \<Rightarrow> zone_pair list" where
  "parseZonePairs fw =
     concat (map (\<lambda>(dst, raw).
         List.map_filter (\<lambda>(src, fraw).
             map_option (\<lambda>ruleset. \<lparr>zp_src = src, zp_dst = dst, zp_ruleset = ruleset\<rparr>)
               (childStr (obj_or_empty (childCfg (or_empty fraw) ''firewall'')) ''name''))
           (obj_entries (obj_or_empty (childCfg (or_empty raw) ''from''))))
       (obj_entries (obj_or_empty (childCfg fw ''zone''))))"

definition pairForChain :: "zone_pair list \<Rightarrow> rule_chain \<Rightarrow> zone_pair option" where
  "pairForChain pairs chain = (case rulesetName chain of
       None \<Rightarrow> None
     | Some name \<Rightarrow> List.find (\<lambda>p. zp_ruleset p = name) pairs)"

definition parseStatePolicy :: "json \<Rightarrow> bool" where
  "parseStatePolicy fw =
     (let sp = obj_or_empty (childCfg (obj_or_empty (childCfg fw ''global-options'')) ''state-policy'');
          action = (\<lambda>state. childStr (obj_or_empty (childCfg sp state)) ''action'')
      in action ''established'' = Some ''accept'' \<and> action ''related'' = Some ''accept'')"

datatype side = Source | Destination

fun side_str :: "side \<Rightarrow> string" where
  "side_str Source = ''source''"
| "side_str Destination = ''destination''"

fun IFACE_NODE :: "side \<Rightarrow> string" where
  "IFACE_NODE Source = ''inbound-interface''"
| "IFACE_NODE Destination = ''outbound-interface''"

definition REF_NODES :: "string list" where
  "REF_NODES = [''address-group'', ''network-group'', ''domain-group'']"

definition iface_match :: "json option \<Rightarrow> string option \<times> string option" where
  "iface_match node = (case node of
       Some (JStr s) \<Rightarrow> (if trim s = [] then None else Some (trim s), None)
     | Some (JObj kvs) \<Rightarrow> (childStr (JObj kvs) ''name'', childStr (JObj kvs) ''group'')
     | _ \<Rightarrow> (None, None))"

definition parseEndpoint :: "json \<Rightarrow> side \<Rightarrow> rule_endpoint" where
  "parseEndpoint cfg sd =
     (let s = obj_or_empty (childCfg cfg (side_str sd));
          g = obj_or_empty (childCfg s ''group'')
      in case iface_match (js_get cfg (IFACE_NODE sd)) of (iface, iface_group) \<Rightarrow>
        (case List.find (\<lambda>node. childStr g node \<noteq> None) REF_NODES of
           Some node \<Rightarrow> \<lparr>ep_group_type = Some node, ep_group_name = childStr g node,
             ep_address = None, ep_iface = iface, ep_iface_group = iface_group\<rparr>
         | None \<Rightarrow> \<lparr>ep_group_type = None, ep_group_name = None,
             ep_address = childStr s ''address'', ep_iface = iface, ep_iface_group = iface_group\<rparr>))"

text \<open>One entry of a chain's \<open>rule\<close> node: a hidden system rule, or a rule of the user.\<close>

datatype parsed_rule = SysRule bool | UserRule firewall_rule

definition parse_rule :: "rule_chain \<Rightarrow> string \<times> json \<Rightarrow> read_error + parsed_rule" where
  "parse_rule chain e = (case e of (num, raw) \<Rightarrow>
     let cfg = or_empty raw; name = childStr cfg ''description'' in
     if (case name of None \<Rightarrow> False | Some n \<Rightarrow> prefix SYS_MARK n) then
       (case has_key ''connection-mark'' cfg of Inl err \<Rightarrow> Inl err
        | Inr mark \<Rightarrow> Inr (SysRule (mark \<and> childStr cfg ''action'' = Some ''queue'')))
     else
       let dstGroup = obj_or_empty (childCfg (obj_or_empty (childCfg cfg ''destination'')) ''group'');
           rawAction = childStr cfg ''action'' in
       (case has_key ''disable'' cfg of Inl err \<Rightarrow> Inl err | Inr disabled \<Rightarrow>
         (case has_key ''log'' cfg of Inl err \<Rightarrow> Inl err | Inr logged \<Rightarrow>
           Inr (UserRule \<lparr>fr_rule = number_or_zero num, fr_chain = chain,
             fr_scopes = [\<lparr>sc_chain = chain, sc_raw = cfg\<rparr>], fr_name = name,
             fr_action = (if rawAction = Some ''queue'' then Some Accept else asAction rawAction),
             fr_ips = (rawAction = Some ''queue''),
             fr_from = parseEndpoint cfg Source, fr_to = parseEndpoint cfg Destination,
             fr_policy = childStr dstGroup ''port-group'', fr_protocol = childStr cfg ''protocol'',
             fr_enabled = (\<not> disabled), fr_log = logged, fr_raw = cfg\<rparr>))))"

fun user_rules :: "parsed_rule list \<Rightarrow> firewall_rule list" where
  "user_rules [] = []"
| "user_rules (SysRule _ # ps) = user_rules ps"
| "user_rules (UserRule r # ps) = r # user_rules ps"

definition parseChain :: "json \<Rightarrow> rule_chain \<Rightarrow> read_error + firewall_rule list \<times> chain_setup" where
  "parseChain filter_cfg chain =
     (let ruleCfg = obj_or_empty (childCfg filter_cfg ''rule'') in
      case map_res (parse_rule chain) (obj_entries ruleCfg) of Inl e \<Rightarrow> Inl e | Inr ps \<Rightarrow>
        (case has_key ''1'' ruleCfg of Inl e \<Rightarrow> Inl e | Inr has1 \<Rightarrow>
        (case has_key ''2'' ruleCfg of Inl e \<Rightarrow> Inl e | Inr has2 \<Rightarrow>
        (case has_key ''default-log'' filter_cfg of Inl e \<Rightarrow> Inl e | Inr dlog \<Rightarrow>
          Inr (user_rules ps,
            \<lparr>cs_baseline = (\<exists>b \<in> {True, False}. SysRule b \<in> set ps) \<or> has1 \<or> has2,
             cs_ips_flow = (SysRule True \<in> set ps),
             cs_default_action = childStr filter_cfg ''default-action'',
             cs_default_log = dlog\<rparr>)))))"

section \<open>Collapsing the copies of a zone rule\<close>

definition groupZoneRules :: "(string \<Rightarrow> string \<Rightarrow> int) \<Rightarrow> firewall_rule list \<Rightarrow> firewall_rule list" where
  "groupZoneRules lc rules =
     map (\<lambda>n.
         let copies = sort_by (\<lambda>a b. lc (fr_chain a) (fr_chain b)) (filter (\<lambda>r. fr_rule r = n) rules)
         in (hd copies)\<lparr>fr_scopes := map (\<lambda>c. \<lparr>sc_chain = fr_chain c, sc_raw = fr_raw c\<rparr>) copies\<rparr>)
       (uniq (map fr_rule rules))"

definition rank_diff :: "rule_chain \<Rightarrow> rule_chain \<Rightarrow> int" where
  "rank_diff a b = (case (chainRank a, chainRank b) of (Some m, Some n) \<Rightarrow> m - n | _ \<Rightarrow> 0)"

definition rule_order :: "firewall_rule \<Rightarrow> firewall_rule \<Rightarrow> int" where
  "rule_order a b = (if fr_rule a - fr_rule b \<noteq> 0 then fr_rule a - fr_rule b
     else rank_diff (fr_chain a) (fr_chain b))"

definition chain_filter :: "json \<Rightarrow> base_chain \<Rightarrow> json" where
  "chain_filter ipv4 c =
     obj_or_empty (childCfg (obj_or_empty (childCfg ipv4 (base_chain_str c))) ''filter'')"

definition parse_zone_chains :: "json \<Rightarrow> zone_pair list \<Rightarrow> read_error + firewall_rule list" where
  "parse_zone_chains named pairs =
     (case map_res (\<lambda>ruleset. parseChain (obj_or_empty (childCfg named ruleset)) (zoneRuleChain ruleset))
         (uniq (map zp_ruleset pairs)) of
        Inl e \<Rightarrow> Inl e
      | Inr rs \<Rightarrow> Inr (concat (map fst rs)))"

definition fetchFirewall :: "(string \<Rightarrow> string \<Rightarrow> int) \<Rightarrow> vyos_response \<Rightarrow> read_error + firewall_config" where
  "fetchFirewall lc resp =
     (case fetchFirewallConfig resp of Inl e \<Rightarrow> Inl e | Inr fw \<Rightarrow>
      let grp = obj_or_empty (childCfg fw ''group''); ipv4 = obj_or_empty (childCfg fw ''ipv4'') in
      (case parseChain (chain_filter ipv4 Forward) ''forward'' of Inl e \<Rightarrow> Inl e | Inr (fr, fs) \<Rightarrow>
      (case parseChain (chain_filter ipv4 Input) ''input'' of Inl e \<Rightarrow> Inl e | Inr (ir, is) \<Rightarrow>
      (case parseChain (chain_filter ipv4 Output) ''output'' of Inl e \<Rightarrow> Inl e | Inr (orr, os) \<Rightarrow>
      (let named = obj_or_empty (childCfg ipv4 ''name''); pairs = parseZonePairs fw in
       case parse_zone_chains named pairs of Inl e \<Rightarrow> Inl e | Inr zr \<Rightarrow>
      (case parseZones lc fw of Inl e \<Rightarrow> Inl e | Inr zones \<Rightarrow>
        Inr \<lparr>fc_aliases = parseAliases lc grp, fc_policies = parsePolicies lc grp,
          fc_rules = sort_by rule_order (fr @ ir @ orr @ groupZoneRules lc zr),
          fc_auto_groups = parseAutoGroups grp, fc_group_names = parseGroupNames grp,
          fc_default_action = cs_default_action fs,
          fc_setup = (\<lambda>c. case c of Forward \<Rightarrow> fs | Input \<Rightarrow> is | Output \<Rightarrow> os),
          fc_zones = zones, fc_zone_pairs = pairs, fc_state_policy = parseStatePolicy fw\<rparr>))))))"

section \<open>Usage look-ups\<close>

definition aliasUsage :: "firewall_rule list \<Rightarrow> auto_group list \<Rightarrow> firewall_alias \<Rightarrow> int list" where
  "aliasUsage rules autoGroups al =
     (if al_type al = Iface then
        let matches = (\<lambda>e. ep_iface_group e = Some (al_name al))
        in map fr_rule (filter (\<lambda>r. matches (fr_from r) \<or> matches (fr_to r)) rules)
      else
        let node = alias_node (al_type al);
            viaAuto = map ag_name
              (filter (\<lambda>g. ag_node g = node \<and> al_name al \<in> set (ag_includes g)) autoGroups);
            matches = (\<lambda>e. ep_group_type e = Some node \<and>
              (case ep_group_name e of None \<Rightarrow> False
               | Some n \<Rightarrow> n = al_name al \<or> n \<in> set viaAuto))
        in map fr_rule (filter (\<lambda>r. matches (fr_from r) \<or> matches (fr_to r)) rules))"

definition interfaceUsage :: "firewall_rule list \<Rightarrow> auto_group list \<Rightarrow> string \<Rightarrow> int list" where
  "interfaceUsage rules autoGroups iface =
     (let viaAuto = map ag_name
          (filter (\<lambda>g. ag_node g = ''interface-group'' \<and> iface \<in> set (ag_interfaces g)) autoGroups);
          matches = (\<lambda>e. ep_iface e = Some iface \<or>
            (case ep_iface_group e of None \<Rightarrow> False | Some n \<Rightarrow> n \<in> set viaAuto))
      in map fr_rule (filter (\<lambda>r. matches (fr_from r) \<or> matches (fr_to r)) rules))"

definition policyUsage :: "firewall_rule list \<Rightarrow> string \<Rightarrow> int list" where
  "policyUsage rules name = map fr_rule (filter (\<lambda>r. fr_policy r = Some name) rules)"

section \<open>Grouping: properties\<close>

definition copies_of :: "(string \<Rightarrow> string \<Rightarrow> int) \<Rightarrow> firewall_rule list \<Rightarrow> int \<Rightarrow> firewall_rule list" where
  "copies_of lc rules n = sort_by (\<lambda>a b. lc (fr_chain a) (fr_chain b)) (filter (\<lambda>r. fr_rule r = n) rules)"

lemma groupZoneRules_copies:
  "groupZoneRules lc rules = map (\<lambda>n. (hd (copies_of lc rules n))
     \<lparr>fr_scopes := map (\<lambda>c. \<lparr>sc_chain = fr_chain c, sc_raw = fr_raw c\<rparr>) (copies_of lc rules n)\<rparr>)
     (uniq (map fr_rule rules))"
  by (simp add: groupZoneRules_def copies_of_def Let_def)

lemma copies_of_number:
  "n \<in> fr_rule ` set rules \<Longrightarrow> copies_of lc rules n \<noteq> [] \<and> (\<forall>r\<in>set (copies_of lc rules n). fr_rule r = n)"
  by (auto simp: copies_of_def filter_empty_conv)

lemma copies_of_hd: "n \<in> fr_rule ` set rules \<Longrightarrow> fr_rule (hd (copies_of lc rules n)) = n"
  using copies_of_number [of n rules lc] hd_in_set by blast

lemma mset_concat_cong: "(\<And>x. x \<in> set xs \<Longrightarrow> mset (f x) = mset (g x)) \<Longrightarrow>
    mset (concat (map f xs)) = mset (concat (map g xs))"
  by (induction xs) simp_all

text \<open>
  Collapsing the copies of zone rules loses nothing and invents nothing. The rules that
  \<open>groupZoneRules\<close> returns have one number each, every one has a scope, its chain is the chain
  of its first scope, and their scopes together are exactly the config rules that went in, each
  with its chain, number and raw subtree.
\<close>

theorem groupZoneRules_partition:
  "distinct (map fr_rule (groupZoneRules lc rules)) \<and>
   (\<forall>r\<in>set (groupZoneRules lc rules). fr_scopes r \<noteq> [] \<and> fr_chain r = sc_chain (hd (fr_scopes r))) \<and>
   mset (concat (map (\<lambda>r. map (\<lambda>s. (fr_rule r, sc_chain s, sc_raw s)) (fr_scopes r)) (groupZoneRules lc rules)))
     = mset (map (\<lambda>r. (fr_rule r, fr_chain r, fr_raw r)) rules)"
proof (intro conjI)
  let ?ns = "uniq (map fr_rule rules)"
  have ns: "set ?ns = fr_rule ` set rules" by simp
  have num: "map fr_rule (groupZoneRules lc rules) = ?ns"
    unfolding groupZoneRules_copies map_map
    by (rule map_idI) (use ns copies_of_hd in \<open>simp add: comp_def\<close>)
  then show "distinct (map fr_rule (groupZoneRules lc rules))" by simp
  show "\<forall>r\<in>set (groupZoneRules lc rules). fr_scopes r \<noteq> [] \<and> fr_chain r = sc_chain (hd (fr_scopes r))"
  proof
    fix r assume "r \<in> set (groupZoneRules lc rules)"
    then obtain n where n: "n \<in> set ?ns" and r: "r = (hd (copies_of lc rules n))
        \<lparr>fr_scopes := map (\<lambda>c. \<lparr>sc_chain = fr_chain c, sc_raw = fr_raw c\<rparr>) (copies_of lc rules n)\<rparr>"
      unfolding groupZoneRules_copies by auto
    from n have "n \<in> fr_rule ` set rules" by simp
    from copies_of_number [OF this] have "copies_of lc rules n \<noteq> []" by blast
    then show "fr_scopes r \<noteq> [] \<and> fr_chain r = sc_chain (hd (fr_scopes r))" by (simp add: r hd_map)
  qed
  let ?slot = "\<lambda>r. (fr_rule r, fr_chain r, fr_raw r)"
  have "map (\<lambda>r. map (\<lambda>s. (fr_rule r, sc_chain s, sc_raw s)) (fr_scopes r)) (groupZoneRules lc rules)
      = map (\<lambda>n. map ?slot (copies_of lc rules n)) ?ns"
    unfolding groupZoneRules_copies map_map
  proof (rule map_cong [OF refl])
    fix n assume "n \<in> set ?ns"
    then have n: "n \<in> fr_rule ` set rules" by simp
    have "fr_rule (hd (copies_of lc rules n)) = n" "\<forall>r\<in>set (copies_of lc rules n). fr_rule r = n"
      using copies_of_hd [OF n] copies_of_number [OF n] by simp_all
    then show "((\<lambda>r. map (\<lambda>s. (fr_rule r, sc_chain s, sc_raw s)) (fr_scopes r)) \<circ>
        (\<lambda>n. (hd (copies_of lc rules n))
          \<lparr>fr_scopes := map (\<lambda>c. \<lparr>sc_chain = fr_chain c, sc_raw = fr_raw c\<rparr>) (copies_of lc rules n)\<rparr>)) n =
        map ?slot (copies_of lc rules n)"
      by simp
  qed
  then have "mset (concat (map (\<lambda>r. map (\<lambda>s. (fr_rule r, sc_chain s, sc_raw s)) (fr_scopes r)) (groupZoneRules lc rules)))
      = mset (concat (map (\<lambda>n. map ?slot (filter (\<lambda>r. fr_rule r = n) rules)) ?ns))"
    by (simp only:) (rule mset_concat_cong, simp add: copies_of_def)
  also have "\<dots> = image_mset ?slot (mset (concat (map (\<lambda>n. filter (\<lambda>r. fr_rule r = n) rules) ?ns)))"
    by (simp only: mset_map [symmetric] map_concat map_map comp_def)
  also have "mset (concat (map (\<lambda>n. filter (\<lambda>r. fr_rule r = n) rules) ?ns)) = mset rules"
    by (rule mset_concat_by_key) simp_all
  finally show "mset (concat (map (\<lambda>r. map (\<lambda>s. (fr_rule r, sc_chain s, sc_raw s)) (fr_scopes r)) (groupZoneRules lc rules)))
     = mset (map ?slot rules)"
    by simp
qed

definition zone_copy :: "rule_chain \<Rightarrow> firewall_rule" where
  "zone_copy c = \<lparr>fr_rule = 10, fr_chain = c, fr_scopes = [\<lparr>sc_chain = c, sc_raw = empty_obj\<rparr>],
     fr_name = Some ''web'', fr_action = Some Accept, fr_ips = False, fr_from = no_endpoint,
     fr_to = no_endpoint, fr_policy = None, fr_protocol = Some ''tcp'', fr_enabled = True,
     fr_log = False, fr_raw = empty_obj\<rparr>"

lemma groupZoneRules_partition_witness:
  "\<exists>r. groupZoneRules (\<lambda>_ _. 0) [zone_copy ''name:QZ-Z-LAN-TO-WAN'', zone_copy ''name:QZ-Z-DMZ-TO-WAN''] = [r] \<and>
     fr_scopes r \<noteq> [] \<and> fr_chain r = sc_chain (hd (fr_scopes r))"
proof -
  let ?g = "groupZoneRules (\<lambda>_ _. 0) [zone_copy ''name:QZ-Z-LAN-TO-WAN'', zone_copy ''name:QZ-Z-DMZ-TO-WAN'']"
  have "length ?g = 1"
    by (simp only: groupZoneRules_copies length_map) (simp add: uniq_def zone_copy_def)
  then obtain r where "?g = [r]" 
    by (auto simp only: One_nat_def length_Suc_conv length_0_conv)
  moreover from this have "fr_scopes r \<noteq> [] \<and> fr_chain r = sc_chain (hd (fr_scopes r))"
    using groupZoneRules_partition [THEN conjunct2, THEN conjunct1, rule_format, of r "\<lambda>_ _. 0"
        "[zone_copy ''name:QZ-Z-LAN-TO-WAN'', zone_copy ''name:QZ-Z-DMZ-TO-WAN'']"]
    by (simp only: list.set insert_iff simp_thms)
  ultimately show ?thesis by blast
qed

end
