(* ===== verification/Node_Editor.thy ===== *)
theory Node_Editor
  imports Vyos_Config
begin

text \<open>
  Two interfaces that the data modules share.

  \<^item> \<open>keyed_nodes\<close>: a family of configuration nodes with one path per key (rules, groups,
    zones, VLANs, ...). Different keys have disjoint subtrees, so an edit of one node leaves the
    others alone.
  \<^item> \<open>node_editor\<close>: a \<open>diff\<close> function for one node. A rename deletes the old node and builds
    the new one; otherwise the live object is compared leaf by leaf; a new node with no leaf is
    created explicitly. The client lemmas say what the commands do to the device, that they are
    empty when nothing changes, and that every delete names a configured node.

  The modules interpret both on their own definitions.
\<close>

section \<open>Families of nodes\<close>

locale keyed_nodes =
  fixes base :: "'k \<Rightarrow> path" and valid :: "'k \<Rightarrow> bool" and depth :: nat
  assumes base_length: "length (base k) = depth"
    and base_inj: "valid k \<Longrightarrow> valid l \<Longrightarrow> base k = base l \<Longrightarrow> k = l"
begin

lemma base_prefix: "prefix (base k) (base l) \<longleftrightarrow> base k = base l"
  using base_length by (metis prefix_order.refl not_equal_is_parallel parallelE)

lemma base_append_prefix: "prefix (base k @ p) (base l) \<Longrightarrow> p = [] \<and> base k = base l"
  using base_length [of k] base_length [of l]
  by (metis append_prefixD base_prefix append_self_conv prefix_order.antisym prefixI)

lemma cones_disjoint:
  assumes "valid k" "valid l" "k \<noteq> l"
  shows "cone (base k) \<inter> cone (base l) = {}"
  using assms base_inj by (simp add: cone_disjoint_iff base_prefix) metis

lemma cone_of_key:
  assumes "q \<in> cone (base k)" "q \<in> cone (base l)"
  shows "base k = base l"
  using assms by (metis base_prefix in_cone prefix_same_cases)

end

section \<open>The diff of one node\<close>

definition node_diff ::
  "('u \<Rightarrow> bool) \<Rightarrow> ('u \<Rightarrow> path) \<Rightarrow> ('u \<Rightarrow> path) \<Rightarrow> ('e \<Rightarrow> 'u \<Rightarrow> 'l option) \<Rightarrow>
   ('l option \<Rightarrow> 'u \<Rightarrow> vyos_command list) \<Rightarrow> 'e \<Rightarrow> 'u \<Rightarrow> vyos_command list" where
  "node_diff moved old_base new_base live body e u =
     (if moved u then [cdel (old_base u)] else []) @
     ensureCreated (body (live e u) u) (new_base u) (live e u = None)"

definition old_cone :: "('u \<Rightarrow> bool) \<Rightarrow> ('u \<Rightarrow> path) \<Rightarrow> 'u \<Rightarrow> path set" where
  "old_cone moved old_base u = (if moved u then cone (old_base u) else {})"

lemma run_ensureCreated:
  assumes dev: "device_laws dev single" and "edits dev C body L D" and "S \<inter> C = L"
    and "is_new \<Longrightarrow> L = {} \<and> (has_set body \<longleftrightarrow> D \<noteq> {})" and "\<not> single (butlast base)"
  shows "run dev (ensureCreated body base is_new) S =
    (S - C) \<union> D \<union> (if is_new \<and> D = {} then {base} else {})"
proof (cases "is_new \<and> \<not> has_set body")
  case True
  then have "D = {}" "S - C = S" using assms(3,4) by auto
  with True assms(5) show ?thesis by (simp add: ensureCreated_def dev_set_multi [OF dev])
next
  case False
  then have "ensureCreated body base is_new = body" by (auto simp: ensureCreated_def)
  moreover have "run dev body S = (S - C) \<union> D" using assms(2,3) by (rule edits_run)
  moreover have "\<not> (is_new \<and> D = {})" using False assms(4) by auto
  ultimately show ?thesis by (simp only: if_False Un_empty_right)
qed

locale node_editor =
  fixes schema :: "(path \<Rightarrow> bool) \<Rightarrow> bool"
    and moved :: "'u \<Rightarrow> bool"
    and old_base new_base :: "'u \<Rightarrow> path"
    and live :: "'e \<Rightarrow> 'u \<Rightarrow> 'l option"
    and body :: "'l option \<Rightarrow> 'u \<Rightarrow> vyos_command list"
    and region :: "'u \<Rightarrow> path set"
    and before :: "'l \<Rightarrow> 'u \<Rightarrow> path set"
    and after :: "'u \<Rightarrow> path set"
  assumes region_base: "region u \<subseteq> cone (new_base u)"
    and moved_new: "moved u \<Longrightarrow> live e u = None"
    and edit_live: "device_laws dev single \<Longrightarrow> schema single \<Longrightarrow> live e u = Some l \<Longrightarrow>
      edits dev (region u) (body (Some l) u) (before l u) (after u)"
    and edit_new: "device_laws dev single \<Longrightarrow> schema single \<Longrightarrow>
      edits dev (region u) (body None u) {} (after u)"
    and new_sets: "has_set (body None u) \<longleftrightarrow> after u \<noteq> {}"
    and parent_multi: "schema single \<Longrightarrow> \<not> single (butlast (new_base u))"
    and idle: "live e u = Some l \<Longrightarrow> before l u = after u \<Longrightarrow> body (Some l) u = []"
    and live_deletes: "live e u = Some l \<Longrightarrow> deletes_live (before l u) (body (Some l) u)"
    and new_deletes: "deletes_live {} (body None u)"
begin

lemma diff_run:
  assumes dev: "device_laws dev single" and sch: "schema single"
    and before: "case live e u of Some l \<Rightarrow> S \<inter> region u = before l u
      | None \<Rightarrow> (S - old_cone moved old_base u) \<inter> cone (new_base u) = {}"
  shows "run dev (node_diff moved old_base new_base live body e u) S =
    (S - old_cone moved old_base u - region u) \<union> after u \<union>
    (if live e u = None \<and> after u = {} then {new_base u} else {})"
proof (cases "live e u")
  case None
  let ?S = "S - old_cone moved old_base u"
  have dis: "?S \<inter> region u = {}" using before None region_base [of u] by auto
  have "run dev (if moved u then [cdel (old_base u)] else []) S = ?S"
    by (simp add: old_cone_def dev_delete [OF dev])
  moreover have "run dev (ensureCreated (body None u) (new_base u) True) ?S =
      (?S - region u) \<union> after u \<union> (if True \<and> after u = {} then {new_base u} else {})"
    by (rule run_ensureCreated [OF dev edit_new [OF dev sch] dis _ parent_multi [OF sch]])
      (simp add: new_sets)
  ultimately show ?thesis using None by (simp add: node_diff_def)
next
  case (Some l)
  then have unmoved: "\<not> moved u" using moved_new by fastforce
  have "S \<inter> region u = before l u" using before Some by simp
  then have "run dev (ensureCreated (body (Some l) u) (new_base u) False) S =
      (S - region u) \<union> after u \<union> (if False \<and> after u = {} then {new_base u} else {})"
    by (intro run_ensureCreated [OF dev edit_live [OF dev sch Some] _ _ parent_multi [OF sch]]) auto
  with unmoved Some show ?thesis by (simp add: node_diff_def old_cone_def)
qed

lemma diff_idle:
  assumes "live e u = Some l" and "before l u = after u"
  shows "node_diff moved old_base new_base live body e u = []"
  using assms moved_new [of u e] idle by (auto simp: node_diff_def ensureCreated_def)

lemma diff_deletes_live:
  assumes "case live e u of Some l \<Rightarrow> before l u \<subseteq> S | None \<Rightarrow> True"
    and "moved u \<Longrightarrow> S \<inter> cone (old_base u) \<noteq> {}"
  shows "deletes_live S (node_diff moved old_base new_base live body e u)"
proof -
  have "deletes_live S (body (live e u) u)"
  proof (cases "live e u")
    case None
    then show ?thesis using deletes_live_mono [OF new_deletes] by simp
  next
    case (Some l)
    then show ?thesis using assms(1) deletes_live_mono [OF live_deletes [OF Some]] by simp
  qed
  then show ?thesis
    using assms(2) by (auto simp: node_diff_def ensureCreated_def deletes_live_def)
qed

end

section \<open>Facts the interpretations share\<close>

lemma list_paths_eq_iff [simp]: "list_paths p vs = list_paths p ws \<longleftrightarrow> set vs = set ws"
  by (auto simp: list_paths_def inj_image_eq_iff inj_def)

lemma leaf_paths_eq_iff [simp]: "leaf_paths p v = leaf_paths p w \<longleftrightarrow> v = w"
  by (auto simp: leaf_paths_def split: option.splits)

lemma flag_paths_eq_iff [simp]: "flag_paths p a = flag_paths p b \<longleftrightarrow> a = b"
  by (auto simp: flag_paths_def)

lemma leaf_paths_None [simp]: "leaf_paths p None = {}"
  by (simp add: leaf_paths_def)

lemma leaf_paths_empty_iff [simp]: "leaf_paths p v = {} \<longleftrightarrow> v = None"
  by (auto simp: leaf_paths_def split: option.splits)

lemma list_paths_Nil [simp]: "list_paths p [] = {}"
  by (simp add: list_paths_def)

lemma list_paths_empty_iff [simp]: "list_paths p vs = {} \<longleftrightarrow> vs = []"
  by (simp add: list_paths_def)

lemma flag_paths_False [simp]: "flag_paths p False = {}"
  by (simp add: flag_paths_def)

lemma flag_paths_empty_iff [simp]: "flag_paths p b = {} \<longleftrightarrow> \<not> b"
  by (simp add: flag_paths_def)

lemma list_cmds_idle: "set live = set desired \<Longrightarrow> list_cmds p live desired = []"
  by (auto simp: list_cmds_def filter_empty_conv)

lemma list_cmds_new_deletes [simp]: "deletes_live {} (list_cmds p [] desired)"
  by (auto simp: deletes_live_def list_cmds_def)

lemma leaf_cmds_new_deletes [simp]: "deletes_live {} (leaf_cmds p None desired)"
  by (auto simp: deletes_live_def leaf_cmds_def split: option.splits)

lemma flag_cmds_new_deletes [simp]: "deletes_live {} (flag_cmds p False desired)"
  by (auto simp: deletes_live_def flag_cmds_def)

lemma deletes_live_Un1: "deletes_live L cs \<Longrightarrow> deletes_live (L \<union> M) cs"
  by (erule deletes_live_mono) simp

lemma deletes_live_Un2: "deletes_live M cs \<Longrightarrow> deletes_live (L \<union> M) cs"
  by (erule deletes_live_mono) simp

text \<open>
  Parts of one object that live in disjoint regions are equal together exactly when they are
  equal one by one.
\<close>

lemma Un_split_eq:
  assumes "A \<union> B = A' \<union> B'" and "A \<subseteq> C" "A' \<subseteq> C" "B \<subseteq> D" "B' \<subseteq> D" and "C \<inter> D = {}"
  shows "A = A' \<and> B = B'"
  using assms by blast

lemma leaf_list_eq:
  assumes "leaf_paths p v \<union> list_paths q vs = leaf_paths p w \<union> list_paths q ws"
    and "\<not> prefix p q" "\<not> prefix q p"
  shows "v = w \<and> set vs = set ws"
  using Un_split_eq [OF assms(1) leaf_paths_cone leaf_paths_cone list_paths_cone list_paths_cone]
    assms(2,3) by (simp add: cone_disjoint_iff)

text \<open>The parts of an object, read off by the cones they lie in.\<close>

lemma paths_Int_own:
  "leaf_paths p v \<inter> cone p = leaf_paths p v" "list_paths p vs \<inter> cone p = list_paths p vs"
  "flag_paths p b \<inter> cone p = flag_paths p b"
  using leaf_paths_cone list_paths_cone flag_paths_cone by (simp_all add: inf.absorb1)

lemma paths_Int_cone [cone_simps]:
  assumes "\<not> prefix p q" and "\<not> prefix q p"
  shows "leaf_paths q v \<inter> cone p = {}" "list_paths q vs \<inter> cone p = {}" "flag_paths q b \<inter> cone p = {}"
proof -
  have "cone q \<inter> cone p = {}" using assms by (simp add: cone_disjoint_iff)
  then show "leaf_paths q v \<inter> cone p = {}" "list_paths q vs \<inter> cone p = {}" "flag_paths q b \<inter> cone p = {}"
    using leaf_paths_cone [of q v] list_paths_cone [of q vs] flag_paths_cone [of q b] by blast+
qed

lemma paths_within_cone:
  assumes "prefix p q"
  shows "leaf_paths q v \<subseteq> cone p" "list_paths q vs \<subseteq> cone p" "flag_paths q b \<subseteq> cone p"
  using leaf_paths_cone [of q v] list_paths_cone [of q vs] flag_paths_cone [of q b] cone_mono [OF assms]
  by blast+

lemma deletes_live_parts:
  "deletes_live L cs \<Longrightarrow> deletes_live M ds \<Longrightarrow> deletes_live (L \<union> M) (cs @ ds)"
  by (simp add: deletes_live_Un1 deletes_live_Un2)

end
