(* ===== verification/Firewall_Groups.thy ===== *)
theory Firewall_Groups
  imports Firewall_Read Node_Editor
begin

text \<open>
  The writes of aliases and policies in \<open>lib/firewall.ts\<close>: the diffs from the live object to
  the desired one.
\<close>

section \<open>Config paths of the firewall\<close>

definition groupBase :: "alias_type \<Rightarrow> string \<Rightarrow> path" where
  "groupBase type name = [''firewall'', ''group'', alias_node type, name]"

definition firewall_policyBase :: "string \<Rightarrow> path" where
  "firewall_policyBase name = [''firewall'', ''group'', ''port-group'', name]"

definition filterBase :: "rule_chain \<Rightarrow> path" where
  "filterBase chain = (case rulesetName chain of
       None \<Rightarrow> [''firewall'', ''ipv4'', chain, ''filter'']
     | Some ruleset \<Rightarrow> [''firewall'', ''ipv4'', ''name'', ruleset])"

definition ruleBase :: "rule_chain \<Rightarrow> int \<Rightarrow> path" where
  "ruleBase chain rule = filterBase chain @ [''rule'', string_of_int rule]"

section \<open>Aliases\<close>

record alias_update =
  au_name :: string
  au_display :: string
  au_type :: alias_type
  au_description :: "string option"
  au_members :: "string list"
  au_original_name :: "string option"
  au_original_type :: "alias_type option"

definition alias_moved :: "alias_update \<Rightarrow> bool" where
  "alias_moved u \<longleftrightarrow> au_original_name u \<noteq> None \<and> au_original_type u \<noteq> None \<and>
     (au_original_name u \<noteq> Some (au_name u) \<or> au_original_type u \<noteq> Some (au_type u))"

definition alias_live :: "firewall_alias list \<Rightarrow> alias_update \<Rightarrow> firewall_alias option" where
  "alias_live existing u = (if alias_moved u then None
     else List.find (\<lambda>a. al_name a = au_name u \<and> al_type a = au_type u) existing)"

definition alias_body :: "firewall_alias option \<Rightarrow> alias_update \<Rightarrow> vyos_command list" where
  "alias_body live u =
     (let base = groupBase (au_type u) (au_name u);
          newDesc = encodeAliasDescription (au_name u) (au_display u) (au_description u);
          liveDesc = (case live of None \<Rightarrow> None
            | Some l \<Rightarrow> encodeAliasDescription (al_name l) (al_display l) (al_description l));
          liveMembers = (case live of None \<Rightarrow> [] | Some l \<Rightarrow> al_members l)
      in leaf_cmds (base @ [''description'']) liveDesc newDesc @
         list_cmds (base @ [alias_member_leaf (au_type u)]) liveMembers (clean (au_members u)))"

definition diffAlias :: "firewall_alias list \<Rightarrow> alias_update \<Rightarrow> vyos_command list" where
  "diffAlias existing u =
     (if alias_moved u
      then [cdel (groupBase (the (au_original_type u)) (the (au_original_name u)))] else []) @
     ensureCreated (alias_body (alias_live existing u) u) (groupBase (au_type u) (au_name u))
       (alias_live existing u = None)"

definition deleteAlias_cmds :: "firewall_alias \<Rightarrow> vyos_command list" where
  "deleteAlias_cmds al = [cdel (groupBase (al_type al) (al_name al))]"

section \<open>Policies\<close>

record policy_update =
  pu_name :: string
  pu_protocol :: policy_protocol
  pu_ports :: "string list"
  pu_description :: "string option"
  pu_original_name :: "string option"

definition policy_moved :: "policy_update \<Rightarrow> bool" where
  "policy_moved u \<longleftrightarrow> pu_original_name u \<noteq> None \<and> pu_original_name u \<noteq> Some (pu_name u)"

definition policy_live :: "firewall_policy list \<Rightarrow> policy_update \<Rightarrow> firewall_policy option" where
  "policy_live existing u = (if policy_moved u then None
     else List.find (\<lambda>p. fp_name p = pu_name u) existing)"

definition policy_body :: "firewall_policy option \<Rightarrow> policy_update \<Rightarrow> vyos_command list" where
  "policy_body live u =
     (let base = firewall_policyBase (pu_name u);
          newDesc = encodePolicyDescription (pu_protocol u) (pu_description u);
          liveDesc = map_option (\<lambda>l. encodePolicyDescription (fp_protocol l) (fp_description l)) live;
          livePorts = (case live of None \<Rightarrow> [] | Some l \<Rightarrow> fp_ports l)
      in leaf_cmds (base @ [''description'']) liveDesc (Some newDesc) @
         list_cmds (base @ [''port'']) livePorts (clean (pu_ports u)))"

text \<open>The rules using the policy: the \<open>protocol\<close> leaf of the representative scope.\<close>

definition policy_rule_sync ::
  "firewall_policy option \<Rightarrow> firewall_rule list \<Rightarrow> policy_update \<Rightarrow> vyos_command list" where
  "policy_rule_sync live rules u = (case live of
       None \<Rightarrow> []
     | Some l \<Rightarrow>
         if fp_protocol l \<noteq> pu_protocol u then
           map (\<lambda>r. cset (ruleBase (fr_chain r) (fr_rule r) @ [''protocol'', protocol_str (pu_protocol u)]))
             (filter (\<lambda>r. fr_policy r = Some (pu_name u)) rules)
         else [])"

definition diffPolicy ::
  "firewall_policy list \<Rightarrow> firewall_rule list \<Rightarrow> policy_update \<Rightarrow> vyos_command list" where
  "diffPolicy existing rules u =
     (if policy_moved u then [cdel (firewall_policyBase (the (pu_original_name u)))] else []) @
     policy_body (policy_live existing u) u @
     policy_rule_sync (policy_live existing u) rules u"

definition deletePolicy_cmds :: "string \<Rightarrow> vyos_command list" where
  "deletePolicy_cmds name = [cdel (firewall_policyBase name)]"

section \<open>What the alias diff does to the device\<close>

text \<open>
  The nodes involved: group nodes and member leaves hold many values, the description one.
\<close>

definition alias_schema :: "(path \<Rightarrow> bool) \<Rightarrow> bool" where
  "alias_schema single \<longleftrightarrow> (\<forall>type name.
     \<not> single [''firewall'', ''group'', alias_node type] \<and>
     single (groupBase type name @ [''description'']) \<and>
     \<not> single (groupBase type name @ [alias_member_leaf type]))"

definition alias_region :: "alias_update \<Rightarrow> path set" where
  "alias_region u = cone (groupBase (au_type u) (au_name u) @ [''description'']) \<union>
     cone (groupBase (au_type u) (au_name u) @ [alias_member_leaf (au_type u)])"

text \<open>The leaves of a group node with a description and members.\<close>

definition alias_paths :: "alias_type \<Rightarrow> string \<Rightarrow> string option \<Rightarrow> string list \<Rightarrow> path set" where
  "alias_paths type name desc members =
     leaf_paths (groupBase type name @ [''description'']) desc \<union>
     list_paths (groupBase type name @ [alias_member_leaf type]) members"

definition alias_before :: "firewall_alias \<Rightarrow> alias_update \<Rightarrow> path set" where
  "alias_before l u = alias_paths (au_type u) (au_name u)
     (encodeAliasDescription (al_name l) (al_display l) (al_description l)) (al_members l)"

definition alias_after :: "alias_update \<Rightarrow> path set" where
  "alias_after u = alias_paths (au_type u) (au_name u)
     (encodeAliasDescription (au_name u) (au_display u) (au_description u)) (clean (au_members u))"

lemma alias_member_leaf_not_desc [simp]:
  "alias_member_leaf t \<noteq> ''description''" "''description'' \<noteq> alias_member_leaf t"
  by (cases t; simp)+

lemmas alias_defs = alias_region_def alias_body_def alias_before_def alias_after_def
  alias_paths_def Let_def

interpretation alias_ed: node_editor alias_schema alias_moved
  "\<lambda>u. groupBase (the (au_original_type u)) (the (au_original_name u))"
  "\<lambda>u. groupBase (au_type u) (au_name u)" alias_live alias_body alias_region alias_before alias_after
proof unfold_locales
  fix dev single and e :: "firewall_alias list" and u :: alias_update and l :: firewall_alias
  assume dev: "device_laws dev single" and sch: "alias_schema single"
  have parts: "single (groupBase (au_type u) (au_name u) @ [''description''])"
    "\<not> single (groupBase (au_type u) (au_name u) @ [alias_member_leaf (au_type u)])"
    using sch by (auto simp: alias_schema_def)
  show "edits dev (alias_region u) (alias_body (Some l) u) (alias_before l u) (alias_after u)"
    unfolding alias_defs
    by (simp only: option.case, intro edits_append edits_leaf [OF dev] edits_list [OF dev])
      (simp_all add: parts cone_simps)
  have "edits dev (alias_region u) (alias_body None u)
     (alias_paths (au_type u) (au_name u) None []) (alias_after u)"
    unfolding alias_defs
    by (simp only: option.case, intro edits_append edits_leaf [OF dev] edits_list [OF dev])
      (simp_all add: parts cone_simps)
  then show "edits dev (alias_region u) (alias_body None u) {} (alias_after u)"
    by (simp add: alias_paths_def)
next
  fix u :: alias_update
  show "alias_region u \<subseteq> cone (groupBase (au_type u) (au_name u))"
    by (auto simp: alias_region_def dest: append_prefixD)
next
  fix e :: "firewall_alias list" and u :: alias_update and l :: firewall_alias
  assume "alias_before l u = alias_after u"
  then show "alias_body (Some l) u = []"
    unfolding alias_defs
    by (auto dest!: leaf_list_eq simp: list_cmds_idle)
next
  fix l :: firewall_alias and u :: alias_update
  show "deletes_live (alias_before l u) (alias_body (Some l) u)"
    unfolding alias_defs
    by (auto intro: deletes_live_Un1 deletes_live_Un2 deletes_live_leaf deletes_live_list)
qed (auto simp: alias_live_def alias_defs alias_schema_def
      leaf_cmds_None_set list_cmds_Nil_set groupBase_def)

lemma diffAlias_node: "diffAlias = node_diff alias_moved
    (\<lambda>u. groupBase (the (au_original_type u)) (the (au_original_name u)))
    (\<lambda>u. groupBase (au_type u) (au_name u)) alias_live alias_body"
  by (auto simp: fun_eq_iff diffAlias_def node_diff_def)

section \<open>What the policy diff does to the device\<close>

definition policy_schema :: "(path \<Rightarrow> bool) \<Rightarrow> bool" where
  "policy_schema single \<longleftrightarrow> (\<forall>name.
     \<not> single [''firewall'', ''group'', ''port-group''] \<and>
     single (firewall_policyBase name @ [''description'']) \<and>
     \<not> single (firewall_policyBase name @ [''port'']))"

definition policy_region :: "policy_update \<Rightarrow> path set" where
  "policy_region u = cone (firewall_policyBase (pu_name u) @ [''description'']) \<union>
     cone (firewall_policyBase (pu_name u) @ [''port''])"

definition policy_paths :: "string \<Rightarrow> string \<Rightarrow> string list \<Rightarrow> path set" where
  "policy_paths name desc ports =
     leaf_paths (firewall_policyBase name @ [''description'']) (Some desc) \<union>
     list_paths (firewall_policyBase name @ [''port'']) ports"

definition policy_before :: "firewall_policy \<Rightarrow> policy_update \<Rightarrow> path set" where
  "policy_before l u = policy_paths (pu_name u)
     (encodePolicyDescription (fp_protocol l) (fp_description l)) (fp_ports l)"

definition policy_after :: "policy_update \<Rightarrow> path set" where
  "policy_after u = policy_paths (pu_name u)
     (encodePolicyDescription (pu_protocol u) (pu_description u)) (clean (pu_ports u))"

lemmas policy_defs = policy_region_def policy_body_def policy_before_def policy_after_def
  policy_paths_def Let_def

interpretation policy_ed: node_editor policy_schema policy_moved
  "\<lambda>u. firewall_policyBase (the (pu_original_name u))" "\<lambda>u. firewall_policyBase (pu_name u)"
  policy_live policy_body policy_region policy_before policy_after
proof unfold_locales
  fix dev single and u :: policy_update and l :: firewall_policy
  assume dev: "device_laws dev single" and sch: "policy_schema single"
  have parts: "single (firewall_policyBase (pu_name u) @ [''description''])"
    "\<not> single (firewall_policyBase (pu_name u) @ [''port''])"
    using sch by (auto simp: policy_schema_def)
  show "edits dev (policy_region u) (policy_body (Some l) u) (policy_before l u) (policy_after u)"
    unfolding policy_defs
    by (simp only: option.case option.map,
        intro edits_append edits_leaf [OF dev] edits_list [OF dev])
      (simp_all add: parts cone_simps)
  have "edits dev (policy_region u) (policy_body None u)
     (leaf_paths (firewall_policyBase (pu_name u) @ [''description'']) None \<union>
      list_paths (firewall_policyBase (pu_name u) @ [''port'']) []) (policy_after u)"
    unfolding policy_defs
    by (simp only: option.case option.map,
        intro edits_append edits_leaf [OF dev] edits_list [OF dev])
      (simp_all add: parts cone_simps)
  then show "edits dev (policy_region u) (policy_body None u) {} (policy_after u)" by simp
next
  fix u :: policy_update
  show "policy_region u \<subseteq> cone (firewall_policyBase (pu_name u))"
    by (auto simp: policy_region_def dest: append_prefixD)
next
  fix u :: policy_update and l :: firewall_policy
  assume "policy_before l u = policy_after u"
  then show "policy_body (Some l) u = []"
    unfolding policy_defs
    by (auto dest!: leaf_list_eq simp: list_cmds_idle)
next
  fix l :: firewall_policy and u :: policy_update
  show "deletes_live (policy_before l u) (policy_body (Some l) u)"
    unfolding policy_defs
    by (auto intro: deletes_live_Un1 deletes_live_Un2 deletes_live_leaf deletes_live_list)
qed (auto simp: policy_live_def policy_defs policy_schema_def
      leaf_cmds_None_set list_cmds_Nil_set firewall_policyBase_def)

lemma policy_body_new_sets: "has_set (policy_body None u)"
  by (simp add: policy_body_def Let_def leaf_cmds_None_set)

lemma diffPolicy_node: "diffPolicy existing rules u =
    node_diff policy_moved (\<lambda>u. firewall_policyBase (the (pu_original_name u)))
      (\<lambda>u. firewall_policyBase (pu_name u)) policy_live policy_body existing u @
    policy_rule_sync (policy_live existing u) rules u"
  by (auto simp: diffPolicy_def node_diff_def ensureCreated_def policy_body_new_sets)

section \<open>Rule nodes\<close>

lemma length_filterBase [simp]: "length (filterBase c) = 4"
  by (simp add: filterBase_def split: option.splits)

lemma length_ruleBase [simp]: "length (ruleBase c n) = 6"
  by (simp add: ruleBase_def)

lemma filterBase_inj:
  assumes "wf_chain c" "wf_chain d" "filterBase c = filterBase d"
  shows "c = d"
  using assms by (auto simp: filterBase_def wf_chain_def rulesetName_def prefix_def split: if_splits)

interpretation rule_nodes: keyed_nodes "\<lambda>(c, n). ruleBase c n" "\<lambda>(c, n). wf_chain c" 6
  by unfold_locales (auto simp: ruleBase_def dest: filterBase_inj)

lemma ruleBase_eq_iff:
  "wf_chain c \<Longrightarrow> wf_chain d \<Longrightarrow> ruleBase c n = ruleBase d m \<longleftrightarrow> c = d \<and> n = m"
  using rule_nodes.base_inj [of "(c, n)" "(d, m)"] by auto

lemma hd2_ruleBase: "take 2 (ruleBase c n) = [''firewall'', ''ipv4'']"
  by (simp add: ruleBase_def filterBase_def split: option.splits)

lemma group_path_not_rule:
  assumes "prefix (ruleBase c n) q" and "prefix [''firewall'', ''group''] q"
  shows False
proof -
  obtain r s where "q = ruleBase c n @ r" "q = [''firewall'', ''group''] @ s"
    using assms unfolding prefix_def by blast
  then have "take 2 (ruleBase c n @ r) = take 2 ([''firewall'', ''group''] @ s)" by simp
  then show False by (simp add: hd2_ruleBase)
qed

section \<open>Properties of the alias diff\<close>

text \<open>
  \<open>diffAlias\<close> brings the device from the live group to the desired one. On a device whose
  group shows the live alias (or, for a new or renamed alias, has no node of the new name), the
  commands remove a renamed alias's old node, make the description and member leaves exactly
  those of the update, create a node that would otherwise have no leaf, and leave every other
  path alone.
\<close>

theorem diffAlias_run:
  assumes "device_laws dev single" and "alias_schema single"
    and "case alias_live existing u of
        Some l \<Rightarrow> S \<inter> alias_region u = alias_before l u
      | None \<Rightarrow> (S - old_cone alias_moved
          (\<lambda>u. groupBase (the (au_original_type u)) (the (au_original_name u))) u)
          \<inter> cone (groupBase (au_type u) (au_name u)) = {}"
  shows "run dev (diffAlias existing u) S =
    (S - old_cone alias_moved
        (\<lambda>u. groupBase (the (au_original_type u)) (the (au_original_name u))) u
       - alias_region u) \<union> alias_after u \<union>
    (if alias_live existing u = None \<and> alias_after u = {}
     then {groupBase (au_type u) (au_name u)} else {})"
  unfolding diffAlias_node by (rule alias_ed.diff_run [OF assms])

definition web_alias :: firewall_alias where
  "web_alias = \<lparr>al_name = ''web'', al_display = ''web'', al_type = Host,
     al_description = Some ''old'', al_members = [''10.0.0.1'', ''10.0.0.9'']\<rparr>"

definition web_update :: alias_update where
  "web_update = \<lparr>au_name = ''web'', au_display = ''Web servers'', au_type = Host,
     au_description = None, au_members = ['' 10.0.0.2 '', ''10.0.0.1''],
     au_original_name = Some ''web'', au_original_type = Some Host\<rparr>"

lemma alias_schema_leaf_nodes: "alias_schema (leaf_nodes [''description''])"
  unfolding alias_schema_def leaf_nodes_def groupBase_def
  by (intro allI, rename_tac type name, case_tac type) simp_all

lemma web_live: "alias_live [web_alias] web_update = Some web_alias"
  by (simp add: alias_live_def alias_moved_def web_alias_def web_update_def)

lemma diffAlias_run_witness:
  "run (ref_dev (leaf_nodes [''description''])) (diffAlias [web_alias] web_update)
     (alias_before web_alias web_update) =
   (alias_before web_alias web_update - old_cone alias_moved
        (\<lambda>u. groupBase (the (au_original_type u)) (the (au_original_name u))) web_update
       - alias_region web_update) \<union> alias_after web_update \<union>
    (if alias_live [web_alias] web_update = None \<and> alias_after web_update = {}
     then {groupBase (au_type web_update) (au_name web_update)} else {})"
proof (rule diffAlias_run [OF ref_dev_laws alias_schema_leaf_nodes])
  have "alias_before web_alias web_update \<subseteq> alias_region web_update"
    by (auto simp: alias_before_def alias_paths_def alias_region_def leaf_paths_def list_paths_def
        split: option.splits)
  then show "case alias_live [web_alias] web_update of
      Some l \<Rightarrow> alias_before web_alias web_update \<inter> alias_region web_update = alias_before l web_update
    | None \<Rightarrow> (alias_before web_alias web_update - old_cone alias_moved
          (\<lambda>u. groupBase (the (au_original_type u)) (the (au_original_name u))) web_update)
          \<inter> cone (groupBase (au_type web_update) (au_name web_update)) = {}"
    unfolding web_live by (simp add: inf.absorb1)
qed

text \<open>
  Saving an alias that was not changed sends nothing: when the description the editor
  encodes is the live one and the cleaned members are the live members in any order,
  \<open>diffAlias\<close> is empty.
\<close>

theorem diffAlias_idle:
  assumes "alias_live existing u = Some l"
    and "encodeAliasDescription (au_name u) (au_display u) (au_description u) =
      encodeAliasDescription (al_name l) (al_display l) (al_description l)"
    and "set (clean (au_members u)) = set (al_members l)"
  shows "diffAlias existing u = []"
  unfolding diffAlias_node
proof (rule alias_ed.diff_idle [OF assms(1)])
  have "list_paths p (al_members l) = list_paths p (clean (au_members u))" for p
    using assms(3) by simp
  then show "alias_before l u = alias_after u"
    by (simp only: alias_before_def alias_after_def alias_paths_def assms(2))
qed

lemma diffAlias_idle_witness:
  "diffAlias [web_alias] (web_update \<lparr>au_display := ''web'', au_description := Some '' old'',
     au_members := [''10.0.0.9 '', ''10.0.0.1'']\<rparr>) = []"
  by (rule diffAlias_idle [where l = web_alias])
    (simp_all add: alias_live_def alias_moved_def web_alias_def web_update_def
      encodeAliasDescription_def trim_def js_space_def clean_def insert_commute)

section \<open>Properties of the policy diff\<close>

lemma run_policy_rule_sync:
  assumes dev: "device_laws dev single"
    and "\<And>c n. single (ruleBase c n @ [''protocol''])"
  shows "run dev (policy_rule_sync live rules u) S =
    (case live of Some l \<Rightarrow>
       if fp_protocol l \<noteq> pu_protocol u then
         (S - (\<Union>r\<in>{r \<in> set rules. fr_policy r = Some (pu_name u)}.
            cone (ruleBase (fr_chain r) (fr_rule r) @ [''protocol''])))
         \<union> (\<lambda>r. ruleBase (fr_chain r) (fr_rule r) @ [''protocol'', protocol_str (pu_protocol u)])
             ` {r \<in> set rules. fr_policy r = Some (pu_name u)}
       else S
     | None \<Rightarrow> S)"
proof -
  have sep: "prefix (ruleBase c n @ [''protocol'']) (ruleBase d m @ [''protocol'']) \<Longrightarrow>
      ruleBase c n @ [''protocol''] = ruleBase d m @ [''protocol'']" for c n d m
    by (erule prefix_same_length) simp
  show ?thesis
    using run_single_sets [OF dev, of "filter (\<lambda>r. fr_policy r = Some (pu_name u)) rules"
        "\<lambda>r. ruleBase (fr_chain r) (fr_rule r) @ [''protocol'']" "protocol_str (pu_protocol u)" S]
      assms(2) sep
    by (auto simp: policy_rule_sync_def split: option.splits)
qed

text \<open>
  \<open>diffPolicy\<close> brings the device from the live policy to the desired one: a renamed
  policy's old port group goes, the description (which carries the protocol) and the port leaves
  become exactly those of the update, and when the protocol changed, the \<open>protocol\<close> leaf of
  every rule that uses the policy becomes the new one in the rule's representative scope.
  Nothing else changes.
\<close>

theorem diffPolicy_run:
  assumes dev: "device_laws dev single" and sch: "policy_schema single"
    and rules: "\<And>c n. single (ruleBase c n @ [''protocol''])"
    and before: "case policy_live existing u of
        Some l \<Rightarrow> S \<inter> policy_region u = policy_before l u
      | None \<Rightarrow> (S - old_cone policy_moved (\<lambda>u. firewall_policyBase (the (pu_original_name u))) u)
          \<inter> cone (firewall_policyBase (pu_name u)) = {}"
    and T: "T = (S - old_cone policy_moved (\<lambda>u. firewall_policyBase (the (pu_original_name u))) u
        - policy_region u) \<union> policy_after u"
  shows "run dev (diffPolicy existing rules u) S =
    (case policy_live existing u of Some l \<Rightarrow>
       if fp_protocol l \<noteq> pu_protocol u then
         (T - (\<Union>r\<in>{r \<in> set rules. fr_policy r = Some (pu_name u)}.
            cone (ruleBase (fr_chain r) (fr_rule r) @ [''protocol''])))
         \<union> (\<lambda>r. ruleBase (fr_chain r) (fr_rule r) @ [''protocol'', protocol_str (pu_protocol u)])
             ` {r \<in> set rules. fr_policy r = Some (pu_name u)}
       else T
     | None \<Rightarrow> T)"
proof -
  have "policy_after u \<noteq> {}" by (auto simp: policy_after_def policy_paths_def)
  then show ?thesis
    unfolding diffPolicy_node run_append run_policy_rule_sync [OF dev rules]
      policy_ed.diff_run [OF dev sch before] T
    by (simp cong: option.case_cong if_cong)
qed

definition web_policy :: firewall_policy where
  "web_policy = \<lparr>fp_name = ''WEB'', fp_protocol = Tcp, fp_ports = [''80''], fp_description = None\<rparr>"

definition web_policy_update :: policy_update where
  "web_policy_update = \<lparr>pu_name = ''WEB'', pu_protocol = Tcp_udp, pu_ports = [''80'', ''443''],
     pu_description = None, pu_original_name = Some ''WEB''\<rparr>"

definition web_rule :: firewall_rule where
  "web_rule = \<lparr>fr_rule = 10, fr_chain = ''forward'', fr_scopes = [], fr_name = None,
     fr_action = Some Accept, fr_ips = False, fr_from = no_endpoint, fr_to = no_endpoint,
     fr_policy = Some ''WEB'', fr_protocol = Some ''tcp'', fr_enabled = True, fr_log = False,
     fr_raw = empty_obj\<rparr>"

lemma policy_schema_leaf_nodes: "policy_schema (leaf_nodes [''description'', ''protocol''])"
  by (simp add: policy_schema_def leaf_nodes_def firewall_policyBase_def)

lemma diffPolicy_run_witness:
  "run (ref_dev (leaf_nodes [''description'', ''protocol'']))
     (diffPolicy [web_policy] [web_rule] web_policy_update) (policy_before web_policy web_policy_update) =
   (policy_before web_policy web_policy_update - policy_region web_policy_update
      \<union> policy_after web_policy_update
      - cone (ruleBase ''forward'' 10 @ [''protocol'']))
   \<union> {ruleBase ''forward'' 10 @ [''protocol'', ''tcp_udp'']}"
proof -
  have live: "policy_live [web_policy] web_policy_update = Some web_policy"
    by (simp add: policy_live_def policy_moved_def web_policy_def web_policy_update_def)
  have old: "old_cone policy_moved (\<lambda>u. firewall_policyBase (the (pu_original_name u))) web_policy_update = {}"
    by (simp add: old_cone_def policy_moved_def web_policy_update_def)
  have sub: "policy_before web_policy web_policy_update \<subseteq> policy_region web_policy_update"
    by (auto simp: policy_before_def policy_paths_def policy_region_def leaf_paths_def list_paths_def)
  have rules: "{r. r = web_rule \<and> fr_policy r = Some (pu_name web_policy_update)} = {web_rule}"
    by (auto simp: web_rule_def web_policy_update_def)
  show ?thesis
    using diffPolicy_run [OF ref_dev_laws policy_schema_leaf_nodes, where existing = "[web_policy]"
        and u = web_policy_update and S = "policy_before web_policy web_policy_update"
        and rules = "[web_rule]"]
    by (simp add: live old sub inf.absorb1 leaf_nodes_def rules)
      (simp add: web_policy_def web_policy_update_def web_rule_def)
qed

text \<open>
  A rule whose zone selection spans several pairs has one node per pair, and \<open>diffPolicy\<close>
  leaves all of them but the representative alone: no command of it touches the rule's node in
  a scope that is not the representative scope of a rule with that number, so the nodes there
  keep the protocol of before the edit.
\<close>

theorem diffPolicy_other_scopes:
  assumes "wf_chain c" and "\<forall>r\<in>set rules. wf_chain (fr_chain r)"
    and "\<forall>r\<in>set rules. fr_rule r = n \<longrightarrow> fr_chain r \<noteq> c"
    and "cmd \<in> set (diffPolicy existing rules u)"
  shows "\<not> prefix (ruleBase c n) (cmd_path cmd)"
proof
  assume pre: "prefix (ruleBase c n) (cmd_path cmd)"
  consider "cmd \<in> set (policy_rule_sync (policy_live existing u) rules u)"
    | "cmd \<notin> set (policy_rule_sync (policy_live existing u) rules u)" by blast
  then have "prefix [''firewall'', ''group''] (cmd_path cmd) \<or>
      (\<exists>r\<in>set rules. prefix (ruleBase (fr_chain r) (fr_rule r)) (cmd_path cmd))"
  proof cases
    case 1
    then show ?thesis by (fastforce simp: policy_rule_sync_def split: option.splits if_splits)
  next
    case 2
    with assms(4) show ?thesis
      by (auto simp: diffPolicy_def policy_body_def Let_def leaf_cmds_def
          list_cmds_def firewall_policyBase_def split: if_splits option.splits)
  qed
  with pre group_path_not_rule obtain r where r: "r \<in> set rules"
    and "prefix (ruleBase (fr_chain r) (fr_rule r)) (cmd_path cmd)" by blast
  with pre have "ruleBase c n = ruleBase (fr_chain r) (fr_rule r)"
    using rule_nodes.cone_of_key [of "cmd_path cmd" "(c, n)" "(fr_chain r, fr_rule r)"] by simp
  then show False using assms(1-3) r by (auto simp: ruleBase_eq_iff)
qed

definition two_pair_rule :: firewall_rule where
  "two_pair_rule = web_rule \<lparr>fr_chain := ''name:QZ-Z-LAN-TO-DMZ'',
     fr_scopes := [\<lparr>sc_chain = ''name:QZ-Z-LAN-TO-DMZ'', sc_raw = empty_obj\<rparr>,
                   \<lparr>sc_chain = ''name:QZ-Z-LAN-TO-WAN'', sc_raw = empty_obj\<rparr>]\<rparr>"

lemma diffPolicy_other_scopes_witness:
  "\<not> prefix (ruleBase ''name:QZ-Z-LAN-TO-WAN'' 10)
      (ruleBase ''name:QZ-Z-LAN-TO-DMZ'' 10 @ [''protocol'', ''tcp_udp''])"
  by (rule diffPolicy_other_scopes [of "''name:QZ-Z-LAN-TO-WAN''" "[two_pair_rule]" 10
        "cset (ruleBase ''name:QZ-Z-LAN-TO-DMZ'' 10 @ [''protocol'', ''tcp_udp''])"
        "[web_policy]" web_policy_update, simplified])
    (simp_all add: wf_chain_def two_pair_rule_def web_rule_def diffPolicy_def policy_live_def
      policy_moved_def policy_rule_sync_def web_policy_def web_policy_update_def)

section \<open>Descriptions\<close>

lemma match_proto_mark_encode:
  "match_proto_mark (proto_mark p @ s) = Some p"
  by (cases p) (simp_all add: match_proto_mark_def proto_mark_def)

text \<open>
  The protocol and the comment of a policy survive their one description leaf: decoding
  what \<open>encodePolicyDescription\<close> wrote gives the protocol and the comment back, the comment
  trimmed and a blank one absent.
\<close>

theorem policy_description_roundtrip:
  "decodePolicyDescription (Some (encodePolicyDescription p desc)) = (p, blank_to_none desc)"
proof -
  have ne: "proto_mark p \<noteq> []" by (simp add: proto_mark_def)
  have sp: "trim (CHR '' '' # trim s) = trim s" for s
    using trim_trim [of s] by (simp add: trim_def js_space_def)
  show ?thesis
    using ne match_proto_mark_encode [of p "[]"]
    by (auto simp: decodePolicyDescription_def encodePolicyDescription_def Let_def
        match_proto_mark_encode blank_to_none_def sp split: option.splits)
qed

lemma set_trim: "set (trim s) \<subseteq> set s"
  unfolding trim_def using set_dropWhileD by (metis set_rev subsetI)

lemma match_dn_mark_encode:
  assumes "n \<noteq> []" and "CHR '']'' \<notin> set n"
  shows "match_dn_mark (''[dn:'' @ n @ CHR '']'' # s) = Some (n, s)"
proof -
  have "takeWhile (\<lambda>c. c \<noteq> CHR '']'') (n @ CHR '']'' # s) = n"
    "dropWhile (\<lambda>c. c \<noteq> CHR '']'') (n @ CHR '']'' # s) = CHR '']'' # s"
    using assms(2) by (simp_all add: takeWhile_tail dropWhile_append3) (metis takeWhile_eq_all_conv takeWhile_tail)+
  with assms(1) show ?thesis by (simp add: match_dn_mark_def Let_def)
qed

text \<open>
  The display name and the comment of an alias survive the group's one description leaf:
  for a display name that is not blank and has no closing bracket, decoding what
  \<open>encodeAliasDescription\<close> wrote gives the trimmed display name and the trimmed comment back.
  When the display name is the node name itself no mark is written, so there the comment must
  not look like a mark.
\<close>

theorem alias_description_roundtrip:
  assumes "trim display \<noteq> []" and "CHR '']'' \<notin> set display"
    and "trim display = name \<Longrightarrow> match_dn_mark (case desc of None \<Rightarrow> [] | Some d \<Rightarrow> trim d) = None"
  shows "decodeAliasDescription name (encodeAliasDescription name display desc)
    = (trim display, blank_to_none desc)"
proof -
  have sp: "trim (CHR '' '' # trim s) = trim s" for s
    using trim_trim [of s] by (simp add: trim_def js_space_def)
  have mark: "match_dn_mark (''[dn:'' @ trim display @ CHR '']'' # s) = Some (trim display, s)" for s
    using assms(1,2) set_trim [of display] by (intro match_dn_mark_encode) auto
  show ?thesis
    using assms(1,3) mark
    by (auto simp: decodeAliasDescription_def encodeAliasDescription_def Let_def
        blank_to_none_def sp split: option.splits)
qed

lemma alias_description_roundtrip_witness:
  "decodeAliasDescription ''Web-servers''
     (encodeAliasDescription ''Web-servers'' ''Web servers'' (Some '' in the dmz ''))
   = (''Web servers'', Some ''in the dmz'')"
  using alias_description_roundtrip [of "''Web servers''" "''Web-servers''" "Some '' in the dmz ''"]
  by (simp add: blank_to_none_def trim_def js_space_def)

end
