(* ===== verification/Firewall_Zones.thy ===== *)
theory Firewall_Zones
  imports Firewall_Groups
begin

text \<open>
  Zones in \<open>lib/firewall.ts\<close>: validation, the diff of a zone, its usage and its deletion along
  with every pair it takes part in.
\<close>

definition zoneBase :: "string \<Rightarrow> path" where
  "zoneBase name = [''firewall'', ''zone'', name]"

record zone_update =
  zu_name :: string
  zu_display :: string
  zu_description :: "string option"
  zu_local :: bool
  zu_interfaces :: "string list"
  zu_default_action :: "zone_default_action option"
  zu_default_log :: bool
  zu_intra_zone :: "rule_action option"
  zu_original_name :: "string option"

definition interfaceZone :: "firewall_zone list \<Rightarrow> string \<Rightarrow> string option \<Rightarrow> firewall_zone option" where
  "interfaceZone zones iface exclude =
     List.find (\<lambda>z. Some (zn_name z) \<noteq> exclude \<and> iface \<in> set (zn_interfaces z)) zones"

definition localZone :: "firewall_zone list \<Rightarrow> firewall_zone option" where
  "localZone zones = List.find zn_local zones"

text \<open>The messages of \<open>validateZone\<close>, with what each interpolates.\<close>

datatype zone_error =
    EnterZoneName
  | BadZoneName
  | LocalWithInterfaces
  | LocalWithIntraZone
  | OtherLocalZone string
  | NoInterfaces
  | InterfaceTaken string string

definition is_alnum :: "char \<Rightarrow> bool" where
  "is_alnum c \<longleftrightarrow> is_digit c \<or> is_letter c"

definition zone_name_ok :: "string \<Rightarrow> bool" where
  "zone_name_ok s \<longleftrightarrow> s \<noteq> [] \<and> is_alnum (hd s) \<and>
     list_all (\<lambda>c. is_alnum c \<or> c = CHR ''_'' \<or> c = CHR ''-'' \<or> c = CHR ''.'') (tl s)"

fun first_taken :: "firewall_zone list \<Rightarrow> string option \<Rightarrow> string list \<Rightarrow> zone_error option" where
  "first_taken zones exclude [] = None"
| "first_taken zones exclude (i # is) = (case interfaceZone zones i exclude of
       Some owner \<Rightarrow> Some (InterfaceTaken i (zn_display owner))
     | None \<Rightarrow> first_taken zones exclude is)"

definition validateZone :: "firewall_zone list \<Rightarrow> zone_update \<Rightarrow> zone_error option" where
  "validateZone zones u =
     (if trim (zu_name u) = [] then Some EnterZoneName
      else if \<not> zone_name_ok (zu_name u) then Some BadZoneName
      else if zu_local u then
        (if zu_interfaces u \<noteq> [] then Some LocalWithInterfaces
         else if zu_intra_zone u \<noteq> None then Some LocalWithIntraZone
         else (case List.find (\<lambda>z. zn_local z \<and> Some (zn_name z) \<noteq> zu_original_name u) zones of
             Some other \<Rightarrow> Some (OtherLocalZone (zn_display other)) | None \<Rightarrow> None))
      else if zu_interfaces u = [] then Some NoInterfaces
      else first_taken zones (zu_original_name u) (zu_interfaces u))"

text \<open>
  The global state match, written when it is not there yet. The source pushes onto its output
  argument; here the commands to push are the result.
\<close>

definition state_policy_base :: path where
  "state_policy_base = [''firewall'', ''global-options'', ''state-policy'']"

definition ensureStatePolicy :: "firewall_config \<Rightarrow> vyos_command list" where
  "ensureStatePolicy cfg =
     (if fc_state_policy cfg then []
      else [cset (state_policy_base @ [''established'', ''action'', ''accept'']),
            cset (state_policy_base @ [''related'', ''action'', ''accept''])])"

definition zone_moved :: "zone_update \<Rightarrow> bool" where
  "zone_moved u \<longleftrightarrow> zu_original_name u \<noteq> None \<and> zu_original_name u \<noteq> Some (zu_name u)"

definition zone_live :: "firewall_zone list \<Rightarrow> zone_update \<Rightarrow> firewall_zone option" where
  "zone_live zones u = (if zone_moved u then None else List.find (\<lambda>z. zn_name z = zu_name u) zones)"

text \<open>
  Clearing the intra-zone action deletes its container node, so this leaf is deleted one level
  above its value.
\<close>

definition intra_zone_cmds ::
  "path \<Rightarrow> rule_action option \<Rightarrow> rule_action option \<Rightarrow> vyos_command list" where
  "intra_zone_cmds base live desired =
     (if desired = live then []
      else (case desired of
          Some a \<Rightarrow> [cset (base @ [''intra-zone-filtering'', ''action'', action_str a])]
        | None \<Rightarrow> [cdel (base @ [''intra-zone-filtering''])]))"

definition zone_body :: "firewall_zone option \<Rightarrow> zone_update \<Rightarrow> vyos_command list" where
  "zone_body live u =
     (let base = zoneBase (zu_name u);
          newDesc = encodeAliasDescription (zu_name u) (zu_display u) (zu_description u);
          liveDesc = (case live of None \<Rightarrow> None
            | Some l \<Rightarrow> encodeAliasDescription (zn_name l) (zn_display l) (zn_description l))
      in leaf_cmds (base @ [''description'']) liveDesc newDesc @
         flag_cmds (base @ [''local-zone''])
           (case live of None \<Rightarrow> False | Some l \<Rightarrow> zn_local l) (zu_local u) @
         list_cmds (base @ [''member'', ''interface''])
           (case live of None \<Rightarrow> [] | Some l \<Rightarrow> zn_interfaces l) (clean (zu_interfaces u)) @
         leaf_cmds (base @ [''default-action''])
           (map_option zone_action_str (case live of None \<Rightarrow> None | Some l \<Rightarrow> zn_default_action l))
           (map_option zone_action_str (zu_default_action u)) @
         flag_cmds (base @ [''default-log''])
           (case live of None \<Rightarrow> False | Some l \<Rightarrow> zn_default_log l) (zu_default_log u) @
         intra_zone_cmds base
           (case live of None \<Rightarrow> None | Some l \<Rightarrow> zn_intra_zone l) (zu_intra_zone u))"

definition diffZone :: "firewall_config \<Rightarrow> zone_update \<Rightarrow> zone_error + vyos_command list" where
  "diffZone cfg u = (case validateZone (fc_zones cfg) u of
       Some err \<Rightarrow> Inl err
     | None \<Rightarrow>
         let live = zone_live (fc_zones cfg) u;
             out = (if zone_moved u then [cdel (zoneBase (the (zu_original_name u)))] else []) @
                   ensureCreated (zone_body live u) (zoneBase (zu_name u)) (live = None)
         in Inr (out @ (if out \<noteq> [] then ensureStatePolicy cfg else [])))"

definition zoneUsage :: "firewall_config \<Rightarrow> firewall_zone \<Rightarrow> firewall_rule list" where
  "zoneUsage cfg zone =
     (let rulesets = map zp_ruleset
          (filter (\<lambda>p. zp_src p = zn_name zone \<or> zp_dst p = zn_name zone) (fc_zone_pairs cfg))
      in filter (\<lambda>r. case rulesetName (fr_chain r) of None \<Rightarrow> False | Some n \<Rightarrow> n \<in> set rulesets)
           (fc_rules cfg))"

fun zone_pair_deletes :: "string \<Rightarrow> zone_pair list \<Rightarrow> vyos_command list" where
  "zone_pair_deletes z [] = []"
| "zone_pair_deletes z (p # ps) =
     (if zp_src p \<noteq> z \<and> zp_dst p \<noteq> z then []
      else (if zp_dst p \<noteq> z then [cdel (zoneBase (zp_dst p) @ [''from'', zp_src p])] else []) @
           [cdel [''firewall'', ''ipv4'', ''name'', zp_ruleset p]]) @
     zone_pair_deletes z ps"

definition deleteZone_cmds :: "firewall_config \<Rightarrow> firewall_zone \<Rightarrow> vyos_command list" where
  "deleteZone_cmds cfg zone =
     zone_pair_deletes (zn_name zone) (fc_zone_pairs cfg) @ [cdel (zoneBase (zn_name zone))]"

section \<open>What the zone diff does to the device\<close>

definition zone_schema :: "(path \<Rightarrow> bool) \<Rightarrow> bool" where
  "zone_schema single \<longleftrightarrow> \<not> single [''firewall'', ''zone''] \<and> (\<forall>name.
     \<not> single (zoneBase name) \<and> single (zoneBase name @ [''description'']) \<and>
     \<not> single (zoneBase name @ [''member'', ''interface'']) \<and>
     single (zoneBase name @ [''default-action'']) \<and>
     single (zoneBase name @ [''intra-zone-filtering'', ''action'']))"

definition zone_region :: "zone_update \<Rightarrow> path set" where
  "zone_region u = (let base = zoneBase (zu_name u) in
     cone (base @ [''description'']) \<union> (cone (base @ [''local-zone'']) \<union>
     (cone (base @ [''member'', ''interface'']) \<union> (cone (base @ [''default-action'']) \<union>
     (cone (base @ [''default-log'']) \<union> cone (base @ [''intra-zone-filtering'']))))))"

text \<open>The leaves of a zone with the given description, flags, members and actions.\<close>

definition zone_paths ::
  "string \<Rightarrow> string option \<Rightarrow> bool \<Rightarrow> string list \<Rightarrow> zone_default_action option \<Rightarrow> bool
    \<Rightarrow> rule_action option \<Rightarrow> path set" where
  "zone_paths name desc local ifaces da dlog intra = (let base = zoneBase name in
     leaf_paths (base @ [''description'']) desc \<union> (flag_paths (base @ [''local-zone'']) local \<union>
     (list_paths (base @ [''member'', ''interface'']) ifaces \<union>
     (leaf_paths (base @ [''default-action'']) (map_option zone_action_str da) \<union>
     (flag_paths (base @ [''default-log'']) dlog \<union>
      leaf_paths (base @ [''intra-zone-filtering'', ''action'']) (map_option action_str intra))))))"

definition zone_before :: "firewall_zone \<Rightarrow> zone_update \<Rightarrow> path set" where
  "zone_before l u = zone_paths (zu_name u)
     (encodeAliasDescription (zn_name l) (zn_display l) (zn_description l)) (zn_local l)
     (zn_interfaces l) (zn_default_action l) (zn_default_log l) (zn_intra_zone l)"

definition zone_after :: "zone_update \<Rightarrow> path set" where
  "zone_after u = zone_paths (zu_name u)
     (encodeAliasDescription (zu_name u) (zu_display u) (zu_description u)) (zu_local u)
     (clean (zu_interfaces u)) (zu_default_action u) (zu_default_log u) (zu_intra_zone u)"

lemma action_str_inj [simp]: "action_str a = action_str b \<longleftrightarrow> a = b"
  by (cases a; cases b) simp_all

lemma zone_action_str_inj [simp]: "zone_action_str a = zone_action_str b \<longleftrightarrow> a = b"
  by (cases a; cases b) simp_all

lemma edits_intra_zone:
  assumes dev: "device_laws dev single"
    and "single (base @ [''intra-zone-filtering'', ''action''])"
  shows "edits dev (cone (base @ [''intra-zone-filtering''])) (intra_zone_cmds base live desired)
    (leaf_paths (base @ [''intra-zone-filtering'', ''action'']) (map_option action_str live))
    (leaf_paths (base @ [''intra-zone-filtering'', ''action'']) (map_option action_str desired))"
proof (rule editsI)
  fix R :: "path set"
  assume R: "R \<inter> cone (base @ [''intra-zone-filtering'']) = {}"
  then have out: "R - cone (base @ [''intra-zone-filtering'', ''action'']) = R"
    using cone_mono [of "base @ [''intra-zone-filtering'']" "base @ [''intra-zone-filtering'', ''action'']"]
    by auto
  show "run dev (intra_zone_cmds base live desired)
      (R \<union> leaf_paths (base @ [''intra-zone-filtering'', ''action'']) (map_option action_str live)) =
    R \<union> leaf_paths (base @ [''intra-zone-filtering'', ''action'']) (map_option action_str desired)"
    using assms(2) R out
    by (auto simp: intra_zone_cmds_def leaf_paths_def dev_delete [OF dev] dev_set_single [OF dev]
        butlast_append Un_Diff split: option.splits)
qed (auto simp: leaf_paths_def split: option.splits)

lemma deletes_live_intra_zone:
  "deletes_live (leaf_paths (base @ [''intra-zone-filtering'', ''action'']) (map_option action_str live))
    (intra_zone_cmds base live desired)"
  by (auto simp: deletes_live_def intra_zone_cmds_def leaf_paths_def split: option.splits)

lemma intra_zone_cmds_same [simp]: "intra_zone_cmds base a a = []"
  by (simp add: intra_zone_cmds_def)

lemma intra_zone_cmds_None_set: "has_set (intra_zone_cmds base None d) \<longleftrightarrow> d \<noteq> None"
  by (auto simp: intra_zone_cmds_def has_set_def split: option.splits)

lemma intra_zone_new_deletes [simp]: "deletes_live {} (intra_zone_cmds base None d)"
  by (auto simp: deletes_live_def intra_zone_cmds_def split: option.splits)

lemmas zone_defs = zone_region_def zone_body_def zone_before_def zone_after_def zone_paths_def Let_def

lemma zone_paths_parts:
  "zone_paths n d l i da dl iz \<inter> cone (zoneBase n @ [''description'']) =
     leaf_paths (zoneBase n @ [''description'']) d"
  "zone_paths n d l i da dl iz \<inter> cone (zoneBase n @ [''local-zone'']) =
     flag_paths (zoneBase n @ [''local-zone'']) l"
  "zone_paths n d l i da dl iz \<inter> cone (zoneBase n @ [''member'', ''interface'']) =
     list_paths (zoneBase n @ [''member'', ''interface'']) i"
  "zone_paths n d l i da dl iz \<inter> cone (zoneBase n @ [''default-action'']) =
     leaf_paths (zoneBase n @ [''default-action'']) (map_option zone_action_str da)"
  "zone_paths n d l i da dl iz \<inter> cone (zoneBase n @ [''default-log'']) =
     flag_paths (zoneBase n @ [''default-log'']) dl"
  "zone_paths n d l i da dl iz \<inter> cone (zoneBase n @ [''intra-zone-filtering'', ''action'']) =
     leaf_paths (zoneBase n @ [''intra-zone-filtering'', ''action'']) (map_option action_str iz)"
  by (simp_all add: zone_paths_def Let_def cone_simps paths_Int_own)

lemma zone_paths_inj:
  assumes "zone_paths n d l i da dl iz = zone_paths n d' l' i' da' dl' iz'"
  shows "d = d' \<and> l = l' \<and> set i = set i' \<and> da = da' \<and> dl = dl' \<and> iz = iz'"
  using arg_cong [OF assms, of "\<lambda>X. X \<inter> cone (zoneBase n @ [''description''])"]
    arg_cong [OF assms, of "\<lambda>X. X \<inter> cone (zoneBase n @ [''local-zone''])"]
    arg_cong [OF assms, of "\<lambda>X. X \<inter> cone (zoneBase n @ [''member'', ''interface''])"]
    arg_cong [OF assms, of "\<lambda>X. X \<inter> cone (zoneBase n @ [''default-action''])"]
    arg_cong [OF assms, of "\<lambda>X. X \<inter> cone (zoneBase n @ [''default-log''])"]
    arg_cong [OF assms, of "\<lambda>X. X \<inter> cone (zoneBase n @ [''intra-zone-filtering'', ''action''])"]
  unfolding zone_paths_parts by (simp add: map_option_eq_inj)

lemma zone_parts:
  assumes "zone_schema single"
  shows "single (zoneBase n @ [''description''])" "\<not> single (zoneBase n)"
    "\<not> single (zoneBase n @ [''member'', ''interface''])" "single (zoneBase n @ [''default-action''])"
    "single (zoneBase n @ [''intra-zone-filtering'', ''action''])" "\<not> single [''firewall'', ''zone'']"
  using assms by (simp_all add: zone_schema_def)

lemma zone_body_edits:
  assumes dev: "device_laws dev single" and sch: "zone_schema single"
  shows "edits dev (zone_region u) (zone_body live u)
    (case live of None \<Rightarrow> {} | Some l \<Rightarrow> zone_before l u) (zone_after u)"
proof -
  have "edits dev (zone_region u) (zone_body live u)
    (zone_paths (zu_name u)
      (case live of None \<Rightarrow> None | Some l \<Rightarrow> encodeAliasDescription (zn_name l) (zn_display l) (zn_description l))
      (case live of None \<Rightarrow> False | Some l \<Rightarrow> zn_local l)
      (case live of None \<Rightarrow> [] | Some l \<Rightarrow> zn_interfaces l)
      (case live of None \<Rightarrow> None | Some l \<Rightarrow> zn_default_action l)
      (case live of None \<Rightarrow> False | Some l \<Rightarrow> zn_default_log l)
      (case live of None \<Rightarrow> None | Some l \<Rightarrow> zn_intra_zone l)) (zone_after u)"
    unfolding zone_defs
    by (intro edits_append edits_leaf [OF dev] edits_list [OF dev] edits_flag [OF dev] edits_intra_zone [OF dev])
      (simp_all add: zone_parts [OF sch] butlast_append cone_simps)
  then show ?thesis by (cases live) (simp_all add: zone_before_def, simp add: zone_paths_def Let_def)
qed

interpretation zone_ed: node_editor zone_schema zone_moved
  "\<lambda>u. zoneBase (the (zu_original_name u))" "\<lambda>u. zoneBase (zu_name u)"
  zone_live zone_body zone_region zone_before zone_after
proof unfold_locales
  fix u :: zone_update
  show "zone_region u \<subseteq> cone (zoneBase (zu_name u))"
    by (auto simp: zone_region_def Let_def dest: append_prefixD)
next
  fix u :: zone_update and l :: firewall_zone
  assume "zone_before l u = zone_after u"
  then show "zone_body (Some l) u = []"
    by (auto simp: zone_before_def zone_after_def zone_body_def Let_def list_cmds_idle
        dest!: zone_paths_inj)
next
  fix u :: zone_update and l :: firewall_zone
  show "deletes_live (zone_before l u) (zone_body (Some l) u)"
    unfolding zone_defs
    by (simp only: option.case, intro deletes_live_parts deletes_live_leaf deletes_live_list
        deletes_live_flag deletes_live_intra_zone)
next
  fix dev single and u :: zone_update and l :: firewall_zone
  assume dev: "device_laws dev single" and sch: "zone_schema single"
  show "edits dev (zone_region u) (zone_body (Some l) u) (zone_before l u) (zone_after u)"
    using zone_body_edits [OF dev sch, of u "Some l"] by simp
  show "edits dev (zone_region u) (zone_body None u) {} (zone_after u)"
    using zone_body_edits [OF dev sch, of u None] by simp
qed (auto simp: zone_live_def zone_defs zone_parts leaf_cmds_None_set list_cmds_Nil_set
      flag_cmds_False_set intra_zone_cmds_None_set, simp add: zoneBase_def zone_parts)

section \<open>Properties of zones\<close>

lemma state_policy_not_zone:
  "cone (state_policy_base @ p) \<inter> cone (zoneBase n) = {}"
  by (auto simp: cone_disjoint_iff state_policy_base_def zoneBase_def)

lemma run_ensureStatePolicy:
  assumes dev: "device_laws dev single"
    and "single (state_policy_base @ [''established'', ''action''])"
    and "single (state_policy_base @ [''related'', ''action''])"
  shows "run dev (ensureStatePolicy cfg) S =
    (if fc_state_policy cfg then S
     else (S - cone (state_policy_base @ [''established'', ''action'']) -
             cone (state_policy_base @ [''related'', ''action'']))
          \<union> {state_policy_base @ [''established'', ''action'', ''accept''],
             state_policy_base @ [''related'', ''action'', ''accept'']})"
  using assms(2,3)
  by (auto simp: ensureStatePolicy_def dev_set_single [OF dev] butlast_append)

text \<open>
  C17: a zone edit that passes validation brings the device from the live zone to the desired
  one. The commands remove a renamed zone's old node, make the description, the local-zone flag,
  the member interfaces, the default action, the log flag and the intra-zone action exactly
  those of the update, create a node with no leaf explicitly, and, unless the edit is empty or
  the state match is already there, switch the global state match on. Every other path stays.
\<close>

theorem diffZone_run:
  assumes dev: "device_laws dev single" and sch: "zone_schema single"
    and state: "single (state_policy_base @ [''established'', ''action''])"
      "single (state_policy_base @ [''related'', ''action''])"
    and diff: "diffZone cfg u = Inr cs"
    and before: "case zone_live (fc_zones cfg) u of
        Some l \<Rightarrow> S \<inter> zone_region u = zone_before l u
      | None \<Rightarrow> (S - old_cone zone_moved (\<lambda>u. zoneBase (the (zu_original_name u))) u)
          \<inter> cone (zoneBase (zu_name u)) = {}"
    and T: "T = (S - old_cone zone_moved (\<lambda>u. zoneBase (the (zu_original_name u))) u
          - zone_region u) \<union> zone_after u \<union>
        (if zone_live (fc_zones cfg) u = None \<and> zone_after u = {} then {zoneBase (zu_name u)} else {})"
  shows "run dev cs S =
    (if cs = [] \<or> fc_state_policy cfg then T
     else (T - cone (state_policy_base @ [''established'', ''action'']) -
             cone (state_policy_base @ [''related'', ''action'']))
          \<union> {state_policy_base @ [''established'', ''action'', ''accept''],
             state_policy_base @ [''related'', ''action'', ''accept'']})"
proof -
  let ?out = "node_diff zone_moved (\<lambda>u. zoneBase (the (zu_original_name u)))
      (\<lambda>u. zoneBase (zu_name u)) zone_live zone_body (fc_zones cfg) u"
  have "cs = ?out @ (if ?out \<noteq> [] then ensureStatePolicy cfg else [])"
    using diff by (auto simp: diffZone_def node_diff_def Let_def split: option.splits)
  moreover have "run dev ?out S = T"
    unfolding T by (rule zone_ed.diff_run [OF dev sch before])
  ultimately show ?thesis
    by (auto simp: run_ensureStatePolicy [OF dev state])
qed

definition lan_zone :: firewall_zone where
  "lan_zone = \<lparr>zn_name = ''LAN'', zn_display = ''LAN'', zn_description = None, zn_local = False,
     zn_interfaces = [''eth1''], zn_default_action = None, zn_default_log = False,
     zn_intra_zone = None\<rparr>"

definition wan_zone :: firewall_zone where
  "wan_zone = \<lparr>zn_name = ''WAN'', zn_display = ''WAN'', zn_description = None, zn_local = False,
     zn_interfaces = [''eth0''], zn_default_action = Some ZDrop, zn_default_log = True,
     zn_intra_zone = None\<rparr>"

definition dmz_update :: zone_update where
  "dmz_update = \<lparr>zu_name = ''DMZ'', zu_display = ''Servers'', zu_description = None,
     zu_local = False, zu_interfaces = [''eth2''], zu_default_action = Some ZReject,
     zu_default_log = True, zu_intra_zone = Some Drop, zu_original_name = None\<rparr>"

definition zoned_config :: firewall_config where
  "zoned_config = emptyFirewallConfig \<lparr>fc_zones := [lan_zone, wan_zone],
     fc_zone_pairs := [\<lparr>zp_src = ''LAN'', zp_dst = ''WAN'', zp_ruleset = ''QZ-Z-LAN-TO-WAN''\<rparr>]\<rparr>"

lemma zone_schema_leaf_nodes:
  "zone_schema (\<lambda>p. leaf_nodes [''description'', ''default-action'', ''action''] p \<and> 3 < length p)"
  by (auto simp: zone_schema_def leaf_nodes_def zoneBase_def)

lemma diffZone_run_witness:
  "\<exists>cs. diffZone zoned_config dmz_update = Inr cs \<and>
     run (ref_dev (\<lambda>p. leaf_nodes [''description'', ''default-action'', ''action''] p \<and> 3 < length p)) cs {} =
     zone_after dmz_update \<union> {state_policy_base @ [''established'', ''action'', ''accept''],
       state_policy_base @ [''related'', ''action'', ''accept'']}"
proof -
  define cs where "cs = zone_body None dmz_update @ ensureStatePolicy zoned_config"
  have live: "zone_live (fc_zones zoned_config) dmz_update = None"
    by (simp add: zone_live_def zoned_config_def dmz_update_def zone_moved_def lan_zone_def wan_zone_def)
  have ok: "validateZone (fc_zones zoned_config) dmz_update = None"
    by (simp add: validateZone_def dmz_update_def zoned_config_def interfaceZone_def lan_zone_def
        wan_zone_def zone_name_ok_def is_alnum_def is_letter_def is_digit_def trim_def js_space_def)
  have moved: "\<not> zone_moved dmz_update" by (simp add: zone_moved_def dmz_update_def)
  have ne: "zone_body None dmz_update \<noteq> []" "has_set (zone_body None dmz_update)"
    by (simp_all add: zone_body_def dmz_update_def Let_def leaf_cmds_def encodeAliasDescription_def
        trim_def js_space_def has_set_def)
  have diff: "diffZone zoned_config dmz_update = Inr cs"
    using ne by (simp add: diffZone_def ok live moved ensureCreated_def cs_def)
  have after: "zone_after dmz_update \<noteq> {}"
    by (auto simp: zone_after_def zone_paths_def dmz_update_def Let_def)
  have dis: "zone_after dmz_update \<inter> cone (state_policy_base @ p) = {}" for p
  proof -
    have "zone_after dmz_update \<subseteq> cone (zoneBase (zu_name dmz_update))"
      by (auto simp: zone_after_def zone_paths_def Let_def leaf_paths_def list_paths_def flag_paths_def
          split: option.splits)
    then show ?thesis using state_policy_not_zone by blast
  qed
  have "run (ref_dev (\<lambda>p. leaf_nodes [''description'', ''default-action'', ''action''] p \<and> 3 < length p)) cs {} =
     (zone_after dmz_update - cone (state_policy_base @ [''established'', ''action'']) -
             cone (state_policy_base @ [''related'', ''action'']))
          \<union> {state_policy_base @ [''established'', ''action'', ''accept''],
             state_policy_base @ [''related'', ''action'', ''accept'']}"
    using diffZone_run [OF ref_dev_laws zone_schema_leaf_nodes _ _ diff, of "{}"] live after ne(1)
    by (simp add: leaf_nodes_def state_policy_base_def old_cone_def moved cs_def zoned_config_def
        emptyFirewallConfig_def)
  then show ?thesis using diff dis by (auto simp: Diff_triv)
qed

text \<open>
  The invariant the zone page keeps: names are unique, at most one zone is the firewall itself,
  that one has no interfaces and no intra-zone action, every other zone has an interface, and no
  interface is in two zones.
\<close>

definition zones_ok :: "firewall_zone list \<Rightarrow> bool" where
  "zones_ok zs \<longleftrightarrow> distinct (map zn_name zs) \<and>
     (\<forall>y\<in>set zs. \<forall>z\<in>set zs. zn_local y \<longrightarrow> zn_local z \<longrightarrow> y = z) \<and>
     (\<forall>z\<in>set zs. zn_local z \<longrightarrow> zn_interfaces z = [] \<and> zn_intra_zone z = None) \<and>
     (\<forall>z\<in>set zs. \<not> zn_local z \<longrightarrow> zn_interfaces z \<noteq> []) \<and>
     (\<forall>y\<in>set zs. \<forall>z\<in>set zs. set (zn_interfaces y) \<inter> set (zn_interfaces z) \<noteq> {} \<longrightarrow> y = z)"

text \<open>The zones of the device after an update: the edited zone in place of the old one.\<close>

definition updated_zone :: "zone_update \<Rightarrow> firewall_zone" where
  "updated_zone u = \<lparr>zn_name = zu_name u, zn_display = zu_display u,
     zn_description = zu_description u, zn_local = zu_local u, zn_interfaces = zu_interfaces u,
     zn_default_action = zu_default_action u, zn_default_log = zu_default_log u,
     zn_intra_zone = zu_intra_zone u\<rparr>"

definition upsert_zone :: "firewall_zone list \<Rightarrow> zone_update \<Rightarrow> firewall_zone list" where
  "upsert_zone zs u = filter (\<lambda>z. Some (zn_name z) \<noteq> zu_original_name u \<and> zn_name z \<noteq> zu_name u) zs
     @ [updated_zone u]"

lemma first_taken_None:
  "first_taken zones ex is = None \<longleftrightarrow>
    (\<forall>z\<in>set zones. Some (zn_name z) \<noteq> ex \<longrightarrow> set is \<inter> set (zn_interfaces z) = {})"
  by (induction "is") (auto simp: interfaceZone_def find_None_iff find_Some_iff disjoint_iff
      split: option.splits dest!: nth_mem)

lemma validateZone_accepts:
  assumes "validateZone zones u = None"
  shows "zu_local u \<Longrightarrow> zu_interfaces u = [] \<and> zu_intra_zone u = None \<and>
      (\<forall>z\<in>set zones. zn_local z \<longrightarrow> Some (zn_name z) = zu_original_name u)"
    and "\<not> zu_local u \<Longrightarrow> zu_interfaces u \<noteq> [] \<and>
      (\<forall>z\<in>set zones. Some (zn_name z) \<noteq> zu_original_name u \<longrightarrow>
         set (zu_interfaces u) \<inter> set (zn_interfaces z) = {})"
  using assms
  by (auto simp: validateZone_def first_taken_None find_None_iff split: if_splits option.splits)

text \<open>
  C14: \<open>validateZone\<close> guards the zone invariant. When it accepts an update to a list of zones
  that satisfies the invariant, the list with the edited zone in place of the old one satisfies
  it too: one local zone at most, every interface in one zone at most.
\<close>

theorem validateZone_invariant:
  assumes "zones_ok zones" and "validateZone zones u = None"
  shows "zones_ok (upsert_zone zones u)"
proof -
  note acc = validateZone_accepts [OF assms(2)]
  let ?rest = "filter (\<lambda>z. Some (zn_name z) \<noteq> zu_original_name u \<and> zn_name z \<noteq> zu_name u) zones"
  have "distinct (map zn_name ?rest)"
    using assms(1) by (simp add: zones_ok_def distinct_map inj_on_def)
  moreover have "zn_name (updated_zone u) \<notin> zn_name ` set ?rest" by (auto simp: updated_zone_def)
  ultimately have names: "distinct (map zn_name (upsert_zone zones u))"
    by (simp add: upsert_zone_def)
  show ?thesis
  proof (cases "zu_local u")
    case True
    with acc(1) assms(1) names show ?thesis
      by (auto simp: zones_ok_def upsert_zone_def updated_zone_def)
  next
    case False
    with acc(2) have ne: "zu_interfaces u \<noteq> []"
      and dis: "\<And>z. z \<in> set zones \<Longrightarrow> Some (zn_name z) \<noteq> zu_original_name u \<Longrightarrow>
        set (zu_interfaces u) \<inter> set (zn_interfaces z) = {}" by auto
    have ifs: "zn_interfaces (updated_zone u) = zu_interfaces u" "\<not> zn_local (updated_zone u)"
      using False by (simp_all add: updated_zone_def)
    show ?thesis
      using assms(1) names ne dis
      unfolding zones_ok_def upsert_zone_def set_append set_filter list.set
      by (auto simp: ifs Int_commute)
  qed
qed

lemma validateZone_invariant_witness:
  "zones_ok (upsert_zone [lan_zone, wan_zone] dmz_update)"
  by (rule validateZone_invariant)
    (simp_all add: zones_ok_def validateZone_def dmz_update_def interfaceZone_def lan_zone_def
      wan_zone_def zone_name_ok_def is_alnum_def is_letter_def is_digit_def trim_def js_space_def)

lemma run_zone_pair_deletes:
  assumes dev: "device_laws dev single"
  shows "run dev (zone_pair_deletes z ps) S = S -
    (\<Union>p\<in>{p \<in> set ps. zp_src p = z \<or> zp_dst p = z}.
       (if zp_dst p \<noteq> z then cone (zoneBase (zp_dst p) @ [''from'', zp_src p]) else {}) \<union>
       cone [''firewall'', ''ipv4'', ''name'', zp_ruleset p])"
proof (induction ps arbitrary: S)
  case Nil
  then show ?case by simp
next
  case (Cons p ps)
  then show ?case by (auto simp: dev_delete [OF dev])
qed

text \<open>
  C15: deleting a zone leaves nothing behind that names it, and touches nothing else. After
  \<open>deleteZone\<close> the device has exactly the nodes it had before, less three kinds: what is at or under the
  zone's own node, what is under the \<open>from\<close> node that another zone has for it, and the rulesets of the
  pairs the zone is a side of. Other zones keep everything else they have, their other pairs included, and
  the other rulesets stay. The hypothesis is that the pairs that were read are all the zone's pairs as a
  source that the device has.
\<close>

theorem deleteZone_no_dangling:
  assumes dev: "device_laws dev single"
    and complete: "\<And>q d. q \<in> S \<Longrightarrow> prefix (zoneBase d @ [''from'', zn_name z]) q \<Longrightarrow>
      \<exists>p\<in>set (fc_zone_pairs cfg). zp_src p = zn_name z \<and> zp_dst p = d"
  shows "q \<in> run dev (deleteZone_cmds cfg z) S \<longleftrightarrow> q \<in> S \<and>
    \<not> prefix [''firewall'', ''zone'', zn_name z] q \<and>
    (\<forall>d. \<not> prefix [''firewall'', ''zone'', d, ''from'', zn_name z] q) \<and>
    (\<forall>p\<in>set (fc_zone_pairs cfg). zp_src p = zn_name z \<or> zp_dst p = zn_name z \<longrightarrow>
      \<not> prefix [''firewall'', ''ipv4'', ''name'', zp_ruleset p] q)"
proof -
  have T: "run dev (deleteZone_cmds cfg z) S =
     S - (\<Union>p\<in>{p \<in> set (fc_zone_pairs cfg). zp_src p = zn_name z \<or> zp_dst p = zn_name z}.
       (if zp_dst p \<noteq> zn_name z then cone (zoneBase (zp_dst p) @ [''from'', zp_src p]) else {}) \<union>
       cone [''firewall'', ''ipv4'', ''name'', zp_ruleset p]) - cone (zoneBase (zn_name z))"
    by (simp add: deleteZone_cmds_def run_zone_pair_deletes [OF dev] dev_delete [OF dev])
  have base: "zoneBase d = [''firewall'', ''zone'', d]" for d by (simp add: zoneBase_def)
  have own: "prefix [''firewall'', ''zone'', zn_name z] q" if "prefix [''firewall'', ''zone'', zn_name z, ''from'', s] q" for s
    using that by (auto simp: prefix_def)
  show ?thesis
  proof (cases "q \<in> S \<and> \<not> prefix [''firewall'', ''zone'', zn_name z] q")
    case True
    have "(\<exists>d. prefix [''firewall'', ''zone'', d, ''from'', zn_name z] q) \<longleftrightarrow>
      (\<exists>p\<in>set (fc_zone_pairs cfg). (zp_src p = zn_name z \<or> zp_dst p = zn_name z) \<and> zp_dst p \<noteq> zn_name z \<and>
         prefix [''firewall'', ''zone'', zp_dst p, ''from'', zp_src p] q)"
      using True complete [of q] own by (auto simp: base) metis
    then show ?thesis using True by (auto simp: T base)
  next
    case False
    then show ?thesis by (auto simp: T base)
  qed
qed

lemma deleteZone_no_dangling_witness:
  "[''firewall'', ''zone'', ''WAN'', ''from'', ''LAN'', ''firewall'', ''name'', ''QZ-Z-LAN-TO-WAN''] \<notin>
     run (ref_dev (\<lambda>_. False)) (deleteZone_cmds zoned_config lan_zone)
       {[''firewall'', ''zone'', ''WAN'', ''from'', ''LAN'', ''firewall'', ''name'', ''QZ-Z-LAN-TO-WAN''],
        [''firewall'', ''zone'', ''WAN'', ''default-action'', ''drop'']} \<and>
   [''firewall'', ''zone'', ''WAN'', ''default-action'', ''drop''] \<in>
     run (ref_dev (\<lambda>_. False)) (deleteZone_cmds zoned_config lan_zone)
       {[''firewall'', ''zone'', ''WAN'', ''from'', ''LAN'', ''firewall'', ''name'', ''QZ-Z-LAN-TO-WAN''],
        [''firewall'', ''zone'', ''WAN'', ''default-action'', ''drop'']}"
proof -
  let ?S = "{[''firewall'', ''zone'', ''WAN'', ''from'', ''LAN'', ''firewall'', ''name'', ''QZ-Z-LAN-TO-WAN''],
        [''firewall'', ''zone'', ''WAN'', ''default-action'', ''drop'']}"
  have ex: "\<exists>p\<in>set (fc_zone_pairs zoned_config). zp_src p = zn_name lan_zone \<and> zp_dst p = d"
    if "q \<in> ?S" "prefix (zoneBase d @ [''from'', zn_name lan_zone]) q" for q d
    using that by (auto simp: zoned_config_def lan_zone_def zoneBase_def)
  show ?thesis
    by (subst (1 2) deleteZone_no_dangling [OF ref_dev_laws]; (erule (1) ex)?)
      (simp add: zoned_config_def lan_zone_def)
qed

text \<open>
  \<open>zoneUsage\<close>, the count behind the delete guard of a zone, looks at the representative
  scope of a rule only. There are a configuration, a zone and a rule with a scope in a pair of
  that zone that \<open>zoneUsage\<close> does not list: such a zone counts as unused.
\<close>

theorem zoneUsage_misses_scopes:
  "\<exists>cfg z r s p. z \<in> set (fc_zones cfg) \<and> r \<in> set (fc_rules cfg) \<and> s \<in> set (fr_scopes r) \<and>
     p \<in> set (fc_zone_pairs cfg) \<and> sc_chain s = zoneRuleChain (zp_ruleset p) \<and>
     zp_dst p = zn_name z \<and> r \<notin> set (zoneUsage cfg z)"
proof -
  let ?dmz = "\<lparr>zp_src = ''LAN'', zp_dst = ''DMZ'', zp_ruleset = ''QZ-Z-LAN-TO-DMZ''\<rparr>"
  let ?wan = "\<lparr>zp_src = ''LAN'', zp_dst = ''WAN'', zp_ruleset = ''QZ-Z-LAN-TO-WAN''\<rparr>"
  let ?r = "two_pair_rule"
  let ?cfg = "emptyFirewallConfig \<lparr>fc_zones := [lan_zone, updated_zone dmz_update, wan_zone],
      fc_rules := [?r], fc_zone_pairs := [?dmz, ?wan]\<rparr>"
  have "wan_zone \<in> set (fc_zones ?cfg) \<and> ?r \<in> set (fc_rules ?cfg) \<and>
      \<lparr>sc_chain = ''name:QZ-Z-LAN-TO-WAN'', sc_raw = empty_obj\<rparr> \<in> set (fr_scopes ?r) \<and>
      ?wan \<in> set (fc_zone_pairs ?cfg) \<and>
      sc_chain \<lparr>sc_chain = ''name:QZ-Z-LAN-TO-WAN'', sc_raw = empty_obj\<rparr> = zoneRuleChain (zp_ruleset ?wan) \<and>
      zp_dst ?wan = zn_name wan_zone \<and>
      ?r \<notin> set (zoneUsage ?cfg (wan_zone))"
    by (simp add: two_pair_rule_def zoneRuleChain_def wan_zone_def zoneUsage_def
        web_rule_def rulesetName_def)
  then show ?thesis by blast
qed

end
