(* ===== verification/Firewall_Endpoints.thy ===== *)
theory Firewall_Endpoints
  imports Firewall_Zones
begin

text \<open>
  The From/To sides of a rule in \<open>lib/firewall.ts\<close>: the entries of a selection, inline
  validation, the expansion of a stored endpoint, where a rule with given sides lives (a base
  chain or one ruleset per zone pair), and the plan that turns a selection into the match written
  on the rule with the auto-managed groups behind it.
\<close>

section \<open>Selections\<close>

datatype endpoint_entry =
    EInterface string
  | EZone string
  | EAlias alias_type string
  | EInline alias_type string
  | EFirewall
  | EAddress string
  | EIfgroup string

type_synonym endpoint_selection = "endpoint_entry list"

fun is_zone_entry :: "endpoint_entry \<Rightarrow> bool" where
  "is_zone_entry (EZone _) = True"
| "is_zone_entry _ = False"

fun zone_names :: "endpoint_selection \<Rightarrow> string list" where
  "zone_names [] = []"
| "zone_names (EZone n # es) = n # zone_names es"
| "zone_names (_ # es) = zone_names es"

fun selected_ifaces :: "endpoint_selection \<Rightarrow> string list" where
  "selected_ifaces [] = []"
| "selected_ifaces (EInterface n # es) = n # selected_ifaces es"
| "selected_ifaces (_ # es) = selected_ifaces es"

fun selected_aliases :: "endpoint_selection \<Rightarrow> (alias_type \<times> string) list" where
  "selected_aliases [] = []"
| "selected_aliases (EAlias t n # es) = (t, n) # selected_aliases es"
| "selected_aliases (_ # es) = selected_aliases es"

fun selected_inline :: "endpoint_selection \<Rightarrow> (alias_type \<times> string) list" where
  "selected_inline [] = []"
| "selected_inline (EInline t v # es) = (t, v) # selected_inline es"
| "selected_inline (_ # es) = selected_inline es"

fun selected_addresses :: "endpoint_selection \<Rightarrow> string list" where
  "selected_addresses [] = []"
| "selected_addresses (EAddress a # es) = a # selected_addresses es"
| "selected_addresses (_ # es) = selected_addresses es"

fun selected_ifgroups :: "endpoint_selection \<Rightarrow> string list" where
  "selected_ifgroups [] = []"
| "selected_ifgroups (EIfgroup n # es) = n # selected_ifgroups es"
| "selected_ifgroups (_ # es) = selected_ifgroups es"

definition first_opt :: "'a list \<Rightarrow> 'a option" where
  "first_opt xs = (case xs of [] \<Rightarrow> None | x # _ \<Rightarrow> Some x)"

section \<open>Inline values\<close>

datatype inline_error = EnterValue | BadHost | BadNetwork | BadFqdn | PickInterfaces

definition IPV4_OCTETS :: "string \<Rightarrow> bool" where
  "IPV4_OCTETS s \<longleftrightarrow> (let os = split_on (CHR ''.'') s in
     length os = 4 \<and> list_all (digits_upto 3) os \<and>
     list_all (\<lambda>d. nat_of_digits d \<le> 255 \<and> string_of_nat (nat_of_digits d) = d) os)"

definition label_char :: "char \<Rightarrow> bool" where
  "label_char c \<longleftrightarrow> is_alnum c \<or> c = CHR ''_''"

definition fqdn_label :: "string \<Rightarrow> bool" where
  "fqdn_label l \<longleftrightarrow> l \<noteq> [] \<and> label_char (hd l) \<and> label_char (last l) \<and>
     list_all (\<lambda>c. label_char c \<or> c = CHR ''-'') l"

definition fqdn_ok :: "string \<Rightarrow> bool" where
  "fqdn_ok v \<longleftrightarrow> (let ls = split_on (CHR ''.'') v in
     length v \<le> 253 \<and> 2 \<le> length ls \<and> list_all fqdn_label (butlast ls) \<and>
     2 \<le> length (last ls) \<and> list_all is_letter (last ls))"

definition validateInline :: "alias_type \<Rightarrow> string \<Rightarrow> inline_error option" where
  "validateInline type val =
     (let v = trim val in
      if v = [] then Some EnterValue
      else (case type of
          Host \<Rightarrow> let parts = split_on (CHR ''-'') v in
            if 2 < length parts \<or> \<not> list_all IPV4_OCTETS parts then Some BadHost else None
        | Network \<Rightarrow> (case split_on (CHR ''/'') v of
              [a, p] \<Rightarrow> if digits_upto 2 p \<and> IPV4_OCTETS a \<and> nat_of_digits p \<le> 32 then None
                        else Some BadNetwork
            | _ \<Rightarrow> Some BadNetwork)
        | Fqdn \<Rightarrow> if fqdn_ok v then None else Some BadFqdn
        | Iface \<Rightarrow> Some PickInterfaces))"

section \<open>From a stored endpoint to a selection\<close>

definition truthy :: "string option \<Rightarrow> bool" where
  "truthy s \<longleftrightarrow> (case s of None \<Rightarrow> False | Some x \<Rightarrow> x \<noteq> [])"

definition find_auto :: "auto_group list \<Rightarrow> string \<Rightarrow> string \<Rightarrow> auto_group option" where
  "find_auto autoGroups node name = List.find (\<lambda>g. ag_node g = node \<and> ag_name g = name) autoGroups"

definition group_entries :: "rule_endpoint \<Rightarrow> auto_group list \<Rightarrow> endpoint_selection" where
  "group_entries e autoGroups =
     (if truthy (ep_group_type e) \<and> truthy (ep_group_name e) then
        let gt = the (ep_group_type e); gn = the (ep_group_name e) in
        (case map_of group_node_to_type gt of
           None \<Rightarrow> []
         | Some type \<Rightarrow> (case find_auto autoGroups gt gn of
              Some auto \<Rightarrow> map (EAlias type) (ag_includes auto) @ map (EInline type) (ag_members auto)
            | None \<Rightarrow> [EAlias type gn]))
      else [])"

definition iface_entries :: "rule_endpoint \<Rightarrow> auto_group list \<Rightarrow> endpoint_selection" where
  "iface_entries e autoGroups =
     (if truthy (ep_iface e) then [EInterface (the (ep_iface e))] else []) @
     (if truthy (ep_iface_group e) then
        (case find_auto autoGroups ''interface-group'' (the (ep_iface_group e)) of
           Some auto \<Rightarrow> map EInterface (ag_interfaces auto)
         | None \<Rightarrow> [EAlias Iface (the (ep_iface_group e))])
      else [])"

definition endpointToSelection :: "rule_endpoint \<Rightarrow> auto_group list \<Rightarrow> endpoint_selection" where
  "endpointToSelection e autoGroups =
     group_entries e autoGroups @ iface_entries e autoGroups @
     (if truthy (ep_address e) then [EAddress (the (ep_address e))] else [])"

datatype rule_side = FromSide | ToSide

definition scope_zone_names :: "rule_side \<Rightarrow> zone_pair list \<Rightarrow> rule_scope list \<Rightarrow> string list" where
  "scope_zone_names sd pairs scopes =
     uniq (map (\<lambda>p. case sd of FromSide \<Rightarrow> zp_src p | ToSide \<Rightarrow> zp_dst p)
       (List.map_filter (\<lambda>s. pairForChain pairs (sc_chain s)) scopes))"

definition zone_entry :: "firewall_zone list \<Rightarrow> string \<Rightarrow> endpoint_entry" where
  "zone_entry zones name = (case List.find (\<lambda>z. zn_name z = name) zones of
       Some z \<Rightarrow> if zn_local z then EFirewall else EZone name
     | None \<Rightarrow> EZone name)"

definition ruleSelection ::
  "firewall_rule \<Rightarrow> rule_side \<Rightarrow> auto_group list \<Rightarrow> zone_pair list \<Rightarrow> firewall_zone list \<Rightarrow> endpoint_selection" where
  "ruleSelection rule sd autoGroups pairs zones =
     (let sel = endpointToSelection (case sd of FromSide \<Rightarrow> fr_from rule | ToSide \<Rightarrow> fr_to rule) autoGroups in
      if (sd = ToSide \<and> fr_chain rule = ''input'') \<or> (sd = FromSide \<and> fr_chain rule = ''output'')
      then EFirewall # sel
      else map (zone_entry zones) (scope_zone_names sd pairs (fr_scopes rule)) @ sel)"

section \<open>Where a rule lives\<close>

datatype rule_error =
    FirewallZoneMissing
  | PickZoneFor rule_side
  | ZoneOnBothSides "string list"
  | FirewallOnBothSides
  | MixedTypes
  | FqdnStandsAlone
  | InlineInvalid inline_error
  | IfaceAliasStandsAlone

definition sideZones :: "endpoint_selection \<Rightarrow> firewall_zone list \<Rightarrow> string list" where
  "sideZones sel zones =
     (if zone_names sel \<noteq> [] then uniq (zone_names sel)
      else if EFirewall \<in> set sel then
        (case localZone zones of Some l \<Rightarrow> [zn_name l] | None \<Rightarrow> [])
      else [])"

definition zonePairsFor ::
  "endpoint_selection \<Rightarrow> endpoint_selection \<Rightarrow> firewall_zone list \<Rightarrow> rule_error + zone_pair list" where
  "zonePairsFor from_sel to_sel zones =
     (if \<not> list_ex is_zone_entry from_sel \<and> \<not> list_ex is_zone_entry to_sel then Inr []
      else
        let srcs = sideZones from_sel zones; dsts = sideZones to_sel zones in
        if srcs = [] \<or> dsts = [] then
          (if EFirewall \<in> set (if srcs = [] then from_sel else to_sel) then Inl FirewallZoneMissing
           else Inl (PickZoneFor (if srcs = [] then FromSide else ToSide)))
        else
          let both = filter (\<lambda>s. s \<in> set dsts) srcs in
          if both \<noteq> [] then Inl (ZoneOnBothSides both)
          else Inr (concat (map (\<lambda>src. map (\<lambda>dst.
              \<lparr>zp_src = src, zp_dst = dst, zp_ruleset = pairRuleset src dst\<rparr>) dsts) srcs)))"

definition ruleChainsFor ::
  "(string \<Rightarrow> string \<Rightarrow> int) \<Rightarrow> endpoint_selection \<Rightarrow> endpoint_selection \<Rightarrow> firewall_zone list
    \<Rightarrow> rule_error + rule_chain list" where
  "ruleChainsFor lc from_sel to_sel zones =
     (let f = EFirewall \<in> set from_sel; t = EFirewall \<in> set to_sel in
      if f \<and> t then Inl FirewallOnBothSides
      else (case zonePairsFor from_sel to_sel zones of
          Inl e \<Rightarrow> Inl e
        | Inr pairs \<Rightarrow>
            if pairs \<noteq> [] then Inr (sort_by lc (map (\<lambda>p. zoneRuleChain (zp_ruleset p)) pairs))
            else Inr [if t then ''input'' else if f then ''output'' else ''forward'']))"

definition ruleChainFor ::
  "(string \<Rightarrow> string \<Rightarrow> int) \<Rightarrow> endpoint_selection \<Rightarrow> endpoint_selection \<Rightarrow> firewall_zone list
    \<Rightarrow> rule_error + rule_chain" where
  "ruleChainFor lc from_sel to_sel zones =
     (case ruleChainsFor lc from_sel to_sel zones of Inl e \<Rightarrow> Inl e | Inr cs \<Rightarrow> Inr (hd cs))"

section \<open>Fresh auto-group names\<close>

definition numbered :: "string \<Rightarrow> nat \<Rightarrow> string" where
  "numbered base i = base @ ''-'' @ string_of_nat i"

lemma numbered_inj [simp]: "numbered base i = numbered base j \<longleftrightarrow> i = j"
  by (simp add: numbered_def) (metis nat_of_digits_string_of_nat)

function alloc_from :: "string \<Rightarrow> nat \<Rightarrow> string list \<Rightarrow> string" where
  "alloc_from base i taken =
     (if numbered base i \<in> set taken then alloc_from base (Suc i) taken else numbered base i)"
  by pat_completeness auto
termination
proof (relation "measure (\<lambda>(base, i, taken). card {x \<in> set taken. \<exists>j\<ge>i. x = numbered base j})")
  fix base :: string and i :: nat and taken :: "string list"
  assume taken: "numbered base i \<in> set taken"
  let ?later = "\<lambda>i. {x \<in> set taken. \<exists>j\<ge>i. x = numbered base j}"
  have "?later (Suc i) \<subset> ?later i"
  proof
    show "?later (Suc i) \<subseteq> ?later i" by (auto dest: Suc_leD)
    have "numbered base i \<in> ?later i" using taken by auto
    moreover have "numbered base i \<notin> ?later (Suc i)" by auto
    ultimately show "?later (Suc i) \<noteq> ?later i" by blast
  qed
  then have "card (?later (Suc i)) < card (?later i)"
    by (intro psubset_card_mono) auto
  then show "((base, Suc i, taken), base, i, taken) \<in>
      measure (\<lambda>(base, i, taken). card {x \<in> set taken. \<exists>j\<ge>i. x = numbered base j})"
    by simp
qed simp

declare alloc_from.simps [simp del]

definition auto_base :: "int \<Rightarrow> side \<Rightarrow> string" where
  "auto_base rule sd = ''QZ-R'' @ string_of_int rule @ ''-'' @
     (case sd of Source \<Rightarrow> ''FROM'' | Destination \<Rightarrow> ''TO'')"

text \<open>The name, and the names taken after it is added.\<close>

definition allocAutoName :: "int \<Rightarrow> side \<Rightarrow> string list \<Rightarrow> string \<times> string list" where
  "allocAutoName rule sd taken =
     (let base = auto_base rule sd;
          name = (if base \<in> set taken then alloc_from base 2 taken else base)
      in (name, name # taken))"

section \<open>The plan of a side\<close>

definition group_path :: "string \<Rightarrow> string \<Rightarrow> path" where
  "group_path node name = [''firewall'', ''group'', node, name]"

definition mark_new :: "path \<Rightarrow> bool \<Rightarrow> vyos_command list" where
  "mark_new gp is_new = (if is_new then [cset (gp @ [''description'', AUTO_MARK])] else [])"

definition diffAutoMembers ::
  "string \<Rightarrow> string \<Rightarrow> string \<Rightarrow> string list option \<Rightarrow> string list \<Rightarrow> vyos_command list" where
  "diffAutoMembers node name leaf liveMembers desired =
     mark_new (group_path node name) (liveMembers = None) @
     list_cmds (group_path node name @ [leaf])
       (case liveMembers of None \<Rightarrow> [] | Some ms \<Rightarrow> ms) desired"

definition auto_member_leaf :: "string \<Rightarrow> string" where
  "auto_member_leaf node = (case map_of AUTO_MEMBER_LEAF node of
     Some leaf \<Rightarrow> leaf | None \<Rightarrow> ''undefined'')"

definition diffAliasAutoGroup ::
  "string \<Rightarrow> string \<Rightarrow> auto_group option \<Rightarrow> string list \<Rightarrow> string list \<Rightarrow> vyos_command list" where
  "diffAliasAutoGroup node name live includes members =
     mark_new (group_path node name) (live = None) @
     list_cmds (group_path node name @ [''include''])
       (case live of None \<Rightarrow> [] | Some g \<Rightarrow> ag_includes g) includes @
     list_cmds (group_path node name @ [auto_member_leaf node])
       (case live of None \<Rightarrow> [] | Some g \<Rightarrow> ag_members g) members"

record endpoint_desired =
  ed_node :: "string option"
  ed_name :: "string option"
  ed_addr :: "string option"
  ed_iface :: "string option"
  ed_ifGroup :: "string option"

definition live_auto :: "auto_group list \<Rightarrow> string option \<Rightarrow> string option \<Rightarrow> auto_group option" where
  "live_auto autoGroups node name =
     (if truthy node \<and> truthy name then find_auto autoGroups (the node) (the name) else None)"

fun first_invalid :: "(alias_type \<times> string) list \<Rightarrow> inline_error option" where
  "first_invalid [] = None"
| "first_invalid ((t, v) # is) = (case validateInline t v of Some e \<Rightarrow> Some e | None \<Rightarrow> first_invalid is)"

text \<open>
  The address half of \<open>planEndpoint\<close>: commands, the names taken, the node and the name of the
  group the side refers to.
\<close>

definition plan_group ::
  "int \<Rightarrow> side \<Rightarrow> rule_endpoint option \<Rightarrow> (alias_type \<times> string) list \<Rightarrow> (alias_type \<times> string) list \<Rightarrow>
   auto_group list \<Rightarrow> string list \<Rightarrow>
   rule_error + vyos_command list \<times> string list \<times> string option \<times> string option" where
  "plan_group rule sd live aliases inline autoGroups taken =
     (let types = uniq (map fst aliases @ map fst inline);
          aliasType = first_opt (map fst aliases @ map fst inline) in
      if 1 < length types then Inl MixedTypes
      else if aliasType = Some Fqdn \<and> aliases \<noteq> [] \<and> 1 < length aliases + length inline
        then Inl FqdnStandsAlone
      else (case first_invalid inline of Some e \<Rightarrow> Inl (InlineInvalid e) | None \<Rightarrow>
        let liveAuto = (case live of None \<Rightarrow> None
              | Some e \<Rightarrow> live_auto autoGroups (ep_group_type e) (ep_group_name e));
            plan = (case aliasType of
                None \<Rightarrow> ([], taken, None, None)
              | Some t \<Rightarrow>
                  let node = alias_node t in
                  if length aliases = 1 \<and> inline = [] then ([], taken, Some node, Some (snd (hd aliases)))
                  else
                    let reuse = (case liveAuto of None \<Rightarrow> False | Some g \<Rightarrow> ag_node g = node);
                        alloc = (if reuse then (ag_name (the liveAuto), taken)
                          else allocAutoName rule sd taken)
                    in (diffAliasAutoGroup node (fst alloc) (if reuse then liveAuto else None)
                          (map snd aliases) (map (\<lambda>i. trim (snd i)) inline),
                        snd alloc, Some node, Some (fst alloc)))
        in (case plan of (cmds, taken', node, name) \<Rightarrow>
          Inr (cmds @ (case liveAuto of
                None \<Rightarrow> []
              | Some g \<Rightarrow> if Some (ag_name g) \<noteq> name then [cdel (group_path (ag_node g) (ag_name g))] else []),
            taken', node, name))))"

text \<open>The interface half.\<close>

definition plan_iface ::
  "int \<Rightarrow> side \<Rightarrow> rule_endpoint option \<Rightarrow> endpoint_selection \<Rightarrow> auto_group list \<Rightarrow> string list \<Rightarrow>
   rule_error + vyos_command list \<times> string list \<times> string option \<times> string option" where
  "plan_iface rule sd live sel autoGroups taken =
     (let ifaceAliases = map snd (filter (\<lambda>a. fst a = Iface) (selected_aliases sel));
          ifgroups = selected_ifgroups sel;
          ifaces = clean (selected_ifaces sel);
          namedIfGroup = first_opt (ifaceAliases @ ifgroups) in
      if namedIfGroup \<noteq> None \<and> (1 < length ifaceAliases + length ifgroups \<or> ifaces \<noteq> [])
        then Inl IfaceAliasStandsAlone
      else
        let liveIfAuto = (case live of None \<Rightarrow> None
              | Some e \<Rightarrow> live_auto autoGroups
                  (if truthy (ep_iface_group e) then Some ''interface-group'' else None) (ep_iface_group e));
            plan = (if namedIfGroup \<noteq> None then ([], taken, None, namedIfGroup)
              else if length ifaces = 1 then ([], taken, Some (hd ifaces), None)
              else if 1 < length ifaces then
                let alloc = (case liveIfAuto of Some g \<Rightarrow> (ag_name g, taken)
                      | None \<Rightarrow> allocAutoName rule sd taken)
                in (diffAutoMembers ''interface-group'' (fst alloc) ''interface''
                      (map_option ag_interfaces liveIfAuto) ifaces,
                    snd alloc, None, Some (fst alloc))
              else ([], taken, None, None))
        in (case plan of (cmds, taken', iface, ifGroup) \<Rightarrow>
          Inr (cmds @ (case liveIfAuto of
                None \<Rightarrow> []
              | Some g \<Rightarrow> if Some (ag_name g) \<noteq> ifGroup
                  then [cdel (group_path ''interface-group'' (ag_name g))] else []),
            taken', iface, ifGroup)))"

definition planEndpoint ::
  "int \<Rightarrow> side \<Rightarrow> rule_endpoint option \<Rightarrow> endpoint_selection \<Rightarrow> auto_group list \<Rightarrow> string list \<Rightarrow>
   rule_error + vyos_command list \<times> string list \<times> endpoint_desired" where
  "planEndpoint rule sd live selIn autoGroups taken =
     (let sel = filter (\<lambda>e. e \<noteq> EFirewall \<and> \<not> is_zone_entry e) selIn in
      case plan_group rule sd live (filter (\<lambda>a. fst a \<noteq> Iface) (selected_aliases sel))
             (selected_inline sel) autoGroups taken of
        Inl e \<Rightarrow> Inl e
      | Inr (gcmds, taken1, node, name) \<Rightarrow>
          (case plan_iface rule sd live sel autoGroups taken1 of
             Inl e \<Rightarrow> Inl e
           | Inr (icmds, taken2, iface, ifGroup) \<Rightarrow>
               Inr (gcmds @ icmds, taken2,
                 \<lparr>ed_node = node, ed_name = name,
                  ed_addr = blank_to_none (first_opt (selected_addresses sel)),
                  ed_iface = iface, ed_ifGroup = ifGroup\<rparr>)))"

section \<open>Writing a resolved side into one scope\<close>

definition live_ep :: "rule_endpoint option \<Rightarrow> rule_endpoint" where
  "live_ep live = (case live of None \<Rightarrow> no_endpoint | Some e \<Rightarrow> e)"

definition ref_writes :: "path \<Rightarrow> side \<Rightarrow> rule_endpoint \<Rightarrow> endpoint_desired \<Rightarrow> vyos_command list" where
  "ref_writes base sd live d =
     (let refChanged = ep_group_type live \<noteq> ed_node d \<or> ep_group_name live \<noteq> ed_name d in
      (if truthy (ep_group_type live) \<and> refChanged
       then [cdel (base @ [side_str sd, ''group'', the (ep_group_type live)])] else []) @
      (if truthy (ed_node d) \<and> truthy (ed_name d) \<and> refChanged
       then [cset (base @ [side_str sd, ''group'', the (ed_node d), the (ed_name d)])] else []))"

definition iface_writes :: "path \<Rightarrow> side \<Rightarrow> rule_endpoint \<Rightarrow> endpoint_desired \<Rightarrow> vyos_command list" where
  "iface_writes base sd live d =
     (if ed_iface d \<noteq> ep_iface live \<or> ed_ifGroup d \<noteq> ep_iface_group live then
        (if ep_iface live \<noteq> None \<or> ep_iface_group live \<noteq> None
         then [cdel (base @ [IFACE_NODE sd])] else []) @
        (case ed_iface d of
           Some i \<Rightarrow> [cset (base @ [IFACE_NODE sd, ''name'', i])]
         | None \<Rightarrow> (case ed_ifGroup d of
              Some g \<Rightarrow> [cset (base @ [IFACE_NODE sd, ''group'', g])] | None \<Rightarrow> []))
      else [])"

definition endpointWrites ::
  "path \<Rightarrow> side \<Rightarrow> rule_endpoint option \<Rightarrow> endpoint_desired \<Rightarrow> vyos_command list" where
  "endpointWrites base sd live d =
     ref_writes base sd (live_ep live) d @
     leaf_cmds (base @ [side_str sd, ''address'']) (ep_address (live_ep live)) (ed_addr d) @
     iface_writes base sd (live_ep live) d"

section \<open>Where a rule lives: properties\<close>

lemma zone_names_none: "\<not> list_ex is_zone_entry sel \<longleftrightarrow> zone_names sel = []"
  by (induction sel rule: zone_names.induct) auto

lemma distinct_sideZones [simp]: "distinct (sideZones sel zones)"
  by (auto simp: sideZones_def split: option.splits)

text \<open>
  A zone rule lives in exactly one pair per combination. When \<open>zonePairsFor\<close> accepts two
  sides of which one names a zone, it gives every pair of a source zone and a destination zone
  once, each with its own ruleset name, never a zone with itself and never the empty list.
\<close>

theorem zonePairsFor_cross:
  assumes "zonePairsFor f t zones = Inr pairs" and "zone_names f \<noteq> [] \<or> zone_names t \<noteq> []"
  shows "distinct pairs \<and> pairs \<noteq> [] \<and>
    set pairs = {\<lparr>zp_src = s, zp_dst = d, zp_ruleset = pairRuleset s d\<rparr> | s d.
      s \<in> set (sideZones f zones) \<and> d \<in> set (sideZones t zones)} \<and>
    (\<forall>p\<in>set pairs. zp_src p \<noteq> zp_dst p)"
proof -
  let ?s = "sideZones f zones" and ?d = "sideZones t zones"
  have ne: "?s \<noteq> []" "?d \<noteq> []" and dis: "set ?s \<inter> set ?d = {}"
    and p: "pairs = concat (map (\<lambda>src. map (\<lambda>dst.
      \<lparr>zp_src = src, zp_dst = dst, zp_ruleset = pairRuleset src dst\<rparr>) ?d) ?s)"
    using assms by (auto simp: zonePairsFor_def zone_names_none Let_def filter_empty_conv split: if_splits)
  have "distinct (concat (map (\<lambda>src. map (\<lambda>dst.
      \<lparr>zp_src = src, zp_dst = dst, zp_ruleset = pairRuleset src dst\<rparr>) ds) ss))"
    if "distinct ss" "distinct ds" for ss ds
    using that by (induction ss) (auto simp: distinct_map inj_on_def)
  then have "distinct pairs" by (simp add: p)
  moreover have "pairs \<noteq> []" using ne by (cases ?s; cases ?d) (auto simp: p)
  moreover have "set pairs = {\<lparr>zp_src = s, zp_dst = d, zp_ruleset = pairRuleset s d\<rparr> | s d.
      s \<in> set ?s \<and> d \<in> set ?d}"
    by (auto simp: p)
  ultimately show ?thesis using dis by auto
qed

lemma zonePairsFor_cross_witness:
  "\<exists>pairs. zonePairsFor [EZone ''LAN'', EZone ''DMZ''] [EZone ''WAN''] [lan_zone, wan_zone] = Inr pairs \<and>
     distinct pairs \<and> (\<forall>p\<in>set pairs. zp_src p \<noteq> zp_dst p)"
proof -
  have "zonePairsFor [EZone ''LAN'', EZone ''DMZ''] [EZone ''WAN''] [lan_zone, wan_zone] =
      Inr [\<lparr>zp_src = ''LAN'', zp_dst = ''WAN'', zp_ruleset = pairRuleset ''LAN'' ''WAN''\<rparr>,
           \<lparr>zp_src = ''DMZ'', zp_dst = ''WAN'', zp_ruleset = pairRuleset ''DMZ'' ''WAN''\<rparr>]"
    by (simp add: zonePairsFor_def sideZones_def uniq_def)
  moreover have "zone_names [EZone ''LAN'', EZone ''DMZ''] \<noteq> [] \<or> zone_names [EZone ''WAN''] \<noteq> []" by simp
  ultimately show ?thesis using zonePairsFor_cross by blast
qed

text \<open>
  The ruleset name of a pair does not determine the pair: two different pairs of zone names
  that \<open>validateZone\<close> admits get the same ruleset, so their rules would share one node.
\<close>

theorem pairRuleset_collision:
  "\<exists>a b c d. zone_name_ok a \<and> zone_name_ok b \<and> zone_name_ok c \<and> zone_name_ok d \<and>
     (a, b) \<noteq> (c, d) \<and> pairRuleset a b = pairRuleset c d"
  by (rule exI [of _ "''A''"], rule exI [of _ "''B-TO-C''"], rule exI [of _ "''A-TO-B''"], rule exI [of _ "''C''"])
    (simp add: pairRuleset_def zone_name_ok_def is_alnum_def is_letter_def is_digit_def)

lemma pairRuleset_inj:
  assumes "CHR ''-'' \<notin> set a" "CHR ''-'' \<notin> set c" "pairRuleset a b = pairRuleset c d"
  shows "a = c \<and> b = d"
proof -
  have tw: "takeWhile (\<lambda>x. x \<noteq> CHR ''-'') (s @ CHR ''-'' # r) = s" if "CHR ''-'' \<notin> set s" for s r
    by (subst takeWhile_tail) (use that in \<open>auto simp: takeWhile_eq_all_conv\<close>)
  have eq: "a @ CHR ''-'' # ''TO-'' @ b = c @ CHR ''-'' # ''TO-'' @ d"
    using assms(3) by (simp add: pairRuleset_def)
  have "takeWhile (\<lambda>x. x \<noteq> CHR ''-'') (a @ CHR ''-'' # ''TO-'' @ b) =
      takeWhile (\<lambda>x. x \<noteq> CHR ''-'') (c @ CHR ''-'' # ''TO-'' @ d)"
    by (simp only: eq)
  then have "a = c" unfolding tw [OF assms(1)] tw [OF assms(2)] .
  with eq show ?thesis by simp
qed

lemma find_unique:
  assumes "x \<in> set xs" "P x" "\<And>y. y \<in> set xs \<Longrightarrow> P y \<Longrightarrow> y = x"
  shows "List.find P xs = Some x"
proof (cases "List.find P xs")
  case None
  then show ?thesis using assms(1,2) by (simp add: find_None_iff)
next
  case (Some y)
  then have "y \<in> set xs" "P y" by (auto simp: find_Some_iff)
  with Some show ?thesis using assms(3) by blast
qed

text \<open>
  C16: the zones of a rule survive being stored as scopes. Let a selection be accepted with zone
  pairs that the configuration has, each under its own ruleset, and let the rule's scopes be the
  chains \<open>ruleChainsFor\<close> gives. Then reading the zones back from the scopes, as
  \<open>ruleSelection\<close> does, gives exactly the source zones and exactly the destination zones.
\<close>

theorem rule_zones_roundtrip:
  assumes pairs: "zonePairsFor f t zones = Inr pairs" "zone_names f \<noteq> [] \<or> zone_names t \<noteq> []"
    and chs: "ruleChainsFor lc f t zones = Inr chs"
    and scopes: "set (map sc_chain scopes) = set chs"
    and stored: "set pairs \<subseteq> set ps"
    and own: "\<And>p q. p \<in> set ps \<Longrightarrow> q \<in> set ps \<Longrightarrow> zp_ruleset p = zp_ruleset q \<Longrightarrow> p = q"
  shows "set (scope_zone_names FromSide ps scopes) = set (sideZones f zones) \<and>
    set (scope_zone_names ToSide ps scopes) = set (sideZones t zones)"
proof -
  note cross = zonePairsFor_cross [OF pairs]
  have "chs = sort_by lc (map (\<lambda>p. zoneRuleChain (zp_ruleset p)) pairs)"
    using chs pairs(1) cross by (simp add: ruleChainsFor_def Let_def split: if_splits)
  then have "set chs = (\<lambda>p. zoneRuleChain (zp_ruleset p)) ` set pairs" by simp
  then have sc: "sc_chain ` set scopes = (\<lambda>p. zoneRuleChain (zp_ruleset p)) ` set pairs"
    using scopes by simp
  have found: "pairForChain ps (zoneRuleChain (zp_ruleset p)) = Some p" if "p \<in> set pairs" for p
    using that stored own [of _ p] by (auto simp: pairForChain_def intro!: find_unique)
  have "set (List.map_filter (\<lambda>s. pairForChain ps (sc_chain s)) scopes) =
      {p. \<exists>c\<in>sc_chain ` set scopes. pairForChain ps c = Some p}"
    by (force simp: List.map_filter_def)
  also have "\<dots> = set pairs"
    unfolding sc using found by auto
  finally have got: "set (List.map_filter (\<lambda>s. pairForChain ps (sc_chain s)) scopes) = set pairs" .
  have ne: "sideZones f zones \<noteq> []" "sideZones t zones \<noteq> []"
    using cross by auto
  then obtain s d where sd: "s \<in> set (sideZones f zones)" "d \<in> set (sideZones t zones)"
    by (meson list.set_sel(1))
  have pair: "\<lparr>zp_src = a, zp_dst = b, zp_ruleset = pairRuleset a b\<rparr> \<in> set pairs"
    if "a \<in> set (sideZones f zones)" "b \<in> set (sideZones t zones)" for a b
    using that cross by auto
  have "set (sideZones f zones) \<subseteq> zp_src ` set pairs"
    using pair [OF _ sd(2)] by (metis image_eqI subsetI zone_pair.select_convs(1))
  moreover have "set (sideZones t zones) \<subseteq> zp_dst ` set pairs"
    using pair [OF sd(1)] by (metis image_eqI subsetI zone_pair.select_convs(2))
  moreover have "zp_src ` set pairs \<subseteq> set (sideZones f zones)" "zp_dst ` set pairs \<subseteq> set (sideZones t zones)"
    using cross by auto
  ultimately have "zp_src ` set pairs = set (sideZones f zones)" "zp_dst ` set pairs = set (sideZones t zones)"
    by blast+
  then show ?thesis by (simp add: scope_zone_names_def got)
qed

lemma rule_zones_roundtrip_witness:
  "set (scope_zone_names FromSide
     [\<lparr>zp_src = ''LAN'', zp_dst = ''WAN'', zp_ruleset = pairRuleset ''LAN'' ''WAN''\<rparr>]
     [\<lparr>sc_chain = zoneRuleChain (pairRuleset ''LAN'' ''WAN''), sc_raw = empty_obj\<rparr>]) = {''LAN''}"
proof -
  have z: "zonePairsFor [EZone ''LAN''] [EZone ''WAN''] [lan_zone, wan_zone] =
      Inr [\<lparr>zp_src = ''LAN'', zp_dst = ''WAN'', zp_ruleset = pairRuleset ''LAN'' ''WAN''\<rparr>]"
    by (simp add: zonePairsFor_def sideZones_def uniq_def)
  have c: "ruleChainsFor (\<lambda>_ _. 0) [EZone ''LAN''] [EZone ''WAN''] [lan_zone, wan_zone] =
      Inr [zoneRuleChain (pairRuleset ''LAN'' ''WAN'')]"
    by (simp add: ruleChainsFor_def z sort_by_Cons)
  show ?thesis
    using rule_zones_roundtrip [OF z _ c, of
        "[\<lparr>sc_chain = zoneRuleChain (pairRuleset ''LAN'' ''WAN''), sc_raw = empty_obj\<rparr>]"
        "[\<lparr>zp_src = ''LAN'', zp_dst = ''WAN'', zp_ruleset = pairRuleset ''LAN'' ''WAN''\<rparr>]"]
    by (simp add: sideZones_def uniq_def)
qed

section \<open>Auto-managed groups: properties\<close>

lemma alloc_from_fresh: "alloc_from base i taken \<notin> set taken"
  by (induction base i taken rule: alloc_from.induct) (subst alloc_from.simps, simp)

lemma alloc_from_numbered: "\<exists>j. alloc_from base i taken = numbered base j"
  by (induction base i taken rule: alloc_from.induct) (subst alloc_from.simps, auto)

interpretation auto_names: fresh_key set "\<lambda>(n, sd) taken. fst (allocAutoName n sd taken)"
  by unfold_locales (auto simp: allocAutoName_def Let_def alloc_from_fresh split: if_splits)

text \<open>
  \<open>allocAutoName\<close> gives a name that is not taken and reserves it, so the two sides of one
  rule never share an auto-managed group.
\<close>

theorem allocAutoName_fresh:
  "fst (allocAutoName n sd taken) \<notin> set taken \<and>
   fst (allocAutoName n sd' (snd (allocAutoName n sd taken))) \<noteq> fst (allocAutoName n sd taken) \<and>
   fst (allocAutoName n sd' (snd (allocAutoName n sd taken))) \<notin> set taken"
proof -
  have "snd (allocAutoName n sd taken) = fst (allocAutoName n sd taken) # taken"
    by (simp add: allocAutoName_def Let_def)
  then show ?thesis
    using auto_names.fresh_unused [of "(n, sd)" taken]
      auto_names.fresh_again [of "(n, sd)" taken "snd (allocAutoName n sd taken)" "(n, sd')"]
    by simp
qed

lemma group_path_deletes:
  "cdel (group_path a b) \<notin> set (diffAliasAutoGroup node name live incl mem)"
  "cdel (group_path a b) \<notin> set (diffAutoMembers node name leaf ms d)"
  by (auto simp: diffAliasAutoGroup_def diffAutoMembers_def list_cmds_def group_path_def mark_new_def)

lemma group_path_inj [simp]: "group_path a b = group_path c d \<longleftrightarrow> a = c \<and> b = d"
  by (simp add: group_path_def)

lemma plan_group_deletes:
  assumes "plan_group n sd live al inl autos taken = Inr (cs, tk, node, name)"
    and "cdel (group_path a b) \<in> set cs"
  shows "name \<noteq> Some b \<and> (\<exists>e. live = Some e \<and> ep_group_type e = Some a)"
proof -
  have auto: "ep_group_type e = Some (ag_node g)" if "live_auto autos (ep_group_type e) x = Some g" for e x g
    using that by (auto simp: live_auto_def find_auto_def find_Some_iff truthy_def split: if_splits option.splits)
  show ?thesis
    using assms group_path_deletes
    by (auto simp: plan_group_def Let_def dest!: auto split: if_splits option.splits prod.splits)
qed

lemma plan_iface_deletes:
  assumes "plan_iface n sd live sel autos taken = Inr (cs, tk, i, g)"
    and "cdel (group_path a b) \<in> set cs"
  shows "g \<noteq> Some b \<and> a = ''interface-group''"
  using assms group_path_deletes
  by (auto simp: plan_iface_def Let_def split: if_splits option.splits prod.splits)

lemma validateInline_Iface: "validateInline Iface v \<noteq> None"
  by (simp add: validateInline_def Let_def)

lemma first_invalid_types: "first_invalid is = None \<Longrightarrow> Iface \<notin> fst ` set is"
  by (induction "is" rule: first_invalid.induct) (auto simp: validateInline_Iface split: option.splits)

lemma plan_group_node:
  assumes "plan_group n sd live al inl autos taken = Inr (cs, tk, node, name)"
    and "\<And>t m. (t, m) \<in> set al \<Longrightarrow> t \<noteq> Iface"
  shows "node \<noteq> Some ''interface-group''"
proof -
  have "first_invalid inl = None"
    using assms(1) by (auto simp: plan_group_def Let_def split: if_splits option.splits)
  then have "Iface \<notin> fst ` set inl" by (rule first_invalid_types)
  then have "first_opt (map fst al @ map fst inl) \<noteq> Some Iface"
    using assms(2) [of "fst (hd al)" "snd (hd al)"] by (cases al; cases inl) (auto simp: first_opt_def)
  then have "t \<noteq> Iface" if "first_opt (map fst al @ map fst inl) = Some t" for t using that by auto
  moreover have "alias_node t = ''interface-group'' \<longleftrightarrow> t = Iface" for t by (cases t) simp_all
  ultimately show ?thesis
    using assms(1)
    by (auto simp: plan_group_def Let_def split: if_splits option.splits prod.splits)
qed

text \<open>
  C18: planning a side never deletes what the side then refers to. Whatever group the commands
  of \<open>planEndpoint\<close> delete, it is neither the address group nor the interface group that the
  planned match names.
\<close>

theorem planEndpoint_keeps_refs:
  assumes "planEndpoint n sd live sel autos taken = Inr (cs, tk, d)"
    and "\<And>e. live = Some e \<Longrightarrow> ep_group_type e \<noteq> Some ''interface-group''"
    and "cdel (group_path node name) \<in> set cs"
  shows "(ed_node d, ed_name d) \<noteq> (Some node, Some name) \<and>
    (node, Some name) \<noteq> (''interface-group'', ed_ifGroup d)"
proof -
  let ?sel = "filter (\<lambda>e. e \<noteq> EFirewall \<and> \<not> is_zone_entry e) sel"
  let ?al = "filter (\<lambda>a. fst a \<noteq> Iface) (selected_aliases ?sel)"
  obtain gc tk1 gnode gname ic tk2 i g where
    pg: "plan_group n sd live ?al (selected_inline ?sel) autos taken = Inr (gc, tk1, gnode, gname)"
    and pi: "plan_iface n sd live ?sel autos tk1 = Inr (ic, tk2, i, g)"
    and d: "ed_node d = gnode" "ed_name d = gname" "ed_ifGroup d = g" "cs = gc @ ic"
    using assms(1) by (auto simp: planEndpoint_def Let_def split: sum.splits)
  have "cdel (group_path node name) \<in> set gc \<or> cdel (group_path node name) \<in> set ic"
    using assms(3) d(4) by simp
  then show ?thesis
  proof
    assume "cdel (group_path node name) \<in> set gc"
    from plan_group_deletes [OF pg this] show ?thesis using assms(2) by (auto simp: d)
  next
    assume "cdel (group_path node name) \<in> set ic"
    from plan_iface_deletes [OF pi this] plan_group_node [OF pg] show ?thesis by (auto simp: d)
  qed
qed

definition old_from_group :: auto_group where
  "old_from_group = \<lparr>ag_name = ''QZ-R10-FROM'', ag_node = ''address-group'', ag_includes = [],
     ag_interfaces = [], ag_members = [''10.0.0.1'', ''10.0.0.2'']\<rparr>"

lemma planEndpoint_keeps_refs_witness:
  "\<exists>cs tk d. planEndpoint 10 Source
     (Some (no_endpoint \<lparr>ep_group_type := Some ''address-group'', ep_group_name := Some ''QZ-R10-FROM''\<rparr>))
     [EAlias Host ''web''] [old_from_group] [''QZ-R10-FROM''] = Inr (cs, tk, d) \<and>
     cdel (group_path ''address-group'' ''QZ-R10-FROM'') \<in> set cs \<and>
     (ed_node d, ed_name d) \<noteq> (Some ''address-group'', Some ''QZ-R10-FROM'')"
proof -
  let ?live = "Some (no_endpoint \<lparr>ep_group_type := Some ''address-group'', ep_group_name := Some ''QZ-R10-FROM''\<rparr>)"
  obtain cs tk d where p: "planEndpoint 10 Source ?live [EAlias Host ''web''] [old_from_group] [''QZ-R10-FROM'']
      = Inr (cs, tk, d)" and c: "cdel (group_path ''address-group'' ''QZ-R10-FROM'') \<in> set cs"
    by (simp add: planEndpoint_def plan_group_def plan_iface_def first_opt_def clean_def uniq_def
        live_auto_def truthy_def find_auto_def old_from_group_def no_endpoint_def)
  show ?thesis
    using planEndpoint_keeps_refs [OF p _ c] p c by (auto simp: no_endpoint_def)
qed

end
