(* ===== verification/Firewall_Rules.thy ===== *)
theory Firewall_Rules
  imports Firewall_Endpoints
begin

text \<open>
  Rule writes in \<open>lib/firewall.ts\<close>: the hidden safety baselines, the clean-up of a zone pair
  that loses its last rule, and \<open>diffRule\<close> itself, with the IPS toggle and the delete. Where
  the source pushes onto an output argument the commands to push are the result; where it reads
  what was pushed before, that is an argument.
\<close>

section \<open>Baselines\<close>

definition setup_of :: "firewall_config \<Rightarrow> base_chain \<Rightarrow> chain_setup" where
  "setup_of cfg c = fc_setup cfg c"

definition established_cmds :: "path \<Rightarrow> vyos_command list" where
  "established_cmds r =
     [cset (r @ [''action'', ''accept'']), cset (r @ [''state'', ''established'']),
      cset (r @ [''state'', ''related'']),
      cset (r @ [''description'', SYS_MARK @ '' allow established/related replies''])]"

definition ensureChainSetup :: "base_chain \<Rightarrow> firewall_config \<Rightarrow> vyos_command list" where
  "ensureChainSetup c cfg =
     (let setup = fc_setup cfg c; fb = filterBase (base_chain_str c);
          r2 = fb @ [''rule'', ''2''];
          ifNode = (if c = Input then IFACE_NODE Source else IFACE_NODE Destination) in
      (if \<not> cs_baseline setup then
         established_cmds (fb @ [''rule'', ''1'']) @
         [cset (r2 @ [''action'', ''accept'']), cset (r2 @ [ifNode, ''name'', ''lo'']),
          cset (r2 @ [''description'', SYS_MARK @ '' allow loopback (WebUI/API)''])]
       else []) @
      (if cs_default_action setup = None then [cset (fb @ [''default-action'', ''accept''])] else []))"

definition ipsFlowRuleCommands :: "path \<Rightarrow> vyos_command list" where
  "ipsFlowRuleCommands fb =
     (let r1 = fb @ [''rule'', ''1''] in
      [cset (r1 @ [''action'', ''queue'']), cset (r1 @ [''queue'', ''0'']),
       cset (r1 @ [''queue-options'', ''bypass'']),
       cset (r1 @ [''connection-mark'', string_of_int IPS_CONNMARK]),
       cset (r1 @ [''description'', SYS_MARK @ '' IPS: inspect flows selected by IPS rules''])])"

definition ensureForwardBaseline :: "firewall_config \<Rightarrow> vyos_command list" where
  "ensureForwardBaseline cfg =
     (if cs_baseline (fc_setup cfg Forward) then []
      else let fb = filterBase ''forward'' in
        ipsFlowRuleCommands fb @ established_cmds (fb @ [''rule'', ''2'']))"

definition last_word :: "vyos_command \<Rightarrow> string" where
  "last_word c = (if cmd_path c = [] then ''undefined'' else last (cmd_path c))"

definition ensureIpsFlowBaseline :: "vyos_command list \<Rightarrow> firewall_config \<Rightarrow> vyos_command list" where
  "ensureIpsFlowBaseline out cfg =
     (let setup = fc_setup cfg Forward in
      if cs_ips_flow setup then []
      else if list_ex (\<lambda>c. prefix (SYS_MARK @ '' IPS:'') (last_word c)) out then []
      else if \<not> cs_baseline setup then ensureForwardBaseline cfg
      else if list_ex (\<lambda>r. fr_chain r = ''forward'' \<and> (fr_rule r = 1 \<or> fr_rule r = 2)) (fc_rules cfg) then []
      else let fb = filterBase ''forward'' in
        [cdel (fb @ [''rule'', ''1''])] @ ipsFlowRuleCommands fb @
        established_cmds (fb @ [''rule'', ''2'']))"

section \<open>Numbers, clean-up and bindings\<close>

definition nextRuleNumber :: "firewall_rule list \<Rightarrow> int" where
  "nextRuleNumber rules = foldl (\<lambda>m r. max m (fr_rule r)) 0 rules + 10"

definition emptyPairCleanup :: "firewall_config \<Rightarrow> rule_chain \<Rightarrow> int list \<Rightarrow> vyos_command list" where
  "emptyPairCleanup cfg chain vacating =
     (case pairForChain (fc_zone_pairs cfg) chain of
        None \<Rightarrow> []
      | Some p \<Rightarrow>
          if list_ex (\<lambda>r. fr_rule r \<notin> set vacating \<and>
               list_ex (\<lambda>s. sc_chain s = chain) (fr_scopes r)) (fc_rules cfg) then []
          else [cdel [''firewall'', ''zone'', zp_dst p, ''from'', zp_src p],
                cdel [''firewall'', ''ipv4'', ''name'', zp_ruleset p]])"

definition endpoint_refs :: "rule_endpoint \<Rightarrow> (string \<times> string) list" where
  "endpoint_refs e =
     (if truthy (ep_group_type e) \<and> truthy (ep_group_name e)
      then [(the (ep_group_type e), the (ep_group_name e))] else []) @
     (if truthy (ep_iface_group e) then [(''interface-group'', the (ep_iface_group e))] else [])"

definition autoGroupDeletes :: "firewall_rule \<Rightarrow> auto_group list \<Rightarrow> vyos_command list" where
  "autoGroupDeletes rule autoGroups =
     map (\<lambda>(node, name). cdel (group_path node name))
       (filter (\<lambda>(node, name). list_ex (\<lambda>g. ag_node g = node \<and> ag_name g = name) autoGroups)
         (endpoint_refs (fr_from rule) @ endpoint_refs (fr_to rule)))"

definition ensureZonePair :: "firewall_config \<Rightarrow> zone_pair \<Rightarrow> vyos_command list" where
  "ensureZonePair cfg p =
     (if list_ex (\<lambda>q. zp_ruleset q = zp_ruleset p) (fc_zone_pairs cfg) then []
      else [cset [''firewall'', ''ipv4'', ''name'', zp_ruleset p, ''description'',
              AUTO_MARK @ '' '' @ zp_src p @ '' to '' @ zp_dst p],
            cset [''firewall'', ''zone'', zp_dst p, ''from'', zp_src p, ''firewall'', ''name'', zp_ruleset p]])"

section \<open>The diff of a rule\<close>

datatype rule_policy_choice = ChoosePolicy string policy_protocol | ChoosePing

record rule_update =
  ru_rule :: int
  ru_name :: "string option"
  ru_action :: rule_action
  ru_from :: endpoint_selection
  ru_to :: endpoint_selection
  ru_policy :: "rule_policy_choice option"
  ru_enabled :: bool
  ru_log :: bool
  ru_ips :: bool

definition wireAction :: "firewall_rule option \<Rightarrow> string option" where
  "wireAction r = (case r of None \<Rightarrow> None
     | Some r \<Rightarrow> (case fr_action r of None \<Rightarrow> None
         | Some a \<Rightarrow> Some (if fr_ips r then ''queue'' else action_str a)))"

definition live_ips :: "firewall_rule option \<Rightarrow> bool" where
  "live_ips r = (case r of None \<Rightarrow> False | Some r \<Rightarrow> fr_ips r)"

definition want_ips :: "rule_update \<Rightarrow> bool" where
  "want_ips u \<longleftrightarrow> ru_ips u \<and> ru_action u = Accept"

definition ips_leaf_cmds :: "path \<Rightarrow> bool \<Rightarrow> bool \<Rightarrow> vyos_command list" where
  "ips_leaf_cmds b liveIps wantIps =
     (if wantIps \<and> \<not> liveIps then
        [cset (b @ [''queue'', ''0'']), cset (b @ [''queue-options'', ''bypass'']),
         cset (b @ [''set'', ''connection-mark'', string_of_int IPS_CONNMARK])]
      else if \<not> wantIps \<and> liveIps then
        [cdel (b @ [''queue'']), cdel (b @ [''queue-options'']), cdel (b @ [''set'', ''connection-mark''])]
      else [])"

definition desired_policy :: "rule_update \<Rightarrow> string option" where
  "desired_policy u = (case ru_policy u of Some (ChoosePolicy n _) \<Rightarrow> Some n | _ \<Rightarrow> None)"

definition desired_protocol :: "rule_update \<Rightarrow> string option" where
  "desired_protocol u = (case ru_policy u of None \<Rightarrow> None
     | Some (ChoosePolicy _ p) \<Rightarrow> Some (protocol_str p) | Some ChoosePing \<Rightarrow> Some ''icmp'')"

definition seed_builtin :: "firewall_config \<Rightarrow> string option \<Rightarrow> vyos_command list" where
  "seed_builtin cfg newPolicy = (case newPolicy of
       None \<Rightarrow> []
     | Some n \<Rightarrow>
         if list_ex (\<lambda>p. fp_name p = n) (fc_policies cfg) then []
         else (case map_of builtin_policies n of
             None \<Rightarrow> []
           | Some (prot, ports) \<Rightarrow>
               cset (firewall_policyBase n @ [''description'', encodePolicyDescription prot (Some ''Built-in'')]) #
               map (\<lambda>p. cset (firewall_policyBase n @ [''port'', p])) ports))"

definition policy_ref_cmds :: "path \<Rightarrow> string option \<Rightarrow> string option \<Rightarrow> vyos_command list" where
  "policy_ref_cmds b live desired =
     (if desired = live then []
      else (if live \<noteq> None \<and> desired = None
            then [cdel (b @ [''destination'', ''group'', ''port-group''])] else []) @
           (case desired of Some n \<Rightarrow> [cset (b @ [''destination'', ''group'', ''port-group'', n])]
            | None \<Rightarrow> []))"

text \<open>
  The scope set of a rule: what its move between a base chain and zone pairs drops, and what the
  pairs it no longer spans lose.
\<close>

definition rule_moves :: "firewall_rule option \<Rightarrow> bool \<Rightarrow> rule_chain \<Rightarrow> bool" where
  "rule_moves liveIn wantZone chain = (case liveIn of None \<Rightarrow> False
     | Some r \<Rightarrow>
         let liveIsZone = (\<not> isBaseChain (fr_chain r));
             baseMoved = (\<not> liveIsZone \<and> \<not> wantZone \<and> fr_chain r \<noteq> chain)
         in liveIsZone \<noteq> wantZone \<or> baseMoved)"

definition drop_scopes :: "firewall_config \<Rightarrow> rule_chain list \<Rightarrow> int \<Rightarrow> vyos_command list" where
  "drop_scopes cfg cs rule =
     concat (map (\<lambda>c. cdel (ruleBase c rule) # emptyPairCleanup cfg c [rule]) cs)"

definition scope_setup ::
  "firewall_config \<Rightarrow> zone_pair list \<Rightarrow> rule_chain \<Rightarrow> vyos_command list" where
  "scope_setup cfg pairs chain =
     (if pairs \<noteq> [] then ensureStatePolicy cfg @ concat (map (ensureZonePair cfg) pairs)
      else if chain = ''input'' then ensureChainSetup Input cfg
      else if chain = ''output'' then ensureChainSetup Output cfg
      else [])"

text \<open>The writes into the scopes, in the order of the source: leaf by leaf, scope by scope.\<close>

definition each_chain :: "rule_chain list \<Rightarrow> (rule_chain \<Rightarrow> vyos_command list) \<Rightarrow> vyos_command list" where
  "each_chain chs f = concat (map f chs)"

definition action_writes ::
  "rule_chain list \<Rightarrow> int \<Rightarrow> (rule_chain \<Rightarrow> firewall_rule option) \<Rightarrow> rule_update \<Rightarrow> vyos_command list" where
  "action_writes chs rule bodyLive u =
     each_chain chs (\<lambda>c. leaf_cmds (ruleBase c rule @ [''action'']) (wireAction (bodyLive c))
       (Some (if want_ips u then ''queue'' else action_str (ru_action u)))) @
     each_chain chs (\<lambda>c. ips_leaf_cmds (ruleBase c rule) (live_ips (bodyLive c)) (want_ips u))"

definition name_writes ::
  "rule_chain list \<Rightarrow> int \<Rightarrow> (rule_chain \<Rightarrow> firewall_rule option) \<Rightarrow> rule_update \<Rightarrow> vyos_command list" where
  "name_writes chs rule bodyLive u =
     each_chain chs (\<lambda>c. leaf_cmds (ruleBase c rule @ [''description''])
       (Option.bind (bodyLive c) fr_name) (blank_to_none (ru_name u)))"

definition endpoint_writes ::
  "rule_chain list \<Rightarrow> int \<Rightarrow> (rule_chain \<Rightarrow> firewall_rule option) \<Rightarrow> endpoint_desired \<Rightarrow> endpoint_desired
    \<Rightarrow> vyos_command list" where
  "endpoint_writes chs rule bodyLive fd td =
     each_chain chs (\<lambda>c.
       endpointWrites (ruleBase c rule) Source (map_option fr_from (bodyLive c)) fd @
       endpointWrites (ruleBase c rule) Destination (map_option fr_to (bodyLive c)) td)"

definition policy_writes ::
  "rule_chain list \<Rightarrow> int \<Rightarrow> (rule_chain \<Rightarrow> firewall_rule option) \<Rightarrow> rule_update \<Rightarrow> vyos_command list" where
  "policy_writes chs rule bodyLive u =
     each_chain chs (\<lambda>c. policy_ref_cmds (ruleBase c rule)
       (Option.bind (bodyLive c) fr_policy) (desired_policy u)) @
     each_chain chs (\<lambda>c. leaf_cmds (ruleBase c rule @ [''protocol''])
       (Option.bind (bodyLive c) fr_protocol) (blank_to_none (desired_protocol u)))"

definition switch_writes ::
  "rule_chain list \<Rightarrow> int \<Rightarrow> (rule_chain \<Rightarrow> firewall_rule option) \<Rightarrow> rule_update \<Rightarrow> vyos_command list" where
  "switch_writes chs rule bodyLive u =
     each_chain chs (\<lambda>c. flag_cmds (ruleBase c rule @ [''disable''])
       (case bodyLive c of None \<Rightarrow> False | Some r \<Rightarrow> \<not> fr_enabled r) (\<not> ru_enabled u)) @
     each_chain chs (\<lambda>c. flag_cmds (ruleBase c rule @ [''log''])
       (case bodyLive c of None \<Rightarrow> False | Some r \<Rightarrow> fr_log r) (ru_log u))"

definition diffRule ::
  "(string \<Rightarrow> string \<Rightarrow> int) \<Rightarrow> firewall_rule option \<Rightarrow> rule_update \<Rightarrow> firewall_config
    \<Rightarrow> rule_error + vyos_command list" where
  "diffRule lc liveIn u cfg =
     (case zonePairsFor (ru_from u) (ru_to u) (fc_zones cfg) of Inl e \<Rightarrow> Inl e | Inr pairs \<Rightarrow>
      (case ruleChainsFor lc (ru_from u) (ru_to u) (fc_zones cfg) of Inl e \<Rightarrow> Inl e | Inr chs \<Rightarrow>
       let chain = hd chs;
           moved = rule_moves liveIn (pairs \<noteq> []) chain;
           live = (if moved then None else liveIn);
           rule = (if moved then nextRuleNumber (fc_rules cfg) else ru_rule u);
           moveCmds = (case liveIn of
               Some r \<Rightarrow> if moved then drop_scopes cfg (map sc_chain (fr_scopes r)) (fr_rule r) @
                   autoGroupDeletes r (fc_auto_groups cfg) else []
             | None \<Rightarrow> []);
           liveChains = (case live of None \<Rightarrow> [] | Some r \<Rightarrow> map sc_chain (fr_scopes r));
           out1 = moveCmds @ drop_scopes cfg (filter (\<lambda>c. c \<notin> set chs) liveChains) rule @
             scope_setup cfg pairs chain;
           bodyLive = (\<lambda>c. if c \<notin> set liveChains then None else live);
           out2 = out1 @ action_writes chs rule bodyLive u;
           out3 = out2 @ (if want_ips u \<and> \<not> live_ips live then ensureIpsFlowBaseline out2 cfg else []) @
             name_writes chs rule bodyLive u
       in (case planEndpoint rule Source (map_option fr_from live) (ru_from u)
              (fc_auto_groups cfg) (fc_group_names cfg) of Inl e \<Rightarrow> Inl e | Inr (fc, taken, fd) \<Rightarrow>
          (case planEndpoint rule Destination (map_option fr_to live) (ru_to u)
              (fc_auto_groups cfg) taken of Inl e \<Rightarrow> Inl e | Inr (tc, taken', td) \<Rightarrow>
           Inr (out3 @ fc @ tc @ endpoint_writes chs rule bodyLive fd td @
             seed_builtin cfg (desired_policy u) @ policy_writes chs rule bodyLive u @
             switch_writes chs rule bodyLive u @
             (if ru_log u \<and> chain = ''forward'' then ensureForwardBaseline cfg else []))))))"

section \<open>IPS toggle and delete\<close>

definition ipsRuleCommands :: "firewall_rule \<Rightarrow> bool \<Rightarrow> firewall_config \<Rightarrow> vyos_command list" where
  "ipsRuleCommands rule enabled cfg =
     (if fr_action rule \<noteq> Some Accept \<or> fr_ips rule = enabled then []
      else
        let out = concat (map (\<lambda>s. let base = ruleBase (sc_chain s) (fr_rule rule) in
            if enabled then
              [cset (base @ [''action'', ''queue'']), cset (base @ [''queue'', ''0'']),
               cset (base @ [''queue-options'', ''bypass'']),
               cset (base @ [''set'', ''connection-mark'', string_of_int IPS_CONNMARK])]
            else
              [cset (base @ [''action'', ''accept'']), cdel (base @ [''queue'']),
               cdel (base @ [''queue-options'']), cdel (base @ [''set'', ''connection-mark''])])
          (fr_scopes rule))
        in out @ (if enabled then ensureIpsFlowBaseline out cfg else []))"

definition applyRuleIps_cmds :: "(firewall_rule \<times> bool) list \<Rightarrow> firewall_config \<Rightarrow> vyos_command list" where
  "applyRuleIps_cmds changes cfg = concat (map (\<lambda>(r, enabled). ipsRuleCommands r enabled cfg) changes)"

definition deleteRule_cmds ::
  "firewall_rule \<Rightarrow> auto_group list \<Rightarrow> vyos_command list \<Rightarrow> firewall_config option \<Rightarrow> vyos_command list" where
  "deleteRule_cmds rule autoGroups extraCommands cfg =
     concat (map (\<lambda>s. cdel (ruleBase (sc_chain s) (fr_rule rule)) #
         (case cfg of None \<Rightarrow> [] | Some g \<Rightarrow> emptyPairCleanup g (sc_chain s) [fr_rule rule]))
       (fr_scopes rule)) @
     autoGroupDeletes rule autoGroups @ extraCommands"

section \<open>Fresh rule numbers\<close>

lemma foldl_max_ge:
  "m \<le> foldl (\<lambda>m r. max m (fr_rule r)) m rules \<and>
   (\<forall>r\<in>set rules. fr_rule r \<le> foldl (\<lambda>m r. max m (fr_rule r)) m rules)"
proof (induction rules arbitrary: m)
  case Nil
  then show ?case by simp
next
  case (Cons r rs)
  from Cons.IH [of "max m (fr_rule r)"] show ?case by auto
qed

lemma nextRuleNumber_ge: "10 \<le> nextRuleNumber rules"
  using foldl_max_ge [of 0 rules] by (simp add: nextRuleNumber_def)

lemma nextRuleNumber_above: "r \<in> set rules \<Longrightarrow> fr_rule r + 10 \<le> nextRuleNumber rules"
  using foldl_max_ge [of 0 rules] by (auto simp: nextRuleNumber_def)

interpretation rule_numbers: fresh_key "\<lambda>rules. fr_rule ` set rules" "\<lambda>u :: unit. nextRuleNumber"
  by unfold_locales (use nextRuleNumber_above in fastforce)

text \<open>
  \<open>nextRuleNumber\<close> is free in every chain, leaves room for nine rules after the last one,
  and is never one of the two system numbers.
\<close>

theorem nextRuleNumber_fresh:
  "nextRuleNumber rules \<notin> fr_rule ` set rules \<and> nextRuleNumber rules \<notin> {1, 2} \<and>
   Max (insert 0 (fr_rule ` set rules)) + 10 \<le> nextRuleNumber rules"
proof (intro conjI)
  show "nextRuleNumber rules \<notin> fr_rule ` set rules" by (rule rule_numbers.fresh_unused)
  show "nextRuleNumber rules \<notin> {1, 2}" using nextRuleNumber_ge [of rules] by auto
  have "Max (insert 0 (fr_rule ` set rules)) \<le> nextRuleNumber rules - 10"
    by (rule Max.boundedI) (use nextRuleNumber_ge [of rules] nextRuleNumber_above [of _ rules] in force)+
  then show "Max (insert 0 (fr_rule ` set rules)) + 10 \<le> nextRuleNumber rules" by linarith
qed

end
