(* ===== verification/Firewall_Rule_Effects.thy ===== *)
theory Firewall_Rule_Effects
  imports Firewall_Rules
begin

text \<open>
  What \<open>diffRule\<close> does to the device: in every scope the rule ends up in, the leaves it owns
  become exactly those of the update, and the scopes it leaves lose its node.
\<close>

section \<open>Command lists seen through a region\<close>

text \<open>
  \<open>reaches dev C cs L D\<close>: wherever the region \<open>C\<close> holds \<open>L\<close>, it holds \<open>D\<close> after the
  commands, whatever else they do. \<open>avoids single C cs\<close>: no command of the list can change the
  region.
\<close>

definition reaches ::
  "(vyos_command \<Rightarrow> path set \<Rightarrow> path set) \<Rightarrow> path set \<Rightarrow> vyos_command list \<Rightarrow> path set \<Rightarrow> path set \<Rightarrow> bool" where
  "reaches dev C cs L D \<longleftrightarrow> (\<forall>S. S \<inter> C = L \<longrightarrow> run dev cs S \<inter> C = D)"

definition avoids :: "(path \<Rightarrow> bool) \<Rightarrow> path set \<Rightarrow> vyos_command list \<Rightarrow> bool" where
  "avoids single C cs \<longleftrightarrow> (\<forall>c\<in>set cs. case cmd_op c of
       OpDelete \<Rightarrow> cone (cmd_path c) \<inter> C = {}
     | OpSet \<Rightarrow> cmd_path c \<notin> C \<and> (single (butlast (cmd_path c)) \<longrightarrow> cone (butlast (cmd_path c)) \<inter> C = {}))"

lemma reaches_append:
  "reaches dev C cs L M \<Longrightarrow> reaches dev C ds M D \<Longrightarrow> reaches dev C (cs @ ds) L D"
  by (simp add: reaches_def)

lemma reaches_edits:
  assumes "edits dev C cs L D"
  shows "reaches dev C cs L D"
  unfolding reaches_def
proof (intro allI impI)
  fix S assume "S \<inter> C = L"
  then have "run dev cs S = (S - C) \<union> D" using edits_run [OF assms] by blast
  moreover have "D \<subseteq> C" using assms by (simp add: edits_def)
  ultimately show "run dev cs S \<inter> C = D" by auto
qed

lemma avoids_Nil [simp]: "avoids single C []"
  by (simp add: avoids_def)

lemma avoids_append [simp]: "avoids single C (cs @ ds) \<longleftrightarrow> avoids single C cs \<and> avoids single C ds"
  by (auto simp: avoids_def)

lemma avoids_Cons: "avoids single C (c # cs) \<longleftrightarrow> avoids single C [c] \<and> avoids single C cs"
  by (metis append_Cons append_Nil avoids_append)

lemma avoids_concat [simp]:
  "avoids single C (concat (map f xs)) \<longleftrightarrow> (\<forall>x\<in>set xs. avoids single C (f x))"
  by (auto simp: avoids_def)

lemma avoids_map [simp]: "avoids single C (map f xs) \<longleftrightarrow> (\<forall>x\<in>set xs. avoids single C [f x])"
  by (auto simp: avoids_def)

lemma avoids_UN: "avoids single (\<Union>c\<in>A. C c) cs \<longleftrightarrow> (\<forall>c\<in>A. avoids single (C c) cs)"
  by (auto simp: avoids_def disjoint_iff split: cmd_op.splits)

lemma avoids_mono: "avoids single C cs \<Longrightarrow> C' \<subseteq> C \<Longrightarrow> avoids single C' cs"
  by (fastforce simp: avoids_def disjoint_iff split: cmd_op.splits)

text \<open>Commands whose paths leave the cone of \<open>b\<close> before its last word avoid it.\<close>

lemma avoids_cone_set:
  "\<not> prefix b p \<Longrightarrow> \<not> prefix (butlast p) b \<Longrightarrow> avoids single (cone b) [cset p]"
  by (auto simp: avoids_def cone_disjoint_iff dest: prefix_order.trans [OF _ prefixeq_butlast])

lemma avoids_cone_del: "\<not> prefix b p \<Longrightarrow> \<not> prefix p b \<Longrightarrow> avoids single (cone b) [cdel p]"
  by (simp add: avoids_def cone_disjoint_iff)

lemma reaches_avoids:
  assumes dev: "device_laws dev single" and "avoids single C cs"
  shows "reaches dev C cs L L"
  using assms(2)
proof (induction cs)
  case Nil
  then show ?case by (simp add: reaches_def)
next
  case (Cons c cs)
  then have "reaches dev C cs L L" by (simp add: avoids_def)
  moreover have "dev c S \<inter> C = S \<inter> C" for S
  proof (cases c)
    case (Command op p)
    with Cons.prems show ?thesis
      by (cases op) (auto simp: avoids_def dev_delete [OF dev] dev_set_single [OF dev] dev_set_multi [OF dev]
          disjoint_iff split: if_splits, (cases "single (butlast p)";
          auto simp: dev_set_single [OF dev] dev_set_multi [OF dev])+)
  qed
  ultimately show ?case by (simp add: reaches_def)
qed

text \<open>An edit of part of a region, the rest being kept.\<close>

lemma reaches_part:
  assumes "edits dev C1 cs L D" and "C1 \<subseteq> C" and "X \<subseteq> C - C1"
  shows "reaches dev C cs (L \<union> X) (D \<union> X)"
  by (rule reaches_edits) (rule edits_frame [OF assms])

section \<open>The parts of a rule node\<close>

definition ref_region :: "path \<Rightarrow> side \<Rightarrow> path set" where
  "ref_region b sd = (\<Union>t\<in>set REF_NODES. cone (b @ [side_str sd, ''group'', t]))"

definition ref_paths :: "path \<Rightarrow> side \<Rightarrow> string option \<Rightarrow> string option \<Rightarrow> path set" where
  "ref_paths b sd t n =
     (if truthy t \<and> truthy n then {b @ [side_str sd, ''group'', the t, the n]} else {})"

definition iface_paths :: "path \<Rightarrow> side \<Rightarrow> string option \<Rightarrow> string option \<Rightarrow> path set" where
  "iface_paths b sd i g = (case i of
       Some x \<Rightarrow> {b @ [IFACE_NODE sd, ''name'', x]}
     | None \<Rightarrow> (case g of Some x \<Rightarrow> {b @ [IFACE_NODE sd, ''group'', x]} | None \<Rightarrow> {}))"

definition ep_region :: "path \<Rightarrow> side \<Rightarrow> path set" where
  "ep_region b sd = ref_region b sd \<union> (cone (b @ [side_str sd, ''address'']) \<union> cone (b @ [IFACE_NODE sd]))"

definition ep_paths ::
  "path \<Rightarrow> side \<Rightarrow> string option \<Rightarrow> string option \<Rightarrow> string option \<Rightarrow> string option \<Rightarrow> string option \<Rightarrow> path set" where
  "ep_paths b sd t n a i g =
     ref_paths b sd t n \<union> (leaf_paths (b @ [side_str sd, ''address'']) a \<union> iface_paths b sd i g)"

text \<open>
  A reference has a node of the three and a name, or neither; a side names an interface or an
  interface group, not both.
\<close>

definition wf_ref :: "string option \<Rightarrow> string option \<Rightarrow> bool" where
  "wf_ref t n \<longleftrightarrow> (t = None \<and> n = None) \<or> (truthy t \<and> truthy n \<and> the t \<in> set REF_NODES)"

definition wf_endpoint :: "rule_endpoint \<Rightarrow> bool" where
  "wf_endpoint e \<longleftrightarrow> wf_ref (ep_group_type e) (ep_group_name e) \<and>
     (ep_iface e = None \<or> ep_iface_group e = None)"

definition wf_desired :: "endpoint_desired \<Rightarrow> bool" where
  "wf_desired d \<longleftrightarrow> wf_ref (ed_node d) (ed_name d) \<and> (ed_iface d = None \<or> ed_ifGroup d = None)"

definition rule_schema :: "(path \<Rightarrow> bool) \<Rightarrow> path \<Rightarrow> bool" where
  "rule_schema single b \<longleftrightarrow> \<not> single b \<and>
     (\<forall>k\<in>{''action'', ''description'', ''protocol''}. single (b @ [k])) \<and>
     (\<forall>sd. single (b @ [side_str sd, ''address''])) \<and>
     (\<forall>sd. \<forall>t\<in>set REF_NODES. single (b @ [side_str sd, ''group'', t])) \<and>
     single (b @ [''destination'', ''group'', ''port-group''])"

lemma truthy_Some: "truthy x \<Longrightarrow> \<exists>s. x = Some s \<and> s \<noteq> []"
  by (auto simp: truthy_def split: option.splits)

lemma wf_ref_cases:
  assumes "wf_ref t n"
  obtains "t = None" "n = None"
  | x y where "t = Some x" "n = Some y" "x \<noteq> []" "y \<noteq> []" "x \<in> set REF_NODES"
  using assms by (auto simp: wf_ref_def dest!: truthy_Some)

lemma truthy_simps [simp]: "truthy (Some s) \<longleftrightarrow> s \<noteq> []" "\<not> truthy None"
  by (simp_all add: truthy_def)

text \<open>Replacing a node as a whole: delete it when it is there, then set the new leaf.\<close>

lemma edits_replace:
  assumes dev: "device_laws dev single" and "L \<subseteq> C" and "D \<subseteq> C"
    and dels: "L \<subseteq> (\<Union>p\<in>set dels. cone p)" "(\<Union>p\<in>set dels. cone p) \<subseteq> C"
    and sets: "set sets = D" "\<And>p. p \<in> D \<Longrightarrow> single (butlast p) \<Longrightarrow> D = {p} \<and> cone (butlast p) \<subseteq> C"
  shows "edits dev C (map cdel dels @ map cset sets) L D"
proof (rule edits_seq [OF edits_dels [OF dev dels] edits_sets [OF dev sets(1) assms(3)]])
  fix p
  assume "p \<in> D" "single (butlast p)"
  then have "D = {p}" "cone (butlast p) \<subseteq> C" using sets(2) by auto
  then show "D \<inter> cone (butlast p) = {p} \<and> cone (butlast p) \<subseteq> C"
    by (auto simp: prefixeq_butlast)
qed

lemma prefix_two: "prefix (b @ [x, y]) q \<Longrightarrow> prefix (b @ [x]) q"
  by (auto simp: prefix_def)

lemma edits_ref:
  assumes dev: "device_laws dev single" and sch: "rule_schema single b"
    and "wf_ref (ep_group_type e) (ep_group_name e)" and "wf_ref (ed_node d) (ed_name d)"
  shows "edits dev (ref_region b sd) (ref_writes b sd e d)
    (ref_paths b sd (ep_group_type e) (ep_group_name e)) (ref_paths b sd (ed_node d) (ed_name d))"
proof -
  let ?L = "ref_paths b sd (ep_group_type e) (ep_group_name e)"
  let ?D = "ref_paths b sd (ed_node d) (ed_name d)"
  have sub: "?L \<subseteq> ref_region b sd" "?D \<subseteq> ref_region b sd"
    using assms(3,4) by (auto elim!: wf_ref_cases simp: ref_region_def ref_paths_def)
  show ?thesis
  proof (cases "ep_group_type e \<noteq> ed_node d \<or> ep_group_name e \<noteq> ed_name d")
    case False
    then show ?thesis using sub by (simp add: ref_writes_def edits_nil Let_def)
  next
    case True
    let ?dels = "if truthy (ep_group_type e) then [b @ [side_str sd, ''group'', the (ep_group_type e)]] else []"
    let ?sets = "if truthy (ed_node d) \<and> truthy (ed_name d)
      then [b @ [side_str sd, ''group'', the (ed_node d), the (ed_name d)]] else []"
    have "edits dev (ref_region b sd) (map cdel ?dels @ map cset ?sets) ?L ?D"
    proof (rule edits_replace [OF dev sub])
      show "?L \<subseteq> (\<Union>p\<in>set ?dels. cone p)" "(\<Union>p\<in>set ?dels. cone p) \<subseteq> ref_region b sd"
        using assms(3) by (auto elim!: wf_ref_cases simp: ref_region_def ref_paths_def)
      show "set ?sets = ?D" by (simp add: ref_paths_def)
      show "\<And>p. p \<in> ?D \<Longrightarrow> ?D = {p} \<and> cone (butlast p) \<subseteq> ref_region b sd"
        using assms(4) by (auto elim!: wf_ref_cases simp: ref_region_def ref_paths_def butlast_append)
    qed
    moreover have "ref_writes b sd e d = map cdel ?dels @ map cset ?sets"
      using True by (simp add: ref_writes_def Let_def)
    ultimately show ?thesis by simp
  qed
qed

lemma edits_iface:
  assumes dev: "device_laws dev single"
    and "ep_iface e = None \<or> ep_iface_group e = None" and "ed_iface d = None \<or> ed_ifGroup d = None"
  shows "edits dev (cone (b @ [IFACE_NODE sd])) (iface_writes b sd e d)
    (iface_paths b sd (ep_iface e) (ep_iface_group e)) (iface_paths b sd (ed_iface d) (ed_ifGroup d))"
proof -
  let ?L = "iface_paths b sd (ep_iface e) (ep_iface_group e)"
  let ?D = "iface_paths b sd (ed_iface d) (ed_ifGroup d)"
  let ?C = "cone (b @ [IFACE_NODE sd])"
  have sub: "?L \<subseteq> ?C" "?D \<subseteq> ?C" by (auto simp: iface_paths_def split: option.splits)
  show ?thesis
  proof (cases "ed_iface d \<noteq> ep_iface e \<or> ed_ifGroup d \<noteq> ep_iface_group e")
    case False
    then show ?thesis using sub by (simp add: iface_writes_def edits_nil)
  next
    case True
    let ?dels = "if ep_iface e \<noteq> None \<or> ep_iface_group e \<noteq> None then [b @ [IFACE_NODE sd]] else []"
    let ?sets = "case ed_iface d of Some i \<Rightarrow> [b @ [IFACE_NODE sd, ''name'', i]]
      | None \<Rightarrow> (case ed_ifGroup d of Some g \<Rightarrow> [b @ [IFACE_NODE sd, ''group'', g]] | None \<Rightarrow> [])"
    have "edits dev ?C (map cdel ?dels @ map cset ?sets) ?L ?D"
    proof (rule edits_replace [OF dev sub])
      show "?L \<subseteq> (\<Union>p\<in>set ?dels. cone p)" "(\<Union>p\<in>set ?dels. cone p) \<subseteq> ?C"
        by (auto simp: iface_paths_def split: option.splits)
      show "set ?sets = ?D" by (auto simp: iface_paths_def split: option.splits)
      show "\<And>p. p \<in> ?D \<Longrightarrow> ?D = {p} \<and> cone (butlast p) \<subseteq> ?C"
        by (auto simp: iface_paths_def butlast_append dest: prefix_two split: option.splits)
    qed
    moreover have "iface_writes b sd e d = map cdel ?dels @ map cset ?sets"
      using True by (simp add: iface_writes_def split: option.splits)
    ultimately show ?thesis by simp
  qed
qed

section \<open>Steering one part of a watched region\<close>

text \<open>
  \<open>steers dev W C cs L D\<close>: inside the watched region \<open>W\<close> the commands change the part \<open>C\<close>
  only, and that from \<open>L\<close> to \<open>D\<close>. What happens outside \<open>W\<close> is left open.
\<close>

definition steers ::
  "(vyos_command \<Rightarrow> path set \<Rightarrow> path set) \<Rightarrow> path set \<Rightarrow> path set \<Rightarrow> vyos_command list
    \<Rightarrow> path set \<Rightarrow> path set \<Rightarrow> bool" where
  "steers dev W C cs L D \<longleftrightarrow> C \<subseteq> W \<and> L \<subseteq> C \<and> D \<subseteq> C \<and>
     (\<forall>S. S \<inter> C = L \<longrightarrow> run dev cs S \<inter> W = (S \<inter> W - C) \<union> D)"

lemma steers_edits:
  assumes "edits dev C cs L D" and "C \<subseteq> W"
  shows "steers dev W C cs L D"
  using assms edits_run [OF assms(1)] by (auto simp: steers_def edits_def)

lemma avoids_run:
  assumes "device_laws dev single" and "avoids single W cs"
  shows "run dev cs S \<inter> W = S \<inter> W"
  using reaches_avoids [OF assms, of "S \<inter> W"] by (simp add: reaches_def)

lemma steers_append:
  assumes a: "steers dev W C1 cs L1 D1" and b: "steers dev W C2 ds L2 D2" and disj: "C1 \<inter> C2 = {}"
  shows "steers dev W (C1 \<union> C2) (cs @ ds) (L1 \<union> L2) (D1 \<union> D2)"
  unfolding steers_def
proof (intro conjI allI impI)
  have sub: "C1 \<subseteq> W" "L1 \<subseteq> C1" "D1 \<subseteq> C1" "C2 \<subseteq> W" "L2 \<subseteq> C2" "D2 \<subseteq> C2"
    using a b by (auto simp: steers_def)
  then show "C1 \<union> C2 \<subseteq> W" "L1 \<union> L2 \<subseteq> C1 \<union> C2" "D1 \<union> D2 \<subseteq> C1 \<union> C2" by auto
  fix S assume S: "S \<inter> (C1 \<union> C2) = L1 \<union> L2"
  then have "S \<inter> C1 = L1" "S \<inter> C2 = L2" using sub disj by blast+
  with a have one: "run dev cs S \<inter> W = (S \<inter> W - C1) \<union> D1" by (simp add: steers_def)
  then have "run dev cs S \<inter> C2 = L2" using \<open>S \<inter> C2 = L2\<close> sub disj by blast
  with b have "run dev ds (run dev cs S) \<inter> W = (run dev cs S \<inter> W - C2) \<union> D2" by (simp add: steers_def)
  then show "run dev (cs @ ds) S \<inter> W = (S \<inter> W - (C1 \<union> C2)) \<union> (D1 \<union> D2)"
    using one sub disj by (simp add: one) blast
qed

lemma steers_avoid_first:
  assumes dev: "device_laws dev single" and av: "avoids single W cs" and st: "steers dev W C ds L D"
  shows "steers dev W C (cs @ ds) L D"
proof -
  have "run dev cs S \<inter> C = S \<inter> C" "run dev cs S \<inter> W - C = S \<inter> W - C" for S
    using avoids_run [OF dev av, of S] st by (auto simp: steers_def)
  with st show ?thesis by (simp add: steers_def)
qed

lemma steers_avoid_last:
  assumes dev: "device_laws dev single" and av: "avoids single W ds" and st: "steers dev W C cs L D"
  shows "steers dev W C (cs @ ds) L D"
  using st avoids_run [OF dev av] by (simp add: steers_def)

text \<open>All commands lie strictly below \<open>b\<close>.\<close>

definition inside :: "path \<Rightarrow> vyos_command list \<Rightarrow> bool" where
  "inside b cs \<longleftrightarrow> (\<forall>c\<in>set cs. prefix b (butlast (cmd_path c)))"

lemma inside_append [simp]: "inside b (cs @ ds) \<longleftrightarrow> inside b cs \<and> inside b ds"
  by (auto simp: inside_def)

lemma inside_Nil [simp]: "inside b []"
  by (simp add: inside_def)

lemma inside_avoids:
  assumes "inside b cs" and "\<not> prefix a b" and "\<not> prefix b a"
  shows "avoids single (cone a) cs"
  unfolding avoids_def
proof
  fix c assume "c \<in> set cs"
  then have b: "prefix b (butlast (cmd_path c))" using assms(1) by (simp add: inside_def)
  then have b': "prefix b (cmd_path c)" using prefixeq_butlast prefix_order.trans by blast
  have "cone (cmd_path c) \<inter> cone a = {}" "cone (butlast (cmd_path c)) \<inter> cone a = {}"
    using cone_disjoint_mono [of b "cone a"] b b' assms(2,3) by (simp_all add: cone_disjoint_iff)
  moreover have "cmd_path c \<in> cone (cmd_path c)" by simp
  ultimately show "case cmd_op c of OpDelete \<Rightarrow> cone (cmd_path c) \<inter> cone a = {}
     | OpSet \<Rightarrow> cmd_path c \<notin> cone a \<and>
         (single (butlast (cmd_path c)) \<longrightarrow> cone (butlast (cmd_path c)) \<inter> cone a = {})"
    by (auto simp: disjoint_iff split: cmd_op.splits)
qed

lemma inside_leaf: "inside b (leaf_cmds (b @ x # xs) live d)"
  by (auto simp: leaf_cmds_def inside_def butlast_append split: option.splits)

lemma inside_list: "inside b (list_cmds (b @ x # xs) live d)"
  by (auto simp: list_cmds_def inside_def butlast_append)

lemma inside_flag: "inside b (flag_cmds (b @ x # xs) live d)"
  by (auto simp: flag_cmds_def inside_def butlast_append)

lemma steers_each_chain:
  assumes dev: "device_laws dev single" and "c \<in> set chs" and "distinct chs" and "W \<subseteq> cone (ruleBase c n)"
    and wf: "\<forall>c\<in>set chs. wf_chain c" and ins: "\<And>c. inside (ruleBase c n) (f c)"
    and ed: "edits dev C (f c) L D" and sub: "C \<subseteq> W"
  shows "steers dev W C (each_chain chs f) L D"
proof -
  obtain xs ys where chs: "chs = xs @ c # ys" "c \<notin> set xs" "c \<notin> set ys"
    using \<open>c \<in> set chs\<close> \<open>distinct chs\<close> by (metis distinct_append distinct.simps(2) split_list not_distinct_conv_prefix disjoint_insert(1) list.set(2))
  have av: "avoids single W (f d)" if "d \<in> set chs" "d \<noteq> c" for d
  proof -
    have "ruleBase d n \<noteq> ruleBase c n" using that wf assms(2) by (auto simp: ruleBase_eq_iff)
    then have "\<not> prefix (ruleBase c n) (ruleBase d n)" "\<not> prefix (ruleBase d n) (ruleBase c n)"
      by (auto dest: prefix_same_length)
    then show ?thesis using inside_avoids [OF ins] avoids_mono [OF _ assms(4)] by blast
  qed
  have "avoids single W (each_chain xs f)" "avoids single W (each_chain ys f)"
    using av chs by (auto simp: each_chain_def)
  moreover have "each_chain chs f = each_chain xs f @ f c @ each_chain ys f"
    by (simp add: chs each_chain_def)
  ultimately show ?thesis
    using steers_avoid_first [OF dev] steers_avoid_last [OF dev] steers_edits [OF ed sub] by metis
qed

section \<open>A rule as the leaves of its node\<close>

record rule_leaves =
  rl_action :: "string option"
  rl_ips :: bool
  rl_name :: "string option"
  rl_from :: endpoint_desired
  rl_to :: endpoint_desired
  rl_policy :: "string option"
  rl_protocol :: "string option"
  rl_disabled :: bool
  rl_log :: bool

definition ep_leaves :: "rule_endpoint \<Rightarrow> endpoint_desired" where
  "ep_leaves e = \<lparr>ed_node = ep_group_type e, ed_name = ep_group_name e, ed_addr = ep_address e,
     ed_iface = ep_iface e, ed_ifGroup = ep_iface_group e\<rparr>"

text \<open>The leaves of a live rule, of none, and of an update with its resolved sides.\<close>

definition live_leaves :: "firewall_rule option \<Rightarrow> rule_leaves" where
  "live_leaves live = (case live of
       None \<Rightarrow> \<lparr>rl_action = None, rl_ips = False, rl_name = None, rl_from = ep_leaves no_endpoint,
         rl_to = ep_leaves no_endpoint, rl_policy = None, rl_protocol = None, rl_disabled = False,
         rl_log = False\<rparr>
     | Some r \<Rightarrow> \<lparr>rl_action = wireAction (Some r), rl_ips = fr_ips r, rl_name = fr_name r,
         rl_from = ep_leaves (fr_from r), rl_to = ep_leaves (fr_to r), rl_policy = fr_policy r,
         rl_protocol = fr_protocol r, rl_disabled = (\<not> fr_enabled r), rl_log = fr_log r\<rparr>)"

definition desired_leaves :: "rule_update \<Rightarrow> endpoint_desired \<Rightarrow> endpoint_desired \<Rightarrow> rule_leaves" where
  "desired_leaves u fd td =
     \<lparr>rl_action = Some (if want_ips u then ''queue'' else action_str (ru_action u)),
      rl_ips = want_ips u, rl_name = blank_to_none (ru_name u), rl_from = fd, rl_to = td,
      rl_policy = desired_policy u, rl_protocol = blank_to_none (desired_protocol u),
      rl_disabled = (\<not> ru_enabled u), rl_log = ru_log u\<rparr>"

definition ips_region :: "path \<Rightarrow> path set" where
  "ips_region b = cone (b @ [''queue'']) \<union> (cone (b @ [''queue-options'']) \<union>
     cone (b @ [''set'', ''connection-mark'']))"

definition ips_paths :: "path \<Rightarrow> bool \<Rightarrow> path set" where
  "ips_paths b on = (if on then {b @ [''queue'', ''0''], b @ [''queue-options'', ''bypass''],
     b @ [''set'', ''connection-mark'', string_of_int IPS_CONNMARK]} else {})"

definition rule_region :: "path \<Rightarrow> path set" where
  "rule_region b = cone (b @ [''action'']) \<union> (ips_region b \<union> (cone (b @ [''description'']) \<union>
     ((ep_region b Source \<union> ep_region b Destination) \<union>
     (cone (b @ [''destination'', ''group'', ''port-group'']) \<union> (cone (b @ [''protocol'']) \<union>
     (cone (b @ [''disable'']) \<union> cone (b @ [''log''])))))))"

definition side_paths :: "path \<Rightarrow> side \<Rightarrow> endpoint_desired \<Rightarrow> path set" where
  "side_paths b sd d = ep_paths b sd (ed_node d) (ed_name d) (ed_addr d) (ed_iface d) (ed_ifGroup d)"

definition rule_paths :: "path \<Rightarrow> rule_leaves \<Rightarrow> path set" where
  "rule_paths b l = leaf_paths (b @ [''action'']) (rl_action l) \<union> (ips_paths b (rl_ips l) \<union>
     (leaf_paths (b @ [''description'']) (rl_name l) \<union>
     ((side_paths b Source (rl_from l) \<union> side_paths b Destination (rl_to l)) \<union>
     (leaf_paths (b @ [''destination'', ''group'', ''port-group'']) (rl_policy l) \<union>
     (leaf_paths (b @ [''protocol'']) (rl_protocol l) \<union>
     (flag_paths (b @ [''disable'']) (rl_disabled l) \<union> flag_paths (b @ [''log'']) (rl_log l)))))))"

lemma edits_endpoint:
  assumes dev: "device_laws dev single" and sch: "rule_schema single b"
    and wf: "wf_endpoint (live_ep live)" "wf_desired d"
  shows "edits dev (ep_region b sd) (endpointWrites b sd live d)
    (side_paths b sd (ep_leaves (live_ep live))) (side_paths b sd d)"
proof -
  have "ref_region b sd \<inter> (cone (b @ [side_str sd, ''address'']) \<union> cone (b @ [IFACE_NODE sd])) = {}"
    "cone (b @ [side_str sd, ''address'']) \<inter> cone (b @ [IFACE_NODE sd]) = {}"
    by (cases sd; simp add: ref_region_def REF_NODES_def cone_simps)+
  then show ?thesis
    unfolding ep_region_def endpointWrites_def side_paths_def ep_paths_def ep_leaves_def
      endpoint_desired.select_convs
    using sch wf
    by (intro edits_append edits_leaf [OF dev] edits_ref [OF dev sch] edits_iface [OF dev])
      (simp_all add: wf_endpoint_def wf_desired_def rule_schema_def)
qed

lemma edits_ips:
  assumes dev: "device_laws dev single"
  shows "edits dev (ips_region b) (ips_leaf_cmds b live want) (ips_paths b live) (ips_paths b want)"
proof -
  let ?n = "[b @ [''queue''], b @ [''queue-options''], b @ [''set'', ''connection-mark'']]"
  have sub: "ips_paths b x \<subseteq> ips_region b" for x
    by (auto simp: ips_paths_def ips_region_def)
  show ?thesis
  proof (cases "live = want")
    case True
    then show ?thesis using sub by (cases want) (simp_all add: ips_leaf_cmds_def edits_nil)
  next
    case False
    show ?thesis
    proof (cases want)
      case True
      have one: "edits dev (cone p) [cset (p @ [v])] {} {p @ [v]}" for p v
      proof (rule editsI)
        fix R :: "path set"
        assume "R \<inter> cone p = {}"
        then show "run dev [cset (p @ [v])] (R \<union> {}) = R \<union> {p @ [v]}"
          by (cases "single p") (simp_all add: dev_set_single [OF dev] dev_set_multi [OF dev] Diff_triv)
      qed simp_all
      have "edits dev (ips_region b)
          ([cset ((b @ [''queue'']) @ [''0''])] @ [cset ((b @ [''queue-options'']) @ [''bypass''])] @
           [cset ((b @ [''set'', ''connection-mark'']) @ [string_of_int IPS_CONNMARK])])
          ({} \<union> ({} \<union> {})) ({(b @ [''queue'']) @ [''0'']} \<union> ({(b @ [''queue-options'']) @ [''bypass'']} \<union>
            {(b @ [''set'', ''connection-mark'']) @ [string_of_int IPS_CONNMARK]}))"
        unfolding ips_region_def by (intro edits_append one) (simp_all add: cone_simps)
      with True False show ?thesis by (simp add: ips_leaf_cmds_def ips_paths_def insert_commute)
    next
      case nowant: False
      have "edits dev (ips_region b) (map cdel ?n @ map cset []) (ips_paths b live) (ips_paths b want)"
        by (rule edits_replace [OF dev sub sub])
          (use nowant in \<open>auto simp: ips_paths_def ips_region_def\<close>)
      with nowant False show ?thesis by (simp add: ips_leaf_cmds_def)
    qed
  qed
qed

lemma policy_ref_cmds_leaf:
  "policy_ref_cmds b live d = leaf_cmds (b @ [''destination'', ''group'', ''port-group'']) live d"
  by (auto simp: policy_ref_cmds_def leaf_cmds_def split: option.splits)

section \<open>The commands that stay away from a rule node\<close>

lemma ruleBase_parallel:
  assumes "wf_chain c" "wf_chain d" "(c, n) \<noteq> (d, m)"
  shows "\<not> prefix (ruleBase c n) (ruleBase d m)"
  using assms prefix_same_length [of "ruleBase c n" "ruleBase d m"] by (auto simp: ruleBase_eq_iff)

lemma avoids_other_rule:
  assumes "inside (ruleBase c n) cs" "wf_chain c" "wf_chain d" "(c, n) \<noteq> (d, m)"
  shows "avoids single (cone (ruleBase d m)) cs"
  using assms by (intro inside_avoids [OF assms(1)]) (auto intro: ruleBase_parallel simp: ruleBase_parallel)

lemma avoids_elsewhere:
  assumes "inside [''firewall'', x] cs" "x \<noteq> ''ipv4''"
  shows "avoids single (cone (ruleBase d m)) cs"
proof (rule inside_avoids [OF assms(1)])
  show "\<not> prefix (ruleBase d m) [''firewall'', x]" by (auto dest: prefix_length_le)
  show "\<not> prefix [''firewall'', x] (ruleBase d m)"
    using assms(2) by (auto simp: ruleBase_def filterBase_def split: option.splits)
qed

lemma inside_group_path: "inside [''firewall'', ''group''] [cdel (group_path a b)]"
  "inside [''firewall'', ''group''] (list_cmds (group_path a b @ [x]) l d)"
  "inside [''firewall'', ''group''] (mark_new (group_path a b) new)"
  by (auto simp: inside_def group_path_def list_cmds_def mark_new_def butlast_append)

lemma inside_auto_deletes: "inside [''firewall'', ''group''] (autoGroupDeletes r autos)"
  by (auto simp: autoGroupDeletes_def inside_def group_path_def)

lemma inside_seed: "inside [''firewall'', ''group''] (seed_builtin cfg p)"
  by (auto simp: seed_builtin_def inside_def firewall_policyBase_def split: option.splits)

lemma inside_plan_group:
  "plan_group n sd live al inl autos taken = Inr (cs, x) \<Longrightarrow> inside [''firewall'', ''group''] cs"
  by (auto simp: plan_group_def Let_def diffAliasAutoGroup_def inside_group_path
      split: if_splits option.splits prod.splits)

lemma inside_plan_iface:
  "plan_iface n sd live sel autos taken = Inr (cs, x) \<Longrightarrow> inside [''firewall'', ''group''] cs"
  by (auto simp: plan_iface_def Let_def diffAutoMembers_def inside_group_path
      split: if_splits option.splits prod.splits)

lemma inside_planEndpoint:
  "planEndpoint n sd live sel autos taken = Inr (cs, x) \<Longrightarrow> inside [''firewall'', ''group''] cs"
  by (auto simp: planEndpoint_def Let_def split: sum.splits
      dest!: inside_plan_group inside_plan_iface)

lemma string_of_int_1 [simp]: "string_of_int 1 = ''1''" and string_of_int_2 [simp]: "string_of_int 2 = ''2''"
  by (simp_all add: string_of_int_def string_of_nat.simps digit_char_def char_of_def bit_0)

lemma ruleBase_sys: "filterBase c @ [''rule'', ''1''] = ruleBase c 1" "filterBase c @ [''rule'', ''2''] = ruleBase c 2"
  by (simp_all add: ruleBase_def)

lemma inside_established: "inside r (established_cmds r)"
  by (simp add: established_cmds_def inside_def butlast_append)

lemma inside_ips_flow: "inside (ruleBase c 1) (ipsFlowRuleCommands (filterBase c))"
  by (simp add: ipsFlowRuleCommands_def inside_def butlast_append ruleBase_sys Let_def)

lemma wf_base_chains [simp]: "wf_chain ''forward''" "wf_chain ''input''" "wf_chain ''output''"
  "wf_chain (zoneRuleChain r)" "wf_chain (base_chain_str b)"
  by (cases b; simp add: wf_chain_def zoneRuleChain_def)+

lemma avoids_forward_baseline:
  assumes "wf_chain d" "m \<notin> {1, 2}"
  shows "avoids single (cone (ruleBase d m)) (ensureForwardBaseline cfg)"
  using assms avoids_other_rule [OF inside_ips_flow, of "''forward''" d m]
    avoids_other_rule [OF inside_established, of "''forward''" d 2 m]
  by (auto simp: ensureForwardBaseline_def Let_def ruleBase_sys)

lemma avoids_ips_baseline:
  assumes "wf_chain d" "m \<notin> {1, 2}"
  shows "avoids single (cone (ruleBase d m)) (ensureIpsFlowBaseline out cfg)"
proof -
  have "avoids single (cone (ruleBase d m)) [cdel (ruleBase ''forward'' 1)]"
    by (rule avoids_cone_del) (use assms in \<open>auto simp: ruleBase_parallel\<close>)
  then show ?thesis
    using assms avoids_other_rule [OF inside_ips_flow, of "''forward''" d m]
      avoids_other_rule [OF inside_established, of "''forward''" d 2 m] avoids_forward_baseline [OF assms]
    by (auto simp: ensureIpsFlowBaseline_def Let_def ruleBase_sys
        avoids_Cons [where cs = "x @ y" for x y])
qed

lemma filterBase_not_prefix:
  assumes "wf_chain c" "wf_chain d" "c \<noteq> d"
  shows "\<not> prefix (filterBase c) (ruleBase d m)"
proof
  assume "prefix (filterBase c) (ruleBase d m)"
  then obtain r where "ruleBase d m = filterBase c @ r" by (rule prefixE)
  then have "take 4 (filterBase d @ [''rule'', string_of_int m]) = take 4 (filterBase c @ r)"
    by (simp only: ruleBase_def)
  then have "filterBase d = filterBase c" by simp
  then show False using assms filterBase_inj by blast
qed

lemma ruleBase_not_short: "length p < 6 \<Longrightarrow> \<not> prefix (ruleBase d m) p"
  by (auto dest: prefix_length_le)

lemma pairForChain_filterBase:
  "pairForChain pairs c = Some p \<Longrightarrow> filterBase c = [''firewall'', ''ipv4'', ''name'', zp_ruleset p]"
  by (auto simp: pairForChain_def filterBase_def find_Some_iff split: option.splits)

text \<open>Cleaning up after a pair never takes a ruleset that another rule still uses.\<close>

definition keeps_scope :: "firewall_config \<Rightarrow> rule_chain \<Rightarrow> int list \<Rightarrow> bool" where
  "keeps_scope cfg d vacating \<longleftrightarrow>
     (\<exists>r\<in>set (fc_rules cfg). fr_rule r \<notin> set vacating \<and> (\<exists>s\<in>set (fr_scopes r). sc_chain s = d))"

lemma avoids_emptyPairCleanup:
  assumes "wf_chain c" "wf_chain d" "c \<noteq> d \<or> keeps_scope cfg d vacating"
  shows "avoids single (cone (ruleBase d m)) (emptyPairCleanup cfg c vacating)"
proof (cases "emptyPairCleanup cfg c vacating = []")
  case False
  then obtain p where p: "pairForChain (fc_zone_pairs cfg) c = Some p"
    and cmds: "emptyPairCleanup cfg c vacating =
      [cdel [''firewall'', ''zone'', zp_dst p, ''from'', zp_src p]] @ [cdel (filterBase c)]"
    and empty: "\<not> keeps_scope cfg c vacating"
    by (auto simp: emptyPairCleanup_def keeps_scope_def list_ex_iff pairForChain_filterBase
        split: option.splits if_splits)
  then have "c \<noteq> d" using assms(3) by auto
  have "avoids single (cone (ruleBase d m)) [cdel [''firewall'', ''zone'', zp_dst p, ''from'', zp_src p]]"
    by (rule avoids_elsewhere [of "''zone''"]) (simp_all add: inside_def)
  moreover have "avoids single (cone (ruleBase d m)) [cdel (filterBase c)]"
    using filterBase_not_prefix [OF assms(1,2) \<open>c \<noteq> d\<close>]
    by (intro avoids_cone_del) (simp_all add: ruleBase_not_short)
  ultimately show ?thesis by (simp only: cmds avoids_append)
qed simp

lemma avoids_drop_scopes:
  assumes "wf_chain d"
    and "\<And>c. c \<in> set cs \<Longrightarrow> wf_chain c \<and> (c \<noteq> d \<or> (n \<noteq> m \<and> keeps_scope cfg d [n]))"
  shows "avoids single (cone (ruleBase d m)) (drop_scopes cfg cs n)"
  unfolding drop_scopes_def avoids_concat
proof
  fix c assume c: "c \<in> set cs"
  then have "(c, n) \<noteq> (d, m)" "wf_chain c" using assms(2) by auto
  then have "avoids single (cone (ruleBase d m)) [cdel (ruleBase c n)]"
    using assms(1) by (intro avoids_cone_del) (auto simp: ruleBase_parallel)
  moreover have "avoids single (cone (ruleBase d m)) (emptyPairCleanup cfg c [n])"
    using c assms by (intro avoids_emptyPairCleanup) auto
  ultimately show "avoids single (cone (ruleBase d m)) (cdel (ruleBase c n) # emptyPairCleanup cfg c [n])"
    by (subst avoids_Cons) simp
qed

lemma avoids_ensureZonePair:
  "avoids single (cone (ruleBase d m)) (ensureZonePair cfg p)"
proof -
  have "avoids single (cone (ruleBase d m))
      [cset [''firewall'', ''ipv4'', ''name'', zp_ruleset p, ''description'',
        AUTO_MARK @ '' '' @ zp_src p @ '' to '' @ zp_dst p]]"
  proof (rule avoids_cone_set)
    show "\<not> prefix (ruleBase d m) [''firewall'', ''ipv4'', ''name'', zp_ruleset p, ''description'',
        AUTO_MARK @ '' '' @ zp_src p @ '' to '' @ zp_dst p]"
      by (auto dest: prefix_same_length simp: ruleBase_def filterBase_def split: option.splits)
    show "\<not> prefix (butlast [''firewall'', ''ipv4'', ''name'', zp_ruleset p, ''description'',
        AUTO_MARK @ '' '' @ zp_src p @ '' to '' @ zp_dst p]) (ruleBase d m)"
      by (auto simp: ruleBase_def filterBase_def split: option.splits)
  qed
  moreover have "avoids single (cone (ruleBase d m))
      [cset [''firewall'', ''zone'', zp_dst p, ''from'', zp_src p, ''firewall'', ''name'', zp_ruleset p]]"
    by (rule avoids_elsewhere [of "''zone''"]) (simp_all add: inside_def)
  ultimately show ?thesis by (simp add: ensureZonePair_def avoids_Cons [where cs = "x # y" for x y])
qed

lemma avoids_ensureStatePolicy:
  "avoids single (cone (ruleBase d m)) (ensureStatePolicy cfg)"
  by (rule avoids_elsewhere [of "''global-options''"])
    (simp_all add: ensureStatePolicy_def inside_def state_policy_base_def)

lemma avoids_ensureChainSetup:
  assumes "wf_chain d" "m \<notin> {1, 2}"
  shows "avoids single (cone (ruleBase d m)) (ensureChainSetup c cfg)"
proof -
  let ?b = "base_chain_str c"
  have ins: "inside (ruleBase ?b 2)
      [cset (ruleBase ?b 2 @ [''action'', ''accept'']), cset (ruleBase ?b 2 @ [x, ''name'', ''lo'']),
       cset (ruleBase ?b 2 @ [''description'', y])]" for x y
    by (simp add: inside_def butlast_append)
  have two: "avoids single (cone (ruleBase d m))
      [cset (ruleBase ?b 2 @ [''action'', ''accept'']), cset (ruleBase ?b 2 @ [x, ''name'', ''lo'']),
       cset (ruleBase ?b 2 @ [''description'', y])]" for x y
    using assms by (intro avoids_other_rule [OF ins]) auto
  have one: "avoids single (cone (ruleBase d m)) (established_cmds (ruleBase ?b 1))"
    using assms by (intro avoids_other_rule [OF inside_established]) auto
  have def: "avoids single (cone (ruleBase d m)) [cset (filterBase ?b @ [''default-action'', ''accept''])]"
  proof (rule avoids_cone_set)
    show "\<not> prefix (ruleBase d m) (filterBase ?b @ [''default-action'', ''accept''])"
      using prefix_same_length [of "ruleBase d m" "filterBase ?b @ [''default-action'', ''accept'']"]
      by (auto simp: ruleBase_def filterBase_def split: option.splits)
    show "\<not> prefix (butlast (filterBase ?b @ [''default-action'', ''accept''])) (ruleBase d m)"
      by (auto simp: ruleBase_def filterBase_def butlast_append split: option.splits)
  qed
  show ?thesis using one two def by (simp add: ensureChainSetup_def Let_def ruleBase_sys)
qed

lemma avoids_scope_setup:
  assumes "wf_chain d" "m \<notin> {1, 2}"
  shows "avoids single (cone (ruleBase d m)) (scope_setup cfg pairs chain)"
  using avoids_ensureChainSetup [OF assms]
  by (auto simp: scope_setup_def avoids_ensureStatePolicy avoids_ensureZonePair)

section \<open>The writes of a rule, seen from one scope\<close>

lemma inside_endpointWrites: "inside b (endpointWrites b sd live d)"
  by (auto simp: endpointWrites_def ref_writes_def iface_writes_def inside_leaf Let_def inside_def
      butlast_append leaf_cmds_def split: option.splits)

lemma inside_ips: "inside b (ips_leaf_cmds b live want)"
  by (auto simp: ips_leaf_cmds_def inside_def butlast_append)

lemma inside_policy_ref: "inside b (policy_ref_cmds b live d)"
  by (simp add: policy_ref_cmds_leaf inside_leaf)

lemma avoids_each_chain:
  assumes "wf_chain d" "\<And>c. c \<in> set chs \<Longrightarrow> wf_chain c \<and> (c, n) \<noteq> (d, m)"
    and "\<And>c. inside (ruleBase c n) (f c)"
  shows "avoids single (cone (ruleBase d m)) (each_chain chs f)"
  using assms by (auto simp: each_chain_def intro: avoids_other_rule)

lemma avoids_writes:
  assumes "wf_chain d" "\<And>c. c \<in> set chs \<Longrightarrow> wf_chain c \<and> (c, n) \<noteq> (d, m)"
  shows "avoids single (cone (ruleBase d m)) (action_writes chs n bl u)"
    "avoids single (cone (ruleBase d m)) (name_writes chs n bl u)"
    "avoids single (cone (ruleBase d m)) (endpoint_writes chs n bl fd td)"
    "avoids single (cone (ruleBase d m)) (policy_writes chs n bl u)"
    "avoids single (cone (ruleBase d m)) (switch_writes chs n bl u)"
  unfolding action_writes_def name_writes_def endpoint_writes_def policy_writes_def switch_writes_def
  by (auto intro!: avoids_each_chain [OF assms] simp: inside_leaf inside_flag inside_ips
      inside_policy_ref inside_endpointWrites)

lemma rule_region_cone: "rule_region b \<subseteq> cone b"
  by (auto simp: rule_region_def ips_region_def ep_region_def ref_region_def dest: append_prefixD)

lemma rule_parts_within:
  "cone (b @ [''action'']) \<subseteq> rule_region b" "ips_region b \<subseteq> rule_region b"
  "cone (b @ [''description'']) \<subseteq> rule_region b"
  "ep_region b Source \<union> ep_region b Destination \<subseteq> rule_region b"
  "cone (b @ [''destination'', ''group'', ''port-group'']) \<subseteq> rule_region b"
  "cone (b @ [''protocol'']) \<subseteq> rule_region b" "cone (b @ [''disable'']) \<subseteq> rule_region b"
  "cone (b @ [''log'']) \<subseteq> rule_region b"
  by (auto simp: rule_region_def)

lemmas rule_part_regions = ips_region_def ep_region_def ref_region_def REF_NODES_def

lemma rule_parts_disjoint:
  "cone (b @ [''action'']) \<inter> (ips_region b \<union> (cone (b @ [''description'']) \<union>
     ((ep_region b Source \<union> ep_region b Destination) \<union>
     (cone (b @ [''destination'', ''group'', ''port-group'']) \<union> (cone (b @ [''protocol'']) \<union>
     (cone (b @ [''disable'']) \<union> cone (b @ [''log'']))))))) = {}"
  "ips_region b \<inter> (cone (b @ [''description'']) \<union>
     ((ep_region b Source \<union> ep_region b Destination) \<union>
     (cone (b @ [''destination'', ''group'', ''port-group'']) \<union> (cone (b @ [''protocol'']) \<union>
     (cone (b @ [''disable'']) \<union> cone (b @ [''log''])))))) = {}"
  "cone (b @ [''description'']) \<inter>
     ((ep_region b Source \<union> ep_region b Destination) \<union>
     (cone (b @ [''destination'', ''group'', ''port-group'']) \<union> (cone (b @ [''protocol'']) \<union>
     (cone (b @ [''disable'']) \<union> cone (b @ [''log'']))))) = {}"
  "(ep_region b Source \<union> ep_region b Destination) \<inter>
     (cone (b @ [''destination'', ''group'', ''port-group'']) \<union> (cone (b @ [''protocol'']) \<union>
     (cone (b @ [''disable'']) \<union> cone (b @ [''log''])))) = {}"
  "cone (b @ [''destination'', ''group'', ''port-group'']) \<inter> (cone (b @ [''protocol'']) \<union>
     (cone (b @ [''disable'']) \<union> cone (b @ [''log'']))) = {}"
  "cone (b @ [''protocol'']) \<inter> (cone (b @ [''disable'']) \<union> cone (b @ [''log''])) = {}"
  "cone (b @ [''disable'']) \<inter> cone (b @ [''log'']) = {}"
  by (simp_all add: rule_part_regions cone_simps)

lemma ep_regions_disjoint: "ep_region b Source \<inter> ep_region b Destination = {}"
  by (simp add: rule_part_regions cone_simps)

lemma live_leaves_of:
  "rl_action (live_leaves l) = wireAction l" "rl_ips (live_leaves l) = live_ips l"
  "rl_name (live_leaves l) = Option.bind l fr_name" "rl_policy (live_leaves l) = Option.bind l fr_policy"
  "rl_protocol (live_leaves l) = Option.bind l fr_protocol"
  "rl_disabled (live_leaves l) = (case l of None \<Rightarrow> False | Some r \<Rightarrow> \<not> fr_enabled r)"
  "rl_log (live_leaves l) = (case l of None \<Rightarrow> False | Some r \<Rightarrow> fr_log r)"
  "rl_from (live_leaves l) = ep_leaves (live_ep (map_option fr_from l))"
  "rl_to (live_leaves l) = ep_leaves (live_ep (map_option fr_to l))"
  by (cases l; simp add: live_leaves_def live_ips_def live_ep_def wireAction_def)+

text \<open>The desired leaves of the writes, from the leaves the scope has now.\<close>

lemma steers_writes:
  assumes dev: "device_laws dev single" and c: "c \<in> set chs" "distinct chs" "\<forall>c\<in>set chs. wf_chain c"
    and b: "b = ruleBase c n" and W: "W = rule_region b" and sch: "rule_schema single b"
    and wf: "\<And>r. bl c = Some r \<Longrightarrow> wf_endpoint (fr_from r) \<and> wf_endpoint (fr_to r)"
      "wf_desired fd" "wf_desired td"
    and pres: "avoids single W p1" "avoids single W p2" "avoids single W p3" "avoids single W p4"
      "avoids single W p5"
  shows "steers dev W W (p1 @ action_writes chs n bl u @ p2 @ name_writes chs n bl u @ p3 @
      endpoint_writes chs n bl fd td @ p4 @ policy_writes chs n bl u @ switch_writes chs n bl u @ p5)
    (rule_paths b (live_leaves (bl c))) (rule_paths b (desired_leaves u fd td))"
proof -
  have wfe: "wf_endpoint (live_ep (map_option fr_from (bl c)))" "wf_endpoint (live_ep (map_option fr_to (bl c)))"
    using wf(1) by (cases "bl c"; simp add: live_ep_def wf_endpoint_def no_endpoint_def wf_ref_def)+
  have sub: "W \<subseteq> cone (ruleBase c n)" unfolding W b by (rule rule_region_cone)
  note step = steers_each_chain [OF dev c(1,2) sub c(3)]
  note ep = edits_append [OF edits_endpoint [OF dev sch wfe(1) wf(2), of Source]
      edits_endpoint [OF dev sch wfe(2) wf(3), of Destination] ep_regions_disjoint, unfolded b]
  note parts = rule_parts_within [of "ruleBase c n"]
  let ?b = "ruleBase c n" and ?l = "live_leaves (bl c)" and ?d = "desired_leaves u fd td"
  have sch': "rule_schema single ?b" using sch b by simp
  note schs = sch' [unfolded rule_schema_def]
  note live = live_leaves_of [of "bl c"]
  have sA: "steers dev W (cone (?b @ [''action'']))
      (each_chain chs (\<lambda>c. leaf_cmds (ruleBase c n @ [''action'']) (wireAction (bl c))
        (Some (if want_ips u then ''queue'' else action_str (ru_action u)))))
      (leaf_paths (?b @ [''action'']) (rl_action ?l)) (leaf_paths (?b @ [''action'']) (rl_action ?d))"
    using schs parts(1) by (intro step) (auto simp: inside_leaf live desired_leaves_def W b intro!: edits_leaf [OF dev])
  have sI: "steers dev W (ips_region ?b)
      (each_chain chs (\<lambda>c. ips_leaf_cmds (ruleBase c n) (live_ips (bl c)) (want_ips u)))
      (ips_paths ?b (rl_ips ?l)) (ips_paths ?b (rl_ips ?d))"
    using parts(2) by (intro step) (auto simp: inside_ips live desired_leaves_def W b intro!: edits_ips [OF dev])
  have sN: "steers dev W (cone (?b @ [''description''])) (name_writes chs n bl u)
      (leaf_paths (?b @ [''description'']) (rl_name ?l)) (leaf_paths (?b @ [''description'']) (rl_name ?d))"
    unfolding name_writes_def using schs parts(3)
    by (intro step) (auto simp: inside_leaf live desired_leaves_def W b intro!: edits_leaf [OF dev])
  have sE: "steers dev W (ep_region ?b Source \<union> ep_region ?b Destination) (endpoint_writes chs n bl fd td)
      (side_paths ?b Source (rl_from ?l) \<union> side_paths ?b Destination (rl_to ?l))
      (side_paths ?b Source (rl_from ?d) \<union> side_paths ?b Destination (rl_to ?d))"
    unfolding endpoint_writes_def using parts(4) ep
    by (intro step) (auto simp: inside_endpointWrites live desired_leaves_def W b)
  have sP: "steers dev W (cone (?b @ [''destination'', ''group'', ''port-group'']))
      (each_chain chs (\<lambda>c. policy_ref_cmds (ruleBase c n) (Option.bind (bl c) fr_policy) (desired_policy u)))
      (leaf_paths (?b @ [''destination'', ''group'', ''port-group'']) (rl_policy ?l))
      (leaf_paths (?b @ [''destination'', ''group'', ''port-group'']) (rl_policy ?d))"
    using schs parts(5)
    by (intro step) (auto simp: inside_leaf policy_ref_cmds_leaf live desired_leaves_def W b
        intro!: edits_leaf [OF dev])
  have sT: "steers dev W (cone (?b @ [''protocol'']))
      (each_chain chs (\<lambda>c. leaf_cmds (ruleBase c n @ [''protocol'']) (Option.bind (bl c) fr_protocol)
        (blank_to_none (desired_protocol u))))
      (leaf_paths (?b @ [''protocol'']) (rl_protocol ?l)) (leaf_paths (?b @ [''protocol'']) (rl_protocol ?d))"
    using schs parts(6) by (intro step) (auto simp: inside_leaf live desired_leaves_def W b intro!: edits_leaf [OF dev])
  have sX: "steers dev W (cone (?b @ [''disable'']))
      (each_chain chs (\<lambda>c. flag_cmds (ruleBase c n @ [''disable''])
        (case bl c of None \<Rightarrow> False | Some r \<Rightarrow> \<not> fr_enabled r) (\<not> ru_enabled u)))
      (flag_paths (?b @ [''disable'']) (rl_disabled ?l)) (flag_paths (?b @ [''disable'']) (rl_disabled ?d))"
    using schs parts(7) by (intro step) (auto simp: inside_flag live desired_leaves_def W b intro!: edits_flag [OF dev])
  have sG: "steers dev W (cone (?b @ [''log'']))
      (each_chain chs (\<lambda>c. flag_cmds (ruleBase c n @ [''log''])
        (case bl c of None \<Rightarrow> False | Some r \<Rightarrow> fr_log r) (ru_log u)))
      (flag_paths (?b @ [''log'']) (rl_log ?l)) (flag_paths (?b @ [''log'']) (rl_log ?d))"
    using schs parts(8) by (intro step) (auto simp: inside_flag live desired_leaves_def W b intro!: edits_flag [OF dev])
  note last3 = steers_append [OF sX steers_avoid_last [OF dev pres(5) sG] rule_parts_disjoint(7)]
  note last5 = steers_append [OF sP steers_append [OF sT last3 rule_parts_disjoint(6)] rule_parts_disjoint(5)]
  note from_ep = steers_append [OF sE steers_avoid_first [OF dev pres(4) last5] rule_parts_disjoint(4)]
  note from_name = steers_append [OF sN steers_avoid_first [OF dev pres(3) from_ep] rule_parts_disjoint(3)]
  note from_ips = steers_append [OF sI steers_avoid_first [OF dev pres(2) from_name] rule_parts_disjoint(2)]
  note all = steers_avoid_first [OF dev pres(1) steers_append [OF sA from_ips rule_parts_disjoint(1)]]
  show ?thesis
    using all unfolding W b action_writes_def policy_writes_def switch_writes_def rule_paths_def
    by (simp only: append_assoc rule_region_def [symmetric])
qed

section \<open>Where the rule ends up\<close>

definition wf_rule :: "firewall_rule \<Rightarrow> bool" where
  "wf_rule r \<longleftrightarrow> (\<forall>s\<in>set (fr_scopes r). wf_chain (sc_chain s)) \<and>
     (if isBaseChain (fr_chain r) then map sc_chain (fr_scopes r) = [fr_chain r]
      else (\<forall>s\<in>set (fr_scopes r). \<not> isBaseChain (sc_chain s))) \<and>
     wf_endpoint (fr_from r) \<and> wf_endpoint (fr_to r)"

definition rule_target :: "firewall_config \<Rightarrow> firewall_rule option \<Rightarrow> rule_update \<Rightarrow> zone_pair list
    \<Rightarrow> rule_chain list \<Rightarrow> int" where
  "rule_target cfg liveIn u pairs chs =
     (if rule_moves liveIn (pairs \<noteq> []) (hd chs) then nextRuleNumber (fc_rules cfg) else ru_rule u)"

definition kept_live :: "firewall_rule option \<Rightarrow> zone_pair list \<Rightarrow> rule_chain list \<Rightarrow> firewall_rule option" where
  "kept_live liveIn pairs chs = (if rule_moves liveIn (pairs \<noteq> []) (hd chs) then None else liveIn)"

definition live_chains :: "firewall_rule option \<Rightarrow> rule_chain list" where
  "live_chains l = (case l of None \<Rightarrow> [] | Some r \<Rightarrow> map sc_chain (fr_scopes r))"

definition live_in :: "firewall_rule option \<Rightarrow> rule_chain \<Rightarrow> firewall_rule option" where
  "live_in l c = (if c \<in> set (live_chains l) then l else None)"

lemma ruleChainsFor_kind:
  assumes "zonePairsFor f t zones = Inr pairs" "ruleChainsFor lc f t zones = Inr chs"
  shows "pairs \<noteq> [] \<Longrightarrow> chs \<noteq> [] \<and> (\<forall>c\<in>set chs. wf_chain c \<and> \<not> isBaseChain c)"
    and "pairs = [] \<Longrightarrow> \<exists>b. chs = [base_chain_str b]"
proof -
  show "pairs \<noteq> [] \<Longrightarrow> chs \<noteq> [] \<and> (\<forall>c\<in>set chs. wf_chain c \<and> \<not> isBaseChain c)"
    using assms by (auto simp: ruleChainsFor_def Let_def isBaseChain_iff split: if_splits)
  assume "pairs = []"
  then have "chs = [''input''] \<or> chs = [''output''] \<or> chs = [''forward'']"
    using assms by (auto simp: ruleChainsFor_def Let_def split: if_splits)
  then show "\<exists>b. chs = [base_chain_str b]" by (metis base_chain_str.simps)
qed

lemma isBaseChain_base [simp]: "isBaseChain (base_chain_str b)"
  by (simp add: isBaseChain_iff)

lemma ruleChainsFor_wf:
  assumes "zonePairsFor f t zones = Inr pairs" "ruleChainsFor lc f t zones = Inr chs" "c \<in> set chs"
  shows "wf_chain c" "isBaseChain c \<longleftrightarrow> pairs = []"
  using ruleChainsFor_kind [OF assms(1,2)] assms(3) by (cases "pairs = []"; auto)+

lemma moved_scopes:
  assumes "zonePairsFor f t zones = Inr pairs" "ruleChainsFor lc f t zones = Inr chs"
    and "wf_rule r" "rule_moves (Some r) (pairs \<noteq> []) (hd chs)" "c \<in> set chs"
  shows "\<forall>s\<in>set (fr_scopes r). sc_chain s \<noteq> c"
proof
  fix s assume s: "s \<in> set (fr_scopes r)"
  note kind = ruleChainsFor_wf(2) [OF assms(1,2,5)]
  show "sc_chain s \<noteq> c"
  proof (cases "isBaseChain (fr_chain r)")
    case True
    then have "sc_chain s = fr_chain r" using s assms(3) by (auto simp: wf_rule_def map_eq_Cons_conv)
    then show ?thesis
      using True assms(4,5) kind ruleChainsFor_kind(2) [OF assms(1,2)]
      by (cases "pairs = []") (auto simp: rule_moves_def Let_def)
  next
    case False
    then have "\<not> isBaseChain (sc_chain s)" using s assms(3) by (auto simp: wf_rule_def)
    then show ?thesis using False assms(4) kind by (cases "pairs = []") (auto simp: rule_moves_def Let_def)
  qed
qed

definition wf_selection :: "endpoint_selection \<Rightarrow> bool" where
  "wf_selection sel \<longleftrightarrow> (\<forall>(t, n)\<in>set (selected_aliases sel). n \<noteq> [])"

lemma alloc_from_nonempty: "alloc_from base i taken \<noteq> []"
  by (induction base i taken rule: alloc_from.induct)
    (subst alloc_from.simps, simp add: numbered_def)

lemma allocAutoName_nonempty: "fst (allocAutoName n sd taken) \<noteq> []"
  by (simp add: allocAutoName_def Let_def alloc_from_nonempty auto_base_def)

lemma find_auto_name: "find_auto gs node name = Some g \<Longrightarrow> ag_name g = name \<and> ag_node g = node"
  by (auto simp: find_auto_def find_Some_iff)

lemma live_auto_name: "live_auto gs node name = Some g \<Longrightarrow> ag_name g \<noteq> []"
  by (auto simp: live_auto_def truthy_def dest!: find_auto_name split: if_splits option.splits)

lemma alias_node_ref: "t \<noteq> Iface \<Longrightarrow> alias_node t \<in> set REF_NODES \<and> alias_node t \<noteq> []"
  by (cases t) (simp_all add: REF_NODES_def)

lemma wf_ref_alias: "t \<noteq> Iface \<Longrightarrow> n \<noteq> [] \<Longrightarrow> wf_ref (Some (alias_node t)) (Some n)"
  using alias_node_ref [of t] by (simp add: wf_ref_def)

lemma plan_group_wf:
  assumes "plan_group n sd live al inl autos taken = Inr (cs, tk, node, name)"
    and "\<And>t m. (t, m) \<in> set al \<Longrightarrow> t \<noteq> Iface \<and> m \<noteq> []"
  shows "wf_ref node name"
proof (cases "first_opt (map fst al @ map fst inl)")
  case None
  then show ?thesis using assms(1)
    by (auto simp: plan_group_def Let_def wf_ref_def split: if_splits option.splits)
next
  case (Some t)
  have "first_invalid inl = None"
    using assms(1) by (auto simp: plan_group_def Let_def split: if_splits option.splits)
  then have inl: "Iface \<notin> fst ` set inl" by (rule first_invalid_types)
  have al: "al = [] \<or> (fst (hd al) \<noteq> Iface \<and> snd (hd al) \<noteq> [])"
    using assms(2) [of "fst (hd al)" "snd (hd al)"] by (cases al) auto
  have t: "t \<noteq> Iface"
    using Some al inl by (cases al; cases inl) (auto simp: first_opt_def)
  from Some t al show ?thesis
    using assms(1) allocAutoName_nonempty [of n sd taken]
    by (auto simp: plan_group_def Let_def intro!: wf_ref_alias dest!: live_auto_name
        split: if_splits option.splits)
qed

lemma planEndpoint_wf:
  assumes "planEndpoint n sd live sel autos taken = Inr (cs, tk, d)" and "wf_selection sel"
  shows "wf_desired d"
proof -
  let ?sel = "filter (\<lambda>e. e \<noteq> EFirewall \<and> \<not> is_zone_entry e) sel"
  have "set (selected_aliases ?sel) \<subseteq> set (selected_aliases sel)"
    by (induction sel rule: selected_aliases.induct) auto
  then have al: "\<And>t m. (t, m) \<in> set (filter (\<lambda>a. fst a \<noteq> Iface) (selected_aliases ?sel)) \<Longrightarrow> t \<noteq> Iface \<and> m \<noteq> []"
    using assms(2) by (auto simp: wf_selection_def)
  obtain gc tk1 node name ic tk2 i g where
    "plan_group n sd live (filter (\<lambda>a. fst a \<noteq> Iface) (selected_aliases ?sel)) (selected_inline ?sel) autos taken
      = Inr (gc, tk1, node, name)"
    and pi: "plan_iface n sd live ?sel autos tk1 = Inr (ic, tk2, i, g)"
    and d: "ed_node d = node" "ed_name d = name" "ed_iface d = i" "ed_ifGroup d = g"
    using assms(1) by (auto simp: planEndpoint_def Let_def split: sum.splits)
  then have "wf_ref node name" using plan_group_wf al by blast
  moreover have "i = None \<or> g = None"
    using pi by (auto simp: plan_iface_def Let_def split: if_splits option.splits prod.splits)
  ultimately show ?thesis by (simp add: wf_desired_def d)
qed

text \<open>The commands of \<open>diffRule\<close>: the move, the dropped scopes, and the rest.\<close>

definition move_cmds ::
  "firewall_config \<Rightarrow> firewall_rule option \<Rightarrow> zone_pair list \<Rightarrow> rule_chain list \<Rightarrow> vyos_command list" where
  "move_cmds cfg liveIn pairs chs = (case liveIn of
       Some r \<Rightarrow> if rule_moves liveIn (pairs \<noteq> []) (hd chs)
         then drop_scopes cfg (map sc_chain (fr_scopes r)) (fr_rule r) @
           autoGroupDeletes r (fc_auto_groups cfg) else []
     | None \<Rightarrow> [])"

definition rule_tail ::
  "firewall_config \<Rightarrow> zone_pair list \<Rightarrow> rule_chain list \<Rightarrow> int \<Rightarrow> firewall_rule option \<Rightarrow> rule_update \<Rightarrow>
   vyos_command list \<Rightarrow> vyos_command list \<Rightarrow> endpoint_desired \<Rightarrow> endpoint_desired \<Rightarrow> vyos_command list \<Rightarrow>
   vyos_command list" where
  "rule_tail cfg pairs chs n live u base1 plans fd td base2 =
     scope_setup cfg pairs (hd chs) @ action_writes chs n (live_in live) u @ base1 @
     name_writes chs n (live_in live) u @ plans @ endpoint_writes chs n (live_in live) fd td @
     seed_builtin cfg (desired_policy u) @ policy_writes chs n (live_in live) u @
     switch_writes chs n (live_in live) u @ base2"

definition rule_baselines :: "firewall_config \<Rightarrow> vyos_command list \<Rightarrow> vyos_command list \<Rightarrow> bool" where
  "rule_baselines cfg base1 base2 \<longleftrightarrow> (base1 = [] \<or> (\<exists>out. base1 = ensureIpsFlowBaseline out cfg)) \<and>
     (base2 = [] \<or> base2 = ensureForwardBaseline cfg)"

lemma diffRule_parts:
  assumes "diffRule lc liveIn u cfg = Inr cs"
    and "zonePairsFor (ru_from u) (ru_to u) (fc_zones cfg) = Inr pairs"
    and "ruleChainsFor lc (ru_from u) (ru_to u) (fc_zones cfg) = Inr chs"
    and n: "n = rule_target cfg liveIn u pairs chs" and live: "live = kept_live liveIn pairs chs"
  obtains fc taken fd tc taken' td base1 base2 where
    "planEndpoint n Source (map_option fr_from live) (ru_from u) (fc_auto_groups cfg) (fc_group_names cfg)
      = Inr (fc, taken, fd)"
    "planEndpoint n Destination (map_option fr_to live) (ru_to u) (fc_auto_groups cfg) taken
      = Inr (tc, taken', td)"
    "rule_baselines cfg base1 base2"
    "cs = move_cmds cfg liveIn pairs chs @
      drop_scopes cfg (filter (\<lambda>c. c \<notin> set chs) (live_chains live)) n @
      rule_tail cfg pairs chs n live u base1 (fc @ tc) fd td base2"
proof -
  let ?p1 = "move_cmds cfg liveIn pairs chs @
    drop_scopes cfg (filter (\<lambda>c. c \<notin> set chs) (live_chains live)) n @ scope_setup cfg pairs (hd chs)"
  let ?base1 = "if want_ips u \<and> \<not> live_ips live
    then ensureIpsFlowBaseline (?p1 @ action_writes chs n (live_in live) u) cfg else []"
  let ?base2 = "if ru_log u \<and> hd chs = ''forward'' then ensureForwardBaseline cfg else []"
  have bl: "live_in l = (\<lambda>c. if c \<notin> set (live_chains l) then None else l)" for l
    by (auto simp: live_in_def)
  have "diffRule lc liveIn u cfg =
    (case planEndpoint n Source (map_option fr_from live) (ru_from u) (fc_auto_groups cfg)
        (fc_group_names cfg) of Inl e \<Rightarrow> Inl e | Inr (fc, taken, fd) \<Rightarrow>
     (case planEndpoint n Destination (map_option fr_to live) (ru_to u) (fc_auto_groups cfg) taken of
        Inl e \<Rightarrow> Inl e | Inr (tc, taken', td) \<Rightarrow>
      Inr (move_cmds cfg liveIn pairs chs @
        drop_scopes cfg (filter (\<lambda>c. c \<notin> set chs) (live_chains live)) n @
        rule_tail cfg pairs chs n live u ?base1 (fc @ tc) fd td ?base2)))"
    unfolding diffRule_def Let_def assms(2,3) sum.case bl live_chains_def rule_target_def kept_live_def
      n live move_cmds_def rule_tail_def
    by (simp only: append_assoc)
  then obtain fc taken fd tc taken' td where
    "planEndpoint n Source (map_option fr_from live) (ru_from u) (fc_auto_groups cfg) (fc_group_names cfg)
      = Inr (fc, taken, fd)"
    "planEndpoint n Destination (map_option fr_to live) (ru_to u) (fc_auto_groups cfg) taken
      = Inr (tc, taken', td)"
    "cs = move_cmds cfg liveIn pairs chs @
      drop_scopes cfg (filter (\<lambda>c. c \<notin> set chs) (live_chains live)) n @
      rule_tail cfg pairs chs n live u ?base1 (fc @ tc) fd td ?base2"
    using assms(1) by (auto simp only: split: sum.splits prod.splits)
  moreover have "rule_baselines cfg ?base1 ?base2" by (auto simp: rule_baselines_def)
  ultimately show ?thesis using that by blast
qed

section \<open>Properties of the rule diff\<close>

lemma steers_whole: "steers dev W W cs L D \<Longrightarrow> S \<inter> W = L \<Longrightarrow> run dev cs S \<inter> W = D"
  by (auto simp: steers_def)

lemma avoids_move_part:
  assumes pairs: "zonePairsFor (ru_from u) (ru_to u) (fc_zones cfg) = Inr pairs"
    and chs: "ruleChainsFor lc (ru_from u) (ru_to u) (fc_zones cfg) = Inr chs" "c \<in> set chs"
    and live: "\<And>r. liveIn = Some r \<Longrightarrow> wf_rule r"
  shows "avoids single (cone (ruleBase c m)) (move_cmds cfg liveIn pairs chs)"
proof (cases liveIn)
  case (Some r)
  show ?thesis
  proof (cases "rule_moves liveIn (pairs \<noteq> []) (hd chs)")
    case True
    have "wf_chain (sc_chain s) \<and> sc_chain s \<noteq> c" if "s \<in> set (fr_scopes r)" for s
      using that live [OF Some] moved_scopes [OF pairs chs(1) live [OF Some] _ chs(2)] True Some
      by (auto simp: wf_rule_def)
    then have "avoids single (cone (ruleBase c m)) (drop_scopes cfg (map sc_chain (fr_scopes r)) (fr_rule r))"
      using ruleChainsFor_wf(1) [OF pairs chs] by (intro avoids_drop_scopes) auto
    then show ?thesis using Some True
      by (simp add: move_cmds_def avoids_elsewhere [OF inside_auto_deletes])
  qed (simp add: Some move_cmds_def)
qed (simp add: move_cmds_def)

text \<open>
  C1: the refinement of a rule edit. When \<open>diffRule\<close> succeeds, take any scope \<open>c\<close> the rule
  ends up in and let \<open>n\<close> be its number there (a fresh one when it moves between base chains and
  zone pairs). If the node of the rule in that scope holds the live rule's leaves (no leaf when
  the scope is new), then after the commit it holds exactly the leaves of the update: action or
  IPS queue with its mark, description, both resolved sides, policy, protocol, disable and log.
  The sides are those that \<open>planEndpoint\<close> resolved.
\<close>

theorem diffRule_scope:
  assumes dev: "device_laws dev single"
    and diff: "diffRule lc liveIn u cfg = Inr cs"
    and pairs: "zonePairsFor (ru_from u) (ru_to u) (fc_zones cfg) = Inr pairs"
    and chs: "ruleChainsFor lc (ru_from u) (ru_to u) (fc_zones cfg) = Inr chs" "distinct chs" "c \<in> set chs"
    and n: "n = rule_target cfg liveIn u pairs chs" "ru_rule u \<notin> {1, 2}"
    and live: "\<And>r. liveIn = Some r \<Longrightarrow> wf_rule r"
    and sel: "wf_selection (ru_from u)" "wf_selection (ru_to u)"
    and sch: "rule_schema single (ruleBase c n)"
    and before: "S \<inter> rule_region (ruleBase c n) =
      rule_paths (ruleBase c n) (live_leaves (live_in (kept_live liveIn pairs chs) c))"
  shows "\<exists>fc taken fd tc taken' td.
      planEndpoint n Source (map_option fr_from (kept_live liveIn pairs chs)) (ru_from u)
        (fc_auto_groups cfg) (fc_group_names cfg) = Inr (fc, taken, fd) \<and>
      planEndpoint n Destination (map_option fr_to (kept_live liveIn pairs chs)) (ru_to u)
        (fc_auto_groups cfg) taken = Inr (tc, taken', td) \<and>
      run dev cs S \<inter> rule_region (ruleBase c n) = rule_paths (ruleBase c n) (desired_leaves u fd td)"
proof -
  let ?l = "kept_live liveIn pairs chs"
  obtain fc taken fd tc taken' td base1 base2 where
    pf: "planEndpoint n Source (map_option fr_from ?l) (ru_from u) (fc_auto_groups cfg)
      (fc_group_names cfg) = Inr (fc, taken, fd)"
    and pt: "planEndpoint n Destination (map_option fr_to ?l) (ru_to u) (fc_auto_groups cfg) taken
      = Inr (tc, taken', td)"
    and base: "rule_baselines cfg base1 base2"
    and cs: "cs = move_cmds cfg liveIn pairs chs @
      drop_scopes cfg (filter (\<lambda>c. c \<notin> set chs) (live_chains ?l)) n @
      rule_tail cfg pairs chs n ?l u base1 (fc @ tc) fd td base2"
    by (rule diffRule_parts [OF diff pairs chs(1) n(1) refl])
  have wfc: "\<forall>c\<in>set chs. wf_chain c" using ruleChainsFor_wf(1) [OF pairs chs(1)] by blast
  have num: "n \<notin> {1, 2}" using n nextRuleNumber_ge [of "fc_rules cfg"] by (auto simp: rule_target_def)
  have wfr: "?l = Some r \<Longrightarrow> wf_rule r" for r using live by (auto simp: kept_live_def split: if_splits)
  let ?b = "ruleBase c n"
  have wfl: "d \<in> set (live_chains ?l) \<Longrightarrow> wf_chain d" for d
    using wfr by (cases ?l) (auto simp: live_chains_def wf_rule_def)
  have "avoids single (cone ?b) (drop_scopes cfg (filter (\<lambda>c. c \<notin> set chs) (live_chains ?l)) n)"
    using wfc chs(3) wfl by (intro avoids_drop_scopes) auto
  then have av1: "avoids single (cone ?b) (move_cmds cfg liveIn pairs chs @
      drop_scopes cfg (filter (\<lambda>c. c \<notin> set chs) (live_chains ?l)) n @ scope_setup cfg pairs (hd chs))"
    using avoids_move_part [OF pairs chs(1,3) live] avoids_scope_setup [OF _ num] wfc chs(3)
    by simp
  have av2: "avoids single (cone ?b) base1" "avoids single (cone ?b) base2"
    using base [unfolded rule_baselines_def] avoids_ips_baseline [OF _ num] avoids_forward_baseline [OF _ num] wfc chs(3) by auto
  have av3: "avoids single (cone ?b) (fc @ tc)" "avoids single (cone ?b) (seed_builtin cfg p)" for p
    using avoids_elsewhere [OF inside_planEndpoint [OF pf]] avoids_elsewhere [OF inside_planEndpoint [OF pt]]
      avoids_elsewhere [OF inside_seed] by simp_all
  note wf_sides = wfr [unfolded wf_rule_def]
  have "steers dev (rule_region ?b) (rule_region ?b) cs
    (rule_paths ?b (live_leaves (live_in ?l c))) (rule_paths ?b (desired_leaves u fd td))"
    unfolding cs rule_tail_def
    by (subst append_assoc [symmetric], subst append_assoc [symmetric], subst append_assoc,
        rule steers_writes [OF dev chs(3,2) wfc refl refl sch])
      (use wf_sides planEndpoint_wf [OF pf sel(1)] planEndpoint_wf [OF pt sel(2)] av1 av2 av3
        in \<open>auto simp: live_in_def intro: avoids_mono [OF _ rule_region_cone] split: if_splits\<close>)
  then have "run dev cs S \<inter> rule_region ?b = rule_paths ?b (desired_leaves u fd td)"
    using before by (intro steers_whole) (simp_all)
  then show ?thesis using pf pt by blast
qed

definition web_rule_update :: rule_update where
  "web_rule_update = \<lparr>ru_rule = 10, ru_name = Some '' Web '', ru_action = Accept,
     ru_from = [EInterface ''eth1''], ru_to = [EAlias Host ''web''],
     ru_policy = Some (ChoosePolicy ''HTTPS'' Tcp), ru_enabled = True, ru_log = True, ru_ips = False\<rparr>"

definition rule_leaf_nodes :: "path \<Rightarrow> bool" where
  "rule_leaf_nodes p \<longleftrightarrow> leaf_nodes
     ([''action'', ''description'', ''protocol'', ''address'', ''port-group''] @ REF_NODES) p \<and> 6 < length p"

lemma rule_schema_leaf_nodes: "rule_schema rule_leaf_nodes (ruleBase c n)"
  by (auto simp: rule_schema_def rule_leaf_nodes_def leaf_nodes_def)

lemma web_rule_chains:
  "zonePairsFor (ru_from web_rule_update) (ru_to web_rule_update) (fc_zones emptyFirewallConfig) = Inr []"
  "ruleChainsFor lc (ru_from web_rule_update) (ru_to web_rule_update) (fc_zones emptyFirewallConfig)
    = Inr [''forward'']"
  by (simp_all add: zonePairsFor_def ruleChainsFor_def web_rule_update_def)

lemma web_rule_plan:
  "planEndpoint 10 Source None (ru_from web_rule_update) [] [] = Inr ([], [],
     \<lparr>ed_node = None, ed_name = None, ed_addr = None, ed_iface = Some ''eth1'', ed_ifGroup = None\<rparr>)"
  "planEndpoint 10 Destination None (ru_to web_rule_update) [] [] = Inr ([], [],
     \<lparr>ed_node = Some ''address-group'', ed_name = Some ''web'', ed_addr = None, ed_iface = None,
      ed_ifGroup = None\<rparr>)"
  by (simp_all add: planEndpoint_def plan_group_def plan_iface_def web_rule_update_def first_opt_def
      clean_def trim_def js_space_def uniq_def)

lemma diffRule_scope_witness:
  "\<exists>cs. diffRule (\<lambda>_ _. 0) None web_rule_update emptyFirewallConfig = Inr cs \<and>
     run (ref_dev rule_leaf_nodes) cs {} \<inter> rule_region (ruleBase ''forward'' 10) =
     rule_paths (ruleBase ''forward'' 10) (desired_leaves web_rule_update
       \<lparr>ed_node = None, ed_name = None, ed_addr = None, ed_iface = Some ''eth1'', ed_ifGroup = None\<rparr>
       \<lparr>ed_node = Some ''address-group'', ed_name = Some ''web'', ed_addr = None, ed_iface = None,
        ed_ifGroup = None\<rparr>)"
proof -
  have cfg: "fc_auto_groups emptyFirewallConfig = []" "fc_group_names emptyFirewallConfig = []"
    by (simp_all add: emptyFirewallConfig_def)
  have n: "10 = rule_target emptyFirewallConfig None web_rule_update [] [''forward'']"
    by (simp add: rule_target_def rule_moves_def web_rule_update_def)
  have kept: "kept_live None [] chs = None" for chs by (simp add: kept_live_def)
  obtain cs where diff: "diffRule (\<lambda>_ _. 0) None web_rule_update emptyFirewallConfig = Inr cs"
    using web_rule_plan n
    by (simp add: diffRule_def web_rule_chains rule_moves_def cfg Let_def rule_target_def)
  have none: "rule_paths b (live_leaves None) = {}" for b
    by (simp add: rule_paths_def live_leaves_def ips_paths_def side_paths_def ep_paths_def ref_paths_def
        iface_paths_def ep_leaves_def no_endpoint_def)
  have "wf_selection (ru_from web_rule_update)" "wf_selection (ru_to web_rule_update)"
    "ru_rule web_rule_update \<notin> {1, 2}"
    by (simp_all add: wf_selection_def web_rule_update_def)
  then show ?thesis
    using diffRule_scope [OF ref_dev_laws diff web_rule_chains _ _ n _ _ _ _ rule_schema_leaf_nodes, of "''forward''" "{}"]
      diff by (auto simp: kept live_in_def none cfg web_rule_plan)
qed

text \<open>The commands after the scopes were dropped stay away from any other rule node.\<close>

lemma run_only_deletes:
  assumes dev: "device_laws dev single" and "\<forall>c\<in>set cs. cmd_op c = OpDelete"
  shows "run dev cs S = S - (\<Union>c\<in>set cs. cone (cmd_path c))"
  using assms(2)
proof (induction cs arbitrary: S)
  case Nil
  then show ?case by simp
next
  case (Cons c cs)
  then obtain p where "c = cdel p" by (cases c) auto
  with Cons show ?case by (auto simp: dev_delete [OF dev])
qed

lemma drop_scopes_deletes: "\<forall>c\<in>set (drop_scopes cfg cs n). cmd_op c = OpDelete"
  by (auto simp: drop_scopes_def emptyPairCleanup_def split: option.splits if_splits)

lemma run_drop_scopes:
  assumes "device_laws dev single" and "c \<in> set cs"
  shows "run dev (drop_scopes cfg cs n) S \<inter> cone (ruleBase c n) = {}"
proof -
  have "cdel (ruleBase c n) \<in> set (drop_scopes cfg cs n)" using assms(2) by (auto simp: drop_scopes_def)
  then show ?thesis
    unfolding run_only_deletes [OF assms(1) drop_scopes_deletes] by force
qed

lemma avoids_tail:
  assumes wf: "wf_chain d" and m: "m \<notin> {1, 2}"
    and chs: "\<And>c. c \<in> set chs \<Longrightarrow> wf_chain c \<and> (c, n) \<noteq> (d, m)"
    and base: "rule_baselines cfg base1 base2"
    and plans: "planEndpoint n Source lf sf ag tk = Inr (fc, x)" "planEndpoint n Destination lt st ag tk' = Inr (tc, y)"
  shows "avoids single (cone (ruleBase d m)) (rule_tail cfg pairs chs n live u base1 (fc @ tc) fd td base2)"
  using avoids_scope_setup [OF wf m] avoids_writes [OF wf chs] avoids_ips_baseline [OF wf m]
    avoids_forward_baseline [OF wf m] avoids_elsewhere [OF inside_planEndpoint [OF plans(1)]]
    avoids_elsewhere [OF inside_planEndpoint [OF plans(2)]] avoids_elsewhere [OF inside_seed] base
  by (auto simp: rule_tail_def rule_baselines_def)

text \<open>
  C4: a rule leaves nothing behind. In every scope that the live rule has and the edited rule
  does not, the whole node of the rule is gone after the commit, whether the rule moved between
  base chains and zone pairs or only lost some of its pairs.
\<close>

theorem diffRule_drops_scopes:
  assumes dev: "device_laws dev single"
    and diff: "diffRule lc (Some r) u cfg = Inr cs"
    and pairs: "zonePairsFor (ru_from u) (ru_to u) (fc_zones cfg) = Inr pairs"
    and chs: "ruleChainsFor lc (ru_from u) (ru_to u) (fc_zones cfg) = Inr chs"
    and live: "wf_rule r" "fr_rule r = ru_rule u" "ru_rule u \<notin> {1, 2}"
    and s: "s \<in> set (fr_scopes r)" "sc_chain s \<notin> set chs"
  shows "run dev cs S \<inter> cone (ruleBase (sc_chain s) (fr_rule r)) = {}"
proof -
  let ?T = "cone (ruleBase (sc_chain s) (fr_rule r))"
  let ?n = "rule_target cfg (Some r) u pairs chs" and ?l = "kept_live (Some r) pairs chs"
  obtain fc taken fd tc taken' td base1 base2 where
    pf: "planEndpoint ?n Source (map_option fr_from ?l) (ru_from u) (fc_auto_groups cfg)
      (fc_group_names cfg) = Inr (fc, taken, fd)"
    and pt: "planEndpoint ?n Destination (map_option fr_to ?l) (ru_to u) (fc_auto_groups cfg) taken
      = Inr (tc, taken', td)"
    and base: "rule_baselines cfg base1 base2"
    and cs: "cs = move_cmds cfg (Some r) pairs chs @
      drop_scopes cfg (filter (\<lambda>c. c \<notin> set chs) (live_chains ?l)) ?n @
      rule_tail cfg pairs chs ?n ?l u base1 (fc @ tc) fd td base2"
    by (rule diffRule_parts [OF diff pairs chs refl refl])
  have wf: "wf_chain (sc_chain s)" using live(1) s(1) by (auto simp: wf_rule_def)
  have m: "fr_rule r \<notin> {1, 2}" using live(2,3) by simp
  define tail where "tail = rule_tail cfg pairs chs ?n ?l u base1 (fc @ tc) fd td base2"
  have tail: "avoids single ?T tail"
    unfolding tail_def using s(2) ruleChainsFor_wf(1) [OF pairs chs]
    by (intro avoids_tail [OF wf m _ base pf pt]) auto
  show ?thesis
  proof (cases "rule_moves (Some r) (pairs \<noteq> []) (hd chs)")
    case True
    then have "cs = drop_scopes cfg (map sc_chain (fr_scopes r)) (fr_rule r) @
        autoGroupDeletes r (fc_auto_groups cfg) @ tail"
      by (simp add: cs move_cmds_def tail_def kept_live_def live_chains_def drop_scopes_def)
    moreover have "avoids single ?T (autoGroupDeletes r (fc_auto_groups cfg) @ tail)"
      using avoids_elsewhere [OF inside_auto_deletes] tail by simp
    ultimately show ?thesis
      using avoids_run [OF dev] run_drop_scopes [OF dev, of "sc_chain s"] s(1) by simp
  next
    case False
    then have "cs = drop_scopes cfg (filter (\<lambda>c. c \<notin> set chs) (map sc_chain (fr_scopes r))) (fr_rule r) @ tail"
      by (simp add: cs move_cmds_def tail_def kept_live_def live_chains_def rule_target_def live(2))
    then show ?thesis
      using avoids_run [OF dev tail] run_drop_scopes [OF dev, of "sc_chain s"] s by simp
  qed
qed

text \<open>
  C3: editing a rule never touches another rule. For every rule of the configuration with a
  number other than the edited rule's old and new ones (and not one of the two system numbers),
  the node in each of its scopes is after the commit what it was before, even when the edit
  empties zone pairs and deletes their rulesets.
\<close>

theorem diffRule_keeps_others:
  assumes dev: "device_laws dev single"
    and diff: "diffRule lc liveIn u cfg = Inr cs"
    and pairs: "zonePairsFor (ru_from u) (ru_to u) (fc_zones cfg) = Inr pairs"
    and chs: "ruleChainsFor lc (ru_from u) (ru_to u) (fc_zones cfg) = Inr chs"
    and live: "\<And>r. liveIn = Some r \<Longrightarrow> wf_rule r \<and> fr_rule r = ru_rule u"
    and other: "r' \<in> set (fc_rules cfg)" "s \<in> set (fr_scopes r')" "wf_chain (sc_chain s)"
      "fr_rule r' \<noteq> ru_rule u" "fr_rule r' \<noteq> rule_target cfg liveIn u pairs chs" "fr_rule r' \<notin> {1, 2}"
  shows "run dev cs S \<inter> cone (ruleBase (sc_chain s) (fr_rule r')) =
    S \<inter> cone (ruleBase (sc_chain s) (fr_rule r'))"
proof -
  let ?T = "cone (ruleBase (sc_chain s) (fr_rule r'))"
  let ?n = "rule_target cfg liveIn u pairs chs" and ?l = "kept_live liveIn pairs chs"
  obtain fc taken fd tc taken' td base1 base2 where
    pf: "planEndpoint ?n Source (map_option fr_from ?l) (ru_from u) (fc_auto_groups cfg)
      (fc_group_names cfg) = Inr (fc, taken, fd)"
    and pt: "planEndpoint ?n Destination (map_option fr_to ?l) (ru_to u) (fc_auto_groups cfg) taken
      = Inr (tc, taken', td)"
    and base: "rule_baselines cfg base1 base2"
    and cs: "cs = move_cmds cfg liveIn pairs chs @
      drop_scopes cfg (filter (\<lambda>c. c \<notin> set chs) (live_chains ?l)) ?n @
      rule_tail cfg pairs chs ?n ?l u base1 (fc @ tc) fd td base2"
    by (rule diffRule_parts [OF diff pairs chs refl refl])
  have keep: "keeps_scope cfg (sc_chain s) [k]" if "fr_rule r' \<noteq> k" for k
    using other(1,2) that by (auto simp: keeps_scope_def)
  have wfl: "c \<in> set (live_chains ?l) \<Longrightarrow> wf_chain c" for c
    using live by (auto simp: kept_live_def live_chains_def wf_rule_def split: if_splits option.splits)
  have move: "avoids single ?T (drop_scopes cfg (map sc_chain (fr_scopes r)) (fr_rule r) @
      autoGroupDeletes r (fc_auto_groups cfg))" if "liveIn = Some r" for r
    using live [OF that] keep [of "fr_rule r"] other(4) avoids_elsewhere [OF inside_auto_deletes]
    by (auto simp: wf_rule_def intro!: avoids_drop_scopes [OF other(3)])
  have drop: "avoids single ?T (drop_scopes cfg (filter (\<lambda>c. c \<notin> set chs) (live_chains ?l)) ?n)"
    using wfl keep [of ?n] other(5) by (intro avoids_drop_scopes [OF other(3)]) auto
  have tail: "avoids single ?T (rule_tail cfg pairs chs ?n ?l u base1 (fc @ tc) fd td base2)"
    using other(5) ruleChainsFor_wf(1) [OF pairs chs]
    by (intro avoids_tail [OF other(3,6) _ base pf pt]) auto
  have "avoids single ?T cs"
    using move drop tail by (simp add: cs move_cmds_def split: option.splits)
  then show ?thesis by (rule avoids_run [OF dev])
qed

definition live_web_rule :: firewall_rule where
  "live_web_rule = web_rule \<lparr>fr_scopes := [\<lparr>sc_chain = ''forward'', sc_raw = empty_obj\<rparr>]\<rparr>"

definition two_rules :: firewall_config where
  "two_rules = emptyFirewallConfig \<lparr>fc_rules := [live_web_rule, live_web_rule \<lparr>fr_rule := 30\<rparr>]\<rparr>"

definition to_firewall_update :: rule_update where
  "to_firewall_update = web_rule_update \<lparr>ru_to := [EFirewall], ru_log := False\<rparr>"

lemma to_firewall_chains:
  "zonePairsFor (ru_from to_firewall_update) (ru_to to_firewall_update) (fc_zones two_rules) = Inr []"
  "ruleChainsFor lc (ru_from to_firewall_update) (ru_to to_firewall_update) (fc_zones two_rules)
    = Inr [''input'']"
  by (simp_all add: zonePairsFor_def ruleChainsFor_def to_firewall_update_def web_rule_update_def)

lemma live_web_rule_facts:
  "wf_rule live_web_rule" "fr_rule live_web_rule = ru_rule to_firewall_update"
  "ru_rule to_firewall_update = 10" "fr_scopes live_web_rule = [\<lparr>sc_chain = ''forward'', sc_raw = empty_obj\<rparr>]"
  "rule_moves (Some live_web_rule) False ''input''" "nextRuleNumber (fc_rules two_rules) = 40"
  by (simp_all add: live_web_rule_def web_rule_def to_firewall_update_def web_rule_update_def wf_rule_def
      wf_endpoint_def wf_ref_def no_endpoint_def isBaseChain_def rule_moves_def two_rules_def
      nextRuleNumber_def)

lemma to_firewall_diff:
  "\<exists>cs. diffRule (\<lambda>_ _. 0) (Some live_web_rule) to_firewall_update two_rules = Inr cs"
proof -
  have "fc_auto_groups two_rules = []" "fc_group_names two_rules = []"
    by (simp_all add: two_rules_def emptyFirewallConfig_def)
  moreover have "planEndpoint 40 Source None (ru_from to_firewall_update) [] [] = Inr ([], [],
     \<lparr>ed_node = None, ed_name = None, ed_addr = None, ed_iface = Some ''eth1'', ed_ifGroup = None\<rparr>)"
    "planEndpoint 40 Destination None (ru_to to_firewall_update) [] [] = Inr ([], [],
     \<lparr>ed_node = None, ed_name = None, ed_addr = None, ed_iface = None, ed_ifGroup = None\<rparr>)"
    by (simp_all add: planEndpoint_def plan_group_def plan_iface_def to_firewall_update_def
        web_rule_update_def first_opt_def clean_def trim_def js_space_def uniq_def)
  ultimately show ?thesis
    by (simp add: diffRule_def to_firewall_chains live_web_rule_facts Let_def)
qed

lemma diffRule_drops_scopes_witness:
  "\<exists>cs. diffRule (\<lambda>_ _. 0) (Some live_web_rule) to_firewall_update two_rules = Inr cs \<and>
     run (ref_dev rule_leaf_nodes) cs {ruleBase ''forward'' 10 @ [''action'', ''accept'']}
       \<inter> cone (ruleBase ''forward'' 10) = {}"
proof -
  obtain cs where diff: "diffRule (\<lambda>_ _. 0) (Some live_web_rule) to_firewall_update two_rules = Inr cs"
    using to_firewall_diff by blast
  show ?thesis
    using diffRule_drops_scopes [OF ref_dev_laws diff to_firewall_chains,
        of "\<lparr>sc_chain = ''forward'', sc_raw = empty_obj\<rparr>"] diff
    by (simp add: live_web_rule_facts)
qed

lemma diffRule_keeps_others_witness:
  "\<exists>cs. diffRule (\<lambda>_ _. 0) (Some live_web_rule) to_firewall_update two_rules = Inr cs \<and>
     run (ref_dev rule_leaf_nodes) cs {ruleBase ''forward'' 30 @ [''action'', ''accept'']}
       \<inter> cone (ruleBase ''forward'' 30) = {ruleBase ''forward'' 30 @ [''action'', ''accept'']}"
proof -
  obtain cs where diff: "diffRule (\<lambda>_ _. 0) (Some live_web_rule) to_firewall_update two_rules = Inr cs"
    using to_firewall_diff by blast
  show ?thesis
    using diffRule_keeps_others [OF ref_dev_laws diff to_firewall_chains,
        of "live_web_rule \<lparr>fr_rule := 30\<rparr>" "\<lparr>sc_chain = ''forward'', sc_raw = empty_obj\<rparr>" rule_leaf_nodes
          "{ruleBase ''forward'' 30 @ [''action'', ''accept'']}"] diff
    by (simp add: live_web_rule_facts rule_target_def) (simp add: two_rules_def)
qed

end
