(* ===== verification/Firewall_Order.thy ===== *)
theory Firewall_Order
  imports Firewall_Rule_Effects
begin

text \<open>
  Reordering rules in \<open>lib/firewall.ts\<close>: a subtree written back as \<open>set\<close> commands, the rules
  whose number changes with the display order, the maps other features follow, and the renumber
  commands, all deletes before all sets.
\<close>

text \<open>\<open>String(v)\<close> of an array item.\<close>

fun js_to_string :: "json \<Rightarrow> string" where
  "js_to_string JNull = ''null''"
| "js_to_string (JBool b) = (if b then ''true'' else ''false'')"
| "js_to_string (JNum n) = string_of_int n"
| "js_to_string (JStr s) = s"
| "js_to_string (JArr xs) =
     join_with '','' (map (\<lambda>x. case x of JNull \<Rightarrow> [] | _ \<Rightarrow> js_to_string x) xs)"
| "js_to_string (JObj _) = ''[object Object]''"

fun cfgToCommands :: "path \<Rightarrow> json \<Rightarrow> vyos_command list"
  and entryCommands :: "path \<Rightarrow> (string \<times> json) list \<Rightarrow> vyos_command list"
  and itemCommands :: "path \<Rightarrow> nat \<Rightarrow> json list \<Rightarrow> vyos_command list"
  and valueCommands :: "path \<Rightarrow> json \<Rightarrow> vyos_command list" where
  "cfgToCommands base (JObj kvs) = (if kvs = [] then [cset base] else entryCommands base kvs)"
| "cfgToCommands base (JArr xs) = (if xs = [] then [cset base] else itemCommands base 0 xs)"
| "cfgToCommands base _ = [cset base]"
| "itemCommands base i [] = []"
| "itemCommands base i (x # xs) = valueCommands (base @ [string_of_nat i]) x @ itemCommands base (Suc i) xs"
| "entryCommands base [] = []"
| "entryCommands base ((k, v) # es) = valueCommands (base @ [k]) v @ entryCommands base es"
| "valueCommands p (JStr s) = (if s = [] then [cset p] else [cset (p @ [s])])"
| "valueCommands p (JNum n) = [cset (p @ [string_of_int n])]"
| "valueCommands p (JBool b) = [cset (p @ [if b then ''true'' else ''false''])]"
| "valueCommands p (JArr xs) = map (\<lambda>x. cset (p @ [js_to_string x])) xs"
| "valueCommands p (JObj kvs) = (if kvs = [] then [cset p] else entryCommands p kvs)"
| "valueCommands p JNull = [cset p]"

definition renumberTargets :: "firewall_rule list \<Rightarrow> (firewall_rule \<times> int) list" where
  "renumberTargets orderedRules =
     filter (\<lambda>(r, target). fr_rule r \<noteq> target)
       (map (\<lambda>(i, r). (r, (int i + 1) * 10)) (List.enumerate 0 orderedRules))"

definition renumberedCount :: "firewall_rule list \<Rightarrow> nat" where
  "renumberedCount orderedRules = length (renumberTargets orderedRules)"

definition renumberByRule :: "firewall_rule list \<Rightarrow> (int \<times> int) list" where
  "renumberByRule orderedRules =
     js_map (map (\<lambda>(r, target). (fr_rule r, target)) (renumberTargets orderedRules))"

definition scope_key :: "rule_chain \<Rightarrow> int \<Rightarrow> string" where
  "scope_key chain rule = chain @ '':'' @ string_of_int rule"

definition renumberMap :: "firewall_rule list \<Rightarrow> (string \<times> int) list" where
  "renumberMap orderedRules =
     js_map (concat (map (\<lambda>(r, target).
         map (\<lambda>s. (scope_key (sc_chain s) (fr_rule r), target)) (fr_scopes r))
       (renumberTargets orderedRules)))"

text \<open>One config rule that moves: its scope, its old and new number and its subtree.\<close>

definition scope_moves :: "firewall_rule list \<Rightarrow> (rule_chain \<times> int \<times> int \<times> json) list" where
  "scope_moves orderedRules = concat (map (\<lambda>(r, target).
       map (\<lambda>s. (sc_chain s, fr_rule r, target, sc_raw s)) (fr_scopes r))
     (renumberTargets orderedRules))"

definition reorderCommands :: "firewall_rule list \<Rightarrow> vyos_command list" where
  "reorderCommands orderedRules =
     map (\<lambda>(c, old, new, raw). cdel (ruleBase c old)) (scope_moves orderedRules) @
     concat (map (\<lambda>(c, old, new, raw). cfgToCommands (ruleBase c new) raw) (scope_moves orderedRules))"

record attribution_move =
  am_chain :: string
  am_from :: int
  am_to :: int

definition attributionMoves :: "firewall_rule list \<Rightarrow> attribution_move list" where
  "attributionMoves orderedRules =
     map (\<lambda>(c, old, new, raw). \<lparr>am_chain = c, am_from = old, am_to = new\<rparr>) (scope_moves orderedRules)"

text \<open>
  \<open>applyRuleOrder\<close>: the commands of the commit (none means no commit), the moves handed to the
  attribution cache, and the count it returns.
\<close>

definition applyRuleOrder ::
  "firewall_rule list \<Rightarrow> vyos_command list \<Rightarrow> vyos_command list \<times> attribution_move list \<times> nat" where
  "applyRuleOrder orderedRules extraCommands =
     (let commands = reorderCommands orderedRules @ extraCommands in
      (commands, if commands \<noteq> [] then attributionMoves orderedRules else [],
       renumberedCount orderedRules))"

section \<open>What a reorder does to the device\<close>

text \<open>The paths, below the rule's node, that a raw subtree stands for.\<close>

definition raw_paths :: "json \<Rightarrow> path list" where
  "raw_paths raw = map cmd_path (cfgToCommands [] raw)"

lemma commands_shift:
  "cfgToCommands (b @ p) v = map (\<lambda>c. cset (b @ cmd_path c)) (cfgToCommands p v)"
  "entryCommands (b @ p) es = map (\<lambda>c. cset (b @ cmd_path c)) (entryCommands p es)"
  "itemCommands (b @ p) i xs = map (\<lambda>c. cset (b @ cmd_path c)) (itemCommands p i xs)"
  "valueCommands (b @ p) v = map (\<lambda>c. cset (b @ cmd_path c)) (valueCommands p v)"
  by (induction p v and p es and p i xs and p v
      rule: cfgToCommands_entryCommands_itemCommands_valueCommands.induct) auto

lemma cfgToCommands_paths: "cfgToCommands b raw = map cset (map (\<lambda>p. b @ p) (raw_paths raw))"
  using commands_shift(1) [of b "[]" raw] by (simp add: raw_paths_def)

text \<open>
  What a configuration value stands for, stated without the commands: a text is a value, an empty text or
  object a leaf without a value, an array a leaf with each of its items as a value, an object a node with its
  children.
\<close>

inductive value_path :: "json \<Rightarrow> path \<Rightarrow> bool" where
  text_value: "s \<noteq> [] \<Longrightarrow> value_path (JStr s) [s]"
| blank_value: "value_path (JStr []) []"
| null_value: "value_path JNull []"
| number_value: "value_path (JNum n) [string_of_int n]"
| true_value: "value_path (JBool True) [''true'']"
| false_value: "value_path (JBool False) [''false'']"
| item_value: "x \<in> set xs \<Longrightarrow> value_path (JArr xs) [js_to_string x]"
| empty_node: "value_path (JObj []) []"
| child_value: "(k, v) \<in> set kvs \<Longrightarrow> value_path v p \<Longrightarrow> value_path (JObj kvs) (k # p)"

inductive_simps value_path_simps:
  "value_path (JStr s) p" "value_path JNull p" "value_path (JNum n) p" "value_path (JBool b) p" "value_path (JArr xs) p"
  "value_path (JObj kvs) p"

definition config_paths :: "json \<Rightarrow> path set" where
  "config_paths raw = (case raw of
       JObj kvs \<Rightarrow> {p. value_path (JObj kvs) p}
     | JArr xs \<Rightarrow> if xs = [] then {[]} else {string_of_nat i # p | i p. i < length xs \<and> value_path (xs ! i) p}
     | _ \<Rightarrow> {[]})"

lemma ex_nth_Cons: "(\<exists>i<Suc n. Q i) \<longleftrightarrow> Q 0 \<or> (\<exists>i<n. Q (Suc i))"
  by (auto simp: less_Suc_eq_0_disj)

lemma command_paths:
  "q \<in> cmd_path ` set (cfgToCommands b v) \<longleftrightarrow> (\<exists>p\<in>config_paths v. q = b @ p)"
  "q \<in> cmd_path ` set (entryCommands b es) \<longleftrightarrow> (\<exists>k v p. (k, v) \<in> set es \<and> value_path v p \<and> q = b @ k # p)"
  "q \<in> cmd_path ` set (itemCommands b i xs) \<longleftrightarrow> (\<exists>j p. j < length xs \<and> value_path (xs ! j) p \<and> q = b @ string_of_nat (i + j) # p)"
  "q \<in> cmd_path ` set (valueCommands b v) \<longleftrightarrow> (\<exists>p. value_path v p \<and> q = b @ p)"
proof (induction b v and b es and b i xs and b v
    arbitrary: q and q and q and q rule: cfgToCommands_entryCommands_itemCommands_valueCommands.induct)
  case (1 base kvs)
  then show ?case by (cases "kvs = []") (auto simp: config_paths_def value_path_simps)
next
  case (2 base xs)
  then show ?case by (cases "xs = []") (auto simp: config_paths_def)
next
  case (5 base i x xs)
  have "q \<in> cmd_path ` set (itemCommands base i (x # xs)) \<longleftrightarrow>
      q \<in> cmd_path ` set (valueCommands (base @ [string_of_nat i]) x) \<or> q \<in> cmd_path ` set (itemCommands base (Suc i) xs)"
    by auto
  then show ?case unfolding 5 by (simp add: ex_nth_Cons)
next
  case (7 base k v es)
  have "q \<in> cmd_path ` set (entryCommands base ((k, v) # es)) \<longleftrightarrow>
      q \<in> cmd_path ` set (valueCommands (base @ [k]) v) \<or> q \<in> cmd_path ` set (entryCommands base es)"
    by auto
  then show ?case unfolding 7 by auto
next
  case (11 base v)
  then show ?case by (auto simp: value_path_simps image_image)
qed (auto simp: config_paths_def value_path_simps)

lemma raw_paths_spec: "set (raw_paths raw) = config_paths raw"
  using command_paths(1) [of _ "[]" raw] by (auto simp: raw_paths_def)

text \<open>A subtree fits a node when it gives no single-value leaf two values.\<close>

definition fits :: "(path \<Rightarrow> bool) \<Rightarrow> path \<Rightarrow> json \<Rightarrow> bool" where
  "fits single b raw \<longleftrightarrow> \<not> single (butlast b) \<and>
     (\<forall>p\<in>config_paths raw. p \<noteq> [] \<longrightarrow> single (b @ butlast p) \<longrightarrow>
        (\<forall>q\<in>config_paths raw. prefix (butlast p) q \<longrightarrow> q = p))"

lemmas fits_raw = fits_def [folded raw_paths_spec]

lemma edits_raw:
  assumes dev: "device_laws dev single" and "fits single b raw"
  shows "edits dev (cone b) (cfgToCommands b raw) {} ((\<lambda>p. b @ p) ` set (raw_paths raw))"
  unfolding cfgToCommands_paths
proof (rule edits_sets [OF dev])
  show "set (map (\<lambda>p. b @ p) (raw_paths raw)) = (\<lambda>p. b @ p) ` set (raw_paths raw)" by simp
  show "(\<lambda>p. b @ p) ` set (raw_paths raw) \<subseteq> cone b" by auto
  fix p
  assume "p \<in> (\<lambda>p. b @ p) ` set (raw_paths raw)" and single: "single (butlast p)"
  then obtain q where q: "q \<in> set (raw_paths raw)" "p = b @ q" by auto
  with assms(2) single have "q \<noteq> []" by (auto simp: fits_raw)
  then have bl: "butlast p = b @ butlast q" by (simp add: q(2) butlast_append)
  have "r = q" if "r \<in> set (raw_paths raw)" "prefix (butlast q) r" for r
    using assms(2) q(1) single [unfolded bl] that \<open>q \<noteq> []\<close> unfolding fits_raw by blast
  moreover have "prefix (butlast q) q" by (rule prefixeq_butlast)
  ultimately show "(\<lambda>p. b @ p) ` set (raw_paths raw) \<inter> cone (butlast p) = {p} \<and> cone (butlast p) \<subseteq> cone b"
    unfolding bl using q by (auto dest: append_prefixD)
qed

section \<open>The moves\<close>

lemma renumberTargets_iff:
  "(r, t) \<in> set (renumberTargets rules) \<longleftrightarrow>
     (\<exists>i<length rules. r = rules ! i \<and> t = (int i + 1) * 10 \<and> fr_rule r \<noteq> t)"
  by (auto simp: renumberTargets_def in_set_enumerate_eq image_iff Bex_def)

lemma scope_moves_iff:
  "(c, old, new, raw) \<in> set (scope_moves rules) \<longleftrightarrow>
     (\<exists>i<length rules. \<exists>s\<in>set (fr_scopes (rules ! i)). c = sc_chain s \<and> raw = sc_raw s \<and>
        old = fr_rule (rules ! i) \<and> new = (int i + 1) * 10 \<and> old \<noteq> new)"
  by (fastforce simp: scope_moves_def renumberTargets_iff)

text \<open>The config rules of the display rules: one per scope.\<close>

definition slots :: "firewall_rule \<Rightarrow> (rule_chain \<times> int) list" where
  "slots r = map (\<lambda>s. (sc_chain s, fr_rule r)) (fr_scopes r)"

lemma distinct_moved_slots:
  assumes "distinct (concat (map slots rules))"
  shows "distinct (map (\<lambda>(c, old, new, raw). (c, old)) (scope_moves rules))"
proof -
  have sub: "set (map fst (filter P (map g (List.enumerate n rs)))) \<subseteq> set rs"
    if "\<And>i r. fst (g (i, r)) = r" for P and g :: "nat \<times> firewall_rule \<Rightarrow> firewall_rule \<times> int" and n rs
    using that by (auto simp: in_set_enumerate_eq)
  have "distinct (concat (map slots (map fst (filter P (map g (List.enumerate n rs))))))"
    if "distinct (concat (map slots rs))" "\<And>i r. fst (g (i, r)) = r"
    for P and g :: "nat \<times> firewall_rule \<Rightarrow> firewall_rule \<times> int" and n rs
    using that(1)
  proof (induction rs arbitrary: n)
    case Nil
    then show ?case by simp
  next
    case (Cons r rs)
    have "set (slots r) \<inter> set (concat (map slots (map fst (filter P (map g (List.enumerate (Suc n) rs)))))) = {}"
      using Cons.prems sub [OF that(2), of P "Suc n" rs] by fastforce
    then show ?case using Cons by (auto simp: that(2))
  qed
  from this [OF assms, of "\<lambda>(i, r). (r, (int i + 1) * 10)"]
  have "distinct (concat (map slots (map fst (renumberTargets rules))))"
    by (simp add: renumberTargets_def)
  moreover have "map (\<lambda>(c, old, new, raw). (c, old)) (scope_moves rules) =
      concat (map slots (map fst (renumberTargets rules)))"
    by (simp add: scope_moves_def map_concat comp_def slots_def split_def)
  ultimately show ?thesis by simp
qed

lemma moves_same:
  assumes "distinct (concat (map slots rules))"
    and "(c, old, new, raw) \<in> set (scope_moves rules)" "(c, old', new, raw') \<in> set (scope_moves rules)"
  shows "old = old' \<and> raw = raw'"
proof -
  obtain i j where "i < length rules" "j < length rules" "old = fr_rule (rules ! i)"
    "old' = fr_rule (rules ! j)" "new = (int i + 1) * 10" "new = (int j + 1) * 10"
    using assms(2,3) by (auto simp: scope_moves_iff)
  then have "old = old'" by simp
  with distinct_moved_slots [OF assms(1)] assms(2,3) show ?thesis
    by (auto simp: distinct_map inj_on_def)
qed

lemma slots_index:
  assumes "distinct (concat (map slots rules))" "i < length rules" "j < length rules"
    and "x \<in> set (slots (rules ! i))" "x \<in> set (slots (rules ! j))"
  shows "i = j"
proof (rule ccontr)
  assume "i \<noteq> j"
  have "distinct (concat (map slots rules)) \<Longrightarrow> i < length rules \<Longrightarrow> j < length rules \<Longrightarrow> i \<noteq> j \<Longrightarrow>
      set (slots (rules ! i)) \<inter> set (slots (rules ! j)) = {}" for i j
  proof (induction rules arbitrary: i j)
    case Nil
    then show ?case by simp
  next
    case (Cons r rs)
    have "set (slots r) \<inter> set (slots (rs ! k)) = {}" if "k < length rs" for k
      using Cons.prems(1) that by (fastforce simp: disjoint_iff in_set_conv_nth)
    with Cons show ?case by (cases i; cases j) auto
  qed
  with assms \<open>i \<noteq> j\<close> show False by blast
qed

text \<open>
  What a reorder asks of the device and of the rules it is given: the scopes are chains, each
  slot (a chain and a number) belongs to one rule, every raw subtree is what the device has at the
  rule's node and fits wherever it may go, and every occupied slot whose number is one of the
  new numbers, in a chain some rule uses, belongs to a rule of the list.
\<close>

definition reorder_ready :: "(path \<Rightarrow> bool) \<Rightarrow> firewall_rule list \<Rightarrow> path set \<Rightarrow> bool" where
  "reorder_ready single rules S \<longleftrightarrow>
     distinct (concat (map slots rules)) \<and>
     (\<forall>r\<in>set rules. \<forall>s\<in>set (fr_scopes r). wf_chain (sc_chain s) \<and>
        subtree S (ruleBase (sc_chain s) (fr_rule r)) = config_paths (sc_raw s) \<and>
        (\<forall>n. fits single (ruleBase (sc_chain s) n) (sc_raw s))) \<and>
     (\<forall>r\<in>set rules. \<forall>s\<in>set (fr_scopes r). \<forall>i<length rules.
        subtree S (ruleBase (sc_chain s) ((int i + 1) * 10)) \<noteq> {} \<longrightarrow>
        (\<exists>r'\<in>set rules. (sc_chain s, (int i + 1) * 10) \<in> set (slots r')))"

lemmas reorder_ready_raw = reorder_ready_def [folded raw_paths_spec]

lemma reorder_effect:
  assumes dev: "device_laws dev single" and ready: "reorder_ready single rules S"
  shows "run dev (reorderCommands rules) S =
    (S - (\<Union>(c, old, new, raw)\<in>set (scope_moves rules). cone (ruleBase c old))
       - (\<Union>(c, old, new, raw)\<in>set (scope_moves rules). cone (ruleBase c new)))
    \<union> (\<Union>(c, old, new, raw)\<in>set (scope_moves rules). (\<lambda>p. ruleBase c new @ p) ` set (raw_paths raw))"
proof -
  let ?moves = "scope_moves rules"
  let ?C = "\<lambda>(c, old, new, raw). cone (ruleBase c new)"
  let ?S = "S - (\<Union>(c, old, new, raw)\<in>set ?moves. cone (ruleBase c old))"
  have dist: "distinct (concat (map slots rules))" using ready by (simp add: reorder_ready_raw)
  have wf: "wf_chain c" if "(c, old, new, raw) \<in> set ?moves" for c old new raw
    using ready that by (fastforce simp: reorder_ready_raw scope_moves_iff)
  have "edits dev (\<Union>x\<in>set ?moves. ?C x)
      (concat (map (\<lambda>(c, old, new, raw). cfgToCommands (ruleBase c new) raw) ?moves))
      (\<Union>x\<in>set ?moves. {}) (\<Union>x\<in>set ?moves. case x of (c, old, new, raw) \<Rightarrow>
        (\<lambda>p. ruleBase c new @ p) ` set (raw_paths raw))"
  proof (rule edits_concat)
    fix x assume x: "x \<in> set ?moves"
    obtain c old new raw where [simp]: "x = (c, old, new, raw)" by (cases x)
    have "fits single (ruleBase c new) raw"
      using ready x by (fastforce simp: reorder_ready_raw scope_moves_iff)
    then show "edits dev (?C x) (case x of (c, old, new, raw) \<Rightarrow> cfgToCommands (ruleBase c new) raw) {}
        (case x of (c, old, new, raw) \<Rightarrow> (\<lambda>p. ruleBase c new @ p) ` set (raw_paths raw))"
      using edits_raw [OF dev] by simp
    fix y assume y: "y \<in> set ?moves" "x \<noteq> y"
    obtain d old' new' raw' where [simp]: "y = (d, old', new', raw')" by (cases y)
    have "(c, new) \<noteq> (d, new')" using moves_same [OF dist] x y by auto
    then show "?C x \<inter> ?C y = {}"
      using x y(1) by (auto simp: cone_disjoint_iff ruleBase_parallel wf)
  next
    show "distinct ?moves" using distinct_moved_slots [OF dist] by (simp add: distinct_map)
  qed
  moreover have "?S \<inter> (\<Union>x\<in>set ?moves. ?C x) = (\<Union>x\<in>set ?moves. {})"
  proof -
    have "?S \<inter> cone (ruleBase c new) = {}" if m: "(c, old, new, raw) \<in> set ?moves" for c old new raw
    proof (cases "subtree S (ruleBase c new) = {}")
      case True
      then show ?thesis using subtree_image [of S "ruleBase c new"] by auto
    next
      case False
      obtain i s where i: "i < length rules" "s \<in> set (fr_scopes (rules ! i))" "c = sc_chain s"
        "old = fr_rule (rules ! i)" "new = (int i + 1) * 10" "old \<noteq> new"
        using m by (auto simp: scope_moves_iff)
      then obtain r' where "r' \<in> set rules" "(c, new) \<in> set (slots r')"
        using False ready by (force simp: reorder_ready_raw)
      then obtain j where j: "j < length rules" "(c, new) \<in> set (slots (rules ! j))"
        by (auto simp: in_set_conv_nth)
      then have "j \<noteq> i" using i by (auto simp: slots_def)
      then have "new \<noteq> (int j + 1) * 10" using i(5) by simp
      moreover obtain t where t: "t \<in> set (fr_scopes (rules ! j))" "sc_chain t = c" "fr_rule (rules ! j) = new"
        using j(2) by (auto simp: slots_def)
      ultimately have "(c, new, (int j + 1) * 10, sc_raw t) \<in> set ?moves"
        using j(1) unfolding scope_moves_iff by blast
      then show ?thesis by fastforce
    qed
    then show ?thesis by fastforce
  qed
  ultimately have "run dev (concat (map (\<lambda>(c, old, new, raw). cfgToCommands (ruleBase c new) raw) ?moves)) ?S =
      (?S - (\<Union>x\<in>set ?moves. ?C x)) \<union> (\<Union>x\<in>set ?moves. case x of (c, old, new, raw) \<Rightarrow>
        (\<lambda>p. ruleBase c new @ p) ` set (raw_paths raw))"
    by (rule edits_run)
  moreover have "run dev (map (\<lambda>(c, old, new, raw). cdel (ruleBase c old)) ?moves) S = ?S"
    using run_deletes [OF dev, of "\<lambda>(c, old, new, raw). ruleBase c old" ?moves S]
    by (simp add: split_def)
  ultimately show ?thesis by (simp add: reorderCommands_def split_def)
qed

text \<open>Membership after a reorder: carried over by a move, or there before and out of its way.\<close>

lemma reorder_mem:
  assumes dev: "device_laws dev single" and ready: "reorder_ready single rules S"
  shows "q \<in> run dev (reorderCommands rules) S \<longleftrightarrow>
    (\<exists>c old new raw p. (c, old, new, raw) \<in> set (scope_moves rules) \<and> p \<in> set (raw_paths raw) \<and>
       q = ruleBase c new @ p) \<or>
    (q \<in> S \<and> (\<forall>c old new raw. (c, old, new, raw) \<in> set (scope_moves rules) \<longrightarrow>
       \<not> prefix (ruleBase c old) q \<and> \<not> prefix (ruleBase c new) q))"
  unfolding reorder_effect [OF dev ready] by (fastforce simp: split_def)

lemma reorder_wf:
  "reorder_ready single rules S \<Longrightarrow> (c, old, new, raw) \<in> set (scope_moves rules) \<Longrightarrow> wf_chain c"
  by (fastforce simp: reorder_ready_raw scope_moves_iff)

lemma ready_rule:
  assumes "reorder_ready single rules S" "i < length rules" "s \<in> set (fr_scopes (rules ! i))"
  shows "wf_chain (sc_chain s) \<and>
    subtree S (ruleBase (sc_chain s) (fr_rule (rules ! i))) = set (raw_paths (sc_raw s))"
  using assms nth_mem [OF assms(2)] unfolding reorder_ready_raw by blast

text \<open>
  C2: the refinement of a reorder. After the commands of \<open>reorderCommands\<close>, the rule shown at
  position \<open>i\<close> has number \<open>10 * (i + 1)\<close> in every one of its scopes, with exactly the subtree it
  had there before, whatever numbers the rules swap among themselves: every leaf, also those
  that the editor does not model, is carried over. The hypothesis ties each rule's raw object to the
  device by what a configuration value stands for (\<open>config_paths\<close>: a leaf with several
  values is one path for each), not by the commands the code makes of it.
\<close>

theorem reorder_run:
  assumes dev: "device_laws dev single" and ready: "reorder_ready single rules S"
    and i: "i < length rules" "s \<in> set (fr_scopes (rules ! i))"
  shows "subtree (run dev (reorderCommands rules) S) (ruleBase (sc_chain s) ((int i + 1) * 10)) =
    subtree S (ruleBase (sc_chain s) (fr_rule (rules ! i)))"
proof -
  let ?new = "(int i + 1) * 10" and ?c = "sc_chain s" and ?T = "run dev (reorderCommands rules) S"
  have dist: "distinct (concat (map slots rules))" using ready by (simp add: reorder_ready_raw)
  have raw: "subtree S (ruleBase ?c (fr_rule (rules ! i))) = set (raw_paths (sc_raw s))" and wf: "wf_chain ?c"
    using ready_rule [OF ready i] by simp_all
  have other: "\<not> prefix (ruleBase d m) (ruleBase ?c k @ p)"
    if "wf_chain d" "(d, m) \<noteq> (?c, k)" for d m p k
  proof
    assume "prefix (ruleBase d m) (ruleBase ?c k @ p)"
    then have "ruleBase d m = ruleBase ?c k"
      using rule_nodes.cone_of_key [of "ruleBase ?c k @ p" "(d, m)" "(?c, k)"] by simp
    then show False using that wf by (auto simp: ruleBase_eq_iff)
  qed
  show ?thesis
  proof (cases "fr_rule (rules ! i) = ?new")
    case False
    then have m: "(?c, fr_rule (rules ! i), ?new, sc_raw s) \<in> set (scope_moves rules)"
      using i unfolding scope_moves_iff by blast
    have "ruleBase ?c ?new @ p \<in> ?T \<longleftrightarrow> p \<in> set (raw_paths (sc_raw s))" for p
    proof
      assume "p \<in> set (raw_paths (sc_raw s))"
      then show "ruleBase ?c ?new @ p \<in> ?T" unfolding reorder_mem [OF dev ready] using m by blast
    next
      assume "ruleBase ?c ?new @ p \<in> ?T"
      moreover have "prefix (ruleBase ?c ?new) (ruleBase ?c ?new @ p)" by simp
      ultimately obtain d old new raw' q where x: "(d, old, new, raw') \<in> set (scope_moves rules)"
        "ruleBase ?c ?new @ p = ruleBase d new @ q" "q \<in> set (raw_paths raw')"
        unfolding reorder_mem [OF dev ready] using m by blast
      have "prefix (ruleBase d new) (ruleBase ?c ?new @ p)" unfolding x(2) by simp
      then have eq: "(d, new) = (?c, ?new)"
        using other [OF reorder_wf [OF ready x(1)]] by blast
      then have "raw' = sc_raw s" using moves_same [OF dist m] x(1) by auto
      with x eq show "p \<in> set (raw_paths (sc_raw s))" by simp
    qed
    then have "subtree ?T (ruleBase ?c ?new) = set (raw_paths (sc_raw s))"
      unfolding subtree_def by blast
    then show ?thesis by (simp only: raw)
  next
    case True
    have stay: "(d, m) \<noteq> (?c, ?new)"
      if mem: "(d, old, new, raw') \<in> set (scope_moves rules)" and m: "m \<in> {old, new}" for d old new raw' m
    proof
      assume eq: "(d, m) = (?c, ?new)"
      obtain j t where j: "j < length rules" "t \<in> set (fr_scopes (rules ! j))" "d = sc_chain t"
        "old = fr_rule (rules ! j)" "new = (int j + 1) * 10" "old \<noteq> new"
        using mem unfolding scope_moves_iff by blast
      have "j = i"
      proof (cases "m = new")
        case True
        then show ?thesis using eq j(5) by simp
      next
        case False
        then have "(d, m) \<in> set (slots (rules ! j))" using m j by (auto simp: slots_def)
        moreover have "(?c, ?new) \<in> set (slots (rules ! i))" using i(2) True by (auto simp: slots_def)
        ultimately show ?thesis using slots_index [OF dist j(1) i(1)] eq by simp
      qed
      then show False using j True by simp
    qed
    have away: "\<not> prefix (ruleBase d old) (ruleBase ?c ?new @ p) \<and> \<not> prefix (ruleBase d new) (ruleBase ?c ?new @ p)"
      if "(d, old, new, raw') \<in> set (scope_moves rules)" for d old new raw' p
      using stay [OF that, of old] stay [OF that, of new] other [of d old ?new p] other [of d new ?new p]
        reorder_wf [OF ready that] by simp
    have "ruleBase ?c ?new @ p \<in> ?T \<longleftrightarrow> ruleBase ?c ?new @ p \<in> S" for p
      unfolding reorder_mem [OF dev ready] using away by (metis prefixI)
    then have "subtree ?T (ruleBase ?c ?new) = subtree S (ruleBase ?c ?new)"
      unfolding subtree_def by blast
    then show ?thesis by (simp only: True)
  qed
qed

text \<open>
  C5: a reorder touches the rules of the list and nothing else. A path that lies under no rule
  node that a moved rule leaves or takes is configured after the commands exactly when it was
  before, and the slots that moved rules leave and no rule takes are empty.
\<close>

theorem reorder_others:
  assumes dev: "device_laws dev single" and ready: "reorder_ready single rules S"
  shows "(\<forall>q. (\<forall>(c, old, new, raw)\<in>set (scope_moves rules).
        \<not> prefix (ruleBase c old) q \<and> \<not> prefix (ruleBase c new) q) \<longrightarrow>
      (q \<in> run dev (reorderCommands rules) S \<longleftrightarrow> q \<in> S)) \<and>
    (\<forall>(c, old, new, raw)\<in>set (scope_moves rules).
      (\<forall>(d, old', new', raw')\<in>set (scope_moves rules). (d, new') \<noteq> (c, old)) \<longrightarrow>
      subtree (run dev (reorderCommands rules) S) (ruleBase c old) = {})"
proof (intro conjI allI impI ballI)
  fix q
  assume "\<forall>(c, old, new, raw)\<in>set (scope_moves rules).
    \<not> prefix (ruleBase c old) q \<and> \<not> prefix (ruleBase c new) q"
  then have away: "(c, old, new, raw) \<in> set (scope_moves rules) \<Longrightarrow>
      \<not> prefix (ruleBase c old) q \<and> \<not> prefix (ruleBase c new) q" for c old new raw
    by auto
  then show "q \<in> run dev (reorderCommands rules) S \<longleftrightarrow> q \<in> S"
    unfolding reorder_mem [OF dev ready] by (metis prefixI)
next
  fix x assume x: "x \<in> set (scope_moves rules)"
  obtain c old new raw where [simp]: "x = (c, old, new, raw)" by (cases x)
  have "ruleBase c old @ p \<notin> run dev (reorderCommands rules) S"
    if free: "\<forall>(d, old', new', raw')\<in>set (scope_moves rules). (d, new') \<noteq> (c, old)" for p
  proof
    assume "ruleBase c old @ p \<in> run dev (reorderCommands rules) S"
    moreover have "prefix (ruleBase c old) (ruleBase c old @ p)" by simp
    ultimately obtain d old' new' raw' q where y: "(d, old', new', raw') \<in> set (scope_moves rules)"
      "ruleBase c old @ p = ruleBase d new' @ q"
      unfolding reorder_mem [OF dev ready] using x by (metis \<open>x = (c, old, new, raw)\<close>)
    have "prefix (ruleBase d new') (ruleBase c old @ p)" unfolding y(2) by simp
    then have "ruleBase d new' = ruleBase c old"
      using rule_nodes.cone_of_key [of "ruleBase c old @ p" "(d, new')" "(c, old)"] by simp
    moreover have "wf_chain d" "wf_chain c" using reorder_wf [OF ready] y(1) x by simp_all
    ultimately have "(d, new') = (c, old)" by (simp add: ruleBase_eq_iff)
    then show False using bspec [OF free y(1)] by simp
  qed
  then show "case x of (c, old, new, raw) \<Rightarrow>
      (\<forall>(d, old', new', raw')\<in>set (scope_moves rules). (d, new') \<noteq> (c, old)) \<longrightarrow>
      subtree (run dev (reorderCommands rules) S) (ruleBase c old) = {}"
    by (simp add: subtree_def)
qed

definition numbered_raw :: "rule_action \<Rightarrow> json" where
  "numbered_raw a = JObj [(''action'', JStr (action_str a)),
     (''state'', JArr [JStr ''established'', JStr ''related''])]"

definition numbered_rule :: "int \<Rightarrow> rule_action \<Rightarrow> firewall_rule" where
  "numbered_rule n a = web_rule \<lparr>fr_rule := n, fr_action := Some a, fr_policy := None,
     fr_scopes := [\<lparr>sc_chain = ''forward'', sc_raw = numbered_raw a\<rparr>]\<rparr>"

definition swapped_rules :: "firewall_rule list" where
  "swapped_rules = [numbered_rule 20 Drop, numbered_rule 10 Accept]"

definition swapped_state :: "path set" where
  "swapped_state =
     (\<lambda>(n, p). ruleBase ''forward'' n @ p) `
       ({10} \<times> {[''action'', ''accept''], [''state'', ''established''], [''state'', ''related'']} \<union>
        {20} \<times> {[''action'', ''drop''], [''state'', ''established''], [''state'', ''related'']})"

lemma swapped_subtree:
  "subtree swapped_state (ruleBase ''forward'' n) =
     (if n = 10 then {[''action'', ''accept''], [''state'', ''established''], [''state'', ''related'']}
      else if n = 20 then {[''action'', ''drop''], [''state'', ''established''], [''state'', ''related'']} else {})"
  by (auto simp: subtree_def swapped_state_def ruleBase_def)

lemma swapped_ready: "reorder_ready (leaf_nodes [''action'']) swapped_rules swapped_state"
proof -
  have "{i :: nat. i < 2} = {0, 1}" by auto
  then have two: "(\<forall>i<2. P i) \<longleftrightarrow> P 0 \<and> P (1 :: nat)" for P by (auto simp: set_eq_iff)
  have "fits (leaf_nodes [''action'']) (ruleBase ''forward'' n) (numbered_raw a)"
    for n a by (cases a) (simp_all add: numbered_raw_def fits_raw raw_paths_def leaf_nodes_def ruleBase_def butlast_append)
  from this [of _ Drop] this [of _ Accept] show ?thesis
    by (simp add: reorder_ready_raw swapped_rules_def numbered_rule_def numbered_raw_def slots_def swapped_subtree
        raw_paths_def numeral_2_eq_2 [symmetric] two)
qed

lemma reorder_run_witness:
  "subtree (run (ref_dev (leaf_nodes [''action''])) (reorderCommands swapped_rules) swapped_state)
     (ruleBase ''forward'' 10) = {[''action'', ''drop''], [''state'', ''established''], [''state'', ''related'']}"
  using reorder_run [OF ref_dev_laws swapped_ready, of 0
      "\<lparr>sc_chain = ''forward'', sc_raw = numbered_raw Drop\<rparr>"]
  by (simp add: swapped_rules_def numbered_rule_def swapped_subtree)

lemma reorder_others_witness:
  "[''system''] \<in> run (ref_dev (leaf_nodes [''action''])) (reorderCommands swapped_rules) swapped_state
   \<longleftrightarrow> [''system''] \<in> swapped_state"
  using reorder_others [OF ref_dev_laws swapped_ready] ruleBase_not_short [of "[''system'']"]
  by (simp add: split_def)

section \<open>The maps other features follow\<close>

lemma colon_not_in_int: "CHR '':'' \<notin> set (string_of_int n)"
proof -
  have "CHR '':'' \<notin> set (string_of_nat k)" for k
    using string_of_nat_digits [of k] by (auto simp: list_all_iff is_digit_def)
  then show ?thesis by (auto simp: string_of_int_def)
qed

lemma last_colon_unique:
  assumes "a @ CHR '':'' # x = b @ CHR '':'' # y" and "CHR '':'' \<notin> set x" "CHR '':'' \<notin> set y"
  shows "a = b \<and> x = y"
  using assms by (auto simp: append_eq_append_conv2 Cons_eq_append_conv append_eq_Cons_conv)

lemma scope_key_inj: "scope_key c n = scope_key d m \<longleftrightarrow> c = d \<and> n = m"
proof
  assume "scope_key c n = scope_key d m"
  then have "c @ CHR '':'' # string_of_int n = d @ CHR '':'' # string_of_int m"
    by (simp add: scope_key_def)
  then show "c = d \<and> n = m"
    using last_colon_unique [OF _ colon_not_in_int colon_not_in_int] by force
qed simp

text \<open>
  Looking up a scope and a number in \<open>renumberMap\<close> gives the new number of the config rule there,
  and nothing when it does not move.
\<close>

lemma renumberMap_target:
  assumes dist: "distinct (concat (map slots rules))"
  shows "map_of (renumberMap rules) (scope_key c n) = Some m \<longleftrightarrow> (\<exists>raw. (c, n, m, raw) \<in> set (scope_moves rules))"
proof -
  let ?entry = "\<lambda>(c, old, new, raw :: json). (scope_key c old, new :: int)"
  have es: "concat (map (\<lambda>(r, target). map (\<lambda>s. (scope_key (sc_chain s) (fr_rule r), target)) (fr_scopes r))
      (renumberTargets rules)) = map ?entry (scope_moves rules)"
    by (simp add: scope_moves_def map_concat comp_def split_def)
  have "map fst (map ?entry (scope_moves rules)) =
      map (\<lambda>(c, old). scope_key c old) (map (\<lambda>(c, old, new, raw). (c, old)) (scope_moves rules))"
    by (simp add: split_def comp_def)
  moreover have "inj (\<lambda>(c, old). scope_key c old)" by (auto simp: inj_def scope_key_inj)
  ultimately have "distinct (map fst (map ?entry (scope_moves rules)))"
    using distinct_moved_slots [OF dist] by (simp only: distinct_map) (blast intro: inj_on_subset)
  then have "map_of (renumberMap rules) (scope_key c n) = Some m \<longleftrightarrow>
      (scope_key c n, m) \<in> ?entry ` set (scope_moves rules)"
    unfolding renumberMap_def map_of_js_map es
    by (subst map_of_eq_Some_iff) (simp_all add: rev_map distinct_map)
  also have "\<dots> \<longleftrightarrow> (\<exists>raw. (c, n, m, raw) \<in> set (scope_moves rules))"
    by (force simp: scope_key_inj)
  finally show ?thesis .
qed

lemma renumberByRule_target:
  assumes dist: "distinct (map fr_rule rules)"
  shows "map_of (renumberByRule rules) n = Some m \<longleftrightarrow>
    (\<exists>i<length rules. n = fr_rule (rules ! i) \<and> m = (int i + 1) * 10 \<and> n \<noteq> m)"
proof -
  let ?es = "map (\<lambda>(r, target). (fr_rule r, target)) (renumberTargets rules)"
  have "map fst (map (\<lambda>(i, r). (r, (int i + 1) * 10)) (List.enumerate k rules)) = rules" for k
    by (simp add: comp_def split_def)
  then have "distinct (map (fr_rule \<circ> fst) (map (\<lambda>(i, r). (r, (int i + 1) * 10)) (List.enumerate 0 rules)))"
    using dist by (metis map_map)
  then have "distinct (map (fr_rule \<circ> fst) (renumberTargets rules))"
    unfolding renumberTargets_def by (rule distinct_map_filter)
  then have "distinct (map fst ?es)" by (simp add: comp_def split_def)
  then have "map_of (renumberByRule rules) n = Some m \<longleftrightarrow> (n, m) \<in> set ?es"
    unfolding renumberByRule_def map_of_js_map by (subst map_of_eq_Some_iff) (simp_all add: rev_map distinct_map)
  also have "\<dots> \<longleftrightarrow> (\<exists>r. (r, m) \<in> set (renumberTargets rules) \<and> n = fr_rule r)" by force
  also have "\<dots> \<longleftrightarrow> (\<exists>i<length rules. n = fr_rule (rules ! i) \<and> m = (int i + 1) * 10 \<and> n \<noteq> m)"
    by (auto simp: renumberTargets_iff)
  finally show ?thesis .
qed

end
