(* ===== verification/Firewall_Logging.thy ===== *)
theory Firewall_Logging
  imports Firewall_Rules
begin

text \<open>
  The default action of the forward chain, the traffic-logging status and switch, and the rule
  counters of \<open>lib/firewall.ts\<close>.
\<close>

datatype default_error = ZonesConfigured

definition defaultDropBlockedReason :: "firewall_config \<Rightarrow> default_error option" where
  "defaultDropBlockedReason cfg = (if fc_zones cfg = [] then None else Some ZonesConfigured)"

datatype default_choice = DefaultAccept | DefaultDrop

fun default_str :: "default_choice \<Rightarrow> string" where
  "default_str DefaultAccept = ''accept''"
| "default_str DefaultDrop = ''drop''"

definition setDefaultAction_cmds ::
  "firewall_config \<Rightarrow> default_choice \<Rightarrow> default_error + vyos_command list" where
  "setDefaultAction_cmds cfg a =
     (let final = cset (filterBase ''forward'' @ [''default-action'', default_str a]) in
      if a = DefaultDrop then
        (case defaultDropBlockedReason cfg of
           Some e \<Rightarrow> Inl e
         | None \<Rightarrow> Inr (ensureForwardBaseline cfg @ [final]))
      else Inr [final])"

definition ALL_CHAINS :: "base_chain list" where
  "ALL_CHAINS = [Forward, Input, Output]"

record logging_status =
  ls_total_rules :: nat
  ls_logged_rules :: nat
  ls_chains_without_default_log :: "base_chain list"
  ls_forward_baseline :: bool
  ls_complete :: bool

definition loggingStatus :: "firewall_config \<Rightarrow> logging_status" where
  "loggingStatus cfg =
     (let logged = length (filter fr_log (fc_rules cfg));
          noDefaultLog = filter (\<lambda>c. \<not> cs_default_log (fc_setup cfg c)) ALL_CHAINS
      in \<lparr>ls_total_rules = length (fc_rules cfg), ls_logged_rules = logged,
          ls_chains_without_default_log = noDefaultLog,
          ls_forward_baseline = cs_baseline (fc_setup cfg Forward),
          ls_complete = (logged = length (fc_rules cfg) \<and> noDefaultLog = [] \<and>
            cs_baseline (fc_setup cfg Forward))\<rparr>)"

definition enableTrafficLoggingCommands :: "firewall_config \<Rightarrow> vyos_command list" where
  "enableTrafficLoggingCommands cfg =
     ensureForwardBaseline cfg @ ensureChainSetup Input cfg @ ensureChainSetup Output cfg @
     map (\<lambda>c. cset (filterBase (base_chain_str c) @ [''default-log'']))
       (filter (\<lambda>c. \<not> cs_default_log (fc_setup cfg c)) ALL_CHAINS) @
     map (\<lambda>r. cset (ruleBase (fr_chain r) (fr_rule r) @ [''log'']))
       (filter (\<lambda>r. \<not> fr_log r) (fc_rules cfg))"

section \<open>Counters\<close>

record rule_counter =
  rc_packets :: int
  rc_bytes :: int

datatype counter_id = CounterDefault | CounterRule int

definition counterKey :: "rule_chain \<Rightarrow> counter_id \<Rightarrow> string" where
  "counterKey chain i = chain @ '':'' @
     (case i of CounterDefault \<Rightarrow> ''default'' | CounterRule n \<Rightarrow> string_of_int n)"

definition digit_or_comma :: "char \<Rightarrow> bool" where
  "digit_or_comma c \<longleftrightarrow> is_digit c \<or> c = CHR '',''"

text \<open>
  A data row: the regular expression asks for five tokens, of which the fourth is digits and
  commas and the fifth begins with some.
\<close>

definition match_counter_line :: "string \<Rightarrow> (string \<times> string \<times> string) option" where
  "match_counter_line line = (case words_of line of
       t0 # t1 # t2 # t3 # t4 # _ \<Rightarrow>
         if (t0 = ''default'' \<or> (t0 \<noteq> [] \<and> list_all is_digit t0)) \<and>
            t3 \<noteq> [] \<and> list_all digit_or_comma t3 \<and> t4 \<noteq> [] \<and> digit_or_comma (hd t4)
         then Some (t0, t3, takeWhile digit_or_comma t4) else None
     | _ \<Rightarrow> None)"

definition counter_number :: "string \<Rightarrow> int option" where
  "counter_number s = js_number (filter (\<lambda>c. c \<noteq> CHR '','') s)"

definition parse_counter_line :: "rule_chain \<Rightarrow> string \<Rightarrow> (string \<times> rule_counter) option" where
  "parse_counter_line chain line = (case match_counter_line (trim line) of
       None \<Rightarrow> None
     | Some (k, p, b) \<Rightarrow> (case (counter_number p, counter_number b) of
           (Some packets, Some bytes) \<Rightarrow>
             Some (counterKey chain (if k = ''default'' then CounterDefault else CounterRule (number_or_zero k)),
               \<lparr>rc_packets = packets, rc_bytes = bytes\<rparr>)
         | _ \<Rightarrow> None))"

definition parseCounters ::
  "rule_chain \<Rightarrow> string \<Rightarrow> (string \<times> rule_counter) list \<Rightarrow> (string \<times> rule_counter) list" where
  "parseCounters chain text out =
     foldl (\<lambda>m (k, v). AList.update k v m) out
       (List.map_filter (parse_counter_line chain) (split_on (CHR 0x0A) text))"

definition counter_scopes :: "zone_pair list \<Rightarrow> (rule_chain \<times> path) list" where
  "counter_scopes zonePairs =
     map (\<lambda>c. (base_chain_str c, [''firewall'', ''ipv4'', base_chain_str c, ''filter''])) ALL_CHAINS @
     map (\<lambda>r. (zoneRuleChain r, [''firewall'', ''ipv4'', ''name'', r])) (uniq (map zp_ruleset zonePairs))"

text \<open>
  \<open>fetchRuleCounters\<close>: \<open>show\<close> gives the text of each scope's table, \<open>None\<close> when the read fails.
\<close>

definition fetchRuleCounters :: "(path \<Rightarrow> string option) \<Rightarrow> zone_pair list \<Rightarrow> (string \<times> rule_counter) list" where
  "fetchRuleCounters show_text zonePairs =
     foldl (\<lambda>out (chain, p). case show_text p of
         None \<Rightarrow> out
       | Some t \<Rightarrow> if t = [] then out else parseCounters chain t out) [] (counter_scopes zonePairs)"

section \<open>Traffic logging: properties\<close>

lemma run_sets_keep:
  assumes dev: "device_laws dev single" and "\<forall>c\<in>set cs. cmd_op c = OpSet"
    and "\<And>q. prefix q p \<Longrightarrow> \<not> single q" and "p \<in> S \<or> cset p \<in> set cs"
  shows "p \<in> run dev cs S"
  using assms(2,4)
proof (induction cs arbitrary: S)
  case Nil
  then show ?case by simp
next
  case (Cons c cs)
  obtain q where c: "c = cset q" using Cons.prems(1) by (cases c) auto
  have "p \<in> dev c S" if "p \<in> S \<or> p = q"
  proof (cases "single (butlast q)")
    case True
    then have "\<not> prefix (butlast q) p" using assms(3) by blast
    then show ?thesis using that True by (auto simp: c dev_set_single [OF dev])
  next
    case False
    then show ?thesis using that by (auto simp: c dev_set_multi [OF dev])
  qed
  then show ?case using Cons c by auto
qed

lemma established_sets: "\<forall>c\<in>set (established_cmds r). cmd_op c = OpSet"
  by (simp add: established_cmds_def)

lemma logging_sets: "\<forall>c\<in>set (enableTrafficLoggingCommands cfg). cmd_op c = OpSet"
  using established_sets
  by (auto simp: enableTrafficLoggingCommands_def ensureForwardBaseline_def ensureChainSetup_def
      ipsFlowRuleCommands_def Let_def)

text \<open>
  After \<open>enableTrafficLoggingCommands\<close> every rule logs in its representative scope and
  every base chain logs its default action, given that the flags the configuration reports as
  set are set on the device.
\<close>

theorem enableLogging_logs:
  assumes dev: "device_laws dev single"
    and flags: "\<And>q r. r \<in> set (fc_rules cfg) \<Longrightarrow>
        prefix q (ruleBase (fr_chain r) (fr_rule r) @ [''log'']) \<Longrightarrow> \<not> single q"
      "\<And>q c. prefix q (filterBase (base_chain_str c) @ [''default-log'']) \<Longrightarrow> \<not> single q"
    and live: "\<And>r. r \<in> set (fc_rules cfg) \<Longrightarrow> fr_log r \<Longrightarrow>
        ruleBase (fr_chain r) (fr_rule r) @ [''log''] \<in> S"
      "\<And>c. cs_default_log (fc_setup cfg c) \<Longrightarrow> filterBase (base_chain_str c) @ [''default-log''] \<in> S"
  shows "(\<forall>r\<in>set (fc_rules cfg). ruleBase (fr_chain r) (fr_rule r) @ [''log'']
        \<in> run dev (enableTrafficLoggingCommands cfg) S) \<and>
    (\<forall>c. filterBase (base_chain_str c) @ [''default-log''] \<in> run dev (enableTrafficLoggingCommands cfg) S)"
proof (intro conjI ballI allI)
  fix r assume r: "r \<in> set (fc_rules cfg)"
  show "ruleBase (fr_chain r) (fr_rule r) @ [''log''] \<in> run dev (enableTrafficLoggingCommands cfg) S"
    by (rule run_sets_keep [OF dev logging_sets flags(1) [OF r]])
      (use r live(1) [OF r] in \<open>auto simp: enableTrafficLoggingCommands_def\<close>)
next
  fix c
  have "c \<in> set ALL_CHAINS" by (cases c) (simp_all add: ALL_CHAINS_def)
  then show "filterBase (base_chain_str c) @ [''default-log''] \<in> run dev (enableTrafficLoggingCommands cfg) S"
    by (intro run_sets_keep [OF dev logging_sets flags(2)])
      (use live(2) [of c] in \<open>auto simp: enableTrafficLoggingCommands_def\<close>)
qed

lemma enableLogging_logs_witness:
  "ruleBase ''forward'' 10 @ [''log''] \<in> run (ref_dev (leaf_nodes [''action'', ''description'', ''default-action'']))
     (enableTrafficLoggingCommands (emptyFirewallConfig \<lparr>fc_rules := [web_rule]\<rparr>)) {}"
proof -
  let ?single = "leaf_nodes [''action'', ''description'', ''default-action'']"
  have no: "\<not> ?single q" if "prefix q p" "\<forall>w\<in>set p. w \<notin> {''action'', ''description'', ''default-action''}" for p q
  proof
    assume q: "?single q"
    then have "last q \<in> set p"
      using set_mono_prefix [OF that(1)] last_in_set [of q] unfolding leaf_nodes_def by blast
    with q that(2) show False by (auto simp: leaf_nodes_def)
  qed
  have digits: "set (string_of_int 10) \<subseteq> {CHR ''0'', CHR ''1''}"
    by (simp add: string_of_int_def string_of_nat.simps digit_char_def char_of_def bit_0)
  have "string_of_int 10 = ''10''"
    by (simp add: string_of_int_def string_of_nat.simps digit_char_def char_of_def bit_0 bit_Suc)
  then have a: "\<not> ?single q" if "prefix q (ruleBase ''forward'' 10 @ [''log''])" for q
    by (intro no [OF that]) (simp add: ruleBase_def filterBase_def rulesetName_def)
  have b: "\<not> ?single q" if "prefix q (filterBase (base_chain_str c) @ [''default-log''])" for q c
    by (intro no [OF that]) (cases c; simp add: filterBase_def rulesetName_def)
  show ?thesis
    using enableLogging_logs [OF ref_dev_laws, of "emptyFirewallConfig \<lparr>fc_rules := [web_rule]\<rparr>" ?single "{}"] a b
    by (simp add: web_rule_def emptyFirewallConfig_def empty_setup_def)
qed

lemma established_paths: "cmd \<in> set (established_cmds r) \<Longrightarrow> prefix r (cmd_path cmd)"
  by (auto simp: established_cmds_def)

lemma baseline_paths:
  "cmd \<in> set (ensureForwardBaseline cfg) \<Longrightarrow> prefix (filterBase (base_chain_str Forward)) (cmd_path cmd)"
  "cmd \<in> set (ensureChainSetup c cfg) \<Longrightarrow> prefix (filterBase (base_chain_str c)) (cmd_path cmd)"
  by (auto simp: ensureForwardBaseline_def ensureChainSetup_def ipsFlowRuleCommands_def Let_def
      dest!: established_paths dest: append_prefixD split: if_splits)

text \<open>
  A rule with several zone pairs is switched to logging in its representative scope only: no
  command of \<open>enableTrafficLoggingCommands\<close> touches the rule's node in any other scope, while
  \<open>loggingStatus\<close> then reports the rule as logging.
\<close>

theorem enableLogging_other_scopes:
  assumes "rulesetName c \<noteq> None" and "\<forall>r\<in>set (fc_rules cfg). wf_chain (fr_chain r)"
    and "\<forall>r\<in>set (fc_rules cfg). fr_rule r = n \<longrightarrow> fr_chain r \<noteq> c"
    and "cmd \<in> set (enableTrafficLoggingCommands cfg)"
  shows "\<not> prefix (ruleBase c n) (cmd_path cmd)"
proof
  assume pre: "prefix (ruleBase c n) (cmd_path cmd)"
  have wf: "wf_chain c" using assms(1) by (auto simp: wf_chain_def rulesetName_def split: if_splits)
  have "take 3 (ruleBase c n) = [''firewall'', ''ipv4'', ''name'']"
    using assms(1) by (auto simp: ruleBase_def filterBase_def)
  then have three: "take 3 (cmd_path cmd) = [''firewall'', ''ipv4'', ''name'']"
    using pre by (auto simp: prefix_def)
  have base: "\<not> prefix (filterBase (base_chain_str b)) (cmd_path cmd)" for b
    using three by (cases b) (auto simp: filterBase_def rulesetName_def prefix_def)
  consider "cmd \<in> set (ensureForwardBaseline cfg)" | b where "cmd \<in> set (ensureChainSetup b cfg)"
    | b where "cmd = cset (filterBase (base_chain_str b) @ [''default-log''])"
    | r where "r \<in> set (fc_rules cfg)" "cmd = cset (ruleBase (fr_chain r) (fr_rule r) @ [''log''])"
    using assms(4) unfolding enableTrafficLoggingCommands_def by auto
  then have "\<exists>r\<in>set (fc_rules cfg). prefix (ruleBase (fr_chain r) (fr_rule r)) (cmd_path cmd)"
  proof cases
    case 1
    then show ?thesis using base [of Forward] baseline_paths(1) by blast
  next
    case (2 b)
    then show ?thesis using base [of b] baseline_paths(2) by blast
  next
    case (3 b)
    then show ?thesis using base [of b] by simp
  next
    case (4 r)
    then show ?thesis by auto
  qed
  then obtain r where r: "r \<in> set (fc_rules cfg)" "prefix (ruleBase (fr_chain r) (fr_rule r)) (cmd_path cmd)"
    by blast
  then have "ruleBase c n = ruleBase (fr_chain r) (fr_rule r)"
    using rule_nodes.cone_of_key [of "cmd_path cmd" "(c, n)" "(fr_chain r, fr_rule r)"] pre by simp
  then show False using assms(2,3) r(1) wf by (auto simp: ruleBase_eq_iff)
qed

lemma enableLogging_other_scopes_witness:
  "\<not> prefix (ruleBase ''name:QZ-Z-LAN-TO-WAN'' 10) (ruleBase ''name:QZ-Z-LAN-TO-DMZ'' 10 @ [''log''])"
proof -
  let ?cfg = "emptyFirewallConfig \<lparr>fc_rules := [two_pair_rule]\<rparr>"
  let ?cmd = "cset (ruleBase ''name:QZ-Z-LAN-TO-DMZ'' 10 @ [''log''])"
  have "?cmd \<in> set (enableTrafficLoggingCommands ?cfg)"
    by (simp add: two_pair_rule_def web_rule_def enableTrafficLoggingCommands_def)
  from enableLogging_other_scopes [OF _ _ _ this, of "''name:QZ-Z-LAN-TO-WAN''" 10] show ?thesis
    by (simp add: wf_chain_def rulesetName_def two_pair_rule_def web_rule_def)
qed

end
