(* ===== verification/Interfaces.thy ===== *)
theory Interfaces
  imports Node_Editor
begin

text \<open>
  The interface kinds of \<open>lib/interfaces.ts\<close> (ethernet, VLAN, loopback, bond, bridge, VXLAN) and
  their reads from the device's \<open>interfaces\<close> configuration. \<open>lc\<close> stands for
  \<open>localeCompare\<close>, which the language leaves to the locale.
\<close>

section \<open>Interfaces\<close>

text \<open>The leaves every kind shares; the records of the kinds extend it.\<close>

record common_leaves =
  cl_description :: "string option"
  cl_addresses :: "string list"
  cl_mtu :: "int option"
  cl_enabled :: bool

record ethernet_interface = common_leaves +
  et_name :: string
  et_hw_id :: "string option"
  et_speed :: "string option"
  et_duplex :: "string option"
  et_vlan_count :: nat

record ethernet_update = common_leaves +
  eu_name :: string
  eu_speed :: "string option"
  eu_duplex :: "string option"

record vlan_interface = common_leaves +
  vl_name :: string
  vl_parent :: string
  vl_vlan_id :: int

record vlan_update = common_leaves +
  vu_parent :: string
  vu_vlan_id :: int
  vu_original_parent :: "string option"
  vu_original_vlan_id :: "int option"

record loopback_interface = common_leaves +
  lo_name :: string

record loopback_update =
  lu_name :: string
  lu_description :: "string option"
  lu_addresses :: "string list"

record bond_interface = common_leaves +
  bo_name :: string
  bo_mode :: "string option"
  bo_members :: "string list"

record bond_update = common_leaves +
  bu_name :: string
  bu_mode :: string
  bu_members :: "string list"

record bridge_vif =
  bv_vlan_id :: int
  bv_description :: "string option"
  bv_addresses :: "string list"

record bridge_interface = common_leaves +
  br_name :: string
  br_members :: "string list"
  br_vlan_aware :: bool
  br_vifs :: "bridge_vif list"

record vni_mapping =
  vm_vni :: int
  vm_vlan :: "int option"

text \<open>The VXLAN row and its update have the same fields.\<close>

record vxlan_interface = common_leaves +
  vx_name :: string
  vx_vnis :: "vni_mapping list"
  vx_source_address :: "string option"
  vx_source_interface :: "string option"
  vx_remotes :: "string list"
  vx_group :: "string option"
  vx_port :: "int option"
  vx_external :: bool
  vx_nolearning :: bool
  vx_neighbor_suppress :: bool
  vx_bridge :: "string option"

section \<open>Reading\<close>

definition asMtu :: "json \<Rightarrow> int option" where
  "asMtu v = (case js_get v ''mtu'' of
       Some (JNum n) \<Rightarrow> Some n
     | Some (JStr s) \<Rightarrow> js_number (trim s)
     | _ \<Rightarrow> None)"

datatype interface_kind = Ethernet | Vlan | Bridge | Bonding | Loopback | Vxlan

fun DEFAULT_MTU :: "interface_kind \<Rightarrow> int" where
  "DEFAULT_MTU Ethernet = 1500"
| "DEFAULT_MTU Vlan = 1500"
| "DEFAULT_MTU Bridge = 1500"
| "DEFAULT_MTU Bonding = 1500"
| "DEFAULT_MTU Loopback = 65536"
| "DEFAULT_MTU Vxlan = 1450"

definition effectiveMtu :: "int option \<Rightarrow> interface_kind \<Rightarrow> int" where
  "effectiveMtu mtu kind = (case mtu of Some n \<Rightarrow> n | None \<Rightarrow> DEFAULT_MTU kind)"

definition asAddresses :: "json \<Rightarrow> string list" where
  "asAddresses v = childList v ''address''"

text \<open>\<open>v[k]\<close> when it is an object or an array, as its entries.\<close>

definition object_entries :: "json \<Rightarrow> string \<Rightarrow> (string \<times> json) list" where
  "object_entries v k = (case js_get v k of
       Some (JObj kvs) \<Rightarrow> kvs | Some (JArr xs) \<Rightarrow> obj_entries (JArr xs) | _ \<Rightarrow> [])"

definition asMembers :: "json \<Rightarrow> string list" where
  "asMembers v = (case js_get v ''member'' of
       Some m \<Rightarrow> sort_by str_cmp (map fst (object_entries m ''interface'')) | None \<Rightarrow> [])"

definition isEnabled :: "json \<Rightarrow> read_error + bool" where
  "isEnabled v = (case has_key ''disable'' v of Inl e \<Rightarrow> Inl e | Inr d \<Rightarrow> Inr (\<not> d))"

definition fetchInterfacesConfig :: "vyos_response \<Rightarrow> read_error + json" where
  "fetchInterfacesConfig resp =
     config_of_response ''Device returned an error reading interfaces.'' resp"

definition kindNode :: "json \<Rightarrow> string \<Rightarrow> (string \<times> json) list" where
  "kindNode interfaces kind = object_entries interfaces kind"

text \<open>The shape of the reads: every entry parsed, the rows sorted by name.\<close>

definition fetch_rows ::
  "(string \<Rightarrow> string \<Rightarrow> int) \<Rightarrow> ('r \<Rightarrow> string) \<Rightarrow> (string \<times> json \<Rightarrow> read_error + 'r) \<Rightarrow> string
    \<Rightarrow> vyos_response \<Rightarrow> read_error + 'r list" where
  "fetch_rows lc row_name parse kind resp =
     (case fetchInterfacesConfig resp of Inl e \<Rightarrow> Inl e | Inr interfaces \<Rightarrow>
       (case map_res parse (kindNode interfaces kind) of Inl e \<Rightarrow> Inl e | Inr rows \<Rightarrow>
         Inr (sort_by (\<lambda>a b. lc (row_name a) (row_name b)) rows)))"

definition parse_ethernet :: "string \<times> json \<Rightarrow> read_error + ethernet_interface" where
  "parse_ethernet e = (let cfg = or_empty (snd e) in
     case isEnabled cfg of Inl err \<Rightarrow> Inl err | Inr enabled \<Rightarrow>
       Inr \<lparr>cl_description = childStr cfg ''description'', cl_addresses = asAddresses cfg,
         cl_mtu = asMtu cfg, cl_enabled = enabled, et_name = fst e,
         et_hw_id = childStr cfg ''hw-id'', et_speed = childStr cfg ''speed'',
         et_duplex = childStr cfg ''duplex'', et_vlan_count = length (object_entries cfg ''vif'')\<rparr>)"

definition fetchEthernet ::
  "(string \<Rightarrow> string \<Rightarrow> int) \<Rightarrow> vyos_response \<Rightarrow> read_error + ethernet_interface list" where
  "fetchEthernet lc resp = fetch_rows lc et_name parse_ethernet ''ethernet'' resp"

definition parse_vlan :: "string \<Rightarrow> string \<times> json \<Rightarrow> read_error + vlan_interface" where
  "parse_vlan parent e = (let cfg = or_empty (snd e) in
     case isEnabled cfg of Inl err \<Rightarrow> Inl err | Inr enabled \<Rightarrow>
       Inr \<lparr>cl_description = childStr cfg ''description'', cl_addresses = asAddresses cfg,
         cl_mtu = asMtu cfg, cl_enabled = enabled, vl_name = parent @ ''.'' @ fst e,
         vl_parent = parent, vl_vlan_id = number_or_zero (fst e)\<rparr>)"

definition fetchVlans ::
  "(string \<Rightarrow> string \<Rightarrow> int) \<Rightarrow> vyos_response \<Rightarrow> read_error + vlan_interface list" where
  "fetchVlans lc resp =
     (case fetchInterfacesConfig resp of Inl e \<Rightarrow> Inl e | Inr interfaces \<Rightarrow>
       (case map_res (\<lambda>(parent, raw). map_res (parse_vlan parent) (object_entries (or_empty raw) ''vif''))
            (kindNode interfaces ''ethernet'') of
          Inl e \<Rightarrow> Inl e
        | Inr rows \<Rightarrow> Inr (sort_by (\<lambda>a b. lc (vl_name a) (vl_name b)) (concat rows))))"

definition parse_loopback :: "string \<times> json \<Rightarrow> read_error + loopback_interface" where
  "parse_loopback e = (let cfg = or_empty (snd e) in
     case isEnabled cfg of Inl err \<Rightarrow> Inl err | Inr enabled \<Rightarrow>
       Inr \<lparr>cl_description = childStr cfg ''description'', cl_addresses = asAddresses cfg,
         cl_mtu = asMtu cfg, cl_enabled = enabled, lo_name = fst e\<rparr>)"

definition fetchLoopback ::
  "(string \<Rightarrow> string \<Rightarrow> int) \<Rightarrow> vyos_response \<Rightarrow> read_error + loopback_interface list" where
  "fetchLoopback lc resp = fetch_rows lc lo_name parse_loopback ''loopback'' resp"

definition parse_bond :: "string \<times> json \<Rightarrow> read_error + bond_interface" where
  "parse_bond e = (let cfg = or_empty (snd e) in
     case isEnabled cfg of Inl err \<Rightarrow> Inl err | Inr enabled \<Rightarrow>
       Inr \<lparr>cl_description = childStr cfg ''description'', cl_addresses = asAddresses cfg,
         cl_mtu = asMtu cfg, cl_enabled = enabled, bo_name = fst e,
         bo_mode = childStr cfg ''mode'', bo_members = asMembers cfg\<rparr>)"

definition fetchBonds ::
  "(string \<Rightarrow> string \<Rightarrow> int) \<Rightarrow> vyos_response \<Rightarrow> read_error + bond_interface list" where
  "fetchBonds lc resp = fetch_rows lc bo_name parse_bond ''bonding'' resp"

definition parseBridgeVifs :: "json \<Rightarrow> bridge_vif list" where
  "parseBridgeVifs cfg = sort_by (\<lambda>a b. bv_vlan_id a - bv_vlan_id b)
     (map (\<lambda>(vid, raw). let v = or_empty raw in
         \<lparr>bv_vlan_id = number_or_zero vid, bv_description = childStr v ''description'',
          bv_addresses = asAddresses v\<rparr>)
       (object_entries cfg ''vif''))"

definition parse_bridge :: "string \<times> json \<Rightarrow> read_error + bridge_interface" where
  "parse_bridge e = (let cfg = or_empty (snd e) in
     case isEnabled cfg of Inl err \<Rightarrow> Inl err | Inr enabled \<Rightarrow>
       (case has_key ''enable-vlan'' cfg of Inl err \<Rightarrow> Inl err | Inr aware \<Rightarrow>
         Inr \<lparr>cl_description = childStr cfg ''description'', cl_addresses = asAddresses cfg,
           cl_mtu = asMtu cfg, cl_enabled = enabled, br_name = fst e, br_members = asMembers cfg,
           br_vlan_aware = aware, br_vifs = parseBridgeVifs cfg\<rparr>))"

definition fetchBridges ::
  "(string \<Rightarrow> string \<Rightarrow> int) \<Rightarrow> vyos_response \<Rightarrow> read_error + bridge_interface list" where
  "fetchBridges lc resp = fetch_rows lc br_name parse_bridge ''bridge'' resp"

definition bridgeVifInterfaceNames ::
  "(string \<Rightarrow> string \<Rightarrow> int) \<Rightarrow> bridge_interface list \<Rightarrow> string list" where
  "bridgeVifInterfaceNames lc bridges = sort_by lc
     (concat (map (\<lambda>b. map (\<lambda>v. br_name b @ ''.'' @ string_of_int (bv_vlan_id v)) (br_vifs b)) bridges))"

definition asMulti :: "json \<Rightarrow> string \<Rightarrow> string list" where
  "asMulti v key = childList v key"

definition vni_order :: "vni_mapping \<Rightarrow> vni_mapping \<Rightarrow> int" where
  "vni_order a b =
     (let va = (case vm_vlan a of None \<Rightarrow> -1 | Some n \<Rightarrow> n);
          vb = (case vm_vlan b of None \<Rightarrow> -1 | Some n \<Rightarrow> n)
      in if va - vb \<noteq> 0 then va - vb else vm_vni a - vm_vni b)"

definition parse_vni_row :: "string \<times> json \<Rightarrow> vni_mapping option" where
  "parse_vni_row e =
     (case (js_number (fst e),
            js_number (case childStr (or_empty (snd e)) ''vni'' of None \<Rightarrow> [] | Some s \<Rightarrow> s)) of
        (Some vlan, Some vni) \<Rightarrow> Some \<lparr>vm_vni = vni, vm_vlan = Some vlan\<rparr>
      | _ \<Rightarrow> None)"

definition parseVnis :: "json \<Rightarrow> vni_mapping list" where
  "parseVnis cfg =
     (let scalar = (case Option.bind (childStr cfg ''vni'') js_number of
              Some n \<Rightarrow> [\<lparr>vm_vni = n, vm_vlan = None\<rparr>] | None \<Rightarrow> []);
          rows = (case js_get cfg ''vlan-to-vni'' of
              Some (JObj kvs) \<Rightarrow> List.map_filter parse_vni_row kvs | _ \<Rightarrow> [])
      in sort_by vni_order (scalar @ rows))"

definition bridgeMembership :: "json \<Rightarrow> (string \<times> string) list" where
  "bridgeMembership interfaces =
     foldl (\<lambda>out (member, br). if member \<in> fst ` set out then out else out @ [(member, br)]) []
       (concat (map (\<lambda>(br, raw). map (\<lambda>m. (m, br)) (asMembers (or_empty raw)))
         (kindNode interfaces ''bridge'')))"

definition parse_vxlan :: "(string \<times> string) list \<Rightarrow> string \<times> json \<Rightarrow> read_error + vxlan_interface" where
  "parse_vxlan bridges e =
     (let cfg = or_empty (snd e);
          params = (case js_get cfg ''parameters'' of None \<Rightarrow> empty_obj | Some p \<Rightarrow> or_empty p) in
      case isEnabled cfg of Inl err \<Rightarrow> Inl err | Inr enabled \<Rightarrow>
      (case has_key ''external'' params of Inl err \<Rightarrow> Inl err | Inr ext \<Rightarrow>
      (case has_key ''nolearning'' params of Inl err \<Rightarrow> Inl err | Inr nolearn \<Rightarrow>
      (case has_key ''neighbor-suppress'' params of Inl err \<Rightarrow> Inl err | Inr suppress \<Rightarrow>
        Inr \<lparr>cl_description = childStr cfg ''description'', cl_addresses = asAddresses cfg,
          cl_mtu = asMtu cfg, cl_enabled = enabled, vx_name = fst e, vx_vnis = parseVnis cfg,
          vx_source_address = childStr cfg ''source-address'',
          vx_source_interface = childStr cfg ''source-interface'',
          vx_remotes = asMulti cfg ''remote'', vx_group = childStr cfg ''group'',
          vx_port = Option.bind (childStr cfg ''port'') js_number,
          vx_external = ext, vx_nolearning = nolearn, vx_neighbor_suppress = suppress,
          vx_bridge = map_of bridges (fst e)\<rparr>))))"

definition fetchVxlan ::
  "(string \<Rightarrow> string \<Rightarrow> int) \<Rightarrow> vyos_response \<Rightarrow> read_error + vxlan_interface list" where
  "fetchVxlan lc resp =
     (case fetchInterfacesConfig resp of Inl e \<Rightarrow> Inl e | Inr interfaces \<Rightarrow>
       (case map_res (parse_vxlan (bridgeMembership interfaces)) (kindNode interfaces ''vxlan'') of
          Inl e \<Rightarrow> Inl e
        | Inr rows \<Rightarrow> Inr (sort_by (\<lambda>a b. lc (vx_name a) (vx_name b)) rows)))"

text \<open>The descriptions of one entry and of its VLANs, in the order they are stored.\<close>

definition entry_descriptions :: "string \<times> json \<Rightarrow> (string \<times> string) list" where
  "entry_descriptions e =
     (let cfg = or_empty (snd e) in
      (case childStr cfg ''description'' of Some d \<Rightarrow> [(fst e, d)] | None \<Rightarrow> []) @
      List.map_filter (\<lambda>(vid, vraw). map_option (\<lambda>d. (fst e @ ''.'' @ vid, d))
          (childStr (or_empty vraw) ''description''))
        (object_entries cfg ''vif''))"

definition fetchInterfaceDescriptions :: "vyos_response \<Rightarrow> read_error + (string \<times> string) list" where
  "fetchInterfaceDescriptions resp =
     (case fetchInterfacesConfig resp of Inl e \<Rightarrow> Inl e | Inr interfaces \<Rightarrow>
       Inr (js_map (concat (map (\<lambda>(kind, _). concat (map entry_descriptions (kindNode interfaces kind)))
         (obj_entries interfaces)))))"

section \<open>The op-mode table of physical NICs\<close>

datatype link_state = Up | Down | Unknown

fun sl_token :: "string \<Rightarrow> bool" where
  "sl_token [a, s, l] \<longleftrightarrow> a \<in> {CHR ''u'', CHR ''D'', CHR ''A''} \<and> s = CHR ''/'' \<and>
     l \<in> {CHR ''u'', CHR ''D'', CHR ''A''}"
| "sl_token _ \<longleftrightarrow> False"

definition parse_nic_line :: "string \<Rightarrow> (string \<times> link_state) option" where
  "parse_nic_line t = (case words_of t of
       [] \<Rightarrow> None
     | nm # _ \<Rightarrow>
         if nm = [] \<or> CHR ''.'' \<in> set nm \<or> \<not> is_letter (hd nm) then None
         else Some (nm, case List.find sl_token (words_of t) of
             Some sl \<Rightarrow> if last sl = CHR ''u'' then Up else Down
           | None \<Rightarrow> Unknown))"

definition parseEthernetTable ::
  "(string \<Rightarrow> string \<Rightarrow> int) \<Rightarrow> string \<Rightarrow> (string \<times> link_state) list" where
  "parseEthernetTable lc text =
     (let ts = map (dropWhile js_space) (split_on (CHR 0x0A) text);
          rows = tl (dropWhile (\<lambda>t. \<not> prefix ''---'' t) ts)
      in sort_by (\<lambda>a b. lc (fst a) (fst b))
        (foldl (\<lambda>out (n, l). if n \<in> fst ` set out then out else out @ [(n, l)]) []
          (List.map_filter parse_nic_line rows)))"

end
