(* ===== verification/Interfaces_Diff.thy ===== *)
theory Interfaces_Diff
  imports Interfaces
begin

text \<open>
  The writes of \<open>lib/interfaces.ts\<close>: the diff of every interface kind from the live row to the
  desired one, and what the commands do to the device. A \<open>diff\<close> that pushes onto its argument
  gives the commands to push.
\<close>

section \<open>Common leaves\<close>

definition diffCommonLeaves ::
  "path \<Rightarrow> 'a common_leaves_scheme option \<Rightarrow> 'b common_leaves_scheme \<Rightarrow> vyos_command list" where
  "diffCommonLeaves base live u =
     leaf_cmds (base @ [''description'']) (Option.bind live cl_description)
       (blank_to_none (cl_description u)) @
     list_cmds (base @ [''address'']) (case live of None \<Rightarrow> [] | Some l \<Rightarrow> cl_addresses l)
       (clean (cl_addresses u)) @
     leaf_cmds (base @ [''mtu'']) (map_option string_of_int (Option.bind live cl_mtu))
       (map_option string_of_int (cl_mtu u)) @
     flag_cmds (base @ [''disable'']) (case live of None \<Rightarrow> False | Some l \<Rightarrow> \<not> cl_enabled l)
       (\<not> cl_enabled u)"

section \<open>Ethernet\<close>

definition ethernetBase :: "string \<Rightarrow> path" where
  "ethernetBase name = [''interfaces'', ''ethernet'', name]"

definition ethernet_body :: "ethernet_interface option \<Rightarrow> ethernet_update \<Rightarrow> vyos_command list" where
  "ethernet_body live u = (let base = ethernetBase (eu_name u) in
     diffCommonLeaves base live u @
     leaf_cmds (base @ [''speed'']) (Option.bind live et_speed) (blank_to_none (eu_speed u)) @
     leaf_cmds (base @ [''duplex'']) (Option.bind live et_duplex) (blank_to_none (eu_duplex u)))"

definition diffEthernet :: "ethernet_interface option \<Rightarrow> ethernet_update \<Rightarrow> vyos_command list" where
  "diffEthernet live u = ensureCreated (ethernet_body live u) (ethernetBase (eu_name u)) (live = None)"

section \<open>VLAN\<close>

definition vifBase :: "string \<Rightarrow> int \<Rightarrow> path" where
  "vifBase parent vid = [''interfaces'', ''ethernet'', parent, ''vif'', string_of_int vid]"

definition vlan_moved :: "vlan_update \<Rightarrow> bool" where
  "vlan_moved u \<longleftrightarrow> vu_original_parent u \<noteq> None \<and> vu_original_vlan_id u \<noteq> None \<and>
     (vu_original_parent u \<noteq> Some (vu_parent u) \<or> vu_original_vlan_id u \<noteq> Some (vu_vlan_id u))"

definition vlan_live :: "vlan_interface list \<Rightarrow> vlan_update \<Rightarrow> vlan_interface option" where
  "vlan_live existing u = (if vlan_moved u then None
     else List.find (\<lambda>v. vl_parent v = vu_parent u \<and> vl_vlan_id v = vu_vlan_id u) existing)"

definition vlan_body :: "vlan_interface option \<Rightarrow> vlan_update \<Rightarrow> vyos_command list" where
  "vlan_body live u = diffCommonLeaves (vifBase (vu_parent u) (vu_vlan_id u)) live u"

definition diffVlan :: "vlan_interface list \<Rightarrow> vlan_update \<Rightarrow> vyos_command list" where
  "diffVlan existing u =
     (if vlan_moved u
      then [cdel (vifBase (the (vu_original_parent u)) (the (vu_original_vlan_id u)))] else []) @
     ensureCreated (vlan_body (vlan_live existing u) u) (vifBase (vu_parent u) (vu_vlan_id u))
       (vlan_live existing u = None)"

definition deleteVlan_cmds :: "string \<Rightarrow> int \<Rightarrow> vyos_command list" where
  "deleteVlan_cmds parent vlanId = [cdel (vifBase parent vlanId)]"

section \<open>Loopback\<close>

definition loopbackBase :: "string \<Rightarrow> path" where
  "loopbackBase name = [''interfaces'', ''loopback'', name]"

definition loopback_body :: "loopback_interface option \<Rightarrow> loopback_update \<Rightarrow> vyos_command list" where
  "loopback_body live u = (let base = loopbackBase (lu_name u) in
     leaf_cmds (base @ [''description'']) (Option.bind live cl_description)
       (blank_to_none (lu_description u)) @
     list_cmds (base @ [''address'']) (case live of None \<Rightarrow> [] | Some l \<Rightarrow> cl_addresses l)
       (clean (lu_addresses u)))"

definition diffLoopback :: "loopback_interface option \<Rightarrow> loopback_update \<Rightarrow> vyos_command list" where
  "diffLoopback live u =
     ensureCreated (loopback_body live u) (loopbackBase (lu_name u)) (live = None)"

section \<open>Bond and bridge\<close>

definition diffMembers :: "path \<Rightarrow> string list \<Rightarrow> string list \<Rightarrow> vyos_command list" where
  "diffMembers base liveMembers newMembers =
     list_cmds (base @ [''member'', ''interface'']) liveMembers newMembers"

definition bond_mode :: "bond_interface option \<Rightarrow> string" where
  "bond_mode live = (case Option.bind live bo_mode of Some m \<Rightarrow> m | None \<Rightarrow> ''802.3ad'')"

definition diffBond :: "bond_interface option \<Rightarrow> bond_update \<Rightarrow> vyos_command list" where
  "diffBond live u = (let base = [''interfaces'', ''bonding'', bu_name u] in
     ensureCreated
       (diffCommonLeaves base live u @
        (if bu_mode u \<noteq> bond_mode live then [cset (base @ [''mode'', bu_mode u])] else []) @
        diffMembers base (case live of None \<Rightarrow> [] | Some l \<Rightarrow> bo_members l) (bu_members u))
       base (live = None))"

definition deleteBond_cmds :: "string \<Rightarrow> vyos_command list" where
  "deleteBond_cmds name = [cdel [''interfaces'', ''bonding'', name]]"

definition by_vlan :: "bridge_vif list \<Rightarrow> (int \<times> bridge_vif) list" where
  "by_vlan vifs = js_map (map (\<lambda>v. (bv_vlan_id v, v)) vifs)"

definition vif_cmds :: "path \<Rightarrow> bridge_vif option \<Rightarrow> bridge_vif \<Rightarrow> vyos_command list" where
  "vif_cmds vbase l v =
     (let newDesc = blank_to_none (bv_description v); newAddrs = clean (bv_addresses v) in
      leaf_cmds (vbase @ [''description'']) (Option.bind l bv_description) newDesc @
      list_cmds (vbase @ [''address'']) (case l of None \<Rightarrow> [] | Some x \<Rightarrow> bv_addresses x) newAddrs @
      (if l = None \<and> newDesc = None \<and> newAddrs = [] then [cset vbase] else []))"

definition diffBridgeVifs :: "path \<Rightarrow> bridge_vif list \<Rightarrow> bridge_vif list \<Rightarrow> vyos_command list" where
  "diffBridgeVifs base live desired =
     (let liveByVlan = by_vlan live;
          wantByVlan = by_vlan (filter (\<lambda>v. 0 < bv_vlan_id v) desired)
      in concat (map (\<lambda>(vlan, v).
            vif_cmds (base @ [''vif'', string_of_int vlan]) (map_of liveByVlan vlan) v) wantByVlan) @
         map (\<lambda>(vlan, _). cdel (base @ [''vif'', string_of_int vlan]))
           (filter (\<lambda>(vlan, _). map_of wantByVlan vlan = None) liveByVlan))"

definition diffBridge :: "bridge_interface option \<Rightarrow> bridge_interface \<Rightarrow> vyos_command list" where
  "diffBridge live u = (let base = [''interfaces'', ''bridge'', br_name u] in
     ensureCreated
       (diffCommonLeaves base live u @
        diffMembers base (case live of None \<Rightarrow> [] | Some l \<Rightarrow> br_members l) (br_members u) @
        flag_cmds (base @ [''enable-vlan'']) (case live of None \<Rightarrow> False | Some l \<Rightarrow> br_vlan_aware l)
          (br_vlan_aware u) @
        diffBridgeVifs base (case live of None \<Rightarrow> [] | Some l \<Rightarrow> br_vifs l) (br_vifs u))
       base (live = None))"

definition deleteBridge_cmds :: "string \<Rightarrow> vyos_command list" where
  "deleteBridge_cmds name = [cdel [''interfaces'', ''bridge'', name]]"

section \<open>VXLAN\<close>

definition scalar_vni :: "vni_mapping list \<Rightarrow> int option" where
  "scalar_vni vnis = map_option vm_vni (List.find (\<lambda>m. vm_vlan m = None) vnis)"

definition vlan_vnis :: "vni_mapping list \<Rightarrow> (int \<times> int) list" where
  "vlan_vnis vnis = js_map (List.map_filter (\<lambda>m. map_option (\<lambda>v. (v, vm_vni m)) (vm_vlan m)) vnis)"

definition vlan_vni_cmds :: "path \<Rightarrow> (int \<times> int) list \<Rightarrow> (int \<times> int) list \<Rightarrow> vyos_command list" where
  "vlan_vni_cmds base liveByVlan wantByVlan =
     map (\<lambda>(vlan, vni). cset (base @ [''vlan-to-vni'', string_of_int vlan, ''vni'', string_of_int vni]))
       (filter (\<lambda>(vlan, vni). map_of liveByVlan vlan \<noteq> Some vni) wantByVlan) @
     map (\<lambda>(vlan, _). cdel (base @ [''vlan-to-vni'', string_of_int vlan]))
       (filter (\<lambda>(vlan, _). map_of wantByVlan vlan = None) liveByVlan)"

definition has_vlan_mapping :: "vni_mapping list \<Rightarrow> bool" where
  "has_vlan_mapping vnis = list_ex (\<lambda>m. vm_vlan m \<noteq> None) vnis"

definition vxlan_flag :: "(vxlan_interface \<Rightarrow> bool) \<Rightarrow> vxlan_interface option \<Rightarrow> bool" where
  "vxlan_flag f live = (case live of None \<Rightarrow> False | Some l \<Rightarrow> f l)"

definition vxlan_body :: "vxlan_interface option \<Rightarrow> vxlan_interface \<Rightarrow> vyos_command list" where
  "vxlan_body live u =
     (let base = [''interfaces'', ''vxlan'', vx_name u];
          liveVnis = (case live of None \<Rightarrow> [] | Some l \<Rightarrow> vx_vnis l) in
      diffCommonLeaves base live u @
      leaf_cmds (base @ [''vni'']) (map_option string_of_int (scalar_vni liveVnis))
        (map_option string_of_int (scalar_vni (vx_vnis u))) @
      vlan_vni_cmds base (vlan_vnis liveVnis) (vlan_vnis (vx_vnis u)) @
      leaf_cmds (base @ [''source-address'']) (Option.bind live vx_source_address)
        (blank_to_none (vx_source_address u)) @
      leaf_cmds (base @ [''source-interface'']) (Option.bind live vx_source_interface)
        (blank_to_none (vx_source_interface u)) @
      leaf_cmds (base @ [''group'']) (Option.bind live vx_group) (blank_to_none (vx_group u)) @
      leaf_cmds (base @ [''port'']) (map_option string_of_int (Option.bind live vx_port))
        (map_option string_of_int (vx_port u)) @
      list_cmds (base @ [''remote'']) (case live of None \<Rightarrow> [] | Some l \<Rightarrow> vx_remotes l)
        (clean (vx_remotes u)) @
      flag_cmds (base @ [''parameters'', ''external'']) (vxlan_flag vx_external live)
        (vx_external u \<or> has_vlan_mapping (vx_vnis u)) @
      flag_cmds (base @ [''parameters'', ''nolearning'']) (vxlan_flag vx_nolearning live)
        (vx_nolearning u) @
      flag_cmds (base @ [''parameters'', ''neighbor-suppress'']) (vxlan_flag vx_neighbor_suppress live)
        (vx_neighbor_suppress u))"

text \<open>\<open>if (liveBridge)\<close> and \<open>if (wantBridge)\<close> also skip the empty string.\<close>

definition bridge_member :: "string \<Rightarrow> string \<Rightarrow> path" where
  "bridge_member br iface = [''interfaces'', ''bridge'', br, ''member'', ''interface'', iface]"

definition vxlan_bridge_cmds :: "string \<Rightarrow> string option \<Rightarrow> string option \<Rightarrow> vyos_command list" where
  "vxlan_bridge_cmds name liveBridge wantBridge =
     (if wantBridge \<noteq> liveBridge then
        (case liveBridge of None \<Rightarrow> []
           | Some b \<Rightarrow> if b = [] then [] else [cdel (bridge_member b name)]) @
        (case wantBridge of None \<Rightarrow> []
           | Some b \<Rightarrow> if b = [] then [] else [cset (bridge_member b name)])
      else [])"

definition diffVxlan :: "vxlan_interface option \<Rightarrow> vxlan_interface \<Rightarrow> vyos_command list" where
  "diffVxlan live u =
     ensureCreated (vxlan_body live u) [''interfaces'', ''vxlan'', vx_name u] (live = None) @
     vxlan_bridge_cmds (vx_name u) (Option.bind live vx_bridge) (blank_to_none (vx_bridge u))"

definition deleteVxlan_cmds :: "string \<Rightarrow> vyos_command list" where
  "deleteVxlan_cmds name = [cdel [''interfaces'', ''vxlan'', name]]"

section \<open>Committing\<close>

text \<open>
  \<open>commitAndSave\<close>: nothing is sent for an empty list; otherwise one request, and a boot save is
  scheduled when the device accepts it. The reply is an argument; the result is the number of
  changes and whether a save was scheduled.
\<close>

definition commitAndSave :: "vyos_command list \<Rightarrow> vyos_response \<Rightarrow> read_error + nat \<times> bool" where
  "commitAndSave commands resp =
     (if commands = [] then Inr (0, False)
      else if resp_success resp then Inr (length commands, True)
      else Inl (DeviceError (case resp_error resp of
          Some e \<Rightarrow> if e = [] then ''Device rejected the configuration.'' else e
        | None \<Rightarrow> ''Device rejected the configuration.'')))"

section \<open>What the diffs do to the device\<close>

definition common_region :: "path \<Rightarrow> path set" where
  "common_region b = cone (b @ [''description'']) \<union> (cone (b @ [''address'']) \<union>
     (cone (b @ [''mtu'']) \<union> cone (b @ [''disable''])))"

definition common_paths ::
  "path \<Rightarrow> string option \<Rightarrow> string list \<Rightarrow> int option \<Rightarrow> bool \<Rightarrow> path set" where
  "common_paths b desc addrs mtu enabled =
     leaf_paths (b @ [''description'']) desc \<union> (list_paths (b @ [''address'']) addrs \<union>
     (leaf_paths (b @ [''mtu'']) (map_option string_of_int mtu) \<union>
      flag_paths (b @ [''disable'']) (\<not> enabled)))"

definition live_common :: "path \<Rightarrow> 'a common_leaves_scheme option \<Rightarrow> path set" where
  "live_common b live = (case live of None \<Rightarrow> {}
     | Some l \<Rightarrow> common_paths b (cl_description l) (cl_addresses l) (cl_mtu l) (cl_enabled l))"

definition new_common :: "path \<Rightarrow> 'a common_leaves_scheme \<Rightarrow> path set" where
  "new_common b u = common_paths b (blank_to_none (cl_description u)) (clean (cl_addresses u))
     (cl_mtu u) (cl_enabled u)"

definition common_schema :: "(path \<Rightarrow> bool) \<Rightarrow> path \<Rightarrow> bool" where
  "common_schema single b \<longleftrightarrow> \<not> single b \<and> \<not> single (butlast b) \<and> single (b @ [''description'']) \<and>
     \<not> single (b @ [''address'']) \<and> single (b @ [''mtu''])"

lemmas common_defs = common_region_def common_paths_def live_common_def new_common_def
  diffCommonLeaves_def

lemma edits_common:
  assumes dev: "device_laws dev single" and sch: "common_schema single b"
  shows "edits dev (common_region b) (diffCommonLeaves b live u) (live_common b live) (new_common b u)"
proof -
  have "edits dev (common_region b) (diffCommonLeaves b live u)
    (common_paths b (Option.bind live cl_description) (case live of None \<Rightarrow> [] | Some l \<Rightarrow> cl_addresses l)
      (Option.bind live cl_mtu) (\<not> (case live of None \<Rightarrow> False | Some l \<Rightarrow> \<not> cl_enabled l))) (new_common b u)"
    unfolding common_region_def common_paths_def new_common_def diffCommonLeaves_def not_not
    using sch
    by (intro edits_append edits_leaf [OF dev] edits_list [OF dev] edits_flag [OF dev])
      (simp_all add: common_schema_def cone_simps)
  then show ?thesis by (cases live) (simp_all add: live_common_def common_paths_def)
qed

lemma common_region_cone: "common_region b \<subseteq> cone b"
  by (auto simp: common_region_def dest: append_prefixD)

lemma new_common_sets: "has_set (diffCommonLeaves b None u) \<longleftrightarrow> new_common b u \<noteq> {}"
  by (auto simp: new_common_def common_paths_def diffCommonLeaves_def leaf_cmds_None_set
      list_cmds_Nil_set flag_cmds_False_set)

lemma common_paths_parts:
  "common_paths b d a m e \<inter> cone (b @ [''description'']) = leaf_paths (b @ [''description'']) d"
  "common_paths b d a m e \<inter> cone (b @ [''address'']) = list_paths (b @ [''address'']) a"
  "common_paths b d a m e \<inter> cone (b @ [''mtu'']) = leaf_paths (b @ [''mtu'']) (map_option string_of_int m)"
  "common_paths b d a m e \<inter> cone (b @ [''disable'']) = flag_paths (b @ [''disable'']) (\<not> e)"
  by (simp_all add: common_paths_def cone_simps paths_Int_own)

lemma common_paths_inj:
  assumes "common_paths b d a m e = common_paths b d' a' m' e'"
  shows "d = d' \<and> set a = set a' \<and> m = m' \<and> e = e'"
  using arg_cong [OF assms, of "\<lambda>X. X \<inter> cone (b @ [''description''])"]
    arg_cong [OF assms, of "\<lambda>X. X \<inter> cone (b @ [''address''])"]
    arg_cong [OF assms, of "\<lambda>X. X \<inter> cone (b @ [''mtu''])"]
    arg_cong [OF assms, of "\<lambda>X. X \<inter> cone (b @ [''disable''])"]
  unfolding common_paths_parts by (simp add: map_option_eq_inj)

lemma common_idle:
  assumes "live_common b (Some l) = new_common b u"
  shows "diffCommonLeaves b (Some l) u = []"
  using common_paths_inj [OF assms [unfolded live_common_def new_common_def option.case]]
  by (simp add: diffCommonLeaves_def list_cmds_idle)

lemma common_deletes_live: "deletes_live (live_common b (Some l)) (diffCommonLeaves b (Some l) u)"
  unfolding live_common_def common_paths_def diffCommonLeaves_def option.case bind.bind_lunit
  by (intro deletes_live_parts deletes_live_leaf deletes_live_list deletes_live_flag)

lemma common_new_deletes: "deletes_live {} (diffCommonLeaves b None u)"
  by (simp add: diffCommonLeaves_def)

definition vlan_schema :: "(path \<Rightarrow> bool) \<Rightarrow> bool" where
  "vlan_schema single \<longleftrightarrow> (\<forall>parent vid. common_schema single (vifBase parent vid))"

interpretation vif_nodes: keyed_nodes "\<lambda>(parent, vid). vifBase parent vid" "\<lambda>_. True" 5
  by unfold_locales (auto simp: vifBase_def)

interpretation vlan_ed: node_editor vlan_schema vlan_moved
  "\<lambda>u. vifBase (the (vu_original_parent u)) (the (vu_original_vlan_id u))"
  "\<lambda>u. vifBase (vu_parent u) (vu_vlan_id u)" vlan_live vlan_body
  "\<lambda>u. common_region (vifBase (vu_parent u) (vu_vlan_id u))"
  "\<lambda>l u. live_common (vifBase (vu_parent u) (vu_vlan_id u)) (Some l)"
  "\<lambda>u. new_common (vifBase (vu_parent u) (vu_vlan_id u)) u"
proof unfold_locales
  fix dev single and u :: vlan_update and l :: vlan_interface
  assume dev: "device_laws dev single" and sch: "vlan_schema single"
  then have s: "common_schema single (vifBase (vu_parent u) (vu_vlan_id u))"
    by (simp add: vlan_schema_def)
  let ?b = "vifBase (vu_parent u) (vu_vlan_id u)"
  show "edits dev (common_region ?b) (vlan_body (Some l) u) (live_common ?b (Some l)) (new_common ?b u)"
    unfolding vlan_body_def by (rule edits_common [OF dev s])
  have "edits dev (common_region ?b) (vlan_body None u) (live_common ?b (None :: vlan_interface option)) (new_common ?b u)"
    unfolding vlan_body_def by (rule edits_common [OF dev s])
  then show "edits dev (common_region ?b) (vlan_body None u) {} (new_common ?b u)"
    by (simp add: live_common_def)
qed (auto simp: vlan_live_def vlan_body_def new_common_sets common_idle common_deletes_live
    common_new_deletes vlan_schema_def common_schema_def dest: subsetD [OF common_region_cone])

lemma diffVlan_node: "diffVlan = node_diff vlan_moved
    (\<lambda>u. vifBase (the (vu_original_parent u)) (the (vu_original_vlan_id u)))
    (\<lambda>u. vifBase (vu_parent u) (vu_vlan_id u)) vlan_live vlan_body"
  by (auto simp: fun_eq_iff diffVlan_def node_diff_def)

section \<open>Properties of the interface diffs\<close>

text \<open>
  \<open>diffVlan\<close> brings the device from the live VLAN to the desired one. A VLAN whose parent or
  id changed loses its old node as a whole; the description, address, MTU and disable leaves of
  the target become exactly the desired ones; a VLAN with none of them is created explicitly; and
  every other path stays.
\<close>

theorem diffVlan_run:
  assumes "device_laws dev single" and "vlan_schema single"
    and "b = vifBase (vu_parent u) (vu_vlan_id u)"
    and "old = old_cone vlan_moved
      (\<lambda>u. vifBase (the (vu_original_parent u)) (the (vu_original_vlan_id u))) u"
    and "case vlan_live existing u of
        Some l \<Rightarrow> S \<inter> common_region b = live_common b (Some l)
      | None \<Rightarrow> (S - old) \<inter> cone b = {}"
  shows "run dev (diffVlan existing u) S =
    (S - old - common_region b) \<union> new_common b u \<union>
    (if vlan_live existing u = None \<and> new_common b u = {} then {b} else {})"
  unfolding diffVlan_node assms(3,4)
  by (rule vlan_ed.diff_run [OF assms(1,2)]) (use assms(5) in \<open>simp only: assms(3,4)\<close>)

definition office_vlan :: vlan_interface where
  "office_vlan = \<lparr>cl_description = Some ''office'', cl_addresses = [''10.1.0.1/24''], cl_mtu = None,
     cl_enabled = True, vl_name = ''eth1.10'', vl_parent = ''eth1'', vl_vlan_id = 10\<rparr>"

definition office_move :: vlan_update where
  "office_move = \<lparr>cl_description = Some ''office'', cl_addresses = ['' 10.1.0.1/24 ''], cl_mtu = Some 1400,
     cl_enabled = False, vu_parent = ''eth2'', vu_vlan_id = 20,
     vu_original_parent = Some ''eth1'', vu_original_vlan_id = Some 10\<rparr>"

lemma vlan_schema_witness: "vlan_schema (\<lambda>p. p \<noteq> [] \<and> last p \<in> {''description'', ''mtu''} \<and> length p = 6)"
  by (simp add: vlan_schema_def common_schema_def vifBase_def)

lemma diffVlan_run_witness:
  "run (ref_dev (\<lambda>p. p \<noteq> [] \<and> last p \<in> {''description'', ''mtu''} \<and> length p = 6))
     (diffVlan [office_vlan] office_move) (live_common (vifBase ''eth1'' 10) (Some office_vlan)) =
   new_common (vifBase ''eth2'' 20) office_move"
proof -
  let ?b = "vifBase ''eth2'' 20" and ?S = "live_common (vifBase ''eth1'' 10) (Some office_vlan)"
  have live: "vlan_live [office_vlan] office_move = None" and moved: "vlan_moved office_move"
    by (simp_all add: vlan_live_def vlan_moved_def office_move_def)
  have target: "vifBase (vu_parent office_move) (vu_vlan_id office_move) = ?b"
    and old: "old_cone vlan_moved (\<lambda>u. vifBase (the (vu_original_parent u)) (the (vu_original_vlan_id u)))
      office_move = cone (vifBase ''eth1'' 10)"
    using moved by (simp_all add: old_cone_def office_move_def)
  have sub: "?S \<subseteq> cone (vifBase ''eth1'' 10)"
    by (auto simp: live_common_def common_paths_def leaf_paths_def list_paths_def flag_paths_def
        split: option.splits)
  have ne: "new_common ?b office_move \<noteq> {}"
    by (simp add: new_common_def common_paths_def office_move_def)
  show ?thesis
    using diffVlan_run [OF ref_dev_laws vlan_schema_witness target [symmetric] old [symmetric],
        where existing = "[office_vlan]" and S = ?S] sub ne
    by (simp add: live Diff_eq_empty_iff [THEN iffD2])
qed

text \<open>
  Saving a VLAN that was not changed sends nothing: when the row is still where it was and
  the cleaned leaves of the update are the live ones, \<open>diffVlan\<close> is empty.
\<close>

theorem diffVlan_idle:
  assumes "vlan_live existing u = Some l"
    and "blank_to_none (cl_description u) = cl_description l" "set (clean (cl_addresses u)) = set (cl_addresses l)"
    and "cl_mtu u = cl_mtu l" "cl_enabled u = cl_enabled l"
  shows "diffVlan existing u = []"
  unfolding diffVlan_node
proof (rule vlan_ed.diff_idle [OF assms(1)])
  have "list_paths p (cl_addresses l) = list_paths p (clean (cl_addresses u))" for p
    using assms(3) by simp
  then show "live_common (vifBase (vu_parent u) (vu_vlan_id u)) (Some l) =
      new_common (vifBase (vu_parent u) (vu_vlan_id u)) u"
    by (simp add: live_common_def new_common_def common_paths_def assms(2,4,5) del: list_paths_eq_iff)
qed

lemma diffVlan_idle_witness:
  "diffVlan [office_vlan] (office_move \<lparr>cl_mtu := None, cl_enabled := True, vu_parent := ''eth1'',
     vu_vlan_id := 10\<rparr>) = []"
  by (rule diffVlan_idle [where l = office_vlan])
    (simp_all add: vlan_live_def vlan_moved_def office_vlan_def office_move_def blank_to_none_def
      clean_def trim_def js_space_def)

section \<open>VXLAN\<close>

definition vni_path :: "path \<Rightarrow> int \<times> int \<Rightarrow> path" where
  "vni_path b e = b @ [''vlan-to-vni'', string_of_int (fst e), ''vni'', string_of_int (snd e)]"

lemma vni_path_prefix:
  "prefix (b @ [''vlan-to-vni'', string_of_int v]) (vni_path b e) \<longleftrightarrow> fst e = v"
  "prefix (b @ [''vlan-to-vni'', string_of_int v, ''vni'']) (vni_path b e) \<longleftrightarrow> fst e = v"
  by (auto simp: vni_path_def)

lemma run_vni_sets:
  assumes dev: "device_laws dev single" and single: "\<And>v. single (b @ [''vlan-to-vni'', string_of_int v, ''vni''])"
    and "distinct (map fst ws)"
  shows "run dev (map (\<lambda>(vlan, vni).
      cset (b @ [''vlan-to-vni'', string_of_int vlan, ''vni'', string_of_int vni])) ws) S =
    (S - (\<Union>v\<in>fst ` set ws. cone (b @ [''vlan-to-vni'', string_of_int v, ''vni'']))) \<union> vni_path b ` set ws"
  using assms(3)
proof (induction ws arbitrary: S)
  case Nil
  then show ?case by simp
next
  case (Cons w ws)
  obtain v n where w: "w = (v, n)" by (cases w)
  have "dev (cset (b @ [''vlan-to-vni'', string_of_int v, ''vni'', string_of_int n])) S =
      insert (vni_path b w) (S - cone (b @ [''vlan-to-vni'', string_of_int v, ''vni'']))"
    using single by (subst dev_set_single [OF dev]) (simp_all add: butlast_append vni_path_def w)
  moreover have "vni_path b w \<notin> (\<Union>v\<in>fst ` set ws. cone (b @ [''vlan-to-vni'', string_of_int v, ''vni'']))"
    using Cons.prems by (auto simp: vni_path_prefix w image_iff)
  then have "insert (vni_path b w) A - (\<Union>v\<in>fst ` set ws. cone (b @ [''vlan-to-vni'', string_of_int v, ''vni''])) =
      insert (vni_path b w) (A - (\<Union>v\<in>fst ` set ws. cone (b @ [''vlan-to-vni'', string_of_int v, ''vni''])))" for A
    by (simp only: insert_Diff_if if_False)
  moreover have "distinct (map fst ws)" using Cons.prems by simp
  ultimately show ?case by (simp add: w Cons.IH Diff_eq) blast
qed

lemma edits_vlan_vni:
  assumes dev: "device_laws dev single" and single: "\<And>v. single (b @ [''vlan-to-vni'', string_of_int v, ''vni''])"
    and dist: "distinct (map fst live)" "distinct (map fst want)"
  shows "edits dev (cone (b @ [''vlan-to-vni''])) (vlan_vni_cmds b live want)
    (vni_path b ` set live) (vni_path b ` set want)"
proof (rule editsI)
  show "vni_path b ` set live \<subseteq> cone (b @ [''vlan-to-vni''])" "vni_path b ` set want \<subseteq> cone (b @ [''vlan-to-vni''])"
    by (auto simp: vni_path_def)
  fix R :: "path set"
  assume R: "R \<inter> cone (b @ [''vlan-to-vni'']) = {}"
  let ?ws = "filter (\<lambda>(vlan, vni). map_of live vlan \<noteq> Some vni) want"
  let ?ds = "filter (\<lambda>(vlan, _). map_of want vlan = None) live"
  have out: "\<not> prefix (b @ ''vlan-to-vni'' # p) q" if "q \<in> R" for p q
    using R that by (auto simp: disjoint_iff prefix_def)
  have ws: "distinct (map fst ?ws)" using dist(2) by (rule distinct_map_filter)
  have keep: "(x \<in> set live \<and> fst x \<notin> fst ` set ?ws \<or> x \<in> set ?ws) \<and> fst x \<notin> fst ` set ?ds
      \<longleftrightarrow> x \<in> set want" for x
  proof -
    obtain v n where x: "x = (v, n)" by (cases x)
    have "v \<in> fst ` set ?ws \<longleftrightarrow> (\<exists>m. map_of want v = Some m \<and> map_of live v \<noteq> Some m)"
      using dist(2) by (force simp: image_iff)
    moreover have "v \<in> fst ` set ?ds \<longleftrightarrow> map_of want v = None \<and> map_of live v \<noteq> None"
      using dist(1) by (force simp: image_iff map_of_eq_None_iff)
    moreover have "x \<in> set live \<longleftrightarrow> map_of live v = Some n" "x \<in> set want \<longleftrightarrow> map_of want v = Some n"
      using dist by (simp_all add: x)
    ultimately show ?thesis by (auto simp: x)
  qed
  have "run dev (vlan_vni_cmds b live want) (R \<union> vni_path b ` set live) =
      (((R \<union> vni_path b ` set live) -
          (\<Union>v\<in>fst ` set ?ws. cone (b @ [''vlan-to-vni'', string_of_int v, ''vni'']))) \<union> vni_path b ` set ?ws) -
      (\<Union>v\<in>fst ` set ?ds. cone (b @ [''vlan-to-vni'', string_of_int v]))"
    unfolding vlan_vni_cmds_def run_append run_vni_sets [OF dev single ws]
    using run_deletes [OF dev, of "\<lambda>(vlan, _). b @ [''vlan-to-vni'', string_of_int vlan]" ?ds]
    by (simp add: split_def)
  also have "\<dots> = R \<union> vni_path b ` {x. (x \<in> set live \<and> fst x \<notin> fst ` set ?ws \<or> x \<in> set ?ws) \<and>
      fst x \<notin> fst ` set ?ds}"
  proof -
    have "((R \<union> vni_path b ` L) - (\<Union>v\<in>A. cone (b @ [''vlan-to-vni'', string_of_int v, ''vni''])) \<union>
          vni_path b ` W) - (\<Union>v\<in>B. cone (b @ [''vlan-to-vni'', string_of_int v])) =
        R \<union> vni_path b ` {x. (x \<in> L \<and> fst x \<notin> A \<or> x \<in> W) \<and> fst x \<notin> B}" for L W A B
      using out by (auto simp: vni_path_prefix)
    then show ?thesis .
  qed
  also have "\<dots> = R \<union> vni_path b ` set want"
    unfolding keep by simp
  finally show "run dev (vlan_vni_cmds b live want) (R \<union> vni_path b ` set live) = R \<union> vni_path b ` set want" .
qed

definition vxlanBase :: "string \<Rightarrow> path" where
  "vxlanBase name = [''interfaces'', ''vxlan'', name]"

definition vxlan_schema :: "(path \<Rightarrow> bool) \<Rightarrow> bool" where
  "vxlan_schema single \<longleftrightarrow> (\<forall>name. let b = vxlanBase name in common_schema single b \<and>
     (\<forall>k\<in>{''vni'', ''source-address'', ''source-interface'', ''group'', ''port''}. single (b @ [k])) \<and>
     (\<forall>v. single (b @ [''vlan-to-vni'', string_of_int v, ''vni''])) \<and>
     \<not> single (b @ [''remote'']) \<and> \<not> single (b @ [''parameters'']))"

definition vxlan_region :: "path \<Rightarrow> path set" where
  "vxlan_region b = common_region b \<union> (cone (b @ [''vni'']) \<union> (cone (b @ [''vlan-to-vni'']) \<union>
     (cone (b @ [''source-address'']) \<union> (cone (b @ [''source-interface'']) \<union> (cone (b @ [''group'']) \<union>
     (cone (b @ [''port'']) \<union> (cone (b @ [''remote'']) \<union> (cone (b @ [''parameters'', ''external'']) \<union>
     (cone (b @ [''parameters'', ''nolearning'']) \<union> cone (b @ [''parameters'', ''neighbor-suppress'']))))))))))"

text \<open>
  The leaves of a VTEP: its common leaves, then everything else as a function of the row's
  values.
\<close>

definition vxlan_paths :: "path \<Rightarrow> path set \<Rightarrow> vni_mapping list \<Rightarrow> string option \<Rightarrow> string option
    \<Rightarrow> string option \<Rightarrow> int option \<Rightarrow> string list \<Rightarrow> bool \<Rightarrow> bool \<Rightarrow> bool \<Rightarrow> path set" where
  "vxlan_paths b common vnis sa si grp port remotes ext nolearn suppress =
     common \<union> (leaf_paths (b @ [''vni'']) (map_option string_of_int (scalar_vni vnis)) \<union>
     (vni_path b ` set (vlan_vnis vnis) \<union> (leaf_paths (b @ [''source-address'']) sa \<union>
     (leaf_paths (b @ [''source-interface'']) si \<union> (leaf_paths (b @ [''group'']) grp \<union>
     (leaf_paths (b @ [''port'']) (map_option string_of_int port) \<union> (list_paths (b @ [''remote'']) remotes \<union>
     (flag_paths (b @ [''parameters'', ''external'']) ext \<union>
     (flag_paths (b @ [''parameters'', ''nolearning'']) nolearn \<union>
      flag_paths (b @ [''parameters'', ''neighbor-suppress'']) suppress)))))))))"

definition vxlan_before :: "vxlan_interface option \<Rightarrow> path \<Rightarrow> path set" where
  "vxlan_before live b = vxlan_paths b (live_common b live)
     (case live of None \<Rightarrow> [] | Some l \<Rightarrow> vx_vnis l) (Option.bind live vx_source_address)
     (Option.bind live vx_source_interface) (Option.bind live vx_group) (Option.bind live vx_port)
     (case live of None \<Rightarrow> [] | Some l \<Rightarrow> vx_remotes l) (vxlan_flag vx_external live)
     (vxlan_flag vx_nolearning live) (vxlan_flag vx_neighbor_suppress live)"

definition vxlan_after :: "vxlan_interface \<Rightarrow> path set" where
  "vxlan_after u = vxlan_paths (vxlanBase (vx_name u)) (new_common (vxlanBase (vx_name u)) u) (vx_vnis u)
     (blank_to_none (vx_source_address u)) (blank_to_none (vx_source_interface u))
     (blank_to_none (vx_group u)) (vx_port u) (clean (vx_remotes u))
     (vx_external u \<or> has_vlan_mapping (vx_vnis u)) (vx_nolearning u) (vx_neighbor_suppress u)"

lemma distinct_vlan_vnis: "distinct (map fst (vlan_vnis vnis))"
  by (simp add: vlan_vnis_def distinct_js_map)

lemma vxlan_body_edits:
  assumes dev: "device_laws dev single" and sch: "vxlan_schema single"
  shows "edits dev (vxlan_region (vxlanBase (vx_name u))) (vxlan_body live u)
    (vxlan_before live (vxlanBase (vx_name u))) (vxlan_after u)"
proof -
  let ?b = "vxlanBase (vx_name u)"
  have parts: "common_schema single ?b" "\<And>v. single (?b @ [''vlan-to-vni'', string_of_int v, ''vni''])"
    "\<not> single (?b @ [''remote''])" "\<not> single (?b @ [''parameters''])" "single (?b @ [''vni''])"
    "single (?b @ [''source-address''])" "single (?b @ [''source-interface''])" "single (?b @ [''group''])"
    "single (?b @ [''port''])"
    using sch by (simp_all add: vxlan_schema_def Let_def)
  show ?thesis
    unfolding vxlan_region_def vxlan_before_def vxlan_after_def vxlan_paths_def vxlan_body_def Let_def
      vxlanBase_def [symmetric]
    by (intro edits_append edits_common [OF dev] edits_leaf [OF dev] edits_vlan_vni [OF dev] edits_list [OF dev]
        edits_flag [OF dev])
      (simp_all add: parts distinct_vlan_vnis butlast_append cone_simps common_region_def)
qed

lemma vxlan_before_none: "vxlan_before None b = {}"
  by (simp add: vxlan_before_def vxlan_paths_def live_common_def vxlan_flag_def scalar_vni_def
      vlan_vnis_def js_map_def List.map_filter_def)

lemma vlan_vni_new_sets: "has_set (vlan_vni_cmds b [] want) \<longleftrightarrow> want \<noteq> []"
  by (cases want) (auto simp: vlan_vni_cmds_def has_set_def)

lemma vxlan_new_sets: "has_set (vxlan_body None u) \<longleftrightarrow> vxlan_after u \<noteq> {}"
  by (auto simp: vxlan_body_def vxlan_after_def vxlan_paths_def Let_def new_common_sets vxlan_flag_def
      leaf_cmds_None_set list_cmds_Nil_set flag_cmds_False_set vlan_vni_new_sets scalar_vni_def
      vlan_vnis_def js_map_def List.map_filter_def vxlanBase_def)

text \<open>
  \<open>diffVxlan\<close> brings a VTEP from the live row to the desired one. Its common leaves, its
  scalar VNI, every VLAN mapping, its sources, group, port, remotes and parameter flags become
  exactly those of the update, where a VLAN mapping forces \<open>parameters external\<close> on; the node is
  created when nothing else does; and it leaves its old bridge and joins the new one.
\<close>

theorem diffVxlan_run:
  assumes dev: "device_laws dev single" and sch: "vxlan_schema single"
    and members: "\<And>br. \<not> single (butlast (bridge_member br (vx_name u)))"
    and b: "b = vxlanBase (vx_name u)"
    and before: "S \<inter> vxlan_region b = vxlan_before live b"
    and fresh: "live = None \<Longrightarrow> S \<inter> cone b = {}"
    and T: "T = (S - vxlan_region b) \<union> vxlan_after u \<union> (if live = None \<and> vxlan_after u = {} then {b} else {})"
    and old: "old = Option.bind live vx_bridge" "old \<noteq> Some []" and new: "new = blank_to_none (vx_bridge u)"
  shows "run dev (diffVxlan live u) S =
    (if new = old then T
     else (T - (case old of None \<Rightarrow> {} | Some br \<Rightarrow> cone (bridge_member br (vx_name u))))
       \<union> (case new of None \<Rightarrow> {} | Some br \<Rightarrow> {bridge_member br (vx_name u)}))"
proof -
  have node: "run dev (ensureCreated (vxlan_body live u) b (live = None)) S = T"
    unfolding T b
    by (rule run_ensureCreated [OF dev vxlan_body_edits [OF dev sch] before [unfolded b]])
      (use sch in \<open>auto simp: vxlan_before_none vxlan_new_sets vxlan_schema_def common_schema_def Let_def\<close>)
  have "new \<noteq> Some []" by (auto simp: new blank_to_none_def split: option.splits)
  then have "run dev (vxlan_bridge_cmds (vx_name u) old new) T' =
    (if new = old then T'
     else (T' - (case old of None \<Rightarrow> {} | Some br \<Rightarrow> cone (bridge_member br (vx_name u))))
       \<union> (case new of None \<Rightarrow> {} | Some br \<Rightarrow> {bridge_member br (vx_name u)}))" for T'
    using old(2) members
    by (auto simp: vxlan_bridge_cmds_def dev_delete [OF dev] dev_set_multi [OF dev] split: option.splits)
  then show ?thesis
    by (simp only: diffVxlan_def run_append node [unfolded b vxlanBase_def] old(1) new)
qed

definition fabric_vtep :: vxlan_interface where
  "fabric_vtep = \<lparr>cl_description = None, cl_addresses = [], cl_mtu = None, cl_enabled = True,
     vx_name = ''vxlan0'', vx_vnis = [\<lparr>vm_vni = 10010, vm_vlan = Some 10\<rparr>],
     vx_source_address = Some ''192.0.2.1'', vx_source_interface = None, vx_remotes = [], vx_group = None,
     vx_port = None, vx_external = False, vx_nolearning = True, vx_neighbor_suppress = False,
     vx_bridge = Some ''br0''\<rparr>"

definition vxlan_leaf :: "path \<Rightarrow> bool" where
  "vxlan_leaf p \<longleftrightarrow> leaf_nodes [''description'', ''mtu'', ''vni'', ''source-address'', ''source-interface'',
     ''group'', ''port''] p \<and> length p \<in> {4, 6} \<and> take 2 p = [''interfaces'', ''vxlan'']"

lemma vxlan_schema_leaf: "vxlan_schema vxlan_leaf"
  by (simp add: vxlan_schema_def vxlan_leaf_def leaf_nodes_def vxlanBase_def common_schema_def Let_def)

lemma diffVxlan_run_witness:
  "[''interfaces'', ''vxlan'', ''vxlan0'', ''parameters'', ''external''] \<in>
     run (ref_dev vxlan_leaf) (diffVxlan None fabric_vtep) {} \<and>
   bridge_member ''br0'' ''vxlan0'' \<in> run (ref_dev vxlan_leaf) (diffVxlan None fabric_vtep) {}"
proof -
  have "[''interfaces'', ''vxlan'', ''vxlan0'', ''parameters'', ''external''] \<in> vxlan_after fabric_vtep"
    by (simp add: vxlan_after_def vxlan_paths_def fabric_vtep_def has_vlan_mapping_def vxlanBase_def
        flag_paths_def)
  moreover have "run (ref_dev vxlan_leaf) (diffVxlan None fabric_vtep) {} =
      insert (bridge_member ''br0'' ''vxlan0'') (vxlan_after fabric_vtep)"
  proof -
    have ne: "vxlan_after fabric_vtep \<noteq> {}" using calculation by blast
    have "blank_to_none (vx_bridge fabric_vtep) = Some ''br0''"
      by (simp add: fabric_vtep_def blank_to_none_def trim_def js_space_def)
    with ne show ?thesis
      using diffVxlan_run [OF ref_dev_laws vxlan_schema_leaf _ refl _ _ refl refl _ refl,
          where S = "{}" and live = None and u = fabric_vtep]
      by (simp add: vxlan_before_none vxlan_leaf_def bridge_member_def leaf_nodes_def)
        (simp add: fabric_vtep_def)
  qed
  ultimately show ?thesis by simp
qed

end
