(* ===== verification/Nat44.thy ===== *)
theory Nat44
  imports Node_Editor
begin

text \<open>
  NAT44 in \<open>lib/nat.ts\<close>: source and destination rules, their reads, the pairs of mirrored rules
  that are shown as 1-to-1 mappings, and the diffs.
\<close>

section \<open>Rules\<close>

datatype nat_section = SourceNat | DestinationNat

fun section_str :: "nat_section \<Rightarrow> string" where
  "section_str SourceNat = ''source''"
| "section_str DestinationNat = ''destination''"

record nat_rule =
  nr_rule :: int
  nr_description :: "string option"
  nr_interface :: "string option"
  nr_interface_group :: bool
  nr_source :: "string option"
  nr_source_group :: "string option"
  nr_source_port :: "string option"
  nr_destination :: "string option"
  nr_destination_group :: "string option"
  nr_destination_port :: "string option"
  nr_translation :: "string option"
  nr_translation_port :: "string option"
  nr_protocol :: "string option"
  nr_enabled :: bool

record static_mapping =
  sm_rule :: int
  sm_description :: "string option"
  sm_interface :: "string option"
  sm_internal :: string
  sm_external :: string
  sm_enabled :: bool

record nat44_config =
  n44_source :: "nat_rule list"
  n44_destination :: "nat_rule list"
  n44_static :: "static_mapping list"

record nat_rule_update =
  nu_section :: nat_section
  nu_rule :: int
  nu_description :: "string option"
  nu_interface :: "string option"
  nu_source_address :: "string option"
  nu_source_group :: "string option"
  nu_source_port :: "string option"
  nu_destination_address :: "string option"
  nu_destination_port :: "string option"
  nu_translation_address :: "string option"
  nu_translation_port :: "string option"
  nu_protocol :: "string option"
  nu_enabled :: bool
  nu_original_rule :: "int option"

section \<open>Reading\<close>

text \<open>This module's \<open>childCfg\<close> lets arrays through.\<close>

definition nat_childCfg :: "json \<Rightarrow> string \<Rightarrow> json option" where
  "nat_childCfg v key = (case js_get v key of
       Some (JObj kvs) \<Rightarrow> Some (JObj kvs) | Some (JArr xs) \<Rightarrow> Some (JArr xs) | _ \<Rightarrow> None)"

definition nestedStr :: "json \<Rightarrow> string \<Rightarrow> string \<Rightarrow> string option" where
  "nestedStr v parent child = Option.bind (nat_childCfg v parent) (\<lambda>p. childStr p child)"

definition groupRef :: "json \<Rightarrow> string \<Rightarrow> string option" where
  "groupRef v section = (case nat_childCfg (obj_or_empty (nat_childCfg v section)) ''group'' of
       None \<Rightarrow> None
     | Some g \<Rightarrow> (case obj_entries g of
           (ty, JStr nm) # _ \<Rightarrow> if ty = [] then None else Some (ty @ '' '' @ nm)
         | _ \<Rightarrow> None))"

definition translationOf :: "json \<Rightarrow> string option" where
  "translationOf v = (case nat_childCfg v ''translation'' of
       None \<Rightarrow> None
     | Some t \<Rightarrow> (case childStr t ''address'' of
           Some a \<Rightarrow> Some a
         | None \<Rightarrow> if has_key ''masquerade'' t = Inr True then Some ''masquerade'' else None))"

definition ifaceOf :: "json \<Rightarrow> string \<Rightarrow> string option \<times> bool" where
  "ifaceOf v key = (case js_get v key of
       Some (JStr s) \<Rightarrow> (if trim s = [] then None else Some (trim s), False)
     | Some (JObj kvs) \<Rightarrow> (case childStr (JObj kvs) ''name'' of
           Some n \<Rightarrow> (Some n, False)
         | None \<Rightarrow> (case childStr (JObj kvs) ''group'' of
               Some g \<Rightarrow> (Some g, True) | None \<Rightarrow> (None, False)))
     | _ \<Rightarrow> (None, False))"

definition fetchNatConfig :: "vyos_response \<Rightarrow> read_error + json" where
  "fetchNatConfig resp = config_of_response ''Device returned an error reading NAT.'' resp"

fun NAT_IFACE_KEY :: "nat_section \<Rightarrow> string" where
  "NAT_IFACE_KEY SourceNat = ''outbound-interface''"
| "NAT_IFACE_KEY DestinationNat = ''inbound-interface''"

definition parse_nat_rule :: "nat_section \<Rightarrow> string \<times> json \<Rightarrow> read_error + nat_rule" where
  "parse_nat_rule section e =
     (let cfg = or_empty (snd e); iface = ifaceOf cfg (NAT_IFACE_KEY section) in
      case has_key ''disable'' cfg of Inl err \<Rightarrow> Inl err | Inr disabled \<Rightarrow>
        Inr \<lparr>nr_rule = number_or_zero (fst e), nr_description = childStr cfg ''description'',
          nr_interface = fst iface, nr_interface_group = snd iface,
          nr_source = nestedStr cfg ''source'' ''address'', nr_source_group = groupRef cfg ''source'',
          nr_source_port = nestedStr cfg ''source'' ''port'',
          nr_destination = nestedStr cfg ''destination'' ''address'',
          nr_destination_group = groupRef cfg ''destination'',
          nr_destination_port = nestedStr cfg ''destination'' ''port'',
          nr_translation = translationOf cfg,
          nr_translation_port = nestedStr cfg ''translation'' ''port'',
          nr_protocol = childStr cfg ''protocol'', nr_enabled = (\<not> disabled)\<rparr>)"

definition parseNatRules :: "json \<Rightarrow> nat_section \<Rightarrow> read_error + nat_rule list" where
  "parseNatRules natcfg section =
     (let rules = obj_or_empty (nat_childCfg (obj_or_empty (nat_childCfg natcfg (section_str section))) ''rule'') in
      case map_res (parse_nat_rule section) (obj_entries rules) of
        Inl e \<Rightarrow> Inl e | Inr rs \<Rightarrow> Inr (sort_by (\<lambda>a b. nr_rule a - nr_rule b) rs))"

text \<open>One source rule against the destination rule of its number.\<close>

definition mirror :: "nat_rule list \<Rightarrow> nat_rule \<Rightarrow> static_mapping option" where
  "mirror destination s =
     (case map_of (js_map (map (\<lambda>d. (nr_rule d, d)) destination)) (nr_rule s) of
        None \<Rightarrow> None
      | Some d \<Rightarrow>
          (case (nr_source s, nr_translation s) of
             (Some internal, Some external) \<Rightarrow>
               if internal = [] \<or> external = [] \<or> nr_destination d \<noteq> Some external \<or>
                 nr_translation d \<noteq> Some internal then None
               else Some \<lparr>sm_rule = nr_rule s,
                 sm_description = (case nr_description s of Some x \<Rightarrow> Some x | None \<Rightarrow> nr_description d),
                 sm_interface = (if nr_interface_group s then None else nr_interface s),
                 sm_internal = internal, sm_external = external,
                 sm_enabled = (nr_enabled s \<and> nr_enabled d)\<rparr>
           | _ \<Rightarrow> None))"

definition splitStatic :: "nat_rule list \<Rightarrow> nat_rule list \<Rightarrow> nat44_config" where
  "splitStatic source destination =
     (let static_nat = List.map_filter (mirror destination) source;
          paired = map sm_rule static_nat
      in \<lparr>n44_source = filter (\<lambda>r. nr_rule r \<notin> set paired) source,
          n44_destination = filter (\<lambda>r. nr_rule r \<notin> set paired) destination,
          n44_static = static_nat\<rparr>)"

definition fetchNat44 :: "vyos_response \<Rightarrow> read_error + nat44_config" where
  "fetchNat44 resp = (case fetchNatConfig resp of Inl e \<Rightarrow> Inl e | Inr natcfg \<Rightarrow>
     (case parseNatRules natcfg SourceNat of Inl e \<Rightarrow> Inl e | Inr source \<Rightarrow>
     (case parseNatRules natcfg DestinationNat of Inl e \<Rightarrow> Inl e | Inr destination \<Rightarrow>
       Inr (splitStatic source destination))))"

section \<open>Writing\<close>

definition nat_ruleBase :: "nat_section \<Rightarrow> int \<Rightarrow> path" where
  "nat_ruleBase section rule = [''nat'', section_str section, ''rule'', string_of_int rule]"

definition nat_moved :: "nat_rule_update \<Rightarrow> bool" where
  "nat_moved u \<longleftrightarrow> nu_original_rule u \<noteq> None \<and> nu_original_rule u \<noteq> Some (nu_rule u)"

definition nat_live :: "nat_rule list \<Rightarrow> nat_rule_update \<Rightarrow> nat_rule option" where
  "nat_live existing u = (if nat_moved u then None
     else List.find (\<lambda>r. nr_rule r = nu_rule u) existing)"

definition group_type :: "string \<Rightarrow> string" where
  "group_type g = hd (split_on (CHR '' '') g)"

text \<open>The source match: deletes of the departing form, then sets of the new one.\<close>

definition source_deletes ::
  "path \<Rightarrow> string option \<Rightarrow> string option \<Rightarrow> string option \<Rightarrow> string option \<Rightarrow> vyos_command list" where
  "source_deletes base liveAddr newAddr liveGroup newGroup =
     (if liveAddr \<noteq> None \<and> newAddr = None then [cdel (base @ [''source'', ''address''])] else []) @
     (case liveGroup of
        Some lg \<Rightarrow> if (case newGroup of None \<Rightarrow> True | Some ng \<Rightarrow> group_type ng \<noteq> group_type lg)
          then [cdel (base @ [''source'', ''group''])] else []
      | None \<Rightarrow> [])"

definition source_sets ::
  "path \<Rightarrow> string option \<Rightarrow> string option \<Rightarrow> string option \<Rightarrow> string option \<Rightarrow> vyos_command list" where
  "source_sets base liveAddr newAddr liveGroup newGroup =
     (case newAddr of
        Some a \<Rightarrow> if newAddr \<noteq> liveAddr then [cset (base @ [''source'', ''address'', a])] else []
      | None \<Rightarrow> []) @
     (case newGroup of
        Some g \<Rightarrow> if newGroup \<noteq> liveGroup
          then [cset (base @ [''source'', ''group''] @ split_on (CHR '' '') g)] else []
      | None \<Rightarrow> [])"

definition nat_iface_cmds :: "path \<Rightarrow> string option \<Rightarrow> string option \<Rightarrow> vyos_command list" where
  "nat_iface_cmds base_key liveIface newIface =
     (if newIface \<noteq> liveIface then
        (if liveIface \<noteq> None then [cdel base_key] else []) @
        (case newIface of Some i \<Rightarrow> [cset (base_key @ [''name'', i])] | None \<Rightarrow> [])
      else [])"

definition nat_body :: "nat_rule option \<Rightarrow> nat_rule_update \<Rightarrow> vyos_command list" where
  "nat_body live u =
     (let base = nat_ruleBase (nu_section u) (nu_rule u);
          newSrcAddr = blank_to_none (nu_source_address u);
          newSrcGroup = blank_to_none (nu_source_group u);
          liveSrcAddr = Option.bind live nr_source;
          liveSrcGroup = Option.bind live nr_source_group in
      leaf_cmds (base @ [''description'']) (Option.bind live nr_description) (blank_to_none (nu_description u)) @
      (source_deletes base liveSrcAddr newSrcAddr liveSrcGroup newSrcGroup @
       source_sets base liveSrcAddr newSrcAddr liveSrcGroup newSrcGroup) @
      leaf_cmds (base @ [''source'', ''port'']) (Option.bind live nr_source_port)
        (blank_to_none (nu_source_port u)) @
      leaf_cmds (base @ [''destination'', ''address'']) (Option.bind live nr_destination)
        (blank_to_none (nu_destination_address u)) @
      leaf_cmds (base @ [''destination'', ''port'']) (Option.bind live nr_destination_port)
        (blank_to_none (nu_destination_port u)) @
      leaf_cmds (base @ [''protocol'']) (Option.bind live nr_protocol) (blank_to_none (nu_protocol u)) @
      leaf_cmds (base @ [''translation'', ''address'']) (Option.bind live nr_translation)
        (blank_to_none (nu_translation_address u)) @
      leaf_cmds (base @ [''translation'', ''port'']) (Option.bind live nr_translation_port)
        (blank_to_none (nu_translation_port u)) @
      nat_iface_cmds (base @ [NAT_IFACE_KEY (nu_section u)]) (Option.bind live nr_interface)
        (blank_to_none (nu_interface u)) @
      flag_cmds (base @ [''disable'']) (case live of None \<Rightarrow> False | Some l \<Rightarrow> \<not> nr_enabled l)
        (\<not> nu_enabled u))"

definition diffNatRule :: "nat_rule list \<Rightarrow> nat_rule_update \<Rightarrow> vyos_command list" where
  "diffNatRule existing u =
     (if nat_moved u then [cdel (nat_ruleBase (nu_section u) (the (nu_original_rule u)))] else []) @
     ensureCreated (nat_body (nat_live existing u) u) (nat_ruleBase (nu_section u) (nu_rule u))
       (nat_live existing u = None)"

definition deleteNatRule_cmds :: "nat_section \<Rightarrow> int \<Rightarrow> vyos_command list" where
  "deleteNatRule_cmds section rule = [cdel (nat_ruleBase section rule)]"

section \<open>1-to-1 mappings\<close>

record static_update =
  su_rule :: int
  su_description :: "string option"
  su_interface :: "string option"
  su_internal :: string
  su_external :: string
  su_enabled :: bool
  su_original_rule :: "int option"

definition staticPair :: "static_update \<Rightarrow> nat_rule_update \<times> nat_rule_update" where
  "staticPair u =
     (let common = \<lparr>nu_section = SourceNat, nu_rule = su_rule u, nu_description = su_description u,
            nu_interface = su_interface u, nu_source_address = None, nu_source_group = None,
            nu_source_port = None, nu_destination_address = None, nu_destination_port = None,
            nu_translation_address = None, nu_translation_port = None, nu_protocol = None,
            nu_enabled = su_enabled u, nu_original_rule = su_original_rule u\<rparr>
      in (common\<lparr>nu_section := SourceNat, nu_source_address := Some (su_internal u),
            nu_destination_address := None, nu_translation_address := Some (su_external u)\<rparr>,
          common\<lparr>nu_section := DestinationNat, nu_source_address := None,
            nu_destination_address := Some (su_external u),
            nu_translation_address := Some (su_internal u)\<rparr>))"

definition applyStaticNat_cmds :: "vyos_response \<Rightarrow> static_update \<Rightarrow> read_error + vyos_command list" where
  "applyStaticNat_cmds resp u = (case fetchNatConfig resp of Inl e \<Rightarrow> Inl e | Inr natcfg \<Rightarrow>
     (case parseNatRules natcfg SourceNat of Inl e \<Rightarrow> Inl e | Inr source \<Rightarrow>
     (case parseNatRules natcfg DestinationNat of Inl e \<Rightarrow> Inl e | Inr destination \<Rightarrow>
       Inr (diffNatRule source (fst (staticPair u)) @ diffNatRule destination (snd (staticPair u))))))"

definition deleteStaticNat_cmds :: "int \<Rightarrow> vyos_command list" where
  "deleteStaticNat_cmds rule = [cdel (nat_ruleBase SourceNat rule), cdel (nat_ruleBase DestinationNat rule)]"

section \<open>What the commands do\<close>

text \<open>
  The nodes of a rule that hold one value, and those that hold several: a rule's own node, and the
  node of all rules of a section.
\<close>

definition nat_schema :: "(path \<Rightarrow> bool) \<Rightarrow> bool" where
  "nat_schema single \<longleftrightarrow> (\<forall>section n. let base = nat_ruleBase section n in
     \<not> single base \<and> \<not> single (butlast base) \<and>
     (\<forall>sub \<in> {[''description''], [''source'', ''address''], [''source'', ''port''],
        [''destination'', ''address''], [''destination'', ''port''], [''protocol''],
        [''translation'', ''address''], [''translation'', ''port''],
        [NAT_IFACE_KEY section, ''name'']}. single (base @ sub)) \<and>
     (\<forall>ty. single (base @ [''source'', ''group'', ty])))"

definition two_words :: "string option \<Rightarrow> bool" where
  "two_words g \<longleftrightarrow> (case g of None \<Rightarrow> True | Some s \<Rightarrow> length (split_on (CHR '' '') s) = 2)"

definition nat_group_paths :: "path \<Rightarrow> string option \<Rightarrow> path set" where
  "nat_group_paths p g = (case g of None \<Rightarrow> {} | Some s \<Rightarrow> {p @ split_on (CHR '' '') s})"

text \<open>The leaves of a rule other than its source match and its interface.\<close>

definition nat_leaf_parts ::
  "path \<Rightarrow> string option \<Rightarrow> string option \<Rightarrow> string option \<Rightarrow> string option \<Rightarrow> string option \<Rightarrow>
   string option \<Rightarrow> string option \<Rightarrow> path set" where
  "nat_leaf_parts base sport daddr dport proto taddr tport descr =
     leaf_paths (base @ [''description'']) descr \<union> leaf_paths (base @ [''source'', ''port'']) sport \<union>
     leaf_paths (base @ [''destination'', ''address'']) daddr \<union>
     leaf_paths (base @ [''destination'', ''port'']) dport \<union>
     leaf_paths (base @ [''protocol'']) proto \<union>
     leaf_paths (base @ [''translation'', ''address'']) taddr \<union>
     leaf_paths (base @ [''translation'', ''port'']) tport"

lemma two_words_cases:
  assumes "two_words (Some g)"
  obtains ty nm where "split_on (CHR '' '') g = [ty, nm]" "group_type g = ty"
  using assms by (cases "split_on (CHR '' '') g"; cases "tl (split_on (CHR '' '') g)")
    (auto simp: two_words_def group_type_def)

lemma nat_group_paths_cone: "nat_group_paths p g \<subseteq> cone p"
  by (auto simp: nat_group_paths_def split: option.splits)

lemma edits_source:
  assumes dev: "device_laws dev single" and sa: "single (base @ [''source'', ''address''])"
    and sg: "\<And>ty. single (base @ [''source'', ''group'', ty])"
    and w: "two_words lg" "two_words ng"
  shows "edits dev (cone (base @ [''source'', ''address'']) \<union> cone (base @ [''source'', ''group'']))
    (source_deletes base la na lg ng @ source_sets base la na lg ng)
    (leaf_paths (base @ [''source'', ''address'']) la \<union> nat_group_paths (base @ [''source'', ''group'']) lg)
    (leaf_paths (base @ [''source'', ''address'']) na \<union> nat_group_paths (base @ [''source'', ''group'']) ng)"
proof -
  let ?a = "base @ [''source'', ''address'']" and ?g = "base @ [''source'', ''group'']"
  define stay where "stay = (case (lg, ng) of (Some l, Some n) \<Rightarrow> group_type n = group_type l | _ \<Rightarrow> lg = None)"
  define ma where "ma = (if na = None then None else la)"
  define mg where "mg = (if stay then lg else None)"
  have dis: "cone ?a \<inter> cone ?g = {}" by (simp add: cone_disjoint_iff)
  have a1: "edits dev (cone ?a) (if la \<noteq> None \<and> na = None then [cdel ?a] else []) (leaf_paths ?a la) (leaf_paths ?a ma)"
    using edits_delete [OF dev leaf_paths_cone] edits_nil [OF leaf_paths_cone]
      edits_nil [of "{}" "cone ?a" dev]
    by (cases la; cases na) (simp_all add: ma_def)
  have g1: "edits dev (cone ?g) (case lg of Some l \<Rightarrow>
       if (case ng of None \<Rightarrow> True | Some n \<Rightarrow> group_type n \<noteq> group_type l) then [cdel ?g] else [] | None \<Rightarrow> [])
     (nat_group_paths ?g lg) (nat_group_paths ?g mg)"
  proof (cases stay)
    case True
    then show ?thesis using edits_nil [OF nat_group_paths_cone]
      by (auto simp: stay_def mg_def split: option.splits)
  next
    case False
    then show ?thesis using edits_delete [OF dev nat_group_paths_cone [of ?g lg]]
      by (auto simp: stay_def mg_def nat_group_paths_def split: option.splits)
  qed
  have a2: "edits dev (cone ?a) (case na of Some a \<Rightarrow> if na \<noteq> la then [cset (?a @ [a])] else [] | None \<Rightarrow> [])
      (leaf_paths ?a ma) (leaf_paths ?a na)"
    using edits_leaf [OF dev sa, of ma na] edits_nil [OF leaf_paths_cone [of ?a na]]
    by (cases na; cases "na = la") (auto simp: ma_def leaf_cmds_def)
  have g2: "edits dev (cone ?g) (case ng of Some g \<Rightarrow> if ng \<noteq> lg
        then [cset (?g @ split_on (CHR '' '') g)] else [] | None \<Rightarrow> [])
      (nat_group_paths ?g mg) (nat_group_paths ?g ng)"
  proof (cases ng)
    case None
    then show ?thesis using edits_nil [of "{}" "cone ?g" dev]
      by (auto simp: mg_def stay_def nat_group_paths_def split: option.splits)
  next
    case (Some g)
    then obtain ty nm where n: "split_on (CHR '' '') g = [ty, nm]" "group_type g = ty"
      using w(2) two_words_cases by blast
    have step: "edits dev (cone ?g) [cset (?g @ [ty, nm])] L {?g @ [ty, nm]}"
      if L: "L \<subseteq> cone (?g @ [ty])" for L
    proof (rule editsI)
      have c: "cone (?g @ [ty]) \<subseteq> cone ?g" by (rule cone_append_subset)
      show "L \<subseteq> cone ?g" using L c by (rule order_trans)
      fix R :: "path set" assume "R \<inter> cone ?g = {}"
      then have "R \<union> L - cone (?g @ [ty]) = R" using L c by blast
      then show "run dev [cset (?g @ [ty, nm])] (R \<union> L) = R \<union> {?g @ [ty, nm]}"
        using sg [of ty] by (simp add: dev_set_single [OF dev] butlast_append)
    qed simp
    show ?thesis
    proof (cases "ng = lg")
      case True
      then show ?thesis using Some edits_nil [OF nat_group_paths_cone [of ?g ng]]
        by (auto simp: mg_def stay_def)
    next
      case False
      have "nat_group_paths ?g mg \<subseteq> cone (?g @ [ty])"
      proof (cases mg)
        case None
        then show ?thesis by (simp add: nat_group_paths_def)
      next
        case (Some l)
        then have "lg = Some l" "group_type l = ty" using \<open>ng = Some g\<close> n(2)
          by (auto simp: mg_def stay_def split: if_splits option.splits)
        then obtain nm' where "split_on (CHR '' '') l = [ty, nm']"
          using w(1) two_words_cases [of l] by metis
        with Some show ?thesis by (simp add: nat_group_paths_def)
      qed
      from step [OF this] show ?thesis using Some False n(1) by (simp add: nat_group_paths_def)
    qed
  qed
  show ?thesis
    using edits_seq [OF edits_append [OF a1 g1 dis] edits_append [OF a2 g2 dis]]
    by (simp only: source_deletes_def source_sets_def append_assoc append.simps)
qed

text \<open>
  The part of the configuration that belongs to a rule: the value leaves, the source match, the
  interface node and the disable flag. The interface node is whatever the device has there (the
  name form, the group form or the form of older releases).
\<close>

definition nat_region :: "nat_section \<Rightarrow> path \<Rightarrow> path set" where
  "nat_region section base =
     cone (base @ [''description'']) \<union>
     ((cone (base @ [''source'', ''address'']) \<union> cone (base @ [''source'', ''group''])) \<union>
     (cone (base @ [''source'', ''port'']) \<union> (cone (base @ [''destination'', ''address'']) \<union>
     (cone (base @ [''destination'', ''port'']) \<union> (cone (base @ [''protocol'']) \<union>
     (cone (base @ [''translation'', ''address'']) \<union> (cone (base @ [''translation'', ''port'']) \<union>
     (cone (base @ [NAT_IFACE_KEY section]) \<union> cone (base @ [''disable''])))))))))"

definition nat_paths ::
  "path \<Rightarrow> string option \<Rightarrow> string option \<Rightarrow> string option \<Rightarrow> string option \<Rightarrow> string option \<Rightarrow>
   string option \<Rightarrow> string option \<Rightarrow> string option \<Rightarrow> string option \<Rightarrow> path set \<Rightarrow> bool \<Rightarrow> path set" where
  "nat_paths base descr saddr sgroup sport daddr dport proto taddr tport iface off =
     leaf_paths (base @ [''description'']) descr \<union>
     ((leaf_paths (base @ [''source'', ''address'']) saddr \<union>
       nat_group_paths (base @ [''source'', ''group'']) sgroup) \<union>
     (leaf_paths (base @ [''source'', ''port'']) sport \<union>
     (leaf_paths (base @ [''destination'', ''address'']) daddr \<union>
     (leaf_paths (base @ [''destination'', ''port'']) dport \<union>
     (leaf_paths (base @ [''protocol'']) proto \<union>
     (leaf_paths (base @ [''translation'', ''address'']) taddr \<union>
     (leaf_paths (base @ [''translation'', ''port'']) tport \<union>
     (iface \<union> flag_paths (base @ [''disable'']) off))))))))"

definition nat_live_paths :: "path \<Rightarrow> nat_rule option \<Rightarrow> path set \<Rightarrow> path set" where
  "nat_live_paths base l iface = nat_paths base (Option.bind l nr_description) (Option.bind l nr_source)
     (Option.bind l nr_source_group) (Option.bind l nr_source_port) (Option.bind l nr_destination)
     (Option.bind l nr_destination_port) (Option.bind l nr_protocol) (Option.bind l nr_translation)
     (Option.bind l nr_translation_port) iface (case l of None \<Rightarrow> False | Some r \<Rightarrow> \<not> nr_enabled r)"

definition nat_update_paths :: "path \<Rightarrow> nat_rule_update \<Rightarrow> path set \<Rightarrow> path set" where
  "nat_update_paths base u iface = nat_paths base (blank_to_none (nu_description u))
     (blank_to_none (nu_source_address u)) (blank_to_none (nu_source_group u))
     (blank_to_none (nu_source_port u)) (blank_to_none (nu_destination_address u))
     (blank_to_none (nu_destination_port u)) (blank_to_none (nu_protocol u))
     (blank_to_none (nu_translation_address u)) (blank_to_none (nu_translation_port u))
     iface (\<not> nu_enabled u)"

text \<open>The interface node after the update: untouched when the value is the live one.\<close>

definition nat_iface_after :: "path \<Rightarrow> path set \<Rightarrow> string option \<Rightarrow> string option \<Rightarrow> path set" where
  "nat_iface_after key I live new = (if new = live then I else leaf_paths (key @ [''name'']) new)"

lemma edits_nat_iface:
  assumes dev: "device_laws dev single" and "single (key @ [''name''])"
    and "I \<subseteq> cone key" and "live = None \<Longrightarrow> I = {}"
  shows "edits dev (cone key) (nat_iface_cmds key live new) I (nat_iface_after key I live new)"
proof (cases "new = live")
  case True
  then show ?thesis using assms(3) by (simp add: nat_iface_cmds_def nat_iface_after_def edits_nil)
next
  case False
  have 1: "edits dev (cone key) (if live \<noteq> None then [cdel key] else []) I {}"
    using edits_delete [OF dev assms(3)] assms(4) edits_nil [of "{}" "cone key" dev] by auto
  have 2: "edits dev (cone key) (case new of Some i \<Rightarrow> [cset (key @ [''name'', i])] | None \<Rightarrow> [])
      {} (leaf_paths (key @ [''name'']) new)"
  proof (cases new)
    case None
    then show ?thesis by (simp add: edits_nil)
  next
    case (Some i)
    have "edits dev (cone key) [cset (key @ [''name'', i])] {} {key @ [''name'', i]}"
    proof (rule editsI)
      fix R :: "path set" assume "R \<inter> cone key = {}"
      then have "R - cone (key @ [''name'']) = R" using cone_append_subset [of key "[''name'']"] by blast
      then show "run dev [cset (key @ [''name'', i])] (R \<union> {}) = R \<union> {key @ [''name'', i]}"
        using assms(2) by (simp add: dev_set_single [OF dev] butlast_append)
    qed simp_all
    then show ?thesis using Some by (simp add: leaf_paths_def)
  qed
  from edits_seq [OF 1 2] False show ?thesis by (simp add: nat_iface_cmds_def nat_iface_after_def)
qed

lemma nat_schemaD:
  assumes "nat_schema single" and "base = nat_ruleBase section n"
  shows "\<not> single base" "\<not> single (butlast base)" "single (base @ [''description''])"
    "single (base @ [''source'', ''address''])" "single (base @ [''source'', ''port''])"
    "single (base @ [''destination'', ''address''])" "single (base @ [''destination'', ''port''])"
    "single (base @ [''protocol''])" "single (base @ [''translation'', ''address''])"
    "single (base @ [''translation'', ''port''])" "single (base @ [NAT_IFACE_KEY section, ''name''])"
    "single (base @ [''source'', ''group'', ty])"
  using assms by (simp_all add: nat_schema_def Let_def)

lemma nat_iface_key_neq [simp]:
  "NAT_IFACE_KEY s \<noteq> ''description''" "NAT_IFACE_KEY s \<noteq> ''source''" "NAT_IFACE_KEY s \<noteq> ''destination''"
  "NAT_IFACE_KEY s \<noteq> ''protocol''" "NAT_IFACE_KEY s \<noteq> ''translation''" "NAT_IFACE_KEY s \<noteq> ''disable''"
  "''description'' \<noteq> NAT_IFACE_KEY s" "''source'' \<noteq> NAT_IFACE_KEY s" "''destination'' \<noteq> NAT_IFACE_KEY s"
  "''protocol'' \<noteq> NAT_IFACE_KEY s" "''translation'' \<noteq> NAT_IFACE_KEY s" "''disable'' \<noteq> NAT_IFACE_KEY s"
  by (cases s; simp)+

lemma edits_nat_body:
  assumes dev: "device_laws dev single" and sch: "nat_schema single"
    and base: "base = nat_ruleBase (nu_section u) (nu_rule u)"
    and key: "key = base @ [NAT_IFACE_KEY (nu_section u)]"
    and w: "two_words (Option.bind l nr_source_group)" "two_words (blank_to_none (nu_source_group u))"
    and I: "I \<subseteq> cone key" "Option.bind l nr_interface = None \<Longrightarrow> I = {}"
  shows "edits dev (nat_region (nu_section u) base) (nat_body l u) (nat_live_paths base l I)
    (nat_update_paths base u
      (nat_iface_after key I (Option.bind l nr_interface) (blank_to_none (nu_interface u))))"
proof -
  note s = nat_schemaD [OF sch base]
  have dis: "\<not> single (butlast (base @ [''disable'']))" using s(1) by simp
  have nm: "single (key @ [''name''])" using s(11) by (simp add: key)
  show ?thesis
    unfolding nat_region_def nat_body_def nat_live_paths_def nat_update_paths_def nat_paths_def Let_def
      base [symmetric] key [symmetric]
    by (intro edits_source [OF dev s(4) s(12) w] edits_append edits_leaf [OF dev] s edits_nat_iface [OF dev nm I]
        edits_flag [OF dev dis])
      (simp_all add: cone_simps key)
qed

text \<open>A new rule's commands contain a \<open>set\<close> exactly when the rule has something.\<close>

lemma has_set_leaf_None: "has_set (leaf_cmds p None v) \<longleftrightarrow> v \<noteq> None"
  by (auto simp: has_set_def leaf_cmds_def split: option.splits)

lemma nat_body_new_sets:
  "has_set (nat_body None u) \<longleftrightarrow>
     nat_update_paths base u (nat_iface_after key {} None (blank_to_none (nu_interface u))) \<noteq> {}"
  by (simp add: nat_body_def Let_def has_set_append has_set_leaf_None nat_update_paths_def nat_paths_def)
    (auto simp: has_set_def source_deletes_def source_sets_def nat_iface_cmds_def flag_cmds_def
      nat_group_paths_def nat_iface_after_def split: option.splits)

text \<open>
  C19: applying a NAT rule makes the rule's part of the configuration exactly what the form says
  (an unchanged interface match, whatever its form, is kept), removes the old node on a renumber,
  creates the bare node of an empty new rule, and touches nothing else.
\<close>

theorem diffNatRule_run:
  assumes dev: "device_laws dev single" and sch: "nat_schema single"
    and base: "base = nat_ruleBase (nu_section u) (nu_rule u)"
    and key: "key = base @ [NAT_IFACE_KEY (nu_section u)]"
    and T: "T = (if nat_moved u then S - cone (nat_ruleBase (nu_section u) (the (nu_original_rule u))) else S)"
    and live: "l = nat_live existing u"
    and two: "two_words (Option.bind l nr_source_group)" "two_words (blank_to_none (nu_source_group u))"
    and before: "T \<inter> nat_region (nu_section u) base = nat_live_paths base l (T \<inter> cone key)"
    and bound: "Option.bind l nr_interface = None \<Longrightarrow> T \<inter> cone key = {}"
    and after: "D = nat_update_paths base u
      (nat_iface_after key (T \<inter> cone key) (Option.bind l nr_interface) (blank_to_none (nu_interface u)))"
  shows "run dev (diffNatRule existing u) S =
    (T - nat_region (nu_section u) base) \<union> D \<union> (if l = None \<and> D = {} then {base} else {})"
proof -
  have kill: "run dev (if nat_moved u then [cdel (nat_ruleBase (nu_section u) (the (nu_original_rule u)))] else []) S = T"
    by (simp add: T dev_delete [OF dev])
  have ed: "edits dev (nat_region (nu_section u) base) (nat_body l u) (nat_live_paths base l (T \<inter> cone key)) D"
    unfolding after by (rule edits_nat_body [OF dev sch base key two _ bound]) simp_all
  have new: "nat_live_paths base l (T \<inter> cone key) = {} \<and> (has_set (nat_body l u) \<longleftrightarrow> D \<noteq> {})" if "l = None"
    using bound that nat_body_new_sets [of u base key]
    by (simp add: after nat_live_paths_def nat_paths_def nat_group_paths_def)
  show ?thesis
    unfolding diffNatRule_def live [symmetric] base [symmetric] run_append kill
    by (rule run_ensureCreated [OF dev ed before new nat_schemaD(2) [OF sch base]])
qed

definition nat_move_example :: nat_rule_update where
  "nat_move_example = \<lparr>nu_section = SourceNat, nu_rule = 20, nu_description = Some ''out'',
     nu_interface = Some ''eth0'', nu_source_address = None, nu_source_group = Some ''network-group LAN'',
     nu_source_port = None, nu_destination_address = None, nu_destination_port = None,
     nu_translation_address = Some ''masquerade'', nu_translation_port = None, nu_protocol = None,
     nu_enabled = True, nu_original_rule = Some 10\<rparr>"

definition nat_single :: "path \<Rightarrow> bool" where
  "nat_single p \<longleftrightarrow> length p > 4 \<and> (length p = 6 \<longrightarrow> last p \<noteq> ''group'')"

lemma nat_single_schema: "nat_schema nat_single"
  by (simp add: nat_schema_def nat_single_def nat_ruleBase_def)

lemma diffNatRule_run_witness:
  "run (ref_dev nat_single) (diffNatRule [] nat_move_example)
     {[''nat'', ''source'', ''rule'', ''10'', ''protocol'', ''tcp'']} =
   {[''nat'', ''source'', ''rule'', ''20'', ''description'', ''out''],
    [''nat'', ''source'', ''rule'', ''20'', ''source'', ''group'', ''network-group'', ''LAN''],
    [''nat'', ''source'', ''rule'', ''20'', ''translation'', ''address'', ''masquerade''],
    [''nat'', ''source'', ''rule'', ''20'', ''outbound-interface'', ''name'', ''eth0'']}"
  (is "run _ _ ?S = ?D")
proof -
  have num: "string_of_int 10 = ''10''" "string_of_int 20 = ''20''"
    by code_simp+
  have mv: "nat_moved nat_move_example" and lv: "nat_live [] nat_move_example = None"
    and u: "nu_section nat_move_example = SourceNat" "nu_rule nat_move_example = 20"
      "nu_original_rule nat_move_example = Some 10"
    by (simp_all add: nat_moved_def nat_live_def nat_move_example_def)
  have T: "?S - cone (nat_ruleBase SourceNat 10) = {}"
    by (simp add: nat_ruleBase_def num)
  have D: "nat_update_paths (nat_ruleBase SourceNat 20) nat_move_example
      (nat_iface_after (nat_ruleBase SourceNat 20 @ [''outbound-interface'']) {} None (Some ''eth0'')) = ?D"
    by (simp add: nat_update_paths_def nat_paths_def nat_move_example_def blank_to_none_def trim_def js_space_def
        nat_group_paths_def leaf_paths_def nat_iface_after_def nat_ruleBase_def num insert_commute)
  have two: "two_words (blank_to_none (nu_source_group nat_move_example))"
    by (simp add: nat_move_example_def two_words_def blank_to_none_def trim_def js_space_def)
  have ifc: "blank_to_none (nu_interface nat_move_example) = Some ''eth0''"
    by (simp add: nat_move_example_def blank_to_none_def trim_def js_space_def)
  show ?thesis
    using diffNatRule_run [OF ref_dev_laws nat_single_schema refl refl refl refl, where S = ?S
        and u = nat_move_example and existing = "[]"] T D two
    by (simp add: mv lv u ifc nat_live_paths_def nat_paths_def nat_group_paths_def two_words_def)
qed

section \<open>Pairs shown as 1-to-1 mappings\<close>

definition mirrored :: "nat_rule \<Rightarrow> nat_rule \<Rightarrow> bool" where
  "mirrored s d \<longleftrightarrow> nr_rule s = nr_rule d \<and> nr_source s \<notin> {None, Some []} \<and>
     nr_translation s \<notin> {None, Some []} \<and> nr_destination d = nr_translation s \<and> nr_translation d = nr_source s"

definition mapping_of_pair :: "nat_rule \<Rightarrow> nat_rule \<Rightarrow> static_mapping" where
  "mapping_of_pair s d = \<lparr>sm_rule = nr_rule s,
     sm_description = (case nr_description s of None \<Rightarrow> nr_description d | x \<Rightarrow> x),
     sm_interface = (if nr_interface_group s then None else nr_interface s),
     sm_internal = the (nr_source s), sm_external = the (nr_translation s),
     sm_enabled = (nr_enabled s \<and> nr_enabled d)\<rparr>"

lemma map_of_by_number:
  "distinct (map f ds) \<Longrightarrow> map_of (rev (map (\<lambda>d. (f d, d)) ds)) n = List.find (\<lambda>d. f d = n) ds"
proof (induction ds)
  case (Cons d ds)
  show ?case
  proof (cases "f d = n")
    case True
    have "\<forall>x\<in>set ds. f x \<noteq> n" using Cons.prems True by (metis distinct.simps(2) image_eqI list.simps(9) set_map)
    then have "List.find (\<lambda>d. f d = n) ds = None" by (simp add: find_None_iff)
    with True Cons show ?thesis by (simp add: map_add_def)
  next
    case False
    with Cons show ?thesis by (simp add: map_add_def split: option.splits)
  qed
qed simp

lemma filter_unique:
  "distinct (map f ds) \<Longrightarrow> filter (\<lambda>d. f d = n \<and> P d) ds =
     (case List.find (\<lambda>d. f d = n) ds of None \<Rightarrow> [] | Some d \<Rightarrow> if P d then [d] else [])"
proof (induction ds)
  case (Cons d ds)
  show ?case
  proof (cases "f d = n")
    case True
    have "\<forall>x\<in>set ds. f x \<noteq> n" using Cons.prems True by (metis distinct.simps(2) image_eqI list.simps(9) set_map)
    then have "filter (\<lambda>d. f d = n \<and> P d) ds = []" by (simp add: filter_empty_conv)
    with True show ?thesis by simp
  next
    case False
    with Cons show ?thesis by simp
  qed
qed simp

lemma mirror_filter:
  assumes "distinct (map nr_rule destination)"
  shows "(case mirror destination s of None \<Rightarrow> [] | Some m \<Rightarrow> [m]) =
    map (mapping_of_pair s) (filter (mirrored s) destination)"
proof -
  let ?P = "\<lambda>d. nr_source s \<notin> {None, Some []} \<and> nr_translation s \<notin> {None, Some []} \<and>
    nr_destination d = nr_translation s \<and> nr_translation d = nr_source s"
  have "filter (mirrored s) destination = filter (\<lambda>d. nr_rule d = nr_rule s \<and> ?P d) destination"
    by (rule filter_cong) (auto simp: mirrored_def)
  also have "\<dots> = (case List.find (\<lambda>d. nr_rule d = nr_rule s) destination of None \<Rightarrow> []
      | Some d \<Rightarrow> if ?P d then [d] else [])"
    by (rule filter_unique [OF assms])
  finally show ?thesis
    by (simp add: mirror_def map_of_js_map map_of_by_number [OF assms] mapping_of_pair_def split: option.splits)
qed

lemma map_filter_concat: "List.map_filter f xs = concat (map (\<lambda>x. case f x of None \<Rightarrow> [] | Some y \<Rightarrow> [y]) xs)"
  by (induction xs) (auto simp: map_filter_simps split: option.splits)

lemma splitStatic_split:
  assumes "distinct (map nr_rule source)" and dd: "distinct (map nr_rule destination)"
  shows "splitStatic source destination =
    \<lparr>n44_source = filter (\<lambda>s. filter (mirrored s) destination = []) source,
     n44_destination = filter (\<lambda>d. filter (\<lambda>s. mirrored s d) source = []) destination,
     n44_static = concat (map (\<lambda>s. map (mapping_of_pair s) (filter (mirrored s) destination)) source)\<rparr>"
proof -
  define ms where "ms = List.map_filter (mirror destination) source"
  have ms: "ms = concat (map (\<lambda>s. map (mapping_of_pair s) (filter (mirrored s) destination)) source)"
    unfolding ms_def map_filter_concat mirror_filter [OF dd] ..
  have pair: "n \<in> set (map sm_rule ms) \<longleftrightarrow> (\<exists>s\<in>set source. \<exists>d\<in>set destination. mirrored s d \<and> nr_rule s = n)"
    for n
  proof -
    have "set (map sm_rule ms) = (\<Union>s\<in>set source. (\<lambda>d. nr_rule s) ` {d \<in> set destination. mirrored s d})"
      by (simp add: ms image_UN image_image mapping_of_pair_def)
    then show ?thesis by auto
  qed
  have same: "s \<in> set source \<Longrightarrow> t \<in> set source \<Longrightarrow> nr_rule s = nr_rule t \<Longrightarrow> s = t" for s t
    using assms(1) by (auto simp: distinct_map dest: inj_onD)
  have same': "s \<in> set destination \<Longrightarrow> t \<in> set destination \<Longrightarrow> nr_rule s = nr_rule t \<Longrightarrow> s = t" for s t
    using dd by (auto simp: distinct_map dest: inj_onD)
  have "filter (\<lambda>r. nr_rule r \<notin> set (map sm_rule ms)) source =
      filter (\<lambda>s. filter (mirrored s) destination = []) source"
    by (rule filter_cong) (auto simp: pair filter_empty_conv dest: same simp del: set_map)
  moreover have "filter (\<lambda>r. nr_rule r \<notin> set (map sm_rule ms)) destination =
      filter (\<lambda>d. filter (\<lambda>s. mirrored s d) source = []) destination"
  proof (rule filter_cong [OF refl])
    fix d assume d: "d \<in> set destination"
    have "(\<exists>s\<in>set source. \<exists>e\<in>set destination. mirrored s e \<and> nr_rule s = nr_rule d) \<longleftrightarrow>
        (\<exists>s\<in>set source. mirrored s d)"
      using d same' by (metis mirrored_def)
    then show "nr_rule d \<notin> set (map sm_rule ms) \<longleftrightarrow> filter (\<lambda>s. mirrored s d) source = []"
      unfolding pair by (auto simp: filter_empty_conv)
  qed
  ultimately show ?thesis unfolding splitStatic_def Let_def ms_def [symmetric] by (simp add: ms)
qed

text \<open>
  C21: the split of the NAT rules for display. The 1-to-1 mappings are the mirrored pairs of a
  source and a destination rule of one number, in the order of the source rules; each list keeps
  exactly its rules that are in no such pair, in their order.
\<close>

theorem splitStatic_pairs:
  assumes "distinct (map nr_rule source)" and "distinct (map nr_rule destination)"
  shows "splitStatic source destination =
    \<lparr>n44_source = filter (\<lambda>s. filter (mirrored s) destination = []) source,
     n44_destination = filter (\<lambda>d. filter (\<lambda>s. mirrored s d) source = []) destination,
     n44_static = concat (map (\<lambda>s. map (mapping_of_pair s) (filter (mirrored s) destination)) source)\<rparr>"
  using assms by (rule splitStatic_split)

definition nat_rule_example :: nat_rule where
  "nat_rule_example = \<lparr>nr_rule = 10, nr_description = None, nr_interface = Some ''eth0'',
     nr_interface_group = False, nr_source = Some ''10.0.0.5'', nr_source_group = None,
     nr_source_port = None, nr_destination = None, nr_destination_group = None,
     nr_destination_port = None, nr_translation = Some ''198.51.100.5'', nr_translation_port = None,
     nr_protocol = None, nr_enabled = True\<rparr>"

lemma splitStatic_pairs_witness:
  "n44_static (splitStatic [nat_rule_example, nat_rule_example\<lparr>nr_rule := 20\<rparr>]
     [nat_rule_example\<lparr>nr_source := None, nr_destination := Some ''198.51.100.5'',
        nr_translation := Some ''10.0.0.5''\<rparr>]) =
   [\<lparr>sm_rule = 10, sm_description = None, sm_interface = Some ''eth0'', sm_internal = ''10.0.0.5'',
     sm_external = ''198.51.100.5'', sm_enabled = True\<rparr>]"
  by (subst splitStatic_pairs)
    (simp_all add: nat_rule_example_def mirrored_def mapping_of_pair_def)

section \<open>A saved 1-to-1 mapping is read back\<close>

text \<open>How the device shows the rule that an update describes.\<close>

definition json_leaf :: "string \<Rightarrow> string option \<Rightarrow> (string \<times> json) list" where
  "json_leaf k v = (case v of None \<Rightarrow> [] | Some x \<Rightarrow> [(k, JStr x)])"

definition json_node :: "string \<Rightarrow> (string \<times> json) list \<Rightarrow> (string \<times> json) list" where
  "json_node k es = (if es = [] then [] else [(k, JObj es)])"

definition render_source :: "nat_rule_update \<Rightarrow> (string \<times> json) list" where
  "render_source u = json_leaf ''address'' (blank_to_none (nu_source_address u)) @
     (case blank_to_none (nu_source_group u) of None \<Rightarrow> []
      | Some g \<Rightarrow> [(''group'', JObj [(hd (split_on (CHR '' '') g), JStr (last (split_on (CHR '' '') g)))])]) @
     json_leaf ''port'' (blank_to_none (nu_source_port u))"

definition render_destination :: "nat_rule_update \<Rightarrow> (string \<times> json) list" where
  "render_destination u = json_leaf ''address'' (blank_to_none (nu_destination_address u)) @
     json_leaf ''port'' (blank_to_none (nu_destination_port u))"

definition render_translation :: "nat_rule_update \<Rightarrow> (string \<times> json) list" where
  "render_translation u = json_leaf ''address'' (blank_to_none (nu_translation_address u)) @
     json_leaf ''port'' (blank_to_none (nu_translation_port u))"

definition nat_render :: "nat_rule_update \<Rightarrow> json" where
  "nat_render u = JObj (
     json_leaf ''description'' (blank_to_none (nu_description u)) @
     json_node ''source'' (render_source u) @ json_node ''destination'' (render_destination u) @
     json_node ''translation'' (render_translation u) @
     json_leaf ''protocol'' (blank_to_none (nu_protocol u)) @
     json_node (NAT_IFACE_KEY (nu_section u)) (json_leaf ''name'' (blank_to_none (nu_interface u))) @
     (if nu_enabled u then [] else [(''disable'', JObj [])]))"

definition nat_read_back :: "nat_rule_update \<Rightarrow> nat_rule" where
  "nat_read_back u = \<lparr>nr_rule = nu_rule u, nr_description = blank_to_none (nu_description u),
     nr_interface = blank_to_none (nu_interface u), nr_interface_group = False,
     nr_source = blank_to_none (nu_source_address u), nr_source_group = blank_to_none (nu_source_group u),
     nr_source_port = blank_to_none (nu_source_port u),
     nr_destination = blank_to_none (nu_destination_address u), nr_destination_group = None,
     nr_destination_port = blank_to_none (nu_destination_port u),
     nr_translation = blank_to_none (nu_translation_address u),
     nr_translation_port = blank_to_none (nu_translation_port u),
     nr_protocol = blank_to_none (nu_protocol u), nr_enabled = nu_enabled u\<rparr>"

text \<open>A group reference is a type and a name, both non-empty.\<close>

definition group_words :: "string option \<Rightarrow> bool" where
  "group_words g \<longleftrightarrow> (case g of None \<Rightarrow> True
     | Some s \<Rightarrow> (\<exists>ty nm. s = ty @ CHR '' '' # nm \<and> ty \<noteq> [] \<and> CHR '' '' \<notin> set ty \<and> CHR '' '' \<notin> set nm))"

lemma map_of_json_leaf [simp]: "map_of (json_leaf k v) k' = (if k' = k then map_option JStr v else None)"
  by (auto simp: json_leaf_def split: option.splits)

lemma map_of_json_node [simp]:
  "map_of (json_node k es) k' = (if k' = k \<and> es \<noteq> [] then Some (JObj es) else None)"
  by (auto simp: json_node_def)

lemma fst_json_leaf [simp]: "fst ` set (json_leaf k v) = (if v = None then {} else {k})"
  by (auto simp: json_leaf_def split: option.splits)

lemma fst_json_node [simp]: "fst ` set (json_node k es) = (if es = [] then {} else {k})"
  by (auto simp: json_node_def)

lemma json_leaf_Nil [simp]: "json_leaf k v = [] \<longleftrightarrow> v = None"
  by (auto simp: json_leaf_def split: option.splits)

lemma blank_to_none_Some: "blank_to_none v = Some s \<Longrightarrow> s \<noteq> [] \<and> trim s = s"
  by (auto simp: blank_to_none_def split: option.splits if_splits)

lemma childStr_leaf:
  assumes "js_get v k = map_option JStr (blank_to_none s)"
  shows "childStr v k = blank_to_none s"
  using assms blank_to_none_Some [of s] by (cases "blank_to_none s") (auto simp: childStr_def Let_def)

lemma trim_group_words:
  assumes "group_words (Some g)"
  obtains ty nm where "g = ty @ '' '' @ nm" "ty \<noteq> []" "split_on (CHR '' '') g = [ty, nm]"
  using assms by (auto simp: group_words_def split_on_append_sep split_on_no_sep)

lemma nestedStr_render:
  assumes "js_get v p = (if es = [] then None else Some (JObj es))"
    and "map_of es c = map_option JStr (blank_to_none s)"
  shows "nestedStr v p c = blank_to_none s"
proof -
  have "childStr (JObj es) c = blank_to_none s" by (rule childStr_leaf) (simp add: assms(2))
  then show ?thesis using assms by (auto simp: nestedStr_def nat_childCfg_def)
qed

lemma groupRef_render:
  assumes "group_words g" and es: "map_of es ''group'' = (case g of None \<Rightarrow> None
    | Some x \<Rightarrow> Some (JObj [(hd (split_on (CHR '' '') x), JStr (last (split_on (CHR '' '') x)))]))"
    and src: "js_get v k = (if es = [] then None else Some (JObj es))"
  shows "groupRef v k = g"
proof (cases g)
  case None
  then show ?thesis using es src
    by (simp add: groupRef_def nat_childCfg_def obj_or_empty_def empty_obj_def split: option.splits)
next
  case (Some x)
  then obtain ty nm where x: "x = ty @ '' '' @ nm" "ty \<noteq> []" "split_on (CHR '' '') x = [ty, nm]"
    using assms(1) trim_group_words by blast
  have "es \<noteq> []" using es Some by auto
  then show ?thesis using es src Some x
    by (simp add: groupRef_def nat_childCfg_def obj_or_empty_def)
qed

lemma nat_render_get:
  "js_get (nat_render u) ''description'' = map_option JStr (blank_to_none (nu_description u))"
  "js_get (nat_render u) ''protocol'' = map_option JStr (blank_to_none (nu_protocol u))"
  "js_get (nat_render u) ''source'' = (if render_source u = [] then None else Some (JObj (render_source u)))"
  "js_get (nat_render u) ''destination'' =
     (if render_destination u = [] then None else Some (JObj (render_destination u)))"
  "js_get (nat_render u) ''translation'' =
     (if render_translation u = [] then None else Some (JObj (render_translation u)))"
  "js_get (nat_render u) (NAT_IFACE_KEY (nu_section u)) =
     (case blank_to_none (nu_interface u) of None \<Rightarrow> None | Some i \<Rightarrow> Some (JObj [(''name'', JStr i)]))"
  by (simp_all add: nat_render_def map_add_def split: option.split) (auto simp: json_leaf_def)

lemma render_maps:
  "map_of (render_source u) ''address'' = map_option JStr (blank_to_none (nu_source_address u))"
  "map_of (render_source u) ''port'' = map_option JStr (blank_to_none (nu_source_port u))"
  "map_of (render_source u) ''group'' = (case blank_to_none (nu_source_group u) of None \<Rightarrow> None
     | Some x \<Rightarrow> Some (JObj [(hd (split_on (CHR '' '') x), JStr (last (split_on (CHR '' '') x)))]))"
  "map_of (render_destination u) ''address'' = map_option JStr (blank_to_none (nu_destination_address u))"
  "map_of (render_destination u) ''port'' = map_option JStr (blank_to_none (nu_destination_port u))"
  "map_of (render_destination u) ''group'' = None"
  "map_of (render_translation u) ''address'' = map_option JStr (blank_to_none (nu_translation_address u))"
  "map_of (render_translation u) ''port'' = map_option JStr (blank_to_none (nu_translation_port u))"
  by (simp_all add: render_source_def render_destination_def render_translation_def map_add_def
      split: option.split)

lemma translationOf_render: "translationOf (nat_render u) = blank_to_none (nu_translation_address u)"
proof -
  have "childStr (JObj (render_translation u)) ''address'' = blank_to_none (nu_translation_address u)"
    by (rule childStr_leaf) (simp add: render_maps)
  moreover have "has_key ''masquerade'' (JObj (render_translation u)) = Inr False"
    by (simp add: render_translation_def image_Un)
  ultimately show ?thesis
    by (cases "render_translation u = []")
      (auto simp: translationOf_def nat_childCfg_def nat_render_get render_translation_def split: option.splits)
qed

lemma ifaceOf_render:
  "ifaceOf (nat_render u) (NAT_IFACE_KEY (nu_section u)) = (blank_to_none (nu_interface u), False)"
  using blank_to_none_Some [of "nu_interface u"]
  by (auto simp: ifaceOf_def nat_render_get childStr_def Let_def split: option.split)

lemma parse_nat_render:
  assumes g: "group_words (blank_to_none (nu_source_group u))"
  shows "parse_nat_rule (nu_section u) (string_of_int (nu_rule u), nat_render u) = Inr (nat_read_back u)"
proof -
  let ?v = "nat_render u"
  have dis: "has_key ''disable'' ?v = Inr (\<not> nu_enabled u)"
    by (simp add: nat_render_def image_Un)
  have leaf: "childStr ?v ''description'' = blank_to_none (nu_description u)"
      "childStr ?v ''protocol'' = blank_to_none (nu_protocol u)"
    by (rule childStr_leaf, simp add: nat_render_get)+
  have src: "groupRef ?v ''source'' = blank_to_none (nu_source_group u)"
    by (rule groupRef_render [OF g render_maps(3) nat_render_get(3)])
  have dst: "groupRef ?v ''destination'' = None"
    by (rule groupRef_render [where es = "render_destination u"])
      (simp_all add: group_words_def render_maps nat_render_get)
  have emp: "or_empty ?v = ?v" by (simp add: nat_render_def)
  show ?thesis
    by (simp add: parse_nat_rule_def Let_def emp ifaceOf_render dis leaf src dst translationOf_render nat_read_back_def
        nestedStr_render [OF nat_render_get(3) render_maps(1)] nestedStr_render [OF nat_render_get(3) render_maps(2)]
        nestedStr_render [OF nat_render_get(4) render_maps(4)] nestedStr_render [OF nat_render_get(4) render_maps(5)]
        nestedStr_render [OF nat_render_get(5) render_maps(8)])
qed

text \<open>The reply in which the device shows these source and destination rules.\<close>

definition nat_reply :: "nat_rule_update list \<Rightarrow> nat_rule_update list \<Rightarrow> vyos_response" where
  "nat_reply us vs = \<lparr>resp_success = True, resp_data = Some (JObj (
     json_node ''source'' (json_node ''rule'' (map (\<lambda>u. (string_of_int (nu_rule u), nat_render u)) us)) @
     json_node ''destination'' (json_node ''rule'' (map (\<lambda>u. (string_of_int (nu_rule u), nat_render u)) vs)))),
   resp_error = None\<rparr>"

lemma parse_nat_rules_render:
  assumes "list_all (\<lambda>u. nu_section u = section \<and> group_words (blank_to_none (nu_source_group u))) us"
    and "js_get natcfg (section_str section) =
      (if us = [] then None else Some (JObj [(''rule'', JObj (map (\<lambda>u. (string_of_int (nu_rule u), nat_render u)) us))]))"
  shows "parseNatRules natcfg section = Inr (sort_by (\<lambda>a b. nr_rule a - nr_rule b) (map nat_read_back us))"
proof -
  have "map_res (parse_nat_rule section) (map (\<lambda>u. (string_of_int (nu_rule u), nat_render u)) us) =
      Inr (map nat_read_back us)"
    using assms(1) by (induction us) (auto simp: parse_nat_render)
  then show ?thesis using assms(2)
    by (cases "us = []")
      (simp_all add: parseNatRules_def nat_childCfg_def obj_or_empty_def empty_obj_def Let_def)
qed

lemma fetchNat44_render:
  assumes "list_all (\<lambda>u. nu_section u = SourceNat \<and> group_words (blank_to_none (nu_source_group u))) us"
    and "list_all (\<lambda>u. nu_section u = DestinationNat \<and> group_words (blank_to_none (nu_source_group u))) vs"
  shows "fetchNat44 (nat_reply us vs) =
    Inr (splitStatic (sort_by (\<lambda>a b. nr_rule a - nr_rule b) (map nat_read_back us))
      (sort_by (\<lambda>a b. nr_rule a - nr_rule b) (map nat_read_back vs)))"
proof -
  let ?c = "the (resp_data (nat_reply us vs))"
  have "fetchNatConfig (nat_reply us vs) = Inr ?c"
    by (simp add: fetchNatConfig_def config_of_response_def nat_reply_def)
  moreover have "parseNatRules ?c SourceNat = Inr (sort_by (\<lambda>a b. nr_rule a - nr_rule b) (map nat_read_back us))"
    by (rule parse_nat_rules_render [OF assms(1)]) (simp add: nat_reply_def json_node_def)
  moreover have "parseNatRules ?c DestinationNat = Inr (sort_by (\<lambda>a b. nr_rule a - nr_rule b) (map nat_read_back vs))"
    by (rule parse_nat_rules_render [OF assms(2)]) (simp add: nat_reply_def json_node_def)
  ultimately show ?thesis by (simp add: fetchNat44_def)
qed

text \<open>
  C20: a 1-to-1 mapping survives the round trip. When the device shows the two rules that
  \<open>staticPair\<close> writes, beside any other rules of other numbers, reading the NAT configuration
  gives the mapping back with its fields trimmed, and neither rule is left in the plain lists.
\<close>

theorem static_roundtrip:
  assumes pair: "fst (staticPair u) \<in> set us" "snd (staticPair u) \<in> set vs"
    and numbers: "distinct (map nu_rule us)" "distinct (map nu_rule vs)"
    and sections: "list_all (\<lambda>r. nu_section r = SourceNat \<and> group_words (blank_to_none (nu_source_group r))) us"
      "list_all (\<lambda>r. nu_section r = DestinationNat \<and> group_words (blank_to_none (nu_source_group r))) vs"
    and filled: "trim (su_internal u) \<noteq> []" "trim (su_external u) \<noteq> []"
  shows "\<exists>c. fetchNat44 (nat_reply us vs) = Inr c \<and>
    \<lparr>sm_rule = su_rule u, sm_description = blank_to_none (su_description u),
      sm_interface = blank_to_none (su_interface u), sm_internal = trim (su_internal u),
      sm_external = trim (su_external u), sm_enabled = su_enabled u\<rparr> \<in> set (n44_static c) \<and>
    su_rule u \<notin> nr_rule ` (set (n44_source c) \<union> set (n44_destination c))"
proof -
  let ?sort = "sort_by (\<lambda>a b. nr_rule a - nr_rule b)"
  let ?src = "?sort (map nat_read_back us)" and ?dst = "?sort (map nat_read_back vs)"
  let ?s = "nat_read_back (fst (staticPair u))" and ?d = "nat_read_back (snd (staticPair u))"
  have num: "nr_rule (nat_read_back r) = nu_rule r" for r by (simp add: nat_read_back_def)
  have dist: "distinct (map nr_rule ?src)" "distinct (map nr_rule ?dst)"
  proof -
    have "mset (map nr_rule (?sort (map nat_read_back rs))) = mset (map nu_rule rs)" for rs
      by (simp add: num multiset.map_comp comp_def)
    then show "distinct (map nr_rule ?src)" "distinct (map nr_rule ?dst)"
      using numbers by (metis mset_eq_imp_distinct_iff)+
  qed
  have mem: "?s \<in> set ?src" "?d \<in> set ?dst" using pair by simp_all
  have mir: "mirrored ?s ?d" and map: "mapping_of_pair ?s ?d =
      \<lparr>sm_rule = su_rule u, sm_description = blank_to_none (su_description u),
        sm_interface = blank_to_none (su_interface u), sm_internal = trim (su_internal u),
        sm_external = trim (su_external u), sm_enabled = su_enabled u\<rparr>"
    and n: "nr_rule ?s = su_rule u" "nr_rule ?d = su_rule u"
    using filled by (simp_all add: mirrored_def mapping_of_pair_def nat_read_back_def staticPair_def
        blank_to_none_def split: option.split)
  have uniq: "x \<in> set ?src \<Longrightarrow> nr_rule x = su_rule u \<Longrightarrow> x = ?s"
    "x \<in> set ?dst \<Longrightarrow> nr_rule x = su_rule u \<Longrightarrow> x = ?d" for x
    using dist mem n by (metis distinct_map inj_onD)+
  let ?c = "splitStatic ?src ?dst"
  note c = splitStatic_split [OF dist]
  have "mapping_of_pair ?s ?d \<in> set (n44_static ?c)" 
    unfolding c using mem mir by (simp del: set_sort_by) (rule bexI [OF _ mem(1)], rule imageI, simp)
  moreover have "\<forall>x \<in> set (n44_source ?c). nr_rule x \<noteq> su_rule u"
    using uniq(1) mem mir by (auto simp: c filter_empty_conv simp del: set_sort_by)
  moreover have "\<forall>x \<in> set (n44_destination ?c). nr_rule x \<noteq> su_rule u"
    using uniq(2) mem mir by (auto simp: c filter_empty_conv simp del: set_sort_by)
  moreover have "fetchNat44 (nat_reply us vs) = Inr ?c" by (rule fetchNat44_render [OF sections])
  ultimately show ?thesis unfolding map by (intro exI [of _ ?c]) (force simp del: set_sort_by)
qed

definition static_example :: static_update where
  "static_example = \<lparr>su_rule = 10, su_description = None, su_interface = Some ''eth0'',
     su_internal = ''10.0.0.5 '', su_external = ''198.51.100.5'', su_enabled = True, su_original_rule = None\<rparr>"

lemma static_roundtrip_witness:
  "\<exists>c. fetchNat44 (nat_reply [nat_move_example, fst (staticPair static_example)]
       [snd (staticPair static_example)]) = Inr c \<and>
    \<lparr>sm_rule = 10, sm_description = None, sm_interface = Some ''eth0'', sm_internal = ''10.0.0.5'',
      sm_external = ''198.51.100.5'', sm_enabled = True\<rparr> \<in> set (n44_static c) \<and>
    10 \<notin> nr_rule ` (set (n44_source c) \<union> set (n44_destination c))"
proof -
  have g: "group_words (Some ''network-group LAN'')"
    unfolding group_words_def by (simp, rule exI [of _ "''network-group''"], rule exI [of _ "''LAN''"], simp)
  have t: "trim ''network-group LAN'' = ''network-group LAN''" "trim ''10.0.0.5 '' = ''10.0.0.5''"
    "trim ''198.51.100.5'' = ''198.51.100.5''" "trim ''eth0'' = ''eth0''"
    by (simp_all add: trim_def js_space_def)
  show ?thesis
    using static_roundtrip [where u = static_example
        and us = "[nat_move_example, fst (staticPair static_example)]" and vs = "[snd (staticPair static_example)]"] g
    by (simp add: static_example_def nat_move_example_def staticPair_def blank_to_none_def t group_words_def)
qed

end
