(* ===== verification/Boot_Save.thy ===== *)
theory Boot_Save
  imports Prelude
begin

text \<open>
  The background save of the boot configuration in \<open>lib/bootSave.ts\<close>: the module state, what a
  request and the end of a save request do to it, and a step relation that interleaves them with
  the commits of the application and with the device that takes a snapshot of its running
  configuration at some moment of each save request.
\<close>

section \<open>The module\<close>

datatype boot_save_state = SaveIdle | SaveSaving | SaveError string

record boot_save =
  bs_state :: boot_save_state
  bs_pending :: bool
  bs_running :: bool

definition boot_save_init :: boot_save where
  "boot_save_init = \<lparr>bs_state = SaveIdle, bs_pending = False, bs_running = False\<rparr>"

text \<open>
  How the awaited request ends: a reply with its \<open>success\<close> and \<open>error\<close> fields, or an
  exception, which may carry a message.
\<close>

datatype save_outcome = SaveReply bool "string option" | SaveThrown "string option"

fun save_error :: "save_outcome \<Rightarrow> string option" where
  "save_error (SaveReply success err) = (if success then None
     else Some (case err of None \<Rightarrow> ''unknown error'' | Some e \<Rightarrow> e))"
| "save_error (SaveThrown msg) = Some (case msg of None \<Rightarrow> ''unknown error'' | Some m \<Rightarrow> m)"

text \<open>
  The two pieces of \<open>run\<close> between its awaits. Each gives the new state and whether a save
  request leaves.
\<close>

definition run_start :: "boot_save \<Rightarrow> boot_save \<times> bool" where
  "run_start s = (s\<lparr>bs_state := SaveSaving, bs_pending := False\<rparr>, True)"

definition run_resume :: "save_outcome \<Rightarrow> boot_save \<Rightarrow> boot_save \<times> bool" where
  "run_resume outcome s =
     (if bs_pending s then (s\<lparr>bs_pending := False\<rparr>, True)
      else (s\<lparr>bs_running := False,
          bs_state := (case save_error outcome of
              Some e \<Rightarrow> SaveError (''Saving to boot config failed: '' @ e) | None \<Rightarrow> SaveIdle)\<rparr>, False))"

definition scheduleBootSave :: "boot_save \<Rightarrow> boot_save \<times> bool" where
  "scheduleBootSave s =
     (if bs_running s then (s\<lparr>bs_pending := True\<rparr>, False) else run_start (s\<lparr>bs_running := True\<rparr>))"

definition retryBootSave :: "boot_save \<Rightarrow> boot_save \<times> bool" where
  "retryBootSave s = scheduleBootSave s"

section \<open>The module among commits and the device\<close>

text \<open>
  \<open>bw_live\<close> is the version of the running configuration, \<open>bw_boot\<close> the version in the boot
  configuration, \<open>bw_asked\<close> the newest version whose commit has called \<open>scheduleBootSave\<close>.
  \<open>bw_request\<close> is the save request under way, with the version the device took for it once it
  has.
\<close>

record boot_world =
  bw_mod :: boot_save
  bw_live :: nat
  bw_boot :: nat
  bw_asked :: nat
  bw_request :: "nat option option"

definition boot_world_init :: "nat \<Rightarrow> boot_world" where
  "boot_world_init v = \<lparr>bw_mod = boot_save_init, bw_live = v, bw_boot = v, bw_asked = v, bw_request = None\<rparr>"

text \<open>The world after a piece of module code: the request it sends, if any.\<close>

definition send :: "boot_save \<times> bool \<Rightarrow> boot_world \<Rightarrow> boot_world" where
  "send r w = (if snd r then w\<lparr>bw_mod := fst r, bw_request := Some None\<rparr> else w\<lparr>bw_mod := fst r\<rparr>)"

inductive boot_step :: "boot_world \<Rightarrow> boot_world \<Rightarrow> bool" where
  commit: "boot_step w (w\<lparr>bw_live := Suc (bw_live w)\<rparr>)"
| schedule: "boot_step w (send (scheduleBootSave (bw_mod w)) (w\<lparr>bw_asked := bw_live w\<rparr>))"
| retry: "boot_step w (send (retryBootSave (bw_mod w)) w)"
| snapshot: "bw_request w = Some None \<Longrightarrow>
    boot_step w (w\<lparr>bw_request := Some (Some (bw_live w)), bw_boot := bw_live w\<rparr>)"
| reply: "bw_request w = Some taken \<Longrightarrow> save_error outcome = None \<longrightarrow> taken \<noteq> None \<Longrightarrow>
    boot_step w (send (run_resume outcome (bw_mod w)) (w\<lparr>bw_request := None\<rparr>))"

inductive boot_reach :: "nat \<Rightarrow> boot_world \<Rightarrow> bool" for v where
  start: "boot_reach v (boot_world_init v)"
| step: "boot_reach v w \<Longrightarrow> boot_step w w' \<Longrightarrow> boot_reach v w'"

inductive_cases boot_stepE: "boot_step w w'"

text \<open>
  The invariant: a request is under way exactly while the module runs; whatever was asked for is
  in the boot configuration unless a save is still to come or the last one failed.
\<close>

definition boot_inv :: "boot_world \<Rightarrow> bool" where
  "boot_inv w \<longleftrightarrow>
     bw_asked w \<le> bw_live w \<and>
     (bs_running (bw_mod w) \<longleftrightarrow> bw_request w \<noteq> None) \<and>
     (bs_running (bw_mod w) \<longleftrightarrow> bs_state (bw_mod w) = SaveSaving) \<and>
     (bs_pending (bw_mod w) \<longrightarrow> bs_running (bw_mod w)) \<and>
     (\<forall>t. bw_request w = Some (Some t) \<longrightarrow> t \<le> bw_boot w \<and> (bs_pending (bw_mod w) \<or> bw_asked w \<le> t)) \<and>
     (bs_state (bw_mod w) = SaveIdle \<longrightarrow> bw_asked w \<le> bw_boot w) \<and>
     bw_boot w \<le> bw_live w"

lemmas boot_defs = send_def scheduleBootSave_def retryBootSave_def run_start_def run_resume_def

lemma boot_inv_init: "boot_inv (boot_world_init v)"
  by (simp add: boot_inv_def boot_world_init_def boot_save_init_def)

lemma boot_inv_step: "boot_step w w' \<Longrightarrow> boot_inv w \<Longrightarrow> boot_inv w'"
proof (induction rule: boot_step.induct)
  case (reply w taken outcome)
  then show ?case
    by (cases "save_error outcome"; cases taken) (auto simp: boot_inv_def boot_defs)
qed (auto simp: boot_inv_def boot_defs)

lemma boot_inv_reach: "boot_reach v w \<Longrightarrow> boot_inv w"
  by (induction rule: boot_reach.induct) (auto intro: boot_inv_init boot_inv_step)

text \<open>
  C22: a save that was asked for is not lost. In every reachable state in which the indicator
  shows neither a running save nor an error, the boot configuration holds at least the newest
  version whose commit asked for a save, however requests, commits and replies interleaved.
\<close>

theorem boot_save_persists:
  assumes "boot_reach v w" and "bs_state (bw_mod w) = SaveIdle"
  shows "bw_asked w \<le> bw_boot w \<and> bw_boot w \<le> bw_live w \<and> bw_request w = None"
  using boot_inv_reach [OF assms(1)] assms(2) by (auto simp: boot_inv_def)

text \<open>A run in which a commit lands while the first save is under way.\<close>

definition overlapping_saves :: boot_world where
  "overlapping_saves = \<lparr>bw_mod = boot_save_init, bw_live = 2, bw_boot = 2, bw_asked = 2, bw_request = None\<rparr>"

lemma overlapping_saves_reach: "boot_reach 0 overlapping_saves"
proof -
  define busy where "busy = \<lparr>bs_state = SaveSaving, bs_pending = False, bs_running = True\<rparr>"
  define w where "w m l b a r = \<lparr>bw_mod = m, bw_live = l, bw_boot = b, bw_asked = a, bw_request = r\<rparr>"
    for m and l b a :: nat and r
  have "boot_reach 0 (w boot_save_init 0 0 0 None)"
    using boot_reach.start [of 0] by (simp add: w_def boot_world_init_def)
  from boot_reach.step [OF this boot_step.commit] have "boot_reach 0 (w boot_save_init 1 0 0 None)"
    by (simp add: w_def)
  from boot_reach.step [OF this boot_step.schedule] have "boot_reach 0 (w busy 1 0 1 (Some None))"
    by (simp add: w_def boot_defs boot_save_init_def busy_def)
  from boot_reach.step [OF this boot_step.snapshot] have "boot_reach 0 (w busy 1 1 1 (Some (Some 1)))"
    by (simp add: w_def)
  from boot_reach.step [OF this boot_step.commit] have "boot_reach 0 (w busy 2 1 1 (Some (Some 1)))"
    by (simp add: w_def numeral_2_eq_2)
  from boot_reach.step [OF this boot_step.schedule]
  have "boot_reach 0 (w (busy\<lparr>bs_pending := True\<rparr>) 2 1 2 (Some (Some 1)))"
    by (simp add: w_def boot_defs busy_def)
  from boot_reach.step [OF this boot_step.reply [of _ "Some 1" "SaveReply True None"]]
  have "boot_reach 0 (w busy 2 1 2 (Some None))"
    by (simp add: w_def boot_defs busy_def)
  from boot_reach.step [OF this boot_step.snapshot] have "boot_reach 0 (w busy 2 2 2 (Some (Some 2)))"
    by (simp add: w_def)
  from boot_reach.step [OF this boot_step.reply [of _ "Some 2" "SaveReply True None"]]
  show ?thesis by (simp add: w_def boot_defs busy_def overlapping_saves_def boot_save_init_def)
qed

lemma boot_save_persists_witness: "bw_asked overlapping_saves \<le> bw_boot overlapping_saves"
  using boot_save_persists [OF overlapping_saves_reach]
  by (simp add: overlapping_saves_def boot_save_init_def)

section \<open>A run of saves ends\<close>

text \<open>The module while replies arrive and nothing new is asked for.\<close>

fun drain :: "save_outcome list \<Rightarrow> boot_save \<Rightarrow> boot_save" where
  "drain [] s = s"
| "drain (r # rs) s = (let (s', again) = run_resume r s in if again then drain rs s' else s')"



end
