(* ===== verification/Guard.thy ===== *)
theory Guard
  imports Vyos_Config
begin

text \<open>
  Commit-confirm in the browser (\<open>lib/guard.ts\<close>): the module state behind the banner, the
  asynchronous operations that change it, each split at its awaits, and a step relation in which
  any number of them interleave with the user and with the replies of the backend.
\<close>

section \<open>The module state\<close>

record pending_change =
  pc_id :: string
  pc_description :: string
  pc_expires_at :: int
  pc_timeout_secs :: int

record pending_wire =
  pw_id :: string
  pw_description :: string
  pw_remaining_secs :: int
  pw_timeout_secs :: int

datatype last_kind = LastConfirmed | LastReverted | LastRevertFailed

record last_outcome =
  lo_outcome :: last_kind
  lo_description :: string
  lo_error :: "string option"
  lo_ago_secs :: "int option"

datatype guard_busy = BusyConfirm | BusyRevert

text \<open>
  The resolver that the lockout state carries is the number of the apply that waits for it.
\<close>

datatype guard_state =
    GIdle
  | GPending pending_change "guard_busy option" "string option"
  | GLockout "string list" nat
  | GReverted string
  | GRevertFailed string string

text \<open>\<open>expiryTimer\<close> is kept as the time at which it fires.\<close>

record guard_mod =
  gm_state :: guard_state
  gm_timer :: "int option"

definition guard_init :: guard_mod where
  "guard_init = \<lparr>gm_state = GIdle, gm_timer = None\<rparr>"

definition fromWire :: "int \<Rightarrow> pending_wire \<Rightarrow> pending_change" where
  "fromWire now p = \<lparr>pc_id = pw_id p, pc_description = pw_description p,
     pc_expires_at = now + pw_remaining_secs p * 1000, pc_timeout_secs = pw_timeout_secs p\<rparr>"

text \<open>The timer's delay counts from the same moment.\<close>

definition registerPending :: "int \<Rightarrow> pending_wire \<Rightarrow> guard_mod \<Rightarrow> guard_mod" where
  "registerPending now wire m = (let p = fromWire now wire in
     m\<lparr>gm_state := GPending p None None, gm_timer := Some (now + (pc_expires_at p - now + 1500))\<rparr>)"

section \<open>Asking the backend\<close>

text \<open>What follows the reply of \<open>/guard/pending\<close>; \<open>None\<close> is a failed request.\<close>

type_synonym pending_body = "pending_wire option \<times> last_outcome option"

definition recent_outcome :: "last_outcome option \<Rightarrow> bool" where
  "recent_outcome last_out = (case last_out of None \<Rightarrow> False
     | Some l \<Rightarrow> (case lo_ago_secs l of None \<Rightarrow> False | Some a \<Rightarrow> a \<le> 300))"

definition sync_resume :: "int \<Rightarrow> pending_body option \<Rightarrow> guard_mod \<Rightarrow> guard_mod" where
  "sync_resume now body m = (case body of
     None \<Rightarrow> m
   | Some (wire, last_out) \<Rightarrow>
      (case gm_state m of
         GLockout _ _ \<Rightarrow> m
       | st \<Rightarrow>
          (case wire of
             Some p \<Rightarrow> (case st of GPending _ (Some _) _ \<Rightarrow> m | _ \<Rightarrow> registerPending now p m)
           | None \<Rightarrow>
              (let wasCountingDown = (case st of GPending _ _ _ \<Rightarrow> True | _ \<Rightarrow> False) in
               if wasCountingDown \<or> (st = GIdle \<and> recent_outcome last_out) then
                 (case last_out of
                    Some l \<Rightarrow>
                      (case lo_outcome l of
                         LastReverted \<Rightarrow> m\<lparr>gm_state := GReverted (lo_description l)\<rparr>
                       | LastRevertFailed \<Rightarrow> m\<lparr>gm_state := GRevertFailed (lo_description l)
                           (case lo_error l of None \<Rightarrow> ''unknown error'' | Some e \<Rightarrow> e)\<rparr>
                       | LastConfirmed \<Rightarrow> if wasCountingDown then m\<lparr>gm_state := GIdle\<rparr> else m)
                  | None \<Rightarrow> if wasCountingDown then m\<lparr>gm_state := GIdle\<rparr> else m)
               else m))))"

section \<open>Confirm, revert, dismiss\<close>

text \<open>
  The pieces before the await give the pending change that the request is about, or nothing when
  the click returns at once. A reply is the body, or the message of the exception.
\<close>

definition confirm_start :: "guard_mod \<Rightarrow> (guard_mod \<times> pending_change) option" where
  "confirm_start m = (case gm_state m of
     GPending p _ _ \<Rightarrow> Some (m\<lparr>gm_state := GPending p (Some BusyConfirm) None\<rparr>, p) | _ \<Rightarrow> None)"

definition revert_start :: "guard_mod \<Rightarrow> (guard_mod \<times> pending_change) option" where
  "revert_start m = (case gm_state m of
     GPending p _ _ \<Rightarrow> Some (m\<lparr>gm_state := GPending p (Some BusyRevert) None\<rparr>, p) | _ \<Rightarrow> None)"

datatype confirm_reply = ConfirmReply bool "string option" | ConfirmThrown "string option"

definition not_saved_message :: "string option \<Rightarrow> string" where
  "not_saved_message err =
     ''The change is confirmed and live, but saving it to the boot config failed: '' @
     (case err of None \<Rightarrow> ''unknown error'' | Some e \<Rightarrow> e) @
     ''. It will not survive a reboot until a later save succeeds.''"

text \<open>Each gives the new state and whether \<open>syncPending\<close> is started.\<close>

fun confirm_resume :: "pending_change \<Rightarrow> confirm_reply \<Rightarrow> guard_mod \<Rightarrow> guard_mod \<times> bool" where
  "confirm_resume p (ConfirmReply boot_saved err) m =
     (if \<not> boot_saved then (m\<lparr>gm_state := GRevertFailed (pc_description p) (not_saved_message err)\<rparr>, False)
      else (m\<lparr>gm_state := GIdle\<rparr>, False))"
| "confirm_resume p (ConfirmThrown msg) m =
     (m\<lparr>gm_state := GPending p None (Some (case msg of None \<Rightarrow> ''Confirm failed.'' | Some e \<Rightarrow> e))\<rparr>, True)"

datatype revert_reply = RevertReply | RevertThrown "string option"

fun revert_resume :: "pending_change \<Rightarrow> revert_reply \<Rightarrow> guard_mod \<Rightarrow> guard_mod \<times> bool" where
  "revert_resume p RevertReply m = (m\<lparr>gm_state := GReverted (pc_description p)\<rparr>, False)"
| "revert_resume p (RevertThrown msg) m =
     (m\<lparr>gm_state := GPending p None (Some (case msg of None \<Rightarrow> ''Revert failed.'' | Some e \<Rightarrow> e))\<rparr>, True)"

definition dismissGuardNotice :: "guard_mod \<Rightarrow> guard_mod" where
  "dismissGuardNotice m = (case gm_state m of
     GReverted _ \<Rightarrow> m\<lparr>gm_state := GIdle\<rparr> | GRevertFailed _ _ \<Rightarrow> m\<lparr>gm_state := GIdle\<rparr> | _ \<Rightarrow> m)"

section \<open>The guarded apply\<close>

text \<open>
  The replies of \<open>/guard/apply\<close>: the pending change, a status that is not in the 200s with the
  \<open>lockout\<close> and \<open>error\<close> fields its body has, or an exception.
\<close>

datatype apply_reply =
    ApplyOk pending_wire
  | ApplyRefused int "string list option" "string option"
  | ApplyThrown string

datatype commit_result = Returned nat | Threw string

text \<open>What a call waits for, and what the outside sees of it.\<close>

datatype guard_task =
    AwaitSync
  | AwaitConfirm pending_change
  | AwaitRevert pending_change
  | AwaitApply nat "vyos_command list" string bool
  | AwaitAnswer nat "vyos_command list" string

datatype guard_event =
    Sent nat "vyos_command list" bool
  | Answered nat bool
  | Finished nat commit_result

datatype guard_reply =
    RSync "pending_body option"
  | RConfirm confirm_reply
  | RRevert revert_reply
  | RApply apply_reply
  | RAnswer bool

definition or_message :: "string option \<Rightarrow> string \<Rightarrow> string" where
  "or_message err msg = (case err of None \<Rightarrow> msg | Some e \<Rightarrow> if e = [] then msg else e)"

fun apply_done :: "int \<Rightarrow> nat \<Rightarrow> vyos_command list \<Rightarrow> apply_reply \<Rightarrow> guard_mod
    \<Rightarrow> guard_mod \<times> guard_task list \<times> guard_event list" where
  "apply_done now n cs (ApplyOk wire) m = (registerPending now wire m, [], [Finished n (Returned (length cs))])"
| "apply_done now n cs (ApplyRefused status reasons err) m =
     (m, [], [Finished n (Threw (or_message err (''Request failed ('' @ string_of_int status @ '')'')))])"
| "apply_done now n cs (ApplyThrown msg) m = (m, [], [Finished n (Threw msg)])"

fun apply_resume :: "int \<Rightarrow> nat \<Rightarrow> vyos_command list \<Rightarrow> string \<Rightarrow> bool \<Rightarrow> apply_reply \<Rightarrow> guard_mod
    \<Rightarrow> guard_mod \<times> guard_task list \<times> guard_event list" where
  "apply_resume now n cs d override (ApplyRefused status reasons err) m =
     (if \<not> override \<and> status = 409 then
        (case reasons of
           Some (r # rs) \<Rightarrow> (m\<lparr>gm_state := GLockout (r # rs) n\<rparr>, [AwaitAnswer n cs d], [])
         | _ \<Rightarrow> (m, [], [Finished n (Threw (or_message err ''Another change is awaiting confirmation.''))]))
      else apply_done now n cs (ApplyRefused status reasons err) m)"
| "apply_resume now n cs d override r m = apply_done now n cs r m"

text \<open>The dash of the message is longer in the source.\<close>

definition cancelled_message :: string where
  "cancelled_message = ''Cancelled - the change would have cut off management access.''"

fun answer_resume :: "nat \<Rightarrow> vyos_command list \<Rightarrow> string \<Rightarrow> bool \<Rightarrow> guard_mod
    \<Rightarrow> guard_mod \<times> guard_task list \<times> guard_event list" where
  "answer_resume n cs d proceed m =
     (if proceed then (m\<lparr>gm_state := GIdle\<rparr>, [AwaitApply n cs d True], [Answered n True, Sent n cs True])
      else (m\<lparr>gm_state := GIdle\<rparr>, [], [Answered n False, Finished n (Threw cancelled_message)]))"

text \<open>\<open>guardedCommitAndSave\<close> up to its first await.\<close>

definition guardedCommitAndSave :: "nat \<Rightarrow> vyos_command list \<Rightarrow> string \<Rightarrow> guard_task list \<times> guard_event list" where
  "guardedCommitAndSave n cs d =
     (if cs = [] then ([], [Finished n (Returned 0)]) else ([AwaitApply n cs d False], [Sent n cs False]))"

section \<open>All of it together\<close>

text \<open>
  One reply reaching one waiting call: the new module state, the calls that wait afterwards and
  the events. A reply of the wrong kind reaches nothing, and the lockout question can be answered
  only while the dialog on display is the one of the waiting apply.
\<close>

definition sync_tasks :: "bool \<Rightarrow> guard_task list" where
  "sync_tasks b = (if b then [AwaitSync] else [])"

fun resume :: "int \<Rightarrow> guard_task \<Rightarrow> guard_reply \<Rightarrow> guard_mod
    \<Rightarrow> (guard_mod \<times> guard_task list \<times> guard_event list) option" where
  "resume now AwaitSync (RSync body) m = Some (sync_resume now body m, [], [])"
| "resume now (AwaitConfirm p) (RConfirm r) m =
     (let (m', again) = confirm_resume p r m in Some (m', sync_tasks again, []))"
| "resume now (AwaitRevert p) (RRevert r) m =
     (let (m', again) = revert_resume p r m in Some (m', sync_tasks again, []))"
| "resume now (AwaitApply n cs d override) (RApply r) m = Some (apply_resume now n cs d override r m)"
| "resume now (AwaitAnswer n cs d) (RAnswer proceed) m =
     (case gm_state m of GLockout _ k \<Rightarrow> if k = n then Some (answer_resume n cs d proceed m) else None
      | _ \<Rightarrow> None)"
| "resume now _ _ m = None"

text \<open>What the user, a timer or another module starts.\<close>

datatype guard_action =
    DoSync
  | DoConfirm
  | DoRevert
  | DoDismiss
  | DoRegister pending_wire
  | DoCommit "vyos_command list" string

record guard_world =
  gw_now :: int
  gw_mod :: guard_mod
  gw_tasks :: "guard_task list"
  gw_next :: nat
  gw_log :: "guard_event list"

definition guard_world_init :: guard_world where
  "guard_world_init = \<lparr>gw_now = 0, gw_mod = guard_init, gw_tasks = [], gw_next = 0, gw_log = []\<rparr>"

fun act :: "guard_action \<Rightarrow> guard_world \<Rightarrow> guard_world" where
  "act DoSync w = w\<lparr>gw_tasks := AwaitSync # gw_tasks w\<rparr>"
| "act DoConfirm w = (case confirm_start (gw_mod w) of None \<Rightarrow> w
     | Some (m, p) \<Rightarrow> w\<lparr>gw_mod := m, gw_tasks := AwaitConfirm p # gw_tasks w\<rparr>)"
| "act DoRevert w = (case revert_start (gw_mod w) of None \<Rightarrow> w
     | Some (m, p) \<Rightarrow> w\<lparr>gw_mod := m, gw_tasks := AwaitRevert p # gw_tasks w\<rparr>)"
| "act DoDismiss w = w\<lparr>gw_mod := dismissGuardNotice (gw_mod w)\<rparr>"
| "act (DoRegister wire) w = w\<lparr>gw_mod := registerPending (gw_now w) wire (gw_mod w)\<rparr>"
| "act (DoCommit cs d) w = (let (ts, es) = guardedCommitAndSave (gw_next w) cs d in
     w\<lparr>gw_tasks := ts @ gw_tasks w, gw_next := Suc (gw_next w), gw_log := gw_log w @ es\<rparr>)"

inductive guard_step :: "guard_world \<Rightarrow> guard_world \<Rightarrow> bool" where
  tick: "gw_now w \<le> t \<Longrightarrow> guard_step w (w\<lparr>gw_now := t\<rparr>)"
| expiry: "gm_timer (gw_mod w) = Some t \<Longrightarrow> t \<le> gw_now w \<Longrightarrow>
    guard_step w (w\<lparr>gw_mod := (gw_mod w)\<lparr>gm_timer := None\<rparr>, gw_tasks := AwaitSync # gw_tasks w\<rparr>)"
| action: "guard_step w (act a w)"
| replied: "gw_tasks w = xs @ t # ys \<Longrightarrow> resume (gw_now w) t r (gw_mod w) = Some (m, ts, es) \<Longrightarrow>
    guard_step w (w\<lparr>gw_mod := m, gw_tasks := xs @ ts @ ys, gw_log := gw_log w @ es\<rparr>)"

inductive guard_reach :: "guard_world \<Rightarrow> bool" where
  start: "guard_reach guard_world_init"
| step: "guard_reach w \<Longrightarrow> guard_step w w' \<Longrightarrow> guard_reach w'"

inductive_cases guard_stepE: "guard_step w w'"

end
