(* ===== verification/Guard_Safety.thy ===== *)
theory Guard_Safety
  imports Guard
begin

text \<open>
  What every interleaving of the guard's operations keeps: the lockout question belongs to exactly
  one waiting apply, an override leaves only after the user's yes to the same commands, an apply
  ends at most once; and the interleaving that strands an apply.
\<close>

section \<open>One reply at a time\<close>

fun task_op :: "guard_task \<Rightarrow> nat option" where
  "task_op (AwaitApply n _ _ _) = Some n"
| "task_op (AwaitAnswer n _ _) = Some n"
| "task_op _ = None"

definition task_ops :: "guard_task list \<Rightarrow> nat list" where
  "task_ops ts = List.map_filter task_op ts"

lemma task_ops_simps [simp]:
  "task_ops [] = []" "task_ops (AwaitSync # ts) = task_ops ts" "task_ops (AwaitConfirm p # ts) = task_ops ts"
  "task_ops (AwaitRevert p # ts) = task_ops ts" "task_ops (AwaitApply n cs d b # ts) = n # task_ops ts"
  "task_ops (AwaitAnswer n cs d # ts) = n # task_ops ts" "task_ops (ts @ us) = task_ops ts @ task_ops us"
  by (simp_all add: task_ops_def map_filter_simps map_filter_def)

lemma task_ops_Cons: "task_ops (t # ts) = (case task_op t of None \<Rightarrow> task_ops ts | Some n \<Rightarrow> n # task_ops ts)"
  by (simp add: task_ops_def map_filter_simps split: option.split)

lemma task_ops_mem: "n \<in> set (task_ops ts) \<longleftrightarrow> (\<exists>t\<in>set ts. task_op t = Some n)"
  by (induction ts) (auto simp: task_ops_Cons split: option.split)

lemma sync_lockout: "gm_state (sync_resume now body m) = GLockout rs n \<longleftrightarrow> gm_state m = GLockout rs n"
  by (auto simp: sync_resume_def registerPending_def Let_def
      split: option.splits guard_state.splits last_kind.splits prod.splits)

definition no_new_lockout :: "guard_mod \<Rightarrow> guard_mod \<Rightarrow> bool" where
  "no_new_lockout m m' \<longleftrightarrow> (\<forall>rs n. gm_state m' = GLockout rs n \<longrightarrow> gm_state m = GLockout rs n)"

lemma confirm_no_lockout: "gm_state (fst (confirm_resume p r m)) \<noteq> GLockout rs n"
  by (cases r) auto

lemma revert_no_lockout: "gm_state (fst (revert_resume p r m)) \<noteq> GLockout rs n"
  by (cases r) auto

lemma apply_done_cases:
  assumes "apply_done now n cs r m = (m', ts, es)"
  obtains res where "ts = []" "es = [Finished n res]" "\<And>k. res = Returned k \<Longrightarrow> k = length cs" "no_new_lockout m m'"
  using assms by (cases r) (auto simp: no_new_lockout_def registerPending_def Let_def)

lemma apply_resume_cases:
  assumes "apply_resume now n cs d b r m = (m', ts, es)"
  obtains (ask) rs where "\<not> b" "ts = [AwaitAnswer n cs d]" "es = []" "gm_state m' = GLockout rs n"
  | (ends) res where "ts = []" "es = [Finished n res]" "\<And>k. res = Returned k \<Longrightarrow> k = length cs" "no_new_lockout m m'"
proof (cases r)
  case (ApplyRefused status reasons err)
  show ?thesis
  proof (cases "\<not> b \<and> status = 409")
    case True
    with assms ApplyRefused ask ends show ?thesis
      by (auto simp: no_new_lockout_def split: option.splits list.splits)
  next
    case False
    with assms ApplyRefused have "apply_done now n cs r m = (m', ts, es)" by (simp split: if_splits)
    then show ?thesis using ends by (metis apply_done_cases)
  qed
next
  case (ApplyOk wire)
  with assms have "apply_done now n cs r m = (m', ts, es)" by simp
  then show ?thesis using ends by (metis apply_done_cases)
next
  case (ApplyThrown msg)
  with assms have "apply_done now n cs r m = (m', ts, es)" by simp
  then show ?thesis using ends by (metis apply_done_cases)
qed

lemma sync_tasks_ops [simp]: "task_ops (sync_tasks b) = []"
  by (simp add: sync_tasks_def)

lemma resume_cases:
  assumes "resume now t r m = Some (m', ts, es)"
  obtains (other) "task_op t = None" "task_ops ts = []" "es = []" "no_new_lockout m m'"
  | (ask) n cs d rs where "t = AwaitApply n cs d False" "ts = [AwaitAnswer n cs d]" "es = []"
      "gm_state m' = GLockout rs n"
  | (ends) n cs d b res where "t = AwaitApply n cs d b" "ts = []" "es = [Finished n res]"
      "\<And>k. res = Returned k \<Longrightarrow> k = length cs" "no_new_lockout m m'"
  | (yes) n cs d rs where "t = AwaitAnswer n cs d" "gm_state m = GLockout rs n"
      "ts = [AwaitApply n cs d True]" "es = [Answered n True, Sent n cs True]" "gm_state m' = GIdle"
  | (no) n cs d rs where "t = AwaitAnswer n cs d" "gm_state m = GLockout rs n"
      "ts = []" "es = [Answered n False, Finished n (Threw cancelled_message)]" "gm_state m' = GIdle"
proof (cases t)
  case AwaitSync
  then obtain body where "m' = sync_resume now body m" "ts = []" "es = []"
    using assms by (cases r) auto
  with AwaitSync other show ?thesis by (auto simp: no_new_lockout_def sync_lockout)
next
  case (AwaitConfirm p)
  then obtain q where "m' = fst (confirm_resume p q m)" "ts = sync_tasks (snd (confirm_resume p q m))" "es = []"
    using assms by (cases r) (auto simp: split_def Let_def)
  with AwaitConfirm other show ?thesis by (simp add: no_new_lockout_def confirm_no_lockout)
next
  case (AwaitRevert p)
  then obtain q where "m' = fst (revert_resume p q m)" "ts = sync_tasks (snd (revert_resume p q m))" "es = []"
    using assms by (cases r) (auto simp: split_def Let_def)
  with AwaitRevert other show ?thesis by (simp add: no_new_lockout_def revert_no_lockout)
next
  case (AwaitApply n cs d b)
  then obtain q where "apply_resume now n cs d b q m = (m', ts, es)" using assms by (cases r) auto
  then show ?thesis
  proof (cases rule: apply_resume_cases)
    case (ask rs)
    with AwaitApply show ?thesis by (intro that(2)) auto
  next
    case (ends res)
    with AwaitApply show ?thesis by (intro that(3)) auto
  qed
next
  case (AwaitAnswer n cs d)
  then obtain proceed rs where "gm_state m = GLockout rs n" "answer_resume n cs d proceed m = (m', ts, es)"
    using assms by (cases r) (auto split: guard_state.splits if_splits)
  with AwaitAnswer yes no show ?thesis by (cases proceed) auto
qed

section \<open>The invariant\<close>

text \<open>An override in the log has the first try and the user's yes before it.\<close>

definition consent :: "guard_event list \<Rightarrow> bool" where
  "consent es \<longleftrightarrow> (\<forall>i n cs. i < length es \<longrightarrow> es ! i = Sent n cs True \<longrightarrow>
     Answered n True \<in> set (take i es) \<and> Sent n cs False \<in> set (take i es))"

fun event_end :: "guard_event \<Rightarrow> nat option" where
  "event_end (Finished n _) = Some n"
| "event_end _ = None"

definition event_ends :: "guard_event list \<Rightarrow> nat list" where
  "event_ends es = List.map_filter event_end es"

lemma event_ends_simps [simp]:
  "event_ends [] = []" "event_ends (Finished n r # es) = n # event_ends es"
  "event_ends (Sent n cs b # es) = event_ends es" "event_ends (Answered n a # es) = event_ends es"
  "event_ends (es @ fs) = event_ends es @ event_ends fs"
  by (simp_all add: event_ends_def map_filter_simps map_filter_def)

lemma event_ends_mem: "Finished n r \<in> set es \<Longrightarrow> n \<in> set (event_ends es)"
  by (induction es) (auto simp: event_ends_def map_filter_simps split: option.split)

lemma consent_Nil [simp]: "consent []"
  by (simp add: consent_def)

lemma consent_snoc:
  "consent (es @ [e]) \<longleftrightarrow> consent es \<and>
     (\<forall>n cs. e = Sent n cs True \<longrightarrow> Answered n True \<in> set es \<and> Sent n cs False \<in> set es)"
  by (auto simp: consent_def less_Suc_eq nth_append)

text \<open>
  A call that returns a number returns the number of the commands it sent, and 0 only when it sent none.
  The commands of a call are the same whenever they are sent, and a call without commands sends nothing.
\<close>

definition counted :: "guard_event list \<Rightarrow> bool" where
  "counted es \<longleftrightarrow> (\<forall>n k. Finished n (Returned k) \<in> set es \<longrightarrow>
     k = 0 \<and> (\<forall>cs b. Sent n cs b \<notin> set es) \<or> (\<exists>cs. cs \<noteq> [] \<and> Sent n cs False \<in> set es \<and> k = length cs))"

definition sent_same :: "nat \<Rightarrow> guard_event list \<Rightarrow> bool" where
  "sent_same next es \<longleftrightarrow> (\<forall>n cs b. Sent n cs b \<in> set es \<longrightarrow>
     n < next \<and> cs \<noteq> [] \<and> (\<forall>cs' b'. Sent n cs' b' \<in> set es \<longrightarrow> cs' = cs))"

lemma counted_finished:
  assumes "counted es"
    and "k = 0 \<and> (\<forall>cs b. Sent n cs b \<notin> set es) \<or> (\<exists>cs. cs \<noteq> [] \<and> Sent n cs False \<in> set es \<and> k = length cs)"
  shows "counted (es @ [Finished n (Returned k)])"
  using assms by (fastforce simp: counted_def)

lemma counted_sent:
  assumes "counted es" and "n \<notin> set (event_ends es)"
  shows "counted (es @ [Sent n cs b])"
proof -
  show ?thesis
    unfolding counted_def
  proof (intro allI impI)
    fix m k
    assume "Finished m (Returned k) \<in> set (es @ [Sent n cs b])"
    then have f: "Finished m (Returned k) \<in> set es" by simp
    then have "m \<noteq> n" using assms(2) event_ends_mem by blast
    moreover have "k = 0 \<and> (\<forall>cs b. Sent m cs b \<notin> set es) \<or> (\<exists>cs. cs \<noteq> [] \<and> Sent m cs False \<in> set es \<and> k = length cs)"
      using assms(1) f unfolding counted_def by blast
    ultimately show "k = 0 \<and> (\<forall>ds c. Sent m ds c \<notin> set (es @ [Sent n cs b])) \<or>
        (\<exists>ds. ds \<noteq> [] \<and> Sent m ds False \<in> set (es @ [Sent n cs b]) \<and> k = length ds)" by auto
  qed
qed

lemma counted_quiet:
  assumes "counted es" and "\<And>n k. e \<noteq> Finished n (Returned k)" and "\<And>n cs b. e \<noteq> Sent n cs b"
  shows "counted (es @ [e])"
proof -
  have "Sent n cs b \<in> set (es @ [e]) \<longleftrightarrow> Sent n cs b \<in> set es"
    "Finished n (Returned k) \<in> set (es @ [e]) \<longleftrightarrow> Finished n (Returned k) \<in> set es" for n cs b k
    using assms(2) [of n k] assms(3) [of n cs b] by auto
  then show ?thesis using assms(1) unfolding counted_def by simp
qed

lemma counted_Nil [simp]: "counted []"
  by (simp add: counted_def)

lemma sent_same_new:
  assumes "sent_same n es" and "cs \<noteq> []"
  shows "sent_same (Suc n) (es @ [Sent n cs b])"
  unfolding sent_same_def
proof (intro allI impI)
  fix k ds c
  assume mem: "Sent k ds c \<in> set (es @ [Sent n cs b])"
  have new: "Sent n cs' b' \<notin> set es" for cs' b' using assms(1) by (auto simp: sent_same_def)
  show "k < Suc n \<and> ds \<noteq> [] \<and> (\<forall>cs' b'. Sent k cs' b' \<in> set (es @ [Sent n cs b]) \<longrightarrow> cs' = ds)"
  proof (cases "k = n")
    case True
    then show ?thesis using mem new assms(2) by auto
  next
    case False
    then have "Sent k ds c \<in> set es" using mem by simp
    then have "k < n \<and> ds \<noteq> [] \<and> (\<forall>cs' b'. Sent k cs' b' \<in> set es \<longrightarrow> cs' = ds)"
      using assms(1) unfolding sent_same_def by blast
    then show ?thesis using False by auto
  qed
qed

lemma sent_same_again:
  assumes "sent_same m es" and "Sent n cs b \<in> set es"
  shows "sent_same m (es @ [Sent n cs b'])"
  unfolding sent_same_def
proof (intro allI impI)
  fix k ds c
  assume "Sent k ds c \<in> set (es @ [Sent n cs b'])"
  then obtain c' where "Sent k ds c' \<in> set es" using assms(2) by auto
  then have *: "k < m \<and> ds \<noteq> [] \<and> (\<forall>cs' b'. Sent k cs' b' \<in> set es \<longrightarrow> cs' = ds)"
    using assms(1) unfolding sent_same_def by blast
  then show "k < m \<and> ds \<noteq> [] \<and> (\<forall>cs' c. Sent k cs' c \<in> set (es @ [Sent n cs b']) \<longrightarrow> cs' = ds)"
    using assms(2) by auto
qed

lemma sent_same_quiet:
  assumes "sent_same m es" and "m \<le> k" and "\<And>n cs b. e \<noteq> Sent n cs b"
  shows "sent_same k (es @ [e])"
proof -
  have "Sent n cs b \<in> set (es @ [e]) \<longleftrightarrow> Sent n cs b \<in> set es" for n cs b using assms(3) [of n cs b] by auto
  then show ?thesis using assms(1,2) unfolding sent_same_def by (meson less_le_trans)
qed

lemma sent_same_Nil [simp]: "sent_same n []"
  by (simp add: sent_same_def)

definition guard_inv :: "guard_world \<Rightarrow> bool" where
  "guard_inv w \<longleftrightarrow>
     distinct (task_ops (gw_tasks w) @ event_ends (gw_log w)) \<and>
     (\<forall>n \<in> set (task_ops (gw_tasks w) @ event_ends (gw_log w)). n < gw_next w) \<and>
     (\<forall>rs n. gm_state (gw_mod w) = GLockout rs n \<longrightarrow> (\<exists>cs d. AwaitAnswer n cs d \<in> set (gw_tasks w))) \<and>
     (\<forall>n cs d b. AwaitApply n cs d b \<in> set (gw_tasks w) \<longrightarrow> Sent n cs False \<in> set (gw_log w)) \<and>
     (\<forall>n cs d. AwaitAnswer n cs d \<in> set (gw_tasks w) \<longrightarrow> Sent n cs False \<in> set (gw_log w)) \<and>
     counted (gw_log w) \<and>
     sent_same (gw_next w) (gw_log w) \<and>
     consent (gw_log w)"

lemma guard_inv_init: "guard_inv guard_world_init"
  by (simp add: guard_inv_def guard_world_init_def guard_init_def)

text \<open>Steps that add calls that are no applies and change the state without a new question.\<close>

lemma guard_inv_quiet:
  assumes "guard_inv w" and "no_new_lockout (gw_mod w) m" and "task_ops ts = []"
  shows "guard_inv (w\<lparr>gw_mod := m, gw_tasks := ts @ gw_tasks w\<rparr>)"
proof -
  have "AwaitApply n cs d b \<notin> set ts \<and> AwaitAnswer n cs d \<notin> set ts" for n cs d b
  proof -
    have "n \<notin> set (task_ops ts)" using assms(3) by simp
    then show ?thesis unfolding task_ops_mem by (metis task_op.simps(1,2))
  qed
  with assms show ?thesis by (simp add: guard_inv_def no_new_lockout_def)
qed

lemma guard_inv_act:
  assumes inv: "guard_inv w"
  shows "guard_inv (act a w)"
proof (cases a)
  case DoSync
  then show ?thesis using guard_inv_quiet [OF inv, of "gw_mod w" "[AwaitSync]"] by (simp add: no_new_lockout_def)
next
  case DoConfirm
  show ?thesis
  proof (cases "confirm_start (gw_mod w)")
    case (Some mp)
    obtain m p where mp: "mp = (m, p)" by (cases mp)
    then have "no_new_lockout (gw_mod w) m"
      using Some by (auto simp: no_new_lockout_def confirm_start_def split: guard_state.splits)
    then show ?thesis using guard_inv_quiet [OF inv, of m "[AwaitConfirm p]"] DoConfirm Some mp by simp
  qed (use DoConfirm inv in simp)
next
  case DoRevert
  show ?thesis
  proof (cases "revert_start (gw_mod w)")
    case (Some mp)
    obtain m p where mp: "mp = (m, p)" by (cases mp)
    then have "no_new_lockout (gw_mod w) m"
      using Some by (auto simp: no_new_lockout_def revert_start_def split: guard_state.splits)
    then show ?thesis using guard_inv_quiet [OF inv, of m "[AwaitRevert p]"] DoRevert Some mp by simp
  qed (use DoRevert inv in simp)
next
  case DoDismiss
  have "no_new_lockout (gw_mod w) (dismissGuardNotice (gw_mod w))"
    by (simp add: no_new_lockout_def dismissGuardNotice_def split: guard_state.splits)
  then show ?thesis using guard_inv_quiet [OF inv, of _ "[]"] DoDismiss by simp
next
  case (DoRegister wire)
  have "no_new_lockout (gw_mod w) (registerPending (gw_now w) wire (gw_mod w))"
    by (simp add: no_new_lockout_def registerPending_def Let_def)
  then show ?thesis using guard_inv_quiet [OF inv, of _ "[]"] DoRegister by simp
next
  case (DoCommit cs d)
  have "\<forall>n \<in> set (task_ops (gw_tasks w)) \<union> set (event_ends (gw_log w)). n < gw_next w"
    using inv by (simp add: guard_inv_def)
  then have fresh: "n < Suc (gw_next w) \<and> n \<noteq> gw_next w"
    if "n \<in> set (task_ops (gw_tasks w)) \<or> n \<in> set (event_ends (gw_log w))" for n
  proof -
    have "n < gw_next w" using that \<open>\<forall>n \<in> set (task_ops (gw_tasks w)) \<union> set (event_ends (gw_log w)). n < gw_next w\<close> by blast
    then show ?thesis by simp
  qed
  have unsent: "sent_same (gw_next w) es \<Longrightarrow> Sent (gw_next w) ds b \<in> set es \<Longrightarrow> False" for ds b es
    unfolding sent_same_def by blast
  from fresh show ?thesis
    using inv DoCommit
    by (cases "cs = []") (auto simp: guard_inv_def guardedCommitAndSave_def consent_snoc
        intro!: counted_finished counted_sent sent_same_new sent_same_quiet unsent)
qed

lemma guard_inv_reply:
  assumes inv: "guard_inv w" and tasks: "gw_tasks w = xs @ t # ys"
    and res: "resume (gw_now w) t r (gw_mod w) = Some (m, ts, es)"
  shows "guard_inv (w\<lparr>gw_mod := m, gw_tasks := xs @ ts @ ys, gw_log := gw_log w @ es\<rparr>)"
  using res
proof (cases rule: resume_cases)
  case other
  have "AwaitApply n cs d b \<notin> set ts \<and> AwaitAnswer n cs d \<notin> set ts" for n cs d b
  proof -
    have "n \<notin> set (task_ops ts)" using other by simp
    then show ?thesis unfolding task_ops_mem by (metis task_op.simps(1,2))
  qed
  moreover have "task_ops (t # ys) = task_ops ys" using other by (simp add: task_ops_Cons)
  moreover have "AwaitAnswer n cs d \<noteq> t" for n cs d using other by auto
  ultimately show ?thesis using inv other tasks
    by (simp add: guard_inv_def no_new_lockout_def)
next
  case (ask n cs d rs)
  with inv tasks show ?thesis by (auto simp: guard_inv_def)
next
  case (ends n cs d b res)
  have sent: "Sent n cs False \<in> set (gw_log w)" using inv tasks ends(1) by (auto simp: guard_inv_def)
  moreover from sent have "cs \<noteq> []" using inv unfolding guard_inv_def sent_same_def by blast
  moreover have "counted (gw_log w @ [Finished n res])"
  proof (cases res)
    case (Returned k)
    with ends(4) sent \<open>cs \<noteq> []\<close> inv show ?thesis by (auto simp: guard_inv_def intro!: counted_finished)
  next
    case (Threw e)
    with inv show ?thesis by (auto simp: guard_inv_def intro!: counted_quiet)
  qed
  ultimately show ?thesis using ends inv tasks
    by (auto simp: guard_inv_def no_new_lockout_def consent_snoc intro!: sent_same_quiet)
next
  case (yes n cs d rs)
  have sent: "Sent n cs False \<in> set (gw_log w)" using inv tasks yes(1) by (auto simp: guard_inv_def)
  have "counted (gw_log w @ [Answered n True])" "n \<notin> set (event_ends (gw_log w @ [Answered n True]))"
    using inv tasks yes(1) by (auto simp: guard_inv_def task_ops_Cons intro!: counted_quiet)
  then have "counted (gw_log w @ [Answered n True, Sent n cs True])" using counted_sent by fastforce
  moreover have "sent_same (gw_next w) (gw_log w @ [Answered n True, Sent n cs True])"
    using sent_same_again [OF sent_same_quiet [of _ "gw_log w"], of "gw_next w" "gw_next w" "Answered n True" n cs False True]
      inv sent by (simp add: guard_inv_def)
  ultimately show ?thesis using yes inv tasks consent_snoc [of "gw_log w @ [Answered n True]" "Sent n cs True"]
    by (auto simp: guard_inv_def consent_snoc)
next
  case (no n cs d rs)
  have "counted (gw_log w @ [Answered n False, Finished n (Threw cancelled_message)])"
    using counted_quiet [OF counted_quiet, of "gw_log w" "Answered n False" "Finished n (Threw cancelled_message)"] inv
    by (simp add: guard_inv_def)
  moreover have "sent_same (gw_next w) (gw_log w @ [Answered n False, Finished n (Threw cancelled_message)])"
    using sent_same_quiet [OF sent_same_quiet, of "gw_next w" "gw_log w" "gw_next w" "Answered n False" "gw_next w"
        "Finished n (Threw cancelled_message)"] inv
    by (simp add: guard_inv_def)
  ultimately show ?thesis using no inv tasks
      consent_snoc [of "gw_log w @ [Answered n False]" "Finished n (Threw cancelled_message)"]
    by (auto simp: guard_inv_def consent_snoc)
qed

lemma guard_inv_step: "guard_step w w' \<Longrightarrow> guard_inv w \<Longrightarrow> guard_inv w'"
proof (induction rule: guard_step.induct)
  case (tick w t)
  then show ?case by (simp add: guard_inv_def)
next
  case (expiry w t)
  have "no_new_lockout (gw_mod w) ((gw_mod w)\<lparr>gm_timer := None\<rparr>)" by (simp add: no_new_lockout_def)
  from guard_inv_quiet [OF expiry(3) this, of "[AwaitSync]"] show ?case by simp
qed (simp_all add: guard_inv_act guard_inv_reply)

lemma guard_inv_reach: "guard_reach w \<Longrightarrow> guard_inv w"
  by (induction rule: guard_reach.induct) (auto intro: guard_inv_init guard_inv_step)

section \<open>The properties\<close>

text \<open>
  C12: the lockout question belongs to one waiting apply. Whenever the dialog is up, in any
  interleaving, exactly one call waits for its answer, no other call carries its number and the
  call has not ended: the resolver fires at most once, and for the apply that was refused.
\<close>

theorem lockout_one_waiter:
  assumes "guard_reach w" and "gm_state (gw_mod w) = GLockout rs n"
  shows "\<exists>xs cs d ys. gw_tasks w = xs @ AwaitAnswer n cs d # ys \<and> n \<notin> set (task_ops (xs @ ys)) \<and>
    (\<forall>r. Finished n r \<notin> set (gw_log w))"
proof -
  note inv = guard_inv_reach [OF assms(1)]
  then obtain cs d where "AwaitAnswer n cs d \<in> set (gw_tasks w)" using assms(2) by (auto simp: guard_inv_def)
  then obtain xs ys where t: "gw_tasks w = xs @ AwaitAnswer n cs d # ys" by (meson split_list)
  have "Finished n r \<notin> set (gw_log w)" for r
  proof
    assume "Finished n r \<in> set (gw_log w)"
    then have "n \<in> set (event_ends (gw_log w))" by (rule event_ends_mem)
    then show False using inv t by (auto simp: guard_inv_def)
  qed
  moreover have "n \<notin> set (task_ops (xs @ ys))" using inv t by (auto simp: guard_inv_def)
  ultimately show ?thesis using t by blast
qed

text \<open>
  C13: no override without consent. Whenever an apply has left with the lockout check overridden,
  the same commands had been tried with the check on, and the user had answered yes to that very
  call before.
\<close>

theorem override_needs_consent:
  assumes "guard_reach w" and "gw_log w = xs @ Sent n cs True # ys"
  shows "Answered n True \<in> set xs \<and> Sent n cs False \<in> set xs"
proof -
  have "consent (gw_log w)" using guard_inv_reach [OF assms(1)] by (simp add: guard_inv_def)
  moreover have "length xs < length (gw_log w)" "gw_log w ! length xs = Sent n cs True"
    "take (length xs) (gw_log w) = xs"
    using assms(2) by simp_all
  ultimately show ?thesis unfolding consent_def by metis
qed

text \<open>
  C24: what a guarded apply comes to, in any interleaving. A call with commands sends them, a call without
  any ends at once with 0 and sends nothing. A call ends at most once, and when it returns a number and has
  sent commands, these were not empty and the number is theirs, also when the apply went out a second time
  with the lockout check overridden; a call that sent nothing returns 0.
\<close>

theorem guarded_commit_result:
  assumes "guard_reach w"
  shows "gw_log (act (DoCommit cs d) w) =
      gw_log w @ [if cs = [] then Finished (gw_next w) (Returned 0) else Sent (gw_next w) cs False] \<and>
    distinct (event_ends (gw_log w)) \<and>
    (Finished n (Returned k) \<in> set (gw_log w) \<longrightarrow>
      (if \<exists>cs' b. Sent n cs' b \<in> set (gw_log w)
       then \<forall>cs' b. Sent n cs' b \<in> set (gw_log w) \<longrightarrow> cs' \<noteq> [] \<and> k = length cs'
       else k = 0))"
proof -
  have inv: "distinct (event_ends (gw_log w))" "counted (gw_log w)" "sent_same (gw_next w) (gw_log w)"
    using guard_inv_reach [OF assms] by (simp_all add: guard_inv_def)
  have "if \<exists>cs' b. Sent n cs' b \<in> set (gw_log w)
     then \<forall>cs' b. Sent n cs' b \<in> set (gw_log w) \<longrightarrow> cs' \<noteq> [] \<and> k = length cs' else k = 0"
    if "Finished n (Returned k) \<in> set (gw_log w)"
  proof (cases "\<exists>cs' b. Sent n cs' b \<in> set (gw_log w)")
    case True
    moreover have "k = 0 \<and> (\<forall>cs b. Sent n cs b \<notin> set (gw_log w)) \<or>
        (\<exists>cs. cs \<noteq> [] \<and> Sent n cs False \<in> set (gw_log w) \<and> k = length cs)"
      using inv(2) that unfolding counted_def by blast
    ultimately obtain ds where "Sent n ds False \<in> set (gw_log w)" "k = length ds" by blast
    then show ?thesis using True inv(3) unfolding sent_same_def by metis
  next
    case False
    then show ?thesis using inv(2) that unfolding counted_def by metis
  qed
  then show ?thesis using inv(1) by (simp add: guardedCommitAndSave_def split_def Let_def)
qed

text \<open>
  C25: asking the backend never takes the lockout dialog down, and a still pending change reported
  by it never overwrites a click that is under way.
\<close>

theorem sync_respects_user:
  assumes "(\<exists>rs n. gm_state m = GLockout rs n) \<or>
    ((\<exists>p b e. gm_state m = GPending p (Some b) e) \<and> (body = None \<or> (\<exists>wire l. body = Some (Some wire, l))))"
  shows "sync_resume now body m = m"
  using assms by (auto simp: sync_resume_def split: option.splits prod.splits)

lemma sync_respects_user_witness:
  "sync_resume 0 (Some (None, None)) \<lparr>gm_state = GLockout [''cuts off eth0''] 3, gm_timer = None\<rparr> =
     \<lparr>gm_state = GLockout [''cuts off eth0''] 3, gm_timer = None\<rparr>"
  by (rule sync_respects_user) simp

section \<open>An apply that never ends\<close>

text \<open>
  A second refused apply takes the dialog of the first one over. The first apply then waits for an
  answer that no later step can give.
\<close>

definition stranded :: "nat \<Rightarrow> guard_world \<Rightarrow> bool" where
  "stranded n w \<longleftrightarrow> (\<exists>cs d. AwaitAnswer n cs d \<in> set (gw_tasks w)) \<and>
     (\<forall>rs. gm_state (gw_mod w) \<noteq> GLockout rs n)"

lemma stranded_step:
  assumes "guard_step w w'" and inv: "guard_inv w" and "stranded n w"
  shows "stranded n w'"
proof -
  obtain cs d where a: "AwaitAnswer n cs d \<in> set (gw_tasks w)" and no: "\<And>rs. gm_state (gw_mod w) \<noteq> GLockout rs n"
    using assms(3) by (auto simp: stranded_def)
  have quiet: "stranded n w''" if "AwaitAnswer n cs d \<in> set (gw_tasks w'')" "no_new_lockout (gw_mod w) (gw_mod w'')" for w''
    using that no by (auto simp: stranded_def no_new_lockout_def)
  from assms(1) show ?thesis
  proof cases
    case (tick t)
    then show ?thesis using a by (intro quiet) (simp_all add: no_new_lockout_def)
  next
    case (expiry t)
    then show ?thesis using a by (intro quiet) (simp_all add: no_new_lockout_def)
  next
    case (action b)
    show ?thesis unfolding action
      by (cases b; rule quiet) (use a in \<open>auto simp: no_new_lockout_def confirm_start_def revert_start_def
          dismissGuardNotice_def registerPending_def Let_def guardedCommitAndSave_def
          split: option.splits guard_state.splits if_splits\<close>)
  next
    case (replied xs t ys r m ts es)
    from replied(3) show ?thesis
    proof (cases rule: resume_cases)
      case other
      then have "t \<noteq> AwaitAnswer n cs d" by auto
      with a other replied show ?thesis by (intro quiet) auto
    next
      case (ask k ks e rs)
      have "k \<noteq> n"
      proof
        assume "k = n"
        then have "distinct (task_ops (xs @ AwaitApply n ks e False # ys))"
          using inv replied(2) ask(1) by (auto simp: guard_inv_def)
        moreover have "AwaitAnswer n cs d \<in> set (xs @ ys)" using a replied(2) ask(1) by auto
        then have "n \<in> set (task_ops (xs @ ys))" unfolding task_ops_mem by (metis task_op.simps(2))
        ultimately show False by auto
      qed
      with a ask replied show ?thesis by (auto simp: stranded_def)
    next
      case (ends k ks e b res)
      with a replied show ?thesis by (intro quiet) auto
    next
      case (yes k ks e rs)
      then have "k \<noteq> n" using no by blast
      with a yes replied show ?thesis by (auto simp: stranded_def)
    next
      case (no k ks e rs)
      then have "k \<noteq> n" using \<open>\<And>rs. gm_state (gw_mod w) \<noteq> GLockout rs n\<close> by blast
      with a no replied show ?thesis by (auto simp: stranded_def)
    qed
  qed
qed

lemma stranded_forever:
  assumes "guard_reach w" and "stranded n w" and "guard_step\<^sup>*\<^sup>* w w'"
  shows "stranded n w' \<and> guard_inv w'"
  using assms(3)
proof (induction rule: rtranclp_induct)
  case base
  then show ?case using assms(1,2) guard_inv_reach by simp
next
  case (step y z)
  then show ?case using stranded_step guard_inv_step by blast
qed

lemma stranded_unfinished:
  assumes "stranded n w" and "guard_inv w"
  shows "Finished n r \<notin> set (gw_log w)"
proof
  assume "Finished n r \<in> set (gw_log w)"
  then have "n \<in> set (event_ends (gw_log w))" by (rule event_ends_mem)
  moreover have "n \<in> set (task_ops (gw_tasks w))"
    using assms(1) unfolding stranded_def task_ops_mem by (metis task_op.simps(2))
  ultimately show False using assms(2) by (auto simp: guard_inv_def)
qed

text \<open>Two applies under way, both refused by the anti-lockout check.\<close>

definition two_refused :: guard_world where
  "two_refused = \<lparr>gw_now = 0, gw_mod = \<lparr>gm_state = GLockout [''eth1''] 1, gm_timer = None\<rparr>,
     gw_tasks = [AwaitAnswer 1 [cdel [''interfaces'']] ''b'', AwaitAnswer 0 [cdel [''nat'']] ''a''], gw_next = 2,
     gw_log = [Sent 0 [cdel [''nat'']] False, Sent 1 [cdel [''interfaces'']] False]\<rparr>"

lemma two_refused_reach: "guard_reach two_refused"
proof -
  let ?A = "[cdel [''nat'']]" and ?B = "[cdel [''interfaces'']]"
  define w where "w st ts k es = \<lparr>gw_now = 0, gw_mod = \<lparr>gm_state = st, gm_timer = None\<rparr>, gw_tasks = ts, gw_next = k, gw_log = es\<rparr>"
    for st ts k es
  have "guard_reach (w GIdle [] 0 [])"
    using guard_reach.start by (simp add: w_def guard_world_init_def guard_init_def)
  from guard_reach.step [OF this guard_step.action [of _ "DoCommit ?A ''a''"]]
  have "guard_reach (w GIdle [AwaitApply 0 ?A ''a'' False] 1 [Sent 0 ?A False])"
    by (simp add: w_def guardedCommitAndSave_def)
  from guard_reach.step [OF this guard_step.action [of _ "DoCommit ?B ''b''"]]
  have "guard_reach (w GIdle [AwaitApply 1 ?B ''b'' False, AwaitApply 0 ?A ''a'' False] 2
      [Sent 0 ?A False, Sent 1 ?B False])"
    by (simp add: w_def guardedCommitAndSave_def numeral_2_eq_2)
  from guard_reach.step [OF this guard_step.replied [of _ "[AwaitApply 1 ?B ''b'' False]" "AwaitApply 0 ?A ''a'' False" "[]"
        "RApply (ApplyRefused 409 (Some [''eth0'']) None)"]]
  have "guard_reach (w (GLockout [''eth0''] 0) [AwaitApply 1 ?B ''b'' False, AwaitAnswer 0 ?A ''a''] 2
      [Sent 0 ?A False, Sent 1 ?B False])"
    by (simp add: w_def)
  from guard_reach.step [OF this guard_step.replied [of _ "[]" "AwaitApply 1 ?B ''b'' False" "[AwaitAnswer 0 ?A ''a'']"
        "RApply (ApplyRefused 409 (Some [''eth1'']) None)"]]
  show ?thesis by (simp add: w_def two_refused_def)
qed

text \<open>
  The dialog of an apply can be taken over, and then the apply never ends. There is a
  reachable state after which no run whatsoever, with any user and any replies, ends the first of
  two applies that the anti-lockout check refused: its caller waits for ever.
\<close>

theorem lockout_strands:
  "\<exists>w n cs. guard_reach w \<and> Sent n cs False \<in> set (gw_log w) \<and>
     (\<forall>w' r. guard_step\<^sup>*\<^sup>* w w' \<longrightarrow> Finished n r \<notin> set (gw_log w'))"
proof (intro exI conjI allI impI)
  show "guard_reach two_refused" by (rule two_refused_reach)
  show "Sent 0 [cdel [''nat'']] False \<in> set (gw_log two_refused)" by (simp add: two_refused_def)
  fix w' r
  assume "guard_step\<^sup>*\<^sup>* two_refused w'"
  moreover have "stranded 0 two_refused" by (auto simp: stranded_def two_refused_def)
  ultimately show "Finished 0 r \<notin> set (gw_log w')"
    using stranded_forever [OF two_refused_reach] stranded_unfinished by blast
qed

lemma lockout_strands_witness: "\<exists>w n. guard_reach w \<and> (\<forall>r. Finished n r \<notin> set (gw_log w))"
  using lockout_strands by (meson rtranclp.rtrancl_refl)

lemma lockout_one_waiter_witness:
  "\<exists>xs cs d ys. gw_tasks two_refused = xs @ AwaitAnswer 1 cs d # ys \<and> 1 \<notin> set (task_ops (xs @ ys)) \<and>
    (\<forall>r. Finished 1 r \<notin> set (gw_log two_refused))"
  by (rule lockout_one_waiter [OF two_refused_reach]) (simp add: two_refused_def)

text \<open>The user says yes to the second one.\<close>

definition overridden :: guard_world where
  "overridden = \<lparr>gw_now = 0, gw_mod = \<lparr>gm_state = GIdle, gm_timer = None\<rparr>,
     gw_tasks = [AwaitApply 1 [cdel [''interfaces'']] ''b'' True, AwaitAnswer 0 [cdel [''nat'']] ''a''], gw_next = 2,
     gw_log = [Sent 0 [cdel [''nat'']] False, Sent 1 [cdel [''interfaces'']] False, Answered 1 True,
       Sent 1 [cdel [''interfaces'']] True]\<rparr>"

lemma overridden_reach: "guard_reach overridden"
  using guard_reach.step [OF two_refused_reach guard_step.replied [of _ "[]"
        "AwaitAnswer 1 [cdel [''interfaces'']] ''b''" "[AwaitAnswer 0 [cdel [''nat'']] ''a'']" "RAnswer True"]]
  by (simp add: two_refused_def overridden_def)

lemma override_needs_consent_witness:
  "Answered 1 True \<in> set [Sent 0 [cdel [''nat'']] False, Sent 1 [cdel [''interfaces'']] False, Answered 1 True]"
  using override_needs_consent [OF overridden_reach, of "[Sent 0 [cdel [''nat'']] False,
      Sent 1 [cdel [''interfaces'']] False, Answered 1 True]" 1 "[cdel [''interfaces'']]" "[]"]
  by (simp add: overridden_def)

text \<open>The override reaches the device, which takes the change: the call returns the number of its commands.\<close>

definition opened_window :: pending_wire where
  "opened_window = \<lparr>pw_id = ''w'', pw_description = ''b'', pw_remaining_secs = 60, pw_timeout_secs = 60\<rparr>"

definition override_done :: guard_world where
  "override_done = overridden\<lparr>gw_mod := registerPending 0 opened_window (gw_mod overridden), gw_tasks := [AwaitAnswer 0 [cdel [''nat'']] ''a''],
     gw_log := gw_log overridden @ [Finished 1 (Returned 1)]\<rparr>"

lemma override_done_reach: "guard_reach override_done"
  using guard_reach.step [OF overridden_reach guard_step.replied [of _ "[]"
        "AwaitApply 1 [cdel [''interfaces'']] ''b'' True" "[AwaitAnswer 0 [cdel [''nat'']] ''a'']" "RApply (ApplyOk opened_window)"]]
  by (simp add: overridden_def override_done_def)

lemma guarded_commit_result_witness:
  "distinct (event_ends (gw_log override_done)) \<and> 1 = length [cdel [''interfaces'']]"
proof -
  have "Finished 1 (Returned 1) \<in> set (gw_log override_done)"
    "Sent 1 [cdel [''interfaces'']] True \<in> set (gw_log override_done)"
    by (simp_all add: override_done_def overridden_def)
  then show ?thesis
    using guarded_commit_result [OF override_done_reach, of "[]" "[]" 1 1] by metis
qed

end
