(* ===== verification/Geolocation.thy ===== *)
theory Geolocation
  imports Node_Editor Firewall_Model
begin

text \<open>
  Country filtering in \<open>lib/geolocation.ts\<close>: the actions and policies under
  \<open>service geolocation\<close>, their reads, the diffs of the action form and of a rule's attachment,
  and the address helpers of the block events.
\<close>

section \<open>Model\<close>

datatype geo_mode = BlockListed | AllowListed

fun geo_mode_str :: "geo_mode \<Rightarrow> string" where
  "geo_mode_str BlockListed = ''block-listed''"
| "geo_mode_str AllowListed = ''allow-listed''"

fun GEO_MODE_LABEL :: "geo_mode \<Rightarrow> string" where
  "GEO_MODE_LABEL BlockListed = ''Block selected countries''"
| "GEO_MODE_LABEL AllowListed = ''Only allow selected countries''"

datatype geo_unknown = UnknownAllow | UnknownBlock

datatype geo_direction = GeoSource | GeoDestination | GeoBoth

fun geo_direction_str :: "geo_direction \<Rightarrow> string" where
  "geo_direction_str GeoSource = ''source''"
| "geo_direction_str GeoDestination = ''destination''"
| "geo_direction_str GeoBoth = ''both''"

fun GEO_DIRECTION_LABEL :: "geo_direction \<Rightarrow> string" where
  "GEO_DIRECTION_LABEL GeoSource = ''Source''"
| "GEO_DIRECTION_LABEL GeoDestination = ''Destination''"
| "GEO_DIRECTION_LABEL GeoBoth = ''Both''"

record geo_action =
  ga_name :: string
  ga_description :: "string option"
  ga_mode :: "geo_mode option"
  ga_countries :: "string list"
  ga_unknown :: geo_unknown
  ga_log :: bool

record geo_policy =
  gp_id :: int
  gp_action :: string
  gp_ruleset :: rule_chain
  gp_rule :: int
  gp_direction :: geo_direction
  gp_enabled :: bool

record geolocation_config =
  geo_actions :: "geo_action list"
  geo_policies :: "geo_policy list"

definition emptyGeolocationConfig :: geolocation_config where
  "emptyGeolocationConfig = \<lparr>geo_actions = [], geo_policies = []\<rparr>"

section \<open>Reading\<close>

definition asMode :: "string option \<Rightarrow> geo_mode option" where
  "asMode v = (if v = Some ''block-listed'' then Some BlockListed
     else if v = Some ''allow-listed'' then Some AllowListed else None)"

definition asDirection :: "string option \<Rightarrow> geo_direction" where
  "asDirection v = (if v = Some ''source'' then GeoSource
     else if v = Some ''destination'' then GeoDestination else GeoBoth)"

definition is_named :: "rule_chain \<Rightarrow> bool" where
  "is_named c \<longleftrightarrow> prefix ''name:'' c"

definition asRuleset :: "string option \<Rightarrow> rule_chain" where
  "asRuleset v = (case v of None \<Rightarrow> ''forward''
     | Some c \<Rightarrow> if c = ''input'' \<or> c = ''output'' \<or> is_named c then c else ''forward'')"

text \<open>\<open>toUpperCase\<close> of ASCII text.\<close>

definition to_upper :: "string \<Rightarrow> string" where
  "to_upper s = map upper_char s"

definition parse_geo_action :: "string \<times> json \<Rightarrow> read_error + geo_action" where
  "parse_geo_action e = (let a = or_empty (snd e) in
     case has_key ''log'' a of Inl err \<Rightarrow> Inl err | Inr lg \<Rightarrow>
       Inr \<lparr>ga_name = fst e, ga_description = childStr a ''description'',
         ga_mode = asMode (childStr a ''mode''), ga_countries = map to_upper (childList a ''country''),
         ga_unknown = (if childStr a ''unknown-ip'' = Some ''block'' then UnknownBlock else UnknownAllow),
         ga_log = lg\<rparr>)"

definition parse_geo_policy :: "string \<times> json \<Rightarrow> read_error + geo_policy" where
  "parse_geo_policy e = (let p = or_empty (snd e) in
     case has_key ''disable'' p of Inl err \<Rightarrow> Inl err | Inr disabled \<Rightarrow>
       Inr \<lparr>gp_id = number_or_zero (fst e),
         gp_action = (case childStr p ''action'' of None \<Rightarrow> [] | Some a \<Rightarrow> a),
         gp_ruleset = asRuleset (childStr p ''ruleset''),
         gp_rule = (case childStr p ''rule'' of None \<Rightarrow> 0 | Some r \<Rightarrow> number_or_zero r),
         gp_direction = asDirection (childStr p ''direction''), gp_enabled = (\<not> disabled)\<rparr>)"

definition fetchGeolocation ::
  "(string \<Rightarrow> string \<Rightarrow> int) \<Rightarrow> vyos_response \<Rightarrow> read_error + geolocation_config" where
  "fetchGeolocation lc resp =
     (case config_of_response ''Device returned an error reading the geolocation config.'' resp of
        Inl e \<Rightarrow> Inl e
      | Inr cfg \<Rightarrow>
          (case map_res parse_geo_action (obj_entries (obj_or_empty (childCfg cfg ''action''))) of
             Inl e \<Rightarrow> Inl e
           | Inr actions \<Rightarrow>
               (case map_res parse_geo_policy (obj_entries (obj_or_empty (childCfg cfg ''policy''))) of
                  Inl e \<Rightarrow> Inl e
                | Inr policies \<Rightarrow>
                    Inr \<lparr>geo_actions = sort_by (\<lambda>a b. lc (ga_name a) (ga_name b)) actions,
                         geo_policies = sort_by (\<lambda>a b. gp_id a - gp_id b) policies\<rparr>)))"

definition actionUsage :: "geo_policy list \<Rightarrow> string \<Rightarrow> int list" where
  "actionUsage policies name = map gp_id (filter (\<lambda>p. gp_action p = name) policies)"

section \<open>Actions\<close>

definition actionBase :: "string \<Rightarrow> path" where
  "actionBase name = [''service'', ''geolocation'', ''action'', name]"

definition geo_policyBase :: "int \<Rightarrow> path" where
  "geo_policyBase n = [''service'', ''geolocation'', ''policy'', string_of_int n]"

text \<open>\<open>None\<close> is an acceptable name.\<close>

datatype action_name_error = BadActionName

definition validateActionName :: "string \<Rightarrow> action_name_error option" where
  "validateActionName name =
     (if name \<noteq> [] \<and> is_letter (hd name) \<and> list_all (\<lambda>c. is_letter c \<or> is_digit c \<or> c = CHR ''_'') (tl name) \<and>
        length (tl name) \<le> 31 then None else Some BadActionName)"

record geo_action_update =
  gau_name :: string
  gau_description :: "string option"
  gau_mode :: geo_mode
  gau_countries :: "string list"
  gau_unknown :: geo_unknown
  gau_log :: bool
  gau_original_name :: "string option"

definition geo_action_moved :: "geo_action_update \<Rightarrow> bool" where
  "geo_action_moved u \<longleftrightarrow> gau_original_name u \<noteq> None \<and> gau_original_name u \<noteq> Some (gau_name u)"

definition geo_action_live :: "geo_action list \<Rightarrow> geo_action_update \<Rightarrow> geo_action option" where
  "geo_action_live existing u = (if geo_action_moved u then None
     else List.find (\<lambda>a. ga_name a = gau_name u) existing)"

definition repoint_policies :: "geo_policy list \<Rightarrow> geo_action_update \<Rightarrow> vyos_command list" where
  "repoint_policies policies u =
     map (\<lambda>p. cset (geo_policyBase (gp_id p) @ [''action'', gau_name u]))
       (filter (\<lambda>p. Some (gp_action p) = gau_original_name u) policies)"

definition unknown_leaf :: "geo_unknown \<Rightarrow> string" where
  "unknown_leaf x = (case x of UnknownAllow \<Rightarrow> ''allow'' | UnknownBlock \<Rightarrow> ''block'')"

definition new_countries :: "geo_action_update \<Rightarrow> string list" where
  "new_countries u = uniq (map (\<lambda>c. to_upper (trim c)) (gau_countries u))"

definition geo_action_body :: "geo_action option \<Rightarrow> geo_action_update \<Rightarrow> vyos_command list" where
  "geo_action_body live u = (let base = actionBase (gau_name u) in
     leaf_cmds (base @ [''description'']) (Option.bind live ga_description) (blank_to_none (gau_description u)) @
     leaf_cmds (base @ [''mode'']) (map_option geo_mode_str (Option.bind live ga_mode))
       (Some (geo_mode_str (gau_mode u))) @
     leaf_cmds (base @ [''unknown-ip'']) (map_option (\<lambda>l. unknown_leaf (ga_unknown l)) live)
       (if gau_unknown u = UnknownBlock then Some ''block'' else None) @
     list_cmds (base @ [''country'']) (case live of None \<Rightarrow> [] | Some l \<Rightarrow> ga_countries l) (new_countries u) @
     flag_cmds (base @ [''log'']) (case live of None \<Rightarrow> False | Some l \<Rightarrow> ga_log l) (gau_log u))"

definition diffGeoAction ::
  "geo_action list \<Rightarrow> geo_policy list \<Rightarrow> geo_action_update \<Rightarrow> vyos_command list" where
  "diffGeoAction existing policies u =
     (if geo_action_moved u
      then cdel (actionBase (the (gau_original_name u))) # repoint_policies policies u else []) @
     geo_action_body (geo_action_live existing u) u"

definition deleteGeoAction_cmds :: "string \<Rightarrow> vyos_command list" where
  "deleteGeoAction_cmds name = [cdel (actionBase name)]"

section \<open>Policies\<close>

record geo_policy_update =
  gpu_id :: int
  gpu_action :: string
  gpu_ruleset :: rule_chain
  gpu_rule :: int
  gpu_direction :: geo_direction
  gpu_enabled :: bool
  gpu_original_id :: "int option"

definition geo_policy_moved :: "geo_policy_update \<Rightarrow> bool" where
  "geo_policy_moved u \<longleftrightarrow> gpu_original_id u \<noteq> None \<and> gpu_original_id u \<noteq> Some (gpu_id u)"

definition geo_policy_live :: "geo_policy list \<Rightarrow> geo_policy_update \<Rightarrow> geo_policy option" where
  "geo_policy_live existing u = (if geo_policy_moved u then None
     else List.find (\<lambda>p. gp_id p = gpu_id u) existing)"

definition geo_policy_body :: "geo_policy option \<Rightarrow> geo_policy_update \<Rightarrow> vyos_command list" where
  "geo_policy_body live u = (let base = geo_policyBase (gpu_id u) in
     leaf_cmds (base @ [''action'']) (map_option gp_action live) (Some (gpu_action u)) @
     leaf_cmds (base @ [''ruleset'']) (map_option gp_ruleset live) (Some (gpu_ruleset u)) @
     leaf_cmds (base @ [''rule'']) (map_option (\<lambda>l. string_of_int (gp_rule l)) live)
       (Some (string_of_int (gpu_rule u))) @
     leaf_cmds (base @ [''direction'']) (map_option (\<lambda>l. geo_direction_str (gp_direction l)) live)
       (Some (geo_direction_str (gpu_direction u))) @
     flag_cmds (base @ [''disable'']) (case live of None \<Rightarrow> False | Some l \<Rightarrow> \<not> gp_enabled l)
       (\<not> gpu_enabled u))"

definition diffGeoPolicy :: "geo_policy list \<Rightarrow> geo_policy_update \<Rightarrow> vyos_command list" where
  "diffGeoPolicy existing u =
     (if geo_policy_moved u then [cdel (geo_policyBase (the (gpu_original_id u)))] else []) @
     geo_policy_body (geo_policy_live existing u) u"

definition deleteGeoPolicy_cmds :: "int \<Rightarrow> vyos_command list" where
  "deleteGeoPolicy_cmds n = [cdel (geo_policyBase n)]"

record rule_scopes =
  rs_rule :: int
  rs_chains :: "rule_chain list"

definition policiesForRule :: "geo_policy list \<Rightarrow> rule_scopes \<Rightarrow> geo_policy list" where
  "policiesForRule policies rule =
     (let isZoneRule = list_ex is_named (rs_chains rule) in
      filter (\<lambda>p. gp_rule p = rs_rule rule \<and>
        (gp_ruleset p \<in> set (rs_chains rule) \<or> (isZoneRule \<and> is_named (gp_ruleset p)))) policies)"

text \<open>
  The policy of each scope: the existing one, or one at a number after all that are taken so far.
\<close>

definition after_last :: "int list \<Rightarrow> int" where
  "after_last taken = foldl max 0 taken + 10"

fun attach_ids :: "geo_policy list \<Rightarrow> int list \<Rightarrow> rule_chain list \<Rightarrow> (rule_chain \<times> int \<times> int option) list" where
  "attach_ids existing taken [] = []"
| "attach_ids existing taken (c # cs) =
     (case List.find (\<lambda>p. gp_ruleset p = c) existing of
        Some p \<Rightarrow> (c, gp_id p, Some (gp_id p)) # attach_ids existing taken cs
      | None \<Rightarrow> (let n = after_last taken in (c, n, None) # attach_ids existing (taken @ [n]) cs))"

definition attach_update ::
  "rule_scopes \<Rightarrow> string \<Rightarrow> geo_direction \<Rightarrow> rule_chain \<times> int \<times> int option \<Rightarrow> geo_policy_update" where
  "attach_update rule action direction e = (case e of (c, n, orig) \<Rightarrow>
     \<lparr>gpu_id = n, gpu_action = action, gpu_ruleset = c, gpu_rule = rs_rule rule,
      gpu_direction = direction, gpu_enabled = True, gpu_original_id = orig\<rparr>)"

definition diffGeoPoliciesForRule ::
  "geo_policy list \<Rightarrow> rule_scopes \<Rightarrow> string option \<Rightarrow> geo_direction \<Rightarrow> vyos_command list" where
  "diffGeoPoliciesForRule live rule action direction =
     (let existing = policiesForRule live rule in
      case action of
        None \<Rightarrow> map (\<lambda>p. cdel (geo_policyBase (gp_id p))) existing
      | Some a \<Rightarrow>
          concat (map (\<lambda>e. diffGeoPolicy live (attach_update rule a direction e))
            (attach_ids existing (map gp_id live) (rs_chains rule))) @
          map (\<lambda>p. cdel (geo_policyBase (gp_id p)))
            (filter (\<lambda>p. gp_ruleset p \<notin> set (rs_chains rule)) existing))"

definition setGeoPolicyEnabled_cmds :: "geo_policy \<Rightarrow> bool \<Rightarrow> vyos_command list" where
  "setGeoPolicyEnabled_cmds p enabled =
     (if gp_enabled p = enabled then []
      else let base = geo_policyBase (gp_id p) in
        [if enabled then cdel (base @ [''disable'']) else cset (base @ [''disable''])])"

definition nextPolicyId :: "geo_policy list \<Rightarrow> int" where
  "nextPolicyId policies = foldl (\<lambda>m p. max m (gp_id p)) 0 policies + 10"

section \<open>Countries, block events and addresses\<close>

record geo_country =
  gc_code :: string
  gc_name :: string
  gc_continent :: "string option"

definition CONTINENT_NAMES :: "string \<Rightarrow> string option" where
  "CONTINENT_NAMES c =
     (if c = ''AF'' then Some ''Africa'' else if c = ''AN'' then Some ''Antarctica'' else if c = ''AS'' then Some ''Asia''
      else if c = ''EU'' then Some ''Europe'' else if c = ''NA'' then Some ''North America''
      else if c = ''OC'' then Some ''Oceania'' else if c = ''SA'' then Some ''South America'' else None)"

record geo_event =
  ge_ts :: int
  ge_action_name :: string
  ge_iif :: "string option"
  ge_oif :: "string option"
  ge_src :: "string option"
  ge_dst :: "string option"
  ge_proto :: "string option"
  ge_spt :: "int option"
  ge_dpt :: "int option"
  ge_country :: "string option"
  ge_country_name :: "string option"

definition or_blank :: "string option \<Rightarrow> string" where
  "or_blank v = (case v of None \<Rightarrow> [] | Some s \<Rightarrow> s)"

definition geoEventKey :: "geo_event \<Rightarrow> string" where
  "geoEventKey e = string_of_int (ge_ts e) @ ''|'' @ ge_action_name e @ ''|'' @ or_blank (ge_src e) @ '':'' @
     or_blank (map_option string_of_int (ge_spt e)) @ ''|'' @ or_blank (ge_dst e) @ '':'' @
     or_blank (map_option string_of_int (ge_dpt e)) @ ''|'' @ or_blank (ge_proto e)"

text \<open>The code points of the flag.\<close>

definition flagEmoji :: "string \<Rightarrow> nat list" where
  "flagEmoji code = (case to_upper (trim code) of
     [a, b] \<Rightarrow> if 65 \<le> (of_char a :: nat) \<and> (of_char a :: nat) \<le> 90 \<and> 65 \<le> (of_char b :: nat) \<and> (of_char b :: nat) \<le> 90
       then [127462 + (of_char a - 65), 127462 + (of_char b - 65)] else []
   | _ \<Rightarrow> [])"

definition countryName :: "geo_country list \<Rightarrow> string \<Rightarrow> string" where
  "countryName countries code = (case List.find (\<lambda>c. gc_code c = to_upper code) countries of
     None \<Rightarrow> to_upper code | Some c \<Rightarrow> gc_name c)"

text \<open>\<open>Number.parseInt(s, 10)\<close>: the digits a string starts with, after white space and a sign.\<close>

definition parse_int :: "string \<Rightarrow> int option" where
  "parse_int s = (let t = dropWhile js_space s;
       neg = (t \<noteq> [] \<and> hd t = CHR ''-'');
       digits = takeWhile is_digit (if t \<noteq> [] \<and> hd t \<in> {CHR ''-'', CHR ''+''} then tl t else t) in
     if digits = [] then None
     else Some (if neg then - int (nat_of_digits digits) else int (nat_of_digits digits)))"

definition private_v6 :: "string \<Rightarrow> bool" where
  "private_v6 s \<longleftrightarrow> s = ''::1'' \<or> s = ''::'' \<or>
     (prefix ''fe'' s \<and> length s > 2 \<and> s ! 2 \<in> {CHR ''8'', CHR ''9'', CHR ''a'', CHR ''b''}) \<or>
     prefix ''fc'' s \<or> prefix ''fd'' s"

definition private_v4 :: "int \<Rightarrow> int \<Rightarrow> bool" where
  "private_v4 a b \<longleftrightarrow> a = 10 \<or> a = 127 \<or> (a = 169 \<and> b = 254) \<or> (a = 172 \<and> 16 \<le> b \<and> b \<le> 31) \<or>
     (a = 192 \<and> b = 168) \<or> (a = 100 \<and> 64 \<le> b \<and> b \<le> 127)"

definition isPrivateIp :: "string \<Rightarrow> bool" where
  "isPrivateIp ip = (let s = map lower_char (trim ip) in
     if CHR '':'' \<in> set s then private_v6 s
     else (case map parse_int (split_on (CHR ''.'') s) of
         [Some a, Some b, Some c, Some d] \<Rightarrow> private_v4 a b
       | _ \<Rightarrow> False))"

definition blockedIp :: "geo_event \<Rightarrow> string option" where
  "blockedIp e =
     (if or_blank (ge_src e) \<noteq> [] \<and> \<not> isPrivateIp (or_blank (ge_src e)) then ge_src e
      else if or_blank (ge_dst e) \<noteq> [] \<and> \<not> isPrivateIp (or_blank (ge_dst e)) then ge_dst e
      else None)"

end
