(* ===== verification/Geolocation_Effects.thy ===== *)
theory Geolocation_Effects
  imports Geolocation
begin

text \<open>
  What the geolocation commands do to the device, the freshness of the policy numbers, and the
  address test against the prefixes it stands for.
\<close>

section \<open>Policy numbers\<close>

lemma after_last_above: "x \<in> set taken \<Longrightarrow> x < after_last taken"
  using foldl_max_upper [of 0 taken] by (auto simp: after_last_def)

lemma nextPolicyId_after: "nextPolicyId policies = after_last (map gp_id policies)"
proof -
  have "foldl (\<lambda>m p. max m (gp_id p)) m policies = foldl max m (map gp_id policies)" for m
    by (induction policies arbitrary: m) simp_all
  then show ?thesis by (simp add: nextPolicyId_def after_last_def)
qed

interpretation policy_ids: fresh_key "\<lambda>policies. gp_id ` set policies" "\<lambda>u :: unit. nextPolicyId"
proof unfold_locales
  fix p :: unit and s :: "geo_policy list"
  show "nextPolicyId s \<notin> gp_id ` set s"
    using after_last_above [of "nextPolicyId s" "map gp_id s"] by (auto simp: nextPolicyId_after)
qed

lemma attach_ids_chains: "map fst (attach_ids existing taken cs) = cs"
  by (induction cs arbitrary: taken) (simp_all add: Let_def split: option.split)

lemma attach_ids_cases:
  assumes "(c, n, orig) \<in> set (attach_ids existing taken cs)"
  shows "c \<in> set cs \<and> (case orig of None \<Rightarrow> n \<notin> set taken \<and> List.find (\<lambda>p. gp_ruleset p = c) existing = None
    | Some m \<Rightarrow> m = n \<and> (\<exists>p. List.find (\<lambda>p. gp_ruleset p = c) existing = Some p \<and> gp_id p = n))"
  using assms
proof (induction cs arbitrary: taken)
  case (Cons d cs)
  show ?case
  proof (cases "List.find (\<lambda>p. gp_ruleset p = d) existing")
    case None
    show ?thesis
    proof (cases "(c, n, orig) = (d, after_last taken, None)")
      case True
      then show ?thesis using None after_last_above [of "after_last taken" taken] by auto
    next
      case False
      then have "(c, n, orig) \<in> set (attach_ids existing (taken @ [after_last taken]) cs)"
        using Cons.prems None by (auto simp: Let_def)
      from Cons.IH [OF this] show ?thesis by (auto split: option.splits)
    qed
  next
    case (Some p)
    then show ?thesis using Cons.prems Cons.IH [of taken] by (auto split: option.splits)
  qed
qed simp

lemma find_ruleset:
  assumes "List.find (\<lambda>p. gp_ruleset p = c) existing = Some p"
  shows "p \<in> set existing \<and> gp_ruleset p = c"
  using assms by (auto simp: find_Some_iff)

lemma attach_ids_old:
  assumes "(c, n, Some m) \<in> set (attach_ids existing taken cs)"
  shows "c \<in> set cs \<and> (\<exists>q \<in> set existing. gp_id q = n \<and> gp_ruleset q = c)"
proof -
  obtain p where "c \<in> set cs" "List.find (\<lambda>p. gp_ruleset p = c) existing = Some p" "gp_id p = n"
    using attach_ids_cases [OF assms] by auto
  then show ?thesis using find_ruleset [of c existing p] by blast
qed

text \<open>Every scope gets a number of its own.\<close>

lemma attach_ids_distinct:
  assumes "distinct cs" and "distinct (map gp_id existing)" and "gp_id ` set existing \<subseteq> set taken"
  shows "distinct (map (\<lambda>(c, n, orig). n) (attach_ids existing taken cs))"
  using assms(1,3)
proof (induction cs arbitrary: taken)
  case (Cons c cs)
  show ?case
  proof (cases "List.find (\<lambda>p. gp_ruleset p = c) existing")
    case None
    let ?n = "after_last taken" and ?rest = "attach_ids existing (taken @ [after_last taken]) cs"
    have "m \<noteq> ?n" if e: "(d, m, orig) \<in> set ?rest" for d m orig
    proof (cases orig)
      case None
      then show ?thesis using attach_ids_cases [OF e] by auto
    next
      case (Some k)
      then obtain p where "p \<in> set existing" "gp_id p = m" using attach_ids_old e by blast
      then show ?thesis using Cons.prems(2) after_last_above [of m taken] by auto
    qed
    then have "?n \<notin> set (map (\<lambda>(c, n, orig). n) ?rest)" by auto
    moreover have "distinct (map (\<lambda>(c, n, orig). n) ?rest)" using Cons by (intro Cons.IH) auto
    ultimately show ?thesis using None by (simp add: Let_def)
  next
    case (Some p)
    have "m \<noteq> gp_id p" if e: "(d, m, orig) \<in> set (attach_ids existing taken cs)" for d m orig
    proof (cases orig)
      case None
      then have "m \<notin> set taken" using attach_ids_cases [OF e] by simp
      then show ?thesis using Cons.prems(2) find_ruleset [OF Some] by auto
    next
      case (Some k)
      then obtain q where q: "q \<in> set existing" "gp_id q = m" "gp_ruleset q = d" "d \<in> set cs"
        using attach_ids_old e by blast
      have p: "p \<in> set existing" "gp_ruleset p = c" using find_ruleset \<open>List.find _ existing = Some p\<close> by auto
      show ?thesis
      proof
        assume "m = gp_id p"
        then have "p = q" using key_unique [OF assms(2) p(1) q(1)] q(2) by simp
        then show False using p q Cons.prems(1) by auto
      qed
    qed
    then have "gp_id p \<notin> set (map (\<lambda>(c, n, orig). n) (attach_ids existing taken cs))" by auto
    then show ?thesis using Some Cons by auto
  qed
qed simp

section \<open>The node of a policy\<close>

definition geo_schema :: "(path \<Rightarrow> bool) \<Rightarrow> bool" where
  "geo_schema single \<longleftrightarrow>
     (\<forall>n. \<not> single (geo_policyBase n) \<and>
        (\<forall>leaf \<in> {''action'', ''ruleset'', ''rule'', ''direction''}. single (geo_policyBase n @ [leaf]))) \<and>
     (\<forall>name. \<not> single (actionBase name) \<and> \<not> single (actionBase name @ [''country'']) \<and>
        (\<forall>leaf \<in> {''description'', ''mode'', ''unknown-ip''}. single (actionBase name @ [leaf])))"

definition geo_region :: "int \<Rightarrow> path set" where
  "geo_region n = (let base = geo_policyBase n in cone (base @ [''action'']) \<union> (cone (base @ [''ruleset'']) \<union>
     (cone (base @ [''rule'']) \<union> (cone (base @ [''direction'']) \<union> cone (base @ [''disable''])))))"

definition geo_paths :: "int \<Rightarrow> string option \<Rightarrow> string option \<Rightarrow> string option \<Rightarrow> string option \<Rightarrow> bool \<Rightarrow> path set" where
  "geo_paths n action ruleset rule direction off = (let base = geo_policyBase n in
     leaf_paths (base @ [''action'']) action \<union> (leaf_paths (base @ [''ruleset'']) ruleset \<union>
     (leaf_paths (base @ [''rule'']) rule \<union> (leaf_paths (base @ [''direction'']) direction \<union>
      flag_paths (base @ [''disable'']) off))))"

lemma edits_leaf_forced:
  assumes dev: "device_laws dev single" and "single p" and "desired \<noteq> live" and "L \<subseteq> cone p"
  shows "edits dev (cone p) (leaf_cmds p live desired) L (leaf_paths p desired)"
proof (rule editsI)
  fix R :: "path set" assume "R \<inter> cone p = {}"
  then have "R \<union> L - cone p = R" using assms(4) by blast
  then show "run dev (leaf_cmds p live desired) (R \<union> L) = R \<union> leaf_paths p desired"
    using assms(2,3)
    by (cases desired) (auto simp: leaf_cmds_def leaf_paths_def dev_delete [OF dev] dev_set_single [OF dev])
qed (use assms leaf_paths_cone in auto)

text \<open>
  The reader takes a missing direction as \<open>both\<close>: \<open>spelled\<close> tells whether the device spells
  that default out. Saving what was read writes nothing, so a default that was left out stays out.
\<close>

definition direction_before :: "bool \<Rightarrow> geo_policy option \<Rightarrow> string option" where
  "direction_before spelled l = (case l of None \<Rightarrow> None
     | Some p \<Rightarrow> if gp_direction p = GeoBoth \<and> \<not> spelled then None else Some (geo_direction_str (gp_direction p)))"

definition direction_after :: "bool \<Rightarrow> geo_policy option \<Rightarrow> geo_direction \<Rightarrow> string option" where
  "direction_after spelled l d =
     (if \<not> spelled \<and> d = GeoBoth \<and> map_option gp_direction l = Some GeoBoth then None else Some (geo_direction_str d))"

definition geo_policy_paths :: "bool \<Rightarrow> geo_policy option \<Rightarrow> int \<Rightarrow> path set" where
  "geo_policy_paths spelled l n = geo_paths n (map_option gp_action l) (map_option gp_ruleset l)
     (map_option (\<lambda>p. string_of_int (gp_rule p)) l) (direction_before spelled l)
     (case l of None \<Rightarrow> False | Some p \<Rightarrow> \<not> gp_enabled p)"

definition geo_update_paths :: "bool \<Rightarrow> geo_policy option \<Rightarrow> geo_policy_update \<Rightarrow> path set" where
  "geo_update_paths spelled l u = geo_paths (gpu_id u) (Some (gpu_action u)) (Some (gpu_ruleset u))
     (Some (string_of_int (gpu_rule u))) (direction_after spelled l (gpu_direction u)) (\<not> gpu_enabled u)"

lemma direction_str_inj [simp]: "geo_direction_str d = geo_direction_str e \<longleftrightarrow> d = e"
  by (cases d; cases e) simp_all

lemma edits_direction:
  assumes dev: "device_laws dev single" and single: "single p"
  shows "edits dev (cone p) (leaf_cmds p (map_option (\<lambda>l. geo_direction_str (gp_direction l)) l) (Some (geo_direction_str d)))
    (leaf_paths p (direction_before spelled l)) (leaf_paths p (direction_after spelled l d))"
proof (cases "map_option gp_direction l = Some d")
  case True
  then obtain q where l: "l = Some q" "gp_direction q = d" by (cases l) auto
  then have "direction_before spelled l = direction_after spelled l d"
    by (simp add: direction_before_def direction_after_def)
  then show ?thesis using l leaf_paths_cone [of p "direction_after spelled l d"]
    by (intro editsI) (simp_all add: leaf_cmds_def)
next
  case False
  then have "direction_after spelled l d = Some (geo_direction_str d)" by (auto simp: direction_after_def)
  moreover have "Some (geo_direction_str d) \<noteq> map_option (\<lambda>l. geo_direction_str (gp_direction l)) l"
    using False by (cases l) auto
  ultimately show ?thesis using edits_leaf_forced [OF dev single _ leaf_paths_cone] by metis
qed

lemma edits_geo_policy:
  assumes dev: "device_laws dev single" and sch: "geo_schema single"
  shows "edits dev (geo_region (gpu_id u)) (geo_policy_body l u) (geo_policy_paths spelled l (gpu_id u))
    (geo_update_paths spelled l u)"
proof -
  let ?b = "geo_policyBase (gpu_id u)"
  have s: "single (?b @ [''action''])" "single (?b @ [''ruleset''])" "single (?b @ [''rule''])"
      "single (?b @ [''direction''])" "\<not> single (butlast (?b @ [''disable'']))"
    using sch by (simp_all add: geo_schema_def)
  show ?thesis
    unfolding geo_region_def geo_policy_body_def geo_policy_paths_def geo_update_paths_def geo_paths_def Let_def
    by (intro edits_append edits_direction [OF dev] edits_leaf [OF dev] edits_flag [OF dev] s) (simp_all add: cone_simps)
qed

lemma geo_policyBase_inj [simp]: "geo_policyBase n = geo_policyBase m \<longleftrightarrow> n = m"
  by (simp add: geo_policyBase_def)

interpretation geo_nodes: keyed_nodes geo_policyBase "\<lambda>_. True" 4
  by unfold_locales (auto simp: geo_policyBase_def)

lemma geo_region_cone: "geo_region n \<subseteq> cone (geo_policyBase n)"
  unfolding geo_region_def Let_def by (intro Un_least cone_append_subset)

lemma geo_regions_disjoint: "n \<noteq> m \<Longrightarrow> geo_region n \<inter> cone (geo_policyBase m) = {}"
  using geo_nodes.cones_disjoint [of n m] geo_region_cone [of n] by blast

lemma geo_regions_disjoint2: "n \<noteq> m \<Longrightarrow> geo_region n \<inter> geo_region m = {}"
  using geo_regions_disjoint [of n m] geo_region_cone [of m] by blast

section \<open>Attaching an action to a rule\<close>

text \<open>
  The live policy an attachment edits: none for a fresh number.
\<close>

definition attach_live :: "geo_policy list \<Rightarrow> int \<Rightarrow> geo_policy option" where
  "attach_live live n = List.find (\<lambda>p. gp_id p = n) live"

lemma attach_cmds:
  assumes "(c, n, orig) \<in> set (attach_ids existing taken cs)"
  shows "diffGeoPolicy live (attach_update rule a d (c, n, orig)) =
    geo_policy_body (attach_live live n) (attach_update rule a d (c, n, orig))"
proof -
  have "orig = None \<or> orig = Some n" using attach_ids_cases [OF assms] by (cases orig) auto
  then have "\<not> geo_policy_moved (attach_update rule a d (c, n, orig))"
    by (auto simp: geo_policy_moved_def attach_update_def)
  then show ?thesis
    by (simp add: diffGeoPolicy_def geo_policy_live_def attach_live_def) (simp add: attach_update_def)
qed

definition attached :: "geo_policy list \<Rightarrow> rule_scopes \<Rightarrow> (rule_chain \<times> int) list" where
  "attached live rule = map (\<lambda>(c, n, orig). (c, n))
     (attach_ids (policiesForRule live rule) (map gp_id live) (rs_chains rule))"

definition retired :: "geo_policy list \<Rightarrow> rule_scopes \<Rightarrow> int list" where
  "retired live rule = map gp_id
     (filter (\<lambda>p. gp_ruleset p \<notin> set (rs_chains rule)) (policiesForRule live rule))"

lemma policiesForRule_subset: "set (policiesForRule live rule) \<subseteq> set live"
  by (auto simp: policiesForRule_def Let_def)

lemma attached_facts:
  assumes "distinct (map gp_id live)" and "distinct (rs_chains rule)"
  shows "map fst (attached live rule) = rs_chains rule" and "distinct (map snd (attached live rule))"
    and "set (map snd (attached live rule)) \<inter> set (retired live rule) = {}"
proof -
  let ?e = "policiesForRule live rule"
  have de: "distinct (map gp_id ?e)"
    using assms(1) by (simp add: policiesForRule_def Let_def distinct_map_filter)
  have "map fst (attached live rule) = map fst (attach_ids ?e (map gp_id live) (rs_chains rule))"
    by (simp add: attached_def split_def comp_def)
  then show "map fst (attached live rule) = rs_chains rule" by (simp add: attach_ids_chains)
  have "map snd (attached live rule) = map (\<lambda>(c, n, orig). n) (attach_ids ?e (map gp_id live) (rs_chains rule))"
    by (simp add: attached_def split_def comp_def)
  moreover have "gp_id ` set ?e \<subseteq> set (map gp_id live)" using policiesForRule_subset by fastforce
  ultimately show "distinct (map snd (attached live rule))"
    using attach_ids_distinct [OF assms(2) de] by simp
  have "n \<notin> set (retired live rule)"
    if e: "(c, n, orig) \<in> set (attach_ids ?e (map gp_id live) (rs_chains rule))" for c n orig
  proof
    assume "n \<in> set (retired live rule)"
    then obtain p where p: "p \<in> set ?e" "gp_ruleset p \<notin> set (rs_chains rule)" "gp_id p = n"
      by (auto simp: retired_def)
    note cs = attach_ids_cases [OF e]
    show False
    proof (cases orig)
      case None
      then show False using cs p policiesForRule_subset [of live rule] by auto
    next
      case (Some m)
      then obtain q where q: "q \<in> set ?e" "gp_ruleset q = c" "gp_id q = n" using attach_ids_old e by blast
      then have "p = q" using key_unique [OF de p(1) q(1)] p(3) by simp
      then show False using p q cs by simp
    qed
  qed
  then show "set (map snd (attached live rule)) \<inter> set (retired live rule) = {}"
    unfolding attached_def by (fastforce simp: disjoint_iff)
qed

lemma attached_keeps_others:
  assumes dist: "distinct (map gp_id live)" and p: "p \<in> set live" "p \<notin> set (policiesForRule live rule)"
  shows "gp_id p \<notin> snd ` set (attached live rule) \<and> gp_id p \<notin> set (retired live rule)"
proof -
  let ?e = "policiesForRule live rule"
  have other: "gp_id q \<noteq> gp_id p" if "q \<in> set ?e" for q
    using key_unique [OF dist _ p(1)] that p(2) policiesForRule_subset by blast
  have "n \<noteq> gp_id p" if e: "(c, n, orig) \<in> set (attach_ids ?e (map gp_id live) (rs_chains rule))" for c n orig
  proof (cases orig)
    case None
    then have "n \<notin> set (map gp_id live)" using attach_ids_cases [OF e] by simp
    then show ?thesis using p(1) by auto
  next
    case (Some m)
    then obtain q where "q \<in> set ?e" "gp_id q = n" using attach_ids_old e by blast
    then show ?thesis using other by blast
  qed
  then have "gp_id p \<notin> snd ` set (attached live rule)" unfolding attached_def by fastforce
  moreover have "gp_id p \<notin> set (retired live rule)" using other by (fastforce simp: retired_def)
  ultimately show ?thesis by simp
qed

text \<open>The whole effect, over the numbers that the code allots.\<close>

lemma geo_attach_effect:
  assumes dev: "device_laws dev single" and sch: "geo_schema single"
    and ids: "distinct (map gp_id live)" and chs: "distinct (rs_chains rule)"
    and live: "\<And>n. n \<in> snd ` set (attached live rule) \<Longrightarrow>
      S \<inter> geo_region n = geo_policy_paths (spelled n) (attach_live live n) n"
  shows "run dev (diffGeoPoliciesForRule live rule (Some a) d) S =
      (S - (\<Union>n \<in> snd ` set (attached live rule). geo_region n) -
        (\<Union>n \<in> set (retired live rule). cone (geo_policyBase n))) \<union>
      (\<Union>(c, n) \<in> set (attached live rule).
        geo_paths n (Some a) (Some c) (Some (string_of_int (rs_rule rule))) (direction_after (spelled n) (attach_live live n) d) False) \<and>
    map fst (attached live rule) = rs_chains rule \<and> distinct (map snd (attached live rule)) \<and>
      (\<forall>p \<in> set live - set (policiesForRule live rule).
        gp_id p \<notin> snd ` set (attached live rule) \<and> gp_id p \<notin> set (retired live rule))"
proof (rule conjI)
  let ?es = "attach_ids (policiesForRule live rule) (map gp_id live) (rs_chains rule)"
  let ?C = "\<lambda>e. geo_region (fst (snd e))"
  let ?L = "\<lambda>e. geo_policy_paths (spelled (fst (snd e))) (attach_live live (fst (snd e))) (fst (snd e))"
  let ?D = "\<lambda>e. geo_update_paths (spelled (fst (snd e))) (attach_live live (fst (snd e))) (attach_update rule a d e)"
  note facts = attached_facts [OF ids chs]
  have att: "attached live rule = map (\<lambda>e. (fst e, fst (snd e))) ?es" by (simp add: attached_def split_def)
  have dn: "distinct (map (\<lambda>e. fst (snd e)) ?es)" using facts(2) by (simp add: att comp_def)
  have "edits dev (\<Union>e\<in>set ?es. ?C e) (concat (map (\<lambda>e. diffGeoPolicy live (attach_update rule a d e)) ?es))
      (\<Union>e\<in>set ?es. ?L e) (\<Union>e\<in>set ?es. ?D e)"
  proof (rule edits_concat)
    fix e assume "e \<in> set ?es"
    moreover obtain c n orig where e: "e = (c, n, orig)" by (cases e) auto
    ultimately show "edits dev (?C e) (diffGeoPolicy live (attach_update rule a d e)) (?L e) (?D e)"
      using edits_geo_policy [OF dev sch, of "attach_update rule a d e" "attach_live live n" "spelled n"]
      by (simp add: attach_cmds) (simp add: attach_update_def)
  next
    show "distinct ?es" using dn by (simp add: distinct_map)
    fix x y assume "x \<in> set ?es" "y \<in> set ?es" "x \<noteq> y"
    then show "?C x \<inter> ?C y = {}" using key_unique [OF dn] geo_regions_disjoint2 by metis
  qed
  moreover have "S \<inter> (\<Union>e\<in>set ?es. ?C e) = (\<Union>e\<in>set ?es. ?L e)"
    using live by (simp add: att Int_UN_distrib image_image)
  ultimately have run1: "run dev (concat (map (\<lambda>e. diffGeoPolicy live (attach_update rule a d e)) ?es)) S =
      (S - (\<Union>e\<in>set ?es. ?C e)) \<union> (\<Union>e\<in>set ?es. ?D e)"
    by (rule edits_run)
  have C: "(\<Union>e\<in>set ?es. ?C e) = (\<Union>n \<in> snd ` set (attached live rule). geo_region n)"
    by (simp add: att image_image)
  have D: "(\<Union>e\<in>set ?es. ?D e) = (\<Union>(c, n) \<in> set (attached live rule).
      geo_paths n (Some a) (Some c) (Some (string_of_int (rs_rule rule))) (direction_after (spelled n) (attach_live live n) d) False)"
    by (simp add: att image_image split_def geo_update_paths_def attach_update_def)
  have dels: "map (\<lambda>p. cdel (geo_policyBase (gp_id p)))
      (filter (\<lambda>p. gp_ruleset p \<notin> set (rs_chains rule)) (policiesForRule live rule)) =
      map (\<lambda>n. cdel (geo_policyBase n)) (retired live rule)"
    by (simp add: retired_def)
  have apart: "geo_paths n x y z v b \<inter> cone (geo_policyBase m) = {}" if "n \<noteq> m" for n m x y z v b
  proof -
    have "geo_paths n x y z v b \<subseteq> cone (geo_policyBase n)"
      unfolding geo_paths_def Let_def
      by (intro Un_least order_trans [OF leaf_paths_cone] order_trans [OF flag_paths_cone] cone_append_subset)
    then show ?thesis using geo_nodes.cones_disjoint [of n m] that by blast
  qed
  have out: "geo_paths n x y z v b - (\<Union>m \<in> set (retired live rule). cone (geo_policyBase m)) = geo_paths n x y z v b"
    if n: "n \<in> set (map snd (attached live rule))" for n x y z v b
  proof -
    have "geo_paths n x y z v b \<inter> cone (geo_policyBase m) = {}" if m: "m \<in> set (retired live rule)" for m
    proof (rule apart)
      show "n \<noteq> m" using m n facts(3) by (metis IntI emptyE)
    qed
    then show ?thesis by blast
  qed
  let ?P = "\<lambda>(c, n). geo_paths n (Some a) (Some c) (Some (string_of_int (rs_rule rule))) (direction_after (spelled n) (attach_live live n) d) False"
  have keep: "(\<Union>e \<in> set (attached live rule). ?P e) - (\<Union>m \<in> set (retired live rule). cone (geo_policyBase m)) =
      (\<Union>e \<in> set (attached live rule). ?P e)"
    unfolding UN_simps(6) [symmetric]
  proof (rule SUP_cong [OF refl])
    fix e assume e: "e \<in> set (attached live rule)"
    obtain c n where cn: "e = (c, n)" by (cases e)
    from e have "n \<in> set (map snd (attached live rule))" unfolding cn by force
    from out [OF this] show "?P e - (\<Union>m \<in> set (retired live rule). cone (geo_policyBase m)) = ?P e" by (simp add: cn)
  qed
  show "run dev (diffGeoPoliciesForRule live rule (Some a) d) S =
      (S - (\<Union>n \<in> snd ` set (attached live rule). geo_region n) -
        (\<Union>n \<in> set (retired live rule). cone (geo_policyBase n))) \<union>
      (\<Union>(c, n) \<in> set (attached live rule).
        geo_paths n (Some a) (Some c) (Some (string_of_int (rs_rule rule))) (direction_after (spelled n) (attach_live live n) d) False)"
    unfolding diffGeoPoliciesForRule_def Let_def option.case dels run_append run1 run_deletes [OF dev] C D
    by (simp only: Un_Diff keep)
  show "map fst (attached live rule) = rs_chains rule \<and> distinct (map snd (attached live rule)) \<and>
      (\<forall>p \<in> set live - set (policiesForRule live rule).
        gp_id p \<notin> snd ` set (attached live rule) \<and> gp_id p \<notin> set (retired live rule))"
    using facts attached_keeps_others [OF ids] by blast
qed

text \<open>
  What an attachment promises, stated over the device. A policy belongs to a rule when it has the rule's
  number and targets a chain of the rule or, for a rule between zones, any zone ruleset; the device has a
  policy when its node spells out the policy's leaves, where the direction \<open>both\<close> may be left out and
  \<open>disable\<close> is there when the policy is off.
\<close>

definition policy_of_rule :: "rule_scopes \<Rightarrow> geo_policy \<Rightarrow> bool" where
  "policy_of_rule rule p \<longleftrightarrow> gp_rule p = rs_rule rule \<and>
     (gp_ruleset p \<in> set (rs_chains rule) \<or>
      prefix ''name:'' (gp_ruleset p) \<and> (\<exists>c\<in>set (rs_chains rule). prefix ''name:'' c))"

definition policy_at :: "path set \<Rightarrow> int \<Rightarrow> string \<Rightarrow> rule_chain \<Rightarrow> int \<Rightarrow> geo_direction \<Rightarrow> bool \<Rightarrow> bool" where
  "policy_at S n action chain rule dir enabled \<longleftrightarrow> (let base = [''service'', ''geolocation'', ''policy'', string_of_int n];
       leaves = {base @ [''action'', action], base @ [''ruleset'', chain], base @ [''rule'', string_of_int rule]} \<union>
         (if enabled then {} else {base @ [''disable'']}) in
     S \<inter> geo_region n = leaves \<union> {base @ [''direction'', geo_direction_str dir]} \<or>
     dir = GeoBoth \<and> S \<inter> geo_region n = leaves)"

lemma policiesForRule_spec: "p \<in> set (policiesForRule live rule) \<longleftrightarrow> p \<in> set live \<and> policy_of_rule rule p"
  by (auto simp: policiesForRule_def policy_of_rule_def Let_def is_named_def list_ex_iff)

lemma policy_at_paths:
  "policy_at S n a c r d on \<longleftrightarrow> (\<exists>dir. S \<inter> geo_region n =
     geo_paths n (Some a) (Some c) (Some (string_of_int r)) dir (\<not> on) \<and>
     (dir = Some (geo_direction_str d) \<or> dir = None \<and> d = GeoBoth))"
proof -
  let ?base = "[''service'', ''geolocation'', ''policy'', string_of_int n]"
  define L where "L = {?base @ [''action'', a], ?base @ [''ruleset'', c], ?base @ [''rule'', string_of_int r]} \<union>
    (if on then {} else {?base @ [''disable'']})"
  have paths: "geo_paths n (Some a) (Some c) (Some (string_of_int r)) dir (\<not> on) =
      L \<union> (case dir of None \<Rightarrow> {} | Some s \<Rightarrow> {?base @ [''direction'', s]})" for dir
    by (cases dir; cases on)
      (simp_all add: L_def geo_paths_def Let_def leaf_paths_def flag_paths_def geo_policyBase_def insert_commute)
  have "policy_at S n a c r d on \<longleftrightarrow> S \<inter> geo_region n = L \<union> {?base @ [''direction'', geo_direction_str d]} \<or>
      d = GeoBoth \<and> S \<inter> geo_region n = L"
    unfolding policy_at_def Let_def L_def ..
  also have "\<dots> \<longleftrightarrow> (\<exists>dir. S \<inter> geo_region n = L \<union> (case dir of None \<Rightarrow> {} | Some s \<Rightarrow> {?base @ [''direction'', s]}) \<and>
      (dir = Some (geo_direction_str d) \<or> dir = None \<and> d = GeoBoth))"
    by (rule iffI; elim disjE exE conjE) (force split: option.splits)+
  finally show ?thesis unfolding paths .
qed

lemma attached_cases:
  assumes "(c, n) \<in> set (attached live rule)"
  shows "c \<in> set (rs_chains rule)" and
    "if \<exists>p\<in>set live. policy_of_rule rule p \<and> gp_ruleset p = c
     then \<exists>p\<in>set live. policy_of_rule rule p \<and> gp_ruleset p = c \<and> gp_id p = n
     else n \<notin> gp_id ` set live"
proof -
  obtain orig where e: "(c, n, orig) \<in> set (attach_ids (policiesForRule live rule) (map gp_id live) (rs_chains rule))"
    using assms by (auto simp: attached_def)
  note cs = attach_ids_cases [OF e]
  show "c \<in> set (rs_chains rule)" using cs by simp
  show "if \<exists>p\<in>set live. policy_of_rule rule p \<and> gp_ruleset p = c
     then \<exists>p\<in>set live. policy_of_rule rule p \<and> gp_ruleset p = c \<and> gp_id p = n
     else n \<notin> gp_id ` set live"
  proof (cases orig)
    case None
    then have "n \<notin> gp_id ` set live" "List.find (\<lambda>p. gp_ruleset p = c) (policiesForRule live rule) = None"
      using cs by simp_all
    then show ?thesis by (auto simp: find_None_iff policiesForRule_spec)
  next
    case (Some m)
    then obtain p where "p \<in> set (policiesForRule live rule)" "gp_id p = n" "gp_ruleset p = c"
      using attach_ids_old e by blast
    then show ?thesis by (auto simp: policiesForRule_spec)
  qed
qed

lemma retired_spec: "n \<in> set (retired live rule) \<longleftrightarrow>
    (\<exists>p\<in>set live. policy_of_rule rule p \<and> gp_ruleset p \<notin> set (rs_chains rule) \<and> gp_id p = n)"
  by (auto simp: retired_def policiesForRule_spec)

lemma attach_live_some: "distinct (map gp_id live) \<Longrightarrow> p \<in> set live \<Longrightarrow> attach_live live (gp_id p) = Some p"
proof -
  assume ids: "distinct (map gp_id live)" and p: "p \<in> set live"
  then obtain q where q: "List.find (\<lambda>q. gp_id q = gp_id p) live = Some q"
    by (cases "List.find (\<lambda>q. gp_id q = gp_id p) live") (auto simp: find_None_iff)
  then have "q \<in> set live" "gp_id q = gp_id p" by (auto simp: find_Some_iff)
  with key_unique [OF ids _ p] q show ?thesis by (simp add: attach_live_def)
qed

lemma attach_live_none: "n \<notin> gp_id ` set live \<Longrightarrow> attach_live live n = None"
  by (auto simp: attach_live_def find_None_iff)

lemma pieces_frame:
  assumes "\<And>e. e \<in> A \<Longrightarrow> P e \<inter> K = {}" and "\<And>n. n \<in> N \<Longrightarrow> R n \<inter> K = {}" and "\<And>n. n \<in> M \<Longrightarrow> C n \<inter> K = {}"
  shows "((S - (\<Union>n\<in>N. R n) - (\<Union>n\<in>M. C n)) \<union> (\<Union>e\<in>A. P e)) \<inter> K = S \<inter> K"
proof (rule set_eqI)
  fix x
  have "x \<in> K \<Longrightarrow> e \<in> A \<Longrightarrow> x \<notin> P e" "x \<in> K \<Longrightarrow> n \<in> N \<Longrightarrow> x \<notin> R n" "x \<in> K \<Longrightarrow> m \<in> M \<Longrightarrow> x \<notin> C m" for e n m
    using assms(1) [of e] assms(2) [of n] assms(3) [of m] by auto
  then show "x \<in> ((S - (\<Union>n\<in>N. R n) - (\<Union>n\<in>M. C n)) \<union> (\<Union>e\<in>A. P e)) \<inter> K \<longleftrightarrow> x \<in> S \<inter> K" by auto
qed

text \<open>
  C26: attaching a geolocation action to a rule takes effect in every scope of the rule at once, and nowhere
  else. Afterwards every chain of the rule has an enabled policy with that action, chain, rule number and
  direction, each at a number of its own: that of a policy the rule had on the chain, or else one that no
  policy had. The rule's policies on zone rulesets it no longer spans are gone. Every policy that is not the
  rule's, one of the same number in another base chain included, keeps its whole configuration, and nothing
  else on the device changes.
\<close>

theorem geo_attach_run:
  assumes dev: "device_laws dev single" and sch: "geo_schema single"
    and ids: "distinct (map gp_id live)" and chs: "distinct (rs_chains rule)"
    and read: "\<forall>p\<in>set live. policy_at S (gp_id p) (gp_action p) (gp_ruleset p) (gp_rule p) (gp_direction p) (gp_enabled p)"
    and free: "\<forall>n. n \<notin> gp_id ` set live \<longrightarrow> S \<inter> geo_region n = {}"
    and T: "T = run dev (diffGeoPoliciesForRule live rule (Some a) d) S"
  shows "(\<exists>num. inj_on num (set (rs_chains rule)) \<and>
      (\<forall>c\<in>set (rs_chains rule). policy_at T (num c) a c (rs_rule rule) d True \<and>
        (if \<exists>p\<in>set live. policy_of_rule rule p \<and> gp_ruleset p = c
         then \<exists>p\<in>set live. policy_of_rule rule p \<and> gp_ruleset p = c \<and> gp_id p = num c
         else num c \<notin> gp_id ` set live)) \<and>
      (\<forall>q. (\<forall>c\<in>set (rs_chains rule). q \<notin> geo_region (num c)) \<and>
        (\<forall>p\<in>set live. policy_of_rule rule p \<and> gp_ruleset p \<notin> set (rs_chains rule) \<longrightarrow>
           \<not> prefix (geo_policyBase (gp_id p)) q) \<longrightarrow> (q \<in> T \<longleftrightarrow> q \<in> S))) \<and>
    (\<forall>p\<in>set live. policy_of_rule rule p \<and> gp_ruleset p \<notin> set (rs_chains rule) \<longrightarrow>
      T \<inter> cone (geo_policyBase (gp_id p)) = {}) \<and>
    (\<forall>p\<in>set live. \<not> policy_of_rule rule p \<longrightarrow>
      T \<inter> cone (geo_policyBase (gp_id p)) = S \<inter> cone (geo_policyBase (gp_id p)))"
proof -
  let ?A = "attached live rule" and ?cs = "set (rs_chains rule)"
  note facts = attached_facts [OF ids chs]
  define spelled where "spelled n \<longleftrightarrow> S \<inter> geo_region n = geo_policy_paths True (attach_live live n) n" for n
  have live: "S \<inter> geo_region n = geo_policy_paths (spelled n) (attach_live live n) n" for n
  proof (cases "n \<in> gp_id ` set live")
    case True
    then obtain p where p: "p \<in> set live" "n = gp_id p" by blast
    then have l: "attach_live live n = Some p" using attach_live_some [OF ids] by simp
    from read p(1) have "policy_at S (gp_id p) (gp_action p) (gp_ruleset p) (gp_rule p) (gp_direction p) (gp_enabled p)" by blast
    then obtain dir where dir: "S \<inter> geo_region n = geo_paths n (Some (gp_action p)) (Some (gp_ruleset p))
          (Some (string_of_int (gp_rule p))) dir (\<not> gp_enabled p)"
        "dir = Some (geo_direction_str (gp_direction p)) \<or> dir = None \<and> gp_direction p = GeoBoth"
      unfolding policy_at_paths p(2) by blast
    have "dir = direction_before True (Some p) \<or> dir = direction_before False (Some p)"
      using dir(2) by (auto simp: direction_before_def)
    then have "S \<inter> geo_region n = geo_policy_paths True (Some p) n \<or> S \<inter> geo_region n = geo_policy_paths False (Some p) n"
      unfolding dir(1) by (elim disjE) (simp_all add: geo_policy_paths_def)
    then show ?thesis unfolding spelled_def l by (cases "S \<inter> geo_region n = geo_policy_paths True (Some p) n") auto
  next
    case False
    then have "S \<inter> geo_region n = geo_policy_paths b (attach_live live n) n" for b
      using free [rule_format, OF False] attach_live_none [OF False]
      by (simp add: geo_policy_paths_def geo_paths_def direction_before_def leaf_paths_def flag_paths_def Let_def)
    then show ?thesis .
  qed
  let ?P = "\<lambda>(c, n). geo_paths n (Some a) (Some c) (Some (string_of_int (rs_rule rule)))
      (direction_after (spelled n) (attach_live live n) d) False"
  have eff: "T = (S - (\<Union>n \<in> snd ` set ?A. geo_region n) - (\<Union>n \<in> set (retired live rule). cone (geo_policyBase n))) \<union>
      (\<Union>e \<in> set ?A. ?P e)"
    and others: "\<forall>p \<in> set live - set (policiesForRule live rule).
        gp_id p \<notin> snd ` set ?A \<and> gp_id p \<notin> set (retired live rule)"
    using geo_attach_effect [OF dev sch ids chs live, of a d] unfolding T by simp_all
  define num where "num c = the (map_of ?A c)" for c
  have num: "(c, num c) \<in> set ?A" if "c \<in> ?cs" for c
    using that facts(1) map_of_SomeD unfolding num_def
    by (metis domD domIff dom_map_of_conv_image_fst image_set option.sel)
  have num_eq: "n = num c" if "(c, n) \<in> set ?A" for c n
    using that facts(1) chs unfolding num_def by (metis map_of_eq_Some_iff option.sel)
  have P_region: "?P (c, n) \<subseteq> geo_region n" for c n
    unfolding geo_paths_def geo_region_def Let_def prod.case by (intro Un_mono leaf_paths_cone flag_paths_cone)
  have "fst ` set ?A = ?cs" using facts(1) by (metis image_set)
  then have "e \<in> set ?A \<Longrightarrow> fst e \<in> ?cs \<and> snd e = num (fst e)" for e using num_eq [of "fst e" "snd e"] by auto
  then have snds: "snd ` set ?A = num ` ?cs"
    using image_eqI [OF _ num, of _ snd] by (intro equalityI subsetI) auto
  have apart: "geo_region n \<inter> cone (geo_policyBase m) = {}" if "n \<noteq> m" for n m
    using geo_regions_disjoint [OF that] .
  have other_P: "?P e \<inter> geo_region n = {}" "?P e \<inter> cone (geo_policyBase n) = {}" if "e \<in> set ?A" "n \<noteq> snd e" for e n
    using that P_region [of "fst e" "snd e"] apart [of "snd e" n] geo_regions_disjoint2 [of "snd e" n] by auto
  have here: "T \<inter> geo_region (num c) = ?P (c, num c)" if c: "c \<in> ?cs" for c
  proof -
    have "?P e \<inter> geo_region (num c) = {}" if e: "e \<in> set ?A" "e \<noteq> (c, num c)" for e
    proof (rule other_P [OF e(1)])
      show "num c \<noteq> snd e" using key_unique [OF facts(2) e(1) num [OF c]] e(2) by auto
    qed
    then have "(\<Union>e \<in> set ?A. ?P e) \<inter> geo_region (num c) = ?P (c, num c)"
      using num [OF c] P_region [of c "num c"] by blast
    then show ?thesis unfolding eff snds using c by blast
  qed
  have inj: "inj_on num ?cs"
    using key_unique [OF facts(2) num num] by (intro inj_onI) auto
  have at: "policy_at T (num c) a c (rs_rule rule) d True" if "c \<in> ?cs" for c
    unfolding policy_at_paths here [OF that] by (auto simp: direction_after_def)
  have frame: "q \<in> T \<longleftrightarrow> q \<in> S" if q: "\<forall>c\<in>?cs. q \<notin> geo_region (num c)"
      "\<forall>p\<in>set live. policy_of_rule rule p \<and> gp_ruleset p \<notin> ?cs \<longrightarrow> \<not> prefix (geo_policyBase (gp_id p)) q" for q
  proof -
    have "q \<notin> ?P e" if "e \<in> set ?A" for e
    proof -
      have "snd e \<in> num ` ?cs" using that unfolding snds [symmetric] by (rule imageI)
      then have "q \<notin> geo_region (snd e)" using q(1) by auto
      then show ?thesis using P_region [of "fst e" "snd e"] unfolding prod.collapse by blast
    qed
    moreover have "\<not> prefix (geo_policyBase n) q" if "n \<in> set (retired live rule)" for n
      using that q(2) by (auto simp: retired_spec)
    ultimately show ?thesis unfolding eff snds using q(1) by auto
  qed
  have gone: "T \<inter> cone (geo_policyBase (gp_id p)) = {}"
    if p: "p \<in> set live" "policy_of_rule rule p" "gp_ruleset p \<notin> ?cs" for p
  proof -
    have r: "gp_id p \<in> set (retired live rule)" using p by (auto simp: retired_spec)
    have "?P e \<inter> cone (geo_policyBase (gp_id p)) = {}" if "e \<in> set ?A" for e
    proof (rule other_P(2) [OF that])
      show "gp_id p \<noteq> snd e" using r facts(3) that by auto
    qed
    then show ?thesis unfolding eff using r by blast
  qed
  have kept: "T \<inter> cone (geo_policyBase (gp_id p)) = S \<inter> cone (geo_policyBase (gp_id p))"
    if p: "p \<in> set live" "\<not> policy_of_rule rule p" for p
  proof -
    have n: "gp_id p \<notin> snd ` set ?A" "gp_id p \<notin> set (retired live rule)"
      using others p by (auto simp: policiesForRule_spec)
    show ?thesis unfolding eff
    proof (rule pieces_frame)
      fix e assume e: "e \<in> set ?A"
      show "?P e \<inter> cone (geo_policyBase (gp_id p)) = {}" by (rule other_P(2) [OF e]) (use n(1) e in auto)
    next
      fix m assume "m \<in> snd ` set ?A"
      then show "geo_region m \<inter> cone (geo_policyBase (gp_id p)) = {}" using n(1) by (intro apart) metis
    next
      fix m assume "m \<in> set (retired live rule)"
      then show "cone (geo_policyBase m) \<inter> cone (geo_policyBase (gp_id p)) = {}"
        by (intro geo_nodes.cones_disjoint) (use n(2) in auto)
    qed
  qed
  show ?thesis
  proof (intro conjI exI [of _ num] ballI allI impI)
    fix c assume "c \<in> ?cs"
    then show "policy_at T (num c) a c (rs_rule rule) d True"
      "if \<exists>p\<in>set live. policy_of_rule rule p \<and> gp_ruleset p = c
       then \<exists>p\<in>set live. policy_of_rule rule p \<and> gp_ruleset p = c \<and> gp_id p = num c
       else num c \<notin> gp_id ` set live"
      by (rule at, rule attached_cases(2) [OF num])
  qed (use inj frame gone kept in auto)
qed

definition geo_single :: "path \<Rightarrow> bool" where
  "geo_single p \<longleftrightarrow> length p = 5 \<and> last p \<in> set [''action'', ''ruleset'', ''rule'', ''direction'', ''description'', ''mode'', ''unknown-ip'']"

lemma geo_single_schema: "geo_schema geo_single"
  by (simp add: geo_schema_def geo_single_def geo_policyBase_def actionBase_def)

definition lan_wan_policy :: geo_policy where
  "lan_wan_policy = \<lparr>gp_id = 10, gp_action = ''old'', gp_ruleset = ''name:QZ-Z-LAN-TO-WAN'', gp_rule = 30,
     gp_direction = GeoBoth, gp_enabled = False\<rparr>"

definition two_zone_rule :: rule_scopes where
  "two_zone_rule = \<lparr>rs_rule = 30, rs_chains = [''name:QZ-Z-DMZ-TO-WAN'', ''name:QZ-Z-LAN-TO-WAN'']\<rparr>"

definition wan_policy :: "int \<Rightarrow> rule_chain \<Rightarrow> geo_policy" where
  "wan_policy n c = \<lparr>gp_id = n, gp_action = ''old'', gp_ruleset = c, gp_rule = 30, gp_direction = GeoBoth, gp_enabled = True\<rparr>"

definition attach_live_policies :: "geo_policy list" where
  "attach_live_policies = [wan_policy 10 ''name:QZ-Z-LAN-TO-WAN'', wan_policy 20 ''name:QZ-Z-LAN-TO-DMZ'', wan_policy 40 ''forward'']"

definition attach_state :: "path set" where
  "attach_state = (\<Union>p\<in>set attach_live_policies. geo_policy_paths False (Some p) (gp_id p))"

text \<open>
  A rule that used to span LAN to DMZ gets a new action for its two pairs; the policy of the rule with the same
  number in the forward chain is left alone.
\<close>

lemma geo_attach_run_witness:
  "policy_at (run (ref_dev geo_single) (diffGeoPoliciesForRule attach_live_policies two_zone_rule (Some ''new'') GeoSource)
      attach_state) 10 ''new'' ''name:QZ-Z-LAN-TO-WAN'' 30 GeoSource True \<and>
   run (ref_dev geo_single) (diffGeoPoliciesForRule attach_live_policies two_zone_rule (Some ''new'') GeoSource) attach_state \<inter>
      cone (geo_policyBase 20) = {} \<and>
   run (ref_dev geo_single) (diffGeoPoliciesForRule attach_live_policies two_zone_rule (Some ''new'') GeoSource) attach_state \<inter>
      cone (geo_policyBase 40) = attach_state \<inter> cone (geo_policyBase 40)"
proof -
  let ?live = attach_live_policies and ?rule = two_zone_rule and ?S = attach_state
  let ?T = "run (ref_dev geo_single) (diffGeoPoliciesForRule ?live ?rule (Some ''new'') GeoSource) ?S"
  have ids: "distinct (map gp_id ?live)" "distinct (rs_chains ?rule)"
    by (simp_all add: attach_live_policies_def wan_policy_def two_zone_rule_def)
  have sub: "geo_policy_paths False (Some p) n \<subseteq> geo_region n" for p n
    unfolding geo_policy_paths_def geo_paths_def geo_region_def Let_def by (intro Un_mono leaf_paths_cone flag_paths_cone)
  have at: "?S \<inter> geo_region n = (\<Union>p\<in>{p\<in>set ?live. gp_id p = n}. geo_policy_paths False (Some p) n)" for n
    using sub geo_regions_disjoint2 [of n] unfolding attach_state_def by fastforce
  have read: "policy_at ?S (gp_id p) (gp_action p) (gp_ruleset p) (gp_rule p) (gp_direction p) (gp_enabled p)"
    if p: "p \<in> set ?live" for p
  proof -
    have "{q\<in>set ?live. gp_id q = gp_id p} = {p}" using key_unique [OF ids(1) _ p] p by auto
    then have "?S \<inter> geo_region (gp_id p) = geo_policy_paths False (Some p) (gp_id p)" using at [of "gp_id p"] by simp
    then show ?thesis unfolding policy_at_paths by (auto simp: geo_policy_paths_def direction_before_def)
  qed
  have free: "?S \<inter> geo_region n = {}" if "n \<notin> gp_id ` set ?live" for n
    using that unfolding at by auto
  have mem: "wan_policy 10 ''name:QZ-Z-LAN-TO-WAN'' \<in> set ?live" "wan_policy 20 ''name:QZ-Z-LAN-TO-DMZ'' \<in> set ?live"
      "wan_policy 40 ''forward'' \<in> set ?live" "rs_rule ?rule = 30"
      "''name:QZ-Z-LAN-TO-WAN'' \<in> set (rs_chains ?rule)" "''name:QZ-Z-LAN-TO-DMZ'' \<notin> set (rs_chains ?rule)"
    by (simp_all add: attach_live_policies_def two_zone_rule_def)
  have mine: "policy_of_rule ?rule (wan_policy 10 ''name:QZ-Z-LAN-TO-WAN'')"
      "policy_of_rule ?rule (wan_policy 20 ''name:QZ-Z-LAN-TO-DMZ'')" "\<not> policy_of_rule ?rule (wan_policy 40 ''forward'')"
    by (simp_all add: policy_of_rule_def wan_policy_def two_zone_rule_def)
  have ten: "n = 10" if "p \<in> set ?live" "gp_ruleset p = ''name:QZ-Z-LAN-TO-WAN''" "gp_id p = n" for p n
    using that by (auto simp: attach_live_policies_def wan_policy_def)
  have "\<forall>p\<in>set ?live. policy_at ?S (gp_id p) (gp_action p) (gp_ruleset p) (gp_rule p) (gp_direction p) (gp_enabled p)"
    "\<forall>n. n \<notin> gp_id ` set ?live \<longrightarrow> ?S \<inter> geo_region n = {}" using read free by blast+
  note result = geo_attach_run [OF ref_dev_laws geo_single_schema ids this refl, of "''new''" GeoSource]
  from result [THEN conjunct1] obtain num where
    num: "policy_at ?T (num ''name:QZ-Z-LAN-TO-WAN'') ''new'' ''name:QZ-Z-LAN-TO-WAN'' 30 GeoSource True"
      "if \<exists>p\<in>set ?live. policy_of_rule ?rule p \<and> gp_ruleset p = ''name:QZ-Z-LAN-TO-WAN''
       then \<exists>p\<in>set ?live. policy_of_rule ?rule p \<and> gp_ruleset p = ''name:QZ-Z-LAN-TO-WAN'' \<and>
         gp_id p = num ''name:QZ-Z-LAN-TO-WAN''
       else num ''name:QZ-Z-LAN-TO-WAN'' \<notin> gp_id ` set ?live"
    using mem(4,5) by metis
  moreover have "\<exists>p\<in>set ?live. policy_of_rule ?rule p \<and> gp_ruleset p = ''name:QZ-Z-LAN-TO-WAN''"
    using mem(1) mine(1) by (intro bexI) (auto simp: wan_policy_def)
  ultimately have "num ''name:QZ-Z-LAN-TO-WAN'' = 10" using ten by metis
  with num(1) have "policy_at ?T 10 ''new'' ''name:QZ-Z-LAN-TO-WAN'' 30 GeoSource True" by simp
  moreover have "?T \<inter> cone (geo_policyBase 20) = {}"
    using result [THEN conjunct2, THEN conjunct1, rule_format, OF mem(2)] mine(2) mem(6) by (simp add: wan_policy_def)
  moreover have "?T \<inter> cone (geo_policyBase 40) = ?S \<inter> cone (geo_policyBase 40)"
    using result [THEN conjunct2, THEN conjunct2, rule_format, OF mem(3) mine(3)] by (simp add: wan_policy_def)
  ultimately show ?thesis by blast
qed

section \<open>Renaming an action\<close>

definition geo_action_region :: "string \<Rightarrow> path set" where
  "geo_action_region n = (let base = actionBase n in cone (base @ [''description'']) \<union> (cone (base @ [''mode'']) \<union>
     (cone (base @ [''unknown-ip'']) \<union> (cone (base @ [''country'']) \<union> cone (base @ [''log''])))))"

definition geo_action_paths ::
  "string \<Rightarrow> string option \<Rightarrow> string option \<Rightarrow> string option \<Rightarrow> string list \<Rightarrow> bool \<Rightarrow> path set" where
  "geo_action_paths n descr mode unknown countries lg = (let base = actionBase n in
     leaf_paths (base @ [''description'']) descr \<union> (leaf_paths (base @ [''mode'']) mode \<union>
     (leaf_paths (base @ [''unknown-ip'']) unknown \<union> (list_paths (base @ [''country'']) countries \<union>
      flag_paths (base @ [''log'']) lg))))"

text \<open>
  What the device has for an action that reads as \<open>l\<close>. The reader takes a missing \<open>unknown-ip\<close> as
  \<open>allow\<close>: \<open>spelled\<close> tells whether the device spells that default out.
\<close>

definition unknown_before :: "bool \<Rightarrow> geo_action option \<Rightarrow> string option" where
  "unknown_before spelled l = (case l of None \<Rightarrow> None
     | Some l \<Rightarrow> if ga_unknown l = UnknownBlock \<or> spelled then Some (unknown_leaf (ga_unknown l)) else None)"

definition geo_action_before :: "bool \<Rightarrow> geo_action option \<Rightarrow> string \<Rightarrow> path set" where
  "geo_action_before spelled l n = geo_action_paths n (Option.bind l ga_description)
     (map_option geo_mode_str (Option.bind l ga_mode)) (unknown_before spelled l)
     (case l of None \<Rightarrow> [] | Some l \<Rightarrow> ga_countries l) (case l of None \<Rightarrow> False | Some l \<Rightarrow> ga_log l)"

definition geo_action_after :: "geo_action_update \<Rightarrow> path set" where
  "geo_action_after u = geo_action_paths (gau_name u) (blank_to_none (gau_description u))
     (Some (geo_mode_str (gau_mode u))) (if gau_unknown u = UnknownBlock then Some ''block'' else None)
     (new_countries u) (gau_log u)"

lemma edits_unknown:
  assumes dev: "device_laws dev single" and single: "single p"
  shows "edits dev (cone p) (leaf_cmds p (map_option (\<lambda>l. unknown_leaf (ga_unknown l)) l)
      (if v = UnknownBlock then Some ''block'' else None))
    (leaf_paths p (unknown_before spelled l)) (leaf_paths p (if v = UnknownBlock then Some ''block'' else None))"
proof (cases "unknown_before spelled l = map_option (\<lambda>l. unknown_leaf (ga_unknown l)) l")
  case True
  then show ?thesis using edits_leaf [OF dev single] by simp
next
  case False
  then have "(if v = UnknownBlock then Some ''block'' else None) \<noteq> map_option (\<lambda>l. unknown_leaf (ga_unknown l)) l"
    by (auto simp: unknown_before_def unknown_leaf_def split: option.splits if_splits geo_unknown.splits)
  then show ?thesis by (rule edits_leaf_forced [OF dev single]) (rule leaf_paths_cone)
qed

lemma edits_geo_action:
  assumes dev: "device_laws dev single" and sch: "geo_schema single"
  shows "edits dev (geo_action_region (gau_name u)) (geo_action_body l u)
    (geo_action_before spelled l (gau_name u)) (geo_action_after u)"
proof -
  let ?b = "actionBase (gau_name u)"
  have s: "single (?b @ [''description''])" "single (?b @ [''mode''])" "single (?b @ [''unknown-ip''])"
      "\<not> single (?b @ [''country''])" "\<not> single (butlast (?b @ [''log'']))"
    using sch by (simp_all add: geo_schema_def)
  show ?thesis
    unfolding geo_action_region_def geo_action_body_def geo_action_before_def geo_action_after_def
      geo_action_paths_def Let_def
    by (intro edits_append edits_unknown [OF dev] edits_leaf [OF dev] edits_list [OF dev] edits_flag [OF dev] s)
      (simp_all add: cone_simps)
qed

text \<open>The policies that a rename repoints.\<close>

definition repointed :: "geo_policy list \<Rightarrow> geo_action_update \<Rightarrow> int list" where
  "repointed policies u = (if geo_action_moved u
     then map gp_id (filter (\<lambda>p. Some (gp_action p) = gau_original_name u) policies) else [])"

lemma geo_action_policy_disjoint: "cone (actionBase a) \<inter> cone (geo_policyBase n @ p) = {}"
  by (simp add: cone_disjoint_iff actionBase_def geo_policyBase_def)

lemma geo_action_region_cone: "geo_action_region n \<subseteq> cone (actionBase n)"
  unfolding geo_action_region_def Let_def by (intro Un_least cone_append_subset)

text \<open>
  A rename of a geolocation action leaves no reference behind. After the commands the action's
  node is what the form says, the old node is gone, every policy that named the old action names
  the new one, and nothing else has changed.
\<close>

theorem geo_rename_run:
  assumes dev: "device_laws dev single" and sch: "geo_schema single"
    and T: "T = (if geo_action_moved u then S - cone (actionBase (the (gau_original_name u))) else S)"
    and live: "T \<inter> geo_action_region (gau_name u) = geo_action_before spelled (geo_action_live existing u) (gau_name u)"
  shows "run dev (diffGeoAction existing policies u) S =
    (T - geo_action_region (gau_name u) - (\<Union>n \<in> set (repointed policies u). cone (geo_policyBase n @ [''action'']))) \<union>
    geo_action_after u \<union> (\<lambda>n. geo_policyBase n @ [''action'', gau_name u]) ` set (repointed policies u)"
proof -
  let ?R = "\<Union>n \<in> set (repointed policies u). cone (geo_policyBase n @ [''action''])"
  let ?P = "(\<lambda>n. geo_policyBase n @ [''action'', gau_name u]) ` set (repointed policies u)"
  have sets: "run dev (map (\<lambda>n. cset (geo_policyBase n @ [''action'', gau_name u])) ns) S' =
      (S' - (\<Union>n \<in> set ns. cone (geo_policyBase n @ [''action'']))) \<union>
      (\<lambda>n. geo_policyBase n @ [''action'', gau_name u]) ` set ns" for ns S'
  proof -
    let ?q = "\<lambda>n. geo_policyBase n @ [''action'']"
    have sep: "prefix (?q r) (?q s) \<Longrightarrow> ?q r = ?q s" for r s
      by (auto simp: geo_policyBase_def prefix_def)
    have "single (?q r)" for r using sch by (simp add: geo_schema_def)
    from run_single_sets [of dev single ns ?q "gau_name u" S', OF dev this sep] show ?thesis by simp
  qed
  have first: "run dev (if geo_action_moved u
      then cdel (actionBase (the (gau_original_name u))) # repoint_policies policies u else []) S = (T - ?R) \<union> ?P"
  proof (cases "geo_action_moved u")
    case True
    then have "repoint_policies policies u =
        map (\<lambda>n. cset (geo_policyBase n @ [''action'', gau_name u])) (repointed policies u)"
      by (simp add: repointed_def repoint_policies_def)
    then show ?thesis using True sets [of "repointed policies u" T] by (simp add: T dev_delete [OF dev])
  next
    case False
    then show ?thesis by (simp add: T repointed_def)
  qed
  have dis: "geo_action_region (gau_name u) \<inter> ?R = {}" "geo_action_region (gau_name u) \<inter> ?P = {}"
    using geo_action_policy_disjoint [of "gau_name u"] geo_action_region_cone [of "gau_name u"] by (fastforce simp: disjoint_iff)+
  have "((T - ?R) \<union> ?P) \<inter> geo_action_region (gau_name u) = geo_action_before spelled (geo_action_live existing u) (gau_name u)"
    using live dis by blast
  from edits_run [OF edits_geo_action [OF dev sch] this]
  show ?thesis unfolding diffGeoAction_def run_append first using dis by blast
qed

definition old_action :: geo_action where
  "old_action = \<lparr>ga_name = ''old'', ga_description = None, ga_mode = Some BlockListed, ga_countries = [''RU''],
     ga_unknown = UnknownAllow, ga_log = False\<rparr>"

definition rename_form :: geo_action_update where
  "rename_form = \<lparr>gau_name = ''new'', gau_description = None, gau_mode = BlockListed, gau_countries = ['' ru''],
     gau_unknown = UnknownAllow, gau_log = True, gau_original_name = Some ''old''\<rparr>"

lemma geo_rename_run_witness:
  "run (ref_dev geo_single) (diffGeoAction [old_action] [lan_wan_policy] rename_form)
     (geo_action_before True (Some old_action) ''old'' \<union> {geo_policyBase 10 @ [''action'', ''old'']}) =
   {actionBase ''new'' @ [''mode'', ''block-listed''], actionBase ''new'' @ [''country'', ''RU''],
    actionBase ''new'' @ [''log''], geo_policyBase 10 @ [''action'', ''new'']}"
proof -
  let ?S = "geo_action_before True (Some old_action) ''old'' \<union> {geo_policyBase 10 @ [''action'', ''old'']}"
  have u: "geo_action_moved rename_form" "the (gau_original_name rename_form) = ''old''" "gau_name rename_form = ''new''"
      "repointed [lan_wan_policy] rename_form = [10]" "geo_action_live [old_action] rename_form = None"
    by (simp_all add: geo_action_moved_def rename_form_def repointed_def geo_action_live_def lan_wan_policy_def)
  have S: "?S = {actionBase ''old'' @ [''mode'', ''block-listed''], actionBase ''old'' @ [''unknown-ip'', ''allow''],
      actionBase ''old'' @ [''country'', ''RU''], geo_policyBase 10 @ [''action'', ''old'']}"
    by (auto simp: geo_action_before_def geo_action_paths_def old_action_def leaf_paths_def list_paths_def unknown_leaf_def
        unknown_before_def Let_def)
  have T: "?S - cone (actionBase ''old'') = {geo_policyBase 10 @ [''action'', ''old'']}"
    unfolding S by (auto simp: actionBase_def geo_policyBase_def)
  have "{geo_policyBase 10 @ [''action'', ''old'']} \<inter> geo_action_region ''new'' = {}"
    using geo_action_policy_disjoint [of "''new''" 10 "[''action'', ''old'']"] geo_action_region_cone [of "''new''"] by auto
  moreover have "geo_action_before False None ''new'' = {}" by (simp add: geo_action_before_def geo_action_paths_def unknown_before_def)
  ultimately have live: "{geo_policyBase 10 @ [''action'', ''old'']} \<inter> geo_action_region (gau_name rename_form) =
      geo_action_before False (geo_action_live [old_action] rename_form) (gau_name rename_form)"
    by (simp add: u)
  have "new_countries rename_form = [''RU'']" by code_simp
  then have after: "geo_action_after rename_form = {actionBase ''new'' @ [''mode'', ''block-listed''],
      actionBase ''new'' @ [''country'', ''RU''], actionBase ''new'' @ [''log'']}"
    by (simp add: geo_action_after_def geo_action_paths_def leaf_paths_def list_paths_def Let_def flag_paths_def)
      (simp add: rename_form_def insert_commute)
  have gone: "{geo_policyBase 10 @ [''action'', ''old'']} - A - cone (geo_policyBase 10 @ [''action'']) = {}" for A
    by auto
  from geo_rename_run [OF ref_dev_laws geo_single_schema _ live, of ?S "[lan_wan_policy]"] T
  show ?thesis by (simp add: u after gone insert_commute del: Diff_eq_empty_iff)
qed

text \<open>
  The form writes the default by deleting the leaf, and the diff compares with what was read: for
  an action that allows unknown addresses, saving the form unchanged deletes \<open>unknown-ip\<close>, which
  a device that leaves defaults out does not have.
\<close>

lemma geo_default_delete:
  "diffGeoAction [old_action] [] (rename_form\<lparr>gau_name := ''old'', gau_countries := [''RU''], gau_log := False\<rparr>) =
     [cdel (actionBase ''old'' @ [''unknown-ip''])] \<and>
   unknown_before False (Some old_action) = None"
proof
  have "new_countries (rename_form\<lparr>gau_name := ''old'', gau_countries := [''RU''], gau_log := False\<rparr>) = [''RU'']"
    by code_simp
  then show "diffGeoAction [old_action] [] (rename_form\<lparr>gau_name := ''old'', gau_countries := [''RU''], gau_log := False\<rparr>) =
     [cdel (actionBase ''old'' @ [''unknown-ip''])]"
    by (simp add: diffGeoAction_def geo_action_body_def Let_def)
      (simp add: rename_form_def old_action_def geo_action_moved_def geo_action_live_def unknown_leaf_def
        leaf_cmds_def list_cmds_def flag_cmds_def)
qed (simp add: unknown_before_def old_action_def)

end
