(* ===== verification/App_Control.thy ===== *)
theory App_Control
  imports Prelude
begin

text \<open>
  Application Control in \<open>lib/appcontrol.ts\<close>: the desired-state document (named actions, and the
  bindings that attach them to firewall rules by number), the application catalog with its tree
  view, the verdict of an application under an action, and the identity of a decision event. The
  requests are not modelled.
\<close>

section \<open>The desired state\<close>

datatype verdict = Allow | Block

datatype block_mode = BlockDrop | BlockReset

text \<open>
  A \<open>Record\<close> is the list of its own entries. The names that every JavaScript object inherits
  (\<open>toString\<close>, \<open>constructor\<close>, ...) are no names of applications or categories.
\<close>

record ac_action =
  aa_default :: verdict
  aa_block_mode :: block_mode
  aa_categories :: "(string \<times> verdict) list"
  aa_applications :: "(string \<times> verdict) list"

datatype l4_proto = L4_tcp | L4_udp

record ac_match =
  mt_iifname :: "string list option"
  mt_oifname :: "string list option"
  mt_saddr :: "string list option"
  mt_daddr :: "string list option"
  mt_l4 :: "(l4_proto \<times> int list option) list option"

record ac_binding =
  ab_id :: int
  ab_action :: string
  ab_description :: string
  ab_match :: ac_match

record ac_config =
  ac_version :: int
  ac_actions :: "(string \<times> ac_action) list"
  ac_bindings :: "ac_binding list"

definition emptyAcConfig :: ac_config where
  "emptyAcConfig = \<lparr>ac_version = 2,
     ac_actions = [(''Global'', \<lparr>aa_default = Allow, aa_block_mode = BlockDrop, aa_categories = [], aa_applications = []\<rparr>)],
     ac_bindings = []\<rparr>"

section \<open>The catalog\<close>

record catalog_app =
  ca_id :: int
  ca_name :: string
  ca_category_id :: int
  ca_category :: string

record catalog =
  ct_available :: bool
  ct_ndpi_version :: "string option"
  ct_num_protocols :: int
  ct_applications :: "catalog_app list"

definition app_row :: "int \<Rightarrow> string \<Rightarrow> int \<Rightarrow> string \<Rightarrow> catalog_app" where
  "app_row i n ci c = \<lparr>ca_id = i, ca_name = n, ca_category_id = ci, ca_category = c\<rparr>"

definition CATALOG_FIXTURE :: catalog where
  "CATALOG_FIXTURE = \<lparr>ct_available = False, ct_ndpi_version = Some ''fixture'', ct_num_protocols = 11,
     ct_applications = [
       app_row 5 ''DNS'' 14 ''Network'', app_row 7 ''HTTP'' 5 ''Web'', app_row 37 ''BitTorrent'' 7 ''Download'',
       app_row 48 ''QUIC'' 5 ''Web'', app_row 91 ''TLS'' 5 ''Web'', app_row 119 ''Facebook'' 6 ''SocialNetwork'',
       app_row 124 ''YouTube'' 1 ''Media'', app_row 211 ''PornHub'' 21 ''Adult'', app_row 244 ''ChatGPT'' 33 ''AI'',
       app_row 245 ''Claude'' 33 ''AI'']\<rparr>"

definition known_apps :: "catalog \<Rightarrow> catalog_app list" where
  "known_apps cat = filter (\<lambda>a. ca_name a \<noteq> ''Unknown'') (ct_applications cat)"

definition groupByCategory ::
  "(string \<Rightarrow> string \<Rightarrow> int) \<Rightarrow> catalog \<Rightarrow> (string \<times> catalog_app list) list" where
  "groupByCategory lc cat =
     sort_by (\<lambda>a b. lc (fst a) (fst b))
       (map (\<lambda>c. (c, sort_by (\<lambda>a b. lc (ca_name a) (ca_name b))
            (filter (\<lambda>a. ca_category a = c) (known_apps cat))))
         (uniq (map ca_category (known_apps cat))))"

definition effectiveVerdict :: "ac_action \<Rightarrow> catalog_app \<Rightarrow> verdict" where
  "effectiveVerdict action app =
     (case map_of (aa_applications action) (ca_name app) of Some v \<Rightarrow> v
      | None \<Rightarrow> (case map_of (aa_categories action) (ca_category app) of Some v \<Rightarrow> v
         | None \<Rightarrow> aa_default action))"

section \<open>Decision events\<close>

record ac_event =
  ae_ts :: int
  ae_src :: "string option"
  ae_spt :: "int option"
  ae_dst :: "string option"
  ae_dpt :: "int option"
  ae_proto :: "string option"
  ae_app :: string
  ae_category :: "string option"
  ae_action :: verdict
  ae_action_name :: string
  ae_block_mode :: string
  ae_confidence :: "string option"
  ae_sni :: "string option"

definition ac_eventKey :: "ac_event \<Rightarrow> string" where
  "ac_eventKey e = (let str = (\<lambda>v. case v of None \<Rightarrow> [] | Some s \<Rightarrow> s) in
     string_of_int (ae_ts e) @ '':'' @ str (ae_src e) @ '':'' @ str (map_option string_of_int (ae_spt e)) @ '':'' @
     str (ae_dst e) @ '':'' @ str (map_option string_of_int (ae_dpt e)) @ '':'' @ ae_app e)"

section \<open>The tree view\<close>

lemma mset_concat_sorted: "mset (concat (map (\<lambda>x. sort_by cmp (f x)) xs)) = mset (concat (map f xs))"
  by (induction xs) simp_all

lemma mset_concat_perm: "mset xs = mset ys \<Longrightarrow> mset (concat (map f xs)) = mset (concat (map f ys))"
  by (metis mset_concat mset_map sum_mset_sum_list)

text \<open>
  The category tree shows every application of the catalog once, except the entry
  \<open>Unknown\<close>: the groups have different categories and are not empty, each holds exactly the
  applications of its category, both levels are in the order of the locale, and all groups together
  are the catalog.
\<close>

theorem groupByCategory_partition:
  assumes lc: "consistent_cmp lc"
  shows "distinct (map fst (groupByCategory lc cat)) \<and>
    sorted_wrt (\<lambda>a b. lc (fst a) (fst b) \<le> 0) (groupByCategory lc cat) \<and>
    (\<forall>(c, apps) \<in> set (groupByCategory lc cat). apps \<noteq> [] \<and>
      set apps = {a \<in> set (known_apps cat). ca_category a = c} \<and>
      sorted_wrt (\<lambda>a b. lc (ca_name a) (ca_name b) \<le> 0) apps) \<and>
    mset (concat (map snd (groupByCategory lc cat))) = mset (known_apps cat)"
proof (intro conjI)
  let ?K = "known_apps cat" and ?cs = "uniq (map ca_category (known_apps cat))"
  let ?g = "\<lambda>c. (c, sort_by (\<lambda>a b. lc (ca_name a) (ca_name b)) (filter (\<lambda>a. ca_category a = c) ?K))"
  have cmp: "consistent_cmp (\<lambda>a b. lc (f a) (f b))" for f :: "'x \<Rightarrow> string"
    using lc unfolding consistent_cmp_def by blast
  have perm: "mset (groupByCategory lc cat) = mset (map ?g ?cs)"
    by (simp add: groupByCategory_def del: mset_map)
  have "mset (map fst (groupByCategory lc cat)) = mset (map fst (map ?g ?cs))"
    using perm by (simp only: mset_map)
  then have "mset (map fst (groupByCategory lc cat)) = mset ?cs" by (simp add: comp_def del: mset_map)
  then show "distinct (map fst (groupByCategory lc cat))" using mset_eq_imp_distinct_iff by fastforce
  show "sorted_wrt (\<lambda>a b. lc (fst a) (fst b) \<le> 0) (groupByCategory lc cat)"
    unfolding groupByCategory_def by (rule sorted_sort_by [OF cmp])
  have sorted: "sorted_wrt (\<lambda>a b. lc (ca_name a) (ca_name b) \<le> 0) (sort_by (\<lambda>a b. lc (ca_name a) (ca_name b)) as)" for as
    by (rule sorted_sort_by [OF cmp])
  have set: "set (groupByCategory lc cat) = ?g ` set ?cs" by (simp add: groupByCategory_def)
  show "\<forall>(c, apps) \<in> set (groupByCategory lc cat). apps \<noteq> [] \<and>
      set apps = {a \<in> set ?K. ca_category a = c} \<and> sorted_wrt (\<lambda>a b. lc (ca_name a) (ca_name b) \<le> 0) apps"
    unfolding set using sorted by (auto simp: filter_empty_conv)
  have "mset (concat (map snd (groupByCategory lc cat))) = mset (concat (map snd (map ?g ?cs)))"
    by (rule mset_concat_perm [OF perm])
  also have "\<dots> = mset (concat (map (\<lambda>c. filter (\<lambda>a. ca_category a = c) ?K) ?cs))"
    by (simp only: map_map comp_def snd_conv mset_concat_sorted)
  also have "\<dots> = mset ?K" by (rule mset_concat_by_key) simp_all
  finally show "mset (concat (map snd (groupByCategory lc cat))) = mset ?K" .
qed

definition length_order :: "string \<Rightarrow> string \<Rightarrow> int" where
  "length_order a b = int (length a) - int (length b)"

lemma groupByCategory_partition_witness:
  "mset (concat (map snd (groupByCategory length_order CATALOG_FIXTURE))) = mset (ct_applications CATALOG_FIXTURE)"
proof -
  have "consistent_cmp length_order" unfolding length_order_def by (rule consistent_cmp_diff)
  from groupByCategory_partition [OF this, of CATALOG_FIXTURE]
  have "mset (concat (map snd (groupByCategory length_order CATALOG_FIXTURE))) = mset (known_apps CATALOG_FIXTURE)"
    by blast
  moreover have "known_apps CATALOG_FIXTURE = ct_applications CATALOG_FIXTURE"
    by (simp add: known_apps_def CATALOG_FIXTURE_def app_row_def)
  ultimately show ?thesis by simp
qed

end
