(* ===== verification/Rule_Cascade.thy ===== *)
theory Rule_Cascade
  imports Firewall_Order Geolocation_Effects App_Control
begin

text \<open>
  What happens to the features that refer to a firewall rule by number when the rule is deleted
  or the rules are reordered: \<open>lib/rule-cascade.ts\<close>. Geolocation policies are configuration and
  ride the commit of the rule; application-control bindings live in a document of their own,
  which is written after the commit.

  The replies of the outside world are arguments: the geolocation configuration and the document
  as fetched (\<open>None\<close> when the fetch throws), whether the commit lands, whether the document is
  saved.
\<close>

section \<open>Deleting a rule\<close>

record rule_delete_result =
  removedGeoPolicies :: "int list"
  removedAcBinding :: bool

definition cascade_orphans :: "geolocation_config option \<Rightarrow> firewall_rule \<Rightarrow> int list" where
  "cascade_orphans geo rule = (case geo of None \<Rightarrow> []
     | Some g \<Rightarrow> map gp_id (filter (\<lambda>p. gp_rule p = fr_rule rule \<and>
         list_ex (\<lambda>s. sc_chain s = gp_ruleset p) (fr_scopes rule)) (geo_policies g)))"

definition delete_cascade_commit ::
  "firewall_rule \<Rightarrow> auto_group list \<Rightarrow> firewall_config option \<Rightarrow> geolocation_config option \<Rightarrow> vyos_command list" where
  "delete_cascade_commit rule autoGroups cfg geo =
     deleteRule_cmds rule autoGroups (map (\<lambda>n. cdel (geo_policyBase n)) (cascade_orphans geo rule)) cfg"

definition drop_binding :: "firewall_rule \<Rightarrow> ac_config option \<Rightarrow> ac_config option" where
  "drop_binding rule ac =
     (if fr_chain rule = ''forward'' \<or> \<not> isBaseChain (fr_chain rule) then
        (case ac of None \<Rightarrow> None
         | Some settings \<Rightarrow>
             (let bindings = filter (\<lambda>b. ab_id b \<noteq> fr_rule rule) (ac_bindings settings) in
              if length bindings \<noteq> length (ac_bindings settings)
              then Some (settings\<lparr>ac_bindings := bindings\<rparr>) else None))
      else None)"

text \<open>
  The commands of the commit, the document that is written, and the result (\<open>None\<close> when the
  call throws).
\<close>

definition deleteRuleWithCascade ::
  "firewall_rule \<Rightarrow> auto_group list \<Rightarrow> firewall_config option \<Rightarrow> geolocation_config option \<Rightarrow> bool \<Rightarrow>
   ac_config option \<Rightarrow> bool \<Rightarrow> vyos_command list \<times> ac_config option \<times> rule_delete_result option" where
  "deleteRuleWithCascade rule autoGroups cfg geo landed ac saved =
     (let commit = delete_cascade_commit rule autoGroups cfg geo in
      if \<not> landed then (commit, None, None)
      else let doc = drop_binding rule ac in
        (commit, doc, Some \<lparr>removedGeoPolicies = cascade_orphans geo rule,
           removedAcBinding = (doc \<noteq> None \<and> saved)\<rparr>))"

section \<open>Reordering\<close>

record rule_reorder_result =
  rr_renumbered :: nat
  rr_repointedGeoPolicies :: nat
  rr_repointedAcBindings :: nat

definition geo_repoints :: "(string \<times> int) list \<Rightarrow> geolocation_config option \<Rightarrow> (int \<times> int) list" where
  "geo_repoints moves geo = (case geo of None \<Rightarrow> []
     | Some g \<Rightarrow> concat (map (\<lambda>p. case map_of moves (scope_key (gp_ruleset p) (gp_rule p)) of
         None \<Rightarrow> [] | Some to \<Rightarrow> [(gp_id p, to)]) (geo_policies g)))"

definition reorder_cascade_commit ::
  "firewall_rule list \<Rightarrow> geolocation_config option \<Rightarrow> vyos_command list" where
  "reorder_cascade_commit rules geo =
     fst (applyRuleOrder rules (map (\<lambda>(n, to). cset (geo_policyBase n @ [''rule'', string_of_int to]))
       (geo_repoints (renumberMap rules) geo)))"

definition repoint_binding :: "(int \<times> int) list \<Rightarrow> ac_binding \<Rightarrow> ac_binding" where
  "repoint_binding byRule b =
     (case map_of byRule (ab_id b) of None \<Rightarrow> b | Some to \<Rightarrow> b\<lparr>ab_id := to\<rparr>)"

definition repointed_bindings :: "(int \<times> int) list \<Rightarrow> ac_config option \<Rightarrow> nat" where
  "repointed_bindings byRule ac = (case ac of None \<Rightarrow> 0
     | Some settings \<Rightarrow> length (filter (\<lambda>b. map_of byRule (ab_id b) \<noteq> None) (ac_bindings settings)))"

definition repoint_document :: "(int \<times> int) list \<Rightarrow> ac_config option \<Rightarrow> ac_config option" where
  "repoint_document byRule ac = (case ac of None \<Rightarrow> None
     | Some settings \<Rightarrow> if repointed_bindings byRule ac = 0 then None
         else Some (settings\<lparr>ac_bindings := map (repoint_binding byRule) (ac_bindings settings)\<rparr>))"

text \<open>
  The count of bindings is taken before the document is saved, so whether it is saved makes no
  difference to the result.
\<close>

definition applyRuleOrderWithCascade ::
  "firewall_rule list \<Rightarrow> geolocation_config option \<Rightarrow> bool \<Rightarrow> ac_config option \<Rightarrow> bool \<Rightarrow>
   vyos_command list \<times> ac_config option \<times> rule_reorder_result option" where
  "applyRuleOrderWithCascade rules geo landed ac saved =
     (if renumberMap rules = [] then
        ([], None, Some \<lparr>rr_renumbered = 0, rr_repointedGeoPolicies = 0, rr_repointedAcBindings = 0\<rparr>)
      else let commit = reorder_cascade_commit rules geo in
        if \<not> landed then (commit, None, None)
        else let byRule = renumberByRule rules in
          (commit, repoint_document byRule ac,
           Some \<lparr>rr_renumbered = renumberedCount rules,
             rr_repointedGeoPolicies = length (geo_repoints (renumberMap rules) geo),
             rr_repointedAcBindings = repointed_bindings byRule ac\<rparr>))"

section \<open>What a delete does to the device\<close>

lemma cleanup_deletes: "c \<in> set (emptyPairCleanup cfg ch ns) \<Longrightarrow> cmd_op c = OpDelete \<and> prefix [''firewall''] (cmd_path c)"
  by (auto simp: emptyPairCleanup_def split: option.splits if_splits)

lemma deleteRule_deletes:
  "c \<in> set (deleteRule_cmds rule autos [] cfg) \<Longrightarrow> cmd_op c = OpDelete \<and> prefix [''firewall''] (cmd_path c)"
  using cleanup_deletes
  by (auto simp: deleteRule_cmds_def autoGroupDeletes_def group_path_def ruleBase_def filterBase_def
      split: option.splits if_splits)

lemma delete_cascade_split:
  "delete_cascade_commit rule autos cfg geo =
     deleteRule_cmds rule autos [] cfg @ map (\<lambda>n. cdel (geo_policyBase n)) (cascade_orphans geo rule)"
  by (simp add: delete_cascade_commit_def deleteRule_cmds_def)

lemma geo_cone_firewall: "prefix [''firewall''] p \<Longrightarrow> cone p \<inter> cone (geo_policyBase n @ q) = {}"
  by (auto simp: cone_disjoint_iff geo_policyBase_def prefix_def append_eq_Cons_conv)

lemma delete_avoids_rule:
  assumes wf: "\<forall>s\<in>set (fr_scopes rule). wf_chain (sc_chain s)"
    and r: "r \<in> set (fc_rules cfg)" "s \<in> set (fr_scopes r)" "wf_chain (sc_chain s)"
    and other: "(sc_chain s, fr_rule r) \<notin> set (slots rule)"
  shows "avoids single (cone (ruleBase (sc_chain s) (fr_rule r))) (deleteRule_cmds rule autos [] (Some cfg))"
proof -
  let ?C = "cone (ruleBase (sc_chain s) (fr_rule r))"
  have "avoids single ?C (cdel (ruleBase (sc_chain t) (fr_rule rule)) # emptyPairCleanup cfg (sc_chain t) [fr_rule rule])"
    if t: "t \<in> set (fr_scopes rule)" for t
  proof -
    have "(sc_chain t, fr_rule rule) \<in> set (slots rule)" using t by (auto simp: slots_def)
    then have ne: "(sc_chain t, fr_rule rule) \<noteq> (sc_chain s, fr_rule r)" using other by metis
    have "avoids single ?C [cdel (ruleBase (sc_chain t) (fr_rule rule))]"
      using ruleBase_parallel [OF _ r(3) ne] ruleBase_parallel [OF r(3) _ ne [symmetric]] wf t
      by (intro avoids_cone_del) auto
    moreover have "sc_chain t \<noteq> sc_chain s \<or> keeps_scope cfg (sc_chain s) [fr_rule rule]"
      using ne r(1,2) by (simp add: keeps_scope_def) metis
    then have "avoids single ?C (emptyPairCleanup cfg (sc_chain t) [fr_rule rule])"
      using wf t r(3) by (intro avoids_emptyPairCleanup) auto
    ultimately show ?thesis by (subst avoids_Cons) simp
  qed
  moreover have "avoids single ?C (autoGroupDeletes rule autos)"
    by (rule avoids_elsewhere [OF inside_auto_deletes]) simp
  ultimately show ?thesis by (simp add: deleteRule_cmds_def)
qed

lemma avoids_keeps:
  "device_laws dev single \<Longrightarrow> avoids single C cs \<Longrightarrow> run dev cs S \<inter> C = S \<inter> C"
  using reaches_avoids [of dev single C cs "S \<inter> C"] by (simp add: reaches_def)


definition dmz_lan_rule :: firewall_rule where
  "dmz_lan_rule = web_rule \<lparr>fr_rule := 20, fr_chain := ''name:QZ-Z-DMZ-TO-WAN'',
     fr_scopes := [\<lparr>sc_chain = ''name:QZ-Z-DMZ-TO-WAN'', sc_raw = JObj []\<rparr>]\<rparr>"

definition geo_on :: "int \<Rightarrow> rule_chain \<Rightarrow> int \<Rightarrow> geo_policy" where
  "geo_on n c r = \<lparr>gp_id = n, gp_action = ''block'', gp_ruleset = c, gp_rule = r,
     gp_direction = GeoBoth, gp_enabled = True\<rparr>"

definition leftover_geo :: geolocation_config where
  "leftover_geo = \<lparr>geo_actions = [], geo_policies =
     [geo_on 10 ''name:QZ-Z-DMZ-TO-WAN'' 20, geo_on 20 ''name:QZ-Z-LAN-TO-WAN'' 20]\<rparr>"

lemma leftover_orphans: "cascade_orphans (Some leftover_geo) dmz_lan_rule = [10]"
  by (simp add: cascade_orphans_def leftover_geo_def geo_on_def dmz_lan_rule_def)


text \<open>
  The cascade of a delete matches exact scopes, where the geolocation module also counts the
  policies on zone pairs the rule no longer spans as the rule's own. Such a policy is left behind
  by the delete, pointing at a rule that is gone.
\<close>

lemma delete_cascade_leftover:
  "map gp_id (policiesForRule (geo_policies leftover_geo)
     \<lparr>rs_rule = fr_rule dmz_lan_rule, rs_chains = map sc_chain (fr_scopes dmz_lan_rule)\<rparr>) = [10, 20] \<and>
   cascade_orphans (Some leftover_geo) dmz_lan_rule = [10]"
  by (simp add: leftover_orphans)
    (simp add: policiesForRule_def leftover_geo_def geo_on_def dmz_lan_rule_def is_named_def)

section \<open>What a reorder does to the features\<close>

lemma edits_set_leaf:
  assumes dev: "device_laws dev single" and "single p" and "L \<subseteq> cone p"
  shows "edits dev (cone p) [cset (p @ [v])] L {p @ [v]}"
proof (rule editsI)
  fix R :: "path set" assume "R \<inter> cone p = {}"
  then have "R \<union> L - cone p = R" using assms(3) by blast
  then show "run dev [cset (p @ [v])] (R \<union> L) = R \<union> {p @ [v]}"
    using assms(2) by (simp add: dev_set_single [OF dev])
qed (use assms in auto)

lemma reorder_inside: "inside [''firewall''] (reorderCommands rules)"
proof -
  have "prefix [''firewall''] (butlast (ruleBase c n @ p))" for c n p
    by (auto simp: ruleBase_def filterBase_def butlast_append prefix_def split: option.splits)
  moreover have "prefix [''firewall''] (ruleBase c n)" for c n
    by (auto simp: ruleBase_def filterBase_def split: option.splits)
  moreover from calculation(1) [of _ _ "[]"] have "prefix [''firewall''] (butlast (ruleBase c n))" for c n by simp
  ultimately show ?thesis
    by (auto simp: reorderCommands_def inside_def cfgToCommands_paths split_def split: cmd_op.splits)
qed

lemma geo_rule_single: "geo_schema single \<Longrightarrow> single (geo_policyBase n @ [''rule''])"
  by (simp add: geo_schema_def)

lemma geo_repoints_ids:
  assumes "distinct (map gp_id policies)"
  shows "distinct (map fst (concat (map (\<lambda>p. case f p of None \<Rightarrow> [] | Some to \<Rightarrow> [(gp_id p, to :: int)]) policies)))"
  using assms
proof (induction policies)
  case (Cons q qs)
  have "set (map fst (concat (map (\<lambda>p. case f p of None \<Rightarrow> [] | Some to \<Rightarrow> [(gp_id p, to)]) qs))) \<subseteq> gp_id ` set qs"
    by (auto split: option.splits)
  then show ?case using Cons by (auto split: option.splits)
qed simp

text \<open>The device after setting the rule leaf of a list of policies.\<close>

lemma run_repoints:
  assumes dev: "device_laws dev single" and sch: "geo_schema single" and dist: "distinct (map fst xs)"
  shows "run dev (map (\<lambda>(n, to). cset (geo_policyBase n @ [''rule'', string_of_int to])) xs) S =
    (S - (\<Union>(n, to)\<in>set xs. cone (geo_policyBase n @ [''rule'']))) \<union>
    (\<lambda>(n, to). geo_policyBase n @ [''rule'', string_of_int to]) ` set xs"
proof -
  let ?leaf = "\<lambda>x. geo_policyBase (fst x) @ [''rule'']"
  let ?cmd = "\<lambda>x. cset (?leaf x @ [string_of_int (snd x)])"
  have "edits dev (\<Union>x\<in>set xs. cone (?leaf x)) (concat (map (\<lambda>x. [?cmd x]) xs))
      (\<Union>x\<in>set xs. S \<inter> cone (?leaf x)) (\<Union>x\<in>set xs. {?leaf x @ [string_of_int (snd x)]})"
  proof (rule edits_concat)
    show "edits dev (cone (?leaf x)) [?cmd x] (S \<inter> cone (?leaf x)) {?leaf x @ [string_of_int (snd x)]}" for x
      by (rule edits_set_leaf [OF dev geo_rule_single [OF sch]]) simp
    show "distinct xs" using dist by (simp add: distinct_map)
    show "cone (?leaf x) \<inter> cone (?leaf y) = {}" if "x \<in> set xs" "y \<in> set xs" "x \<noteq> y" for x y
      using geo_nodes.cones_disjoint [of "fst x" "fst y"] key_unique [OF dist that(1,2)] that(3)
        cone_append_subset [of "geo_policyBase (fst x)"] cone_append_subset [of "geo_policyBase (fst y)"] by blast
  qed
  from edits_run [OF this, of S] have "run dev (concat (map (\<lambda>x. [?cmd x]) xs)) S =
      (S - (\<Union>x\<in>set xs. cone (?leaf x))) \<union> (\<Union>x\<in>set xs. {?leaf x @ [string_of_int (snd x)]})"
    by (simp only: Int_UN_distrib)
  moreover have "concat (map (\<lambda>x. [f x]) xs) = map f xs" for f :: "'x \<Rightarrow> 'y" and xs by (induction xs) simp_all
  moreover have "(\<Union>x\<in>set xs. {?leaf x @ [string_of_int (snd x)]}) =
      (\<lambda>(n, to). geo_policyBase n @ [''rule'', string_of_int to]) ` set xs"
    by (auto simp: split_def)
  ultimately show ?thesis by (simp add: split_def)
qed

text \<open>The same, seen at one policy.\<close>

lemma repoints_at:
  assumes at: "\<And>m. (k, m) \<in> set xs \<longleftrightarrow> to = Some m"
    and T: "T = (S - (\<Union>(n, to)\<in>set xs. cone (geo_policyBase n @ [''rule'']))) \<union>
      (\<lambda>(n, to). geo_policyBase n @ [''rule'', string_of_int to]) ` set xs"
  shows "T \<inter> cone (geo_policyBase k) = (case to of None \<Rightarrow> S \<inter> cone (geo_policyBase k)
      | Some m \<Rightarrow> (S \<inter> cone (geo_policyBase k) - cone (geo_policyBase k @ [''rule''])) \<union>
         {geo_policyBase k @ [''rule'', string_of_int m]})"
proof -
  let ?b = "geo_policyBase k"
  have own: "n = k" if "q \<in> cone (geo_policyBase n @ r)" "q \<in> cone ?b" for n q r
    using geo_nodes.cone_of_key [of q n k] that cone_append_subset [of "geo_policyBase n" r] by auto
  have del: "q \<in> (\<Union>(n, to)\<in>set xs. cone (geo_policyBase n @ [''rule''])) \<longleftrightarrow> to \<noteq> None \<and> q \<in> cone (?b @ [''rule''])"
    if q: "q \<in> cone ?b" for q
  proof
    assume "q \<in> (\<Union>(n, to)\<in>set xs. cone (geo_policyBase n @ [''rule'']))"
    then obtain n m where nm: "(n, m) \<in> set xs" "q \<in> cone (geo_policyBase n @ [''rule''])" by blast
    then have "n = k" using own q by blast
    then show "to \<noteq> None \<and> q \<in> cone (?b @ [''rule''])" using nm at by auto
  next
    assume a: "to \<noteq> None \<and> q \<in> cone (?b @ [''rule''])"
    then obtain m where "(k, m) \<in> set xs" using at by blast
    then show "q \<in> (\<Union>(n, to)\<in>set xs. cone (geo_policyBase n @ [''rule'']))" using a by blast
  qed
  have new: "q \<in> (\<lambda>(n, to). geo_policyBase n @ [''rule'', string_of_int to]) ` set xs \<longleftrightarrow>
      (\<exists>m. to = Some m \<and> q = ?b @ [''rule'', string_of_int m])" if q: "q \<in> cone ?b" for q
  proof
    assume "q \<in> (\<lambda>(n, to). geo_policyBase n @ [''rule'', string_of_int to]) ` set xs"
    then obtain n m where nm: "(n, m) \<in> set xs" "q = geo_policyBase n @ [''rule'', string_of_int m]" by auto
    then have "n = k" using own [of q n "[''rule'', string_of_int m]"] q by auto
    then show "\<exists>m. to = Some m \<and> q = ?b @ [''rule'', string_of_int m]" using nm at by blast
  next
    assume "\<exists>m. to = Some m \<and> q = ?b @ [''rule'', string_of_int m]"
    then obtain m where "(k, m) \<in> set xs" "q = ?b @ [''rule'', string_of_int m]" using at by blast
    then show "q \<in> (\<lambda>(n, to). geo_policyBase n @ [''rule'', string_of_int to]) ` set xs" by force
  qed
  have mem: "q \<in> T \<longleftrightarrow> (q \<in> S \<and> \<not> (to \<noteq> None \<and> q \<in> cone (?b @ [''rule'']))) \<or>
      (\<exists>m. to = Some m \<and> q = ?b @ [''rule'', string_of_int m])" if q: "q \<in> cone ?b" for q
    unfolding T Un_iff Diff_iff del [OF q] new [OF q] by (rule refl)
  show ?thesis
  proof (rule set_eqI)
    fix q
    show "q \<in> T \<inter> cone ?b \<longleftrightarrow> q \<in> (case to of None \<Rightarrow> S \<inter> cone ?b
      | Some m \<Rightarrow> (S \<inter> cone ?b - cone (?b @ [''rule''])) \<union> {?b @ [''rule'', string_of_int m]})"
    proof (cases "q \<in> cone ?b")
      case True
      then show ?thesis using mem [OF True] by (cases to) auto
    next
      case False
      then show ?thesis by (cases to) auto
    qed
  qed
qed

text \<open>
  C7: a reorder takes the geolocation policies along in the same commit. A policy that points at a
  copy of the rule shown at position \<open>i\<close> afterwards has the rule's new number, \<open>10 * (i + 1)\<close>,
  in its rule leaf, whatever numbers the rules swap among themselves, and its other leaves as they
  were; a policy that points at no rule of the list is untouched.
\<close>

theorem reorder_cascade_geo:
  assumes dev: "device_laws dev single" and sch: "geo_schema single"
    and slots: "distinct (concat (map slots rules))" and ids: "distinct (map gp_id (geo_policies geo))"
    and p: "p \<in> set (geo_policies geo)"
    and leaf: "S \<inter> cone (geo_policyBase (gp_id p) @ [''rule'']) =
      {geo_policyBase (gp_id p) @ [''rule'', string_of_int (gp_rule p)]}"
    and T: "T = run dev (reorder_cascade_commit rules (Some geo)) S"
  shows "(\<forall>i<length rules. (gp_ruleset p, gp_rule p) \<in> set (slots (rules ! i)) \<longrightarrow>
      T \<inter> cone (geo_policyBase (gp_id p)) =
        (S \<inter> cone (geo_policyBase (gp_id p)) - cone (geo_policyBase (gp_id p) @ [''rule''])) \<union>
        {geo_policyBase (gp_id p) @ [''rule'', string_of_int ((int i + 1) * 10)]}) \<and>
    ((gp_ruleset p, gp_rule p) \<notin> set (concat (map slots rules)) \<longrightarrow>
      T \<inter> cone (geo_policyBase (gp_id p)) = S \<inter> cone (geo_policyBase (gp_id p)))"
proof -
  let ?b = "geo_policyBase (gp_id p)"
  let ?to = "\<lambda>q. map_of (renumberMap rules) (scope_key (gp_ruleset q) (gp_rule q))"
  let ?xs = "geo_repoints (renumberMap rules) (Some geo)"
  have xs: "?xs = concat (map (\<lambda>q. case ?to q of None \<Rightarrow> [] | Some to \<Rightarrow> [(gp_id q, to)]) (geo_policies geo))"
    by (simp add: geo_repoints_def)
  have dist: "distinct (map fst ?xs)" unfolding xs by (rule geo_repoints_ids [OF ids])
  have mem: "(gp_id p, m) \<in> set ?xs \<longleftrightarrow> ?to p = Some m" for m
  proof
    assume "(gp_id p, m) \<in> set ?xs"
    then obtain q where q: "q \<in> set (geo_policies geo)" "gp_id q = gp_id p" "?to q = Some m"
      unfolding xs by (auto split: option.splits)
    then have "q = p" using key_unique [OF ids _ p] by blast
    with q show "?to p = Some m" by simp
  next
    assume "?to p = Some m"
    then show "(gp_id p, m) \<in> set ?xs" unfolding xs using p by (auto intro!: bexI [of _ p])
  qed
  let ?S' = "run dev (reorderCommands rules) S"
  have "avoids single (cone ?b) (reorderCommands rules)"
    by (rule inside_avoids [OF reorder_inside]) (auto simp: geo_policyBase_def)
  then have S': "?S' \<inter> cone ?b = S \<inter> cone ?b" by (rule avoids_keeps [OF dev])
  have "T = (?S' - (\<Union>(n, to)\<in>set ?xs. cone (geo_policyBase n @ [''rule'']))) \<union>
      (\<lambda>(n, to). geo_policyBase n @ [''rule'', string_of_int to]) ` set ?xs"
    unfolding T reorder_cascade_commit_def applyRuleOrder_def Let_def fst_conv run_append
    by (rule run_repoints [OF dev sch dist])
  from repoints_at [OF mem this] have T': "T \<inter> cone ?b = (case ?to p of None \<Rightarrow> S \<inter> cone ?b
      | Some m \<Rightarrow> (S \<inter> cone ?b - cone (?b @ [''rule''])) \<union> {?b @ [''rule'', string_of_int m]})"
    by (simp only: S')
  show ?thesis
  proof (intro conjI allI impI)
    fix i assume i: "i < length rules" "(gp_ruleset p, gp_rule p) \<in> set (slots (rules ! i))"
    let ?new = "(int i + 1) * 10"
    obtain s where s: "s \<in> set (fr_scopes (rules ! i))" "sc_chain s = gp_ruleset p" "fr_rule (rules ! i) = gp_rule p"
      using i(2) by (auto simp: slots_def)
    show "T \<inter> cone ?b = (S \<inter> cone ?b - cone (?b @ [''rule''])) \<union> {?b @ [''rule'', string_of_int ?new]}"
    proof (cases "gp_rule p = ?new")
      case False
      then have "(gp_ruleset p, gp_rule p, ?new, sc_raw s) \<in> set (scope_moves rules)"
        using i(1) s unfolding scope_moves_iff by metis
      then have "?to p = Some ?new" using renumberMap_target [OF slots] by blast
      then show ?thesis by (simp add: T')
    next
      case True
      have "?to p = None"
      proof (rule ccontr)
        assume "?to p \<noteq> None"
        then obtain m raw where "(gp_ruleset p, gp_rule p, m, raw) \<in> set (scope_moves rules)"
          using renumberMap_target [OF slots] by blast
        then obtain j t where j: "j < length rules" "t \<in> set (fr_scopes (rules ! j))" "gp_ruleset p = sc_chain t"
            "gp_rule p = fr_rule (rules ! j)" "gp_rule p \<noteq> (int j + 1) * 10"
          unfolding scope_moves_iff by metis
        then have "(gp_ruleset p, gp_rule p) \<in> set (slots (rules ! j))" by (auto simp: slots_def)
        then have "i = j" using slots_index [OF slots i(1) j(1) i(2)] by simp
        then show False using j(5) True by simp
      qed
      then have "T \<inter> cone ?b = S \<inter> cone ?b" by (simp add: T')
      also have "\<dots> = (S \<inter> cone ?b - cone (?b @ [''rule''])) \<union> (S \<inter> cone (?b @ [''rule'']))"
        using cone_append_subset [of ?b "[''rule'']"] by blast
      also have "\<dots> = (S \<inter> cone ?b - cone (?b @ [''rule''])) \<union> {?b @ [''rule'', string_of_int ?new]}"
        by (simp only: leaf True)
      finally show ?thesis .
    qed
  next
    assume out: "(gp_ruleset p, gp_rule p) \<notin> set (concat (map slots rules))"
    have "?to p = None"
    proof (rule ccontr)
      assume "?to p \<noteq> None"
      then obtain m raw where "(gp_ruleset p, gp_rule p, m, raw) \<in> set (scope_moves rules)"
        using renumberMap_target [OF slots] by blast
      then obtain j t where j: "j < length rules" "t \<in> set (fr_scopes (rules ! j))" "gp_ruleset p = sc_chain t"
          "gp_rule p = fr_rule (rules ! j)"
        unfolding scope_moves_iff by metis
      then have "(gp_ruleset p, gp_rule p) \<in> set (slots (rules ! j))" by (auto simp: slots_def)
      then show False using out nth_mem [OF j(1)] by auto
    qed
    then show "T \<inter> cone ?b = S \<inter> cone ?b" by (simp add: T')
  qed
qed

definition swapped_geo :: geolocation_config where
  "swapped_geo = \<lparr>geo_actions = [], geo_policies = [geo_on 10 ''forward'' 20, geo_on 20 ''input'' 7]\<rparr>"

lemma reorder_cascade_geo_witness:
  "run (ref_dev geo_single) (reorder_cascade_commit swapped_rules (Some swapped_geo))
     {geo_policyBase 10 @ [''rule'', string_of_int 20], geo_policyBase 10 @ [''action'', ''block'']} \<inter> cone (geo_policyBase 10) =
   {geo_policyBase 10 @ [''rule'', string_of_int 10], geo_policyBase 10 @ [''action'', ''block'']}"
proof -
  let ?S = "{geo_policyBase 10 @ [''rule'', string_of_int 20], geo_policyBase 10 @ [''action'', ''block'']}"
  let ?p = "geo_on 10 ''forward'' 20"
  have p: "gp_id ?p = 10" "gp_ruleset ?p = ''forward''" "gp_rule ?p = 20" by (simp_all add: geo_on_def)
  have slots: "slots (swapped_rules ! 0) = [(''forward'', 20)]" "slots (swapped_rules ! 1) = [(''forward'', 10)]"
      "distinct (concat (map slots swapped_rules))" "0 < length swapped_rules"
    by (simp_all add: swapped_rules_def numbered_rule_def slots_def)
  have ids: "distinct (map gp_id (geo_policies swapped_geo))" "?p \<in> set (geo_policies swapped_geo)"
    by (simp_all add: swapped_geo_def geo_on_def)
  have leaf: "?S \<inter> cone (geo_policyBase (gp_id ?p) @ [''rule'']) =
      {geo_policyBase (gp_id ?p) @ [''rule'', string_of_int (gp_rule ?p)]}"
    unfolding p by (auto simp: geo_policyBase_def)
  from reorder_cascade_geo [OF ref_dev_laws geo_single_schema slots(3) ids leaf refl] slots(1,4)
  have "run (ref_dev geo_single) (reorder_cascade_commit swapped_rules (Some swapped_geo)) ?S \<inter> cone (geo_policyBase 10) =
      (?S \<inter> cone (geo_policyBase 10) - cone (geo_policyBase 10 @ [''rule''])) \<union>
      {geo_policyBase 10 @ [''rule'', string_of_int 10]}"
    unfolding p by fastforce
  also have "\<dots> = {geo_policyBase 10 @ [''rule'', string_of_int 10], geo_policyBase 10 @ [''action'', ''block'']}"
    by (auto simp: geo_policyBase_def)
  finally show ?thesis .
qed

text \<open>
  Where every rule number belongs to one rule, a reorder keeps every application-control binding
  on its rule: the binding of the rule shown at position \<open>i\<close> gets its new number, a binding of no
  rule of the list keeps its number, nothing but the number changes, and bindings with different
  numbers before, all of rules of the list, have different numbers after.
\<close>

theorem reorder_cascade_bindings:
  assumes nums: "distinct (map fr_rule rules)"
  shows "(\<forall>i<length rules. ab_id b = fr_rule (rules ! i) \<longrightarrow>
      repoint_binding (renumberByRule rules) b = b\<lparr>ab_id := (int i + 1) * 10\<rparr>) \<and>
    (ab_id b \<notin> fr_rule ` set rules \<longrightarrow> repoint_binding (renumberByRule rules) b = b) \<and>
    (distinct (map ab_id bs) \<and> ab_id ` set bs \<subseteq> fr_rule ` set rules \<longrightarrow>
      distinct (map ab_id (map (repoint_binding (renumberByRule rules)) bs)))"
proof -
  let ?re = "repoint_binding (renumberByRule rules)"
  have at: "?re b = b\<lparr>ab_id := (int i + 1) * 10\<rparr>" if i: "i < length rules" "ab_id b = fr_rule (rules ! i)" for b i
  proof (cases "map_of (renumberByRule rules) (ab_id b)")
    case None
    have "fr_rule (rules ! i) = (int i + 1) * 10"
    proof (rule ccontr)
      assume "fr_rule (rules ! i) \<noteq> (int i + 1) * 10"
      then have "map_of (renumberByRule rules) (ab_id b) = Some ((int i + 1) * 10)"
        using renumberByRule_target [OF nums, of "ab_id b" "(int i + 1) * 10"] i by metis
      with None show False by simp
    qed
    then show ?thesis using None i(2) by (simp add: repoint_binding_def)
  next
    case (Some m)
    then obtain j where j: "j < length rules" "ab_id b = fr_rule (rules ! j)" "m = (int j + 1) * 10"
      using renumberByRule_target [OF nums] by blast
    have "i = j" using nums i j by (simp add: distinct_conv_nth) (metis length_map nth_map)
    then show ?thesis using Some j(3) by (simp add: repoint_binding_def)
  qed
  have out: "?re b = b" if "ab_id b \<notin> fr_rule ` set rules" for b
  proof (cases "map_of (renumberByRule rules) (ab_id b)")
    case (Some m)
    then obtain j where "j < length rules" "ab_id b = fr_rule (rules ! j)"
      using renumberByRule_target [OF nums] by blast
    then show ?thesis using that by auto
  qed (simp add: repoint_binding_def)
  have "distinct (map ab_id (map ?re bs))"
    if d: "distinct (map ab_id bs)" and sub: "ab_id ` set bs \<subseteq> fr_rule ` set rules"
  proof -
    have "ab_id x = ab_id y" if xy: "x \<in> set bs" "y \<in> set bs" "ab_id (?re x) = ab_id (?re y)" for x y
    proof -
      have "\<exists>i<length rules. ab_id z = fr_rule (rules ! i)" if "z \<in> set bs" for z
      proof -
        from sub that obtain r where "r \<in> set rules" "ab_id z = fr_rule r" by (metis image_eqI imageE subsetD)
        then show ?thesis by (metis in_set_conv_nth)
      qed
      then obtain i j where "i < length rules" "ab_id x = fr_rule (rules ! i)" "j < length rules" "ab_id y = fr_rule (rules ! j)"
        using xy by blast
      then show ?thesis using at xy(3) by simp
    qed
    then have "inj_on (\<lambda>x. ab_id (?re x)) (set bs)" by (intro inj_onI) (metis key_unique [OF d])
    then show ?thesis using d by (simp add: distinct_map comp_def)
  qed
  then show ?thesis using at out by simp
qed

definition base_rule :: "rule_chain \<Rightarrow> int \<Rightarrow> firewall_rule" where
  "base_rule c n = web_rule \<lparr>fr_rule := n, fr_chain := c, fr_scopes := [\<lparr>sc_chain = c, sc_raw = JObj []\<rparr>]\<rparr>"

definition web_binding :: "int \<Rightarrow> ac_binding" where
  "web_binding n = \<lparr>ab_id = n, ab_action = ''Global'', ab_description = '''',
     ab_match = \<lparr>mt_iifname = None, mt_oifname = None, mt_saddr = None, mt_daddr = None, mt_l4 = None\<rparr>\<rparr>"

lemma reorder_cascade_bindings_witness:
  "ab_id (repoint_binding (renumberByRule [base_rule ''forward'' 20, base_rule ''input'' 10]) (web_binding 20)) = 10"
proof -
  let ?rules = "[base_rule ''forward'' 20, base_rule ''input'' 10]"
  have "distinct (map fr_rule ?rules)" by (simp add: base_rule_def)
  from reorder_cascade_bindings [OF this, of "web_binding 20" "[]"] have
    "\<forall>i<length ?rules. ab_id (web_binding 20) = fr_rule (?rules ! i) \<longrightarrow>
       repoint_binding (renumberByRule ?rules) (web_binding 20) = (web_binding 20)\<lparr>ab_id := (int i + 1) * 10\<rparr>"
    by blast
  from spec [OF this, of 0] show ?thesis by (simp add: base_rule_def web_binding_def)
qed

text \<open>
  A number does not identify a rule on its own when two chains use it: numbers have to be unique
  within a chain only. Here the forward rule 10 stays and the input rule 10 moves to 20, and the
  binding of the forward rule moves with the input rule. In the same way the delete of a zone rule
  drops the binding of the forward rule with its number.
\<close>

lemma binding_follows_wrong_rule:
  "let rules = [base_rule ''forward'' 10, base_rule ''input'' 10] in
     distinct (concat (map slots rules)) \<and> map_of (renumberMap rules) (scope_key ''forward'' 10) = None \<and>
     ab_id (repoint_binding (renumberByRule rules) (web_binding 10)) = 20"
proof -
  let ?rules = "[base_rule ''forward'' 10, base_rule ''input'' 10]"
  have t: "renumberTargets ?rules = [(base_rule ''input'' 10, 20)]"
    by (simp add: renumberTargets_def base_rule_def)
  have slots: "distinct (concat (map slots ?rules))" by (simp add: base_rule_def slots_def)
  have "map_of (renumberMap ?rules) (scope_key ''forward'' 10) = None"
  proof -
    have "renumberMap ?rules = [(scope_key ''input'' 10, 20)]"
      by (simp add: renumberMap_def t js_map_def) (simp add: base_rule_def)
    then show ?thesis by (simp add: scope_key_inj)
  qed
  moreover have "repoint_binding (renumberByRule ?rules) (web_binding 10) = (web_binding 10)\<lparr>ab_id := 20\<rparr>"
  proof -
    have "renumberByRule ?rules = [(10, 20)]"
      by (simp add: renumberByRule_def t js_map_def) (simp add: base_rule_def)
    then show ?thesis by (simp add: repoint_binding_def web_binding_def)
  qed
  ultimately show ?thesis using slots by (simp add: web_binding_def)
qed

text \<open>
  The result of a reorder counts bindings as repointed although the document could not be saved.
\<close>

lemma reorder_counts_unsaved:
  "map_option rr_repointedAcBindings (snd (snd (applyRuleOrderWithCascade
     [base_rule ''forward'' 20] None True (Some (emptyAcConfig\<lparr>ac_bindings := [web_binding 20]\<rparr>)) False))) = Some 1"
  by (simp add: applyRuleOrderWithCascade_def renumberMap_def renumberTargets_def base_rule_def js_map_def Let_def
      repointed_bindings_def renumberByRule_def web_binding_def)

end
