(* ===== verification/Reads.thy ===== *)
theory Reads
  imports Node_Editor
begin

text \<open>
  Diffs against a configuration whose defaults may be left out. Here a command list is judged by
  what the device reads as before and after, a predicate on the part of the configuration inside a
  region: \<open>achieves dev C cs P Q\<close> says that from every state whose part in \<open>C\<close> satisfies \<open>P\<close> the
  commands lead to one whose part in \<open>C\<close> satisfies \<open>Q\<close>, and that they change nothing outside.
\<close>

definition achieves ::
  "(vyos_command \<Rightarrow> path set \<Rightarrow> path set) \<Rightarrow> path set \<Rightarrow> vyos_command list \<Rightarrow>
   (path set \<Rightarrow> bool) \<Rightarrow> (path set \<Rightarrow> bool) \<Rightarrow> bool" where
  "achieves dev C cs P Q \<longleftrightarrow>
     (\<forall>S. P (S \<inter> C) \<longrightarrow> Q (run dev cs S \<inter> C) \<and> run dev cs S - C = S - C)"

lemma achievesI:
  assumes "\<And>S. P (S \<inter> C) \<Longrightarrow> Q (run dev cs S \<inter> C)"
    and "\<And>S. P (S \<inter> C) \<Longrightarrow> run dev cs S - C = S - C"
  shows "achieves dev C cs P Q"
  using assms by (simp add: achieves_def)

lemma achieves_edits:
  assumes "edits dev C cs L D"
  shows "achieves dev C cs (\<lambda>X. X = L) (\<lambda>X. X = D)"
proof (rule achievesI)
  fix S assume "S \<inter> C = L"
  then have run: "run dev cs S = (S - C) \<union> D" using edits_run [OF assms] by blast
  have D: "D \<subseteq> C" using assms by (simp add: edits_def)
  show "run dev cs S \<inter> C = D" unfolding run using D by blast
  show "run dev cs S - C = S - C" unfolding run using D by blast
qed

lemma achieves_weaken:
  assumes "achieves dev C cs P Q" and "\<And>X. P' X \<Longrightarrow> P X" and "\<And>X. Q X \<Longrightarrow> Q' X"
  shows "achieves dev C cs P' Q'"
  using assms by (simp add: achieves_def)

lemma achieves_nil: "achieves dev C [] P P"
  by (simp add: achieves_def)

text \<open>Parts in disjoint regions do not disturb each other.\<close>

type_synonym part = "path set \<times> vyos_command list \<times> (path set \<Rightarrow> bool) \<times> (path set \<Rightarrow> bool)"

definition part_cmds :: "part \<Rightarrow> vyos_command list" where
  "part_cmds x = fst (snd x)"

definition part_ok :: "(vyos_command \<Rightarrow> path set \<Rightarrow> path set) \<Rightarrow> part \<Rightarrow> bool" where
  "part_ok dev x \<longleftrightarrow> achieves dev (fst x) (part_cmds x) (fst (snd (snd x))) (snd (snd (snd x)))"

definition part_before :: "path set \<Rightarrow> part \<Rightarrow> bool" where
  "part_before S x \<longleftrightarrow> fst (snd (snd x)) (S \<inter> fst x)"

definition part_after :: "path set \<Rightarrow> part \<Rightarrow> bool" where
  "part_after S x \<longleftrightarrow> snd (snd (snd x)) (S \<inter> fst x)"

lemmas part_defs = part_cmds_def part_ok_def part_before_def part_after_def

lemma parts_run:
  assumes "\<forall>x\<in>set xs. part_ok dev x" and "sorted_wrt (\<lambda>x y. fst x \<inter> fst y = {}) xs"
    and "\<forall>x\<in>set xs. part_before S x"
  shows "(\<forall>x\<in>set xs. part_after (run dev (concat (map part_cmds xs)) S) x) \<and>
    run dev (concat (map part_cmds xs)) S - (\<Union>x\<in>set xs. fst x) = S - (\<Union>x\<in>set xs. fst x)"
  using assms
proof (induction xs arbitrary: S)
  case (Cons x xs)
  let ?S1 = "run dev (part_cmds x) S"
  let ?T = "run dev (concat (map part_cmds xs)) ?S1"
  have x: "snd (snd (snd x)) (?S1 \<inter> fst x)" "?S1 - fst x = S - fst x"
    using Cons.prems(1,3) by (simp_all add: part_defs achieves_def)
  have disj: "fst x \<inter> fst y = {}" if "y \<in> set xs" for y using Cons.prems(2) that by simp
  have same: "?S1 \<inter> fst y = S \<inter> fst y" if "y \<in> set xs" for y using disj [OF that] x(2) by blast
  have "\<forall>y\<in>set xs. part_before ?S1 y" using Cons.prems(3) same by (simp add: part_before_def)
  then have rest: "\<forall>y\<in>set xs. part_after ?T y" "?T - (\<Union>y\<in>set xs. fst y) = ?S1 - (\<Union>y\<in>set xs. fst y)"
    using Cons.IH [of ?S1] Cons.prems(1,2) by simp_all
  have "fst x \<inter> (\<Union>y\<in>set xs. fst y) = {}" using disj by blast
  then have "?T \<inter> fst x = ?S1 \<inter> fst x" using rest(2) by blast
  then have "part_after ?T x" using x(1) by (simp add: part_after_def)
  moreover have "?T - (\<Union>y\<in>set (x # xs). fst y) = S - (\<Union>y\<in>set (x # xs). fst y)"
    using rest(2) x(2) by auto
  ultimately show ?case using rest(1) by simp
qed simp

section \<open>A leaf with a default\<close>

text \<open>The part at \<open>p\<close> reads as \<open>v\<close>: the leaf has that value, or is missing and \<open>v\<close> is the default.\<close>

definition reads_leaf :: "path \<Rightarrow> string option \<Rightarrow> string \<Rightarrow> path set \<Rightarrow> bool" where
  "reads_leaf p dflt v X \<longleftrightarrow> X = {p @ [v]} \<or> (X = {} \<and> dflt = Some v)"

lemma achieves_leaf_default:
  assumes dev: "device_laws dev single" and single: "single p"
  shows "achieves dev (cone p) (leaf_cmds p (Some live) (Some d)) (reads_leaf p dflt live) (reads_leaf p dflt d)"
proof (cases "d = live")
  case True
  then show ?thesis by (simp add: achieves_nil)
next
  case False
  then show ?thesis
    using single by (intro achievesI) (auto simp: leaf_cmds_def dev_set_single [OF dev] reads_leaf_def)
qed

lemma achieves_leaf:
  "device_laws dev single \<Longrightarrow> single p \<Longrightarrow>
   achieves dev (cone p) (leaf_cmds p live d) (\<lambda>X. X = leaf_paths p live) (\<lambda>X. X = leaf_paths p d)"
  by (rule achieves_edits) (rule edits_leaf)

lemma achieves_flag:
  "device_laws dev single \<Longrightarrow> \<not> single (butlast p) \<Longrightarrow>
   achieves dev (cone p) (flag_cmds p live d) (\<lambda>X. X = flag_paths p live) (\<lambda>X. X = flag_paths p d)"
  by (rule achieves_edits) (rule edits_flag)

lemma achieves_list:
  "device_laws dev single \<Longrightarrow> \<not> single p \<Longrightarrow>
   achieves dev (cone p) (list_cmds p live d) (\<lambda>X. X = list_paths p live) (\<lambda>X. X = list_paths p d)"
  by (rule achieves_edits) (rule edits_list)

end
