(* ===== verification/Ssl_Inspection.thy ===== *)
theory Ssl_Inspection
  imports Reads
begin

text \<open>
  TLS interception in \<open>lib/ssl-inspection.ts\<close>: the configuration under \<open>service quartzfire
  ssl-inspection\<close>, its reader, the check of a do-not-inspect pattern, and the diff of the whole
  model with the bindings of firewall rules. Status, CA and regeneration are requests.
\<close>

section \<open>Model\<close>

datatype ssl_action = SslInspect | SslSplice

fun ssl_action_str :: "ssl_action \<Rightarrow> string" where
  "ssl_action_str SslInspect = ''inspect''"
| "ssl_action_str SslSplice = ''splice''"

datatype upstream_invalid = UpstreamBlock | UpstreamAllow

fun upstream_str :: "upstream_invalid \<Rightarrow> string" where
  "upstream_str UpstreamBlock = ''block''"
| "upstream_str UpstreamAllow = ''allow''"

datatype fail_mode = FailClosed | FailOpen

fun fail_mode_str :: "fail_mode \<Rightarrow> string" where
  "fail_mode_str FailClosed = ''closed''"
| "fail_mode_str FailOpen = ''open''"

record ssl_content_filter =
  cf_icapHost :: string
  cf_icapPort :: int
  cf_reqmodService :: string
  cf_respmodService :: string
  cf_failMode :: fail_mode

record ssl_policy =
  sp_rule :: int
  sp_ruleset :: string
  sp_action :: ssl_action
  sp_enabled :: bool

record ssl_config =
  ssl_enabled :: bool
  ssl_interceptPort :: int
  ssl_policies :: "ssl_policy list"
  ssl_defaultAction :: ssl_action
  ssl_noInspect :: "string list"
  ssl_defaultExclusions :: bool
  ssl_upstreamInvalid :: upstream_invalid
  ssl_contentFilter :: "ssl_content_filter option"
  ssl_caDownloadInterfaces :: "string list"

definition emptySslInspectionConfig :: ssl_config where
  "emptySslInspectionConfig = \<lparr>ssl_enabled = False, ssl_interceptPort = 3129, ssl_policies = [],
     ssl_defaultAction = SslInspect, ssl_noInspect = [], ssl_defaultExclusions = True,
     ssl_upstreamInvalid = UpstreamBlock, ssl_contentFilter = None, ssl_caDownloadInterfaces = []\<rparr>"

definition ssl_base :: path where
  "ssl_base = [''service'', ''quartzfire'', ''ssl-inspection'']"

section \<open>Reading\<close>

text \<open>\<open>raw && typeof raw === "object" ? raw : {}\<close>.\<close>

fun as_object :: "json \<Rightarrow> json" where
  "as_object (JObj kvs) = JObj kvs"
| "as_object (JArr xs) = JArr xs"
| "as_object _ = empty_obj"

definition in_object :: "string \<Rightarrow> json \<Rightarrow> bool" where
  "in_object k v \<longleftrightarrow> has_key k (as_object v) = Inr True"

fun readPolicies_rows :: "(string \<times> json) list \<Rightarrow> ssl_policy list" where
  "readPolicies_rows [] = []"
| "readPolicies_rows ((key, raw) # es) =
     (case js_number key of
        None \<Rightarrow> readPolicies_rows es
      | Some rule \<Rightarrow> (let p = as_object raw in
          \<lparr>sp_rule = rule,
            sp_ruleset = (case childStr p ''ruleset'' of None \<Rightarrow> ''forward'' | Some r \<Rightarrow> r),
            sp_action = (if childStr p ''action'' = Some ''splice'' then SslSplice else SslInspect),
            sp_enabled = (\<not> in_object ''disable'' p)\<rparr> # readPolicies_rows es))"

definition readPolicies :: "json option \<Rightarrow> ssl_policy list" where
  "readPolicies node = (case node of None \<Rightarrow> []
     | Some n \<Rightarrow> sort_by (\<lambda>a b. sp_rule a - sp_rule b) (readPolicies_rows (obj_entries n)))"

text \<open>\<open>Number(childStr(v, key)) || dflt\<close>.\<close>

definition number_or :: "int \<Rightarrow> string option \<Rightarrow> int" where
  "number_or dflt v = (case Option.bind v js_number of None \<Rightarrow> dflt | Some n \<Rightarrow> if n = 0 then dflt else n)"

definition or_string :: "string \<Rightarrow> string option \<Rightarrow> string" where
  "or_string dflt v = (case v of None \<Rightarrow> dflt | Some s \<Rightarrow> s)"

definition read_content_filter :: "json \<Rightarrow> ssl_content_filter" where
  "read_content_filter cf = \<lparr>cf_icapHost = or_string ''127.0.0.1'' (childStr cf ''icap-host''),
     cf_icapPort = number_or 1344 (childStr cf ''icap-port''),
     cf_reqmodService = or_string ''request'' (childStr cf ''reqmod-service''),
     cf_respmodService = or_string ''response'' (childStr cf ''respmod-service''),
     cf_failMode = (if childStr cf ''fail-mode'' = Some ''open'' then FailOpen else FailClosed)\<rparr>"

definition fetchSslInspection :: "vyos_response \<Rightarrow> read_error + ssl_config" where
  "fetchSslInspection resp =
     (case config_of_response ''Device returned an error reading the SSL inspection config.'' resp of
        Inl e \<Rightarrow> Inl e
      | Inr cfg \<Rightarrow>
         (case (has_key ''enable'' cfg, has_key ''disable-default-exclusions'' cfg) of
            (Inr enable, Inr no_default) \<Rightarrow> Inr \<lparr>ssl_enabled = enable,
              ssl_interceptPort = number_or 3129 (childStr cfg ''intercept-port''),
              ssl_policies = readPolicies (childCfg cfg ''policy''),
              ssl_defaultAction = (if childStr cfg ''default-action'' = Some ''splice'' then SslSplice else SslInspect),
              ssl_noInspect = childList cfg ''no-inspect'',
              ssl_defaultExclusions = (\<not> no_default),
              ssl_upstreamInvalid = (if childStr cfg ''upstream-invalid'' = Some ''allow'' then UpstreamAllow else UpstreamBlock),
              ssl_contentFilter = map_option read_content_filter (childCfg cfg ''content-filter''),
              ssl_caDownloadInterfaces = childList (obj_or_empty (childCfg cfg ''ca-download'')) ''interface''\<rparr>
          | _ \<Rightarrow> Inl TypeError))"

section \<open>Domain patterns\<close>

definition domain_char :: "char \<Rightarrow> bool" where
  "domain_char c \<longleftrightarrow> is_letter c \<or> is_digit c"

definition domain_label :: "string \<Rightarrow> bool" where
  "domain_label l \<longleftrightarrow> l \<noteq> [] \<and> domain_char (hd l) \<and> domain_char (last l) \<and>
     list_all (\<lambda>c. domain_char c \<or> c = CHR ''-'') l"

definition pattern_core :: "string \<Rightarrow> string" where
  "pattern_core pat =
     (let a = (if prefix ''*.'' pat then drop 2 pat else pat)
      in (if prefix ''.'' a then tl a else a))"

datatype pattern_error = BadPattern

definition validateDomainPattern :: "string \<Rightarrow> pattern_error option" where
  "validateDomainPattern pat =
     (let core = pattern_core pat in
      if core = [] \<or> 253 < length core \<or> \<not> list_all domain_label (split_on (CHR ''.'') core)
      then Some BadPattern else None)"

section \<open>Diffs\<close>

definition multiDiff :: "path \<Rightarrow> string list \<Rightarrow> string list \<Rightarrow> vyos_command list" where
  "multiDiff p live desired = list_cmds p (uniq live) (uniq desired)"

definition ssl_policyBase :: "int \<Rightarrow> path" where
  "ssl_policyBase rule = ssl_base @ [''policy'', string_of_int rule]"

definition ssl_policy_cmds :: "ssl_policy option \<Rightarrow> ssl_policy \<Rightarrow> vyos_command list" where
  "ssl_policy_cmds prev p = (let b = ssl_policyBase (sp_rule p) in
     leaf_cmds (b @ [''action'']) (map_option (ssl_action_str \<circ> sp_action) prev) (Some (ssl_action_str (sp_action p))) @
     leaf_cmds (b @ [''ruleset'']) (map_option sp_ruleset prev) (Some (sp_ruleset p)) @
     flag_cmds (b @ [''disable'']) (case prev of None \<Rightarrow> False | Some q \<Rightarrow> \<not> sp_enabled q) (\<not> sp_enabled p))"

definition by_rule :: "ssl_policy list \<Rightarrow> (int \<times> ssl_policy) list" where
  "by_rule ps = js_map (map (\<lambda>p. (sp_rule p, p)) ps)"

definition policyDiff :: "ssl_policy list \<Rightarrow> ssl_policy list \<Rightarrow> vyos_command list" where
  "policyDiff live desired =
     concat (map (\<lambda>p. ssl_policy_cmds (map_of (by_rule live) (sp_rule p)) p) desired) @
     map (\<lambda>p. cdel (ssl_policyBase (sp_rule p)))
       (filter (\<lambda>p. map_of (by_rule desired) (sp_rule p) = None) live)"

definition ssl_filter_base :: path where
  "ssl_filter_base = ssl_base @ [''content-filter'']"

definition content_filter_cmds ::
  "ssl_content_filter option \<Rightarrow> ssl_content_filter option \<Rightarrow> vyos_command list" where
  "content_filter_cmds live desired = (case desired of
     None \<Rightarrow> if live \<noteq> None then [cdel ssl_filter_base] else []
   | Some cf \<Rightarrow>
      leaf_cmds (ssl_filter_base @ [''icap-host'']) (map_option cf_icapHost live) (Some (cf_icapHost cf)) @
      leaf_cmds (ssl_filter_base @ [''icap-port'']) (map_option (\<lambda>l. string_of_int (cf_icapPort l)) live)
        (Some (string_of_int (cf_icapPort cf))) @
      leaf_cmds (ssl_filter_base @ [''reqmod-service'']) (map_option cf_reqmodService live) (Some (cf_reqmodService cf)) @
      leaf_cmds (ssl_filter_base @ [''respmod-service'']) (map_option cf_respmodService live) (Some (cf_respmodService cf)) @
      leaf_cmds (ssl_filter_base @ [''fail-mode'']) (map_option (fail_mode_str \<circ> cf_failMode) live)
        (Some (fail_mode_str (cf_failMode cf))))"

definition diffSslInspection :: "ssl_config \<Rightarrow> ssl_config \<Rightarrow> vyos_command list" where
  "diffSslInspection live desired =
     flag_cmds (ssl_base @ [''enable'']) (ssl_enabled live) (ssl_enabled desired) @
     leaf_cmds (ssl_base @ [''intercept-port'']) (Some (string_of_int (ssl_interceptPort live)))
       (Some (string_of_int (ssl_interceptPort desired))) @
     leaf_cmds (ssl_base @ [''default-action'']) (Some (ssl_action_str (ssl_defaultAction live)))
       (Some (ssl_action_str (ssl_defaultAction desired))) @
     leaf_cmds (ssl_base @ [''upstream-invalid'']) (Some (upstream_str (ssl_upstreamInvalid live)))
       (Some (upstream_str (ssl_upstreamInvalid desired))) @
     flag_cmds (ssl_base @ [''disable-default-exclusions'']) (\<not> ssl_defaultExclusions live)
       (\<not> ssl_defaultExclusions desired) @
     policyDiff (ssl_policies live) (ssl_policies desired) @
     multiDiff (ssl_base @ [''no-inspect'']) (ssl_noInspect live) (ssl_noInspect desired) @
     multiDiff (ssl_base @ [''ca-download'', ''interface'']) (ssl_caDownloadInterfaces live)
       (ssl_caDownloadInterfaces desired) @
     content_filter_cmds (ssl_contentFilter live) (ssl_contentFilter desired)"

definition setSslEnabled_cmds :: "ssl_config \<Rightarrow> bool \<Rightarrow> vyos_command list" where
  "setSslEnabled_cmds live enabled = flag_cmds (ssl_base @ [''enable'']) (ssl_enabled live) enabled"

section \<open>What the device reads as\<close>

definition ssl_schema :: "(path \<Rightarrow> bool) \<Rightarrow> bool" where
  "ssl_schema single \<longleftrightarrow> \<not> single ssl_base \<and> \<not> single (ssl_base @ [''no-inspect'']) \<and>
     \<not> single (ssl_base @ [''ca-download'', ''interface'']) \<and>
     (\<forall>k\<in>{''intercept-port'', ''default-action'', ''upstream-invalid''}. single (ssl_base @ [k])) \<and>
     (\<forall>n. \<not> single (ssl_policyBase n) \<and> single (ssl_policyBase n @ [''action'']) \<and> single (ssl_policyBase n @ [''ruleset''])) \<and>
     (\<forall>k\<in>{''icap-host'', ''icap-port'', ''reqmod-service'', ''respmod-service'', ''fail-mode''}. single (ssl_filter_base @ [k]))"

definition ssl_policy_region :: "int \<Rightarrow> path set" where
  "ssl_policy_region n = (let b = ssl_policyBase n in
     cone (b @ [''action'']) \<union> (cone (b @ [''ruleset'']) \<union> cone (b @ [''disable''])))"

definition ssl_policy_paths :: "ssl_policy \<Rightarrow> path set" where
  "ssl_policy_paths p = (let b = ssl_policyBase (sp_rule p) in
     {b @ [''action'', ssl_action_str (sp_action p)]} \<union> ({b @ [''ruleset'', sp_ruleset p]} \<union>
      flag_paths (b @ [''disable'']) (\<not> sp_enabled p)))"

definition content_filter_reads :: "ssl_content_filter option \<Rightarrow> path set \<Rightarrow> bool" where
  "content_filter_reads c X \<longleftrightarrow> (case c of None \<Rightarrow> X = {}
     | Some f \<Rightarrow> X \<noteq> {} \<and>
        reads_leaf (ssl_filter_base @ [''icap-host'']) (Some ''127.0.0.1'') (cf_icapHost f) (X \<inter> cone (ssl_filter_base @ [''icap-host''])) \<and>
        reads_leaf (ssl_filter_base @ [''icap-port'']) (Some ''1344'') (string_of_int (cf_icapPort f)) (X \<inter> cone (ssl_filter_base @ [''icap-port''])) \<and>
        reads_leaf (ssl_filter_base @ [''reqmod-service'']) (Some ''request'') (cf_reqmodService f) (X \<inter> cone (ssl_filter_base @ [''reqmod-service''])) \<and>
        reads_leaf (ssl_filter_base @ [''respmod-service'']) (Some ''response'') (cf_respmodService f) (X \<inter> cone (ssl_filter_base @ [''respmod-service''])) \<and>
        reads_leaf (ssl_filter_base @ [''fail-mode'']) (Some ''closed'') (fail_mode_str (cf_failMode f)) (X \<inter> cone (ssl_filter_base @ [''fail-mode''])))"

text \<open>
  The device holds the model: every leaf reads as the model has it, a leaf with a default may be
  missing, and the bindings of rules are the ones of the model, in full.
\<close>

definition ssl_reads :: "path set \<Rightarrow> ssl_config \<Rightarrow> bool" where
  "ssl_reads S c \<longleftrightarrow>
     S \<inter> cone (ssl_base @ [''enable'']) = flag_paths (ssl_base @ [''enable'']) (ssl_enabled c) \<and>
     reads_leaf (ssl_base @ [''intercept-port'']) (Some ''3129'') (string_of_int (ssl_interceptPort c)) (S \<inter> cone (ssl_base @ [''intercept-port''])) \<and>
     reads_leaf (ssl_base @ [''default-action'']) (Some ''inspect'') (ssl_action_str (ssl_defaultAction c)) (S \<inter> cone (ssl_base @ [''default-action''])) \<and>
     reads_leaf (ssl_base @ [''upstream-invalid'']) (Some ''block'') (upstream_str (ssl_upstreamInvalid c)) (S \<inter> cone (ssl_base @ [''upstream-invalid''])) \<and>
     S \<inter> cone (ssl_base @ [''disable-default-exclusions'']) = flag_paths (ssl_base @ [''disable-default-exclusions'']) (\<not> ssl_defaultExclusions c) \<and>
     S \<inter> cone (ssl_base @ [''policy'']) = (\<Union>p\<in>set (ssl_policies c). ssl_policy_paths p) \<and>
     S \<inter> cone (ssl_base @ [''no-inspect'']) = list_paths (ssl_base @ [''no-inspect'']) (ssl_noInspect c) \<and>
     S \<inter> cone (ssl_base @ [''ca-download'', ''interface'']) = list_paths (ssl_base @ [''ca-download'', ''interface'']) (ssl_caDownloadInterfaces c) \<and>
     content_filter_reads (ssl_contentFilter c) (S \<inter> cone ssl_filter_base)"

interpretation ssl_nodes: keyed_nodes ssl_policyBase "\<lambda>_. True" 5
  by unfold_locales (simp_all add: ssl_policyBase_def ssl_base_def)

lemma ssl_policy_region_cone: "ssl_policy_region n \<subseteq> cone (ssl_policyBase n)"
  unfolding ssl_policy_region_def Let_def by (intro Un_least cone_append_subset)

lemma edits_ssl_policy:
  assumes dev: "device_laws dev single" and sch: "ssl_schema single"
    and prev: "\<And>q. prev = Some q \<Longrightarrow> sp_rule q = sp_rule p"
  shows "edits dev (cone (ssl_policyBase (sp_rule p))) (ssl_policy_cmds prev p)
    (case prev of None \<Rightarrow> {} | Some q \<Rightarrow> ssl_policy_paths q) (ssl_policy_paths p)"
proof -
  let ?b = "ssl_policyBase (sp_rule p)"
  have s: "single (?b @ [''action''])" "single (?b @ [''ruleset''])" "\<not> single (butlast (?b @ [''disable'']))"
    using sch by (simp_all add: ssl_schema_def)
  have before: "(case prev of None \<Rightarrow> {} | Some q \<Rightarrow> ssl_policy_paths q) =
      leaf_paths (?b @ [''action'']) (map_option (ssl_action_str \<circ> sp_action) prev) \<union>
      (leaf_paths (?b @ [''ruleset'']) (map_option sp_ruleset prev) \<union>
       flag_paths (?b @ [''disable'']) (case prev of None \<Rightarrow> False | Some q \<Rightarrow> \<not> sp_enabled q))"
    using prev by (cases prev) (simp_all add: ssl_policy_paths_def leaf_paths_def Let_def)
  have after: "ssl_policy_paths p = leaf_paths (?b @ [''action'']) (Some (ssl_action_str (sp_action p))) \<union>
      (leaf_paths (?b @ [''ruleset'']) (Some (sp_ruleset p)) \<union> flag_paths (?b @ [''disable'']) (\<not> sp_enabled p))"
    by (simp add: ssl_policy_paths_def leaf_paths_def Let_def)
  have e: "edits dev (ssl_policy_region (sp_rule p)) (ssl_policy_cmds prev p)
      (case prev of None \<Rightarrow> {} | Some q \<Rightarrow> ssl_policy_paths q) (ssl_policy_paths p)"
    unfolding before after ssl_policy_region_def ssl_policy_cmds_def Let_def
    by (intro edits_append edits_leaf [OF dev] edits_flag [OF dev] s) (simp_all add: cone_simps)
  from edits_frame [OF e ssl_policy_region_cone, of "{}"] show ?thesis by simp
qed

lemma ssl_policy_paths_cone: "ssl_policy_paths p \<subseteq> cone (ssl_policyBase (sp_rule p))"
  by (auto simp: ssl_policy_paths_def Let_def flag_paths_def)

lemma by_rule_lookup:
  assumes "distinct (map sp_rule ps)"
  shows "map_of (by_rule ps) n = Some p \<longleftrightarrow> p \<in> set ps \<and> sp_rule p = n"
proof -
  have "distinct (map fst (rev (map (\<lambda>p. (sp_rule p, p)) ps)))" using assms by (simp add: rev_map [symmetric] comp_def)
  then have "map_of (by_rule ps) n = Some p \<longleftrightarrow> (n, p) \<in> set (map (\<lambda>p. (sp_rule p, p)) ps)"
    unfolding by_rule_def map_of_js_map by (subst map_of_eq_Some_iff) simp_all
  then show ?thesis by auto
qed

lemma by_rule_none: "map_of (by_rule ps) n = None \<longleftrightarrow> n \<notin> sp_rule ` set ps"
  using keys_js_map [of "map (\<lambda>p. (sp_rule p, p)) ps"]
  by (auto simp: by_rule_def map_of_eq_None_iff comp_def)

lemma edits_policyDiff:
  assumes dev: "device_laws dev single" and sch: "ssl_schema single"
    and dl: "distinct (map sp_rule live)" and dd: "distinct (map sp_rule desired)"
  shows "edits dev (cone (ssl_base @ [''policy''])) (policyDiff live desired)
    (\<Union>p\<in>set live. ssl_policy_paths p) (\<Union>p\<in>set desired. ssl_policy_paths p)"
proof -
  let ?prev = "\<lambda>p. map_of (by_rule live) (sp_rule p)"
  let ?gone = "filter (\<lambda>p. map_of (by_rule desired) (sp_rule p) = None) live"
  let ?c = "\<lambda>p. cone (ssl_policyBase (sp_rule p))"
  have apart: "?c p \<inter> ?c q = {}" if "sp_rule p \<noteq> sp_rule q" for p q
    using ssl_nodes.cones_disjoint that by blast
  have one: "edits dev (\<Union>p\<in>set desired. ?c p) (concat (map (\<lambda>p. ssl_policy_cmds (?prev p) p) desired))
      (\<Union>p\<in>set desired. case ?prev p of None \<Rightarrow> {} | Some q \<Rightarrow> ssl_policy_paths q) (\<Union>p\<in>set desired. ssl_policy_paths p)"
    using dd by (intro edits_concat edits_ssl_policy [OF dev sch] apart)
      (auto simp: by_rule_lookup [OF dl] distinct_map dest: inj_onD)
  have two: "edits dev (\<Union>p\<in>set ?gone. ?c p) (concat (map (\<lambda>p. [cdel (ssl_policyBase (sp_rule p))]) ?gone))
      (\<Union>p\<in>set ?gone. ssl_policy_paths p) (\<Union>p\<in>set ?gone. {})"
    using dl by (intro edits_concat edits_delete [OF dev] ssl_policy_paths_cone apart)
      (auto simp: distinct_map dest: inj_onD)
  have disj: "(\<Union>p\<in>set desired. ?c p) \<inter> (\<Union>p\<in>set ?gone. ?c p) = {}"
    using apart by (fastforce simp: by_rule_none)
  have singles: "concat (map (\<lambda>x. [f x]) xs) = map f xs" for f :: "'x \<Rightarrow> 'y" and xs by (induction xs) simp_all
  have before: "(\<Union>p\<in>set desired. case ?prev p of None \<Rightarrow> {} | Some q \<Rightarrow> ssl_policy_paths q) \<union>
      (\<Union>p\<in>set ?gone. ssl_policy_paths p) = (\<Union>p\<in>set live. ssl_policy_paths p)"
  proof (rule set_eqI, rule iffI)
    fix q assume "q \<in> (\<Union>p\<in>set live. ssl_policy_paths p)"
    then obtain p where p: "p \<in> set live" "q \<in> ssl_policy_paths p" by blast
    show "q \<in> (\<Union>p\<in>set desired. case ?prev p of None \<Rightarrow> {} | Some q \<Rightarrow> ssl_policy_paths q) \<union> (\<Union>p\<in>set ?gone. ssl_policy_paths p)"
    proof (cases "sp_rule p \<in> sp_rule ` set desired")
      case True
      then obtain d where d: "d \<in> set desired" "sp_rule d = sp_rule p" by auto
      then have "?prev d = Some p" using p(1) by (simp add: by_rule_lookup [OF dl])
      then show ?thesis using d(1) p(2) by (intro UnI1 UN_I [of d]) simp_all
    next
      case False
      then show ?thesis using p by (intro UnI2 UN_I [of p]) (simp_all add: by_rule_none)
    qed
  qed (auto simp: by_rule_lookup [OF dl] split: option.splits)
  have "edits dev ((\<Union>p\<in>set desired. ?c p) \<union> (\<Union>p\<in>set ?gone. ?c p)) (policyDiff live desired)
      (\<Union>p\<in>set live. ssl_policy_paths p) (\<Union>p\<in>set desired. ssl_policy_paths p)"
    using edits_append [OF one two disj] by (simp only: before singles policyDiff_def) simp
  from edits_frame [OF this, of "cone (ssl_base @ [''policy''])" "{}"] show ?thesis
    using cone_append_subset [of "ssl_base @ [''policy'']"] by (simp add: ssl_policyBase_def) blast
qed

text \<open>Commands that only set paths inside a region do not empty it.\<close>

lemma run_sets_nonempty:
  assumes dev: "device_laws dev single" and "\<forall>c\<in>set cs. cmd_op c = OpSet \<and> cmd_path c \<in> C" and "S \<inter> C \<noteq> {}"
  shows "run dev cs S \<inter> C \<noteq> {}"
  using assms(2,3)
proof (induction cs arbitrary: S)
  case (Cons c cs)
  obtain p where c: "c = cset p" using Cons.prems(1) by (cases c) auto
  have "p \<in> dev c S" using dev by (simp add: device_laws_def c)
  then have "dev c S \<inter> C \<noteq> {}" using Cons.prems(1) c by auto
  then show ?case using Cons by simp
qed simp

lemma leaf_cmds_sets:
  "c \<in> set (leaf_cmds p l (Some d)) \<Longrightarrow> cmd_op c = OpSet \<and> cmd_path c \<in> cone p"
  by (auto simp: leaf_cmds_def split: if_splits)

definition filter_leaves :: "ssl_content_filter option \<Rightarrow> ssl_content_filter \<Rightarrow> (path \<times> string \<times> string option \<times> string) list" where
  "filter_leaves live cf =
     [(ssl_filter_base @ [''icap-host''], ''127.0.0.1'', map_option cf_icapHost live, cf_icapHost cf),
      (ssl_filter_base @ [''icap-port''], ''1344'', map_option (\<lambda>l. string_of_int (cf_icapPort l)) live, string_of_int (cf_icapPort cf)),
      (ssl_filter_base @ [''reqmod-service''], ''request'', map_option cf_reqmodService live, cf_reqmodService cf),
      (ssl_filter_base @ [''respmod-service''], ''response'', map_option cf_respmodService live, cf_respmodService cf),
      (ssl_filter_base @ [''fail-mode''], ''closed'', map_option (fail_mode_str \<circ> cf_failMode) live, fail_mode_str (cf_failMode cf))]"

definition filter_part :: "path \<times> string \<times> string option \<times> string \<Rightarrow> part" where
  "filter_part x = (case x of (p, dflt, live, d) \<Rightarrow> (cone p, leaf_cmds p live (Some d),
     (\<lambda>X. case live of None \<Rightarrow> X = {} | Some l \<Rightarrow> reads_leaf p (Some dflt) l X), reads_leaf p (Some dflt) d))"

lemma filter_part_ok:
  assumes dev: "device_laws dev single" and "single p"
  shows "part_ok dev (filter_part (p, dflt, live, d))"
proof (cases live)
  case None
  have "achieves dev (cone p) (leaf_cmds p None (Some d)) (\<lambda>X. X = {}) (reads_leaf p (Some dflt) d)"
    by (rule achieves_weaken [OF achieves_leaf [OF dev assms(2)]]) (simp_all add: leaf_paths_def reads_leaf_def)
  then show ?thesis by (simp add: filter_part_def part_defs None)
next
  case (Some l)
  then show ?thesis using achieves_leaf_default [OF dev assms(2)] by (simp add: filter_part_def part_defs)
qed

lemma achieves_content_filter:
  assumes dev: "device_laws dev single" and sch: "ssl_schema single"
  shows "achieves dev (cone ssl_filter_base) (content_filter_cmds live desired)
    (content_filter_reads live) (content_filter_reads desired)"
proof (cases desired)
  case None
  have "achieves dev (cone ssl_filter_base) [cdel ssl_filter_base] (content_filter_reads live) (\<lambda>X. X = {})"
    by (rule achievesI) (auto simp: dev_delete [OF dev])
  moreover have none: "content_filter_reads None = (\<lambda>X. X = {})" by (simp add: content_filter_reads_def fun_eq_iff)
  ultimately show ?thesis by (cases live) (simp_all add: None content_filter_cmds_def none achieves_nil)
next
  case (Some cf)
  let ?parts = "map filter_part (filter_leaves live cf)"
  have cmds: "content_filter_cmds live desired = concat (map part_cmds ?parts)"
    by (simp add: Some content_filter_cmds_def filter_leaves_def filter_part_def part_cmds_def)
  have ok: "\<forall>x\<in>set ?parts. part_ok dev x"
    using sch by (simp add: filter_leaves_def filter_part_ok [OF dev] ssl_schema_def)
  have disj: "sorted_wrt (\<lambda>x y. fst x \<inter> fst y = {}) ?parts"
    by (simp add: filter_leaves_def filter_part_def cone_disjoint_iff)
  have region: "(\<Union>x\<in>set ?parts. fst x) \<subseteq> cone ssl_filter_base"
    using cone_append_subset [of ssl_filter_base] by (simp add: filter_leaves_def filter_part_def)
  have sets: "\<forall>c\<in>set (concat (map part_cmds ?parts)). cmd_op c = OpSet \<and> cmd_path c \<in> cone ssl_filter_base"
    using leaf_cmds_sets cone_append_subset [of ssl_filter_base]
    by (fastforce simp: filter_leaves_def filter_part_def part_cmds_def)
  have sub: "S \<inter> cone ssl_filter_base \<inter> cone (ssl_filter_base @ p) = S \<inter> cone (ssl_filter_base @ p)" for S p
    using cone_append_subset [of ssl_filter_base p] by blast
  show ?thesis
    unfolding cmds
  proof (rule achievesI)
    fix S assume reads: "content_filter_reads live (S \<inter> cone ssl_filter_base)"
    have before: "\<forall>x\<in>set ?parts. part_before S x"
    proof (cases live)
      case None
      then have "S \<inter> cone ssl_filter_base = {}" using reads by (simp add: content_filter_reads_def)
      then have "S \<inter> cone (ssl_filter_base @ p) = {}" for p using sub [of S p] by simp
      then show ?thesis by (simp add: None filter_leaves_def filter_part_def part_before_def)
    next
      case (Some l)
      then show ?thesis
        using reads by (simp add: content_filter_reads_def sub filter_leaves_def filter_part_def part_before_def)
    qed
    let ?T = "run dev (concat (map part_cmds ?parts)) S"
    note run = parts_run [OF ok disj before]
    have after: "\<forall>x\<in>set ?parts. part_after ?T x" using run by blast
    have "?T \<inter> cone ssl_filter_base \<noteq> {}"
    proof (cases live)
      case None
      let ?p = "ssl_filter_base @ [''icap-host'', cf_icapHost cf]"
      obtain cs where cs: "concat (map part_cmds ?parts) = cset ?p # cs"
        by (simp add: None filter_leaves_def filter_part_def part_cmds_def leaf_cmds_def)
      have "?p \<in> dev (cset ?p) S" using dev by (simp add: device_laws_def)
      then have "dev (cset ?p) S \<inter> cone ssl_filter_base \<noteq> {}" by auto
      moreover have "\<forall>c\<in>set cs. cmd_op c = OpSet \<and> cmd_path c \<in> cone ssl_filter_base" using sets unfolding cs by simp
      ultimately have "run dev cs (dev (cset ?p) S) \<inter> cone ssl_filter_base \<noteq> {}" using run_sets_nonempty [OF dev] by blast
      then show ?thesis by (simp only: cs run_Cons) simp
    next
      case (Some l)
      then have "S \<inter> cone ssl_filter_base \<noteq> {}" using reads by (simp add: content_filter_reads_def)
      then show ?thesis by (rule run_sets_nonempty [OF dev sets])
    qed
    then show "content_filter_reads desired (?T \<inter> cone ssl_filter_base)"
      using after by (simp add: Some content_filter_reads_def sub filter_leaves_def filter_part_def part_after_def)
    show "?T - cone ssl_filter_base = S - cone ssl_filter_base" using run region by blast
  qed
qed

text \<open>The parts of the whole diff.\<close>

definition ssl_parts :: "ssl_config \<Rightarrow> ssl_config \<Rightarrow> part list" where
  "ssl_parts l d =
     [(cone (ssl_base @ [''enable'']), flag_cmds (ssl_base @ [''enable'']) (ssl_enabled l) (ssl_enabled d),
       (\<lambda>X. X = flag_paths (ssl_base @ [''enable'']) (ssl_enabled l)), (\<lambda>X. X = flag_paths (ssl_base @ [''enable'']) (ssl_enabled d))),
      (cone (ssl_base @ [''intercept-port'']),
       leaf_cmds (ssl_base @ [''intercept-port'']) (Some (string_of_int (ssl_interceptPort l))) (Some (string_of_int (ssl_interceptPort d))),
       reads_leaf (ssl_base @ [''intercept-port'']) (Some ''3129'') (string_of_int (ssl_interceptPort l)),
       reads_leaf (ssl_base @ [''intercept-port'']) (Some ''3129'') (string_of_int (ssl_interceptPort d))),
      (cone (ssl_base @ [''default-action'']),
       leaf_cmds (ssl_base @ [''default-action'']) (Some (ssl_action_str (ssl_defaultAction l))) (Some (ssl_action_str (ssl_defaultAction d))),
       reads_leaf (ssl_base @ [''default-action'']) (Some ''inspect'') (ssl_action_str (ssl_defaultAction l)),
       reads_leaf (ssl_base @ [''default-action'']) (Some ''inspect'') (ssl_action_str (ssl_defaultAction d))),
      (cone (ssl_base @ [''upstream-invalid'']),
       leaf_cmds (ssl_base @ [''upstream-invalid'']) (Some (upstream_str (ssl_upstreamInvalid l))) (Some (upstream_str (ssl_upstreamInvalid d))),
       reads_leaf (ssl_base @ [''upstream-invalid'']) (Some ''block'') (upstream_str (ssl_upstreamInvalid l)),
       reads_leaf (ssl_base @ [''upstream-invalid'']) (Some ''block'') (upstream_str (ssl_upstreamInvalid d))),
      (cone (ssl_base @ [''disable-default-exclusions'']),
       flag_cmds (ssl_base @ [''disable-default-exclusions'']) (\<not> ssl_defaultExclusions l) (\<not> ssl_defaultExclusions d),
       (\<lambda>X. X = flag_paths (ssl_base @ [''disable-default-exclusions'']) (\<not> ssl_defaultExclusions l)),
       (\<lambda>X. X = flag_paths (ssl_base @ [''disable-default-exclusions'']) (\<not> ssl_defaultExclusions d))),
      (cone (ssl_base @ [''policy'']), policyDiff (ssl_policies l) (ssl_policies d),
       (\<lambda>X. X = (\<Union>p\<in>set (ssl_policies l). ssl_policy_paths p)), (\<lambda>X. X = (\<Union>p\<in>set (ssl_policies d). ssl_policy_paths p))),
      (cone (ssl_base @ [''no-inspect'']), multiDiff (ssl_base @ [''no-inspect'']) (ssl_noInspect l) (ssl_noInspect d),
       (\<lambda>X. X = list_paths (ssl_base @ [''no-inspect'']) (ssl_noInspect l)), (\<lambda>X. X = list_paths (ssl_base @ [''no-inspect'']) (ssl_noInspect d))),
      (cone (ssl_base @ [''ca-download'', ''interface'']),
       multiDiff (ssl_base @ [''ca-download'', ''interface'']) (ssl_caDownloadInterfaces l) (ssl_caDownloadInterfaces d),
       (\<lambda>X. X = list_paths (ssl_base @ [''ca-download'', ''interface'']) (ssl_caDownloadInterfaces l)),
       (\<lambda>X. X = list_paths (ssl_base @ [''ca-download'', ''interface'']) (ssl_caDownloadInterfaces d))),
      (cone ssl_filter_base, content_filter_cmds (ssl_contentFilter l) (ssl_contentFilter d),
       content_filter_reads (ssl_contentFilter l), content_filter_reads (ssl_contentFilter d))]"

lemma ssl_parts_cmds: "diffSslInspection l d = concat (map part_cmds (ssl_parts l d))"
  by (simp add: diffSslInspection_def ssl_parts_def part_cmds_def)

lemma ssl_parts_before: "(\<forall>x\<in>set (ssl_parts l d). part_before S x) \<longleftrightarrow> ssl_reads S l"
  by (simp add: ssl_parts_def part_before_def ssl_reads_def)

lemma ssl_parts_after: "(\<forall>x\<in>set (ssl_parts l d). part_after S x) \<longleftrightarrow> ssl_reads S d"
  by (simp add: ssl_parts_def part_after_def ssl_reads_def)

lemma achieves_multiDiff:
  assumes dev: "device_laws dev single" and "\<not> single p"
  shows "achieves dev (cone p) (multiDiff p l d) (\<lambda>X. X = list_paths p l) (\<lambda>X. X = list_paths p d)"
proof -
  have u: "list_paths p (uniq vs) = list_paths p vs" for vs by (simp add: list_paths_def)
  show ?thesis using achieves_list [OF dev assms(2), of "uniq l" "uniq d"] by (simp only: multiDiff_def u)
qed

lemma ssl_parts_ok:
  assumes dev: "device_laws dev single" and sch: "ssl_schema single"
    and dl: "distinct (map sp_rule (ssl_policies l))" and dd: "distinct (map sp_rule (ssl_policies d))"
  shows "\<forall>x\<in>set (ssl_parts l d). part_ok dev x"
proof -
  have s: "\<not> single (butlast (ssl_base @ [''enable'']))" "\<not> single (butlast (ssl_base @ [''disable-default-exclusions'']))"
      "single (ssl_base @ [''intercept-port''])" "single (ssl_base @ [''default-action''])"
      "single (ssl_base @ [''upstream-invalid''])" "\<not> single (ssl_base @ [''no-inspect''])"
      "\<not> single (ssl_base @ [''ca-download'', ''interface''])"
    using sch by (simp_all add: ssl_schema_def)
  note flags = achieves_flag [OF dev s(1)] achieves_flag [OF dev s(2)]
  note leaves = achieves_leaf_default [OF dev s(3)] achieves_leaf_default [OF dev s(4)] achieves_leaf_default [OF dev s(5)]
  note lists = achieves_multiDiff [OF dev s(6)] achieves_multiDiff [OF dev s(7)]
  note policies = achieves_edits [OF edits_policyDiff [OF dev sch dl dd]]
  show ?thesis
    by (simp add: ssl_parts_def part_ok_def part_cmds_def flags leaves lists policies
        achieves_content_filter [OF dev sch])
qed

text \<open>From every state that reads as the live model to one that reads as the desired model.\<close>

lemma ssl_diff_correct:
  assumes dev: "device_laws dev single" and sch: "ssl_schema single"
    and "distinct (map sp_rule (ssl_policies live))" and "distinct (map sp_rule (ssl_policies desired))"
    and reads: "ssl_reads S live"
  shows "ssl_reads (run dev (diffSslInspection live desired) S) desired \<and>
    run dev (diffSslInspection live desired) S - cone ssl_base = S - cone ssl_base"
proof -
  let ?parts = "ssl_parts live desired"
  have disj: "sorted_wrt (\<lambda>x y. fst x \<inter> fst y = {}) ?parts"
    by (simp add: ssl_parts_def ssl_filter_base_def cone_disjoint_iff)
  have "cone (ssl_base @ p) \<subseteq> cone ssl_base" for p by (rule cone_append_subset)
  then have region: "(\<Union>x\<in>set ?parts. fst x) \<subseteq> cone ssl_base" by (simp add: ssl_parts_def ssl_filter_base_def)
  have "\<forall>x\<in>set ?parts. part_before S x" using reads by (simp add: ssl_parts_before)
  from parts_run [OF ssl_parts_ok [OF dev sch assms(3,4)] disj this]
  have "ssl_reads (run dev (diffSslInspection live desired) S) desired"
      "run dev (diffSslInspection live desired) S - (\<Union>x\<in>set ?parts. fst x) = S - (\<Union>x\<in>set ?parts. fst x)"
    by (simp_all only: ssl_parts_cmds ssl_parts_after)
  then show ?thesis using region by blast
qed

lemma policyDiff_idle:
  assumes "distinct (map sp_rule ps)"
  shows "policyDiff ps ps = []"
proof -
  have "ssl_policy_cmds (map_of (by_rule ps) (sp_rule p)) p = []" if "p \<in> set ps" for p
  proof -
    have "map_of (by_rule ps) (sp_rule p) = Some p" using that by (simp add: by_rule_lookup [OF assms])
    then show ?thesis by (simp add: ssl_policy_cmds_def Let_def)
  qed
  then show ?thesis by (simp add: policyDiff_def by_rule_none filter_empty_conv)
qed


definition ssl_single :: "path \<Rightarrow> bool" where
  "ssl_single = leaf_nodes [''intercept-port'', ''default-action'', ''upstream-invalid'', ''action'', ''ruleset'',
     ''icap-host'', ''icap-port'', ''reqmod-service'', ''respmod-service'', ''fail-mode'']"

lemma ssl_single_schema: "ssl_schema ssl_single"
proof -
  have "string_of_int n \<noteq> c # cs" if "\<not> is_digit c \<and> c \<noteq> CHR ''-''" for n c cs
    using that string_of_nat_digits [of "nat n"] string_of_nat_digits [of "nat (- n)"]
    by (auto simp: string_of_int_def list_all_iff)
  then show ?thesis
    by (simp add: ssl_schema_def ssl_single_def leaf_nodes_def ssl_base_def ssl_policyBase_def ssl_filter_base_def is_digit_def)
qed

definition ssl_with_rule :: ssl_config where
  "ssl_with_rule = emptySslInspectionConfig\<lparr>ssl_enabled := True, ssl_policies :=
     [\<lparr>sp_rule = 20, sp_ruleset = ''forward'', sp_action = SslInspect, sp_enabled = True\<rparr>]\<rparr>"


end
