(* ===== verification/Rule_Services.thy ===== *)
theory Rule_Services
  imports Rule_Cascade Ssl_Inspection
begin

text \<open>
  The services that the rule editor attaches to a firewall rule: \<open>lib/rule-services.ts\<close>. One save
  changes the rule, its TLS inspection binding and its geolocation policies in one guarded commit,
  and its application-control binding in a document of its own. Everything refers to the rule by its
  number.
\<close>

section \<open>The services of a rule\<close>

definition MAX_BOUND_AC_ACTIONS :: nat where
  "MAX_BOUND_AC_ACTIONS = 7"

datatype ssl_choice = SslOff | SslOn ssl_action

record rule_service_state =
  rsv_ssl :: ssl_choice
  rsv_geo :: "(string \<times> geo_direction) option"
  rsv_appcontrol :: "string option"

definition emptyRuleServiceState :: rule_service_state where
  "emptyRuleServiceState = \<lparr>rsv_ssl = SslOff, rsv_geo = None, rsv_appcontrol = None\<rparr>"

record rule_service_configs =
  rsc_ssl :: ssl_config
  rsc_geo :: geolocation_config
  rsc_ac :: ac_config

definition serviceStateForRule :: "int \<Rightarrow> rule_chain list \<Rightarrow> rule_service_configs \<Rightarrow> rule_service_state" where
  "serviceStateForRule rule scopes cfgs =
     \<lparr>rsv_ssl = (case List.find (\<lambda>p. sp_rule p = rule) (ssl_policies (rsc_ssl cfgs)) of
          Some p \<Rightarrow> if sp_enabled p then SslOn (sp_action p) else SslOff | None \<Rightarrow> SslOff),
      rsv_geo = map_option (\<lambda>p. (gp_action p, gp_direction p))
        (List.find (\<lambda>p. gp_rule p = rule \<and> gp_ruleset p \<in> set scopes) (geo_policies (rsc_geo cfgs))),
      rsv_appcontrol = map_option ab_action (List.find (\<lambda>b. ab_id b = rule) (ac_bindings (rsc_ac cfgs)))\<rparr>"

section \<open>The match of an application-control binding\<close>

definition ac_quad :: "string \<Rightarrow> bool" where
  "ac_quad s \<longleftrightarrow> (let os = split_on (CHR ''.'') s in length os = 4 \<and> list_all (digits_upto 3) os)"

definition AC_ADDR :: "string \<Rightarrow> bool" where
  "AC_ADDR s \<longleftrightarrow> (case split_on (CHR ''/'') s of
       [a] \<Rightarrow> ac_quad a
     | [a, p] \<Rightarrow> ac_quad a \<and> digits_upto 2 p
     | _ \<Rightarrow> False)"

text \<open>Why a side of a rule is refused.\<close>

datatype ac_reject =
    MissingZone string
  | FirewallItself
  | MissingAlias string
  | FqdnAlias string
  | AliasWithoutMembers string
  | InlineDomain string
  | UnresolvedIfgroup string
  | NotAnAddress string
  | LongInterfaceName string

fun entry_match ::
  "firewall_alias list \<Rightarrow> firewall_zone list \<Rightarrow> endpoint_entry \<Rightarrow> ac_reject + string list \<times> string list" where
  "entry_match aliases zones (EInterface n) = Inr ([n], [])"
| "entry_match aliases zones (EZone n) = (case List.find (\<lambda>z. zn_name z = n) zones of
     None \<Rightarrow> Inl (MissingZone n)
   | Some z \<Rightarrow> if zn_local z then Inl FirewallItself else Inr (zn_interfaces z, []))"
| "entry_match aliases zones (EAlias t n) = (case List.find (\<lambda>a. al_type a = t \<and> al_name a = n) aliases of
     None \<Rightarrow> Inl (MissingAlias n)
   | Some a \<Rightarrow>
       if t = Fqdn then Inl (FqdnAlias n)
       else if al_members a = [] then Inl (AliasWithoutMembers n)
       else if t = Iface then Inr (al_members a, []) else Inr ([], al_members a))"
| "entry_match aliases zones (EInline t v) = (if t = Fqdn then Inl (InlineDomain v) else Inr ([], [v]))"
| "entry_match aliases zones (EAddress a) = Inr ([], [a])"
| "entry_match aliases zones (EIfgroup n) = Inl (UnresolvedIfgroup n)"
| "entry_match aliases zones EFirewall = Inl FirewallItself"

definition sideMatch ::
  "endpoint_selection \<Rightarrow> firewall_alias list \<Rightarrow> firewall_zone list \<Rightarrow> ac_reject + string list \<times> string list" where
  "sideMatch sel aliases zones =
     (case map_res (entry_match aliases zones) sel of
        Inl e \<Rightarrow> Inl e
      | Inr parts \<Rightarrow>
         (let ifaces = concat (map fst parts); addrs = concat (map snd parts) in
          case List.find (\<lambda>a. \<not> AC_ADDR a) addrs of Some a \<Rightarrow> Inl (NotAnAddress a) | None \<Rightarrow>
          (case List.find (\<lambda>i. 15 < length i) ifaces of Some i \<Rightarrow> Inl (LongInterfaceName i) | None \<Rightarrow>
           Inr (uniq ifaces, uniq addrs))))"

definition some_list :: "string list \<Rightarrow> string list option" where
  "some_list xs = (if xs = [] then None else Some xs)"

definition empty_match :: ac_match where
  "empty_match = \<lparr>mt_iifname = None, mt_oifname = None, mt_saddr = None, mt_daddr = None, mt_l4 = None\<rparr>"

definition acMatchFromSelections ::
  "endpoint_selection \<Rightarrow> endpoint_selection \<Rightarrow> firewall_alias list \<Rightarrow> firewall_zone list \<Rightarrow>
   (rule_side \<times> ac_reject) + ac_match" where
  "acMatchFromSelections from_sel to_sel aliases zones =
     (case sideMatch from_sel aliases zones of Inl e \<Rightarrow> Inl (FromSide, e) | Inr (fi, fa) \<Rightarrow>
      (case sideMatch to_sel aliases zones of Inl e \<Rightarrow> Inl (ToSide, e) | Inr (ti, ta) \<Rightarrow>
       Inr (empty_match\<lparr>mt_iifname := some_list fi, mt_oifname := some_list ti,
         mt_saddr := some_list fa, mt_daddr := some_list ta\<rparr>)))"

section \<open>The commands of the services\<close>

definition ssl_next_policies :: "ssl_policy list \<Rightarrow> int list \<Rightarrow> (int \<times> ssl_action) option \<Rightarrow> ssl_policy list" where
  "ssl_next_policies live removeRules add =
     (let drop = removeRules @ (case add of None \<Rightarrow> [] | Some (rule, a) \<Rightarrow> [rule]);
          policies = filter (\<lambda>p. sp_rule p \<notin> set drop) live
      in sort_by (\<lambda>a b. sp_rule a - sp_rule b)
        (policies @ (case add of None \<Rightarrow> []
           | Some (rule, a) \<Rightarrow> [\<lparr>sp_rule = rule, sp_ruleset = ''forward'', sp_action = a, sp_enabled = True\<rparr>])))"

definition sslCommands :: "ssl_config \<Rightarrow> int list \<Rightarrow> (int \<times> ssl_action) option \<Rightarrow> vyos_command list" where
  "sslCommands live removeRules add =
     diffSslInspection live (live\<lparr>ssl_policies := ssl_next_policies (ssl_policies live) removeRules add\<rparr>)"

definition geoCommands ::
  "geolocation_config \<Rightarrow> int list \<Rightarrow> int \<Rightarrow> rule_chain list \<Rightarrow> (string \<times> geo_direction) option \<Rightarrow> vyos_command list" where
  "geoCommands live removeRules rule scopes add =
     map (\<lambda>p. cdel (geo_policyBase (gp_id p)))
       (filter (\<lambda>p. gp_rule p \<in> set (filter (\<lambda>n. n \<noteq> rule) removeRules)) (geo_policies live)) @
     diffGeoPoliciesForRule (geo_policies live) \<lparr>rs_rule = rule, rs_chains = scopes\<rparr>
       (map_option fst add) (case add of None \<Rightarrow> GeoBoth | Some (a, d) \<Rightarrow> d)"

datatype ceiling_error = TooManyActions

text \<open>
  The next document and whether it differs from the live one. The source compares the documents as
  JSON text; the fields of a binding come back in the order in which they are written.
\<close>

definition nextAcConfig ::
  "ac_config \<Rightarrow> int list \<Rightarrow> int \<Rightarrow> string \<Rightarrow> ac_match \<Rightarrow> string option \<Rightarrow> ceiling_error + ac_config \<times> bool" where
  "nextAcConfig live removeRules rule descr m action =
     (let others = filter (\<lambda>b. ab_id b \<notin> set removeRules \<and> ab_id b \<noteq> rule) (ac_bindings live) in
      case (case action of None \<Rightarrow> False | Some a \<Rightarrow> a \<noteq> []) of
        True \<Rightarrow>
          if MAX_BOUND_AC_ACTIONS < length (uniq (map ab_action others @ [the action])) then Inl TooManyActions
          else (let bindings = sort_by (\<lambda>a b. ab_id a - ab_id b)
              (others @ [\<lparr>ab_id = rule, ab_action = the action, ab_description = descr, ab_match = m\<rparr>])
            in Inr (live\<lparr>ac_bindings := bindings\<rparr>, sort_by (\<lambda>a b. ab_id a - ab_id b) (ac_bindings live) \<noteq> bindings))
      | False \<Rightarrow>
          (let bindings = sort_by (\<lambda>a b. ab_id a - ab_id b) others
           in Inr (live\<lparr>ac_bindings := bindings\<rparr>, sort_by (\<lambda>a b. ab_id a - ab_id b) (ac_bindings live) \<noteq> bindings)))"

section \<open>Saving a rule with its services\<close>

definition effectiveChain :: "(string \<Rightarrow> string \<Rightarrow> int) \<Rightarrow> rule_update \<Rightarrow> firewall_config \<Rightarrow> rule_chain" where
  "effectiveChain lc u cfg =
     (case ruleChainFor lc (ru_from u) (ru_to u) (fc_zones cfg) of Inl e \<Rightarrow> ''forward'' | Inr c \<Rightarrow> c)"

definition service_number ::
  "(string \<Rightarrow> string \<Rightarrow> int) \<Rightarrow> firewall_rule option \<Rightarrow> rule_update \<Rightarrow> firewall_config \<Rightarrow> int" where
  "service_number lc live u cfg =
     (if (case live of None \<Rightarrow> False | Some r \<Rightarrow> fr_chain r \<noteq> effectiveChain lc u cfg)
      then nextRuleNumber (fc_rules cfg) else ru_rule u)"

definition vacated :: "firewall_rule option \<Rightarrow> int \<Rightarrow> int list" where
  "vacated live rule = (case live of None \<Rightarrow> [] | Some r \<Rightarrow> if fr_rule r \<noteq> rule then [fr_rule r] else [])"

datatype service_error =
    ServiceRule rule_error
  | ServiceMatch rule_side ac_reject
  | ServiceCeiling

text \<open>What a save sends: the commands of the commit and, when it changes, the document.\<close>

definition rule_and_services ::
  "(string \<Rightarrow> string \<Rightarrow> int) \<Rightarrow> firewall_rule option \<Rightarrow> rule_update \<Rightarrow> firewall_config \<Rightarrow> rule_service_configs \<Rightarrow>
   rule_service_state \<Rightarrow> service_error + vyos_command list \<times> ac_config option" where
  "rule_and_services lc live u cfg cfgs desired =
     (let chain = effectiveChain lc u cfg;
          rule = service_number lc live u cfg;
          removeRules = vacated live rule;
          sslAdd = (case rsv_ssl desired of SslOff \<Rightarrow> None | SslOn a \<Rightarrow> if chain = ''forward'' then Some (rule, a) else None)
      in case ruleChainsFor lc (ru_from u) (ru_to u) (fc_zones cfg) of Inl e \<Rightarrow> Inl (ServiceRule e) | Inr scopes \<Rightarrow>
      (let acAction = (if chain = ''forward'' \<or> \<not> isBaseChain chain then rsv_appcontrol desired else None) in
       case (if (case acAction of None \<Rightarrow> False | Some a \<Rightarrow> a \<noteq> [])
             then acMatchFromSelections (ru_from u) (ru_to u) (fc_aliases cfg) (fc_zones cfg) else Inr empty_match) of
         Inl (s, e) \<Rightarrow> Inl (ServiceMatch s e)
       | Inr m \<Rightarrow>
         (case nextAcConfig (rsc_ac cfgs) removeRules rule
             (case ru_name u of None \<Rightarrow> ''rule '' @ string_of_int rule | Some n \<Rightarrow> n) m acAction of
            Inl _ \<Rightarrow> Inl ServiceCeiling
          | Inr (doc, changed) \<Rightarrow>
            (case diffRule lc live u cfg of Inl e \<Rightarrow> Inl (ServiceRule e)
             | Inr cs \<Rightarrow> Inr (cs @ sslCommands (rsc_ssl cfgs) (rule # removeRules) sslAdd @
                 geoCommands (rsc_geo cfgs) removeRules rule scopes (rsv_geo desired),
                 if changed then Some doc else None)))))"

text \<open>
  The whole call: \<open>landed\<close> tells whether the guarded commit goes through, \<open>saved\<close> whether the
  document is written. The result is the count of changes, or nothing when the call throws.
\<close>

definition applyRuleAndServices ::
  "(string \<Rightarrow> string \<Rightarrow> int) \<Rightarrow> firewall_rule option \<Rightarrow> rule_update \<Rightarrow> firewall_config \<Rightarrow> rule_service_configs \<Rightarrow>
   rule_service_state \<Rightarrow> bool \<Rightarrow> bool \<Rightarrow> vyos_command list \<times> ac_config option \<times> nat option" where
  "applyRuleAndServices lc live u cfg cfgs desired landed saved =
     (case rule_and_services lc live u cfg cfgs desired of
        Inl _ \<Rightarrow> ([], None, None)
      | Inr (cmds, doc) \<Rightarrow>
          if cmds \<noteq> [] \<and> \<not> landed then (cmds, None, None)
          else (case doc of None \<Rightarrow> (cmds, None, Some (length cmds))
            | Some d \<Rightarrow> (cmds, Some d, if saved then Some (length cmds + 1) else None)))"

section \<open>Every feature writes in a subtree of its own\<close>

abbreviation fw :: path where "fw \<equiv> [''firewall'']"

lemma inside_mono: "inside b cs \<Longrightarrow> prefix a b \<Longrightarrow> inside a cs"
  by (auto simp: inside_def intro: prefix_order.trans)

lemma inside_concat [simp]: "inside b (concat (map f xs)) \<longleftrightarrow> (\<forall>x\<in>set xs. inside b (f x))"
  by (auto simp: inside_def)

lemma inside_map [simp]: "inside b (map f xs) \<longleftrightarrow> (\<forall>x\<in>set xs. inside b [f x])"
  by (auto simp: inside_def)

lemma inside_Cons: "inside b (c # cs) \<longleftrightarrow> inside b [c] \<and> inside b cs"
  by (auto simp: inside_def)

lemma fw_filterBase: "prefix fw (filterBase c)"
  by (auto simp: filterBase_def split: option.splits)

lemma fw_ruleBase: "prefix fw (ruleBase c n)"
  using fw_filterBase [of c] by (simp add: ruleBase_def)

lemma inside_fw_ruleBase: "inside (ruleBase c n) cs \<Longrightarrow> inside fw cs"
  using inside_mono [OF _ fw_ruleBase] by blast

lemma inside_fw_del: "inside fw [cdel (ruleBase c n)]" "inside fw [cdel (filterBase c @ p)]"
  using fw_filterBase [of c] by (cases p rule: rev_cases;
      auto simp: inside_def ruleBase_def butlast_append filterBase_def split: option.splits)+

lemma inside_fw_cleanup: "inside fw (emptyPairCleanup cfg c vs)"
  by (auto simp: emptyPairCleanup_def inside_def split: option.splits)

lemma inside_fw_drop: "inside fw (drop_scopes cfg cs n)"
  unfolding drop_scopes_def by (subst inside_concat, subst inside_Cons) (simp add: inside_fw_del inside_fw_cleanup)

lemma inside_fw_group: "inside [''firewall'', ''group''] cs \<Longrightarrow> inside fw cs"
  by (erule inside_mono) simp

lemma inside_fw_move: "inside fw (move_cmds cfg liveIn pairs chs)"
  using inside_fw_group [OF inside_auto_deletes]
  by (auto simp: move_cmds_def inside_fw_drop split: option.splits)

lemma inside_fw_forward: "inside fw (ensureForwardBaseline cfg)"
  using inside_fw_ruleBase [OF inside_ips_flow] inside_fw_ruleBase [OF inside_established]
  by (auto simp: ensureForwardBaseline_def Let_def ruleBase_sys)

lemma inside_fw_ips: "inside fw (ensureIpsFlowBaseline out cfg)"
proof -
  have f: "inside fw (ipsFlowRuleCommands (filterBase c))" for c by (rule inside_fw_ruleBase [OF inside_ips_flow])
  have e: "inside fw (established_cmds (ruleBase c n))" for c n by (rule inside_fw_ruleBase [OF inside_established])
  show ?thesis
    using inside_fw_forward [of cfg]
    by (auto simp: ensureIpsFlowBaseline_def Let_def ruleBase_sys f e inside_fw_del inside_Cons [where cs = "x @ y" for x y])
qed

lemma inside_fw_setup: "inside fw (scope_setup cfg pairs chain)"
proof -
  have b: "prefix fw (butlast (filterBase c @ x # p))" for c x p
    using fw_filterBase [of c] by (simp add: butlast_append)
  have e: "inside fw (established_cmds (filterBase c @ p))" for c p
    using fw_filterBase [of c] by (simp add: established_cmds_def inside_def butlast_append)
  have "inside fw (ensureChainSetup c cfg)" for c
    by (auto simp: ensureChainSetup_def Let_def inside_Cons [where cs = "x # y" for x y] e)
      (auto simp: inside_def b)
  moreover have "inside fw (ensureStatePolicy cfg)"
    by (simp add: ensureStatePolicy_def inside_def state_policy_base_def)
  moreover have "inside fw (ensureZonePair cfg p)" for p
    by (simp add: ensureZonePair_def inside_def)
  ultimately show ?thesis by (simp add: scope_setup_def split: option.splits)
qed

lemma inside_fw_writes:
  "inside fw (action_writes chs n bl u)" "inside fw (name_writes chs n bl u)"
  "inside fw (endpoint_writes chs n bl fd td)" "inside fw (policy_writes chs n bl u)"
  "inside fw (switch_writes chs n bl u)"
proof -
  have "inside fw (each_chain chs f)" if "\<And>c. inside (ruleBase c n) (f c)" for f
    using inside_fw_ruleBase [OF that] by (simp add: each_chain_def)
  note each = this
  show "inside fw (action_writes chs n bl u)" "inside fw (name_writes chs n bl u)"
    "inside fw (endpoint_writes chs n bl fd td)" "inside fw (policy_writes chs n bl u)"
    "inside fw (switch_writes chs n bl u)"
    unfolding action_writes_def name_writes_def endpoint_writes_def policy_writes_def switch_writes_def
    by (auto intro!: each simp: inside_leaf inside_flag inside_ips inside_policy_ref inside_endpointWrites)
qed

lemma diffRule_ok:
  assumes "diffRule lc liveIn u cfg = Inr cs"
  shows "\<exists>pairs chs. zonePairsFor (ru_from u) (ru_to u) (fc_zones cfg) = Inr pairs \<and>
    ruleChainsFor lc (ru_from u) (ru_to u) (fc_zones cfg) = Inr chs"
  using assms by (simp add: diffRule_def split: sum.splits)

lemma inside_diffRule:
  assumes "diffRule lc liveIn u cfg = Inr cs"
  shows "inside fw cs"
proof -
  obtain pairs chs where p: "zonePairsFor (ru_from u) (ru_to u) (fc_zones cfg) = Inr pairs"
    and c: "ruleChainsFor lc (ru_from u) (ru_to u) (fc_zones cfg) = Inr chs"
    using diffRule_ok [OF assms] by blast
  let ?n = "rule_target cfg liveIn u pairs chs" and ?l = "kept_live liveIn pairs chs"
  obtain fc taken fd tc taken' td base1 base2 where
    pf: "planEndpoint ?n Source (map_option fr_from ?l) (ru_from u) (fc_auto_groups cfg)
      (fc_group_names cfg) = Inr (fc, taken, fd)"
    and pt: "planEndpoint ?n Destination (map_option fr_to ?l) (ru_to u) (fc_auto_groups cfg) taken
      = Inr (tc, taken', td)"
    and base: "rule_baselines cfg base1 base2"
    and cs: "cs = move_cmds cfg liveIn pairs chs @
      drop_scopes cfg (filter (\<lambda>c. c \<notin> set chs) (live_chains ?l)) ?n @
      rule_tail cfg pairs chs ?n ?l u base1 (fc @ tc) fd td base2"
    by (rule diffRule_parts [OF assms p c refl refl])
  have "inside fw base1" "inside fw base2"
    using base inside_fw_ips inside_fw_forward by (auto simp: rule_baselines_def)
  then show ?thesis
    using inside_fw_group [OF inside_planEndpoint [OF pf]] inside_fw_group [OF inside_planEndpoint [OF pt]]
      inside_fw_group [OF inside_seed]
    by (simp add: cs rule_tail_def inside_fw_move inside_fw_drop inside_fw_setup inside_fw_writes)
qed

text \<open>What commands inside a subtree do depends on that subtree only, and they change nothing outside.\<close>

lemma step_local:
  assumes dev: "device_laws dev single" and "prefix b (butlast (cmd_path c))" and "S \<inter> cone b = S' \<inter> cone b"
  shows "dev c S \<inter> cone b = dev c S' \<inter> cone b \<and> dev c S - cone b = S - cone b"
proof (cases c)
  case (Command op p)
  have p: "cone (butlast p) \<subseteq> cone b" "cone p \<subseteq> cone b" "p \<in> cone b"
    using assms(2) Command cone_mono [of b "butlast p"] cone_mono [of b p]
      prefix_order.trans [OF _ prefixeq_butlast, of b p] by auto
  show ?thesis
  proof (cases op)
    case OpSet
    have "(insert p (S - D)) \<inter> cone b = (insert p (S' - D)) \<inter> cone b" "insert p (S - D) - cone b = S - cone b"
      if "D \<subseteq> cone b" for D
      using assms(3) p(3) that by blast+
    from this [OF p(1)] this [of "{}"] show ?thesis
      by (cases "single (butlast p)") (simp_all add: Command OpSet dev_set_single [OF dev] dev_set_multi [OF dev])
  next
    case OpDelete
    have "(S - cone p) \<inter> cone b = (S' - cone p) \<inter> cone b" "S - cone p - cone b = S - cone b"
      using assms(3) p(2) by blast+
    then show ?thesis by (simp add: Command OpDelete dev_delete [OF dev])
  qed
qed

lemma run_local:
  assumes dev: "device_laws dev single" and "inside b cs" and "S \<inter> cone b = S' \<inter> cone b"
  shows "run dev cs S \<inter> cone b = run dev cs S' \<inter> cone b \<and> run dev cs S - cone b = S - cone b"
  using assms(2,3)
proof (induction cs arbitrary: S S')
  case (Cons c cs)
  have "prefix b (butlast (cmd_path c))" "inside b cs" using Cons.prems(1) by (simp_all add: inside_def)
  from step_local [OF dev this(1) Cons.prems(2)] Cons.IH [OF this(2), of "dev c S" "dev c S'"]
  show ?case by simp
qed simp

definition geo_base :: path where
  "geo_base = [''service'', ''geolocation'']"

lemma inside_geoCommands: "inside geo_base (geoCommands live rs n scopes add)"
proof -
  have b: "prefix geo_base (butlast (geo_policyBase k))" "prefix geo_base (butlast (geo_policyBase k @ x # p))" for k x p
    by (simp_all add: geo_base_def geo_policyBase_def butlast_append)
  have body: "inside geo_base (geo_policy_body l u)" for l u
  proof -
    have "inside (geo_policyBase (gpu_id u)) (geo_policy_body l u)"
      by (simp add: geo_policy_body_def Let_def inside_leaf inside_flag)
    then show ?thesis by (rule inside_mono) (simp add: geo_base_def geo_policyBase_def)
  qed
  have diff: "inside geo_base (diffGeoPolicy l u)" for l u
    using body by (auto simp: diffGeoPolicy_def inside_def b)
  show ?thesis
    unfolding geoCommands_def diffGeoPoliciesForRule_def Let_def
    by (simp add: diff split: option.split) (simp add: inside_def b)
qed

lemma inside_sslDiff: "inside ssl_base (diffSslInspection l d)"
proof -
  have b: "prefix ssl_base (ssl_policyBase n)" "prefix ssl_base (butlast (ssl_policyBase n))" "prefix ssl_base ssl_filter_base" for n
    by (simp_all add: ssl_policyBase_def ssl_filter_base_def butlast_append)
  have pol: "inside ssl_base (ssl_policy_cmds prev p)" for prev p
    by (rule inside_mono [of "ssl_policyBase (sp_rule p)"])
      (simp_all add: ssl_policy_cmds_def Let_def inside_leaf inside_flag b)
  have "inside ssl_base (content_filter_cmds a c)" for a c
  proof (cases c)
    case None
    then show ?thesis by (simp add: content_filter_cmds_def inside_def ssl_filter_base_def butlast_append)
  next
    case (Some f)
    then show ?thesis
      by (intro inside_mono [OF _ b(3)]) (simp_all add: content_filter_cmds_def inside_leaf b)
  qed
  moreover have "inside ssl_base (policyDiff a c)" for a c
    by (simp add: policyDiff_def pol) (simp add: inside_def b)
  ultimately show ?thesis
    by (simp add: diffSslInspection_def inside_leaf inside_flag multiDiff_def inside_list)
qed

lemma ssl_reads_local:
  assumes "S \<inter> cone ssl_base = S' \<inter> cone ssl_base"
  shows "ssl_reads S c \<longleftrightarrow> ssl_reads S' c"
proof -
  have "S \<inter> cone (ssl_base @ p) = S' \<inter> cone (ssl_base @ p)" for p
    using assms cone_append_subset [of ssl_base p] by blast
  then show ?thesis by (simp add: ssl_reads_def ssl_filter_base_def)
qed

lemma ssl_next_policies_set:
  "p \<in> set (ssl_next_policies live rs add) \<longleftrightarrow>
     (p \<in> set live \<and> sp_rule p \<notin> set rs \<and> (\<forall>n a. add = Some (n, a) \<longrightarrow> sp_rule p \<noteq> n)) \<or>
     (\<exists>n a. add = Some (n, a) \<and> p = \<lparr>sp_rule = n, sp_ruleset = ''forward'', sp_action = a, sp_enabled = True\<rparr>)"
  by (auto simp: ssl_next_policies_def Let_def split: option.splits)

lemma ssl_next_policies_distinct:
  assumes "distinct (map sp_rule live)"
  shows "distinct (map sp_rule (ssl_next_policies live rs add))"
proof -
  let ?drop = "rs @ (case add of None \<Rightarrow> [] | Some (n, a) \<Rightarrow> [n])"
  let ?ps = "filter (\<lambda>p. sp_rule p \<notin> set ?drop) live @
    (case add of None \<Rightarrow> [] | Some (n, a) \<Rightarrow> [\<lparr>sp_rule = n, sp_ruleset = ''forward'', sp_action = a, sp_enabled = True\<rparr>])"
  have "distinct (map sp_rule ?ps)" using assms by (auto simp: distinct_map_filter split: option.splits)
  moreover have "mset (map sp_rule (ssl_next_policies live rs add)) = mset (map sp_rule ?ps)"
    unfolding ssl_next_policies_def Let_def mset_map mset_sort_by by (rule refl)
  ultimately show ?thesis using mset_eq_imp_distinct_iff by blast
qed

lemma service_plan:
  assumes "rule_and_services lc live u cfg cfgs desired = Inr (cmds, doc)"
  defines "n \<equiv> service_number lc live u cfg"
  defines "add \<equiv> (case rsv_ssl desired of SslOff \<Rightarrow> None
    | SslOn a \<Rightarrow> if effectiveChain lc u cfg = ''forward'' then Some (n, a) else None)"
  shows "\<exists>cs scopes. diffRule lc live u cfg = Inr cs \<and>
    ruleChainsFor lc (ru_from u) (ru_to u) (fc_zones cfg) = Inr scopes \<and>
    cmds = cs @ sslCommands (rsc_ssl cfgs) (n # vacated live n) add @
      geoCommands (rsc_geo cfgs) (vacated live n) n scopes (rsv_geo desired)"
  using assms(1) unfolding n_def add_def rule_and_services_def Let_def
  by (simp split: sum.splits prod.splits)


definition ssl_for_rule :: ssl_config where
  "ssl_for_rule = emptySslInspectionConfig\<lparr>ssl_policies :=
     [\<lparr>sp_rule = 30, sp_ruleset = ''forward'', sp_action = SslSplice, sp_enabled = True\<rparr>]\<rparr>"

definition no_services :: rule_service_configs where
  "no_services = \<lparr>rsc_ssl = ssl_for_rule, rsc_geo = emptyGeolocationConfig, rsc_ac = emptyAcConfig\<rparr>"

definition ssl_only :: rule_service_state where
  "ssl_only = emptyRuleServiceState\<lparr>rsv_ssl := SslOn SslInspect\<rparr>"


section \<open>The number the services are bound at\<close>

lemma effectiveChain_hd:
  assumes "ruleChainsFor lc (ru_from u) (ru_to u) (fc_zones cfg) = Inr chs"
  shows "effectiveChain lc u cfg = hd chs"
  by (simp add: effectiveChain_def ruleChainFor_def assms)

text \<open>
  The services have to be bound at the number that the rule is written at. The two numbers, which
  are computed separately, agree exactly when the first scope of the rule stays the same, or the
  rule comes from a base chain or goes to one. When a zone rule is given other zones so that its first
  scope changes, \<open>diffRule\<close> keeps its number, and the services are bound at a fresh number that no
  rule has.
\<close>

theorem service_number_agrees:
  assumes pairs: "zonePairsFor (ru_from u) (ru_to u) (fc_zones cfg) = Inr pairs"
    and chs: "ruleChainsFor lc (ru_from u) (ru_to u) (fc_zones cfg) = Inr chs"
    and r: "r \<in> set (fc_rules cfg)" "ru_rule u = fr_rule r"
  shows "service_number lc (Some r) u cfg = rule_target cfg (Some r) u pairs chs \<longleftrightarrow>
    fr_chain r = hd chs \<or> isBaseChain (fr_chain r) \<or> pairs = []"
proof -
  have kind: "isBaseChain (hd chs) \<longleftrightarrow> pairs = []"
  proof (cases "pairs = []")
    case True
    then show ?thesis using ruleChainsFor_kind(2) [OF pairs chs] by (auto simp: isBaseChain_iff)
  next
    case False
    then show ?thesis using ruleChainsFor_kind(1) [OF pairs chs] by auto
  qed
  have "fr_rule r \<le> foldl (\<lambda>m r. max m (fr_rule r)) 0 (fc_rules cfg)"
    using foldl_max_ge [of 0 "fc_rules cfg"] r(1) by blast
  then have fresh: "nextRuleNumber (fc_rules cfg) \<noteq> fr_rule r" by (simp add: nextRuleNumber_def)
  show ?thesis
    using kind fresh r(2)
    by (auto simp: service_number_def effectiveChain_hd [OF chs] rule_target_def rule_moves_def Let_def)
qed

definition lan_to_wan :: rule_update where
  "lan_to_wan = web_rule_update\<lparr>ru_from := [EZone ''LAN''], ru_to := [EZone ''WAN'']\<rparr>"

definition from_wan :: firewall_rule where
  "from_wan = base_rule (zoneRuleChain (pairRuleset ''WAN'' ''LAN'')) 10"

lemma service_number_agrees_witness:
  "let cfg = emptyFirewallConfig\<lparr>fc_zones := [lan_zone, wan_zone], fc_rules := [from_wan]\<rparr> in
   \<exists>pairs chs. zonePairsFor (ru_from lan_to_wan) (ru_to lan_to_wan) (fc_zones cfg) = Inr pairs \<and>
     service_number (\<lambda>_ _. 0) (Some from_wan) lan_to_wan cfg \<noteq> rule_target cfg (Some from_wan) lan_to_wan pairs chs"
proof -
  let ?cfg = "emptyFirewallConfig\<lparr>fc_zones := [lan_zone, wan_zone], fc_rules := [from_wan]\<rparr>"
  let ?pair = "\<lparr>zp_src = ''LAN'', zp_dst = ''WAN'', zp_ruleset = pairRuleset ''LAN'' ''WAN''\<rparr>"
  have pairs: "zonePairsFor (ru_from lan_to_wan) (ru_to lan_to_wan) (fc_zones ?cfg) = Inr [?pair]"
    by (simp add: zonePairsFor_def sideZones_def uniq_def lan_to_wan_def)
  have chs: "ruleChainsFor (\<lambda>_ _. 0) (ru_from lan_to_wan) (ru_to lan_to_wan) (fc_zones ?cfg) =
      Inr [zoneRuleChain (pairRuleset ''LAN'' ''WAN'')]"
    using pairs by (simp add: ruleChainsFor_def) (simp add: lan_to_wan_def sort_by_Cons)
  have r: "from_wan \<in> set (fc_rules ?cfg)" "ru_rule lan_to_wan = fr_rule from_wan"
    by (simp_all add: from_wan_def base_rule_def lan_to_wan_def web_rule_update_def)
  have "fr_chain from_wan = ''name:QZ-Z-WAN-TO-LAN''" by (simp add: from_wan_def base_rule_def zoneRuleChain_def pairRuleset_def)
  then show ?thesis
    using service_number_agrees [OF pairs chs r] pairs
    by (simp add: isBaseChain_def zoneRuleChain_def pairRuleset_def Let_def) blast
qed

section \<open>The match fails closed\<close>

lemma parts_union:
  assumes "list_all2 (\<lambda>x p. F x = Inr p) xs parts"
  shows "(\<Union>x\<in>set xs. case F x of Inr (a, _) \<Rightarrow> set a | _ \<Rightarrow> {}) = (\<Union>p\<in>set parts. set (fst p))"
    and "(\<Union>x\<in>set xs. case F x of Inr (_, b) \<Rightarrow> set b | _ \<Rightarrow> {}) = (\<Union>p\<in>set parts. set (snd p))"
  using assms by (induction rule: list_all2_induct) (simp_all add: split_beta)

lemma sideMatch_result:
  assumes "sideMatch sel aliases zones = Inr (is, as)"
  shows "\<forall>e\<in>set sel. \<exists>ei ea. entry_match aliases zones e = Inr (ei, ea) \<and> set ei \<subseteq> set is \<and> set ea \<subseteq> set as"
    and "\<forall>i\<in>set is. length i \<le> 15" and "\<forall>a\<in>set as. AC_ADDR a"
    and "set is = (\<Union>e\<in>set sel. case entry_match aliases zones e of Inr (ei, _) \<Rightarrow> set ei | _ \<Rightarrow> {})"
    and "set as = (\<Union>e\<in>set sel. case entry_match aliases zones e of Inr (_, ea) \<Rightarrow> set ea | _ \<Rightarrow> {})"
proof -
  obtain parts where parts: "map_res (entry_match aliases zones) sel = Inr parts"
    using assms by (cases "map_res (entry_match aliases zones) sel") (simp_all add: sideMatch_def)
  have addrs: "List.find (\<lambda>a. \<not> AC_ADDR a) (concat (map snd parts)) = None"
    and ifs: "List.find (\<lambda>i. 15 < length i) (concat (map fst parts)) = None"
    and res: "is = uniq (concat (map fst parts))" "as = uniq (concat (map snd parts))"
    using assms by (auto simp: sideMatch_def parts Let_def split: option.splits)
  have each: "list_all2 (\<lambda>e p. entry_match aliases zones e = Inr p) sel parts" by (rule map_res_Inr [OF parts])
  have fwd: "\<exists>p\<in>set parts. entry_match aliases zones e = Inr p" if "e \<in> set sel" for e
    using each that by (auto simp: list_all2_conv_all_nth in_set_conv_nth)
  have bwd: "\<exists>e\<in>set sel. entry_match aliases zones e = Inr p" if "p \<in> set parts" for p
    using each that by (auto simp: list_all2_conv_all_nth in_set_conv_nth Bex_def)
  show "\<forall>e\<in>set sel. \<exists>ei ea. entry_match aliases zones e = Inr (ei, ea) \<and> set ei \<subseteq> set is \<and> set ea \<subseteq> set as"
  proof
    fix e assume "e \<in> set sel"
    then obtain p where "p \<in> set parts" "entry_match aliases zones e = Inr p" using fwd by blast
    then show "\<exists>ei ea. entry_match aliases zones e = Inr (ei, ea) \<and> set ei \<subseteq> set is \<and> set ea \<subseteq> set as"
      by (intro exI [of _ "fst p"] exI [of _ "snd p"]) (auto simp: res)
  qed
  show "\<forall>i\<in>set is. length i \<le> 15" using ifs by (simp add: res find_None_iff not_less) blast
  show "\<forall>a\<in>set as. AC_ADDR a" using addrs by (simp add: res find_None_iff) blast
  show "set is = (\<Union>e\<in>set sel. case entry_match aliases zones e of Inr (ei, _) \<Rightarrow> set ei | _ \<Rightarrow> {})"
    using parts_union(1) [OF each] by (simp add: res)
  show "set as = (\<Union>e\<in>set sel. case entry_match aliases zones e of Inr (_, ea) \<Rightarrow> set ea | _ \<Rightarrow> {})"
    using parts_union(2) [OF each] by (simp add: res)
qed

definition listed :: "string list option \<Rightarrow> string list" where
  "listed v = (case v of None \<Rightarrow> [] | Some xs \<Rightarrow> xs)"

lemma listed_some_list [simp]: "listed (some_list xs) = xs"
  by (simp add: listed_def some_list_def)

lemma entry_match_nothing:
  assumes "entry_match aliases zones e = Inr ([], [])"
  shows "\<exists>n z. e = EZone n \<and> List.find (\<lambda>z. zn_name z = n) zones = Some z \<and> zn_interfaces z = []"
  using assms by (cases e) (auto split: option.splits if_splits)

text \<open>What one side of a rule says and what the binding matches, under the names of that side.\<close>

definition side_matches ::
  "firewall_alias list \<Rightarrow> firewall_zone list \<Rightarrow> endpoint_selection \<Rightarrow> string list option \<Rightarrow> string list option \<Rightarrow> bool" where
  "side_matches aliases zones sel i a \<longleftrightarrow>
     (\<forall>e\<in>set sel. \<exists>ei ea. entry_match aliases zones e = Inr (ei, ea)) \<and>
     set (listed i) = (\<Union>e\<in>set sel. case entry_match aliases zones e of Inr (ei, _) \<Rightarrow> set ei | _ \<Rightarrow> {}) \<and>
     set (listed a) = (\<Union>e\<in>set sel. case entry_match aliases zones e of Inr (_, ea) \<Rightarrow> set ea | _ \<Rightarrow> {}) \<and>
     (\<forall>x\<in>set (listed i). length x \<le> 15) \<and> (\<forall>x\<in>set (listed a). AC_ADDR x) \<and>
     (i = None \<and> a = None \<longrightarrow> (\<forall>e\<in>set sel. \<exists>n z. e = EZone n \<and>
        List.find (\<lambda>z. zn_name z = n) zones = Some z \<and> zn_interfaces z = []))"

lemma sideMatch_matches:
  assumes "sideMatch sel aliases zones = Inr (is, as)"
  shows "side_matches aliases zones sel (some_list is) (some_list as)"
proof -
  note r = sideMatch_result [OF assms]
  have "\<exists>n z. e = EZone n \<and> List.find (\<lambda>z. zn_name z = n) zones = Some z \<and> zn_interfaces z = []"
    if "some_list is = None" "some_list as = None" "e \<in> set sel" for e
  proof -
    have "is = []" "as = []" using that(1,2) by (simp_all add: some_list_def split: if_splits)
    then have "entry_match aliases zones e = Inr ([], [])" using r(1) that(3) by fastforce
    then show ?thesis by (rule entry_match_nothing)
  qed
  moreover have "\<forall>e\<in>set sel. \<exists>ei ea. entry_match aliases zones e = Inr (ei, ea)" using r(1) by blast
  ultimately show ?thesis unfolding side_matches_def listed_some_list using r(2-5) by blast
qed



text \<open>
  A zone without interfaces adds nothing to its side, so a rule from such a zone gets a match that is
  open on that side.
\<close>

lemma empty_zone_widens:
  "acMatchFromSelections [EZone ''EMPTY''] [] [] [lan_zone\<lparr>zn_name := ''EMPTY'', zn_interfaces := []\<rparr>] = Inr empty_match"
  by (simp add: acMatchFromSelections_def sideMatch_def uniq_def some_list_def empty_match_def lan_zone_def)

section \<open>The next document\<close>

definition binds :: "string option \<Rightarrow> bool" where
  "binds a \<longleftrightarrow> a \<noteq> None \<and> a \<noteq> Some []"

definition bound_actions :: "ac_config \<Rightarrow> string set" where
  "bound_actions c = ab_action ` set (ac_bindings c)"

lemma length_uniq: "length (uniq xs) = card (set xs)"
  using distinct_card [of "uniq xs"] by simp

lemma nextAcConfig_Inr:
  assumes "nextAcConfig live removed rule d m a = Inr (doc, changed)"
  shows "ac_bindings doc = sort_by (\<lambda>x y. ab_id x - ab_id y)
      (filter (\<lambda>b. ab_id b \<notin> set removed \<and> ab_id b \<noteq> rule) (ac_bindings live) @
       (if binds a then [\<lparr>ab_id = rule, ab_action = the a, ab_description = d, ab_match = m\<rparr>] else []))"
    and "binds a \<Longrightarrow> card (bound_actions doc) \<le> MAX_BOUND_AC_ACTIONS"
    and "ac_actions doc = ac_actions live \<and> ac_version doc = ac_version live"
proof -
  have b: "(case a of None \<Rightarrow> False | Some a \<Rightarrow> a \<noteq> []) = binds a" by (cases a) (simp_all add: binds_def)
  show bindings: "ac_bindings doc = sort_by (\<lambda>x y. ab_id x - ab_id y)
      (filter (\<lambda>b. ab_id b \<notin> set removed \<and> ab_id b \<noteq> rule) (ac_bindings live) @
       (if binds a then [\<lparr>ab_id = rule, ab_action = the a, ab_description = d, ab_match = m\<rparr>] else []))"
    using assms by (cases "binds a") (auto simp: nextAcConfig_def b Let_def split: if_splits)
  show "card (bound_actions doc) \<le> MAX_BOUND_AC_ACTIONS" if "binds a"
    using assms that by (simp add: nextAcConfig_def b Let_def bound_actions_def length_uniq split: if_splits)
       (auto simp: length_uniq image_Un)
  show "ac_actions doc = ac_actions live \<and> ac_version doc = ac_version live"
    using assms by (cases "binds a") (auto simp: nextAcConfig_def b Let_def split: if_splits)
qed

text \<open>
  C10: the document after a save. The rule is bound exactly when an action is chosen, to that action
  alone; a number that the rule left is bound no more; the other bindings and all actions stay. The
  bindings are in the order of their numbers, no number is bound twice, and the ceiling of seven
  actions, which the three bits of the mark impose, is kept.
\<close>

theorem nextAcConfig_ceiling:
  assumes res: "nextAcConfig live removed rule d m a = Inr (doc, changed)"
    and live: "distinct (map ab_id (ac_bindings live))" "card (bound_actions live) \<le> MAX_BOUND_AC_ACTIONS"
  shows "{b \<in> set (ac_bindings doc). ab_id b = rule} =
      (if binds a then {\<lparr>ab_id = rule, ab_action = the a, ab_description = d, ab_match = m\<rparr>} else {}) \<and>
    {b \<in> set (ac_bindings doc). ab_id b \<noteq> rule} = {b \<in> set (ac_bindings live). ab_id b \<noteq> rule \<and> ab_id b \<notin> set removed} \<and>
    sorted (map ab_id (ac_bindings doc)) \<and> distinct (map ab_id (ac_bindings doc)) \<and>
    card (bound_actions doc) \<le> MAX_BOUND_AC_ACTIONS \<and> ac_actions doc = ac_actions live"
proof -
  note doc = nextAcConfig_Inr [OF res]
  let ?keep = "filter (\<lambda>b. ab_id b \<notin> set removed \<and> ab_id b \<noteq> rule) (ac_bindings live)"
  let ?all = "?keep @ (if binds a then [\<lparr>ab_id = rule, ab_action = the a, ab_description = d, ab_match = m\<rparr>] else [])"
  have "sorted_wrt (\<lambda>x y. ab_id x - ab_id y \<le> 0) (ac_bindings doc)"
    unfolding doc(1) by (rule sorted_sort_by) (auto simp: consistent_cmp_def)
  then have sorted: "sorted (map ab_id (ac_bindings doc))" by (simp add: sorted_wrt_map)
  have "distinct (map ab_id ?all)" using live(1) by (auto simp: distinct_map_filter)
  then have "distinct (map ab_id (ac_bindings doc))"
    unfolding doc(1) using mset_eq_imp_distinct_iff [of "map ab_id (sort_by _ ?all)" "map ab_id ?all"]
    by (simp only: mset_map mset_sort_by)
  moreover have "card (bound_actions doc) \<le> MAX_BOUND_AC_ACTIONS"
  proof (cases "binds a")
    case False
    then have "bound_actions doc \<subseteq> bound_actions live" by (auto simp: bound_actions_def doc(1))
    then show ?thesis using live(2) card_mono [of "bound_actions live" "bound_actions doc"]
      by (simp add: bound_actions_def)
  qed (rule doc(2))
  moreover have "set (ac_bindings doc) = set ?all" by (simp add: doc(1))
  ultimately show ?thesis using sorted doc(3) by auto
qed

lemma nextAcConfig_ceiling_witness:
  "\<exists>doc ch. nextAcConfig (emptyAcConfig\<lparr>ac_bindings := [web_binding 10, web_binding 30]\<rparr>) [10] 20 [] empty_match (Some ''Global'') = Inr (doc, ch) \<and>
     {b \<in> set (ac_bindings doc). ab_id b \<noteq> 20} = {web_binding 30} \<and> card (bound_actions doc) \<le> 7"
proof -
  let ?live = "emptyAcConfig\<lparr>ac_bindings := [web_binding 10, web_binding 30]\<rparr>"
  have live: "distinct (map ab_id (ac_bindings ?live))" "card (bound_actions ?live) \<le> MAX_BOUND_AC_ACTIONS"
    by (simp_all add: web_binding_def bound_actions_def MAX_BOUND_AC_ACTIONS_def)
  obtain doc ch where res: "nextAcConfig ?live [10] 20 [] empty_match (Some ''Global'') = Inr (doc, ch)"
    by (simp add: nextAcConfig_def Let_def web_binding_def uniq_def MAX_BOUND_AC_ACTIONS_def)
  have "{b \<in> set (ac_bindings ?live). ab_id b \<noteq> 20 \<and> ab_id b \<notin> set [10]} = {web_binding 30}"
    by (auto simp: web_binding_def)
  then show ?thesis using nextAcConfig_ceiling [OF res live] res by (auto simp: MAX_BOUND_AC_ACTIONS_def)
qed

section \<open>Geolocation policies of other rules\<close>

text \<open>
  The sweep of a vacated number looks at the number only. When a rule moves from the forward chain to
  the input chain, the policy of an input rule that has the old number is deleted too.
\<close>

lemma geo_sweep_other_chain:
  "let other = \<lparr>gp_id = 1, gp_action = ''block'', gp_ruleset = ''input'', gp_rule = 10, gp_direction = GeoBoth, gp_enabled = True\<rparr>
   in geoCommands (emptyGeolocationConfig\<lparr>geo_policies := [other]\<rparr>) [10] 40 [''input''] None = [cdel (geo_policyBase 1)]"
  by (simp add: geoCommands_def diffGeoPoliciesForRule_def policiesForRule_def Let_def is_named_def)

end
