(* ===== verification/Firewall_Typing.thy ===== *)
theory Firewall_Typing
  imports Firewall_Rule_Effects
begin

text \<open>
  What \<open>fetchFirewall\<close> hands to the rest of the module. The properties of the rule diff assume
  well-formed live rules (\<open>wf_rule\<close>); here it is shown that the rules which the reader builds from the
  device's JSON, whatever that contains, are well formed.
\<close>

section \<open>The parsed rules\<close>

definition one_iface :: "rule_endpoint \<Rightarrow> bool" where
  "one_iface e \<longleftrightarrow> ep_iface e = None \<or> ep_iface_group e = None"

lemma truthy_childStr: "childStr v k \<noteq> None \<Longrightarrow> truthy (childStr v k)"
  using childStr_trimmed [of v k] by (auto simp: truthy_def)

lemma parseEndpoint_ref: "wf_ref (ep_group_type (parseEndpoint cfg sd)) (ep_group_name (parseEndpoint cfg sd))"
proof -
  let ?g = "obj_or_empty (childCfg (obj_or_empty (childCfg cfg (side_str sd))) ''group'')"
  obtain i ig where ifm: "iface_match (js_get cfg (IFACE_NODE sd)) = (i, ig)" by fastforce
  show ?thesis
  proof (cases "List.find (\<lambda>node. childStr ?g node \<noteq> None) REF_NODES")
    case None
    then show ?thesis by (simp add: parseEndpoint_def Let_def ifm wf_ref_def)
  next
    case (Some node)
    then have node: "node \<in> set REF_NODES" "childStr ?g node \<noteq> None"
      by (auto simp: find_Some_iff in_set_conv_nth)
    then have "node \<noteq> []" by (auto simp: REF_NODES_def)
    then show ?thesis using Some node truthy_childStr [OF node(2)]
      by (simp add: parseEndpoint_def Let_def ifm wf_ref_def)
  qed
qed

lemma wf_endpoint_iff: "wf_ref (ep_group_type e) (ep_group_name e) \<Longrightarrow> wf_endpoint e \<longleftrightarrow> one_iface e"
  by (simp add: wf_endpoint_def one_iface_def)

definition from_chain :: "rule_chain \<Rightarrow> firewall_rule \<Rightarrow> bool" where
  "from_chain c r \<longleftrightarrow> fr_chain r = c \<and> fr_scopes r = [\<lparr>sc_chain = c, sc_raw = fr_raw r\<rparr>] \<and>
     wf_ref (ep_group_type (fr_from r)) (ep_group_name (fr_from r)) \<and>
     wf_ref (ep_group_type (fr_to r)) (ep_group_name (fr_to r))"

lemma parse_rule_from_chain: "parse_rule c e = Inr (UserRule r) \<Longrightarrow> from_chain c r"
  by (auto simp: parse_rule_def from_chain_def Let_def parseEndpoint_ref split: prod.splits sum.splits if_splits)

lemma user_rules_set: "r \<in> set (user_rules ps) \<Longrightarrow> UserRule r \<in> set ps"
  by (induction ps rule: user_rules.induct) auto

lemma parseChain_from_chain:
  assumes "parseChain f c = Inr (rs, setup)" and "r \<in> set rs"
  shows "from_chain c r"
proof -
  obtain ps where ps: "map_res (parse_rule c) (obj_entries (obj_or_empty (childCfg f ''rule''))) = Inr ps"
    and rs: "rs = user_rules ps"
    using assms(1) by (auto simp: parseChain_def Let_def split: sum.splits)
  have "UserRule r \<in> set ps" using user_rules_set assms(2) rs by simp
  then obtain e where "parse_rule c e = Inr (UserRule r)"
    using map_res_origin [OF ps] by blast
  then show ?thesis by (rule parse_rule_from_chain)
qed

lemma parse_zone_chains_from:
  assumes "parse_zone_chains named pairs = Inr rs" and "r \<in> set rs"
  shows "\<exists>ruleset. from_chain (zoneRuleChain ruleset) r"
proof -
  obtain xs where xs: "map_res (\<lambda>ruleset. parseChain (obj_or_empty (childCfg named ruleset)) (zoneRuleChain ruleset))
      (uniq (map zp_ruleset pairs)) = Inr xs" and rs: "rs = concat (map fst xs)"
    using assms(1) by (auto simp: parse_zone_chains_def split: sum.splits)
  obtain x where x: "x \<in> set xs" "r \<in> set (fst x)" using assms(2) rs by auto
  then obtain ruleset where "parseChain (obj_or_empty (childCfg named ruleset)) (zoneRuleChain ruleset) = Inr x"
    using map_res_origin [OF xs] by blast
  then show ?thesis using parseChain_from_chain [of _ _ "fst x" "snd x"] x(2) by auto
qed

lemma zoneRuleChain_wf [simp]: "wf_chain (zoneRuleChain n)" "\<not> isBaseChain (zoneRuleChain n)"
  by (simp_all add: wf_chain_def zoneRuleChain_def isBaseChain_def)

text \<open>A rule of the table, for a base chain or collapsed from the copies in the zone pairs.\<close>

definition table_rule :: "firewall_rule \<Rightarrow> bool" where
  "table_rule r \<longleftrightarrow> fr_scopes r \<noteq> [] \<and> fr_chain r = sc_chain (hd (fr_scopes r)) \<and>
     (wf_rule r \<longleftrightarrow> one_iface (fr_from r) \<and> one_iface (fr_to r))"

lemma from_chain_table:
  assumes "from_chain c r" and "isBaseChain c" and "wf_chain c"
  shows "table_rule r"
  using assms by (auto simp: from_chain_def table_rule_def wf_rule_def wf_endpoint_iff)

lemma groupZoneRules_table:
  assumes from_zone: "\<And>r. r \<in> set rs \<Longrightarrow> \<exists>n. from_chain (zoneRuleChain n) r"
    and r: "r \<in> set (groupZoneRules lc rs)"
  shows "table_rule r"
proof -
  obtain n where n: "n \<in> fr_rule ` set rs" and r: "r = (hd (copies_of lc rs n))
      \<lparr>fr_scopes := map (\<lambda>c. \<lparr>sc_chain = fr_chain c, sc_raw = fr_raw c\<rparr>) (copies_of lc rs n)\<rparr>"
    using r unfolding groupZoneRules_copies by auto
  let ?cs = "copies_of lc rs n"
  have ne: "?cs \<noteq> []" using copies_of_number [OF n] by blast
  have sub: "set ?cs \<subseteq> set rs" by (auto simp: copies_of_def)
  then have zone: "\<exists>n. from_chain (zoneRuleChain n) c" if "c \<in> set ?cs" for c using from_zone that by blast
  have "hd ?cs \<in> set ?cs" using ne by simp
  then obtain k where k: "from_chain (zoneRuleChain k) (hd ?cs)" using zone by blast
  have chains: "\<forall>c\<in>set ?cs. wf_chain (fr_chain c) \<and> \<not> isBaseChain (fr_chain c)"
  proof
    fix c assume "c \<in> set ?cs"
    then obtain m where "from_chain (zoneRuleChain m) c" using zone by blast
    then show "wf_chain (fr_chain c) \<and> \<not> isBaseChain (fr_chain c)" by (simp add: from_chain_def)
  qed
  show ?thesis
    using k ne chains by (simp add: r table_rule_def wf_rule_def from_chain_def wf_endpoint_iff hd_map)
qed

section \<open>Order\<close>

lemma sorted_insert_rule_order:
  assumes "sorted (map fr_rule xs)"
  shows "sorted (map fr_rule (insert_by rule_order x xs))"
  using assms
proof (induction xs)
  case (Cons y ys)
  have in_set: "set (insert_by rule_order x ys) = insert x (set ys)"
    by (metis list.set(2) mset.simps(2) mset_insert_by set_mset_add_mset_insert set_mset_mset)
  show ?case
  proof (cases "rule_order x y \<le> 0")
    case True
    then have "fr_rule x \<le> fr_rule y" by (simp add: rule_order_def split: if_splits)
    then show ?thesis using Cons.prems True by auto
  next
    case False
    then have "fr_rule y \<le> fr_rule x" by (simp add: rule_order_def split: if_splits)
    then show ?thesis using Cons False by (auto simp: in_set)
  qed
qed simp

lemma sorted_rule_order: "sorted (map fr_rule (sort_by rule_order xs))"
  by (induction xs) (simp_all add: sort_by_Cons sorted_insert_rule_order)

text \<open>
  C27: the rules that are read are well formed. Whatever JSON the device returns, when the read succeeds
  the rules are in the order of their numbers, every rule has a scope and its chain is the first of
  them, and the rule satisfies the condition under which the rule diff is correct unless one of its
  sides names both an interface and an interface group, which the device does not allow.
\<close>

theorem fetchFirewall_wf:
  assumes "fetchFirewall lc resp = Inr cfg"
  shows "sorted (map fr_rule (fc_rules cfg)) \<and>
    (\<forall>r\<in>set (fc_rules cfg). fr_scopes r \<noteq> [] \<and> fr_chain r = sc_chain (hd (fr_scopes r)) \<and>
       (wf_rule r \<longleftrightarrow> one_iface (fr_from r) \<and> one_iface (fr_to r)))"
proof -
  obtain fw fr fs ir isu orr os named pairs zr where
    chains: "parseChain (chain_filter fw Forward) ''forward'' = Inr (fr, fs)"
      "parseChain (chain_filter fw Input) ''input'' = Inr (ir, isu)"
      "parseChain (chain_filter fw Output) ''output'' = Inr (orr, os)"
      "parse_zone_chains named pairs = Inr zr"
    and rules: "fc_rules cfg = sort_by rule_order (fr @ ir @ orr @ groupZoneRules lc zr)"
    using assms by (auto simp: fetchFirewall_def Let_def split: sum.splits prod.splits)
  have base: "isBaseChain c" "wf_chain c" if "c \<in> {''forward'', ''input'', ''output''}" for c
    using that by (auto simp: isBaseChain_def wf_chain_def)
  have "table_rule r" if "r \<in> set (fc_rules cfg)" for r
  proof -
    consider "r \<in> set fr" | "r \<in> set ir" | "r \<in> set orr" | "r \<in> set (groupZoneRules lc zr)"
      using \<open>r \<in> set (fc_rules cfg)\<close> rules by auto
    then show ?thesis
    proof cases
      case 1 then show ?thesis using from_chain_table [OF parseChain_from_chain [OF chains(1)]] base by simp
    next
      case 2 then show ?thesis using from_chain_table [OF parseChain_from_chain [OF chains(2)]] base by simp
    next
      case 3 then show ?thesis using from_chain_table [OF parseChain_from_chain [OF chains(3)]] base by simp
    next
      case 4 then show ?thesis using groupZoneRules_table parse_zone_chains_from [OF chains(4)] by blast
    qed
  qed
  then show ?thesis by (simp add: rules sorted_rule_order table_rule_def)
qed

definition one_rule_response :: vyos_response where
  "one_rule_response = \<lparr>resp_success = True, resp_data = Some (JObj [(''ipv4'', JObj [(''input'', JObj [(''filter'',
     JObj [(''rule'', JObj [(''20'', JObj [(''action'', JStr ''accept'')])])])])])]), resp_error = None\<rparr>"

lemma fetchFirewall_wf_witness:
  "\<exists>cfg r. fetchFirewall (\<lambda>_ _. 0) one_rule_response = Inr cfg \<and> fc_rules cfg = [r] \<and> fr_rule r = 20 \<and> wf_rule r"
proof -
  have "js_number ''20'' = Some 20" by code_simp
  then have n: "number_or_zero ''20'' = 20" by (simp add: number_or_zero_def)
  have none: "obj_or_empty (childCfg empty_obj k) = empty_obj" "js_get empty_obj k = None" "obj_entries empty_obj = []" for k
    by (simp_all add: empty_obj_def childCfg_def obj_or_empty_def)
  obtain cfg r where cfg: "fetchFirewall (\<lambda>_ _. 0) one_rule_response = Inr cfg" "fc_rules cfg = [r]" "fr_rule r = 20"
      "one_iface (fr_from r)" "one_iface (fr_to r)"
    by (auto simp: fetchFirewall_def fetchFirewallConfig_def config_of_response_def one_rule_response_def Let_def
        childCfg_def obj_or_empty_def chain_filter_def parseChain_def parse_rule_def childStr_def parseZonePairs_def
        empty_obj_def parse_zone_chains_def parseZones_def groupZoneRules_def sort_by_def n parseEndpoint_def
        iface_match_def one_iface_def REF_NODES_def parse_zone_chains_def SYS_MARK_def asAction_def)
  then show ?thesis using fetchFirewall_wf [OF cfg(1)] by auto
qed

end
