(* ===== verification/Forms.thy ===== *)
theory Forms
  imports Node_Editor
begin

text \<open>
  Forms. The diff of most modules goes through the fields of a form: single-value leaves, multi-value
  leaves and valueless flags at fixed places below the node (\<open>leaf\<close>, \<open>multi\<close> and \<open>flag\<close> in the
  modules), and then through a family of child nodes that are added, changed and removed by key. This
  theory says once what such a command list does.
\<close>

section \<open>Numbers\<close>

text \<open>A numeric leaf as the modules read it, and as they write it.\<close>

definition childNum :: "json \<Rightarrow> string \<Rightarrow> int option" where
  "childNum v key = Option.bind (childStr v key) js_number"

definition numStr :: "int option \<Rightarrow> string option" where
  "numStr n = map_option string_of_int n"

section \<open>Fields\<close>

datatype field =
    Leaf path "string option" "string option"
  | Multi path "string list" "string list"
  | Flag path bool bool

fun field_at :: "field \<Rightarrow> path" where
  "field_at (Leaf p _ _) = p"
| "field_at (Multi p _ _) = p"
| "field_at (Flag p _ _) = p"

fun field_cmds :: "path \<Rightarrow> field \<Rightarrow> vyos_command list" where
  "field_cmds b (Leaf p l d) = leaf_cmds (b @ p) l d"
| "field_cmds b (Multi p l d) = list_cmds (b @ p) l d"
| "field_cmds b (Flag p l d) = flag_cmds (b @ p) l d"

fun field_live :: "path \<Rightarrow> field \<Rightarrow> path set" where
  "field_live b (Leaf p l d) = leaf_paths (b @ p) l"
| "field_live b (Multi p l d) = list_paths (b @ p) l"
| "field_live b (Flag p l d) = flag_paths (b @ p) l"

fun field_desired :: "path \<Rightarrow> field \<Rightarrow> path set" where
  "field_desired b (Leaf p l d) = leaf_paths (b @ p) d"
| "field_desired b (Multi p l d) = list_paths (b @ p) d"
| "field_desired b (Flag p l d) = flag_paths (b @ p) d"

text \<open>What the schema of the device has to say about a field.\<close>

fun field_schema :: "(path \<Rightarrow> bool) \<Rightarrow> path \<Rightarrow> field \<Rightarrow> bool" where
  "field_schema single b (Leaf p _ _) \<longleftrightarrow> single (b @ p)"
| "field_schema single b (Multi p _ _) \<longleftrightarrow> \<not> single (b @ p)"
| "field_schema single b (Flag p _ _) \<longleftrightarrow> \<not> single (butlast (b @ p))"

text \<open>The value that the field goes to is a value: the trimmed text of a leaf is not empty.\<close>

definition form_cmds :: "path \<Rightarrow> field list \<Rightarrow> vyos_command list" where
  "form_cmds b fs = concat (map (field_cmds b) fs)"

definition form_region :: "path \<Rightarrow> field list \<Rightarrow> path set" where
  "form_region b fs = (\<Union>f\<in>set fs. cone (b @ field_at f))"

definition form_live :: "path \<Rightarrow> field list \<Rightarrow> path set" where
  "form_live b fs = (\<Union>f\<in>set fs. field_live b f)"

definition form_desired :: "path \<Rightarrow> field list \<Rightarrow> path set" where
  "form_desired b fs = (\<Union>f\<in>set fs. field_desired b f)"

text \<open>No field lies inside another.\<close>

definition apart_fields :: "field list \<Rightarrow> bool" where
  "apart_fields fs \<longleftrightarrow> sorted_wrt (\<lambda>f g. \<not> prefix (field_at f) (field_at g) \<and> \<not> prefix (field_at g) (field_at f)) fs"

text \<open>The same for places: a list of them of which none lies inside another.\<close>

definition apart :: "path list \<Rightarrow> bool" where
  "apart ps \<longleftrightarrow> sorted_wrt (\<lambda>p q. \<not> prefix p q \<and> \<not> prefix q p) ps"

definition places :: "path \<Rightarrow> path list \<Rightarrow> path set" where
  "places b ps = (\<Union>p\<in>set ps. cone (b @ p))"

lemma apart_fields_places: "apart_fields fs \<longleftrightarrow> apart (map field_at fs)"
  by (simp add: apart_fields_def apart_def sorted_wrt_map)

lemma form_region_places: "form_region b fs = places b (map field_at fs)"
  by (simp add: form_region_def places_def)

lemma places_append: "places b (ps @ qs) = places b ps \<union> places b qs"
  by (auto simp: places_def)

lemma apart_append: "apart (ps @ qs) \<Longrightarrow> apart ps \<and> apart qs \<and> places b ps \<inter> places b qs = {}"
proof -
  assume *: "apart (ps @ qs)"
  have "cone (b @ p) \<inter> cone (b @ q) = {}" if "p \<in> set ps" "q \<in> set qs" for p q
    using * that by (auto simp: apart_def sorted_wrt_append cone_disjoint_iff)
  then have "places b ps \<inter> places b qs = {}" unfolding places_def by blast
  with * show ?thesis by (simp add: apart_def sorted_wrt_append)
qed

lemma places_single [simp]: "places b [p] = cone (b @ p)"
  by (simp add: places_def)

lemmas form_defs = form_cmds_def form_region_def form_live_def form_desired_def

lemma edits_field:
  assumes dev: "device_laws dev single" and "field_schema single b f"
  shows "edits dev (cone (b @ field_at f)) (field_cmds b f) (field_live b f) (field_desired b f)"
  using assms by (cases f) (simp_all add: edits_leaf edits_list edits_flag)

lemma edits_form:
  assumes dev: "device_laws dev single" and "\<forall>f\<in>set fs. field_schema single b f" and "apart_fields fs"
  shows "edits dev (form_region b fs) (form_cmds b fs) (form_live b fs) (form_desired b fs)"
  using assms(2,3)
proof (induction fs)
  case Nil
  then show ?case by (simp add: form_defs edits_nil)
next
  case (Cons f fs)
  have "edits dev (form_region b fs) (form_cmds b fs) (form_live b fs) (form_desired b fs)"
    using Cons.prems by (intro Cons.IH) (simp_all add: apart_fields_def)
  moreover have "\<forall>g\<in>set fs. cone (b @ field_at f) \<inter> cone (b @ field_at g) = {}"
    using Cons.prems(2) by (simp add: apart_fields_def cone_disjoint_iff)
  then have "cone (b @ field_at f) \<inter> form_region b fs = {}" unfolding form_region_def by blast
  ultimately have "edits dev (cone (b @ field_at f) \<union> form_region b fs) (field_cmds b f @ form_cmds b fs)
      (field_live b f \<union> form_live b fs) (field_desired b f \<union> form_desired b fs)"
    using edits_field [OF dev] Cons.prems(1) by (intro edits_append) simp_all
  then show ?case by (simp add: form_defs)
qed

lemma form_region_cone: "form_region b fs \<subseteq> cone b"
  by (auto simp: form_region_def dest: append_prefixD)

lemma form_append [simp]:
  "form_cmds b (fs @ gs) = form_cmds b fs @ form_cmds b gs"
  "form_region b (fs @ gs) = form_region b fs \<union> form_region b gs"
  "form_live b (fs @ gs) = form_live b fs \<union> form_live b gs"
  "form_desired b (fs @ gs) = form_desired b fs \<union> form_desired b gs"
  by (auto simp: form_defs)

lemma form_Nil [simp]: "form_cmds b [] = []" "form_live b [] = {}" "form_desired b [] = {}"
  by (simp_all add: form_defs)

text \<open>A form that starts from nothing sets something exactly when it ends with something.\<close>

fun field_new :: "field \<Rightarrow> bool" where
  "field_new (Leaf _ l _) \<longleftrightarrow> l = None"
| "field_new (Multi _ l _) \<longleftrightarrow> l = []"
| "field_new (Flag _ l _) \<longleftrightarrow> \<not> l"

lemma field_new_live: "field_new f \<Longrightarrow> field_live b f = {}"
  by (cases f) simp_all

lemma form_new_live: "\<forall>f\<in>set fs. field_new f \<Longrightarrow> form_live b fs = {}"
  by (simp add: form_live_def field_new_live)

lemma field_new_sets: "field_new f \<Longrightarrow> has_set (field_cmds b f) \<longleftrightarrow> field_desired b f \<noteq> {}"
  by (cases f) (simp_all add: leaf_cmds_None_set list_cmds_Nil_set flag_cmds_False_set)

lemma form_new_sets:
  "\<forall>f\<in>set fs. field_new f \<Longrightarrow> has_set (form_cmds b fs) \<longleftrightarrow> form_desired b fs \<noteq> {}"
  by (induction fs) (auto simp: form_defs field_new_sets)

lemma field_new_deletes: "field_new f \<Longrightarrow> deletes_live {} (field_cmds b f)"
  by (cases f) simp_all

lemma form_new_deletes: "\<forall>f\<in>set fs. field_new f \<Longrightarrow> deletes_live {} (form_cmds b fs)"
proof (induction fs)
  case (Cons f fs)
  then show ?case by (simp add: form_cmds_def field_new_deletes)
qed (simp add: form_cmds_def deletes_live_def)

lemma field_deletes: "deletes_live (field_live b f) (field_cmds b f)"
  by (cases f) (simp_all add: deletes_live_leaf deletes_live_list deletes_live_flag)

lemma form_deletes: "deletes_live (form_live b fs) (form_cmds b fs)"
proof (induction fs)
  case (Cons f fs)
  have "deletes_live (field_live b f \<union> form_live b fs) (field_cmds b f @ form_cmds b fs)"
    using field_deletes Cons.IH by (simp add: deletes_live_Un1 deletes_live_Un2)
  then show ?case by (simp add: form_defs)
qed (simp add: form_defs deletes_live_def)

text \<open>A form does nothing when it asks for what the node has.\<close>

lemma field_live_cone: "field_live b f \<subseteq> cone (b @ field_at f)"
  by (cases f) (simp_all add: leaf_paths_cone list_paths_cone flag_paths_cone)

lemma field_desired_cone: "field_desired b f \<subseteq> cone (b @ field_at f)"
  by (cases f) (simp_all add: leaf_paths_cone list_paths_cone flag_paths_cone)

lemma field_idle: "field_live b f = field_desired b f \<Longrightarrow> field_cmds b f = []"
  by (cases f) (simp_all add: list_cmds_idle)

lemma form_live_own:
  assumes "apart_fields fs" and "f \<in> set fs"
  shows "form_live b fs \<inter> cone (b @ field_at f) = field_live b f"
    and "form_desired b fs \<inter> cone (b @ field_at f) = field_desired b f"
proof -
  have apart: "cone (b @ field_at g) \<inter> cone (b @ field_at f) = {}" if "g \<in> set fs" "g \<noteq> f" for g
  proof -
    have "\<forall>i j. i < j \<and> j < length fs \<longrightarrow> \<not> prefix (field_at (fs ! i)) (field_at (fs ! j)) \<and>
        \<not> prefix (field_at (fs ! j)) (field_at (fs ! i))"
      using assms(1) by (simp add: apart_fields_def sorted_wrt_iff_nth_less)
    then show ?thesis using that assms(2)
      by (metis (no_types, lifting) cone_disjoint_iff in_set_conv_nth nat_neq_iff same_prefix_prefix)
  qed
  have "field_live b g \<inter> cone (b @ field_at f) = {}" "field_desired b g \<inter> cone (b @ field_at f) = {}"
    if "g \<in> set fs" "g \<noteq> f" for g
    using apart [OF that] field_live_cone field_desired_cone by blast+
  then show "form_live b fs \<inter> cone (b @ field_at f) = field_live b f"
      "form_desired b fs \<inter> cone (b @ field_at f) = field_desired b f"
    using assms(2) field_live_cone [of b f] field_desired_cone [of b f] unfolding form_defs by blast+
qed

lemma form_idle:
  assumes "apart_fields fs" and "form_live b fs = form_desired b fs"
  shows "form_cmds b fs = []"
proof -
  have "field_cmds b f = []" if "f \<in> set fs" for f
    using form_live_own [OF assms(1) that, of b] assms(2) by (intro field_idle) simp
  then show ?thesis by (simp add: form_cmds_def)
qed

section \<open>Nodes that are one form\<close>

text \<open>
  The diff of a node whose body is a form: a rename deletes the old node, a new node without leaves is
  created on its own. Such a node is an instance of \<open>node_editor\<close>.
\<close>

definition form_body ::
  "('u \<Rightarrow> path) \<Rightarrow> ('l option \<Rightarrow> 'u \<Rightarrow> field list) \<Rightarrow> 'l option \<Rightarrow> 'u \<Rightarrow> vyos_command list" where
  "form_body new_base flds l u = form_cmds (new_base u) (flds l u)"

definition form_part :: "('u \<Rightarrow> path) \<Rightarrow> ('l option \<Rightarrow> 'u \<Rightarrow> field list) \<Rightarrow> 'u \<Rightarrow> path set" where
  "form_part new_base flds u = form_region (new_base u) (flds None u)"

locale form_editor =
  fixes schema :: "(path \<Rightarrow> bool) \<Rightarrow> bool"
    and moved :: "'u \<Rightarrow> bool"
    and old_base new_base :: "'u \<Rightarrow> path"
    and live :: "'e \<Rightarrow> 'u \<Rightarrow> 'l option"
    and flds :: "'l option \<Rightarrow> 'u \<Rightarrow> field list"
  assumes moved_live: "moved u \<Longrightarrow> live e u = None"
    and fields_schema: "schema single \<Longrightarrow> f \<in> set (flds l u) \<Longrightarrow> field_schema single (new_base u) f"
    and fields_apart: "apart_fields (flds l u)"
    and fields_places: "map field_at (flds l u) = map field_at (flds None u)"
    and fields_desired: "form_desired b (flds l u) = form_desired b (flds None u)"
    and fields_new: "f \<in> set (flds None u) \<Longrightarrow> field_new f"
    and base_multi: "schema single \<Longrightarrow> \<not> single (butlast (new_base u))"
begin

lemma form_part_any: "form_region (new_base u) (flds l u) = form_part new_base flds u"
  unfolding form_part_def form_region_places fields_places [of l u] ..

lemma form_body_edits:
  assumes "device_laws dev single" and "schema single"
  shows "edits dev (form_part new_base flds u) (form_body new_base flds l u) (form_live (new_base u) (flds l u)) (form_desired (new_base u) (flds None u))"
  using edits_form [of dev single "flds l u" "new_base u"] fields_schema [OF assms(2)] fields_apart assms(1)
  unfolding form_part_any form_body_def fields_desired [of "new_base u" l u] by blast

end

sublocale form_editor \<subseteq> node_editor schema moved old_base new_base live "form_body new_base flds" "form_part new_base flds"
  "\<lambda>l u. form_live (new_base u) (flds (Some l) u)" "\<lambda>u. form_desired (new_base u) (flds None u)"
proof
  fix u e l single dev
  have new: "\<forall>f\<in>set (flds None u). field_new f" using fields_new by blast
  show "form_part new_base flds u \<subseteq> cone (new_base u)" by (simp add: form_part_def form_region_cone)
  show "live e u = None" if "moved u" using moved_live [OF that] .
  show "has_set (form_body new_base flds None u) \<longleftrightarrow> form_desired (new_base u) (flds None u) \<noteq> {}"
    by (simp add: form_body_def form_new_sets [OF new])
  show "\<not> single (butlast (new_base u))" if "schema single" using base_multi [OF that] .
  show "form_body new_base flds (Some l) u = []"
    if "form_live (new_base u) (flds (Some l) u) = form_desired (new_base u) (flds None u)"
    using form_idle [OF fields_apart, of "new_base u" "Some l" u] that
    unfolding form_body_def fields_desired [of "new_base u" "Some l" u] by blast
  show "deletes_live (form_live (new_base u) (flds (Some l) u)) (form_body new_base flds (Some l) u)"
    by (simp add: form_body_def form_deletes)
  show "deletes_live {} (form_body new_base flds None u)" by (simp add: form_body_def form_new_deletes [OF new])
  assume dev: "device_laws dev single" "schema single"
  show "edits dev (form_part new_base flds u) (form_body new_base flds (Some l) u) (form_live (new_base u) (flds (Some l) u))
      (form_desired (new_base u) (flds None u))" by (rule form_body_edits [OF dev])
  show "edits dev (form_part new_base flds u) (form_body new_base flds None u) {} (form_desired (new_base u) (flds None u))"
    using form_body_edits [OF dev, of u None] by (simp add: form_new_live [OF new])
qed

section \<open>Child nodes\<close>

text \<open>
  \<open>for (const [k, x] of want) diff(live.get(k) ?? null, x)\<close> and then a delete for every live key that
  is not wanted. Both maps are association lists with distinct keys.
\<close>

definition children_cmds ::
  "('k \<Rightarrow> path) \<Rightarrow> ('k \<Rightarrow> 'i option \<Rightarrow> 'i \<Rightarrow> vyos_command list) \<Rightarrow> ('k \<times> 'i) list \<Rightarrow> ('k \<times> 'i) list \<Rightarrow>
   vyos_command list" where
  "children_cmds child item live want =
     concat (map (\<lambda>(k, i). item k (map_of live k) i) want) @
     map (\<lambda>(k, i). cdel (child k)) (filter (\<lambda>(k, i). map_of want k = None) live)"

definition children_paths :: "('k \<Rightarrow> 'i \<Rightarrow> path set) \<Rightarrow> ('k \<times> 'i) list \<Rightarrow> path set" where
  "children_paths paths xs = (\<Union>(k, i)\<in>set xs. paths k i)"

locale child_editor =
  fixes schema :: "(path \<Rightarrow> bool) \<Rightarrow> bool"
    and parent :: "'o \<Rightarrow> path"
    and child :: "'o \<Rightarrow> 'k \<Rightarrow> path"
    and good :: "'i \<Rightarrow> bool"
    and item :: "'o \<Rightarrow> 'k \<Rightarrow> 'i option \<Rightarrow> 'i \<Rightarrow> vyos_command list"
    and before after :: "'o \<Rightarrow> 'k \<Rightarrow> 'i \<Rightarrow> path set"
  assumes child_parent: "prefix (parent n) (child n k)"
    and child_apart: "k \<noteq> l \<Longrightarrow> cone (child n k) \<inter> cone (child n l) = {}"
    and before_in: "before n k i \<subseteq> cone (child n k)"
    and item_new: "device_laws dev single \<Longrightarrow> schema single \<Longrightarrow> good i \<Longrightarrow>
      edits dev (cone (child n k)) (item n k None i) {} (after n k i)"
    and item_live: "device_laws dev single \<Longrightarrow> schema single \<Longrightarrow> good i \<Longrightarrow>
      edits dev (cone (child n k)) (item n k (Some j) i) (before n k j) (after n k i)"
    and item_idle: "before n k j = after n k i \<Longrightarrow> item n k (Some j) i = []"
    and item_sets: "good i \<Longrightarrow> has_set (item n k None i) \<and> after n k i \<noteq> {}"
begin

lemma children_edits:
  assumes dev: "device_laws dev single" and sch: "schema single"
    and live: "distinct (map fst live)" and want: "distinct (map fst want)" and good: "\<forall>(k, i)\<in>set want. good i"
  shows "edits dev (cone (parent n)) (children_cmds (child n) (item n) live want)
    (children_paths (before n) live) (children_paths (after n) want)"
proof -
  let ?gone = "filter (\<lambda>(k, i). map_of want k = None) live"
  let ?c = "\<lambda>(k, i). cone (child n k)"
  let ?before = "\<lambda>(k, i). case map_of live k of None \<Rightarrow> {} | Some j \<Rightarrow> before n k j"
  let ?old = "\<lambda>(k, i). before n k i" and ?after = "\<lambda>(k, i). after n k i"
  have apart: "?c x \<inter> ?c y = {}" if "fst x \<noteq> fst y" for x y :: "'k \<times> 'i"
    using child_apart that by (simp add: split_beta)
  have keys: "fst x \<noteq> fst y" if "distinct (map fst zs)" "x \<in> set zs" "y \<in> set zs" "x \<noteq> y" for zs :: "('k \<times> 'i) list" and x y
    using that key_unique by metis
  have item: "edits dev (?c x) ((\<lambda>(k, i). item n k (map_of live k) i) x) (?before x) (?after x)" if "x \<in> set want" for x
    using that good item_new [OF dev sch] item_live [OF dev sch] by (cases x) (auto split: option.split)
  have one: "edits dev (\<Union>x\<in>set want. ?c x) (concat (map (\<lambda>(k, i). item n k (map_of live k) i) want))
      (\<Union>x\<in>set want. ?before x) (\<Union>x\<in>set want. ?after x)"
    using want keys [OF want] by (intro edits_concat item apart) (auto simp: distinct_map)
  have gone: "distinct ?gone" "\<And>x y. x \<in> set ?gone \<Longrightarrow> y \<in> set ?gone \<Longrightarrow> x \<noteq> y \<Longrightarrow> fst x \<noteq> fst y"
    using live keys [OF live] by (auto simp: distinct_map)
  have "edits dev (?c x) [cdel (child n (fst x))] (?old x) {}" for x
    using edits_delete [OF dev before_in [of n "fst x" "snd x"]] by (simp add: split_beta)
  then have two: "edits dev (\<Union>x\<in>set ?gone. ?c x) (concat (map (\<lambda>x. [cdel (child n (fst x))]) ?gone))
      (\<Union>x\<in>set ?gone. ?old x) (\<Union>x\<in>set ?gone. {})"
    using gone by (intro edits_concat apart) blast+
  have disj: "(\<Union>x\<in>set want. ?c x) \<inter> (\<Union>x\<in>set ?gone. ?c x) = {}"
  proof -
    have "?c x \<inter> ?c y = {}" if "x \<in> set want" "y \<in> set ?gone" for x y
      using that by (intro apart) (auto simp: map_of_eq_None_iff split_beta rev_image_eqI)
    then show ?thesis by blast
  qed
  have old: "(\<Union>x\<in>set want. ?before x) \<union> (\<Union>x\<in>set ?gone. ?old x) = (\<Union>x\<in>set live. ?old x)"
  proof (intro set_eqI iffI)
    fix q assume "q \<in> (\<Union>x\<in>set live. ?old x)"
    then obtain k i where ki: "(k, i) \<in> set live" "q \<in> before n k i" by auto
    then have "map_of live k = Some i" using live by simp
    show "q \<in> (\<Union>x\<in>set want. ?before x) \<union> (\<Union>x\<in>set ?gone. ?old x)"
    proof (cases "map_of want k")
      case None
      then show ?thesis using ki by (intro UnI2 UN_I [of "(k, i)"]) simp_all
    next
      case (Some j)
      then show ?thesis using ki \<open>map_of live k = Some i\<close>
        by (intro UnI1 UN_I [of "(k, j)"]) (simp_all add: map_of_SomeD)
    qed
  next
    fix q assume "q \<in> (\<Union>x\<in>set want. ?before x) \<union> (\<Union>x\<in>set ?gone. ?old x)"
    then consider k i where "(k, i) \<in> set want" "q \<in> ?before (k, i)" | k i where "(k, i) \<in> set live" "q \<in> before n k i"
      by auto
    then show "q \<in> (\<Union>x\<in>set live. ?old x)"
    proof cases
      case (1 k i)
      then obtain j where "map_of live k = Some j" "q \<in> before n k j" by (auto split: option.splits)
      then show ?thesis by (intro UN_I [of "(k, j)"]) (simp_all add: map_of_SomeD)
    next
      case (2 k i)
      then show ?thesis by (intro UN_I [of "(k, i)"]) simp_all
    qed
  qed
  have single: "concat (map (\<lambda>x. [cdel (child n (fst x))]) ?gone) = map (\<lambda>(k, i). cdel (child n k)) ?gone"
    by (induction live) auto
  have "edits dev ((\<Union>x\<in>set want. ?c x) \<union> (\<Union>x\<in>set ?gone. ?c x)) (children_cmds (child n) (item n) live want)
      (\<Union>x\<in>set live. ?old x) (\<Union>x\<in>set want. ?after x)"
    using edits_append [OF one two disj] unfolding old single children_cmds_def by simp
  moreover have "(\<Union>x\<in>set want. ?c x) \<union> (\<Union>x\<in>set ?gone. ?c x) \<subseteq> cone (parent n)"
    using cone_mono [OF child_parent] by (fastforce simp: split_beta)
  ultimately show ?thesis
    using edits_frame [of dev _ _ _ _ "cone (parent n)" "{}"] by (simp add: children_paths_def)
qed

lemma children_idle:
  assumes "fst ` set live = fst ` set want"
    and "\<And>k i. (k, i) \<in> set want \<Longrightarrow> \<exists>j. map_of live k = Some j \<and> before n k j = after n k i"
  shows "children_cmds (child n) (item n) live want = []"
proof -
  have "item n k (map_of live k) i = []" if "(k, i) \<in> set want" for k i
    using assms(2) [OF that] item_idle by auto
  moreover have "filter (\<lambda>(k, i). map_of want k = None) live = []"
    using assms(1) by (force simp: filter_empty_conv map_of_eq_None_iff)
  ultimately show ?thesis by (auto simp: children_cmds_def)
qed

lemma children_new_sets:
  assumes "\<forall>(k, i)\<in>set want. good i"
  shows "has_set (children_cmds (child n) (item n) [] want) \<longleftrightarrow> children_paths (after n) want \<noteq> {}"
  using assms by (induction want) (auto simp: children_cmds_def children_paths_def dest: item_sets [of _ n])

end

lemma edits_widen: "edits dev C cs L D \<Longrightarrow> C \<subseteq> C' \<Longrightarrow> edits dev C' cs L D"
  using edits_frame [of dev C cs L D C' "{}"] by simp

end
