(* ===== verification/Enroll_Token.thy ===== *)
theory Enroll_Token
  imports Forms
begin

text \<open>
  Cloud management: \<open>lib/quartz-command.ts\<close>, its connection settings and the check of an enrollment
  token in the form. The check is meant to mirror the strict parser of the agent
  (\<open>qfagent/src/token.rs\<close>), which is modelled beside it so that the two can be compared.
\<close>

section \<open>Connection settings\<close>

record quartz_config =
  qc_gateway :: "string option"
  qc_port :: "int option"
  qc_ca :: "string option"

text \<open>\<open>childStr\<close> of this module does not trim.\<close>

definition qc_childStr :: "json \<Rightarrow> string \<Rightarrow> string option" where
  "qc_childStr v key = (case js_get v key of Some (JStr s) \<Rightarrow> if s \<noteq> [] then Some s else None | _ \<Rightarrow> None)"

definition fetchQuartzCommandConfig :: "vyos_response \<Rightarrow> read_error + quartz_config" where
  "fetchQuartzCommandConfig resp =
     (case config_of_response ''Device returned an error reading Quartz Command configuration.'' resp of
        Inl e \<Rightarrow> Inl e
      | Inr cfg \<Rightarrow> Inr \<lparr>qc_gateway = qc_childStr cfg ''gateway'',
          qc_port = Option.bind (qc_childStr cfg ''port'') js_number,
          qc_ca = qc_childStr cfg ''ca-certificate''\<rparr>)"

definition fetchPkiCertificateNames :: "vyos_response \<Rightarrow> string list" where
  "fetchPkiCertificateNames resp =
     (if resp_success resp then (case resp_data resp of
          Some (JObj kvs) \<Rightarrow> sort_by str_cmp (map fst kvs)
        | Some v \<Rightarrow> sort_by str_cmp (map fst (obj_entries v))
        | None \<Rightarrow> [])
      else [])"

definition quartz_base :: path where
  "quartz_base = [''system'', ''quartz-command'']"

definition saveQuartzCommandSettings_cmds :: "quartz_config \<Rightarrow> quartz_config \<Rightarrow> vyos_command list" where
  "saveQuartzCommandSettings_cmds live update =
     form_cmds quartz_base
       [Leaf [''gateway''] (qc_gateway live) (blank_to_none (qc_gateway update)),
        Leaf [''port''] (map_option string_of_int (qc_port live)) (map_option string_of_int (qc_port update)),
        Leaf [''ca-certificate''] (qc_ca live) (blank_to_none (qc_ca update))]"

definition enrollQuartzCommand_cmds :: "string \<Rightarrow> vyos_command list" where
  "enrollQuartzCommand_cmds token = [cset (quartz_base @ [''enroll-token'', trim token])]"

section \<open>Numbers in a token\<close>

text \<open>
  \<open>Number(s)\<close> on a string without white space, when the value is an integer: the literals of the
  language with a base, a fraction and an exponent. The value is exact; a fraction that is closer to
  an integer than the precision of a \<open>double\<close> is taken as the fraction it is.
\<close>

definition hex_digit :: "char \<Rightarrow> bool" where
  "hex_digit c \<longleftrightarrow> is_digit c \<or> lower_char c \<in> set ''abcdef''"

definition radix_digit :: "char \<Rightarrow> nat" where
  "radix_digit c = (if is_digit c then digit_value c else of_char (lower_char c) - 87)"

definition radix_value :: "nat \<Rightarrow> string \<Rightarrow> int option" where
  "radix_value r s = (if s \<noteq> [] \<and> list_all (\<lambda>c. hex_digit c \<and> radix_digit c < r) s
     then Some (int (foldl (\<lambda>n c. r * n + radix_digit c) 0 s)) else None)"

definition signed_digits :: "string \<Rightarrow> int option" where
  "signed_digits s =
     (let neg = (s \<noteq> [] \<and> hd s = CHR ''-''); t = (if s \<noteq> [] \<and> hd s \<in> {CHR ''-'', CHR ''+''} then tl s else s)
      in if t \<noteq> [] \<and> list_all is_digit t
         then Some (if neg then - int (nat_of_digits t) else int (nat_of_digits t)) else None)"

definition exact_int :: "int \<Rightarrow> int \<Rightarrow> int option" where
  "exact_int m e = (if 0 \<le> e then Some (m * 10 ^ nat e)
     else if m mod 10 ^ nat (- e) = 0 then Some (m div 10 ^ nat (- e)) else None)"

definition decimal_value :: "string \<Rightarrow> int option" where
  "decimal_value s =
     (let neg = (s \<noteq> [] \<and> hd s = CHR ''-''); t = (if s \<noteq> [] \<and> hd s \<in> {CHR ''-'', CHR ''+''} then tl s else s);
          mant = takeWhile (\<lambda>c. lower_char c \<noteq> CHR ''e'') t; expo = dropWhile (\<lambda>c. lower_char c \<noteq> CHR ''e'') t;
          whole = takeWhile (\<lambda>c. c \<noteq> CHR ''.'') mant; frac = tl (dropWhile (\<lambda>c. c \<noteq> CHR ''.'') mant)
      in if list_all is_digit whole \<and> list_all is_digit frac \<and> whole @ frac \<noteq> []
         then Option.bind (if expo = [] then Some 0 else signed_digits (tl expo))
           (\<lambda>e. map_option (\<lambda>n. if neg then - n else n) (exact_int (int (nat_of_digits (whole @ frac))) (e - int (length frac))))
         else None)"

definition integer_literal :: "string \<Rightarrow> int option" where
  "integer_literal s =
     (if s = [] then Some 0
      else if length s \<ge> 2 \<and> hd s = CHR ''0'' \<and> lower_char (s ! 1) = CHR ''x'' then radix_value 16 (drop 2 s)
      else if length s \<ge> 2 \<and> hd s = CHR ''0'' \<and> lower_char (s ! 1) = CHR ''o'' then radix_value 8 (drop 2 s)
      else if length s \<ge> 2 \<and> hd s = CHR ''0'' \<and> lower_char (s ! 1) = CHR ''b'' then radix_value 2 (drop 2 s)
      else decimal_value s)"

section \<open>The check in the form\<close>

record enroll_token =
  et_host :: string
  et_port :: int
  et_org :: string
  et_id :: string

datatype token_error =
    EmptyToken
  | TooLong
  | BadCharacters
  | SegmentCount nat
  | BadVersion string
  | GatewayShape
  | GatewayPort
  | OrgEmpty
  | TokenShape
  | FingerprintScheme
  | FingerprintHex

definition graphic :: "char \<Rightarrow> bool" where
  "graphic c \<longleftrightarrow> 33 \<le> (of_char c :: nat) \<and> (of_char c :: nat) \<le> 126"

text \<open>\<open>lastIndexOf\<close> and \<open>indexOf\<close> as the parts around the character, \<open>None\<close> for -1.\<close>

definition cut_last :: "char \<Rightarrow> string \<Rightarrow> (string \<times> string) option" where
  "cut_last c s = (if c \<in> set s
     then Some (rev (tl (dropWhile (\<lambda>x. x \<noteq> c) (rev s))), rev (takeWhile (\<lambda>x. x \<noteq> c) (rev s))) else None)"

definition cut_first :: "char \<Rightarrow> string \<Rightarrow> (string \<times> string) option" where
  "cut_first c s = (if c \<in> set s then Some (takeWhile (\<lambda>x. x \<noteq> c) s, tl (dropWhile (\<lambda>x. x \<noteq> c) s)) else None)"

definition unbracket :: "string \<Rightarrow> string" where
  "unbracket h = (if prefix ''['' h \<and> suffix '']'' h then butlast (tl h) else h)"

definition validateEnrollToken :: "string \<Rightarrow> token_error + enroll_token" where
  "validateEnrollToken raw =
     (if raw = [] then Inl EmptyToken
      else if 1024 < length raw then Inl TooLong
      else if \<not> list_all graphic raw then Inl BadCharacters
      else let seg = split_on (CHR ''|'') raw in
      if length seg \<noteq> 5 then Inl (SegmentCount (length seg))
      else if seg ! 0 \<noteq> ''QC1'' then Inl (BadVersion (seg ! 0))
      else (case cut_last (CHR '':'') (seg ! 1) of
          None \<Rightarrow> Inl GatewayShape
        | Some (before, after) \<Rightarrow>
          if before = [] then Inl GatewayShape
          else let host = unbracket before; port = integer_literal after in
          if host = [] then Inl GatewayShape
          else (case port of None \<Rightarrow> Inl GatewayPort | Some p \<Rightarrow>
          if p < 1 \<or> 65535 < p then Inl GatewayPort
          else if seg ! 2 = [] then Inl OrgEmpty
          else (case cut_first (CHR ''.'') (seg ! 3) of
              None \<Rightarrow> Inl TokenShape
            | Some (tid, secret) \<Rightarrow>
              if tid = [] \<or> secret = [] then Inl TokenShape
              else if \<not> prefix ''sha256:'' (seg ! 4) then Inl FingerprintScheme
              else let hex = drop 7 (seg ! 4) in
              if length hex \<noteq> 64 \<or> \<not> list_all hex_digit hex then Inl FingerprintHex
              else Inr \<lparr>et_host = host, et_port = p, et_org = seg ! 2, et_id = tid\<rparr>))))"

section \<open>The parser of the agent\<close>

record agent_token =
  at_host :: string
  at_port :: nat
  at_org :: string
  at_id :: string
  at_secret :: string
  at_fingerprint :: string

datatype agent_error =
    AgentTooLong nat
  | AgentBadCharacters
  | AgentSegmentCount nat
  | AgentVersion string
  | AgentGatewayShape string
  | AgentGatewayPort string
  | AgentOrgEmpty
  | AgentTokenShape
  | AgentFingerprintScheme
  | AgentFingerprintHex nat

text \<open>\<open>str::parse::<u16>\<close>: digits, with an optional plus sign.\<close>

definition parse_u16 :: "string \<Rightarrow> nat option" where
  "parse_u16 s = (let t = (if s \<noteq> [] \<and> hd s = CHR ''+'' then tl s else s) in
     if t \<noteq> [] \<and> list_all is_digit t \<and> nat_of_digits t \<le> 65535 then Some (nat_of_digits t) else None)"

definition strip_brackets :: "string \<Rightarrow> string" where
  "strip_brackets h = (case h of
       [] \<Rightarrow> h
     | c # r \<Rightarrow> if c = CHR ''['' \<and> r \<noteq> [] \<and> last r = CHR '']'' then butlast r else h)"

text \<open>The length in bytes, in UTF-8.\<close>

definition byte_length :: "string \<Rightarrow> nat" where
  "byte_length s = sum_list (map (\<lambda>c. if (of_char c :: nat) < 128 then 1 else 2) s)"

definition agent_parse :: "string \<Rightarrow> agent_error + agent_token" where
  "agent_parse raw =
     (if 1024 < byte_length raw then Inl (AgentTooLong (byte_length raw))
      else if \<not> list_all graphic raw then Inl AgentBadCharacters
      else let seg = split_on (CHR ''|'') raw in
      if length seg \<noteq> 5 then Inl (AgentSegmentCount (length seg))
      else if seg ! 0 \<noteq> ''QC1'' then Inl (AgentVersion (seg ! 0))
      else (case cut_last (CHR '':'') (seg ! 1) of
          None \<Rightarrow> Inl (AgentGatewayShape (seg ! 1))
        | Some (host_raw, port_raw) \<Rightarrow>
          (let host = strip_brackets host_raw in
           if host = [] \<or> CHR ''|'' \<in> set host then Inl (AgentGatewayShape (seg ! 1))
           else (case parse_u16 port_raw of
               None \<Rightarrow> Inl (AgentGatewayPort port_raw)
             | Some port \<Rightarrow>
               if port < 1 then Inl (AgentGatewayPort port_raw)
               else if seg ! 2 = [] then Inl AgentOrgEmpty
               else (case cut_first (CHR ''.'') (seg ! 3) of
                   None \<Rightarrow> Inl AgentTokenShape
                 | Some (tid, secret) \<Rightarrow>
                   if tid = [] \<or> secret = [] then Inl AgentTokenShape
                   else if \<not> prefix ''sha256:'' (seg ! 4) then Inl AgentFingerprintScheme
                   else let hex = drop 7 (seg ! 4) in
                   if length hex \<noteq> 64 \<or> \<not> list_all hex_digit hex then Inl (AgentFingerprintHex (length hex))
                   else Inr \<lparr>at_host = host, at_port = port, at_org = seg ! 2, at_id = tid,
                     at_secret = secret, at_fingerprint = hex\<rparr>)))))"

section \<open>The two agree\<close>

definition ui_token :: "agent_token \<Rightarrow> enroll_token" where
  "ui_token a = \<lparr>et_host = at_host a, et_port = int (at_port a), et_org = at_org a, et_id = at_id a\<rparr>"

fun ui_error :: "agent_error \<Rightarrow> token_error" where
  "ui_error (AgentTooLong n) = TooLong"
| "ui_error AgentBadCharacters = BadCharacters"
| "ui_error (AgentSegmentCount n) = SegmentCount n"
| "ui_error (AgentVersion v) = BadVersion v"
| "ui_error (AgentGatewayShape g) = GatewayShape"
| "ui_error (AgentGatewayPort p) = GatewayPort"
| "ui_error AgentOrgEmpty = OrgEmpty"
| "ui_error AgentTokenShape = TokenShape"
| "ui_error AgentFingerprintScheme = FingerprintScheme"
| "ui_error (AgentFingerprintHex n) = FingerprintHex"

text \<open>The port of the token is written in decimal digits.\<close>

definition plain_port :: "string \<Rightarrow> bool" where
  "plain_port raw \<longleftrightarrow> (case split_on (CHR ''|'') raw of
       v # g # rest \<Rightarrow> (case cut_last (CHR '':'') g of None \<Rightarrow> True | Some (h, p) \<Rightarrow> list_all is_digit p)
     | _ \<Rightarrow> True)"

lemma digit_plain:
  assumes "is_digit c"
  shows "lower_char c \<notin> {CHR ''x'', CHR ''o'', CHR ''b'', CHR ''e''} \<and> c \<notin> {CHR ''.'', CHR ''+'', CHR ''-''}"
proof -
  have "lower_char c = c" using assms by (simp add: lower_char_def is_digit_def)
  then show ?thesis using assms by (auto simp: is_digit_def)
qed

lemma digits_decimal:
  assumes "list_all is_digit s"
  shows "takeWhile (\<lambda>c. lower_char c \<noteq> CHR ''e'') s = s" "dropWhile (\<lambda>c. lower_char c \<noteq> CHR ''e'') s = []"
    "takeWhile (\<lambda>c. c \<noteq> CHR ''.'') s = s" "dropWhile (\<lambda>c. c \<noteq> CHR ''.'') s = []"
  using assms digit_plain by (force simp: takeWhile_eq_all_conv dropWhile_eq_Nil_conv list_all_iff)+

lemma digits_literal:
  assumes "list_all is_digit s" and "s \<noteq> []"
  shows "integer_literal s = Some (int (nat_of_digits s))"
proof -
  have "lower_char (s ! 1) \<notin> {CHR ''x'', CHR ''o'', CHR ''b''}" if "length s \<ge> 2"
    using assms(1) digit_plain [of "s ! 1"] that by (auto simp: list_all_length)
  moreover have "hd s \<notin> {CHR ''-'', CHR ''+''}" using assms digit_plain [of "hd s"] by (simp add: list_all_iff)
  ultimately show ?thesis
    using assms by (auto simp: integer_literal_def decimal_value_def exact_int_def Let_def digits_decimal)
qed

lemma plus_literal:
  assumes "list_all is_digit s" and "s \<noteq> []"
  shows "integer_literal (CHR ''+'' # s) = Some (int (nat_of_digits s))"
  using assms by (auto simp: integer_literal_def decimal_value_def exact_int_def Let_def digits_decimal)

lemma parse_u16_literal: "parse_u16 s = Some n \<Longrightarrow> integer_literal s = Some (int n) \<and> n \<le> 65535"
  using digits_literal [of s] plus_literal [of "tl s"]
  by (cases s) (auto simp: parse_u16_def Let_def split: if_splits)

lemma parse_u16_digits:
  assumes "list_all is_digit s"
  shows "parse_u16 s = (if s \<noteq> [] \<and> nat_of_digits s \<le> 65535 then Some (nat_of_digits s) else None)"
proof -
  have "hd s \<noteq> CHR ''+''" if "s \<noteq> []" using assms that by (cases s) (auto simp: is_digit_def)
  then show ?thesis using assms by (auto simp: parse_u16_def Let_def)
qed

lemma strip_unbracket: "strip_brackets h = unbracket h"
proof (cases h)
  case (Cons c r)
  have "suffix '']'' (c # r) \<longleftrightarrow> (if r = [] then c else last r) = CHR '']''"
    by (cases r rule: rev_cases) (auto simp: suffix_def)
  then show ?thesis using Cons by (auto simp: strip_brackets_def unbracket_def)
qed (simp add: strip_brackets_def unbracket_def)

lemma split_on_parts: "w \<in> set (split_on c s) \<Longrightarrow> c \<notin> set w"
  by (induction s arbitrary: w) (auto split: if_splits list.splits)

lemma set_unbracket: "set (unbracket h) \<subseteq> set h"
  by (cases h) (auto simp: unbracket_def dest: in_set_butlastD)

lemma set_cut_last:
  assumes "cut_last c s = Some (a, b)"
  shows "s = a @ c # b" and "c \<notin> set b"
proof -
  have c: "c \<in> set s" and ab: "a = rev (tl (dropWhile (\<lambda>x. x \<noteq> c) (rev s)))" "b = rev (takeWhile (\<lambda>x. x \<noteq> c) (rev s))"
    using assms by (auto simp: cut_last_def split: if_splits)
  have ne: "dropWhile (\<lambda>x. x \<noteq> c) (rev s) \<noteq> []" using c by (simp add: dropWhile_eq_Nil_conv)
  then have "dropWhile (\<lambda>x. x \<noteq> c) (rev s) = c # rev a"
    using hd_dropWhile [OF ne] by (cases "dropWhile (\<lambda>x. x \<noteq> c) (rev s)") (auto simp: ab)
  then have "rev s = rev b @ c # rev a"
    using takeWhile_dropWhile_id [of "\<lambda>x. x \<noteq> c" "rev s"] by (simp add: ab)
  then show "s = a @ c # b" by (metis append.assoc append_Cons append_Nil rev.simps(2) rev_append rev_rev_ident)
  show "c \<notin> set b" by (auto simp: ab dest: set_takeWhileD)
qed

definition ascii :: "string \<Rightarrow> bool" where
  "ascii s \<longleftrightarrow> list_all (\<lambda>c. (of_char c :: nat) < 128) s"

lemma byte_length_ascii: "ascii s \<Longrightarrow> byte_length s = length s"
  by (induction s) (simp_all add: ascii_def byte_length_def)

lemma byte_length_ge: "length s \<le> byte_length s"
  by (induction s) (simp_all add: byte_length_def)

lemma graphic_ascii: "list_all graphic s \<Longrightarrow> ascii s"
  by (auto simp: ascii_def list_all_iff graphic_def)

lemma host_without_bar:
  assumes "length (split_on (CHR ''|'') raw) = 5" and "cut_last (CHR '':'') (split_on (CHR ''|'') raw ! 1) = Some (h, p)"
  shows "CHR ''|'' \<notin> set (unbracket h)"
proof -
  have "CHR ''|'' \<notin> set (split_on (CHR ''|'') raw ! 1)" using assms(1) by (intro split_on_parts [where s = raw]) simp
  then show ?thesis using set_cut_last [OF assms(2)] set_unbracket [of h] by auto
qed

lemma plain_port_digits:
  assumes "plain_port raw" and "length (split_on (CHR ''|'') raw) = 5"
    and "cut_last (CHR '':'') (split_on (CHR ''|'') raw ! 1) = Some (h, p)"
  shows "list_all is_digit p"
  using assms by (cases "split_on (CHR ''|'') raw") (auto simp: plain_port_def neq_Nil_conv split: list.splits)

lemma unbracket_Nil: "h \<noteq> [] \<longleftrightarrow> unbracket h \<noteq> [] \<or> h = ''[]''"
proof -
  have "h = ''[]''" if "h \<noteq> []" "unbracket h = []"
  proof -
    have b: "prefix ''['' h" "suffix '']'' h" "butlast (tl h) = []" using that by (auto simp: unbracket_def split: if_splits)
    then obtain r where h: "h = CHR ''['' # r" by (auto simp: prefix_def)
    then have "length r \<le> 1" using b(3) by (metis diff_is_0_eq length_butlast list.sel(3) list.size(3))
    then show ?thesis using b(2) h by (cases r) (auto simp: suffix_def)
  qed
  then show ?thesis by (auto simp: unbracket_def)
qed

text \<open>With a plain port the form gives the verdict of the agent, error by error.\<close>

lemma validate_plain:
  assumes "raw \<noteq> []" and "ascii raw" and plain: "plain_port raw"
  shows "validateEnrollToken raw = map_sum ui_error ui_token (agent_parse raw)"
proof (cases "1024 < length raw \<or> \<not> list_all graphic raw \<or> length (split_on (CHR ''|'') raw) \<noteq> 5 \<or>
    split_on (CHR ''|'') raw ! 0 \<noteq> ''QC1'' \<or> cut_last (CHR '':'') (split_on (CHR ''|'') raw ! 1) = None")
  case True
  then show ?thesis
    using assms(1) by (auto simp: validateEnrollToken_def agent_parse_def Let_def byte_length_ascii [OF assms(2)])
next
  case False
  let ?seg = "split_on (CHR ''|'') raw"
  obtain h p where cut: "cut_last (CHR '':'') (?seg ! 1) = Some (h, p)" using False by auto
  have five: "length ?seg = 5" using False by blast
  have digits: "list_all is_digit p" by (rule plain_port_digits [OF plain five cut])
  have host: "strip_brackets h = unbracket h" "CHR ''|'' \<notin> set (unbracket h)"
    using strip_unbracket host_without_bar [OF five cut] by simp_all
  have port: "integer_literal p = (if p = [] then Some 0 else Some (int (nat_of_digits p)))"
    using digits_literal [OF digits] by (simp add: integer_literal_def)
  have empty: "unbracket [] = []" by (simp add: unbracket_def)
  have bad: "p = [] \<or> 65535 < nat_of_digits p \<Longrightarrow> parse_u16 p = None"
    and good: "p \<noteq> [] \<Longrightarrow> nat_of_digits p \<le> 65535 \<Longrightarrow> parse_u16 p = Some (nat_of_digits p)"
    by (auto simp: parse_u16_digits [OF digits])
  have start: "\<not> 1024 < byte_length raw" "list_all graphic raw" "?seg ! 0 = ''QC1''" "\<not> 1024 < length raw"
    using False by (auto simp: byte_length_ascii [OF assms(2)])
  show ?thesis
  proof (cases "unbracket h = [] \<or> p = [] \<or> 65535 < nat_of_digits p \<or> nat_of_digits p = 0")
    case True
    then show ?thesis
      using assms(1) start five bad good
      by (cases "unbracket h = []"; cases "p = [] \<or> 65535 < nat_of_digits p")
        (auto simp: validateEnrollToken_def agent_parse_def Let_def cut host port empty simp del: One_nat_def)
  next
    case False
    then have "h \<noteq> []" "parse_u16 p = Some (nat_of_digits p)" using empty good by auto
    then show ?thesis
      using assms(1) start five False
      by (simp add: validateEnrollToken_def agent_parse_def Let_def cut host port ui_token_def del: One_nat_def split: option.split)
  qed
qed

text \<open>What the agent takes, the form takes.\<close>

lemma agent_validates:
  assumes ok: "agent_parse raw = Inr a"
  shows "validateEnrollToken raw = Inr (ui_token a)"
proof -
  let ?seg = "split_on (CHR ''|'') raw"
  have start: "\<not> 1024 < byte_length raw" "list_all graphic raw" "length ?seg = 5" "?seg ! 0 = ''QC1''"
    using ok by (auto simp: agent_parse_def Let_def simp del: One_nat_def split: if_splits)
  obtain h p where cut: "cut_last (CHR '':'') (?seg ! 1) = Some (h, p)"
    using ok start by (auto simp: agent_parse_def Let_def simp del: One_nat_def split: option.splits)
  obtain n where n: "parse_u16 p = Some n" "\<not> n < 1" and h: "unbracket h \<noteq> []"
    using ok start by (auto simp: agent_parse_def Let_def cut strip_unbracket simp del: One_nat_def split: option.splits if_splits)
  have bar: "CHR ''|'' \<notin> set (unbracket h)" by (rule host_without_bar [OF start(3) cut])
  have "raw \<noteq> []" using start(3) by auto
  moreover have "h \<noteq> []" using h by (auto simp: unbracket_def)
  moreover have "\<not> 1024 < length raw" using start(1) byte_length_ge [of raw] by linarith
  ultimately show ?thesis
    using ok start n h bar parse_u16_literal [OF n(1)]
    by (auto simp: validateEnrollToken_def agent_parse_def Let_def cut strip_unbracket ui_token_def simp del: One_nat_def split: option.splits if_splits)
qed

text \<open>
  C28: the check in the form mirrors the parser of the agent. It never refuses a token that the agent
  takes, and it shows the host, port, organisation and token id that the agent reads. When the port
  is written in decimal digits it takes exactly the tokens that the agent takes, and for a token in
  ASCII it names the segment that the agent complains about.
\<close>

theorem token_check_mirrors:
  "(agent_parse raw = Inr a \<longrightarrow> validateEnrollToken raw = Inr (ui_token a)) \<and>
   (plain_port raw \<and> validateEnrollToken raw = Inr t \<longrightarrow> (\<exists>a. agent_parse raw = Inr a \<and> ui_token a = t)) \<and>
   (plain_port raw \<and> ascii raw \<and> raw \<noteq> [] \<and> agent_parse raw = Inl e \<longrightarrow> validateEnrollToken raw = Inl (ui_error e))"
proof (intro conjI impI)
  assume "agent_parse raw = Inr a"
  then show "validateEnrollToken raw = Inr (ui_token a)" by (rule agent_validates)
next
  assume t: "plain_port raw \<and> validateEnrollToken raw = Inr t"
  then have "raw \<noteq> []" "list_all graphic raw" by (auto simp: validateEnrollToken_def Let_def split: if_splits)
  then have "map_sum ui_error ui_token (agent_parse raw) = Inr t"
    using t validate_plain graphic_ascii by metis
  then show "\<exists>a. agent_parse raw = Inr a \<and> ui_token a = t" by (cases "agent_parse raw") auto
next
  assume "plain_port raw \<and> ascii raw \<and> raw \<noteq> [] \<and> agent_parse raw = Inl e"
  then show "validateEnrollToken raw = Inl (ui_error e)" by (simp add: validate_plain)
qed

section \<open>Printed tokens\<close>

text \<open>
  The wire format of a token, as the agent documents it, with an IPv6 address in brackets.
\<close>

definition print_token :: "agent_token \<Rightarrow> string" where
  "print_token t = ''QC1'' @ CHR ''|'' #
     ((if CHR '':'' \<in> set (at_host t) then ''['' @ at_host t @ '']'' else at_host t) @ CHR '':'' # string_of_nat (at_port t)) @ CHR ''|'' #
     at_org t @ CHR ''|'' # (at_id t @ CHR ''.'' # at_secret t) @ CHR ''|'' # ''sha256:'' @ at_fingerprint t"

definition wf_token :: "agent_token \<Rightarrow> bool" where
  "wf_token t \<longleftrightarrow> at_host t \<noteq> [] \<and> at_org t \<noteq> [] \<and> at_id t \<noteq> [] \<and> at_secret t \<noteq> [] \<and>
     (CHR '':'' \<notin> set (at_host t) \<longrightarrow> \<not> prefix ''['' (at_host t)) \<and> CHR ''.'' \<notin> set (at_id t) \<and>
     1 \<le> at_port t \<and> at_port t \<le> 65535 \<and> length (at_fingerprint t) = 64 \<and> list_all hex_digit (at_fingerprint t) \<and>
     list_all (\<lambda>c. graphic c \<and> c \<noteq> CHR ''|'') (at_host t @ at_org t @ at_id t @ at_secret t) \<and>
     length (print_token t) \<le> 1024"

lemma cut_last_append: "c \<notin> set b \<Longrightarrow> cut_last c (a @ c # b) = Some (a, b)"
  using span_sep [of c "rev b" "rev a"] by (simp add: cut_last_def)

lemma cut_first_append: "c \<notin> set a \<Longrightarrow> cut_first c (a @ c # b) = Some (a, b)"
  using span_sep [of c a b] by (simp add: cut_first_def)

lemma hex_graphic: "hex_digit c \<Longrightarrow> graphic c \<and> c \<noteq> CHR ''|''"
  by (auto simp: hex_digit_def graphic_def is_digit_def lower_char_def split: if_splits)

lemma digit_graphic: "is_digit c \<Longrightarrow> graphic c \<and> c \<notin> {CHR ''|'', CHR '':''}"
  by (auto simp: is_digit_def graphic_def)

lemma parse_print_token:
  assumes wf: "wf_token t"
  shows "agent_parse (print_token t) = Inr t"
proof -
  let ?host = "if CHR '':'' \<in> set (at_host t) then ''['' @ at_host t @ '']'' else at_host t"
  let ?p = "string_of_nat (at_port t)"
  have p: "list_all is_digit ?p" by (rule string_of_nat_digits)
  then have pc: "CHR ''|'' \<notin> set ?p" "CHR '':'' \<notin> set ?p" "\<forall>c\<in>set ?p. graphic c"
    using digit_graphic by (auto simp: list_all_iff)
  have parts: "CHR ''|'' \<notin> set (?host @ CHR '':'' # ?p)" "CHR ''|'' \<notin> set (at_org t)"
      "CHR ''|'' \<notin> set (at_id t @ CHR ''.'' # at_secret t)" "CHR ''|'' \<notin> set (''sha256:'' @ at_fingerprint t)"
    using wf pc hex_graphic by (auto simp: wf_token_def list_all_iff)
  have qc1: "CHR ''|'' \<notin> set ''QC1''" by simp
  have seg: "split_on (CHR ''|'') (print_token t) = [''QC1'', ?host @ CHR '':'' # ?p, at_org t,
      at_id t @ CHR ''.'' # at_secret t, ''sha256:'' @ at_fingerprint t]"
    unfolding print_token_def split_on_append_sep [OF qc1] split_on_append_sep [OF parts(1)]
      split_on_append_sep [OF parts(2)] split_on_append_sep [OF parts(3)] split_on_no_sep [OF parts(4)] ..
  have "list_all graphic (print_token t)"
    using wf pc hex_graphic by (auto simp: wf_token_def print_token_def list_all_iff graphic_def)
  moreover from this have "byte_length (print_token t) = length (print_token t)"
    by (intro byte_length_ascii graphic_ascii)
  moreover have "cut_last (CHR '':'') (?host @ CHR '':'' # ?p) = Some (?host, ?p)" by (rule cut_last_append [OF pc(2)])
  moreover have "cut_first (CHR ''.'') (at_id t @ CHR ''.'' # at_secret t) = Some (at_id t, at_secret t)"
    using wf by (intro cut_first_append) (simp add: wf_token_def)
  moreover have "strip_brackets ?host = at_host t"
    using wf by (cases "at_host t") (auto simp: strip_brackets_def wf_token_def)
  moreover have "parse_u16 ?p = Some (at_port t)"
    using wf by (simp add: parse_u16_digits [OF p] wf_token_def)
  ultimately show ?thesis
    using wf seg parts by (auto simp: agent_parse_def Let_def wf_token_def list_all_iff simp del: One_nat_def)
qed

text \<open>
  C29: a token that is printed in the documented format is read back by the agent, field by field,
  and accepted by the form with the same host, port, organisation and id, for host names, IPv4 and
  IPv6 addresses.
\<close>

theorem enroll_token_roundtrip:
  assumes "wf_token t"
  shows "agent_parse (print_token t) = Inr t \<and> validateEnrollToken (print_token t) = Inr (ui_token t)"
  using parse_print_token [OF assms] agent_validates by blast

definition lab_token :: agent_token where
  "lab_token = \<lparr>at_host = ''fd00::1'', at_port = 443, at_org = ''org'', at_id = ''id'', at_secret = ''s.t'',
     at_fingerprint = replicate 64 CHR ''a''\<rparr>"

lemma lab_token_wf: "wf_token lab_token"
proof -
  have p: "length (string_of_nat 443) = 3"
    by (simp add: string_of_nat.simps [of 443] string_of_nat.simps [of 44] string_of_nat.simps [of 4])
  have hex: "list_all hex_digit (replicate 64 CHR ''a'')"
    by (simp add: list_all_iff hex_digit_def is_digit_def lower_char_def)
  have chars: "list_all (\<lambda>c. graphic c \<and> c \<noteq> CHR ''|'') (''fd00::1'' @ ''org'' @ ''id'' @ ''s.t'')"
    by (simp add: graphic_def)
  have "length (print_token lab_token) \<le> 1024"
    by (simp add: print_token_def lab_token_def p)
  then show ?thesis using hex chars unfolding wf_token_def by (simp only:) (simp add: lab_token_def)
qed

lemma enroll_token_roundtrip_witness:
  "agent_parse (print_token lab_token) = Inr lab_token \<and>
   validateEnrollToken (print_token lab_token) = Inr \<lparr>et_host = ''fd00::1'', et_port = 443, et_org = ''org'', et_id = ''id''\<rparr>"
  using enroll_token_roundtrip [OF lab_token_wf] by (simp add: ui_token_def lab_token_def)

lemma token_check_mirrors_witness:
  "validateEnrollToken (print_token lab_token) = Inr (ui_token lab_token) \<and>
   validateEnrollToken ''QC1'' = Inl (SegmentCount 1)"
proof -
  have "agent_parse ''QC1'' = Inl (AgentSegmentCount 1)" "plain_port ''QC1''" "ascii ''QC1''"
    by (simp_all add: agent_parse_def byte_length_def graphic_def plain_port_def ascii_def)
  then have "validateEnrollToken ''QC1'' = Inl (ui_error (AgentSegmentCount 1))"
    using token_check_mirrors [of "''QC1''"] by blast
  moreover have "validateEnrollToken (print_token lab_token) = Inr (ui_token lab_token)"
    using token_check_mirrors [of "print_token lab_token"] parse_print_token [OF lab_token_wf] by blast
  ultimately show ?thesis by (simp only: ui_error.simps)
qed

text \<open>
  The form reads the port as a number literal of the language, the agent as digits: a token with a
  port in hexadecimal passes the form and fails at the device.
\<close>

lemma hex_port_only_in_form:
  assumes fp: "length fp = 64" "list_all hex_digit fp"
  defines "raw \<equiv> ''QC1|gw:0x1bb|org|id.s|sha256:'' @ fp"
  shows "validateEnrollToken raw = Inr \<lparr>et_host = ''gw'', et_port = 443, et_org = ''org'', et_id = ''id''\<rparr> \<and>
    agent_parse raw = Inl (AgentGatewayPort ''0x1bb'')"
proof -
  have bar: "CHR ''|'' \<notin> set (''sha256:'' @ fp)" using fp(2) hex_graphic by (auto simp: list_all_iff)
  have "raw = ''QC1'' @ CHR ''|'' # ''gw:0x1bb'' @ CHR ''|'' # ''org'' @ CHR ''|'' # ''id.s'' @ CHR ''|'' # ''sha256:'' @ fp"
    by (simp add: raw_def)
  then have seg: "split_on (CHR ''|'') raw = [''QC1'', ''gw:0x1bb'', ''org'', ''id.s'', ''sha256:'' @ fp]"
    using split_on_no_sep [OF bar] by (simp add: split_on_append_sep)
  have graph: "list_all graphic raw" using fp(2) hex_graphic by (auto simp: raw_def list_all_iff graphic_def)
  have len: "byte_length raw = length raw" "length raw = 93" "raw \<noteq> []"
    using byte_length_ascii [OF graphic_ascii [OF graph]] fp(1) by (simp_all add: raw_def)
  have "cut_last (CHR '':'') ''gw:0x1bb'' = Some (''gw'', ''0x1bb'')" "cut_first (CHR ''.'') ''id.s'' = Some (''id'', ''s'')"
      "integer_literal ''0x1bb'' = Some 443" "parse_u16 ''0x1bb'' = None" "unbracket ''gw'' = ''gw''" "strip_brackets ''gw'' = ''gw''"
    by code_simp+
  then show ?thesis using fp graph
    by (simp add: validateEnrollToken_def agent_parse_def seg len)
qed

section \<open>Saving the settings\<close>

definition quartz_paths :: "string option \<Rightarrow> int option \<Rightarrow> string option \<Rightarrow> path set" where
  "quartz_paths gw port ca = leaf_paths (quartz_base @ [''gateway'']) gw \<union>
     leaf_paths (quartz_base @ [''port'']) (map_option string_of_int port) \<union>
     leaf_paths (quartz_base @ [''ca-certificate'']) ca"

lemma quartz_settings_edits:
  assumes dev: "device_laws dev single"
    and "\<forall>k\<in>{''gateway'', ''port'', ''ca-certificate''}. single (quartz_base @ [k])"
  shows "edits dev (\<Union>k\<in>{''gateway'', ''port'', ''ca-certificate''}. cone (quartz_base @ [k]))
    (saveQuartzCommandSettings_cmds live u) (quartz_paths (qc_gateway live) (qc_port live) (qc_ca live))
    (quartz_paths (blank_to_none (qc_gateway u)) (qc_port u) (blank_to_none (qc_ca u)))"
proof -
  let ?fs = "[Leaf [''gateway''] (qc_gateway live) (blank_to_none (qc_gateway u)),
        Leaf [''port''] (map_option string_of_int (qc_port live)) (map_option string_of_int (qc_port u)),
        Leaf [''ca-certificate''] (qc_ca live) (blank_to_none (qc_ca u))]"
  have "edits dev (form_region quartz_base ?fs) (form_cmds quartz_base ?fs) (form_live quartz_base ?fs) (form_desired quartz_base ?fs)"
    using assms(2) by (intro edits_form [OF dev]) (simp_all add: apart_fields_def)
  then show ?thesis
    by (simp add: form_region_def form_live_def form_desired_def quartz_paths_def saveQuartzCommandSettings_cmds_def Un_assoc)
qed

end
