(* ===== verification/Config_Sync.thy ===== *)
theory Config_Sync
  imports Forms Enroll_Token
begin

text \<open>
  Configuration synchronisation to a second device: \<open>lib/config-sync.ts\<close>, the reader and the diff of
  \<open>service config-sync\<close>. The reachability probe is a request.
\<close>

section \<open>Model and reader\<close>

definition SYNC_SECTIONS :: "string list" where
  "SYNC_SECTIONS = [''firewall'', ''interfaces'', ''nat'', ''nat66'', ''pki'', ''policy'', ''protocols'', ''qos'',
     ''service'', ''system'', ''vpn'', ''vrf'']"

record sync_section =
  sy_section :: string
  sy_subpath :: "string option"

record sync_secondary =
  sd_address :: "string option"
  sd_port :: "int option"
  sd_timeout :: "int option"
  sd_key :: "string option"
  sd_has_key :: bool

record sync_config =
  sc_mode :: "string option"
  sc_secondary :: sync_secondary
  sc_sections :: "sync_section list"

definition emptyConfig :: sync_config where
  "emptyConfig = \<lparr>sc_mode = None,
     sc_secondary = \<lparr>sd_address = None, sd_port = None, sd_timeout = None, sd_key = None, sd_has_key = False\<rparr>,
     sc_sections = []\<rparr>"

text \<open>\<open>childCfg\<close> of this module takes arrays for objects.\<close>

definition sync_childCfg :: "json \<Rightarrow> string \<Rightarrow> json option" where
  "sync_childCfg v key = (case js_get v key of
       Some (JObj kvs) \<Rightarrow> Some (JObj kvs) | Some (JArr xs) \<Rightarrow> Some (JArr xs) | _ \<Rightarrow> None)"

text \<open>\<open>Object.keys(x).sort()\<close>.\<close>

definition sorted_keys :: "json \<Rightarrow> string list" where
  "sorted_keys v = sort_by str_cmp (map fst (obj_entries v))"

definition section_rows :: "string \<times> json \<Rightarrow> sync_section list" where
  "section_rows e = (case e of (sec, raw) \<Rightarrow>
     let row = (\<lambda>sub. \<lparr>sy_section = sec, sy_subpath = sub\<rparr>) in
     (case raw of
        JObj kvs \<Rightarrow> if kvs = [] then [row None] else map (\<lambda>s. row (Some s)) (sorted_keys raw)
      | JArr xs \<Rightarrow> if xs = [] then [row None] else map (\<lambda>s. row (Some s)) (sorted_keys raw)
      | JStr s \<Rightarrow> if trim s \<noteq> [] then [row (Some (trim s))] else [row None]
      | _ \<Rightarrow> [row None]))"

definition or_blank_sub :: "string option \<Rightarrow> string" where
  "or_blank_sub s = (case s of None \<Rightarrow> [] | Some x \<Rightarrow> x)"

definition parseSections :: "(string \<Rightarrow> string \<Rightarrow> int) \<Rightarrow> json option \<Rightarrow> sync_section list" where
  "parseSections lc node = (case node of
       None \<Rightarrow> []
     | Some v \<Rightarrow> sort_by (\<lambda>a b. if lc (sy_section a) (sy_section b) \<noteq> 0 then lc (sy_section a) (sy_section b)
           else lc (or_blank_sub (sy_subpath a)) (or_blank_sub (sy_subpath b)))
         (concat (map section_rows (obj_entries v))))"

definition fetchConfigSync :: "(string \<Rightarrow> string \<Rightarrow> int) \<Rightarrow> vyos_response \<Rightarrow> read_error + sync_config" where
  "fetchConfigSync lc resp =
     (case config_of_response ''Device returned an error reading config-sync.'' resp of
        Inl e \<Rightarrow> Inl e
      | Inr cs \<Rightarrow> (let sec = obj_or_empty (sync_childCfg cs ''secondary'') in
          Inr \<lparr>sc_mode = childStr cs ''mode'',
            sc_secondary = \<lparr>sd_address = childStr sec ''address'', sd_port = childNum sec ''port'',
              sd_timeout = childNum sec ''timeout'', sd_key = None, sd_has_key = (childStr sec ''key'' \<noteq> None)\<rparr>,
            sc_sections = parseSections lc (sync_childCfg cs ''section'')\<rparr>))"

section \<open>Diff\<close>

definition sync_base :: path where
  "sync_base = [''service'', ''config-sync'']"

definition sectionKey :: "sync_section \<Rightarrow> string" where
  "sectionKey s = sy_section s @ [CHR 0x00] @ or_blank_sub (sy_subpath s)"

definition section_path :: "sync_section \<Rightarrow> path" where
  "section_path s = sync_base @ ''section'' # sy_section s #
     (case sy_subpath s of None \<Rightarrow> [] | Some p \<Rightarrow> if p = [] then [] else [p])"

definition trim_section :: "sync_section \<Rightarrow> sync_section" where
  "trim_section s = \<lparr>sy_section = trim (sy_section s), sy_subpath = blank_to_none (sy_subpath s)\<rparr>"

definition wanted_sections :: "sync_section list \<Rightarrow> (string \<times> sync_section) list" where
  "wanted_sections ss = js_map (map (\<lambda>s. (sectionKey (trim_section s), trim_section s))
     (filter (\<lambda>s. trim (sy_section s) \<noteq> []) ss))"

definition live_sections :: "sync_section list \<Rightarrow> (string \<times> sync_section) list" where
  "live_sections ss = js_map (map (\<lambda>s. (sectionKey s, s)) ss)"

definition section_cmds :: "(string \<times> sync_section) list \<Rightarrow> (string \<times> sync_section) list \<Rightarrow> vyos_command list" where
  "section_cmds live want =
     map (\<lambda>(k, s). cset (section_path s)) (filter (\<lambda>(k, s). map_of live k = None) want) @
     map (\<lambda>(k, s). cdel (section_path s)) (filter (\<lambda>(k, s). map_of want k = None) live)"

definition sync_fields :: "sync_config \<Rightarrow> sync_config \<Rightarrow> field list" where
  "sync_fields live u =
     [Leaf [''mode''] (sc_mode live) (blank_to_none (sc_mode u)),
      Leaf [''secondary'', ''address''] (sd_address (sc_secondary live)) (blank_to_none (sd_address (sc_secondary u))),
      Leaf [''secondary'', ''port''] (numStr (sd_port (sc_secondary live))) (numStr (sd_port (sc_secondary u))),
      Leaf [''secondary'', ''timeout''] (numStr (sd_timeout (sc_secondary live))) (numStr (sd_timeout (sc_secondary u)))]"

definition key_cmds :: "sync_config \<Rightarrow> vyos_command list" where
  "key_cmds u = (case blank_to_none (sd_key (sc_secondary u)) of
       None \<Rightarrow> [] | Some k \<Rightarrow> [cset (sync_base @ [''secondary'', ''key'', k])])"

definition diffConfigSync :: "sync_config \<Rightarrow> sync_config \<Rightarrow> vyos_command list" where
  "diffConfigSync live u =
     form_cmds sync_base (sync_fields live u) @ key_cmds u @
     section_cmds (live_sections (sc_sections live)) (wanted_sections (sc_sections u))"

section \<open>The sections on the device\<close>

text \<open>A row of the form, or of the reader: the name has no separator in it and a sub-section is not empty.\<close>

definition wf_section :: "sync_section \<Rightarrow> bool" where
  "wf_section s \<longleftrightarrow> CHR 0x00 \<notin> set (sy_section s) \<and> sy_subpath s \<noteq> Some []"

definition desired_sections :: "sync_config \<Rightarrow> sync_section set" where
  "desired_sections u = trim_section ` {s \<in> set (sc_sections u). trim (sy_section s) \<noteq> []}"

lemma sectionKey_inj:
  assumes "wf_section s" "wf_section t" "sectionKey s = sectionKey t"
  shows "s = t"
proof -
  have "sy_section s @ CHR 0x00 # or_blank_sub (sy_subpath s) = sy_section t @ CHR 0x00 # or_blank_sub (sy_subpath t)"
    using assms(3) by (simp add: sectionKey_def)
  then have "sy_section s = sy_section t \<and> or_blank_sub (sy_subpath s) = or_blank_sub (sy_subpath t)"
    using assms(1,2) span_sep [of "CHR 0x00" "sy_section s"] span_sep [of "CHR 0x00" "sy_section t"]
    unfolding wf_section_def by (metis list.inject)
  then show ?thesis
    using assms(1,2) by (cases s; cases t) (auto simp: or_blank_sub_def wf_section_def split: option.splits)
qed

lemma section_path_inj: "wf_section s \<Longrightarrow> wf_section t \<Longrightarrow> section_path s = section_path t \<longleftrightarrow> s = t"
  by (cases s; cases t) (auto simp: section_path_def wf_section_def split: option.splits)

definition sync_schema :: "(path \<Rightarrow> bool) \<Rightarrow> bool" where
  "sync_schema single \<longleftrightarrow> single (sync_base @ [''mode'']) \<and> \<not> single (sync_base @ [''section'']) \<and>
     (\<forall>k\<in>{''address'', ''port'', ''timeout'', ''key''}. single (sync_base @ [''secondary'', k])) \<and>
     (\<forall>s. \<not> single (sync_base @ [''section'', s]))"

definition section_base :: path where
  "section_base = sync_base @ [''section'']"

lemma section_path_in: "section_path s \<in> cone section_base"
  by (simp add: section_path_def section_base_def)

lemma section_path_multi: "sync_schema single \<Longrightarrow> \<not> single (butlast (section_path s))"
  by (cases "sy_subpath s") (auto simp: sync_schema_def section_path_def butlast_append)

lemma live_sections_rows:
  assumes "\<forall>s\<in>set L. wf_section s"
  shows "set (live_sections L) = (\<lambda>s. (sectionKey s, s)) ` set L"
    and "wf_section s \<Longrightarrow> map_of (live_sections L) (sectionKey s) = None \<longleftrightarrow> s \<notin> set L"
proof -
  have inj: "\<forall>x\<in>set L. \<forall>y\<in>set L. sectionKey x = sectionKey y \<longrightarrow> x = y" using assms sectionKey_inj by blast
  show "set (live_sections L) = (\<lambda>s. (sectionKey s, s)) ` set L"
    unfolding live_sections_def by (rule js_map_by_key(1) [OF inj])
  show "map_of (live_sections L) (sectionKey s) = None \<longleftrightarrow> s \<notin> set L" if "wf_section s"
    unfolding live_sections_def js_map_by_key(2) [OF inj] using assms that sectionKey_inj by blast
qed

lemma wanted_sections_live:
  "wanted_sections ss = live_sections (map trim_section (filter (\<lambda>s. trim (sy_section s) \<noteq> []) ss))"
  by (simp add: wanted_sections_def live_sections_def comp_def)

lemma run_section_cmds:
  assumes dev: "device_laws dev single" and sch: "sync_schema single"
    and L: "\<forall>s\<in>set L. wf_section s" and W: "\<forall>s\<in>set W. wf_section s"
  shows "run dev (section_cmds (live_sections L) (live_sections W)) S =
    (S \<union> section_path ` (set W - set L)) - (\<Union>s\<in>set L - set W. cone (section_path s))"
proof -
  let ?new = "filter (\<lambda>(k, s). map_of (live_sections L) k = None) (live_sections W)"
  let ?old = "filter (\<lambda>(k, s). map_of (live_sections W) k = None) (live_sections L)"
  have new: "snd ` set ?new = set W - set L"
    using W live_sections_rows(2) [OF L] by (force simp: live_sections_rows(1) [OF W])
  have old: "snd ` set ?old = set L - set W"
    using L live_sections_rows(2) [OF W] by (force simp: live_sections_rows(1) [OF L])
  have "run dev (map (\<lambda>e. cset (section_path (snd e))) ?new) S = S \<union> (section_path \<circ> snd) ` set ?new"
    using run_sets [OF dev, of ?new "section_path \<circ> snd"] section_path_multi [OF sch] by simp
  moreover have "run dev (map (\<lambda>e. cdel (section_path (snd e))) ?old) R = R - (\<Union>e\<in>set ?old. cone (section_path (snd e)))" for R
    using run_deletes [OF dev, of "section_path \<circ> snd" ?old] by simp
  moreover have "(\<Union>e\<in>set ?old. cone (section_path (snd e))) = (\<Union>s\<in>snd ` set ?old. cone (section_path s))" by simp
  ultimately show ?thesis
    unfolding section_cmds_def split_beta run_append new [symmetric] old [symmetric] by (simp add: image_comp)
qed

lemma section_prefix:
  assumes "wf_section s" "wf_section t" "s \<noteq> t"
  shows "prefix (section_path s) (section_path t) \<longleftrightarrow>
    (\<exists>sec sub. s = \<lparr>sy_section = sec, sy_subpath = None\<rparr> \<and> t = \<lparr>sy_section = sec, sy_subpath = Some sub\<rparr>)"
  using assms by (cases s; cases t) (auto simp: section_path_def wf_section_def split: option.splits)

lemma ex_related:
  "(\<And>s w. s \<in> A \<Longrightarrow> w \<in> B \<Longrightarrow> P s w \<longleftrightarrow> (\<exists>i j. s = f i \<and> w = g i j)) \<Longrightarrow>
   (\<exists>s\<in>A. \<exists>w\<in>B. P s w) \<longleftrightarrow> (\<exists>i j. f i \<in> A \<and> g i j \<in> B)"
  by blast

lemma image_minus_cones:
  "f ` A - (\<Union>s\<in>B. cone (g s)) = f ` A \<longleftrightarrow> \<not> (\<exists>s\<in>B. \<exists>w\<in>A. prefix (g s) (f w))"
proof -
  have "f ` A - (\<Union>s\<in>B. cone (g s)) = f ` A \<longleftrightarrow> (\<forall>w\<in>A. f w \<notin> (\<Union>s\<in>B. cone (g s)))" by blast
  then show ?thesis by simp blast
qed

text \<open>
  What a save of the synchronisation form does. The leaves become those of the form, a key is
  written only when one is entered, nothing outside of the feature changes, and the sections become
  those of the form exactly when no section that was synchronised as a whole is narrowed to a part:
  the sets are sent before the deletes, so deleting the whole section takes the new part with it.
\<close>

theorem config_sync_run:
  assumes dev: "device_laws dev single" and sch: "sync_schema single"
    and live: "\<forall>s\<in>set (sc_sections live). wf_section s" and want: "\<forall>s\<in>desired_sections u. wf_section s"
    and leaves: "S \<inter> form_region sync_base (sync_fields live u) = form_live sync_base (sync_fields live u)"
    and secs: "S \<inter> cone section_base = section_path ` set (sc_sections live)"
    and T: "T = run dev (diffConfigSync live u) S"
  shows "T \<inter> form_region sync_base (sync_fields live u) = form_desired sync_base (sync_fields live u) \<and>
    T \<inter> cone (sync_base @ [''secondary'', ''key'']) = (case blank_to_none (sd_key (sc_secondary u)) of
        None \<Rightarrow> S \<inter> cone (sync_base @ [''secondary'', ''key'']) | Some k \<Rightarrow> {sync_base @ [''secondary'', ''key'', k]}) \<and>
    T - cone sync_base = S - cone sync_base \<and>
    (T \<inter> cone section_base = section_path ` desired_sections u \<longleftrightarrow>
       \<not> (\<exists>sec sub. \<lparr>sy_section = sec, sy_subpath = None\<rparr> \<in> set (sc_sections live) - desired_sections u \<and>
            \<lparr>sy_section = sec, sy_subpath = Some sub\<rparr> \<in> desired_sections u))"
proof -
  let ?fs = "sync_fields live u" and ?kp = "sync_base @ [''secondary'', ''key'']"
  let ?L = "sc_sections live" and ?W = "map trim_section (filter (\<lambda>s. trim (sy_section s) \<noteq> []) (sc_sections u))"
  have W: "set ?W = desired_sections u" by (simp add: desired_sections_def)
  have ok: "\<forall>f\<in>set ?fs. field_schema single sync_base f" "apart_fields ?fs"
    using sch by (simp_all add: sync_fields_def sync_schema_def apart_fields_def)
  let ?T1 = "run dev (form_cmds sync_base ?fs) S" and ?FR = "form_region sync_base ?fs"
  have T1: "?T1 = (S - ?FR) \<union> form_desired sync_base ?fs"
    by (rule edits_run [OF edits_form [OF dev ok] leaves])
  have FD: "form_desired sync_base ?fs \<subseteq> ?FR" using edits_form [OF dev ok] by (simp add: edits_def)
  let ?T2 = "run dev (key_cmds u) ?T1"
  have single: "single ?kp" using sch by (simp add: sync_schema_def)
  have T2: "?T2 = (case blank_to_none (sd_key (sc_secondary u)) of None \<Rightarrow> ?T1 | Some k \<Rightarrow> ?T1 - cone ?kp \<union> {?kp @ [k]})"
    using dev_set_single [OF dev, of "?kp @ [k]" for k] single
    by (simp add: key_cmds_def butlast_append split: option.split)
  have T3: "T = (?T2 \<union> section_path ` (set ?W - set ?L)) - (\<Union>s\<in>set ?L - set ?W. cone (section_path s))"
    unfolding T diffConfigSync_def run_append wanted_sections_live
    using run_section_cmds [OF dev sch live] want W by simp
  have apart: "?FR \<inter> cone ?kp = {}" "?FR \<inter> cone section_base = {}" "cone ?kp \<inter> cone section_base = {}"
    by (simp_all add: form_region_def sync_fields_def section_base_def Int_Un_distrib2 cone_disjoint_iff)
  have below: "?FR \<subseteq> cone sync_base" "cone ?kp \<subseteq> cone sync_base" "cone section_base \<subseteq> cone sync_base"
    by (simp_all add: form_region_cone section_base_def cone_append_subset)
  have spaths: "section_path ` A \<subseteq> cone section_base" "(\<Union>s\<in>A. cone (section_path s)) \<subseteq> cone section_base" for A
    using section_path_in cone_mono [of section_base "section_path s" for s] by auto
  have kp: "?kp @ [k] \<in> cone ?kp" for k by simp
  have T2': "?T2 - cone ?kp = ?T1 - cone ?kp" "?T2 \<inter> cone ?kp = (case blank_to_none (sd_key (sc_secondary u)) of
      None \<Rightarrow> ?T1 \<inter> cone ?kp | Some k \<Rightarrow> {?kp @ [k]})"
    unfolding T2 by (auto split: option.split)
  have out: "T - cone section_base = ?T2 - cone section_base" using spaths T3 by blast
  have "T \<inter> ?FR = ?T1 \<inter> ?FR" using out T2'(1) apart by blast
  then have one: "T \<inter> ?FR = form_desired sync_base ?fs" using FD T1 by blast
  have "T \<inter> cone ?kp = ?T2 \<inter> cone ?kp" using out apart by blast
  moreover have "?T1 \<inter> cone ?kp = S \<inter> cone ?kp" using T1 FD apart by blast
  ultimately have two: "T \<inter> cone ?kp = (case blank_to_none (sd_key (sc_secondary u)) of
      None \<Rightarrow> S \<inter> cone ?kp | Some k \<Rightarrow> {?kp @ [k]})"
    using T2'(2) by (simp split: option.splits)
  have three: "T - cone sync_base = S - cone sync_base"
    using out T2'(1) T1 FD below by blast
  have old: "?T2 \<inter> cone section_base = section_path ` set ?L"
    using secs T2'(1) T1 FD apart by blast
  have "T \<inter> cone section_base = (?T2 \<inter> cone section_base \<union> section_path ` (set ?W - set ?L)) -
      (\<Union>s\<in>set ?L - set ?W. cone (section_path s))"
    using T3 spaths(1) [of "set ?W - set ?L"] by blast
  also have "\<dots> = section_path ` (set ?L \<union> set ?W) - (\<Union>s\<in>set ?L - set ?W. cone (section_path s))"
    unfolding old by auto
  also have "\<dots> = section_path ` set ?W - (\<Union>s\<in>set ?L - set ?W. cone (section_path s))"
    by auto
  finally have sec: "T \<inter> cone section_base = section_path ` set ?W - (\<Union>s\<in>set ?L - set ?W. cone (section_path s))" .
  have pre: "prefix (section_path s) (section_path w) \<longleftrightarrow> (\<exists>sec sub. s = \<lparr>sy_section = sec, sy_subpath = None\<rparr> \<and>
      w = \<lparr>sy_section = sec, sy_subpath = Some sub\<rparr>)" if "s \<in> set ?L - set ?W" "w \<in> set ?W" for s w
    using that live want W by (intro section_prefix) auto
  have "T \<inter> cone section_base = section_path ` set ?W \<longleftrightarrow>
      \<not> (\<exists>s\<in>set ?L - set ?W. \<exists>w\<in>set ?W. prefix (section_path s) (section_path w))"
    unfolding sec by (rule image_minus_cones)
  also have "\<dots> \<longleftrightarrow> \<not> (\<exists>sec sub. \<lparr>sy_section = sec, sy_subpath = None\<rparr> \<in> set ?L - set ?W \<and>
            \<lparr>sy_section = sec, sy_subpath = Some sub\<rparr> \<in> set ?W)"
    by (subst ex_related [OF pre]) (simp_all only:)
  finally show ?thesis using one two three W by (simp only: append_assoc append_Cons append_Nil)
qed

definition sync_single :: "path \<Rightarrow> bool" where
  "sync_single p \<longleftrightarrow> p \<in> {sync_base @ [''mode''], sync_base @ [''secondary'', ''address''], sync_base @ [''secondary'', ''port''],
     sync_base @ [''secondary'', ''timeout''], sync_base @ [''secondary'', ''key'']}"

lemma sync_single_schema: "sync_schema sync_single"
  by (simp add: sync_schema_def sync_single_def)

definition whole_protocols :: sync_config where
  "whole_protocols = emptyConfig\<lparr>sc_sections := [\<lparr>sy_section = ''protocols'', sy_subpath = None\<rparr>]\<rparr>"

definition only_ospf :: sync_config where
  "only_ospf = emptyConfig\<lparr>sc_sections := [\<lparr>sy_section = ''protocols'', sy_subpath = Some ''ospf''\<rparr>]\<rparr>"

lemma config_sync_run_witness:
  "\<exists>S T. S \<inter> cone section_base = section_path ` set (sc_sections whole_protocols) \<and>
     T = run (ref_dev sync_single) (diffConfigSync whole_protocols only_ospf) S \<and>
     T \<inter> cone section_base \<noteq> section_path ` desired_sections only_ospf"
proof -
  let ?S = "{sync_base @ [''section'', ''protocols'']}"
  have t: "trim ''protocols'' = ''protocols''" "trim ''ospf'' = ''ospf''" by (simp_all add: trim_def js_space_def)
  have W: "desired_sections only_ospf = {\<lparr>sy_section = ''protocols'', sy_subpath = Some ''ospf''\<rparr>}"
    by (auto simp: desired_sections_def only_ospf_def trim_section_def t blank_to_none_def intro!: image_eqI)
  have L: "set (sc_sections whole_protocols) = {\<lparr>sy_section = ''protocols'', sy_subpath = None\<rparr>}"
    by (simp add: whole_protocols_def)
  have wf: "\<forall>s\<in>set (sc_sections whole_protocols). wf_section s" "\<forall>s\<in>desired_sections only_ospf. wf_section s"
    by (simp_all add: W L wf_section_def)
  have leaves: "?S \<inter> form_region sync_base (sync_fields whole_protocols only_ospf) =
      form_live sync_base (sync_fields whole_protocols only_ospf)"
    by (simp add: sync_fields_def form_region_def form_live_def whole_protocols_def emptyConfig_def numStr_def)
  have secs: "?S \<inter> cone section_base = section_path ` set (sc_sections whole_protocols)"
    by (simp add: L section_path_def section_base_def)
  let ?T = "run (ref_dev sync_single) (diffConfigSync whole_protocols only_ospf) ?S"
  have iff: "?T \<inter> cone section_base = section_path ` desired_sections only_ospf \<longleftrightarrow>
       \<not> (\<exists>sec sub. \<lparr>sy_section = sec, sy_subpath = None\<rparr> \<in> set (sc_sections whole_protocols) - desired_sections only_ospf \<and>
            \<lparr>sy_section = sec, sy_subpath = Some sub\<rparr> \<in> desired_sections only_ospf)"
    using config_sync_run [OF ref_dev_laws sync_single_schema wf leaves secs refl] by (elim conjE)
  have "\<exists>sec sub. \<lparr>sy_section = sec, sy_subpath = None\<rparr> \<in> set (sc_sections whole_protocols) - desired_sections only_ospf \<and>
            \<lparr>sy_section = sec, sy_subpath = Some sub\<rparr> \<in> desired_sections only_ospf"
    unfolding W L by (intro exI [of _ "''protocols''"] exI [of _ "''ospf''"]) simp
  then have "?T \<inter> cone section_base \<noteq> section_path ` desired_sections only_ospf" using iff by simp
  with secs show ?thesis by blast
qed

end
