(* ===== verification/Op_Tables.thy ===== *)
theory Op_Tables
  imports Vyos_Config
begin

text \<open>
  Operational output. The status pages run \<open>show\<close> commands and read their text: the tables and the
  WireGuard blocks of \<open>lib/vpn-status.ts\<close>, the interface counters and the version of \<open>lib/vyos.ts\<close>.
\<close>

section \<open>Running a command\<close>

definition runShow :: "bool \<Rightarrow> string option \<Rightarrow> string option \<Rightarrow> read_error + string" where
  "runShow success data err =
     (if success then Inr (case data of None \<Rightarrow> [] | Some t \<Rightarrow> t)
      else Inl (DeviceError (case err of None \<Rightarrow> ''Device returned an error running the command.''
        | Some e \<Rightarrow> if e = [] then ''Device returned an error running the command.'' else e)))"

definition runShowSafe :: "bool \<Rightarrow> string option \<Rightarrow> string option \<Rightarrow> string option" where
  "runShowSafe success data err = (case runShow success data err of
       Inl _ \<Rightarrow> None | Inr text \<Rightarrow> if trim text = [] then None else Some text)"

text \<open>\<open>text.replace(/\\r/g, "").split("\\n")\<close>.\<close>

definition newline :: char where
  "newline = char_of (10 :: nat)"

definition text_lines :: "string \<Rightarrow> string list" where
  "text_lines text = split_on newline (filter (\<lambda>c. (of_char c :: nat) \<noteq> 13) text)"

section \<open>Tables of fixed width\<close>

record op_table =
  ot_headers :: "string list"
  ot_rows :: "string list list"

definition includes_ci :: "string \<Rightarrow> string \<Rightarrow> bool" where
  "includes_ci l k \<longleftrightarrow> sublist (map lower_char k) (map lower_char l)"

definition col_starts :: "string \<Rightarrow> nat list" where
  "col_starts header = filter (\<lambda>i. header ! i \<noteq> CHR '' '' \<and>
     (i = 0 \<or> (header ! (i - 1) = CHR '' '' \<and> (i < 2 \<or> header ! (i - 2) = CHR '' '')))) [0..<length header]"

definition table_cell :: "nat list \<Rightarrow> string \<Rightarrow> nat \<Rightarrow> string" where
  "table_cell starts line k =
     (let from = starts ! k; upto = (if k + 1 < length starts then starts ! (k + 1) else length line)
      in trim (take (upto - from) (drop from line)))"

definition table_cells :: "nat list \<Rightarrow> string \<Rightarrow> string list" where
  "table_cells starts line = map (table_cell starts line) [0..<length starts]"

definition rule_line :: "string \<Rightarrow> bool" where
  "rule_line line \<longleftrightarrow> line \<noteq> [] \<and> list_all (\<lambda>c. js_space c \<or> c \<in> set ''-=_+|'') line"

definition is_header :: "string \<Rightarrow> string \<Rightarrow> bool" where
  "is_header keyword l \<longleftrightarrow> trim l \<noteq> [] \<and> includes_ci l keyword"

definition parseFixedTable :: "string \<Rightarrow> string \<Rightarrow> op_table" where
  "parseFixedTable text headerKeyword =
     (case dropWhile (\<lambda>l. \<not> is_header headerKeyword l) (text_lines text) of
        [] \<Rightarrow> \<lparr>ot_headers = [], ot_rows = []\<rparr>
      | header # rest \<Rightarrow>
         (let starts = col_starts header in
          if starts = [] then \<lparr>ot_headers = [], ot_rows = []\<rparr>
          else \<lparr>ot_headers = table_cells starts header,
            ot_rows = map (table_cells starts) (filter (\<lambda>l. trim l \<noteq> [] \<and> \<not> rule_line l) rest)\<rparr>))"

fun index_where :: "('a \<Rightarrow> bool) \<Rightarrow> 'a list \<Rightarrow> nat option" where
  "index_where p [] = None"
| "index_where p (x # xs) = (if p x then Some 0 else map_option Suc (index_where p xs))"

fun colIndex :: "op_table \<Rightarrow> string list \<Rightarrow> int" where
  "colIndex t [] = -1"
| "colIndex t (c # cs) = (case index_where (\<lambda>h. includes_ci h c) (ot_headers t) of
     Some i \<Rightarrow> int i | None \<Rightarrow> colIndex t cs)"

section \<open>WireGuard blocks\<close>

record wg_peer_status =
  wp_name :: string
  wp_public_key :: "string option"
  wp_endpoint :: "string option"
  wp_allowed_ips :: "string option"
  wp_latest_handshake :: "string option"
  wp_transfer :: "string option"
  wp_status :: "string option"
  wp_keepalive :: "string option"

record wg_interface_status =
  wi_name :: string
  wi_public_key :: "string option"
  wi_listening_port :: "string option"
  wi_address :: "string option"
  wi_peers :: "wg_peer_status list"

definition key_value :: "string \<Rightarrow> (string \<times> string) option" where
  "key_value line = (if CHR '':'' \<in> set line
     then Some (map lower_char (trim (takeWhile (\<lambda>c. c \<noteq> CHR '':'') line)),
       trim (tl (dropWhile (\<lambda>c. c \<noteq> CHR '':'') line)))
     else None)"

definition new_peer :: "string \<Rightarrow> wg_peer_status" where
  "new_peer n = \<lparr>wp_name = n, wp_public_key = None, wp_endpoint = None, wp_allowed_ips = None,
     wp_latest_handshake = None, wp_transfer = None, wp_status = None, wp_keepalive = None\<rparr>"

definition new_iface :: "string \<Rightarrow> wg_interface_status" where
  "new_iface n = \<lparr>wi_name = n, wi_public_key = None, wi_listening_port = None, wi_address = None, wi_peers = []\<rparr>"

definition set_peer_field :: "string \<Rightarrow> string option \<Rightarrow> wg_peer_status \<Rightarrow> wg_peer_status" where
  "set_peer_field key v p =
     (if key = ''public key'' then p\<lparr>wp_public_key := v\<rparr>
      else if key = ''endpoint'' then p\<lparr>wp_endpoint := v\<rparr>
      else if key = ''allowed ips'' then p\<lparr>wp_allowed_ips := v\<rparr>
      else if key = ''latest handshake'' then p\<lparr>wp_latest_handshake := v\<rparr>
      else if key = ''transfer'' then p\<lparr>wp_transfer := v\<rparr>
      else if key = ''status'' then p\<lparr>wp_status := v\<rparr>
      else if key = ''persistent keepalive'' then p\<lparr>wp_keepalive := v\<rparr>
      else p)"

definition set_iface_field :: "string \<Rightarrow> string option \<Rightarrow> wg_interface_status \<Rightarrow> wg_interface_status" where
  "set_iface_field key v i =
     (if key = ''public key'' then i\<lparr>wi_public_key := v\<rparr>
      else if key = ''listening port'' then i\<lparr>wi_listening_port := v\<rparr>
      else if key = ''address'' then i\<lparr>wi_address := v\<rparr>
      else i)"

definition map_last :: "('a \<Rightarrow> 'a) \<Rightarrow> 'a list \<Rightarrow> 'a list" where
  "map_last f xs = (if xs = [] then [] else butlast xs @ [f (last xs)])"

text \<open>
  The state of the loop: the interfaces so far, of which the last one is open, and whether its last
  peer is open.
\<close>

definition wg_line :: "wg_interface_status list \<times> bool \<Rightarrow> string \<Rightarrow> wg_interface_status list \<times> bool" where
  "wg_line st line = (case st of (out, in_peer) \<Rightarrow>
     (if trim line = [] then st
      else (case key_value line of
          None \<Rightarrow> st
        | Some (key, v) \<Rightarrow>
          (if key = ''interface'' then (out @ [new_iface v], False)
           else if key = ''peer'' then
             (if out = [] then st
              else (map_last (\<lambda>i. i\<lparr>wi_peers := wi_peers i @ [new_peer v]\<rparr>) out, True))
           else let val = (if v = [] then None else Some v) in
             (if in_peer then (map_last (\<lambda>i. i\<lparr>wi_peers := map_last (set_peer_field key val) (wi_peers i)\<rparr>) out, in_peer)
              else (map_last (set_iface_field key val) out, in_peer))))))"

definition parseWireguardStatus :: "string \<Rightarrow> wg_interface_status list" where
  "parseWireguardStatus text = fst (foldl wg_line ([], False) (text_lines text))"

section \<open>Counters and version\<close>

record interface_stat =
  is_name :: string
  is_rx_bytes :: int
  is_rx_packets :: int
  is_tx_bytes :: int
  is_tx_packets :: int

definition counter_row :: "string \<Rightarrow> interface_stat option" where
  "counter_row line =
     (let cols = words_of (trim line);
          num = (\<lambda>k. js_number (filter (\<lambda>c. c \<noteq> CHR '','') (cols ! k)))
      in if length cols < 5 then None
         else (case (num 1, num 2, num 3, num 4) of
             (Some rp, Some rb, Some tp, Some tb) \<Rightarrow>
               Some \<lparr>is_name = cols ! 0, is_rx_bytes = rb, is_rx_packets = rp, is_tx_bytes = tb, is_tx_packets = tp\<rparr>
           | _ \<Rightarrow> None))"

fun first_rows :: "string list \<Rightarrow> interface_stat list \<Rightarrow> interface_stat list" where
  "first_rows seen [] = []"
| "first_rows seen (r # rs) =
     (if is_name r \<in> set seen then first_rows seen rs else r # first_rows (is_name r # seen) rs)"

definition parseInterfaceCounters :: "string \<Rightarrow> interface_stat list" where
  "parseInterfaceCounters text = first_rows [] (List.map_filter counter_row (split_on newline text))"

record version_info =
  vi_version :: "string option"
  vi_release_train :: "string option"
  vi_built_on :: "string option"
  vi_hardware_vendor :: "string option"
  vi_hardware_model :: "string option"

definition version_pairs :: "string option \<Rightarrow> (string \<times> string) list" where
  "version_pairs text = js_map (filter (\<lambda>(k, v). k \<noteq> [] \<and> v \<noteq> [])
     (List.map_filter key_value (case text of None \<Rightarrow> [] | Some t \<Rightarrow> split_on newline t)))"

text \<open>\<open>v.replace(/^vyos\\s+/i, "").trim()\<close>.\<close>

definition strip_product :: "string \<Rightarrow> string" where
  "strip_product v =
     (let r = drop 4 v in
      trim (if map lower_char (take 4 v) = ''vyos'' \<and> r \<noteq> [] \<and> js_space (hd r) then dropWhile js_space r else v))"

definition parseVersion :: "string option \<Rightarrow> version_info" where
  "parseVersion text = (let m = map_of (version_pairs text) in
     \<lparr>vi_version = map_option strip_product (m ''version''), vi_release_train = m ''release train'',
       vi_built_on = m ''built on'', vi_hardware_vendor = m ''hardware vendor'', vi_hardware_model = m ''hardware model''\<rparr>)"

section \<open>A printed table reads back\<close>

text \<open>
  How the commands print a table: every column is as wide as its widest cell, the columns are two
  spaces apart.
\<close>

definition pad :: "nat \<Rightarrow> string \<Rightarrow> string" where
  "pad w s = s @ replicate (w - length s) CHR '' ''"

fun print_row :: "(nat \<times> string) list \<Rightarrow> string" where
  "print_row [] = []"
| "print_row [(w, c)] = pad w c"
| "print_row ((w, c) # cs) = pad w c @ ''  '' @ print_row cs"

fun offsets :: "nat list \<Rightarrow> nat list" where
  "offsets [] = []"
| "offsets (w # ws) = 0 # map ((+) (w + 2)) (offsets ws)"

text \<open>A header is not empty, begins and ends with text and has only single spaces inside.\<close>

definition header_cell :: "string \<Rightarrow> bool" where
  "header_cell h \<longleftrightarrow> h \<noteq> [] \<and> trimmed_string h \<and> \<not> sublist ''  '' h"

lemma length_pad [simp]: "length s \<le> w \<Longrightarrow> length (pad w s) = w"
  by (simp add: pad_def)

lemma length_offsets [simp]: "length (offsets ws) = length ws"
  by (induction ws) simp_all

definition starts_at :: "string \<Rightarrow> nat \<Rightarrow> bool" where
  "starts_at s i \<longleftrightarrow> s ! i \<noteq> CHR '' '' \<and> (i = 0 \<or> (s ! (i - 1) = CHR '' '' \<and> (i < 2 \<or> s ! (i - 2) = CHR '' '')))"

lemma col_starts_filter: "col_starts s = filter (starts_at s) [0..<length s]"
  unfolding col_starts_def by (rule filter_cong) (simp_all only: starts_at_def)

lemma starts_at_shift:
  assumes "length a = n + 2" and "a ! n = CHR '' ''" and "a ! (n + 1) = CHR '' ''" and "i < length b"
  shows "starts_at (a @ b) (length a + i) \<longleftrightarrow> starts_at b i"
proof -
  consider "i = 0" | "i = 1" | "2 \<le> i" by linarith
  then show ?thesis
  proof cases
    case 1
    then show ?thesis using assms by (simp add: starts_at_def nth_append)
  next
    case 2
    then show ?thesis using assms by (simp add: starts_at_def nth_append)
  next
    case 3
    then have i: "length a + i - 1 = length a + (i - 1)" "length a + i - 2 = length a + (i - 2)" by simp_all
    show ?thesis using 3 unfolding starts_at_def i nth_append_length_plus by simp
  qed
qed

lemma starts_at_prefix: "i < length a \<Longrightarrow> starts_at (a @ b) i \<longleftrightarrow> starts_at a i"
  by (auto simp: starts_at_def nth_append)

lemma col_starts_append:
  assumes "length a = n + 2" and "a ! n = CHR '' ''" and "a ! (n + 1) = CHR '' ''"
  shows "col_starts (a @ b) = col_starts a @ map ((+) (length a)) (col_starts b)"
proof -
  have plus: "(\<lambda>i. i + length a) = (+) (length a)" by (simp add: fun_eq_iff)
  have "[0..<length (a @ b)] = [0..<length a] @ map ((+) (length a)) [0..<length b]"
    using upt_add_eq_append [of 0 "length a" "length b"] map_add_upt [of "length a" "length b"]
    by (simp add: plus add.commute [of "length b"])
  moreover have "filter (starts_at (a @ b)) [0..<length a] = filter (starts_at a) [0..<length a]"
    by (rule filter_cong) (simp_all add: starts_at_prefix)
  moreover have "filter (starts_at (a @ b)) (map ((+) (length a)) [0..<length b]) =
      map ((+) (length a)) (filter (starts_at b) [0..<length b])"
    unfolding filter_map comp_def
    by (intro arg_cong [where f = "map ((+) (length a))"] filter_cong) (simp_all add: starts_at_shift [OF assms])
  ultimately show ?thesis by (simp add: col_starts_filter)
qed

lemma header_starts:
  assumes "header_cell h"
  shows "col_starts (h @ replicate k CHR '' '') = [0]"
proof -
  have h: "h \<noteq> []" "h ! 0 \<noteq> CHR '' ''"
    using assms by (auto simp: header_cell_def trimmed_string_def js_space_def hd_conv_nth)
  have "\<not> starts_at (h @ replicate k CHR '' '') i" if "0 < i" "i < length h + k" for i
  proof (cases "i < length h")
    case True
    show ?thesis
    proof
      assume "starts_at (h @ replicate k CHR '' '') i"
      then have s: "starts_at h i" by (simp add: starts_at_prefix True)
      then have sp: "h ! (i - 1) = CHR '' ''" "i < 2 \<or> h ! (i - 2) = CHR '' ''" using that(1) by (simp_all add: starts_at_def)
      have "2 \<le> i"
      proof (rule ccontr)
        assume "\<not> 2 \<le> i"
        then have "i = 1" using that(1) by simp
        then show False using sp(1) h(2) by simp
      qed
      then obtain j where j: "i = Suc (Suc j)" by (metis add_2_eq_Suc le_Suc_ex)
      then have "h = take j h @ h ! j # h ! Suc j # drop (Suc (Suc j)) h"
        using True by (simp add: Cons_nth_drop_Suc)
      then have "h = take j h @ ''  '' @ drop (Suc (Suc j)) h" using sp j by simp
      then show False using assms by (metis header_cell_def sublist_appendI)
    qed
  next
    case False
    then show ?thesis using that by (simp add: starts_at_def nth_append)
  qed
  moreover have "starts_at (h @ replicate k CHR '' '') 0" using h by (simp add: starts_at_def nth_append)
  moreover have "[0..<length h + k] = 0 # [1..<length h + k]" using h(1) by (simp add: upt_conv_Cons)
  ultimately have "filter (starts_at (h @ replicate k CHR '' '')) [0..<length h + k] = [0]"
    by (simp add: filter_empty_conv)
  then show ?thesis by (simp add: col_starts_filter)
qed

lemma col_starts_print:
  assumes "\<forall>(w, h)\<in>set cs. header_cell h \<and> length h \<le> w"
  shows "col_starts (print_row cs) = offsets (map fst cs)"
  using assms
proof (induction cs rule: print_row.induct)
  case 1
  then show ?case by (simp add: col_starts_def)
next
  case (2 w c)
  then show ?case using header_starts by (simp add: pad_def)
next
  case (3 w c x cs)
  let ?a = "pad w c @ ''  ''"
  have w: "header_cell c" "length c \<le> w" using "3.prems" by simp_all
  have "?a = c @ replicate (w - length c + 2) CHR '' ''" by (simp add: pad_def replicate_app_Cons_same)
  then have "col_starts ?a = [0]" using header_starts [OF w(1)] by metis
  moreover have "length ?a = w + 2" "?a ! w = CHR '' ''" "?a ! (w + 1) = CHR '' ''"
    using w(2) by (simp_all add: nth_append)
  moreover have "col_starts (print_row (x # cs)) = offsets (map fst (x # cs))" using "3" by simp
  ultimately have "col_starts (?a @ print_row (x # cs)) = 0 # map ((+) (w + 2)) (offsets (map fst (x # cs)))"
    using col_starts_append [of ?a w] by simp
  then show ?case by simp
qed

fun cut_cells :: "nat list \<Rightarrow> string \<Rightarrow> string list" where
  "cut_cells [] line = []"
| "cut_cells [a] line = [trim (drop a line)]"
| "cut_cells (a # b # bs) line = trim (take (b - a) (drop a line)) # cut_cells (b # bs) line"

lemma table_cells_cut: "table_cells starts line = cut_cells starts line"
proof (induction starts line rule: cut_cells.induct)
  case (3 a b bs line)
  have "[0..<length (a # b # bs)] = 0 # map Suc [0..<length (b # bs)]"
    by (simp add: upt_conv_Cons map_Suc_upt del: upt_Suc)
  then have "table_cells (a # b # bs) line =
      table_cell (a # b # bs) line 0 # map (table_cell (a # b # bs) line \<circ> Suc) [0..<length (b # bs)]"
    by (simp add: table_cells_def del: upt_Suc)
  moreover have "table_cell (a # b # bs) line \<circ> Suc = table_cell (b # bs) line"
    by (simp add: fun_eq_iff table_cell_def Let_def)
  moreover have "table_cell (a # b # bs) line 0 = trim (take (b - a) (drop a line))"
    by (simp add: table_cell_def)
  ultimately show ?case using 3 by (simp add: table_cells_def del: upt_Suc)
qed (simp_all add: table_cells_def table_cell_def)

lemma cut_cells_shift: "cut_cells (map ((+) (length a)) ss) (a @ line) = cut_cells ss line"
  by (induction ss line rule: cut_cells.induct) simp_all

lemma trim_pad: "trimmed_string c \<Longrightarrow> trim (c @ replicate k CHR '' '') = c"
proof -
  assume c: "trimmed_string c"
  have sp: "js_space CHR '' ''" by (simp add: js_space_def)
  have blank: "dropWhile js_space (replicate k CHR '' '' @ xs) = dropWhile js_space xs" for xs
    using sp by (induction k) simp_all
  show ?thesis
  proof (cases c)
    case Nil
    then show ?thesis using blank [of "[]"] by (simp add: trim_def)
  next
    case (Cons x xs)
    then have "dropWhile js_space (c @ replicate k CHR '' '') = c @ replicate k CHR '' ''"
      using c by (simp add: trimmed_string_def)
    moreover have "dropWhile js_space (rev c) = rev c"
      using c by (intro dropWhile_idle) (auto simp: trimmed_string_def hd_rev)
    ultimately show ?thesis by (simp add: trim_def blank)
  qed
qed

lemma cut_cells_print:
  assumes "\<forall>(w, c)\<in>set cs. trimmed_string c \<and> length c \<le> w"
  shows "cut_cells (offsets (map fst cs)) (print_row cs) = map snd cs"
  using assms
proof (induction cs rule: print_row.induct)
  case (2 w c)
  then show ?case by (simp add: pad_def trim_pad)
next
  case (3 w c x cs)
  obtain v d where x: "x = (v, d)" by (cases x)
  let ?a = "pad w c @ ''  ''" and ?rest = "print_row (x # cs)"
  have w: "trimmed_string c" "length c \<le> w" using "3.prems" by simp_all
  have a: "length ?a = w + 2" "?a = c @ replicate (w - length c + 2) CHR '' ''"
    using w(2) by (simp_all add: pad_def replicate_app_Cons_same)
  have shift: "cut_cells (map ((+) (w + 2)) (offsets (map fst (x # cs)))) (?a @ ?rest) = map snd (x # cs)"
    using cut_cells_shift [of ?a "offsets (map fst (x # cs))" ?rest] a(1) "3.IH" "3.prems" by simp
  have "take (w + 2) (?a @ ?rest) = ?a" using a(1) by (metis append_eq_conv_conj)
  then have "trim (take (w + 2) (?a @ ?rest)) = c" using a(2) trim_pad [OF w(1)] by metis
  moreover have "offsets (map fst ((w, c) # x # cs)) = 0 # (w + 2) # map ((+) (w + 2)) (map ((+) (v + 2)) (offsets (map fst cs)))"
    by (simp add: x)
  ultimately show ?case using shift by (simp add: x)
qed simp

definition print_line :: "nat list \<Rightarrow> string list \<Rightarrow> string" where
  "print_line ws cells = print_row (zip ws cells)"

text \<open>A cell of a row is trimmed, in one line and not wider than its column.\<close>

definition cells_fit :: "nat list \<Rightarrow> string list \<Rightarrow> bool" where
  "cells_fit ws cells \<longleftrightarrow> length cells = length ws \<and>
     (\<forall>(w, c)\<in>set (zip ws cells). trimmed_string c \<and> length c \<le> w \<and> (\<forall>x\<in>set c. x \<noteq> newline \<and> (of_char x :: nat) \<noteq> 13))"

fun join_lines :: "string list \<Rightarrow> string" where
  "join_lines [] = []"
| "join_lines [l] = l"
| "join_lines (l # m # ls) = l @ newline # join_lines (m # ls)"

definition one_line :: "string \<Rightarrow> bool" where
  "one_line l \<longleftrightarrow> (\<forall>c\<in>set l. c \<noteq> newline \<and> (of_char c :: nat) \<noteq> 13)"

lemma split_join_lines:
  assumes "ls \<noteq> []" and "\<forall>l\<in>set ls. newline \<notin> set l"
  shows "split_on newline (join_lines ls) = ls"
  using assms
proof (induction ls rule: join_lines.induct)
  case (3 l m ls)
  then show ?case using split_on_append_sep by simp
qed (auto simp: split_on_no_sep)

lemma text_lines_join:
  assumes "ls \<noteq> []" and "\<forall>l\<in>set ls. one_line l"
  shows "text_lines (join_lines ls) = ls"
proof -
  have "filter (\<lambda>c. (of_char c :: nat) \<noteq> 13) (join_lines ls) = join_lines ls"
    using assms by (induction ls rule: join_lines.induct) (auto simp: one_line_def newline_def filter_id_conv)
  moreover have "split_on newline (join_lines ls) = ls"
    using assms by (intro split_join_lines) (auto simp: one_line_def)
  ultimately show ?thesis by (simp add: text_lines_def)
qed

lemma trim_eq_Nil: "trim s = [] \<longleftrightarrow> (\<forall>c\<in>set s. js_space c)"
proof -
  have "trim s = [] \<longleftrightarrow> dropWhile js_space s = []"
  proof
    assume "trim s = []"
    then have all: "\<forall>c\<in>set (dropWhile js_space s). js_space c"
      by (auto simp: trim_def dropWhile_eq_Nil_conv dest: set_dropWhileD)
    show "dropWhile js_space s = []"
    proof (rule ccontr)
      assume ne: "dropWhile js_space s \<noteq> []"
      then show False using hd_dropWhile [OF ne] all by (metis hd_in_set)
    qed
  next
    assume "dropWhile js_space s = []"
    then show "trim s = []" by (simp only: trim_def rev.simps dropWhile.simps)
  qed
  then show ?thesis by (simp only: dropWhile_eq_Nil_conv)
qed

lemma print_row_sublist: "c \<in> snd ` set cs \<Longrightarrow> sublist c (print_row cs)"
proof (induction cs rule: print_row.induct)
  case (2 w d)
  then show ?case by (auto simp: pad_def)
next
  case (3 w d x cs)
  show ?case
  proof (cases "c = d")
    case True
    then show ?thesis by (simp add: pad_def)
  next
    case False
    then have "sublist c (print_row (x # cs))" using 3 by auto
    then show ?thesis by (simp add: sublist_append sublist_Cons_right)
  qed
qed simp

lemma newline_blank: "CHR '' '' \<noteq> newline" "newline \<noteq> CHR '' ''"
proof -
  have "of_char newline = (10 :: nat)" "of_char (CHR '' '') = (32 :: nat)" by (simp_all add: newline_def)
  then show "CHR '' '' \<noteq> newline" "newline \<noteq> CHR '' ''" by (metis numeral_eq_iff semiring_norm(84) verit_eq_simplify(10) num.simps)+
qed

lemma print_row_one_line:
  "\<forall>(w, c)\<in>set cs. one_line c \<Longrightarrow> one_line (print_row cs)"
  by (induction cs rule: print_row.induct) (auto simp: one_line_def pad_def newline_blank)

lemma table_cells_print:
  assumes "length cells = length ws" and "\<forall>(w, c)\<in>set (zip ws cells). trimmed_string c \<and> length c \<le> w"
  shows "table_cells (offsets ws) (print_line ws cells) = cells"
  using cut_cells_print [OF assms(2)] assms(1) by (simp add: table_cells_cut print_line_def)

text \<open>A row has a cell with a character that no separator line has.\<close>

definition telling :: "string list \<Rightarrow> bool" where
  "telling cells \<longleftrightarrow> (\<exists>c\<in>set cells. \<exists>x\<in>set c. \<not> js_space x \<and> x \<notin> set ''-=_+|'')"

lemma telling_line:
  assumes "telling cells" and "length cells = length ws"
  shows "trim (print_line ws cells) \<noteq> [] \<and> \<not> rule_line (print_line ws cells)"
proof -
  obtain c x where c: "c \<in> set cells" "x \<in> set c" "\<not> js_space x" "x \<notin> set ''-=_+|''"
    using assms(1) by (auto simp: telling_def)
  then have "c \<in> snd ` set (zip ws cells)" using assms(2) by (metis list.set_map map_snd_zip)
  then have "x \<in> set (print_line ws cells)"
    using print_row_sublist c(2) unfolding print_line_def by (metis set_mono_sublist subsetD)
  then show ?thesis using c(3,4) by (auto simp: trim_eq_Nil rule_line_def list_all_iff)
qed

text \<open>
  C30: a table is read back as it was printed. Given the lines that a command prints, a title, the
  header line, a separator line and the rows, each column padded to its width, the parser returns the
  headers and the cells of every row; cells may be empty and headers may contain single spaces.
\<close>

theorem parse_printed_table:
  assumes cells_fit: "cells_fit ws (ot_headers t)" "\<forall>r\<in>set (ot_rows t). cells_fit ws r \<and> telling r"
    and headers: "ot_headers t \<noteq> []" "\<forall>h\<in>set (ot_headers t). header_cell h"
    and title: "\<forall>l\<in>set title. one_line l \<and> \<not> is_header keyword l"
    and keyword: "\<exists>h\<in>set (ot_headers t). includes_ci h keyword"
    and sep: "rule_line sep" "one_line sep"
  shows "parseFixedTable (join_lines (title @ print_line ws (ot_headers t) # sep # map (print_line ws) (ot_rows t))) keyword = t"
proof -
  let ?header = "print_line ws (ot_headers t)" and ?rows = "map (print_line ws) (ot_rows t)"
  have cells: "length cells = length ws" "\<forall>(w, c)\<in>set (zip ws cells). trimmed_string c \<and> length c \<le> w" "one_line (print_line ws cells)"
    if "cells_fit ws cells" for cells
    using that print_row_one_line [of "zip ws cells"] by (auto simp: cells_fit_def print_line_def one_line_def split_beta)
  have "\<forall>l\<in>set (title @ ?header # sep # ?rows). one_line l"
    using title sep(2) cells_fit cells(3) by auto
  then have lines: "text_lines (join_lines (title @ ?header # sep # ?rows)) = title @ ?header # sep # ?rows"
    by (intro text_lines_join) simp_all
  obtain h where h: "h \<in> set (ot_headers t)" "includes_ci h keyword" using keyword by blast
  have "h \<in> snd ` set (zip ws (ot_headers t))" using cells(1) [OF cells_fit(1)] h(1) by (metis list.set_map map_snd_zip)
  then have sub: "sublist h ?header" using print_row_sublist unfolding print_line_def by blast
  have "h \<noteq> []" "\<not> js_space (hd h)" using headers(2) h(1) by (auto simp: header_cell_def trimmed_string_def)
  then have "trim ?header \<noteq> []"
    using set_mono_sublist [OF sub] hd_in_set [of h] unfolding trim_eq_Nil by blast
  moreover have "includes_ci ?header keyword"
    using h(2) sub unfolding includes_ci_def sublist_def by (metis append.assoc map_append)
  ultimately have "is_header keyword ?header" by (simp add: is_header_def)
  then have found: "dropWhile (\<lambda>l. \<not> is_header keyword l) (title @ ?header # sep # ?rows) = ?header # sep # ?rows"
    using title by (subst dropWhile_append2) auto
  have starts: "col_starts ?header = offsets ws"
  proof -
    have "\<forall>(w, h)\<in>set (zip ws (ot_headers t)). header_cell h \<and> length h \<le> w"
      using cells(2) [OF cells_fit(1)] headers(2) by (auto dest: set_zip_rightD)
    then show ?thesis using col_starts_print [of "zip ws (ot_headers t)"] cells(1) [OF cells_fit(1)] by (simp add: print_line_def)
  qed
  have "offsets ws \<noteq> []" using cells(1) [OF cells_fit(1)] headers(1) by (metis length_0_conv length_offsets)
  moreover have "filter (\<lambda>l. trim l \<noteq> [] \<and> \<not> rule_line l) (sep # ?rows) = ?rows"
    using sep(1) cells_fit(2) telling_line cells(1) by (simp add: filter_id_conv)
  moreover have "map (table_cells (offsets ws)) ?rows = ot_rows t"
    unfolding map_map comp_def using cells_fit(2) cells(1,2) by (intro map_idI table_cells_print) blast+
  moreover have "table_cells (offsets ws) ?header = ot_headers t" using table_cells_print cells(1,2) cells_fit(1) by blast
  ultimately show ?thesis by (simp add: parseFixedTable_def lines found starts Let_def)
qed

lemma newline_iff: "c = newline \<longleftrightarrow> (of_char c :: nat) = 10"
proof
  assume "(of_char c :: nat) = 10"
  then have "char_of (of_char c :: nat) = newline" by (simp add: newline_def)
  then show "c = newline" by simp
qed (simp add: newline_def)

definition peer_table :: op_table where
  "peer_table = \<lparr>ot_headers = [''Connection'', ''Bytes In/Out''], ot_rows = [[''office'', ''1K/2K''], [''lab'', []]]\<rparr>"

lemma parse_printed_table_witness:
  "parseFixedTable (join_lines (''State of the tunnels'' # print_line [10, 12] (ot_headers peer_table) # ''------'' #
     map (print_line [10, 12]) (ot_rows peer_table))) ''connection'' = peer_table"
proof -
  have cells_fit: "cells_fit [10, 12] (ot_headers peer_table)" "\<forall>r\<in>set (ot_rows peer_table). cells_fit [10, 12] r \<and> telling r"
    by (simp_all add: cells_fit_def peer_table_def trimmed_string_def telling_def js_space_def newline_iff)
  have headers: "ot_headers peer_table \<noteq> []" "\<forall>h\<in>set (ot_headers peer_table). header_cell h"
    by (simp_all add: peer_table_def header_cell_def trimmed_string_def js_space_def sublist_Cons_right)
  have title: "\<forall>l\<in>set [''State of the tunnels'']. one_line l \<and> \<not> is_header ''connection'' l"
    by (simp add: one_line_def newline_iff is_header_def includes_ci_def lower_char_def sublist_Cons_right)
  have "map lower_char ''Connection'' = ''connection''" "map lower_char ''connection'' = ''connection''" by code_simp+
  then have "includes_ci ''Connection'' ''connection''" by (simp only: includes_ci_def sublist_order.order_refl)
  then have kw: "\<exists>h\<in>set (ot_headers peer_table). includes_ci h ''connection''" by (simp add: peer_table_def)
  have sep: "rule_line ''------''" "one_line ''------''"
    by (simp_all add: rule_line_def one_line_def newline_iff)
  show ?thesis using parse_printed_table [OF cells_fit headers title kw sep] by simp
qed

section \<open>WireGuard output reads back\<close>

definition field_line :: "string \<times> string option \<Rightarrow> string list" where
  "field_line f = (case snd f of None \<Rightarrow> [] | Some x \<Rightarrow> [''  '' @ fst f @ '': '' @ x])"

definition peer_fields :: "wg_peer_status \<Rightarrow> (string \<times> string option) list" where
  "peer_fields p = [(''public key'', wp_public_key p), (''status'', wp_status p), (''endpoint'', wp_endpoint p),
     (''allowed ips'', wp_allowed_ips p), (''transfer'', wp_transfer p), (''latest handshake'', wp_latest_handshake p),
     (''persistent keepalive'', wp_keepalive p)]"

definition print_peer :: "wg_peer_status \<Rightarrow> string list" where
  "print_peer p = (''  peer: '' @ wp_name p) # concat (map field_line (peer_fields p))"

definition iface_fields :: "wg_interface_status \<Rightarrow> (string \<times> string option) list" where
  "iface_fields i = [(''address'', wi_address i), (''public key'', wi_public_key i), (''listening port'', wi_listening_port i)]"

definition print_iface :: "wg_interface_status \<Rightarrow> string list" where
  "print_iface i = (''  interface: '' @ wi_name i) # concat (map field_line (iface_fields i)) @ concat (map print_peer (wi_peers i))"

definition wg_value :: "string \<Rightarrow> bool" where
  "wg_value v \<longleftrightarrow> v \<noteq> [] \<and> trimmed_string v \<and> one_line v"

definition wf_peer :: "wg_peer_status \<Rightarrow> bool" where
  "wf_peer p \<longleftrightarrow> wg_value (wp_name p) \<and> (\<forall>(k, v)\<in>set (peer_fields p). \<forall>x. v = Some x \<longrightarrow> wg_value x)"

definition wf_iface :: "wg_interface_status \<Rightarrow> bool" where
  "wf_iface i \<longleftrightarrow> wg_value (wi_name i) \<and> (\<forall>(k, v)\<in>set (iface_fields i). \<forall>x. v = Some x \<longrightarrow> wg_value x) \<and>
     (\<forall>p\<in>set (wi_peers i). wf_peer p)"

definition wg_keys :: "string set" where
  "wg_keys = {''interface'', ''peer'', ''public key'', ''status'', ''endpoint'', ''allowed ips'', ''transfer'',
     ''latest handshake'', ''persistent keepalive'', ''address'', ''listening port''}"

lemma wg_key_plain:
  assumes "k \<in> wg_keys"
  shows "k \<noteq> []" "trimmed_string k" "CHR '':'' \<notin> set k" "map lower_char k = k"
  using assms by (auto simp: wg_keys_def trimmed_string_def js_space_def lower_char_def)

lemma trim_lead: "trim (CHR '' '' # s) = trim s"
  by (simp add: trim_def js_space_def)

lemma wg_line_key:
  assumes "k \<in> wg_keys" and "trimmed_string v"
  shows "key_value (''  '' @ k @ '': '' @ v) = Some (k, v)" and "trim (''  '' @ k @ '': '' @ v) \<noteq> []"
proof -
  note k = wg_key_plain [OF assms(1)]
  have "trim (''  '' @ k) = k" using trim_id [OF k(2)] by (simp add: trim_lead)
  moreover have "takeWhile (\<lambda>c. c \<noteq> CHR '':'') (''  '' @ k @ '': '' @ v) = ''  '' @ k"
      "dropWhile (\<lambda>c. c \<noteq> CHR '':'') (''  '' @ k @ '': '' @ v) = '': '' @ v"
    using span_sep [OF k(3), of "CHR '' '' # v"] by simp_all
  moreover have "trim (CHR '' '' # v) = v" using trim_id [OF assms(2)] by (simp add: trim_lead)
  ultimately show "key_value (''  '' @ k @ '': '' @ v) = Some (k, v)"
    using k(4) by (simp add: key_value_def)
  show "trim (''  '' @ k @ '': '' @ v) \<noteq> []" unfolding trim_eq_Nil by (auto simp: js_space_def)
qed

lemma map_last_snoc [simp]: "map_last f (xs @ [x]) = xs @ [f x]"
  by (simp add: map_last_def)

definition put_peer :: "string \<times> string option \<Rightarrow> wg_peer_status \<Rightarrow> wg_peer_status" where
  "put_peer f p = (case snd f of None \<Rightarrow> p | Some x \<Rightarrow> set_peer_field (fst f) (Some x) p)"

definition put_iface :: "string \<times> string option \<Rightarrow> wg_interface_status \<Rightarrow> wg_interface_status" where
  "put_iface f i = (case snd f of None \<Rightarrow> i | Some x \<Rightarrow> set_iface_field (fst f) (Some x) i)"

definition plain_fields :: "(string \<times> string option) list \<Rightarrow> bool" where
  "plain_fields fs \<longleftrightarrow> (\<forall>(k, v)\<in>set fs. k \<in> wg_keys - {''interface'', ''peer''} \<and> (\<forall>x. v = Some x \<longrightarrow> wg_value x))"

lemma fold_peer_fields:
  assumes "plain_fields fs"
  shows "foldl wg_line (out @ [i\<lparr>wi_peers := ps @ [p]\<rparr>], True) (concat (map field_line fs)) =
    (out @ [i\<lparr>wi_peers := ps @ [foldl (\<lambda>p f. put_peer f p) p fs]\<rparr>], True)"
  using assms
proof (induction fs arbitrary: p)
  case (Cons f fs)
  obtain k v where f: "f = (k, v)" by (cases f)
  have rest: "plain_fields fs" using Cons.prems by (simp add: plain_fields_def)
  show ?case
  proof (cases v)
    case None
    then show ?thesis using Cons.IH [OF rest] by (simp add: f field_line_def put_peer_def)
  next
    case (Some x)
    then have k: "k \<in> wg_keys" "k \<notin> {''interface'', ''peer''}" and x: "x \<noteq> []" "trimmed_string x"
      using Cons.prems by (simp_all add: plain_fields_def f wg_value_def)
    have "wg_line (out @ [i\<lparr>wi_peers := ps @ [p]\<rparr>], True) (''  '' @ k @ '': '' @ x) =
        (out @ [i\<lparr>wi_peers := ps @ [set_peer_field k (Some x) p]\<rparr>], True)"
      using k(2) x(1) wg_line_key [OF k(1) x(2)] unfolding wg_line_def by (simp only: prod.case) simp
    then show ?thesis using Cons.IH [OF rest] Some by (simp add: f field_line_def put_peer_def)
  qed
qed simp

lemma fold_iface_fields:
  assumes "plain_fields fs"
  shows "foldl wg_line (out @ [i], False) (concat (map field_line fs)) =
    (out @ [foldl (\<lambda>i f. put_iface f i) i fs], False)"
  using assms
proof (induction fs arbitrary: i)
  case (Cons f fs)
  obtain k v where f: "f = (k, v)" by (cases f)
  have rest: "plain_fields fs" using Cons.prems by (simp add: plain_fields_def)
  show ?case
  proof (cases v)
    case None
    then show ?thesis using Cons.IH [OF rest] by (simp add: f field_line_def put_iface_def)
  next
    case (Some x)
    then have k: "k \<in> wg_keys" "k \<notin> {''interface'', ''peer''}" and x: "x \<noteq> []" "trimmed_string x"
      using Cons.prems by (simp_all add: plain_fields_def f wg_value_def)
    have "wg_line (out @ [i], False) (''  '' @ k @ '': '' @ x) = (out @ [set_iface_field k (Some x) i], False)"
      using k(2) x(1) wg_line_key [OF k(1) x(2)] unfolding wg_line_def by (simp only: prod.case) simp
    then show ?thesis using Cons.IH [OF rest] Some by (simp add: f field_line_def put_iface_def)
  qed
qed simp

lemma put_peer_new:
  "wp_public_key p = None \<Longrightarrow> put_peer (''public key'', v) p = p\<lparr>wp_public_key := v\<rparr>"
  "wp_status p = None \<Longrightarrow> put_peer (''status'', v) p = p\<lparr>wp_status := v\<rparr>"
  "wp_endpoint p = None \<Longrightarrow> put_peer (''endpoint'', v) p = p\<lparr>wp_endpoint := v\<rparr>"
  "wp_allowed_ips p = None \<Longrightarrow> put_peer (''allowed ips'', v) p = p\<lparr>wp_allowed_ips := v\<rparr>"
  "wp_transfer p = None \<Longrightarrow> put_peer (''transfer'', v) p = p\<lparr>wp_transfer := v\<rparr>"
  "wp_latest_handshake p = None \<Longrightarrow> put_peer (''latest handshake'', v) p = p\<lparr>wp_latest_handshake := v\<rparr>"
  "wp_keepalive p = None \<Longrightarrow> put_peer (''persistent keepalive'', v) p = p\<lparr>wp_keepalive := v\<rparr>"
  by (cases v; simp add: put_peer_def set_peer_field_def)+

lemma put_iface_new:
  "wi_public_key i = None \<Longrightarrow> put_iface (''public key'', v) i = i\<lparr>wi_public_key := v\<rparr>"
  "wi_listening_port i = None \<Longrightarrow> put_iface (''listening port'', v) i = i\<lparr>wi_listening_port := v\<rparr>"
  "wi_address i = None \<Longrightarrow> put_iface (''address'', v) i = i\<lparr>wi_address := v\<rparr>"
  by (cases v; simp add: put_iface_def set_iface_field_def)+

lemma fold_print_peer:
  assumes "wf_peer p"
  shows "foldl wg_line (out @ [i], b) (print_peer p) = (out @ [i\<lparr>wi_peers := wi_peers i @ [p]\<rparr>], True)"
proof -
  have "wg_value (wp_name p)" and fields: "plain_fields (peer_fields p)"
    using assms by (auto simp: wf_peer_def plain_fields_def peer_fields_def wg_keys_def)
  then have "wg_line (out @ [i], b) (''  peer: '' @ wp_name p) = (out @ [i\<lparr>wi_peers := wi_peers i @ [new_peer (wp_name p)]\<rparr>], True)"
    using wg_line_key [of "''peer''" "wp_name p"] by (simp add: wg_line_def wg_keys_def wg_value_def)
  moreover have "foldl (\<lambda>p f. put_peer f p) (new_peer (wp_name p)) (peer_fields p) = p"
    by (simp add: peer_fields_def new_peer_def put_peer_new)
  ultimately show ?thesis using fold_peer_fields [OF fields] by (simp add: print_peer_def)
qed

lemma fold_print_peers:
  assumes "\<forall>p\<in>set ps. wf_peer p"
  shows "fst (foldl wg_line (out @ [i], b) (concat (map print_peer ps))) = out @ [i\<lparr>wi_peers := wi_peers i @ ps\<rparr>]"
  using assms by (induction ps arbitrary: i b) (simp_all add: fold_print_peer)

lemma fold_print_iface:
  assumes "wf_iface i"
  shows "fst (foldl wg_line (out, b) (print_iface i)) = out @ [i]"
proof -
  have "wg_value (wi_name i)" and fields: "plain_fields (iface_fields i)" and peers: "\<forall>p\<in>set (wi_peers i). wf_peer p"
    using assms by (auto simp: wf_iface_def plain_fields_def iface_fields_def wg_keys_def)
  then have "wg_line (out, b) (''  interface: '' @ wi_name i) = (out @ [new_iface (wi_name i)], False)"
    using wg_line_key [of "''interface''" "wi_name i"] by (simp add: wg_line_def wg_keys_def wg_value_def)
  moreover have "foldl (\<lambda>i f. put_iface f i) (new_iface (wi_name i)) (iface_fields i) = i\<lparr>wi_peers := []\<rparr>"
    by (simp add: iface_fields_def new_iface_def put_iface_new)
  ultimately show ?thesis
    using fold_iface_fields [OF fields, of out "new_iface (wi_name i)"] fold_print_peers [OF peers, of out "i\<lparr>wi_peers := []\<rparr>" False]
    by (simp add: print_iface_def)
qed

lemma fold_print_ifaces:
  assumes "\<forall>i\<in>set is. wf_iface i"
  shows "fst (foldl wg_line (out, b) (concat (map print_iface is))) = out @ is"
  using assms
proof (induction "is" arbitrary: out b)
  case (Cons i "is")
  obtain o1 b1 where st: "foldl wg_line (out, b) (print_iface i) = (o1, b1)" by fastforce
  then have "o1 = out @ [i]" using fold_print_iface [of i out b] Cons.prems by simp
  then show ?case using Cons st by simp
qed simp

text \<open>
  C31: the WireGuard status is read back as it was printed: the blocks of any list of interfaces with
  their peers, each with the fields that it has, give these interfaces and peers again, in order and
  with every field in its place.
\<close>

theorem wireguard_status_roundtrip:
  assumes "is \<noteq> []" and "\<forall>i\<in>set is. wf_iface i"
  shows "parseWireguardStatus (join_lines (concat (map print_iface is))) = is"
proof -
  have key: "one_line (''  '' @ k @ '': '' @ v)" if "k \<in> wg_keys" "one_line v" for k v
    using that by (auto simp: wg_keys_def one_line_def newline_iff)
  have field: "\<forall>l\<in>set (concat (map field_line fs)). one_line l" if "plain_fields fs" for fs
    using that key by (fastforce simp: plain_fields_def field_line_def wg_value_def split: option.splits)
  have peer: "\<forall>l\<in>set (print_peer p). one_line l" if "wf_peer p" for p
  proof -
    have "plain_fields (peer_fields p)" "wg_value (wp_name p)"
      using that by (auto simp: wf_peer_def plain_fields_def peer_fields_def wg_keys_def)
    then show ?thesis using field key [of "''peer''" "wp_name p"]
      by (auto simp: print_peer_def wg_keys_def wg_value_def)
  qed
  have iface: "\<forall>l\<in>set (print_iface i). one_line l" if "wf_iface i" for i
  proof -
    have "plain_fields (iface_fields i)" "wg_value (wi_name i)" "\<forall>p\<in>set (wi_peers i). wf_peer p"
      using that by (auto simp: wf_iface_def plain_fields_def iface_fields_def wg_keys_def)
    then show ?thesis using field peer key [of "''interface''" "wi_name i"]
      by (auto simp: print_iface_def wg_keys_def wg_value_def)
  qed
  have "\<forall>l\<in>set (concat (map print_iface is)). one_line l" using assms(2) iface by auto
  moreover have "concat (map print_iface is) \<noteq> []" using assms(1) by (cases "is") (simp_all add: print_iface_def)
  ultimately have "text_lines (join_lines (concat (map print_iface is))) = concat (map print_iface is)"
    by (intro text_lines_join)
  then show ?thesis using fold_print_ifaces [OF assms(2), of "[]" False] by (simp add: parseWireguardStatus_def)
qed

definition wg_example :: wg_interface_status where
  "wg_example = \<lparr>wi_name = ''wg0'', wi_public_key = Some ''abc='', wi_listening_port = Some ''51820'', wi_address = None,
     wi_peers = [(new_peer ''lab'')\<lparr>wp_endpoint := Some ''192.0.2.1:51820''\<rparr>]\<rparr>"

lemma wireguard_status_roundtrip_witness:
  "parseWireguardStatus (join_lines (concat (map print_iface [wg_example]))) = [wg_example]"
proof (rule wireguard_status_roundtrip)
  show "\<forall>i\<in>set [wg_example]. wf_iface i"
    by (simp add: wg_example_def wf_iface_def wf_peer_def iface_fields_def peer_fields_def new_peer_def wg_value_def
        trimmed_string_def js_space_def one_line_def newline_iff)
qed simp

section \<open>A counter table printed twice\<close>

lemma first_rows_append:
  "first_rows seen (xs @ ys) = first_rows seen xs @ first_rows (rev (map is_name (first_rows seen xs)) @ seen) ys"
  by (induction xs arbitrary: seen) simp_all

lemma first_rows_none: "is_name ` set ys \<subseteq> set seen \<Longrightarrow> first_rows seen ys = []"
  by (induction ys arbitrary: seen) auto

lemma first_rows_names: "is_name ` set (first_rows seen xs) = is_name ` set xs - set seen"
  by (induction xs arbitrary: seen) auto

lemma first_rows_distinct: "distinct (map is_name (first_rows seen xs))"
proof (induction xs arbitrary: seen)
  case (Cons x xs)
  have "is_name x \<notin> is_name ` set (first_rows (is_name x # seen) xs)" by (simp add: first_rows_names)
  then show ?case using Cons by simp
qed simp

lemma split_on_append_newline: "split_on c (s @ c # t) = split_on c s @ split_on c t"
  by (induction s) (auto split: list.splits)

text \<open>
  Some builds print the counter table twice. The parse of the doubled text is the parse of the
  text, and no interface occurs twice in it.
\<close>

theorem counters_printed_twice:
  "parseInterfaceCounters (text @ newline # text) = parseInterfaceCounters text \<and>
   distinct (map is_name (parseInterfaceCounters text))"
proof -
  let ?rows = "List.map_filter counter_row (split_on newline text)"
  have "List.map_filter counter_row (split_on newline (text @ newline # text)) = ?rows @ ?rows"
    by (simp add: split_on_append_newline List.map_filter_def)
  moreover have "first_rows (rev (map is_name (first_rows [] ?rows)) @ []) ?rows = []"
    by (rule first_rows_none) (simp add: first_rows_names)
  ultimately show ?thesis by (simp add: parseInterfaceCounters_def first_rows_append first_rows_distinct)
qed

end
