(* ===== verification/Commit_Log.thy ===== *)
theory Commit_Log
  imports Op_Tables "HOL-Library.Monad_Syntax"
begin

text \<open>
  The commit history: \<open>lib/audit.ts\<close>, the parser of \<open>show system commit\<close> and the summary of what a
  commit changed. The journal and the rollback are requests.
\<close>

section \<open>The history\<close>

record commit_entry =
  ce_revision :: int
  ce_date :: string
  ce_user :: string
  ce_via :: string
  ce_comment :: "string option"

text \<open>The pieces of the regular expression of a revision line.\<close>

definition eat_spaces :: "string \<Rightarrow> string option" where
  "eat_spaces s = (if s \<noteq> [] \<and> js_space (hd s) then Some (dropWhile js_space s) else None)"

definition eat_word :: "string \<Rightarrow> string \<Rightarrow> string option" where
  "eat_word w s = (if prefix w s then Some (drop (length w) s) else None)"

definition eat_digits :: "nat \<Rightarrow> string \<Rightarrow> (string \<times> string) option" where
  "eat_digits n s = (if n \<le> length s \<and> list_all is_digit (take n s) then Some (take n s, drop n s) else None)"

definition eat_token :: "string \<Rightarrow> (string \<times> string) option" where
  "eat_token s = (if takeWhile (\<lambda>c. \<not> js_space c) s \<noteq> []
     then Some (takeWhile (\<lambda>c. \<not> js_space c) s, dropWhile (\<lambda>c. \<not> js_space c) s) else None)"

definition eat_number :: "string \<Rightarrow> (int \<times> string) option" where
  "eat_number s = (if takeWhile is_digit s \<noteq> []
     then Some (int (nat_of_digits (takeWhile is_digit s)), dropWhile is_digit s) else None)"

definition eat_day :: "string \<Rightarrow> (string \<times> string) option" where
  "eat_day s = do {
     (y, s) \<leftarrow> eat_digits 4 s; s \<leftarrow> eat_word ''-'' s; (m, s) \<leftarrow> eat_digits 2 s; s \<leftarrow> eat_word ''-'' s; (d, s) \<leftarrow> eat_digits 2 s;
     Some (y @ ''-'' @ m @ ''-'' @ d, s) }"

definition eat_time :: "string \<Rightarrow> (string \<times> string) option" where
  "eat_time s = do {
     (h, s) \<leftarrow> eat_digits 2 s; s \<leftarrow> eat_word '':'' s; (m, s) \<leftarrow> eat_digits 2 s; s \<leftarrow> eat_word '':'' s; (d, s) \<leftarrow> eat_digits 2 s;
     Some (h @ '':'' @ m @ '':'' @ d, s) }"

definition eat_via :: "string \<Rightarrow> string" where
  "eat_via s = (case do { s \<leftarrow> eat_spaces s; s \<leftarrow> eat_word ''via'' s; s \<leftarrow> eat_spaces s; eat_token s } of
       None \<Rightarrow> [] | Some (via, _) \<Rightarrow> via)"

definition revision_line :: "string \<Rightarrow> commit_entry option" where
  "revision_line line = do {
     (n, s) \<leftarrow> eat_number (dropWhile js_space line); s \<leftarrow> eat_spaces s;
     (day, s) \<leftarrow> eat_day s; s \<leftarrow> eat_spaces s; (time, s) \<leftarrow> eat_time s;
     s \<leftarrow> eat_spaces s; s \<leftarrow> eat_word ''by'' s; s \<leftarrow> eat_spaces s; (user, s) \<leftarrow> eat_token s;
     Some \<lparr>ce_revision = n, ce_date = day @ '' '' @ time, ce_user = user, ce_via = eat_via s, ce_comment = None\<rparr> }"

definition is_heading :: "string \<Rightarrow> bool" where
  "is_heading l \<longleftrightarrow> prefix ''revisions'' (map lower_char (trim l))"

definition add_comment :: "string \<Rightarrow> commit_entry \<Rightarrow> commit_entry" where
  "add_comment l e = e\<lparr>ce_comment := Some (case ce_comment e of None \<Rightarrow> trim l | Some c \<Rightarrow> c @ '' '' @ trim l)\<rparr>"

definition history_line :: "commit_entry list \<Rightarrow> string \<Rightarrow> commit_entry list" where
  "history_line out line = (case revision_line line of
       Some e \<Rightarrow> out @ [e]
     | None \<Rightarrow> if out \<noteq> [] \<and> trim line \<noteq> [] \<and> \<not> is_heading line then map_last (add_comment line) out else out)"

definition parseCommitHistory :: "string \<Rightarrow> commit_entry list" where
  "parseCommitHistory text = foldl history_line [] (split_on newline text)"

definition fetchCommitHistory :: "bool \<Rightarrow> string option \<Rightarrow> string option \<Rightarrow> read_error + commit_entry list" where
  "fetchCommitHistory success data err =
     (if success then Inr (parseCommitHistory (case data of None \<Rightarrow> [] | Some t \<Rightarrow> t))
      else Inl (DeviceError (case err of None \<Rightarrow> ''Device returned an error reading the commit history.''
        | Some e \<Rightarrow> if e = [] then ''Device returned an error reading the commit history.'' else e)))"

section \<open>What a commit changed\<close>

text \<open>The state of the loop: lines added and removed per section, the current section, the depth.\<close>

record diff_state =
  ds_counts :: "(string \<times> nat \<times> nat) list"
  ds_section :: string
  ds_depth :: nat

definition top_level :: string where
  "top_level = ''(top level)''"

definition bump :: "string \<Rightarrow> bool \<Rightarrow> diff_state \<Rightarrow> diff_state" where
  "bump name added st =
     (let key = (if name = [] then top_level else name);
          (a, d) = (case map_of (ds_counts st) key of None \<Rightarrow> (0, 0) | Some c \<Rightarrow> c)
      in st\<lparr>ds_counts := AList.update key (if added then (a + 1, d) else (a, d + 1)) (ds_counts st)\<rparr>)"

text \<open>\<open>/^\\[edit(?:\\s+(\\S+))?/\<close>: the captured word, if there is one.\<close>

definition edit_header :: "string \<Rightarrow> string option option" where
  "edit_header t = (case eat_word ''[edit'' t of None \<Rightarrow> None
     | Some s \<Rightarrow> Some (do { s \<leftarrow> eat_spaces s; (w, _) \<leftarrow> eat_token s; Some w }))"

definition first_word :: "string \<Rightarrow> string" where
  "first_word body = hd (words_of body)"

fun braces :: "string \<Rightarrow> string \<Rightarrow> diff_state \<Rightarrow> diff_state" where
  "braces body [] st = st"
| "braces body (c # cs) st =
     (if c = CHR ''{'' then
        braces body cs (st\<lparr>ds_section := (if ds_depth st = 0 then first_word body else ds_section st), ds_depth := ds_depth st + 1\<rparr>)
      else if c = CHR ''}'' then braces body cs (st\<lparr>ds_depth := ds_depth st - 1\<rparr>)
      else braces body cs st)"

definition is_marked :: "string \<Rightarrow> bool" where
  "is_marked t \<longleftrightarrow> prefix ''+'' t \<or> prefix ''-'' t"

definition counted_body :: "string \<Rightarrow> bool" where
  "counted_body body \<longleftrightarrow> body \<noteq> [] \<and> body \<noteq> ''{'' \<and> body \<noteq> ''}''"

definition diff_line :: "diff_state \<Rightarrow> string \<Rightarrow> diff_state" where
  "diff_line st raw =
     (let t = trim raw in
      if t = [] then st
      else (case edit_header t of
          Some w \<Rightarrow> st\<lparr>ds_section := (case w of None \<Rightarrow> top_level | Some s \<Rightarrow> s), ds_depth := 1\<rparr>
        | None \<Rightarrow>
          (let marked = is_marked t; body = (if marked then trim (tl t) else t);
               st1 = (if marked \<and> counted_body body
                 then bump (if ds_depth st = 0 then first_word body else ds_section st) (prefix ''+'' t) st else st)
           in braces body body st1)))"

definition diff_counts :: "string \<Rightarrow> (string \<times> nat \<times> nat) list" where
  "diff_counts diff = ds_counts (foldl diff_line \<lparr>ds_counts = [], ds_section = [], ds_depth = 0\<rparr> (split_on newline diff))"

text \<open>
  The summary: the three sections with the most changed lines, each with its lines added and removed,
  and how many sections are left out. The minus sign of the source is U+2212, which is no character of
  the model; it is the argument \<open>neg\<close>.
\<close>

definition diff_parts :: "string \<Rightarrow> (string \<times> nat \<times> nat) list" where
  "diff_parts diff = sort_by (\<lambda>(_, a1, d1) (_, a2, d2). int (a2 + d2) - int (a1 + d1)) (diff_counts diff)"

definition diff_part :: "string \<Rightarrow> string \<times> nat \<times> nat \<Rightarrow> string" where
  "diff_part neg p = (case p of (name, a, d) \<Rightarrow> join_with '' '' (filter (\<lambda>s. s \<noteq> [])
     [name, if a \<noteq> 0 then ''+'' @ string_of_nat a else [], if d \<noteq> 0 then neg @ string_of_nat d else []]))"

definition middle_dot :: string where
  "middle_dot = '' '' @ [CHR 0xB7] @ '' ''"

definition summarizeCommitDiff :: "string \<Rightarrow> string \<Rightarrow> string" where
  "summarizeCommitDiff neg diff =
     (let parts = diff_parts diff in
      if parts = [] then []
      else join_with middle_dot (map (diff_part neg) (take 3 parts)) @
        (if 3 < length parts then middle_dot @ ''+'' @ string_of_nat (length parts - 3) @ '' more'' else []))"

section \<open>Every changed line is counted once\<close>

text \<open>A line that the summary has to count: marked, no header, more than a brace.\<close>

definition counted_line :: "bool \<Rightarrow> string \<Rightarrow> bool" where
  "counted_line added raw \<longleftrightarrow> (let t = trim raw in
     t \<noteq> [] \<and> edit_header t = None \<and> prefix (if added then ''+'' else ''-'') t \<and> counted_body (trim (tl t)))"

definition total :: "(string \<times> nat \<times> nat) list \<Rightarrow> nat \<times> nat" where
  "total cs = (sum_list (map (fst \<circ> snd) cs), sum_list (map (snd \<circ> snd) cs))"

lemma braces_counts [simp]: "ds_counts (braces body cs st) = ds_counts st"
  by (induction body cs st rule: braces.induct) simp_all

lemma total_update:
  assumes "distinct (map fst cs)"
  shows "total (AList.update k (case map_of cs k of None \<Rightarrow> (0, 0) | Some c \<Rightarrow> c) cs) = total cs"
    and "total (AList.update k (case (case map_of cs k of None \<Rightarrow> (0, 0) | Some c \<Rightarrow> c) of (a, d) \<Rightarrow> (a + m, d + n)) cs) =
      (fst (total cs) + m, snd (total cs) + n)"
  using assms by (induction cs) (auto simp: total_def)

lemma bump_total:
  assumes "distinct (map fst (ds_counts st))"
  shows "total (ds_counts (bump name added st)) =
      (fst (total (ds_counts st)) + (if added then 1 else 0), snd (total (ds_counts st)) + (if added then 0 else 1))"
    and "distinct (map fst (ds_counts (bump name added st)))"
proof -
  let ?key = "if name = [] then top_level else name"
  let ?c = "case map_of (ds_counts st) ?key of None \<Rightarrow> (0, 0) | Some c \<Rightarrow> c"
  have "ds_counts (bump name added st) = AList.update ?key (case ?c of (a, d) \<Rightarrow>
      (a + (if added then 1 else 0), d + (if added then 0 else 1))) (ds_counts st)"
    by (cases "?c") (auto simp: bump_def Let_def)
  then show "total (ds_counts (bump name added st)) =
      (fst (total (ds_counts st)) + (if added then 1 else 0), snd (total (ds_counts st)) + (if added then 0 else 1))"
    "distinct (map fst (ds_counts (bump name added st)))"
    using total_update(2) [OF assms] by (simp_all add: distinct_update [OF assms])
qed

lemma diff_line_total:
  assumes "distinct (map fst (ds_counts st))"
  shows "total (ds_counts (diff_line st raw)) =
      (fst (total (ds_counts st)) + of_bool (counted_line True raw), snd (total (ds_counts st)) + of_bool (counted_line False raw))"
    and "distinct (map fst (ds_counts (diff_line st raw)))"
proof -
  let ?t = "trim raw"
  consider "?t = []" | w where "?t \<noteq> []" "edit_header ?t = Some w"
    | "?t \<noteq> []" "edit_header ?t = None" "\<not> (is_marked ?t \<and> counted_body (trim (tl ?t)))"
    | "?t \<noteq> []" "edit_header ?t = None" "is_marked ?t" "counted_body (trim (tl ?t))"
    by fastforce
  then have "total (ds_counts (diff_line st raw)) =
      (fst (total (ds_counts st)) + of_bool (counted_line True raw), snd (total (ds_counts st)) + of_bool (counted_line False raw)) \<and>
    distinct (map fst (ds_counts (diff_line st raw)))"
  proof cases
    case 3
    then have "\<not> counted_line b raw" for b by (auto simp: counted_line_def is_marked_def Let_def)
    moreover have "ds_counts (diff_line st raw) = ds_counts st" using 3 by (auto simp: diff_line_def Let_def)
    ultimately show ?thesis using assms by simp
  next
    case 4
    then have "counted_line True raw = prefix ''+'' ?t" "counted_line False raw = (\<not> prefix ''+'' ?t)"
      by (cases ?t; auto simp: counted_line_def is_marked_def Let_def)+
    moreover have "ds_counts (diff_line st raw) =
        ds_counts (bump (if ds_depth st = 0 then first_word (trim (tl ?t)) else ds_section st) (prefix ''+'' ?t) st)"
      using 4 by (simp add: diff_line_def Let_def)
    ultimately show ?thesis using bump_total [OF assms] by simp
  qed (auto simp: diff_line_def counted_line_def Let_def assms)
  then show "total (ds_counts (diff_line st raw)) =
      (fst (total (ds_counts st)) + of_bool (counted_line True raw), snd (total (ds_counts st)) + of_bool (counted_line False raw))"
    "distinct (map fst (ds_counts (diff_line st raw)))" by simp_all
qed

lemma diff_lines_total:
  "distinct (map fst (ds_counts st)) \<Longrightarrow>
   total (ds_counts (foldl diff_line st ls)) =
     (fst (total (ds_counts st)) + length (filter (counted_line True) ls),
      snd (total (ds_counts st)) + length (filter (counted_line False) ls)) \<and>
   distinct (map fst (ds_counts (foldl diff_line st ls)))"
  by (induction ls arbitrary: st) (simp_all add: diff_line_total)

text \<open>No section is counted zero times.\<close>

definition counting :: "(string \<times> nat \<times> nat) list \<Rightarrow> bool" where
  "counting cs \<longleftrightarrow> list_all (\<lambda>p. 0 < fst (snd p) + snd (snd p)) cs"

lemma counting_update: "counting cs \<Longrightarrow> 0 < fst v + snd v \<Longrightarrow> counting (AList.update k v cs)"
  by (induction cs) (auto simp: counting_def)

lemma counting_bump: "counting (ds_counts st) \<Longrightarrow> counting (ds_counts (bump name added st))"
  by (simp add: bump_def Let_def split_beta counting_update)

lemma counting_line: "counting (ds_counts st) \<Longrightarrow> counting (ds_counts (diff_line st raw))"
  by (simp add: diff_line_def Let_def counting_bump split: option.split)

lemma counting_lines: "counting (ds_counts st) \<Longrightarrow> counting (ds_counts (foldl diff_line st ls))"
  by (induction ls arbitrary: st) (simp_all add: counting_line)

lemma diff_counts_counting: "counting (diff_counts diff)"
  unfolding diff_counts_def by (rule counting_lines) (simp add: counting_def)

lemma counting_nonempty: "counting cs \<Longrightarrow> total cs = (0, 0) \<longleftrightarrow> cs = []"
  by (cases cs) (auto simp: counting_def total_def)

lemma diff_part_nonempty: "0 < fst (snd p) + snd (snd p) \<Longrightarrow> diff_part neg p \<noteq> []"
  by (cases p) (auto simp: diff_part_def split: if_splits)

lemma join_with_nonempty: "x \<noteq> [] \<Longrightarrow> join_with sep (x # xs) \<noteq> []"
  by (cases xs) simp_all

lemma summary_empty: "summarizeCommitDiff neg diff = [] \<longleftrightarrow> diff_counts diff = []"
proof (cases "diff_parts diff")
  case Nil
  then show ?thesis by (simp add: summarizeCommitDiff_def diff_parts_def)
next
  case (Cons p ps)
  then have p: "p \<in> set (diff_counts diff)" by (metis diff_parts_def list.set_intros(1) set_sort_by)
  then have "diff_part neg p \<noteq> []"
    using diff_counts_counting [of diff] by (intro diff_part_nonempty) (simp add: counting_def list_all_iff)
  then have "join_with middle_dot (diff_part neg p # qs) \<noteq> []" for qs by (rule join_with_nonempty)
  moreover have "map (diff_part neg) (take 3 (diff_parts diff)) = diff_part neg p # map (diff_part neg) (take 2 ps)"
    unfolding Cons by simp
  ultimately show ?thesis using Cons p by (auto simp: summarizeCommitDiff_def Let_def)
qed

text \<open>
  The summary of a commit counts every changed line once. The sections are distinct, and the
  lines that they count as added and as removed are together the lines of the diff that are marked
  so, headers and lone braces left out; the summary takes the sections with the most lines first, and
  is empty exactly when no line is marked.
\<close>

theorem commit_summary_counts:
  "total (diff_counts diff) = (length (filter (counted_line True) (split_on newline diff)),
     length (filter (counted_line False) (split_on newline diff))) \<and>
   distinct (map fst (diff_counts diff)) \<and>
   mset (diff_parts diff) = mset (diff_counts diff) \<and>
   sorted_wrt (\<lambda>(_, a1, d1) (_, a2, d2). a2 + d2 \<le> a1 + d1) (diff_parts diff) \<and>
   (summarizeCommitDiff neg diff = [] \<longleftrightarrow>
     filter (\<lambda>l. counted_line True l \<or> counted_line False l) (split_on newline diff) = [])"
proof -
  let ?cmp = "\<lambda>(_ :: string, a1, d1) (_ :: string, a2, d2). int (a2 + d2) - int (a1 + d1)"
  have "consistent_cmp ?cmp" by (auto simp: consistent_cmp_def)
  then have sorted: "sorted_wrt (\<lambda>(_, a1, d1) (_, a2, d2). a2 + d2 \<le> a1 + d1) (diff_parts diff)"
    unfolding diff_parts_def by (rule sorted_wrt_mono_rel [rotated, OF sorted_sort_by]) auto
  have counts: "total (diff_counts diff) = (length (filter (counted_line True) (split_on newline diff)),
     length (filter (counted_line False) (split_on newline diff)))" "distinct (map fst (diff_counts diff))"
    using diff_lines_total [of "\<lparr>ds_counts = [], ds_section = [], ds_depth = 0\<rparr>" "split_on newline diff"]
    by (simp_all add: diff_counts_def total_def)
  have "summarizeCommitDiff neg diff = [] \<longleftrightarrow>
     filter (\<lambda>l. counted_line True l \<or> counted_line False l) (split_on newline diff) = []"
    unfolding summary_empty counting_nonempty [OF diff_counts_counting, symmetric] counts(1)
    by (auto simp: filter_empty_conv)
  then show ?thesis using sorted counts by (simp add: diff_parts_def)
qed

text \<open>
  A header with one word keeps its closing bracket: the section of \<open>[edit system]\<close> is counted under
  the name \<open>system]\<close>.
\<close>

lemma edit_header_bracket: "diff_counts (''[edit system]'' @ newline # ''+host-name x'') = [(''system]'', 1, 0)]"
  by code_simp

end
