(* ===== verification/Wireguard.thy ===== *)
theory Wireguard
  imports Forms Interfaces
begin

text \<open>
  WireGuard interfaces: \<open>lib/wireguard.ts\<close>, the reader and the diff of \<open>interfaces wireguard\<close>. An
  interface is a form with a family of peers below it, each again a form.
\<close>

section \<open>Model\<close>

record wireguard_peer =
  pe_name :: string
  pe_public_key :: "string option"
  pe_preshared_key :: "string option"
  pe_allowed_ips :: "string list"
  pe_endpoint_address :: "string option"
  pe_endpoint_port :: "int option"
  pe_persistent_keepalive :: "int option"
  pe_disabled :: bool

record wireguard_interface =
  wi_name :: string
  wi_description :: "string option"
  wi_addresses :: "string list"
  wi_private_key :: "string option"
  wi_port :: "int option"
  wi_mtu :: "int option"
  wi_enabled :: bool
  wi_peers :: "wireguard_peer list"

definition emptyWireguardPeer :: wireguard_peer where
  "emptyWireguardPeer = \<lparr>pe_name = [], pe_public_key = None, pe_preshared_key = None, pe_allowed_ips = [],
     pe_endpoint_address = None, pe_endpoint_port = None, pe_persistent_keepalive = None, pe_disabled = False\<rparr>"

definition emptyWireguardInterface :: wireguard_interface where
  "emptyWireguardInterface = \<lparr>wi_name = [], wi_description = None, wi_addresses = [], wi_private_key = None,
     wi_port = None, wi_mtu = None, wi_enabled = True, wi_peers = []\<rparr>"

section \<open>Reader\<close>

definition parsePeer :: "string \<times> json \<Rightarrow> read_error + wireguard_peer" where
  "parsePeer e = (let raw = or_empty (snd e) in
     case has_key ''disable'' raw of Inl err \<Rightarrow> Inl err | Inr disabled \<Rightarrow>
       Inr \<lparr>pe_name = fst e, pe_public_key = childStr raw ''public-key'', pe_preshared_key = childStr raw ''preshared-key'',
         pe_allowed_ips = sort_by str_cmp (childList raw ''allowed-ips''), pe_endpoint_address = childStr raw ''address'',
         pe_endpoint_port = childNum raw ''port'', pe_persistent_keepalive = childNum raw ''persistent-keepalive'',
         pe_disabled = disabled\<rparr>)"

definition parseInterface :: "(string \<Rightarrow> string \<Rightarrow> int) \<Rightarrow> string \<times> json \<Rightarrow> read_error + wireguard_interface" where
  "parseInterface lc e = (let raw = or_empty (snd e) in
     case map_res parsePeer (object_entries raw ''peer'') of Inl err \<Rightarrow> Inl err | Inr peers \<Rightarrow>
     (case has_key ''disable'' raw of Inl err \<Rightarrow> Inl err | Inr disabled \<Rightarrow>
       Inr \<lparr>wi_name = fst e, wi_description = childStr raw ''description'', wi_addresses = asAddresses raw,
         wi_private_key = childStr raw ''private-key'', wi_port = childNum raw ''port'', wi_mtu = childNum raw ''mtu'',
         wi_enabled = (\<not> disabled), wi_peers = sort_by (\<lambda>a b. lc (pe_name a) (pe_name b)) peers\<rparr>))"

definition fetchWireguard :: "(string \<Rightarrow> string \<Rightarrow> int) \<Rightarrow> vyos_response \<Rightarrow> read_error + wireguard_interface list" where
  "fetchWireguard lc resp =
     (case config_of_response ''Device returned an error reading WireGuard configuration.'' resp of Inl e \<Rightarrow> Inl e
      | Inr node \<Rightarrow> (case map_res (parseInterface lc) (obj_entries node) of Inl e \<Rightarrow> Inl e
          | Inr rows \<Rightarrow> Inr (sort_by (\<lambda>a b. lc (wi_name a) (wi_name b)) rows)))"

section \<open>Diff\<close>

definition peer_path :: "path \<Rightarrow> string \<Rightarrow> path" where
  "peer_path base name = base @ [''peer'', name]"

definition wg_peer_fields :: "wireguard_peer option \<Rightarrow> wireguard_peer \<Rightarrow> field list" where
  "wg_peer_fields live u =
     (let l = (case live of None \<Rightarrow> emptyWireguardPeer | Some x \<Rightarrow> x) in
      [Leaf [''public-key''] (pe_public_key l) (blank_to_none (pe_public_key u)),
       Leaf [''preshared-key''] (pe_preshared_key l) (blank_to_none (pe_preshared_key u)),
       Multi [''allowed-ips''] (pe_allowed_ips l) (clean (pe_allowed_ips u)),
       Leaf [''address''] (pe_endpoint_address l) (blank_to_none (pe_endpoint_address u)),
       Leaf [''port''] (numStr (pe_endpoint_port l)) (numStr (pe_endpoint_port u)),
       Leaf [''persistent-keepalive''] (numStr (pe_persistent_keepalive l)) (numStr (pe_persistent_keepalive u)),
       Flag [''disable''] (pe_disabled l) (pe_disabled u)])"

definition diffPeer :: "path \<Rightarrow> wireguard_peer option \<Rightarrow> wireguard_peer \<Rightarrow> vyos_command list" where
  "diffPeer base live u = (let sub = form_cmds base (wg_peer_fields live u) in
     sub @ (if live = None \<and> \<not> has_set sub then [cset base] else []))"

definition wireguard_base :: "string \<Rightarrow> path" where
  "wireguard_base name = [''interfaces'', ''wireguard'', name]"

definition wireguard_fields :: "wireguard_interface option \<Rightarrow> wireguard_interface \<Rightarrow> field list" where
  "wireguard_fields live u =
     (let l = (case live of None \<Rightarrow> emptyWireguardInterface | Some x \<Rightarrow> x) in
      [Leaf [''description''] (wi_description l) (blank_to_none (wi_description u)),
       Multi [''address''] (wi_addresses l) (clean (wi_addresses u)),
       Leaf [''private-key''] (wi_private_key l) (blank_to_none (wi_private_key u)),
       Leaf [''port''] (numStr (wi_port l)) (numStr (wi_port u)),
       Leaf [''mtu''] (numStr (wi_mtu l)) (numStr (wi_mtu u)),
       Flag [''disable''] (\<not> wi_enabled l) (\<not> wi_enabled u)])"

definition live_peers :: "wireguard_interface option \<Rightarrow> (string \<times> wireguard_peer) list" where
  "live_peers live = js_map (map (\<lambda>x. (pe_name x, x)) (case live of None \<Rightarrow> [] | Some l \<Rightarrow> wi_peers l))"

definition wanted_peers :: "wireguard_interface \<Rightarrow> (string \<times> wireguard_peer) list" where
  "wanted_peers u = js_map (map (\<lambda>x. (trim (pe_name x), x)) (filter (\<lambda>x. trim (pe_name x) \<noteq> []) (wi_peers u)))"

definition wireguard_body :: "wireguard_interface option \<Rightarrow> wireguard_interface \<Rightarrow> vyos_command list" where
  "wireguard_body live u = (let base = wireguard_base (wi_name u) in
     form_cmds base (wireguard_fields live u) @
     children_cmds (peer_path base) (\<lambda>name. diffPeer (peer_path base name)) (live_peers live) (wanted_peers u))"

definition diffWireguard :: "wireguard_interface option \<Rightarrow> wireguard_interface \<Rightarrow> vyos_command list" where
  "diffWireguard live u = ensureCreated (wireguard_body live u) (wireguard_base (wi_name u)) (live = None)"

definition deleteWireguard_cmds :: "string \<Rightarrow> vyos_command list" where
  "deleteWireguard_cmds name = [cdel (wireguard_base name)]"

section \<open>What the device holds\<close>

definition peer_before :: "path \<Rightarrow> string \<Rightarrow> wireguard_peer \<Rightarrow> path set" where
  "peer_before base name p = form_live (peer_path base name) (wg_peer_fields (Some p) p)"

definition peer_after :: "path \<Rightarrow> string \<Rightarrow> wireguard_peer \<Rightarrow> path set" where
  "peer_after base name p = form_desired (peer_path base name) (wg_peer_fields (Some p) p)"

definition wireguard_before :: "wireguard_interface option \<Rightarrow> path \<Rightarrow> path set" where
  "wireguard_before live base = (case live of None \<Rightarrow> {}
     | Some l \<Rightarrow> form_live base (wireguard_fields (Some l) l) \<union> children_paths (peer_before base) (live_peers live))"

definition wireguard_after :: "wireguard_interface \<Rightarrow> path set" where
  "wireguard_after u = (let base = wireguard_base (wi_name u) in
     form_desired base (wireguard_fields None u) \<union> children_paths (peer_after base) (wanted_peers u))"

definition wireguard_region :: "path \<Rightarrow> path set" where
  "wireguard_region base = form_region base (wireguard_fields None emptyWireguardInterface) \<union> cone (base @ [''peer''])"

text \<open>A peer that has a key is not an empty node.\<close>

definition keyed_peer :: "wireguard_peer \<Rightarrow> bool" where
  "keyed_peer p \<longleftrightarrow> blank_to_none (pe_public_key p) \<noteq> None"

definition wireguard_schema :: "path \<Rightarrow> (path \<Rightarrow> bool) \<Rightarrow> bool" where
  "wireguard_schema base single \<longleftrightarrow>
     (\<forall>k\<in>{''description'', ''private-key'', ''port'', ''mtu''}. single (base @ [k])) \<and>
     \<not> single (base @ [''address'']) \<and> \<not> single base \<and> \<not> single (butlast base) \<and>
     (\<forall>name. \<not> single (peer_path base name) \<and> \<not> single (peer_path base name @ [''allowed-ips'']) \<and>
       (\<forall>k\<in>{''public-key'', ''preshared-key'', ''address'', ''port'', ''persistent-keepalive''}.
          single (peer_path base name @ [k])))"

definition wireguards_schema :: "(path \<Rightarrow> bool) \<Rightarrow> bool" where
  "wireguards_schema single \<longleftrightarrow> (\<forall>name. wireguard_schema (wireguard_base name) single)"

lemma wg_peer_fields_ok:
  assumes "wireguard_schema base single"
  shows "\<forall>f\<in>set (wg_peer_fields live u). field_schema single (peer_path base name) f" and "apart_fields (wg_peer_fields live u)"
  using assms by (simp_all add: wg_peer_fields_def wireguard_schema_def apart_fields_def Let_def)

lemma peer_live_only: "form_live b (wg_peer_fields (Some l) u) = form_live b (wg_peer_fields (Some l) l)"
  by (simp add: form_live_def wg_peer_fields_def Let_def)

lemma peer_desired_only: "form_desired b (wg_peer_fields live u) = form_desired b (wg_peer_fields (Some u) u)"
  by (simp add: form_desired_def wg_peer_fields_def Let_def)

lemma wg_peer_fields_new: "\<forall>f\<in>set (wg_peer_fields None u). field_new f"
  by (simp add: wg_peer_fields_def emptyWireguardPeer_def numStr_def Let_def)

lemma keyed_peer_sets:
  assumes "keyed_peer u"
  shows "form_desired b (wg_peer_fields live u) \<noteq> {}"
  using assms by (auto simp: keyed_peer_def form_desired_def wg_peer_fields_def Let_def)

lemma keyed_peer_has_set: "keyed_peer u \<Longrightarrow> has_set (form_cmds b (wg_peer_fields None u))"
  by (simp add: form_new_sets [OF wg_peer_fields_new] keyed_peer_sets)

lemma diffPeer_form: "keyed_peer u \<or> live \<noteq> None \<Longrightarrow> diffPeer b live u = form_cmds b (wg_peer_fields live u)"
  using keyed_peer_has_set [of u b] by (cases live) (auto simp: diffPeer_def Let_def)

text \<open>The peers of an interface are children of its node.\<close>

interpretation wg_peers: child_editor wireguards_schema
  "\<lambda>n. wireguard_base n @ [''peer'']" "\<lambda>n. peer_path (wireguard_base n)" keyed_peer
  "\<lambda>n name. diffPeer (peer_path (wireguard_base n) name)"
  "\<lambda>n. peer_before (wireguard_base n)" "\<lambda>n. peer_after (wireguard_base n)"
proof
  fix n k l :: string and i j :: wireguard_peer and single dev
  let ?b = "peer_path (wireguard_base n)"
  show "prefix (wireguard_base n @ [''peer'']) (?b k)" by (simp add: peer_path_def)
  show "cone (?b k) \<inter> cone (?b l) = {}" if "k \<noteq> l"
    using that by (simp add: cone_disjoint_iff peer_path_def)
  show "peer_before (wireguard_base n) k i \<subseteq> cone (?b k)"
    using field_live_cone cone_append_subset by (fastforce simp: peer_before_def form_live_def)
  show "has_set (diffPeer (?b k) None i) \<and> peer_after (wireguard_base n) k i \<noteq> {}" if "keyed_peer i"
    using that by (simp add: diffPeer_form keyed_peer_has_set peer_after_def keyed_peer_sets)
  show "diffPeer (?b k) (Some j) i = []" if "peer_before (wireguard_base n) k j = peer_after (wireguard_base n) k i"
  proof -
    have "form_live (?b k) (wg_peer_fields (Some j) i) = form_desired (?b k) (wg_peer_fields (Some j) i)"
      using that unfolding peer_before_def peer_after_def peer_live_only [of _ j i] peer_desired_only [of _ "Some j" i] .
    then have "form_cmds (?b k) (wg_peer_fields (Some j) i) = []"
      by (intro form_idle) (simp_all add: wg_peer_fields_def apart_fields_def Let_def)
    then show ?thesis by (simp add: diffPeer_form)
  qed
  assume dev: "device_laws dev single" and "wireguards_schema single" and good: "keyed_peer i"
  then have sch: "wireguard_schema (wireguard_base n) single" by (simp add: wireguards_schema_def)
  have form: "edits dev (cone (?b k)) (form_cmds (?b k) (wg_peer_fields live i)) (form_live (?b k) (wg_peer_fields live i))
      (peer_after (wireguard_base n) k i)" for live
    using edits_widen [OF edits_form [OF dev wg_peer_fields_ok(1) [OF sch, of live i k] wg_peer_fields_ok(2) [OF sch, of live i]] form_region_cone]
    unfolding peer_after_def peer_desired_only [of _ live i] .
  show "edits dev (cone (?b k)) (diffPeer (?b k) None i) {} (peer_after (wireguard_base n) k i)"
    using form [of None] good by (simp add: diffPeer_form form_new_live [OF wg_peer_fields_new])
  show "edits dev (cone (?b k)) (diffPeer (?b k) (Some j) i) (peer_before (wireguard_base n) k j)
      (peer_after (wireguard_base n) k i)"
    using form [of "Some j"] unfolding peer_before_def peer_live_only [of _ j i] by (simp add: diffPeer_form)
qed

section \<open>What a save does\<close>

lemma wireguard_fields_ok:
  assumes "wireguard_schema base single"
  shows "\<forall>f\<in>set (wireguard_fields live u). field_schema single base f" and "apart_fields (wireguard_fields live u)"
  using assms by (simp_all add: wireguard_fields_def wireguard_schema_def apart_fields_def Let_def)

lemma wireguard_fields_only:
  "form_live b (wireguard_fields (Some l) u) = form_live b (wireguard_fields (Some l) l)"
  "form_desired b (wireguard_fields live u) = form_desired b (wireguard_fields None u)"
  "form_region b (wireguard_fields live u) = form_region b (wireguard_fields None emptyWireguardInterface)"
  by (simp_all add: form_live_def form_desired_def form_region_def wireguard_fields_def Let_def)

lemma wireguard_fields_new: "\<forall>f\<in>set (wireguard_fields None u). field_new f"
  by (simp add: wireguard_fields_def emptyWireguardInterface_def numStr_def Let_def)

lemma wireguard_form_live:
  "form_live b (wireguard_fields live u) \<union> children_paths (peer_before b) (live_peers live) = wireguard_before live b"
proof (cases live)
  case None
  then show ?thesis
    by (simp add: wireguard_before_def form_new_live [OF wireguard_fields_new] live_peers_def js_map_def children_paths_def)
next
  case (Some l)
  then show ?thesis by (simp add: wireguard_before_def wireguard_fields_only(1) [of b l u])
qed

lemma wanted_peers_keyed:
  assumes "\<forall>p\<in>set (wi_peers u). keyed_peer p"
  shows "\<forall>(k, p)\<in>set (wanted_peers u). keyed_peer p"
  using assms js_map_origin unfolding wanted_peers_def by fastforce

lemma wireguard_body_edits:
  assumes dev: "device_laws dev single" and sch: "wireguards_schema single" and "\<forall>p\<in>set (wi_peers u). keyed_peer p"
  shows "edits dev (wireguard_region (wireguard_base (wi_name u))) (wireguard_body live u)
    (wireguard_before live (wireguard_base (wi_name u))) (wireguard_after u)"
proof -
  let ?b = "wireguard_base (wi_name u)"
  have sch': "wireguard_schema ?b single" using sch by (simp add: wireguards_schema_def)
  have fields: "edits dev (form_region ?b (wireguard_fields None emptyWireguardInterface)) (form_cmds ?b (wireguard_fields live u))
      (form_live ?b (wireguard_fields live u)) (form_desired ?b (wireguard_fields None u))"
    using edits_form [OF dev wireguard_fields_ok [OF sch', of live u]]
    unfolding wireguard_fields_only(2,3) [of _ live u] .
  have peers: "edits dev (cone (?b @ [''peer''])) (children_cmds (peer_path ?b) (\<lambda>name. diffPeer (peer_path ?b name))
      (live_peers live) (wanted_peers u)) (children_paths (peer_before ?b) (live_peers live))
      (children_paths (peer_after ?b) (wanted_peers u))"
    using wanted_peers_keyed [OF assms(3)]
    by (intro wg_peers.children_edits [OF dev sch, of _ _ "wi_name u"]) (simp_all add: live_peers_def wanted_peers_def distinct_js_map)
  have "form_region ?b (wireguard_fields None emptyWireguardInterface) \<inter> cone (?b @ [''peer'']) = {}"
    by (simp add: form_region_def wireguard_fields_def Int_Un_distrib2 cone_disjoint_iff Let_def)
  then show ?thesis using edits_append [OF fields peers]
    unfolding wireguard_region_def wireguard_form_live wireguard_after_def wireguard_body_def Let_def by simp
qed

lemma wireguard_new_sets:
  assumes "\<forall>p\<in>set (wi_peers u). keyed_peer p"
  shows "has_set (wireguard_body None u) \<longleftrightarrow> wireguard_after u \<noteq> {}"
  using wg_peers.children_new_sets [OF wanted_peers_keyed [OF assms], of "wi_name u"]
  by (simp add: wireguard_body_def wireguard_after_def live_peers_def js_map_def form_new_sets [OF wireguard_fields_new] Let_def)

text \<open>
  Saving a WireGuard interface on a device that holds the one the form was opened with gives the
  interface of the form: the leaves, the addresses, and exactly the peers of the form, each with its
  own leaves and allowed networks; a new interface that asks for nothing is still created. Nothing
  else on the device changes. Every peer of the form has a key, as the form demands.
\<close>

theorem wireguard_save:
  assumes "device_laws dev single" and "wireguards_schema single"
    and "\<forall>p\<in>set (wi_peers u). keyed_peer p"
    and "S \<inter> wireguard_region (wireguard_base (wi_name u)) = wireguard_before live (wireguard_base (wi_name u))"
  shows "run dev (diffWireguard live u) S =
    (S - wireguard_region (wireguard_base (wi_name u))) \<union> wireguard_after u \<union>
    (if live = None \<and> wireguard_after u = {} then {wireguard_base (wi_name u)} else {})"
  unfolding diffWireguard_def
proof (rule run_ensureCreated [OF assms(1) wireguard_body_edits [OF assms(1-3)] assms(4)])
  show "wireguard_before live (wireguard_base (wi_name u)) = {} \<and>
      (has_set (wireguard_body live u) \<longleftrightarrow> wireguard_after u \<noteq> {})" if "live = None"
    using that wireguard_new_sets [OF assms(3)] by (simp add: wireguard_before_def)
  show "\<not> single (butlast (wireguard_base (wi_name u)))"
    using assms(2) by (simp add: wireguards_schema_def wireguard_schema_def)
qed

definition wireguard_single :: "path \<Rightarrow> bool" where
  "wireguard_single p \<longleftrightarrow> (length p = 4 \<and> last p \<in> {''description'', ''private-key'', ''port'', ''mtu''}) \<or>
     (length p = 6 \<and> last p \<in> {''public-key'', ''preshared-key'', ''address'', ''port'', ''persistent-keepalive''})"

lemma wireguard_single_schema: "wireguards_schema wireguard_single"
  by (simp add: wireguards_schema_def wireguard_schema_def wireguard_single_def peer_path_def wireguard_base_def)

text \<open>A peer that leaves and one that comes.\<close>

definition peer_of :: "string \<Rightarrow> string \<Rightarrow> wireguard_peer" where
  "peer_of name key = emptyWireguardPeer\<lparr>pe_name := name, pe_public_key := Some key\<rparr>"

definition wg_of :: "wireguard_peer list \<Rightarrow> wireguard_interface" where
  "wg_of ps = emptyWireguardInterface\<lparr>wi_name := ''wg0'', wi_mtu := Some 1420, wi_peers := ps\<rparr>"

lemma wireguard_save_witness:
  "run (ref_dev wireguard_single) (diffWireguard (Some (wg_of [peer_of ''old'' ''K1=''])) (wg_of [peer_of '' new'' ''K2='']))
     (wireguard_before (Some (wg_of [peer_of ''old'' ''K1=''])) (wireguard_base ''wg0'')) =
   wireguard_after (wg_of [peer_of '' new'' ''K2=''])"
proof -
  let ?l = "wg_of [peer_of ''old'' ''K1='']" and ?u = "wg_of [peer_of '' new'' ''K2='']" and ?b = "wireguard_base ''wg0''"
  have n: "wi_name ?u = ''wg0''" by (simp add: wg_of_def)
  have keyed: "\<forall>p\<in>set (wi_peers ?u). keyed_peer p" by code_simp
  let ?S = "wireguard_before (Some ?l) ?b"
  have e: "edits (ref_dev wireguard_single) (wireguard_region ?b) (wireguard_body (Some ?l) ?u) ?S (wireguard_after ?u)"
    using wireguard_body_edits [OF ref_dev_laws wireguard_single_schema keyed, of "Some ?l"] unfolding n .
  then have "?S \<inter> wireguard_region ?b = ?S" by (auto simp: edits_def)
  then show ?thesis
    using wireguard_save [OF ref_dev_laws wireguard_single_schema keyed, of ?S "Some ?l"] e unfolding n by (auto simp: edits_def)
qed

end
