(* ===== verification/Virtual_Server.thy ===== *)
theory Virtual_Server
  imports Forms Interfaces
begin

text \<open>
  Virtual servers: \<open>lib/virtual-server.ts\<close>, the reader and the diff of
  \<open>high-availability virtual-server\<close>. A virtual server is a form with a family of real servers below
  it; the node of a real server is set on its own before its leaves.
\<close>

section \<open>Model\<close>

definition ALGORITHMS :: "string list" where
  "ALGORITHMS = [''round-robin'', ''weighted-round-robin'', ''least-connection'', ''weighted-least-connection'',
     ''source-hashing'', ''destination-hashing'', ''locality-based-least-connection'']"

definition FORWARD_METHODS :: "string list" where
  "FORWARD_METHODS = [''nat'', ''direct'', ''tunnel'']"

record real_server =
  rs_address :: string
  rs_port :: "int option"
  rs_weight :: "int option"
  rs_connection_timeout :: "int option"
  rs_health_check_script :: "string option"

text \<open>The reader does not check the three enumerated fields, so they are strings.\<close>

record virtual_server =
  vs_id :: string
  vs_port :: "int option"
  vs_protocol :: "string option"
  vs_fwmark :: "int option"
  vs_algorithm :: "string option"
  vs_forward_method :: "string option"
  vs_delay_loop :: "int option"
  vs_persistence_timeout :: "int option"
  vs_real_servers :: "real_server list"

definition emptyRealServer :: real_server where
  "emptyRealServer = \<lparr>rs_address = [], rs_port = None, rs_weight = None, rs_connection_timeout = None,
     rs_health_check_script = None\<rparr>"

definition emptyVirtualServer :: virtual_server where
  "emptyVirtualServer = \<lparr>vs_id = [], vs_port = None, vs_protocol = None, vs_fwmark = None, vs_algorithm = None,
     vs_forward_method = None, vs_delay_loop = None, vs_persistence_timeout = None, vs_real_servers = []\<rparr>"

section \<open>Reader\<close>

definition parseRealServer :: "string \<times> json \<Rightarrow> real_server" where
  "parseRealServer e = (let raw = or_empty (snd e) in
     \<lparr>rs_address = fst e, rs_port = childNum raw ''port'', rs_weight = childNum raw ''weight'',
      rs_connection_timeout = childNum raw ''connection-timeout'',
      rs_health_check_script = Option.bind (js_get raw ''health-check'') (\<lambda>h. childStr h ''script'')\<rparr>)"

definition parseVirtualServer :: "(string \<Rightarrow> string \<Rightarrow> int) \<Rightarrow> string \<times> json \<Rightarrow> virtual_server" where
  "parseVirtualServer lc e = (let raw = or_empty (snd e) in
     \<lparr>vs_id = fst e, vs_port = childNum raw ''port'', vs_protocol = childStr raw ''protocol'',
      vs_fwmark = childNum raw ''fwmark'', vs_algorithm = childStr raw ''algorithm'',
      vs_forward_method = childStr raw ''forward-method'', vs_delay_loop = childNum raw ''delay-loop'',
      vs_persistence_timeout = childNum raw ''persistence-timeout'',
      vs_real_servers = sort_by (\<lambda>a b. lc (rs_address a) (rs_address b))
        (map parseRealServer (object_entries raw ''real-server''))\<rparr>)"

definition fetchVirtualServers :: "(string \<Rightarrow> string \<Rightarrow> int) \<Rightarrow> vyos_response \<Rightarrow> read_error + virtual_server list" where
  "fetchVirtualServers lc resp =
     (case config_of_response ''Device returned an error reading virtual servers.'' resp of Inl e \<Rightarrow> Inl e
      | Inr node \<Rightarrow> Inr (sort_by (\<lambda>a b. lc (vs_id a) (vs_id b)) (map (parseVirtualServer lc) (obj_entries node))))"

section \<open>Diff\<close>

definition virtual_base :: "string \<Rightarrow> path" where
  "virtual_base server = [''high-availability'', ''virtual-server'', server]"

definition real_path :: "path \<Rightarrow> string \<Rightarrow> path" where
  "real_path base address = base @ [''real-server'', address]"

definition real_fields :: "real_server option \<Rightarrow> real_server \<Rightarrow> field list" where
  "real_fields live u =
     (let l = (case live of None \<Rightarrow> emptyRealServer | Some x \<Rightarrow> x) in
      [Leaf [''port''] (numStr (rs_port l)) (numStr (rs_port u)),
       Leaf [''weight''] (numStr (rs_weight l)) (numStr (rs_weight u)),
       Leaf [''connection-timeout''] (numStr (rs_connection_timeout l)) (numStr (rs_connection_timeout u)),
       Leaf [''health-check'', ''script''] (rs_health_check_script l) (blank_to_none (rs_health_check_script u))])"

definition diffRealServer :: "path \<Rightarrow> real_server option \<Rightarrow> real_server \<Rightarrow> vyos_command list" where
  "diffRealServer base live u =
     (if live = None then [cset (real_path base (rs_address u))] else []) @
     form_cmds (real_path base (rs_address u)) (real_fields live u)"

definition virtual_fields :: "virtual_server option \<Rightarrow> virtual_server \<Rightarrow> field list" where
  "virtual_fields live u =
     (let l = (case live of None \<Rightarrow> emptyVirtualServer | Some x \<Rightarrow> x) in
      [Leaf [''port''] (numStr (vs_port l)) (numStr (vs_port u)),
       Leaf [''protocol''] (vs_protocol l) (blank_to_none (vs_protocol u)),
       Leaf [''fwmark''] (numStr (vs_fwmark l)) (numStr (vs_fwmark u)),
       Leaf [''algorithm''] (vs_algorithm l) (blank_to_none (vs_algorithm u)),
       Leaf [''forward-method''] (vs_forward_method l) (blank_to_none (vs_forward_method u)),
       Leaf [''delay-loop''] (numStr (vs_delay_loop l)) (numStr (vs_delay_loop u)),
       Leaf [''persistence-timeout''] (numStr (vs_persistence_timeout l)) (numStr (vs_persistence_timeout u))])"

definition by_address :: "real_server list \<Rightarrow> (string \<times> real_server) list" where
  "by_address rs = map (\<lambda>r. (rs_address r, r)) rs"

definition live_real :: "virtual_server option \<Rightarrow> real_server list" where
  "live_real live = (case live of None \<Rightarrow> [] | Some l \<Rightarrow> vs_real_servers l)"

definition wanted_real :: "virtual_server \<Rightarrow> real_server list" where
  "wanted_real u = map (\<lambda>r. r\<lparr>rs_address := trim (rs_address r)\<rparr>) (filter (\<lambda>r. trim (rs_address r) \<noteq> []) (vs_real_servers u))"

definition real_cmds :: "path \<Rightarrow> real_server list \<Rightarrow> real_server list \<Rightarrow> vyos_command list" where
  "real_cmds base live want =
     concat (map (\<lambda>r. diffRealServer base (map_of (js_map (by_address live)) (rs_address r)) r) want) @
     map (\<lambda>r. cdel (real_path base (rs_address r))) (filter (\<lambda>r. rs_address r \<notin> rs_address ` set want) live)"

definition virtual_body :: "virtual_server option \<Rightarrow> virtual_server \<Rightarrow> vyos_command list" where
  "virtual_body live u = (let base = virtual_base (vs_id u) in
     form_cmds base (virtual_fields live u) @ real_cmds base (live_real live) (wanted_real u))"

definition diffVirtualServer :: "virtual_server option \<Rightarrow> virtual_server \<Rightarrow> vyos_command list" where
  "diffVirtualServer live u = ensureCreated (virtual_body live u) (virtual_base (vs_id u)) (live = None)"

definition deleteVirtualServer_cmds :: "string \<Rightarrow> vyos_command list" where
  "deleteVirtualServer_cmds server = [cdel (virtual_base server)]"

section \<open>What the device holds\<close>

definition real_before :: "path \<Rightarrow> string \<Rightarrow> real_server \<Rightarrow> path set" where
  "real_before base a r = insert (real_path base a) (form_live (real_path base a) (real_fields (Some r) r))"

definition real_after :: "path \<Rightarrow> string \<Rightarrow> real_server \<Rightarrow> path set" where
  "real_after base a r = insert (real_path base a) (form_desired (real_path base a) (real_fields None r))"

definition virtual_before :: "virtual_server option \<Rightarrow> path \<Rightarrow> path set" where
  "virtual_before live base = (case live of None \<Rightarrow> {}
     | Some l \<Rightarrow> form_live base (virtual_fields (Some l) l) \<union> children_paths (real_before base) (by_address (vs_real_servers l)))"

definition virtual_after :: "virtual_server \<Rightarrow> path set" where
  "virtual_after u = (let base = virtual_base (vs_id u) in
     form_desired base (virtual_fields None u) \<union> children_paths (real_after base) (by_address (wanted_real u)))"

definition virtual_region :: "path \<Rightarrow> path set" where
  "virtual_region base = form_region base (virtual_fields None emptyVirtualServer) \<union> cone (base @ [''real-server''])"

definition virtual_schema :: "(path \<Rightarrow> bool) \<Rightarrow> bool" where
  "virtual_schema single \<longleftrightarrow> (\<forall>n. let base = virtual_base n in
     (\<forall>k\<in>{''port'', ''protocol'', ''fwmark'', ''algorithm'', ''forward-method'', ''delay-loop'', ''persistence-timeout''}.
        single (base @ [k])) \<and>
     \<not> single (base @ [''real-server'']) \<and> \<not> single (butlast base) \<and>
     (\<forall>a. (\<forall>k\<in>{''port'', ''weight'', ''connection-timeout''}. single (real_path base a @ [k])) \<and>
        single (real_path base a @ [''health-check'', ''script''])))"

lemma real_fields_ok:
  assumes "virtual_schema single"
  shows "\<forall>f\<in>set (real_fields live u). field_schema single (real_path (virtual_base n) a) f" and "apart_fields (real_fields live u)"
  using assms by (simp_all add: real_fields_def virtual_schema_def apart_fields_def Let_def)

lemma real_fields_only:
  "form_live b (real_fields (Some l) u) = form_live b (real_fields (Some l) v)"
  "form_desired b (real_fields (Some l) u) = form_desired b (real_fields None u)"
  by (simp_all add: form_live_def form_desired_def real_fields_def Let_def)

lemma real_fields_new: "\<forall>f\<in>set (real_fields None u). field_new f"
  by (simp add: real_fields_def emptyRealServer_def numStr_def Let_def)

lemma real_paths_below:
  "b \<notin> form_live b (real_fields live u)" "b \<notin> form_desired b (real_fields live u)"
  "b \<notin> form_region b (real_fields live u)"
  by (auto simp: form_live_def form_desired_def form_region_def real_fields_def leaf_paths_def Let_def split: option.splits)

definition at_address :: "string \<Rightarrow> real_server \<Rightarrow> real_server" where
  "at_address a r = r\<lparr>rs_address := a\<rparr>"

lemma real_fields_address [simp]: "real_fields live (at_address a r) = real_fields live r"
  by (simp add: real_fields_def at_address_def Let_def)

text \<open>The real servers are children of the virtual server.\<close>

interpretation reals: child_editor virtual_schema
  "\<lambda>n. virtual_base n @ [''real-server'']" "\<lambda>n. real_path (virtual_base n)" "\<lambda>r. True"
  "\<lambda>n a live r. diffRealServer (virtual_base n) live (at_address a r)"
  "\<lambda>n. real_before (virtual_base n)" "\<lambda>n. real_after (virtual_base n)"
proof
  fix n k l :: string and i j :: real_server and single dev
  let ?b = "real_path (virtual_base n)"
  have addr: "rs_address (at_address k i) = k" by (simp add: at_address_def)
  show "prefix (virtual_base n @ [''real-server'']) (?b k)" by (simp add: real_path_def)
  show "cone (?b k) \<inter> cone (?b l) = {}" if "k \<noteq> l"
    using that by (simp add: cone_disjoint_iff real_path_def)
  show "real_before (virtual_base n) k i \<subseteq> cone (?b k)"
    using field_live_cone cone_append_subset by (fastforce simp: real_before_def form_live_def)
  show "has_set (diffRealServer (virtual_base n) None (at_address k i)) \<and> real_after (virtual_base n) k i \<noteq> {}"
    by (simp add: diffRealServer_def real_after_def has_set_def)
  show "diffRealServer (virtual_base n) (Some j) (at_address k i) = []"
    if "real_before (virtual_base n) k j = real_after (virtual_base n) k i"
  proof -
    have "form_live (?b k) (real_fields (Some j) i) = form_desired (?b k) (real_fields (Some j) i)"
      using that real_paths_below unfolding real_before_def real_after_def real_fields_only(1) [of _ j i j] real_fields_only(2)
      by (metis insert_ident)
    then have "form_cmds (?b k) (real_fields (Some j) i) = []"
      by (intro form_idle) (simp_all add: real_fields_def apart_fields_def Let_def)
    then show ?thesis by (simp add: diffRealServer_def addr)
  qed
  assume dev: "device_laws dev single" and sch: "virtual_schema single"
  have form: "edits dev (form_region (?b k) (real_fields live i)) (form_cmds (?b k) (real_fields live i))
      (form_live (?b k) (real_fields live i)) (form_desired (?b k) (real_fields live i))" for live
    by (rule edits_form [OF dev real_fields_ok [OF sch]])
  have node: "cone (?b k) = cone (?b k) \<union> form_region (?b k) (real_fields live i)" for live
    using form_region_cone by blast
  have multi: "\<not> single (butlast (?b k))" using sch by (simp add: virtual_schema_def real_path_def butlast_append Let_def)
  have framed: "edits dev (cone (?b k)) (form_cmds (?b k) (real_fields live i))
      (insert (?b k) (form_live (?b k) (real_fields live i))) (insert (?b k) (form_desired (?b k) (real_fields live i)))" for live
    using edits_frame [OF form [of live], of "cone (?b k)" "{?b k}"] real_paths_below form_region_cone by simp
  have "edits dev (cone (?b k)) [cset (?b k)] {} {?b k}"
    by (rule editsI) (auto simp: dev_set_multi [OF dev multi])
  then have "edits dev (cone (?b k)) ([cset (?b k)] @ form_cmds (?b k) (real_fields None i)) {}
      (insert (?b k) (form_desired (?b k) (real_fields None i)))"
    using framed [of None] by (intro edits_seq) (simp_all add: form_new_live [OF real_fields_new])
  then show "edits dev (cone (?b k)) (diffRealServer (virtual_base n) None (at_address k i)) {} (real_after (virtual_base n) k i)"
    by (simp add: diffRealServer_def addr real_after_def)
  show "edits dev (cone (?b k)) (diffRealServer (virtual_base n) (Some j) (at_address k i))
      (real_before (virtual_base n) k j) (real_after (virtual_base n) k i)"
    using framed [of "Some j"] unfolding real_before_def real_after_def real_fields_only(2) real_fields_only(1) [of _ j i j]
    by (simp add: diffRealServer_def addr)
qed

section \<open>What a save does\<close>

lemma by_address_facts:
  "fst ` set (by_address rs) = rs_address ` set rs" "map fst (by_address rs) = map rs_address rs"
  "map_of (by_address rs) a = None \<longleftrightarrow> a \<notin> rs_address ` set rs"
  by (simp_all add: by_address_def map_of_eq_None_iff comp_def image_image)

lemma real_cmds_children:
  assumes "distinct (map rs_address live)"
  shows "real_cmds base live want = children_cmds (real_path base)
    (\<lambda>a l r. diffRealServer base l (at_address a r)) (by_address live) (by_address want)"
proof -
  have "map_of (js_map (by_address live)) = map_of (by_address live)"
    using assms by (intro map_of_js_map_distinct) (simp add: by_address_facts)
  moreover have "map (\<lambda>r. cdel (real_path base (rs_address r))) (filter (\<lambda>r. rs_address r \<notin> rs_address ` set want) live) =
      map (\<lambda>(k, i). cdel (real_path base k)) (filter (\<lambda>(k, i). map_of (by_address want) k = None) (by_address live))"
    by (simp only: by_address_facts by_address_def [of live]) (simp add: filter_map comp_def)
  ultimately show ?thesis
    by (simp add: real_cmds_def children_cmds_def by_address_def [of want] at_address_def comp_def)
qed

lemma virtual_fields_ok:
  assumes "virtual_schema single"
  shows "\<forall>f\<in>set (virtual_fields live u). field_schema single (virtual_base n) f" and "apart_fields (virtual_fields live u)"
  using assms by (simp_all add: virtual_fields_def virtual_schema_def apart_fields_def Let_def)

lemma virtual_fields_only:
  "form_live b (virtual_fields (Some l) u) = form_live b (virtual_fields (Some l) v)"
  "form_desired b (virtual_fields live u) = form_desired b (virtual_fields None u)"
  "form_region b (virtual_fields live u) = form_region b (virtual_fields None emptyVirtualServer)"
  by (simp_all add: form_live_def form_desired_def form_region_def virtual_fields_def Let_def)

lemma virtual_fields_new: "\<forall>f\<in>set (virtual_fields None u). field_new f"
  by (simp add: virtual_fields_def emptyVirtualServer_def numStr_def Let_def)

lemma virtual_form_live:
  "form_live b (virtual_fields live u) \<union> children_paths (real_before b) (by_address (live_real live)) = virtual_before live b"
proof (cases live)
  case None
  then show ?thesis
    by (simp add: virtual_before_def form_new_live [OF virtual_fields_new] live_real_def by_address_def children_paths_def)
next
  case (Some l)
  then show ?thesis by (simp add: virtual_before_def live_real_def virtual_fields_only(1) [of b l u l])
qed

lemma virtual_body_edits:
  assumes dev: "device_laws dev single" and sch: "virtual_schema single"
    and live: "distinct (map rs_address (live_real live))" and want: "distinct (map rs_address (wanted_real u))"
  shows "edits dev (virtual_region (virtual_base (vs_id u))) (virtual_body live u)
    (virtual_before live (virtual_base (vs_id u))) (virtual_after u)"
proof -
  let ?b = "virtual_base (vs_id u)"
  have fields: "edits dev (form_region ?b (virtual_fields None emptyVirtualServer)) (form_cmds ?b (virtual_fields live u))
      (form_live ?b (virtual_fields live u)) (form_desired ?b (virtual_fields None u))"
    using edits_form [OF dev virtual_fields_ok [OF sch, of live u]]
    unfolding virtual_fields_only(2,3) [of _ live u] .
  have servers: "edits dev (cone (?b @ [''real-server''])) (real_cmds ?b (live_real live) (wanted_real u))
      (children_paths (real_before ?b) (by_address (live_real live))) (children_paths (real_after ?b) (by_address (wanted_real u)))"
    unfolding real_cmds_children [OF live] using live want
    by (intro reals.children_edits [OF dev sch, of _ _ "vs_id u"]) (simp_all add: by_address_facts)
  have "form_region ?b (virtual_fields None emptyVirtualServer) \<inter> cone (?b @ [''real-server'']) = {}"
    by (simp add: form_region_def virtual_fields_def Int_Un_distrib2 cone_disjoint_iff Let_def)
  then show ?thesis using edits_append [OF fields servers]
    unfolding virtual_region_def virtual_form_live virtual_after_def virtual_body_def Let_def by simp
qed

lemma virtual_new_sets: "has_set (virtual_body None u) \<longleftrightarrow> virtual_after u \<noteq> {}"
proof -
  have "real_cmds b [] want = children_cmds (real_path b) (\<lambda>a l r. diffRealServer b l (at_address a r)) [] (by_address want)" for b want
    using real_cmds_children [of "[]" b want] by (simp add: by_address_def)
  then show ?thesis
    using reals.children_new_sets [of "by_address (wanted_real u)" "vs_id u"]
    by (simp add: virtual_body_def virtual_after_def live_real_def form_new_sets [OF virtual_fields_new] Let_def split_beta)
qed

text \<open>
  Saving a virtual server on a device that holds the one the form was opened with gives the
  virtual server of the form: its leaves, and exactly the real servers of the form, each with its
  leaves; a new one that asks for nothing is still created. Nothing else on the device changes. The
  form lists no address twice.
\<close>

theorem virtual_server_save:
  assumes "device_laws dev single" and "virtual_schema single"
    and "distinct (map rs_address (live_real live))" and "distinct (map rs_address (wanted_real u))"
    and "S \<inter> virtual_region (virtual_base (vs_id u)) = virtual_before live (virtual_base (vs_id u))"
  shows "run dev (diffVirtualServer live u) S =
    (S - virtual_region (virtual_base (vs_id u))) \<union> virtual_after u \<union>
    (if live = None \<and> virtual_after u = {} then {virtual_base (vs_id u)} else {})"
  unfolding diffVirtualServer_def
proof (rule run_ensureCreated [OF assms(1) virtual_body_edits [OF assms(1-4)] assms(5)])
  show "virtual_before live (virtual_base (vs_id u)) = {} \<and> (has_set (virtual_body live u) \<longleftrightarrow> virtual_after u \<noteq> {})"
    if "live = None"
    using that virtual_new_sets by (simp add: virtual_before_def)
  show "\<not> single (butlast (virtual_base (vs_id u)))" using assms(2) by (auto simp: virtual_schema_def Let_def)
qed

definition virtual_single :: "path \<Rightarrow> bool" where
  "virtual_single p \<longleftrightarrow> (length p = 4 \<and> last p \<noteq> ''real-server'') \<or> (length p = 6 \<and> last p \<noteq> ''health-check'') \<or>
     (length p = 7 \<and> last p = ''script'')"

lemma virtual_single_schema: "virtual_schema virtual_single"
  by (simp add: virtual_schema_def virtual_single_def real_path_def virtual_base_def)

definition vs_of :: "real_server list \<Rightarrow> virtual_server" where
  "vs_of rs = emptyVirtualServer\<lparr>vs_id := ''vip'', vs_port := Some 443, vs_real_servers := rs\<rparr>"

definition rs_of :: "string \<Rightarrow> int \<Rightarrow> real_server" where
  "rs_of a w = emptyRealServer\<lparr>rs_address := a, rs_weight := Some w\<rparr>"

lemma virtual_server_save_witness:
  "run (ref_dev virtual_single) (diffVirtualServer (Some (vs_of [rs_of ''a'' 1, rs_of ''b'' 2])) (vs_of [rs_of '' b'' 3, rs_of ''c'' 4]))
     (virtual_before (Some (vs_of [rs_of ''a'' 1, rs_of ''b'' 2])) (virtual_base ''vip'')) =
   virtual_after (vs_of [rs_of '' b'' 3, rs_of ''c'' 4])"
proof -
  let ?l = "vs_of [rs_of ''a'' 1, rs_of ''b'' 2]" and ?u = "vs_of [rs_of '' b'' 3, rs_of ''c'' 4]" and ?b = "virtual_base ''vip''"
  have n: "vs_id ?u = ''vip''" by (simp add: vs_of_def)
  have d: "distinct (map rs_address (live_real (Some ?l)))" "distinct (map rs_address (wanted_real ?u))" by code_simp+
  let ?S = "virtual_before (Some ?l) ?b"
  have e: "edits (ref_dev virtual_single) (virtual_region ?b) (virtual_body (Some ?l) ?u) ?S (virtual_after ?u)"
    using virtual_body_edits [OF ref_dev_laws virtual_single_schema d] unfolding n .
  then have "?S \<inter> virtual_region ?b = ?S" by (auto simp: edits_def)
  then show ?thesis
    using virtual_server_save [OF ref_dev_laws virtual_single_schema d, of ?S] e unfolding n by (auto simp: edits_def)
qed

end
