(* ===== verification/Vrrp.thy ===== *)
theory Vrrp
  imports Forms Interfaces
begin

text \<open>
  VRRP: \<open>lib/vrrp.ts\<close>, the reader of \<open>high-availability vrrp\<close> and the diffs of a group, of a sync group
  and of the global parameters. A group is a form of some thirty leaves with a family of virtual
  addresses below it; its authentication is a node of its own rule, because a read never shows the
  password.
\<close>

section \<open>Model\<close>

record vrrp_vip =
  vip_address :: string
  vip_interface :: "string option"

record vrrp_auth =
  au_type :: "string option"
  au_password :: "string option"

record health_check =
  hc_script :: "string option"
  hc_interval :: "int option"
  hc_failure_count :: "int option"
  hc_timeout :: "int option"

record transition_script =
  ts_master :: "string option"
  ts_backup :: "string option"
  ts_fault :: "string option"
  ts_stop :: "string option"

record vrrp_garp =
  ga_interval :: "string option"
  ga_master_delay :: "int option"
  ga_master_refresh :: "int option"
  ga_master_refresh_repeat :: "int option"
  ga_master_repeat :: "int option"

record vrrp_group =
  vg_name :: string
  vg_interface :: "string option"
  vg_vrid :: "int option"
  vg_priority :: "int option"
  vg_advertise_interval :: "int option"
  vg_description :: "string option"
  vg_version :: "int option"
  vg_addresses :: "vrrp_vip list"
  vg_excluded_addresses :: "string list"
  vg_hello_source_address :: "string option"
  vg_peer_address :: "string option"
  vg_no_preempt :: bool
  vg_preempt_delay :: "int option"
  vg_rfc3768_compatibility :: bool
  vg_enabled :: bool
  vg_auth :: vrrp_auth
  vg_track_interfaces :: "string list"
  vg_track_exclude_vrrp_interface :: bool
  vg_health_check :: health_check
  vg_transition_script :: transition_script
  vg_garp :: vrrp_garp

record vrrp_sync_group =
  sg_name :: string
  sg_members :: "string list"
  sg_health_check :: health_check
  sg_transition_script :: transition_script

record vrrp_global =
  gl_startup_delay :: "int option"
  gl_version :: "int option"
  gl_garp :: vrrp_garp

record vrrp_config =
  vc_groups :: "vrrp_group list"
  vc_sync_groups :: "vrrp_sync_group list"
  vc_global :: vrrp_global

definition emptyHealthCheck :: health_check where
  "emptyHealthCheck = \<lparr>hc_script = None, hc_interval = None, hc_failure_count = None, hc_timeout = None\<rparr>"

definition emptyTransitionScript :: transition_script where
  "emptyTransitionScript = \<lparr>ts_master = None, ts_backup = None, ts_fault = None, ts_stop = None\<rparr>"

definition emptyGarp :: vrrp_garp where
  "emptyGarp = \<lparr>ga_interval = None, ga_master_delay = None, ga_master_refresh = None,
     ga_master_refresh_repeat = None, ga_master_repeat = None\<rparr>"

definition emptyGroup :: vrrp_group where
  "emptyGroup = \<lparr>vg_name = [], vg_interface = None, vg_vrid = None, vg_priority = None, vg_advertise_interval = None,
     vg_description = None, vg_version = None, vg_addresses = [], vg_excluded_addresses = [],
     vg_hello_source_address = None, vg_peer_address = None, vg_no_preempt = False, vg_preempt_delay = None,
     vg_rfc3768_compatibility = False, vg_enabled = True, vg_auth = \<lparr>au_type = None, au_password = None\<rparr>,
     vg_track_interfaces = [], vg_track_exclude_vrrp_interface = False, vg_health_check = emptyHealthCheck,
     vg_transition_script = emptyTransitionScript, vg_garp = emptyGarp\<rparr>"

definition emptySyncGroup :: vrrp_sync_group where
  "emptySyncGroup = \<lparr>sg_name = [], sg_members = [], sg_health_check = emptyHealthCheck,
     sg_transition_script = emptyTransitionScript\<rparr>"

definition emptyGlobal :: vrrp_global where
  "emptyGlobal = \<lparr>gl_startup_delay = None, gl_version = None, gl_garp = emptyGarp\<rparr>"

section \<open>Reader\<close>

text \<open>\<open>childCfg\<close> of this module takes arrays for objects.\<close>

definition vrrp_childCfg :: "json \<Rightarrow> string \<Rightarrow> json option" where
  "vrrp_childCfg v key = (case js_get v key of
       Some (JObj kvs) \<Rightarrow> Some (JObj kvs) | Some (JArr xs) \<Rightarrow> Some (JArr xs) | _ \<Rightarrow> None)"

definition keysOf :: "json option \<Rightarrow> string list" where
  "keysOf v = (case v of None \<Rightarrow> [] | Some x \<Rightarrow> sort_by str_cmp (map fst (obj_entries x)))"

definition parseHealthCheck :: "json option \<Rightarrow> health_check" where
  "parseHealthCheck v = (case v of None \<Rightarrow> emptyHealthCheck
     | Some n \<Rightarrow> \<lparr>hc_script = childStr n ''script'', hc_interval = childNum n ''interval'',
         hc_failure_count = childNum n ''failure-count'', hc_timeout = childNum n ''timeout''\<rparr>)"

definition parseTransition :: "json option \<Rightarrow> transition_script" where
  "parseTransition v = (case v of None \<Rightarrow> emptyTransitionScript
     | Some n \<Rightarrow> \<lparr>ts_master = childStr n ''master'', ts_backup = childStr n ''backup'',
         ts_fault = childStr n ''fault'', ts_stop = childStr n ''stop''\<rparr>)"

definition parseGarp :: "json option \<Rightarrow> vrrp_garp" where
  "parseGarp v = (case v of None \<Rightarrow> emptyGarp
     | Some n \<Rightarrow> \<lparr>ga_interval = childStr n ''interval'', ga_master_delay = childNum n ''master-delay'',
         ga_master_refresh = childNum n ''master-refresh'',
         ga_master_refresh_repeat = childNum n ''master-refresh-repeat'',
         ga_master_repeat = childNum n ''master-repeat''\<rparr>)"

definition parse_auth :: "json option \<Rightarrow> vrrp_auth" where
  "parse_auth auth = \<lparr>au_type = (case Option.bind auth (\<lambda>a. childStr a ''type'') of Some t \<Rightarrow> Some t
       | None \<Rightarrow> if auth \<noteq> None then Some ''plaintext-password'' else None), au_password = None\<rparr>"

definition parseGroup :: "(string \<Rightarrow> string \<Rightarrow> int) \<Rightarrow> string \<times> json \<Rightarrow> read_error + vrrp_group" where
  "parseGroup lc e = (let raw = or_empty (snd e); track = vrrp_childCfg raw ''track'' in
     case has_key ''no-preempt'' raw of Inl err \<Rightarrow> Inl err | Inr no_preempt \<Rightarrow>
     (case has_key ''rfc3768-compatibility'' raw of Inl err \<Rightarrow> Inl err | Inr rfc \<Rightarrow>
     (case has_key ''disable'' raw of Inl err \<Rightarrow> Inl err | Inr disabled \<Rightarrow>
     (case (case track of None \<Rightarrow> Inr False | Some t \<Rightarrow> has_key ''exclude-vrrp-interface'' t) of
        Inl err \<Rightarrow> Inl err | Inr exclude \<Rightarrow>
       Inr \<lparr>vg_name = fst e, vg_interface = childStr raw ''interface'', vg_vrid = childNum raw ''vrid'',
         vg_priority = childNum raw ''priority'', vg_advertise_interval = childNum raw ''advertise-interval'',
         vg_description = childStr raw ''description'', vg_version = childNum raw ''version'',
         vg_addresses = sort_by (\<lambda>a b. lc (vip_address a) (vip_address b))
           (map (\<lambda>(a, v). \<lparr>vip_address = a, vip_interface = childStr (or_empty v) ''interface''\<rparr>)
             (obj_entries (obj_or_empty (vrrp_childCfg raw ''address'')))),
         vg_excluded_addresses = keysOf (vrrp_childCfg raw ''excluded-address''),
         vg_hello_source_address = childStr raw ''hello-source-address'',
         vg_peer_address = childStr raw ''peer-address'', vg_no_preempt = no_preempt,
         vg_preempt_delay = childNum raw ''preempt-delay'', vg_rfc3768_compatibility = rfc,
         vg_enabled = (\<not> disabled), vg_auth = parse_auth (vrrp_childCfg raw ''authentication''),
         vg_track_interfaces = keysOf (vrrp_childCfg (obj_or_empty track) ''interface''),
         vg_track_exclude_vrrp_interface = exclude,
         vg_health_check = parseHealthCheck (vrrp_childCfg raw ''health-check''),
         vg_transition_script = parseTransition (vrrp_childCfg raw ''transition-script''),
         vg_garp = parseGarp (vrrp_childCfg raw ''garp'')\<rparr>))))"

definition parseSyncGroup :: "string \<times> json \<Rightarrow> vrrp_sync_group" where
  "parseSyncGroup e = (let raw = or_empty (snd e) in
     \<lparr>sg_name = fst e, sg_members = keysOf (vrrp_childCfg raw ''member''),
      sg_health_check = parseHealthCheck (vrrp_childCfg raw ''health-check''),
      sg_transition_script = parseTransition (vrrp_childCfg raw ''transition-script'')\<rparr>)"

definition fetchVrrp :: "(string \<Rightarrow> string \<Rightarrow> int) \<Rightarrow> vyos_response \<Rightarrow> read_error + vrrp_config" where
  "fetchVrrp lc resp =
     (case config_of_response ''Device returned an error reading VRRP configuration.'' resp of Inl e \<Rightarrow> Inl e
      | Inr vrrp \<Rightarrow>
        (case map_res (parseGroup lc) (obj_entries (obj_or_empty (vrrp_childCfg vrrp ''group''))) of Inl e \<Rightarrow> Inl e
         | Inr groups \<Rightarrow> (let gp = obj_or_empty (vrrp_childCfg vrrp ''global-parameters'') in
             Inr \<lparr>vc_groups = sort_by (\<lambda>a b. lc (vg_name a) (vg_name b)) groups,
               vc_sync_groups = sort_by (\<lambda>a b. lc (sg_name a) (sg_name b))
                 (map parseSyncGroup (obj_entries (obj_or_empty (vrrp_childCfg vrrp ''sync-group'')))),
               vc_global = \<lparr>gl_startup_delay = childNum gp ''startup-delay'', gl_version = childNum gp ''version'',
                 gl_garp = parseGarp (vrrp_childCfg gp ''garp'')\<rparr>\<rparr>)))"

section \<open>Diffs\<close>

definition vrrp_base :: path where
  "vrrp_base = [''high-availability'', ''vrrp'']"

definition health_fields :: "health_check \<Rightarrow> health_check \<Rightarrow> field list" where
  "health_fields l u =
     [Leaf [''health-check'', ''script''] (hc_script l) (blank_to_none (hc_script u)),
      Leaf [''health-check'', ''interval''] (numStr (hc_interval l)) (numStr (hc_interval u)),
      Leaf [''health-check'', ''failure-count''] (numStr (hc_failure_count l)) (numStr (hc_failure_count u)),
      Leaf [''health-check'', ''timeout''] (numStr (hc_timeout l)) (numStr (hc_timeout u))]"

definition transition_fields :: "transition_script \<Rightarrow> transition_script \<Rightarrow> field list" where
  "transition_fields l u =
     [Leaf [''transition-script'', ''master''] (ts_master l) (blank_to_none (ts_master u)),
      Leaf [''transition-script'', ''backup''] (ts_backup l) (blank_to_none (ts_backup u)),
      Leaf [''transition-script'', ''fault''] (ts_fault l) (blank_to_none (ts_fault u)),
      Leaf [''transition-script'', ''stop''] (ts_stop l) (blank_to_none (ts_stop u))]"

definition garp_fields :: "vrrp_garp \<Rightarrow> vrrp_garp \<Rightarrow> field list" where
  "garp_fields l u =
     [Leaf [''garp'', ''interval''] (ga_interval l) (blank_to_none (ga_interval u)),
      Leaf [''garp'', ''master-delay''] (numStr (ga_master_delay l)) (numStr (ga_master_delay u)),
      Leaf [''garp'', ''master-refresh''] (numStr (ga_master_refresh l)) (numStr (ga_master_refresh u)),
      Leaf [''garp'', ''master-refresh-repeat''] (numStr (ga_master_refresh_repeat l)) (numStr (ga_master_refresh_repeat u)),
      Leaf [''garp'', ''master-repeat''] (numStr (ga_master_repeat l)) (numStr (ga_master_repeat u))]"

definition vip_path :: "path \<Rightarrow> string \<Rightarrow> path" where
  "vip_path base addr = base @ [''address'', addr]"

definition vip_cmds :: "path \<Rightarrow> vrrp_vip option \<Rightarrow> string \<Rightarrow> vrrp_vip \<Rightarrow> vyos_command list" where
  "vip_cmds base l addr a = (if l = None then [cset (vip_path base addr)] else []) @
     leaf_cmds (vip_path base addr @ [''interface'']) (Option.bind l vip_interface) (blank_to_none (vip_interface a))"

definition vips_by_address :: "vrrp_vip list \<Rightarrow> (string \<times> vrrp_vip) list" where
  "vips_by_address vs = map (\<lambda>a. (vip_address a, a)) vs"

definition wanted_vips :: "vrrp_vip list \<Rightarrow> (string \<times> vrrp_vip) list" where
  "wanted_vips vs = map (\<lambda>a. (trim (vip_address a), a)) (filter (\<lambda>a. trim (vip_address a) \<noteq> []) vs)"

definition diffAddresses :: "path \<Rightarrow> vrrp_vip list \<Rightarrow> vrrp_vip list \<Rightarrow> vyos_command list" where
  "diffAddresses base live desired =
     concat (map (\<lambda>(addr, a). vip_cmds base (map_of (js_map (vips_by_address live)) addr) addr a) (wanted_vips desired)) @
     map (\<lambda>a. cdel (vip_path base (vip_address a)))
       (filter (\<lambda>a. vip_address a \<notin> fst ` set (wanted_vips desired)) live)"

definition group_base :: "string \<Rightarrow> path" where
  "group_base name = vrrp_base @ [''group'', name]"

definition group_fields1 :: "vrrp_group \<Rightarrow> vrrp_group \<Rightarrow> field list" where
  "group_fields1 l u =
     [Leaf [''interface''] (vg_interface l) (blank_to_none (vg_interface u)),
      Leaf [''vrid''] (numStr (vg_vrid l)) (numStr (vg_vrid u)),
      Leaf [''priority''] (numStr (vg_priority l)) (numStr (vg_priority u)),
      Leaf [''advertise-interval''] (numStr (vg_advertise_interval l)) (numStr (vg_advertise_interval u)),
      Leaf [''description''] (vg_description l) (blank_to_none (vg_description u)),
      Leaf [''version''] (numStr (vg_version l)) (numStr (vg_version u)),
      Leaf [''hello-source-address''] (vg_hello_source_address l) (blank_to_none (vg_hello_source_address u)),
      Leaf [''peer-address''] (vg_peer_address l) (blank_to_none (vg_peer_address u)),
      Leaf [''preempt-delay''] (numStr (vg_preempt_delay l)) (numStr (vg_preempt_delay u)),
      Flag [''no-preempt''] (vg_no_preempt l) (vg_no_preempt u),
      Flag [''rfc3768-compatibility''] (vg_rfc3768_compatibility l) (vg_rfc3768_compatibility u),
      Flag [''disable''] (\<not> vg_enabled l) (\<not> vg_enabled u)]"

definition group_fields2 :: "vrrp_group \<Rightarrow> vrrp_group \<Rightarrow> field list" where
  "group_fields2 l u =
     [Multi [''excluded-address''] (vg_excluded_addresses l) (clean (vg_excluded_addresses u)),
      Multi [''track'', ''interface''] (vg_track_interfaces l) (clean (vg_track_interfaces u)),
      Flag [''track'', ''exclude-vrrp-interface''] (vg_track_exclude_vrrp_interface l) (vg_track_exclude_vrrp_interface u)]"

definition group_fields3 :: "vrrp_group \<Rightarrow> vrrp_group \<Rightarrow> field list" where
  "group_fields3 l u = health_fields (vg_health_check l) (vg_health_check u) @
     transition_fields (vg_transition_script l) (vg_transition_script u) @ garp_fields (vg_garp l) (vg_garp u)"

text \<open>The type of a form is falsy when it is missing or empty.\<close>

definition auth_type :: "vrrp_auth \<Rightarrow> string option" where
  "auth_type a = (case au_type a of None \<Rightarrow> None | Some t \<Rightarrow> if t = [] then None else Some t)"

definition auth_cmds :: "path \<Rightarrow> vrrp_auth \<Rightarrow> vrrp_auth \<Rightarrow> vyos_command list" where
  "auth_cmds base l u =
     (case auth_type u of
        None \<Rightarrow> if auth_type l \<noteq> None then [cdel (base @ [''authentication''])] else []
      | Some t \<Rightarrow> leaf_cmds (base @ [''authentication'', ''type'']) (au_type l) (blank_to_none (Some t)) @
          (case blank_to_none (au_password u) of None \<Rightarrow> []
           | Some pw \<Rightarrow> [cset (base @ [''authentication'', ''password'', pw])]))"

definition group_body :: "vrrp_group option \<Rightarrow> vrrp_group \<Rightarrow> vyos_command list" where
  "group_body live u = (let base = group_base (vg_name u); l = (case live of None \<Rightarrow> emptyGroup | Some x \<Rightarrow> x) in
     form_cmds base (group_fields1 l u) @ diffAddresses base (vg_addresses l) (vg_addresses u) @
     form_cmds base (group_fields2 l u) @ auth_cmds base (vg_auth l) (vg_auth u) @ form_cmds base (group_fields3 l u))"

definition diffGroup :: "vrrp_group option \<Rightarrow> vrrp_group \<Rightarrow> vyos_command list" where
  "diffGroup live u = ensureCreated (group_body live u) (group_base (vg_name u)) (live = None)"

definition deleteGroup_cmds :: "string \<Rightarrow> vyos_command list" where
  "deleteGroup_cmds name = [cdel (group_base name)]"

definition sync_group_base :: "string \<Rightarrow> path" where
  "sync_group_base name = vrrp_base @ [''sync-group'', name]"

definition sync_group_fields :: "vrrp_sync_group option \<Rightarrow> vrrp_sync_group \<Rightarrow> field list" where
  "sync_group_fields live u = (let l = (case live of None \<Rightarrow> emptySyncGroup | Some x \<Rightarrow> x) in
     Multi [''member''] (sg_members l) (clean (sg_members u)) #
     health_fields (sg_health_check l) (sg_health_check u) @
     transition_fields (sg_transition_script l) (sg_transition_script u))"

definition diffSyncGroup :: "vrrp_sync_group option \<Rightarrow> vrrp_sync_group \<Rightarrow> vyos_command list" where
  "diffSyncGroup live u = ensureCreated (form_cmds (sync_group_base (sg_name u)) (sync_group_fields live u))
     (sync_group_base (sg_name u)) (live = None)"

definition deleteSyncGroup_cmds :: "string \<Rightarrow> vyos_command list" where
  "deleteSyncGroup_cmds name = [cdel (sync_group_base name)]"

definition diffGlobal :: "vrrp_global \<Rightarrow> vrrp_global \<Rightarrow> vyos_command list" where
  "diffGlobal live u = form_cmds (vrrp_base @ [''global-parameters''])
     ([Leaf [''startup-delay''] (numStr (gl_startup_delay live)) (numStr (gl_startup_delay u)),
       Leaf [''version''] (numStr (gl_version live)) (numStr (gl_version u))] @
      garp_fields (gl_garp live) (gl_garp u))"

section \<open>What the device holds\<close>

definition vip_paths :: "path \<Rightarrow> string \<Rightarrow> string option \<Rightarrow> path set" where
  "vip_paths base addr via = insert (vip_path base addr) (leaf_paths (vip_path base addr @ [''interface'']) via)"

definition vip_before :: "path \<Rightarrow> string \<Rightarrow> vrrp_vip \<Rightarrow> path set" where
  "vip_before base addr a = vip_paths base addr (vip_interface a)"

definition vip_after :: "path \<Rightarrow> string \<Rightarrow> vrrp_vip \<Rightarrow> path set" where
  "vip_after base addr a = vip_paths base addr (blank_to_none (vip_interface a))"

text \<open>
  The authentication after a save, from what the device had: nothing without a type, else the type of
  the form and the password when one was typed.
\<close>

definition auth_result :: "path \<Rightarrow> vrrp_auth \<Rightarrow> vrrp_auth \<Rightarrow> path set \<Rightarrow> path set" where
  "auth_result base l u A =
     (case auth_type u of
        None \<Rightarrow> {}
      | Some t \<Rightarrow> (let B = (if au_type l = blank_to_none (Some t) then A
            else A - cone (base @ [''authentication'', ''type'']) \<union> {base @ [''authentication'', ''type'', t]}) in
          (case blank_to_none (au_password u) of None \<Rightarrow> B
           | Some pw \<Rightarrow> B - cone (base @ [''authentication'', ''password'']) \<union> {base @ [''authentication'', ''password'', pw]})))"

definition group_schema :: "(path \<Rightarrow> bool) \<Rightarrow> bool" where
  "group_schema single \<longleftrightarrow> (\<forall>name. let base = group_base name in
     \<not> single (butlast base) \<and> \<not> single base \<and> \<not> single (base @ [''address'']) \<and> \<not> single (base @ [''track'']) \<and>
     \<not> single (base @ [''excluded-address'']) \<and> \<not> single (base @ [''track'', ''interface'']) \<and>
     (\<forall>k\<in>{''interface'', ''vrid'', ''priority'', ''advertise-interval'', ''description'', ''version'',
        ''hello-source-address'', ''peer-address'', ''preempt-delay''}. single (base @ [k])) \<and>
     (\<forall>k\<in>{''type'', ''password''}. single (base @ [''authentication'', k])) \<and>
     (\<forall>a. single (vip_path base a @ [''interface''])) \<and>
     (\<forall>k\<in>{''script'', ''interval'', ''failure-count'', ''timeout''}. single (base @ [''health-check'', k])) \<and>
     (\<forall>k\<in>{''master'', ''backup'', ''fault'', ''stop''}. single (base @ [''transition-script'', k])) \<and>
     (\<forall>k\<in>{''interval'', ''master-delay'', ''master-refresh'', ''master-refresh-repeat'', ''master-repeat''}.
        single (base @ [''garp'', k])))"

text \<open>The virtual addresses are children of the group.\<close>

interpretation vips: child_editor group_schema
  "\<lambda>n. group_base n @ [''address'']" "\<lambda>n. vip_path (group_base n)" "\<lambda>a. True"
  "\<lambda>n addr l a. vip_cmds (group_base n) l addr a" "\<lambda>n. vip_before (group_base n)" "\<lambda>n. vip_after (group_base n)"
proof
  fix n k l :: string and i j :: vrrp_vip and single dev
  let ?b = "vip_path (group_base n) k" and ?p = "vip_path (group_base n) k @ [''interface'']"
  show "prefix (group_base n @ [''address'']) ?b" by (simp add: vip_path_def)
  show "cone ?b \<inter> cone (vip_path (group_base n) l) = {}" if "k \<noteq> l"
    using that by (simp add: cone_disjoint_iff vip_path_def)
  have below: "leaf_paths ?p v \<subseteq> cone ?b" for v by (rule paths_within_cone) simp
  show "vip_before (group_base n) k i \<subseteq> cone ?b" using below by (simp add: vip_before_def vip_paths_def)
  show "has_set (vip_cmds (group_base n) None k i) \<and> vip_after (group_base n) k i \<noteq> {}"
    by (simp add: vip_cmds_def vip_after_def vip_paths_def has_set_def)
  have node: "?b \<notin> leaf_paths ?p v" for v by (auto simp: leaf_paths_def split: option.splits)
  show "vip_cmds (group_base n) (Some j) k i = []" if "vip_before (group_base n) k j = vip_after (group_base n) k i"
  proof -
    have "leaf_paths ?p (vip_interface j) = leaf_paths ?p (blank_to_none (vip_interface i))"
      using that node unfolding vip_before_def vip_after_def vip_paths_def by (metis insert_ident)
    then show ?thesis by (simp add: vip_cmds_def)
  qed
  assume dev: "device_laws dev single" and sch: "group_schema single"
  have "single ?p" "\<not> single (butlast ?b)" using sch by (simp_all add: group_schema_def vip_path_def butlast_append Let_def)
  then have framed: "edits dev (cone ?b) (leaf_cmds ?p v (blank_to_none (vip_interface i)))
      (insert ?b (leaf_paths ?p v)) (vip_after (group_base n) k i)" for v
    using edits_frame [OF edits_leaf [OF dev], of ?p "cone ?b" "{?b}" v "blank_to_none (vip_interface i)"] cone_append_subset
    by (simp add: vip_after_def vip_paths_def)
  have "edits dev (cone ?b) [cset ?b] {} {?b}"
    using dev_set_multi [OF dev \<open>\<not> single (butlast ?b)\<close>] by (intro editsI) auto
  then have "edits dev (cone ?b) ([cset ?b] @ leaf_cmds ?p None (blank_to_none (vip_interface i))) {} (vip_after (group_base n) k i)"
    using framed [of None] by (intro edits_seq) simp_all
  then show "edits dev (cone ?b) (vip_cmds (group_base n) None k i) {} (vip_after (group_base n) k i)"
    by (simp add: vip_cmds_def)
  show "edits dev (cone ?b) (vip_cmds (group_base n) (Some j) k i) (vip_before (group_base n) k j) (vip_after (group_base n) k i)"
    using framed [of "vip_interface j"] by (simp add: vip_cmds_def vip_before_def vip_paths_def)
qed

lemma diffAddresses_children:
  assumes "distinct (map vip_address live)"
  shows "diffAddresses base live desired = children_cmds (vip_path base) (\<lambda>addr l a. vip_cmds base l addr a)
    (vips_by_address live) (wanted_vips desired)"
proof -
  have "map_of (js_map (vips_by_address live)) = map_of (vips_by_address live)"
    using assms by (intro map_of_js_map_distinct) (simp add: vips_by_address_def comp_def)
  moreover have "map (\<lambda>a. cdel (vip_path base (vip_address a)))
        (filter (\<lambda>a. vip_address a \<notin> fst ` set (wanted_vips desired)) live) =
      map (\<lambda>(k, i). cdel (vip_path base k)) (filter (\<lambda>(k, i). map_of (wanted_vips desired) k = None) (vips_by_address live))"
    by (simp only: vips_by_address_def map_of_eq_None_iff) (simp add: filter_map comp_def)
  ultimately show ?thesis by (simp add: diffAddresses_def children_cmds_def)
qed

text \<open>The form offers the types without space around them.\<close>

definition tidy_auth :: "vrrp_auth \<Rightarrow> bool" where
  "tidy_auth u \<longleftrightarrow> (case auth_type u of None \<Rightarrow> True | Some t \<Rightarrow> trim t = t)"

lemma auth_edits:
  assumes dev: "device_laws dev single" and sch: "group_schema single"
    and A: "A \<subseteq> cone (group_base n @ [''authentication''])" "auth_type l = None \<longrightarrow> A = {}"
    and tidy: "tidy_auth u"
  shows "edits dev (cone (group_base n @ [''authentication''])) (auth_cmds (group_base n) l u) A (auth_result (group_base n) l u A)"
proof -
  let ?b = "group_base n" and ?at = "group_base n @ [''authentication'']"
  have single: "single (?b @ [''authentication'', ''type''])" "single (?b @ [''authentication'', ''password''])"
    using sch by (simp_all add: group_schema_def Let_def)
  have set1: "edits dev (cone ?at) [cset (?b @ [''authentication'', k, v])] B
      (B - cone (?b @ [''authentication'', k]) \<union> {?b @ [''authentication'', k, v]})"
    if "single (?b @ [''authentication'', k])" "B \<subseteq> cone ?at" for k v B
  proof (rule editsI)
    have sub: "cone (?b @ [''authentication'', k]) \<subseteq> cone ?at" by (rule cone_mono) simp
    fix R assume "R \<inter> cone ?at = {}"
    then have "R \<inter> cone (?b @ [''authentication'', k]) = {}" using sub by blast
    then show "run dev [cset (?b @ [''authentication'', k, v])] (R \<union> B) =
        R \<union> (B - cone (?b @ [''authentication'', k]) \<union> {?b @ [''authentication'', k, v]})"
      using dev_set_single [OF dev, of "?b @ [''authentication'', k, v]"] that(1) by (auto simp: butlast_append)
  qed (use that in auto)
  show ?thesis
  proof (cases "auth_type u")
    case None
    then show ?thesis
      using A edits_delete [OF dev A(1)] edits_nil [OF A(1)] by (auto simp: auth_cmds_def auth_result_def)
  next
    case (Some t')
    then have t: "blank_to_none (Some t') = Some t'" using tidy by (auto simp: tidy_auth_def auth_type_def blank_to_none_def split: option.splits if_splits)
    let ?B = "if au_type l = Some t' then A
        else A - cone (?b @ [''authentication'', ''type'']) \<union> {?b @ [''authentication'', ''type'', t']}"
    have typed: "edits dev (cone ?at) (leaf_cmds (?b @ [''authentication'', ''type'']) (au_type l) (Some t')) A ?B"
      using set1 [OF single(1) A(1)] edits_nil [OF A(1)] by (simp add: leaf_cmds_def)
    have sub: "?B \<subseteq> cone ?at" using A(1) by auto
    show ?thesis
    proof (cases "blank_to_none (au_password u)")
      case None
      then show ?thesis using Some t typed by (simp add: auth_cmds_def auth_result_def)
    next
      case pw: (Some pw)
      show ?thesis using Some t pw edits_seq [OF typed set1 [OF single(2) sub, of pw]]
        by (simp only: auth_cmds_def auth_result_def option.case Let_def)
    qed
  qed
qed

section \<open>What a save of a group does\<close>

definition group_places :: "path list" where
  "group_places = map field_at (group_fields1 emptyGroup emptyGroup) @ [''address''] #
     map field_at (group_fields2 emptyGroup emptyGroup) @ [''authentication''] #
     map field_at (group_fields3 emptyGroup emptyGroup)"

definition group_leaves :: "vrrp_group \<Rightarrow> vrrp_group \<Rightarrow> field list" where
  "group_leaves l u = group_fields1 l u @ group_fields2 l u @ group_fields3 l u"

text \<open>The part of the group that the form shows: its leaves and its virtual addresses.\<close>

definition group_region :: "path \<Rightarrow> path set" where
  "group_region base = form_region base (group_leaves emptyGroup emptyGroup) \<union> cone (base @ [''address''])"

definition group_before :: "vrrp_group option \<Rightarrow> path \<Rightarrow> path set" where
  "group_before live base = (case live of None \<Rightarrow> {}
     | Some l \<Rightarrow> form_live base (group_leaves l l) \<union> children_paths (vip_before base) (vips_by_address (vg_addresses l)))"

definition group_after :: "vrrp_group \<Rightarrow> path set" where
  "group_after u = (let base = group_base (vg_name u) in
     form_desired base (group_leaves emptyGroup u) \<union> children_paths (vip_after base) (wanted_vips (vg_addresses u)))"

definition live_group :: "vrrp_group option \<Rightarrow> vrrp_group" where
  "live_group live = (case live of None \<Rightarrow> emptyGroup | Some l \<Rightarrow> l)"

lemmas group_fields_defs = group_fields1_def group_fields2_def group_fields3_def health_fields_def
  transition_fields_def garp_fields_def

lemma group_apart: "apart group_places"
  by code_simp

lemma group_field_places:
  "map field_at (group_fields1 l u) = map field_at (group_fields1 emptyGroup emptyGroup)"
  "map field_at (group_fields2 l u) = map field_at (group_fields2 emptyGroup emptyGroup)"
  "map field_at (group_fields3 l u) = map field_at (group_fields3 emptyGroup emptyGroup)"
  by (simp_all add: group_fields_defs)

lemma group_fields_apart:
  "apart_fields (group_fields1 l u)" "apart_fields (group_fields2 l u)" "apart_fields (group_fields3 l u)"
proof -
  have "apart (map field_at (group_fields1 emptyGroup emptyGroup))" "apart (map field_at (group_fields2 emptyGroup emptyGroup))"
    "apart (map field_at (group_fields3 emptyGroup emptyGroup))" by code_simp+
  then show "apart_fields (group_fields1 l u)" "apart_fields (group_fields2 l u)" "apart_fields (group_fields3 l u)"
    unfolding apart_fields_places group_field_places [of l u] .
qed

lemma group_fields_schema:
  assumes "group_schema single"
  shows "\<forall>f\<in>set (group_fields1 l u). field_schema single (group_base n) f"
    and "\<forall>f\<in>set (group_fields2 l u). field_schema single (group_base n) f"
    and "\<forall>f\<in>set (group_fields3 l u). field_schema single (group_base n) f"
  using assms by (simp_all add: group_fields_defs group_schema_def butlast_append Let_def)

lemma group_form_edits:
  assumes dev: "device_laws dev single" and sch: "group_schema single"
  shows "edits dev (places (group_base n) (map field_at (group_fields1 emptyGroup emptyGroup)))
      (form_cmds (group_base n) (group_fields1 l u)) (form_live (group_base n) (group_fields1 l u))
      (form_desired (group_base n) (group_fields1 l u))"
    and "edits dev (places (group_base n) (map field_at (group_fields2 emptyGroup emptyGroup)))
      (form_cmds (group_base n) (group_fields2 l u)) (form_live (group_base n) (group_fields2 l u))
      (form_desired (group_base n) (group_fields2 l u))"
    and "edits dev (places (group_base n) (map field_at (group_fields3 emptyGroup emptyGroup)))
      (form_cmds (group_base n) (group_fields3 l u)) (form_live (group_base n) (group_fields3 l u))
      (form_desired (group_base n) (group_fields3 l u))"
  using edits_form [OF dev group_fields_schema(1) [OF sch] group_fields_apart(1), of n l u]
    edits_form [OF dev group_fields_schema(2) [OF sch] group_fields_apart(2), of n l u]
    edits_form [OF dev group_fields_schema(3) [OF sch] group_fields_apart(3), of n l u]
  unfolding form_region_places group_field_places [of l u] .

lemma vip_edits:
  assumes dev: "device_laws dev single" and sch: "group_schema single"
    and live: "distinct (map vip_address live)" and want: "distinct (map fst (wanted_vips desired))"
  shows "edits dev (cone (group_base n @ [''address''])) (diffAddresses (group_base n) live desired)
    (children_paths (vip_before (group_base n)) (vips_by_address live)) (children_paths (vip_after (group_base n)) (wanted_vips desired))"
  unfolding diffAddresses_children [OF live] using live want
  by (intro vips.children_edits [OF dev sch]) (simp_all add: vips_by_address_def comp_def)

lemma edits_eq: "edits dev C cs L D \<Longrightarrow> C = C' \<Longrightarrow> L = L' \<Longrightarrow> D = D' \<Longrightarrow> edits dev C' cs L' D'"
  by simp

lemma group_body_edits:
  assumes dev: "device_laws dev single" and sch: "group_schema single"
    and vips: "distinct (map vip_address (vg_addresses (live_group live)))" "distinct (map fst (wanted_vips (vg_addresses u)))"
    and tidy: "tidy_auth (vg_auth u)"
    and A: "A \<subseteq> cone (group_base (vg_name u) @ [''authentication''])" "auth_type (vg_auth (live_group live)) = None \<longrightarrow> A = {}"
  shows "edits dev (group_region (group_base (vg_name u)) \<union> cone (group_base (vg_name u) @ [''authentication'']))
    (group_body live u)
    (form_live (group_base (vg_name u)) (group_leaves (live_group live) u) \<union>
       children_paths (vip_before (group_base (vg_name u))) (vips_by_address (vg_addresses (live_group live))) \<union> A)
    (group_after u \<union> auth_result (group_base (vg_name u)) (vg_auth (live_group live)) (vg_auth u) A)"
proof -
  let ?b = "group_base (vg_name u)" and ?l = "live_group live" and ?e = emptyGroup
  note f = group_form_edits [OF dev sch, of "vg_name u" ?l u]
  let ?P1 = "map field_at (group_fields1 ?e ?e)" and ?P2 = "map field_at (group_fields2 ?e ?e)"
    and ?P3 = "map field_at (group_fields3 ?e ?e)"
  have a1: "apart (?P1 @ [[''address'']] @ ?P2 @ [[''authentication'']] @ ?P3)" using group_apart by (simp add: group_places_def)
  note a2 = apart_append [OF a1, THEN conjunct2, THEN conjunct1]
  note a3 = apart_append [OF a2, THEN conjunct2, THEN conjunct1]
  note a4 = apart_append [OF a3, THEN conjunct2, THEN conjunct1]
  note d = apart_append [OF a1, THEN conjunct2, THEN conjunct2, of ?b] apart_append [OF a2, THEN conjunct2, THEN conjunct2, of ?b]
    apart_append [OF a3, THEN conjunct2, THEN conjunct2, of ?b] apart_append [OF a4, THEN conjunct2, THEN conjunct2, of ?b]
  have e4: "edits dev (places ?b ([[''authentication'']] @ ?P3)) (auth_cmds ?b (vg_auth ?l) (vg_auth u) @ form_cmds ?b (group_fields3 ?l u))
      (A \<union> form_live ?b (group_fields3 ?l u)) (auth_result ?b (vg_auth ?l) (vg_auth u) A \<union> form_desired ?b (group_fields3 ?l u))"
    using edits_append [OF auth_edits [OF dev sch A tidy] f(3)] d(4) unfolding places_append places_single by blast
  note e3 = edits_append [OF f(2) e4 d(3), folded places_append]
  have "edits dev (places ?b [[''address'']]) (diffAddresses ?b (vg_addresses ?l) (vg_addresses u))
      (children_paths (vip_before ?b) (vips_by_address (vg_addresses ?l))) (children_paths (vip_after ?b) (wanted_vips (vg_addresses u)))"
    using vip_edits [OF dev sch vips] by simp
  note e2 = edits_append [OF this e3 d(2), folded places_append]
  note e1 = edits_append [OF f(1) e2 d(1), folded places_append]
  have body: "group_body live u = form_cmds ?b (group_fields1 ?l u) @ diffAddresses ?b (vg_addresses ?l) (vg_addresses u) @
      form_cmds ?b (group_fields2 ?l u) @ auth_cmds ?b (vg_auth ?l) (vg_auth u) @ form_cmds ?b (group_fields3 ?l u)"
    by (simp add: group_body_def live_group_def Let_def)
  have desired: "form_desired ?b (group_leaves ?l u) = form_desired ?b (group_leaves ?e u)"
    by (simp add: form_desired_def group_leaves_def group_fields_defs)
  show ?thesis unfolding body
  proof (rule edits_eq [OF e1])
    show "places ?b (?P1 @ [[''address'']] @ ?P2 @ [[''authentication'']] @ ?P3) = group_region ?b \<union> cone (?b @ [''authentication''])"
      unfolding group_region_def form_region_places group_leaves_def map_append places_append places_single by blast
  qed (auto simp: group_leaves_def group_after_def Let_def desired [unfolded group_leaves_def form_append, symmetric])
qed

lemma group_leaves_new: "\<forall>f\<in>set (group_leaves emptyGroup u). field_new f"
  by (simp add: group_leaves_def group_fields_defs emptyGroup_def emptyHealthCheck_def emptyTransitionScript_def
      emptyGarp_def numStr_def)

lemma group_form_before:
  "form_live b (group_leaves (live_group live) u) \<union>
     children_paths (vip_before b) (vips_by_address (vg_addresses (live_group live))) = group_before live b"
proof (cases live)
  case None
  have "form_live b (group_leaves emptyGroup u) = {}" by (rule form_new_live [OF group_leaves_new])
  then show ?thesis using None by (simp add: group_before_def live_group_def children_paths_def vips_by_address_def emptyGroup_def)
next
  case (Some l)
  have "form_live b (group_leaves l u) = form_live b (group_leaves l l)"
    by (simp add: form_live_def group_leaves_def group_fields_defs)
  then show ?thesis using Some by (simp add: group_before_def live_group_def)
qed

lemma auth_new: "auth_type \<lparr>au_type = None, au_password = p\<rparr> = None"
  by (simp add: auth_type_def)

lemma group_new_sets:
  assumes "tidy_auth (vg_auth u)"
  shows "has_set (group_body None u) \<longleftrightarrow>
    group_after u \<union> auth_result (group_base (vg_name u)) (vg_auth emptyGroup) (vg_auth u) {} \<noteq> {}"
proof -
  let ?b = "group_base (vg_name u)"
  have e: "vg_addresses emptyGroup = []" "vg_auth emptyGroup = \<lparr>au_type = None, au_password = None\<rparr>"
    by (simp_all add: emptyGroup_def)
  have "diffAddresses ?b [] (vg_addresses u) = children_cmds (vip_path ?b) (\<lambda>addr l a. vip_cmds ?b l addr a) [] (wanted_vips (vg_addresses u))"
    using diffAddresses_children [of "[]" ?b] by (simp add: vips_by_address_def)
  then have "has_set (diffAddresses ?b [] (vg_addresses u)) \<longleftrightarrow> children_paths (vip_after ?b) (wanted_vips (vg_addresses u)) \<noteq> {}"
    using vips.children_new_sets [of "wanted_vips (vg_addresses u)" "vg_name u"] by (simp add: split_beta)
  moreover have "has_set (form_cmds ?b (group_leaves emptyGroup u)) \<longleftrightarrow> form_desired ?b (group_leaves emptyGroup u) \<noteq> {}"
    by (rule form_new_sets [OF group_leaves_new])
  moreover have "has_set (auth_cmds ?b (vg_auth emptyGroup) (vg_auth u)) \<longleftrightarrow>
      auth_result ?b (vg_auth emptyGroup) (vg_auth u) {} \<noteq> {}"
    using assms unfolding e tidy_auth_def
    by (auto simp: auth_cmds_def auth_result_def leaf_cmds_None_set auth_type_def blank_to_none_def Let_def split: option.splits if_splits)
  ultimately show ?thesis
    unfolding group_body_def group_after_def group_leaves_def form_append has_set_append Let_def option.case e(1) by auto
qed

text \<open>
  Saving a VRRP group on a device that holds the one the form was opened with gives the leaves and
  the virtual addresses of the form. The authentication disappears with its type, takes the type of
  the form, and keeps the password of the device unless a new one was typed, although a read never
  shows it. A new group that asks for nothing is still created, and nothing else changes.
\<close>

theorem vrrp_group_save:
  assumes dev: "device_laws dev single" and sch: "group_schema single"
    and vips: "distinct (map vip_address (vg_addresses (live_group live)))" "distinct (map fst (wanted_vips (vg_addresses u)))"
    and tidy: "tidy_auth (vg_auth u)"
    and before: "S \<inter> group_region (group_base (vg_name u)) = group_before live (group_base (vg_name u))"
    and auth: "auth_type (vg_auth (live_group live)) = None \<longrightarrow> S \<inter> cone (group_base (vg_name u) @ [''authentication'']) = {}"
  shows "run dev (diffGroup live u) S =
    (S - (group_region (group_base (vg_name u)) \<union> cone (group_base (vg_name u) @ [''authentication'']))) \<union>
    (group_after u \<union> auth_result (group_base (vg_name u)) (vg_auth (live_group live)) (vg_auth u)
       (S \<inter> cone (group_base (vg_name u) @ [''authentication'']))) \<union>
    (if live = None \<and> group_after u \<union> auth_result (group_base (vg_name u)) (vg_auth (live_group live)) (vg_auth u)
       (S \<inter> cone (group_base (vg_name u) @ [''authentication''])) = {} then {group_base (vg_name u)} else {})"
  unfolding diffGroup_def
proof (rule run_ensureCreated [OF dev])
  let ?b = "group_base (vg_name u)"
  let ?A = "S \<inter> cone (?b @ [''authentication''])"
  show "edits dev (group_region ?b \<union> cone (?b @ [''authentication''])) (group_body live u) (group_before live ?b \<union> ?A)
      (group_after u \<union> auth_result ?b (vg_auth (live_group live)) (vg_auth u) ?A)"
    using group_body_edits [OF dev sch vips tidy _ auth] unfolding group_form_before by simp
  show "S \<inter> (group_region ?b \<union> cone (?b @ [''authentication''])) = group_before live ?b \<union> ?A" using before by blast
  show "group_before live ?b \<union> ?A = {} \<and> (has_set (group_body live u) \<longleftrightarrow>
      group_after u \<union> auth_result ?b (vg_auth (live_group live)) (vg_auth u) ?A \<noteq> {})" if "live = None"
  proof -
    have "auth_type (vg_auth emptyGroup) = None" by (simp add: emptyGroup_def auth_type_def)
    then have "?A = {}" using auth that by (simp add: live_group_def)
    then show ?thesis using group_new_sets [OF tidy] that by (simp add: group_before_def live_group_def)
  qed
  show "\<not> single (butlast ?b)" using sch by (auto simp: group_schema_def Let_def)
qed

definition group_single :: "path \<Rightarrow> bool" where
  "group_single p \<longleftrightarrow> (length p = 5 \<and> last p \<notin> {''address'', ''track'', ''excluded-address''}) \<or>
     (length p = 6 \<and> p ! 4 \<noteq> ''track'' \<and> p ! 4 \<noteq> ''address'') \<or> (length p = 7 \<and> last p = ''interface'')"

lemma group_single_schema: "group_schema group_single"
  by (simp add: group_schema_def group_single_def group_base_def vrrp_base_def vip_path_def nth_append Let_def)

text \<open>A group with a password: its priority and one of its addresses change.\<close>

definition lab_group :: "int \<Rightarrow> string \<Rightarrow> vrrp_group" where
  "lab_group prio vip = emptyGroup\<lparr>vg_name := ''lan'', vg_priority := Some prio,
     vg_addresses := [\<lparr>vip_address = vip, vip_interface = None\<rparr>], vg_auth := \<lparr>au_type = Some ''ah'', au_password = None\<rparr>\<rparr>"

definition lab_auth :: "path set" where
  "lab_auth = {group_base ''lan'' @ [''authentication'', ''type'', ''ah''], group_base ''lan'' @ [''authentication'', ''password'', ''k3y'']}"

lemma vrrp_group_save_witness:
  "group_base ''lan'' @ [''authentication'', ''password'', ''k3y''] \<in>
     run (ref_dev group_single) (diffGroup (Some (lab_group 100 ''10.0.0.1/24'')) (lab_group 200 ''10.0.0.2/24''))
       (group_before (Some (lab_group 100 ''10.0.0.1/24'')) (group_base ''lan'') \<union> lab_auth)"
proof -
  let ?l = "lab_group 100 ''10.0.0.1/24''" and ?u = "lab_group 200 ''10.0.0.2/24''" and ?b = "group_base ''lan''"
  let ?S = "group_before (Some ?l) ?b \<union> lab_auth" and ?at = "?b @ [''authentication'']"
  have n: "vg_name ?u = ''lan''" by (simp add: lab_group_def)
  have d: "distinct (map vip_address (vg_addresses (live_group (Some ?l))))" "distinct (map fst (wanted_vips (vg_addresses ?u)))"
    "tidy_auth (vg_auth ?u)" by code_simp+
  have a: "auth_type (vg_auth (live_group (Some ?l))) = Some ''ah''" "auth_type (vg_auth ?u) = Some ''ah''"
    "au_type (vg_auth (live_group (Some ?l))) = Some ''ah''" "blank_to_none (Some ''ah'') = Some ''ah''"
    "blank_to_none (au_password (vg_auth ?u)) = None" by code_simp+
  have e: "edits (ref_dev group_single) (group_region ?b \<union> cone ?at) (group_body (Some ?l) ?u)
      (group_before (Some ?l) ?b \<union> {}) (group_after ?u \<union> auth_result ?b (vg_auth (live_group (Some ?l))) (vg_auth ?u) {})"
    using group_body_edits [OF ref_dev_laws group_single_schema d, of "{}"] unfolding group_form_before n by simp
  have apart: "group_region ?b \<inter> cone ?at = {}"
    by (simp add: group_region_def form_region_def group_leaves_def group_fields_defs Int_Un_distrib2 cone_disjoint_iff)
  have "?S \<inter> group_region ?b = group_before (Some ?l) ?b"
  proof -
    have "lab_auth \<subseteq> cone ?at" by (auto simp: lab_auth_def)
    moreover have "group_before (Some ?l) ?b \<subseteq> group_region ?b"
      unfolding group_form_before [of ?b "Some ?l" ?l, symmetric] group_region_def
      using group_form_edits [OF ref_dev_laws group_single_schema, of "''lan''" ?l ?l]
        vip_edits [OF ref_dev_laws group_single_schema d(1,2), of "''lan''"]
      by (auto simp: edits_def live_group_def group_leaves_def form_region_places places_append)
    ultimately show ?thesis using apart by blast
  qed
  then have "run (ref_dev group_single) (diffGroup (Some ?l) ?u) ?S =
      (?S - (group_region ?b \<union> cone ?at)) \<union> (group_after ?u \<union> auth_result ?b (vg_auth (live_group (Some ?l))) (vg_auth ?u) (?S \<inter> cone ?at)) \<union>
      (if Some ?l = None \<and> group_after ?u \<union> auth_result ?b (vg_auth (live_group (Some ?l))) (vg_auth ?u) (?S \<inter> cone ?at) = {}
       then {?b} else {})"
    using vrrp_group_save [OF ref_dev_laws group_single_schema d, of ?S] a(1) unfolding n by simp
  moreover have "?b @ [''authentication'', ''password'', ''k3y''] \<in> auth_result ?b (vg_auth (live_group (Some ?l))) (vg_auth ?u) (?S \<inter> cone ?at)"
    by (simp add: auth_result_def a lab_auth_def)
  ultimately show ?thesis by blast
qed

section \<open>Lists that the reader misreads\<close>

text \<open>
  The members of a sync group are written as the values of a multi-value leaf, which a read renders as
  a string or as an array. The reader takes the keys of that value, so it finds no member when there is
  one, and the positions instead of the names when there are several.
\<close>

lemma sync_members_misread:
  assumes "js_get raw ''member'' = render_list ms" and "ms \<noteq> []"
  shows "sg_members (parseSyncGroup (name, raw)) =
    (if length ms = 1 then [] else sort_by str_cmp (map string_of_nat [0..<length ms]))"
proof -
  have raw: "or_empty raw = raw" using assms by (cases raw) (auto simp: render_list_def split: list.splits)
  show ?thesis
  proof (cases "length ms = 1")
    case True
    then obtain m where "ms = [m]" by (auto simp: length_Suc_conv)
    then show ?thesis using assms by (simp add: parseSyncGroup_def raw vrrp_childCfg_def keysOf_def render_list_def Let_def)
  next
    case False
    then have "js_get raw ''member'' = Some (JArr (map JStr ms))" using assms by (auto simp: render_list_def split: list.splits)
    moreover have "map fst (map (\<lambda>(i, x). (string_of_nat i, x)) es) = map string_of_nat (map fst es)" for es :: "(nat \<times> json) list"
      by (induction es) auto
    then have "map fst (obj_entries (JArr (map JStr ms))) = map string_of_nat [0..<length ms]"
      unfolding obj_entries.simps by (simp only: map_fst_enumerate length_map add_0_left) 
    ultimately show ?thesis using False
      by (simp add: parseSyncGroup_def raw vrrp_childCfg_def keysOf_def Let_def del: obj_entries.simps)
  qed
qed

end
