(* ===== verification/Static_Routes.thy ===== *)
theory Static_Routes
  imports Forms Interfaces
begin

text \<open>
  Static routes: \<open>lib/routing.ts\<close>. The table has one row per next hop, while the device keeps the next
  hops and one description under a node per destination; the theorem says that the commands of a save
  take the device from the table to the updated table.
\<close>

section \<open>Model\<close>

datatype route_family = IPv4 | IPv6

datatype route_kind = Gateway | RouteInterface | Blackhole

record static_route =
  sr_family :: route_family
  sr_destination :: string
  sr_kind :: route_kind
  sr_via :: "string option"
  sr_interface :: "string option"
  sr_distance :: "int option"
  sr_enabled :: bool
  sr_description :: "string option"

text \<open>What identifies a row: family, destination, kind and next hop.\<close>

type_synonym route_key = "route_family \<times> string \<times> route_kind \<times> string option"

record route_update =
  ru_family :: route_family
  ru_destination :: string
  ru_kind :: route_kind
  ru_via :: "string option"
  ru_interface :: "string option"
  ru_distance :: "int option"
  ru_enabled :: bool
  ru_description :: "string option"
  ru_original :: "route_key option"

fun ROUTE_NODE :: "route_family \<Rightarrow> string" where
  "ROUTE_NODE IPv4 = ''route''"
| "ROUTE_NODE IPv6 = ''route6''"

section \<open>Reader\<close>

text \<open>\<open>asDistance\<close> reads an integer leaf.\<close>

definition asDistance :: "json \<Rightarrow> int option" where
  "asDistance v = childNum v ''distance''"

definition parse_hop ::
  "route_family \<Rightarrow> string \<Rightarrow> string option \<Rightarrow> route_kind \<Rightarrow> string \<times> json \<Rightarrow> read_error + static_route" where
  "parse_hop family destination description kind e = (let hop = or_empty (snd e) in
     case isEnabled hop of Inl err \<Rightarrow> Inl err | Inr enabled \<Rightarrow>
       Inr \<lparr>sr_family = family, sr_destination = destination, sr_kind = kind, sr_via = Some (fst e),
         sr_interface = (if kind = Gateway then childStr hop ''interface'' else None),
         sr_distance = asDistance hop, sr_enabled = enabled, sr_description = description\<rparr>)"

definition parse_blackhole :: "route_family \<Rightarrow> string \<Rightarrow> string option \<Rightarrow> json \<Rightarrow> read_error + static_route list" where
  "parse_blackhole family destination description cfg =
     (let row = (\<lambda>b. \<lparr>sr_family = family, sr_destination = destination, sr_kind = Blackhole, sr_via = None,
         sr_interface = None, sr_distance = asDistance b, sr_enabled = True, sr_description = description\<rparr>) in
      case js_get cfg ''blackhole'' of
        Some (JObj kvs) \<Rightarrow> Inr [row (JObj kvs)]
      | Some (JArr xs) \<Rightarrow> Inr [row (JArr xs)]
      | _ \<Rightarrow> (case has_key ''blackhole'' cfg of Inl err \<Rightarrow> Inl err | Inr b \<Rightarrow> Inr (if b then [row empty_obj] else [])))"

definition parse_route :: "route_family \<Rightarrow> string \<times> json \<Rightarrow> read_error + static_route list" where
  "parse_route family e = (let cfg = or_empty (snd e); d = childStr cfg ''description'' in
     case map_res (parse_hop family (fst e) d Gateway) (object_entries cfg ''next-hop'') of Inl err \<Rightarrow> Inl err | Inr gws \<Rightarrow>
     (case map_res (parse_hop family (fst e) d RouteInterface) (object_entries cfg ''interface'') of Inl err \<Rightarrow> Inl err
      | Inr ifs \<Rightarrow> (case parse_blackhole family (fst e) d cfg of Inl err \<Rightarrow> Inl err | Inr bh \<Rightarrow> Inr (gws @ ifs @ bh))))"

definition via_or_blank :: "string option \<Rightarrow> string" where
  "via_or_blank v = (case v of None \<Rightarrow> [] | Some x \<Rightarrow> x)"

definition parseFamily :: "(string \<Rightarrow> string \<Rightarrow> int) \<Rightarrow> json \<Rightarrow> route_family \<Rightarrow> read_error + static_route list" where
  "parseFamily lc staticCfg family =
     (case map_res (parse_route family) (object_entries staticCfg (ROUTE_NODE family)) of Inl e \<Rightarrow> Inl e
      | Inr rows \<Rightarrow> Inr (sort_by (\<lambda>a b. if lc (sr_destination a) (sr_destination b) \<noteq> 0
            then lc (sr_destination a) (sr_destination b) else lc (via_or_blank (sr_via a)) (via_or_blank (sr_via b)))
          (concat rows)))"

definition fetchStaticRoutes :: "(string \<Rightarrow> string \<Rightarrow> int) \<Rightarrow> vyos_response \<Rightarrow> read_error + static_route list" where
  "fetchStaticRoutes lc resp =
     (case config_of_response ''Device returned an error reading static routes.'' resp of Inl e \<Rightarrow> Inl e
      | Inr cfg \<Rightarrow> (let st = (case js_get cfg ''static'' of
            Some (JObj kvs) \<Rightarrow> JObj kvs | Some (JArr xs) \<Rightarrow> JArr xs | _ \<Rightarrow> empty_obj) in
          case parseFamily lc st IPv4 of Inl e \<Rightarrow> Inl e | Inr v4 \<Rightarrow>
          (case parseFamily lc st IPv6 of Inl e \<Rightarrow> Inl e | Inr v6 \<Rightarrow> Inr (v4 @ v6))))"

section \<open>Writes\<close>

definition routeBase :: "route_family \<Rightarrow> string \<Rightarrow> path" where
  "routeBase family destination = [''protocols'', ''static'', ROUTE_NODE family, destination]"

fun hopPath :: "route_key \<Rightarrow> path" where
  "hopPath (family, destination, Gateway, via) = routeBase family destination @ [''next-hop'', via_or_blank via]"
| "hopPath (family, destination, RouteInterface, via) = routeBase family destination @ [''interface'', via_or_blank via]"
| "hopPath (family, destination, Blackhole, via) = routeBase family destination @ [''blackhole'']"

definition siblings :: "static_route list \<Rightarrow> route_family \<Rightarrow> string \<Rightarrow> static_route list" where
  "siblings rows family destination = filter (\<lambda>r. sr_family r = family \<and> sr_destination r = destination) rows"

definition sameHop :: "static_route \<Rightarrow> route_key \<Rightarrow> bool" where
  "sameHop r k \<longleftrightarrow> (case k of (family, destination, kind, via) \<Rightarrow>
     sr_family r = family \<and> sr_destination r = destination \<and> sr_kind r = kind \<and> sr_via r = via)"

definition update_key :: "route_update \<Rightarrow> route_key" where
  "update_key u = (ru_family u, ru_destination u, ru_kind u, ru_via u)"

definition route_moved :: "route_update \<Rightarrow> bool" where
  "route_moved u \<longleftrightarrow> (case ru_original u of None \<Rightarrow> False | Some k \<Rightarrow> k \<noteq> update_key u)"

definition other_hops :: "static_route list \<Rightarrow> route_key \<Rightarrow> static_route list" where
  "other_hops existing k = filter (\<lambda>r. \<not> sameHop r k) (siblings existing (fst k) (fst (snd k)))"

text \<open>The node that goes with a row: the whole route when the row was its only next hop.\<close>

definition drop_path :: "static_route list \<Rightarrow> route_key \<Rightarrow> path" where
  "drop_path existing k = (if other_hops existing k = [] then routeBase (fst k) (fst (snd k)) else hopPath k)"

definition live_row :: "static_route list \<Rightarrow> route_update \<Rightarrow> static_route option" where
  "live_row existing u = (if route_moved u then None else
     (case ru_original u of None \<Rightarrow> None | Some k \<Rightarrow> find (\<lambda>r. sameHop r k) existing))"

definition hop_fields :: "static_route option \<Rightarrow> route_update \<Rightarrow> field list" where
  "hop_fields live u =
     [Leaf [''distance''] (numStr (Option.bind live sr_distance)) (numStr (ru_distance u))] @
     (if ru_kind u = Gateway then [Leaf [''interface''] (Option.bind live sr_interface) (blank_to_none (ru_interface u))] else []) @
     (if ru_kind u \<noteq> Blackhole
      then [Flag [''disable''] (\<not> (case live of None \<Rightarrow> True | Some r \<Rightarrow> sr_enabled r)) (\<not> ru_enabled u)] else [])"

definition hop_cmds :: "static_route option \<Rightarrow> route_update \<Rightarrow> vyos_command list" where
  "hop_cmds live u = (if live = None then [cset (hopPath (update_key u))] else []) @
     form_cmds (hopPath (update_key u)) (hop_fields live u)"

definition wiped_here :: "static_route list \<Rightarrow> route_update \<Rightarrow> bool" where
  "wiped_here existing u \<longleftrightarrow> route_moved u \<and> (case ru_original u of None \<Rightarrow> False
     | Some k \<Rightarrow> other_hops existing k = [] \<and> fst k = ru_family u \<and> fst (snd k) = ru_destination u)"

definition live_description :: "static_route list \<Rightarrow> route_update \<Rightarrow> string option" where
  "live_description existing u = (if wiped_here existing u then None
     else Option.bind (find (\<lambda>r. sr_family r = ru_family u \<and> sr_destination r = ru_destination u) existing) sr_description)"

definition applyStaticRoute_cmds :: "static_route list \<Rightarrow> route_update \<Rightarrow> vyos_command list" where
  "applyStaticRoute_cmds existing u =
     (case ru_original u of None \<Rightarrow> [] | Some k \<Rightarrow> if route_moved u then [cdel (drop_path existing k)] else []) @
     hop_cmds (live_row existing u) u @
     leaf_cmds (routeBase (ru_family u) (ru_destination u) @ [''description''])
       (live_description existing u) (blank_to_none (ru_description u))"

definition key_of :: "static_route \<Rightarrow> route_key" where
  "key_of r = (sr_family r, sr_destination r, sr_kind r, sr_via r)"

definition deleteStaticRoute_cmds :: "static_route list \<Rightarrow> static_route \<Rightarrow> vyos_command list" where
  "deleteStaticRoute_cmds existing row = [cdel (drop_path existing (key_of row))]"

section \<open>The table on the device\<close>

definition hop_paths :: "static_route \<Rightarrow> path set" where
  "hop_paths r = (let hop = hopPath (key_of r) in
     insert hop (leaf_paths (hop @ [''distance'']) (numStr (sr_distance r)) \<union>
       leaf_paths (hop @ [''interface'']) (sr_interface r) \<union> flag_paths (hop @ [''disable'']) (\<not> sr_enabled r)))"

definition desc_paths :: "static_route \<Rightarrow> path set" where
  "desc_paths r = leaf_paths (routeBase (sr_family r) (sr_destination r) @ [''description'']) (sr_description r)"

definition route_table :: "static_route list \<Rightarrow> path set" where
  "route_table rows = (\<Union>r\<in>set rows. hop_paths r \<union> desc_paths r)"

definition routes_root :: "path set" where
  "routes_root = cone [''protocols'', ''static'', ''route''] \<union> cone [''protocols'', ''static'', ''route6'']"

text \<open>A table: each kind of row has its own fields, no row occurs twice, the rows of a route agree.\<close>

definition row_ok :: "static_route \<Rightarrow> bool" where
  "row_ok r \<longleftrightarrow> (sr_via r = None \<longleftrightarrow> sr_kind r = Blackhole) \<and> (sr_kind r \<noteq> Gateway \<longrightarrow> sr_interface r = None) \<and>
     (sr_kind r = Blackhole \<longrightarrow> sr_enabled r)"

definition same_route :: "static_route \<Rightarrow> static_route \<Rightarrow> bool" where
  "same_route r s \<longleftrightarrow> sr_family r = sr_family s \<and> sr_destination r = sr_destination s"

definition table_ok :: "static_route list \<Rightarrow> bool" where
  "table_ok rows \<longleftrightarrow> list_all row_ok rows \<and> distinct (map key_of rows) \<and>
     (\<forall>r\<in>set rows. \<forall>s\<in>set rows. same_route r s \<longrightarrow> sr_description r = sr_description s)"

text \<open>The row that a form stands for, and the table after a save and after a delete.\<close>

definition row_of :: "route_update \<Rightarrow> static_route" where
  "row_of u = \<lparr>sr_family = ru_family u, sr_destination = ru_destination u, sr_kind = ru_kind u, sr_via = ru_via u,
     sr_interface = (if ru_kind u = Gateway then blank_to_none (ru_interface u) else None),
     sr_distance = ru_distance u, sr_enabled = (ru_kind u = Blackhole \<or> ru_enabled u),
     sr_description = blank_to_none (ru_description u)\<rparr>"

definition without_key :: "route_key option \<Rightarrow> static_route list \<Rightarrow> static_route list" where
  "without_key k rows = filter (\<lambda>r. Some (key_of r) \<noteq> k) rows"

definition described_as :: "static_route \<Rightarrow> static_route \<Rightarrow> static_route" where
  "described_as n r = (if same_route r n then r\<lparr>sr_description := sr_description n\<rparr> else r)"

definition saved_rows :: "static_route list \<Rightarrow> route_update \<Rightarrow> static_route list" where
  "saved_rows existing u = map (described_as (row_of u)) (without_key (ru_original u) existing) @ [row_of u]"

definition route_schema :: "(path \<Rightarrow> bool) \<Rightarrow> bool" where
  "route_schema single \<longleftrightarrow> (\<forall>f d. single (routeBase f d @ [''description'']) \<and> \<not> single (routeBase f d) \<and>
     (\<forall>k\<in>{''next-hop'', ''interface''}. \<not> single (routeBase f d @ [k]))) \<and>
     (\<forall>key. \<not> single (hopPath key) \<and> single (hopPath key @ [''distance'']) \<and> single (hopPath key @ [''interface'']))"

section \<open>Where the parts of the table lie\<close>

lemma ROUTE_NODE_inj [simp]: "ROUTE_NODE f = ROUTE_NODE g \<longleftrightarrow> f = g"
  by (cases f; cases g) simp_all

definition wf_key :: "route_key \<Rightarrow> bool" where
  "wf_key k \<longleftrightarrow> (snd (snd (snd k)) = None \<longleftrightarrow> fst (snd (snd k)) = Blackhole)"

definition desc_cone :: "static_route \<Rightarrow> path set" where
  "desc_cone r = cone (routeBase (sr_family r) (sr_destination r) @ [''description''])"

lemma wf_key_of: "row_ok r \<Longrightarrow> wf_key (key_of r)"
  by (simp add: row_ok_def wf_key_def key_of_def)

lemma hop_apart: "wf_key k \<Longrightarrow> wf_key l \<Longrightarrow> k \<noteq> l \<Longrightarrow> cone (hopPath k) \<inter> cone (hopPath l) = {}"
  by (cases k rule: hopPath.cases; cases l rule: hopPath.cases)
    (auto simp: cone_disjoint_iff routeBase_def via_or_blank_def wf_key_def)

lemma hop_desc_apart: "cone (hopPath k) \<inter> desc_cone r = {}"
  by (cases k rule: hopPath.cases) (auto simp: desc_cone_def cone_disjoint_iff routeBase_def)

lemma desc_apart: "\<not> same_route r s \<Longrightarrow> desc_cone r \<inter> desc_cone s = {}"
  by (auto simp: desc_cone_def cone_disjoint_iff routeBase_def same_route_def)

lemma desc_cone_same: "same_route r s \<Longrightarrow> desc_cone r = desc_cone s"
  by (simp add: desc_cone_def same_route_def)

lemma hop_paths_cone: "hop_paths r \<subseteq> cone (hopPath (key_of r))"
  unfolding hop_paths_def Let_def using paths_within_cone [of "hopPath (key_of r)"] by simp

lemma desc_paths_cone: "desc_paths r \<subseteq> desc_cone r"
  unfolding desc_paths_def desc_cone_def by (rule leaf_paths_cone)

definition hops :: "static_route list \<Rightarrow> path set" where
  "hops rows = (\<Union>r\<in>set rows. hop_paths r)"

definition descs :: "static_route list \<Rightarrow> path set" where
  "descs rows = (\<Union>r\<in>set rows. desc_paths r)"

lemma route_table_parts: "route_table rows = hops rows \<union> descs rows"
  by (auto simp: route_table_def hops_def descs_def)

lemma hops_desc_apart: "hops rows \<inter> desc_cone r = {}"
  using hop_paths_cone hop_desc_apart unfolding hops_def by blast

lemma descs_hop_apart: "descs rows \<inter> cone (hopPath k) = {}"
  using desc_paths_cone hop_desc_apart unfolding descs_def by blast

lemma hops_at:
  assumes "\<forall>r\<in>set rows. row_ok r" and "wf_key k"
  shows "hops rows \<inter> cone (hopPath k) = hops (filter (\<lambda>r. key_of r = k) rows)"
proof -
  have "hop_paths r \<inter> cone (hopPath k) = (if key_of r = k then hop_paths r else {})" if "r \<in> set rows" for r
    using that assms hop_paths_cone [of r] hop_apart [OF wf_key_of assms(2), of r] by auto
  then have "hops rows \<inter> cone (hopPath k) = (\<Union>r\<in>set rows. if key_of r = k then hop_paths r else {})"
    unfolding hops_def by blast
  then show ?thesis by (auto simp: hops_def)
qed

lemma descs_at: "descs rows \<inter> desc_cone n = descs (filter (\<lambda>r. same_route r n) rows)"
proof -
  have "desc_paths r \<inter> desc_cone n = (if same_route r n then desc_paths r else {})" for r
    using desc_paths_cone [of r] desc_apart [of r n] desc_cone_same [of r n] by auto
  then have "descs rows \<inter> desc_cone n = (\<Union>r\<in>set rows. if same_route r n then desc_paths r else {})"
    unfolding descs_def by blast
  then show ?thesis by (auto simp: descs_def)
qed

lemma in_routes_root: "cone (routeBase f d @ p) \<subseteq> routes_root"
proof -
  have "cone (routeBase f d @ p) \<subseteq> cone [''protocols'', ''static'', ROUTE_NODE f]"
    by (rule cone_mono) (simp add: routeBase_def)
  then show ?thesis by (cases f) (auto simp: routes_root_def)
qed

lemma hop_in_root: "cone (hopPath k) \<subseteq> routes_root"
  using in_routes_root by (cases k rule: hopPath.cases) simp_all

lemma drop_in_root: "cone (drop_path rows k) \<subseteq> routes_root"
  using in_routes_root [of "fst k" "fst (snd k)" "[]"] hop_in_root [of k] by (simp add: drop_path_def)

lemma desc_in_root: "desc_cone r \<subseteq> routes_root"
  using in_routes_root by (auto simp: desc_cone_def)

section \<open>What a save does\<close>

lemma row_in_route: "hop_paths r \<union> desc_paths r \<subseteq> cone (routeBase (sr_family r) (sr_destination r))"
proof -
  have "prefix (routeBase (sr_family r) (sr_destination r)) (hopPath (key_of r))"
    by (cases "sr_kind r") (simp_all add: key_of_def)
  then have "cone (hopPath (key_of r)) \<subseteq> cone (routeBase (sr_family r) (sr_destination r))" by (rule cone_mono)
  moreover have "desc_cone r \<subseteq> cone (routeBase (sr_family r) (sr_destination r))"
    unfolding desc_cone_def by (rule cone_append_subset)
  ultimately show ?thesis using hop_paths_cone [of r] desc_paths_cone [of r] by blast
qed

lemma UN_minus_one:
  "\<forall>s\<in>A - {r}. P s \<inter> C = {} \<Longrightarrow> P r \<subseteq> C \<Longrightarrow> (\<Union>s\<in>A. P s) - C = (\<Union>s\<in>A - {r}. P s)"
  by blast

lemma table_drop:
  assumes ok: "table_ok rows" and r: "r \<in> set rows"
  shows "route_table rows - cone (drop_path rows (key_of r)) = route_table (without_key (Some (key_of r)) rows)"
proof -
  have row: "row_ok s" if "s \<in> set rows" for s using ok that by (simp add: table_ok_def list_all_iff)
  have inj: "key_of s = key_of r \<longleftrightarrow> s = r" if "s \<in> set rows" for s
    using ok that r by (auto simp: table_ok_def dest: key_unique)
  have kept: "set (without_key (Some (key_of r)) rows) = set rows - {r}" using inj by (auto simp: without_key_def)
  have others: "set (other_hops rows (key_of r)) = {s \<in> set rows. same_route s r \<and> s \<noteq> r}"
    using inj by (auto simp: other_hops_def siblings_def sameHop_def same_route_def key_of_def)
  have hop: "hop_paths s \<inter> cone (hopPath (key_of r)) = {}" if "s \<in> set rows" "s \<noteq> r" for s
    using hop_paths_cone [of s] hop_apart [OF wf_key_of wf_key_of, of s r] row that r inj by blast
  have desc: "desc_paths s \<inter> cone (hopPath (key_of r)) = {}" for s
    using desc_paths_cone [of s] hop_desc_apart by blast
  show ?thesis
  proof (cases "other_hops rows (key_of r) = []")
    case True
    then have drop: "drop_path rows (key_of r) = routeBase (sr_family r) (sr_destination r)"
      by (simp add: drop_path_def key_of_def)
    have "(hop_paths s \<union> desc_paths s) \<inter> cone (drop_path rows (key_of r)) = {}" if "s \<in> set rows" "s \<noteq> r" for s
    proof -
      have "\<not> same_route s r" using True others that by auto
      then have "cone (routeBase (sr_family s) (sr_destination s)) \<inter> cone (drop_path rows (key_of r)) = {}"
        unfolding drop by (auto simp: cone_disjoint_iff routeBase_def same_route_def)
      then show ?thesis using row_in_route [of s] by blast
    qed
    then show ?thesis using row_in_route [of r] unfolding route_table_def kept
      by (intro UN_minus_one) (auto simp: drop)
  next
    case False
    then obtain s where s: "s \<in> set rows" "same_route s r" "s \<noteq> r" using others by (cases "other_hops rows (key_of r)") auto
    have drop: "drop_path rows (key_of r) = hopPath (key_of r)" using False by (simp add: drop_path_def)
    have "sr_description s = sr_description r" using ok s r by (auto simp: table_ok_def)
    then have "desc_paths s = desc_paths r" using s by (simp add: desc_paths_def same_route_def)
    then have "descs rows = descs (without_key (Some (key_of r)) rows)" using s r kept unfolding descs_def by auto
    moreover have "descs rows - cone (hopPath (key_of r)) = descs rows" using desc unfolding descs_def by blast
    moreover have "hops rows - cone (hopPath (key_of r)) = hops (without_key (Some (key_of r)) rows)"
      unfolding hops_def kept using hop hop_paths_cone by (intro UN_minus_one) auto
    ultimately show ?thesis unfolding route_table_parts drop by blast
  qed
qed

lemma hop_edits:
  assumes dev: "device_laws dev single" and sch: "route_schema single" and key: "wf_key (update_key u)"
    and live: "case live of None \<Rightarrow> True | Some r \<Rightarrow> key_of r = update_key u \<and> row_ok r"
  shows "edits dev (cone (hopPath (update_key u))) (hop_cmds live u) (case live of None \<Rightarrow> {} | Some r \<Rightarrow> hop_paths r)
    (hop_paths (row_of u))"
proof -
  let ?h = "hopPath (update_key u)" and ?fs = "hop_fields live u"
  have schema_at: "\<not> single ?h" "single (?h @ [''distance''])" "single (?h @ [''interface''])"
    using sch unfolding route_schema_def by blast+
  have schema: "\<forall>f\<in>set ?fs. field_schema single ?h f" "apart_fields ?fs"
    using schema_at by (auto simp: hop_fields_def apart_fields_def)
  have "?h \<notin> form_region ?h ?fs" by (auto simp: form_region_def hop_fields_def)
  then have framed: "edits dev (cone ?h) (form_cmds ?h ?fs) (insert ?h (form_live ?h ?fs)) (insert ?h (form_desired ?h ?fs))"
    using edits_frame [OF edits_form [OF dev schema], of "cone ?h" "{?h}"] form_region_cone by simp
  have after: "insert ?h (form_desired ?h ?fs) = hop_paths (row_of u)"
    by (auto simp: hop_paths_def form_desired_def hop_fields_def row_of_def key_of_def update_key_def Let_def)
  have multi: "\<not> single (butlast ?h)"
    using sch by (cases "update_key u" rule: hopPath.cases) (auto simp: route_schema_def butlast_append)
  show ?thesis
  proof (cases live)
    case None
    have "edits dev (cone ?h) [cset ?h] {} {?h}" using dev_set_multi [OF dev multi] by (intro editsI) auto
    moreover have "form_live ?h ?fs = {}" using None
      by (intro form_new_live) (auto simp: hop_fields_def numStr_def)
    ultimately show ?thesis using None framed after edits_seq by (fastforce simp: hop_cmds_def)
  next
    case (Some r)
    then have "insert ?h (form_live ?h ?fs) = hop_paths r" using live
      by (auto simp: hop_paths_def form_live_def hop_fields_def row_ok_def key_of_def update_key_def Let_def)
    then show ?thesis using Some framed after by (simp add: hop_cmds_def)
  qed
qed

lemma described_paths [simp]: "hop_paths (described_as n r) = hop_paths r"
  by (simp add: described_as_def hop_paths_def key_of_def)

lemma described_desc: "desc_paths (described_as n r) = (if same_route r n then desc_paths n else desc_paths r)"
  by (simp add: described_as_def desc_paths_def same_route_def)

lemma saved_table:
  "route_table (saved_rows existing u) = hops (without_key (ru_original u) existing) \<union> hop_paths (row_of u) \<union>
     (descs (without_key (ru_original u) existing) - desc_cone (row_of u)) \<union> desc_paths (row_of u)"
proof -
  let ?n = "row_of u" and ?k = "without_key (ru_original u) existing"
  have "desc_paths r - desc_cone ?n = (if same_route r ?n then {} else desc_paths r)" for r
    using desc_paths_cone [of r] desc_apart [of r ?n] desc_cone_same [of r ?n] by auto
  then have "descs ?k - desc_cone ?n = (\<Union>r\<in>set ?k. if same_route r ?n then {} else desc_paths r)"
    unfolding descs_def by blast
  then show ?thesis
    by (auto simp: route_table_def saved_rows_def hops_def described_desc split: if_splits)
qed

lemma sameHop_key: "sameHop r k \<longleftrightarrow> key_of r = k"
  by (cases k) (auto simp: sameHop_def key_of_def)

lemma find_Some_in: "find P xs = Some x \<Longrightarrow> x \<in> set xs \<and> P x"
  by (auto simp: find_Some_iff)

lemma live_row_found:
  assumes "table_ok existing" and "ru_original u = Some k" and "k \<in> key_of ` set existing" and "\<not> route_moved u"
  obtains r where "live_row existing u = Some r" "r \<in> set existing" "key_of r = k" "k = update_key u"
proof -
  obtain r where r: "find (\<lambda>r. sameHop r k) existing = Some r"
    using assms(3) by (cases "find (\<lambda>r. sameHop r k) existing") (auto simp: find_None_iff sameHop_key)
  moreover have "k = update_key u" using assms(2,4) by (simp add: route_moved_def)
  ultimately show thesis using assms that find_Some_in [OF r] by (simp add: live_row_def sameHop_key)
qed

text \<open>The rows whose descriptions the device has when the description is compared.\<close>

definition described_rows :: "static_route list \<Rightarrow> route_update \<Rightarrow> static_route list" where
  "described_rows existing u = (if route_moved u then without_key (ru_original u) existing else existing)"

lemma described_rows_kept:
  assumes "table_ok existing" and "case ru_original u of None \<Rightarrow> True | Some k \<Rightarrow> k \<in> key_of ` set existing"
  shows "descs (described_rows existing u) - desc_cone (row_of u) =
    descs (without_key (ru_original u) existing) - desc_cone (row_of u)"
proof (cases "route_moved u \<or> ru_original u = None")
  case True
  then show ?thesis by (auto simp: described_rows_def without_key_def)
next
  case False
  then obtain k where "ru_original u = Some k" "\<not> route_moved u" by auto
  moreover from this obtain r where "r \<in> set existing" "key_of r = k" "k = update_key u"
    using assms by (auto elim: live_row_found)
  ultimately have "desc_paths s \<subseteq> desc_cone (row_of u)" if "s \<in> set existing" "Some (key_of s) = ru_original u" for s
    using that desc_paths_cone [of s] by (auto simp: desc_cone_def row_of_def key_of_def update_key_def)
  then show ?thesis using False unfolding descs_def described_rows_def without_key_def by auto
qed

lemma live_description_device:
  assumes ok: "table_ok existing" and orig: "case ru_original u of None \<Rightarrow> True | Some k \<Rightarrow> k \<in> key_of ` set existing"
  shows "descs (described_rows existing u) \<inter> desc_cone (row_of u) =
    leaf_paths (routeBase (ru_family u) (ru_destination u) @ [''description'']) (live_description existing u)"
proof -
  let ?rows = "described_rows existing u" and ?here = "\<lambda>r. same_route r (row_of u)"
  have here: "?here r \<longleftrightarrow> sr_family r = ru_family u \<and> sr_destination r = ru_destination u" for r
    by (auto simp: same_route_def row_of_def)
  have agree: "sr_description r = sr_description s" if "r \<in> set existing" "s \<in> set existing" "?here r" "?here s" for r s
  proof -
    have "same_route r s" using that by (simp add: same_route_def)
    then show ?thesis using ok that unfolding table_ok_def by blast
  qed
  have sub: "set ?rows \<subseteq> set existing" by (auto simp: described_rows_def without_key_def)
  have at: "descs ?rows \<inter> desc_cone (row_of u) = (\<Union>r\<in>{r \<in> set ?rows. ?here r}.
      leaf_paths (routeBase (ru_family u) (ru_destination u) @ [''description'']) (sr_description r))"
    unfolding descs_at by (auto simp: descs_def desc_paths_def same_route_def row_of_def)
  have first: "live_description existing u = sr_description s" if st: "s \<in> set ?rows" "?here s" for s
  proof -
    obtain r where r: "find (\<lambda>r. sr_family r = ru_family u \<and> sr_destination r = ru_destination u) existing = Some r"
      using st sub here by (cases "find (\<lambda>r. sr_family r = ru_family u \<and> sr_destination r = ru_destination u) existing")
        (auto simp: find_None_iff)
    then have "r \<in> set existing" "?here r" by (auto simp: find_Some_iff here)
    then have "sr_description r = sr_description s" using agree st sub by blast
    moreover have "\<not> wiped_here existing u"
    proof
      assume "wiped_here existing u"
      then obtain k where "route_moved u" "ru_original u = Some k" "other_hops existing k = []"
          "fst k = ru_family u" "fst (snd k) = ru_destination u"
        by (auto simp: wiped_here_def split: option.splits)
      then show False using st here
        by (auto simp: other_hops_def siblings_def described_rows_def without_key_def sameHop_key filter_empty_conv)
    qed
    ultimately show ?thesis using r by (simp add: live_description_def)
  qed
  show ?thesis
  proof (cases "\<exists>s\<in>set ?rows. ?here s")
    case True
    have "(\<Union>r\<in>{r \<in> set ?rows. ?here r}. leaf_paths (routeBase (ru_family u) (ru_destination u) @ [''description'']) (sr_description r)) =
        (\<Union>r\<in>{r \<in> set ?rows. ?here r}. leaf_paths (routeBase (ru_family u) (ru_destination u) @ [''description'']) (live_description existing u))"
      by (intro SUP_cong) (auto simp: first [symmetric])
    then show ?thesis unfolding at using True by auto
  next
    case False
    have "live_description existing u = None"
    proof (rule ccontr)
      assume *: "live_description existing u \<noteq> None"
      then obtain r where r: "find (\<lambda>r. sr_family r = ru_family u \<and> sr_destination r = ru_destination u) existing = Some r"
        and not_wiped: "\<not> wiped_here existing u"
        by (auto simp: live_description_def bind_eq_Some_conv split: if_splits)
      then have r: "r \<in> set existing" "?here r" by (auto simp: find_Some_iff here)
      then have "route_moved u" "Some (key_of r) = ru_original u"
        using False by (auto simp: described_rows_def without_key_def split: if_splits)
      then obtain k where k: "route_moved u" "ru_original u = Some k" "key_of r = k" by metis
      then have "other_hops existing k \<noteq> []"
        using not_wiped r here by (auto simp: wiped_here_def key_of_def)
      then obtain s where "s \<in> set (other_hops existing k)" by (cases "other_hops existing k") auto
      then have "s \<in> set existing" "?here s" "key_of s \<noteq> k"
        using k r(2) unfolding here by (auto simp: other_hops_def siblings_def sameHop_key key_of_def)
      then show False using False k by (auto simp: described_rows_def without_key_def)
    qed
    then show ?thesis unfolding at using False by auto
  qed
qed

lemma drop_run:
  assumes dev: "device_laws dev single" and ok: "table_ok existing"
    and orig: "case ru_original u of None \<Rightarrow> True | Some k \<Rightarrow> k \<in> key_of ` set existing"
    and R: "R \<inter> routes_root = {}"
  shows "run dev (case ru_original u of None \<Rightarrow> [] | Some k \<Rightarrow> if route_moved u then [cdel (drop_path existing k)] else [])
      (R \<union> route_table existing) =
    R \<union> hops (without_key (ru_original u) existing) \<union> (case live_row existing u of None \<Rightarrow> {} | Some r \<Rightarrow> hop_paths r) \<union>
    descs (described_rows existing u)"
proof (cases "ru_original u")
  case None
  then have "live_row existing u = None" "\<not> route_moved u" by (simp_all add: live_row_def route_moved_def)
  then show ?thesis using None by (simp add: described_rows_def without_key_def route_table_parts Un_assoc)
next
  case (Some k)
  then obtain r where r: "r \<in> set existing" "key_of r = k" using orig by auto
  show ?thesis
  proof (cases "route_moved u")
    case True
    have "R \<inter> cone (drop_path existing k) = {}" using R drop_in_root [of existing k] by blast
    then have "(R \<union> route_table existing) - cone (drop_path existing k) = R \<union> route_table (without_key (Some k) existing)"
      using table_drop [OF ok r(1)] unfolding r(2) by blast
    moreover have "live_row existing u = None" using True by (simp add: live_row_def)
    ultimately show ?thesis using Some True
      by (simp add: dev_delete [OF dev] described_rows_def route_table_parts Un_assoc)
  next
    case False
    obtain s where s: "live_row existing u = Some s" "s \<in> set existing" "key_of s = k"
      using live_row_found [OF ok Some _ False] r by blast
    have "key_of x = k \<longleftrightarrow> x = s" if "x \<in> set existing" for x
      using key_unique [of key_of existing x s] ok s that by (auto simp: table_ok_def)
    then have "hops existing = hops (without_key (Some k) existing) \<union> hop_paths s"
      using s by (auto simp: hops_def without_key_def)
    then show ?thesis using Some False s by (simp add: described_rows_def route_table_parts Un_assoc)
  qed
qed

lemma saved_description:
  assumes "r \<in> set (saved_rows existing u)"
  shows "same_route r (row_of u) \<and> sr_description r = sr_description (row_of u) \<or>
    \<not> same_route r (row_of u) \<and> r \<in> set existing"
proof -
  consider "r = row_of u" | x where "x \<in> set existing" "r = described_as (row_of u) x"
    using assms by (auto simp: saved_rows_def without_key_def)
  then show ?thesis
  proof cases
    case 1
    then show ?thesis by (simp add: same_route_def)
  next
    case (2 x)
    then show ?thesis by (simp add: described_as_def same_route_def)
  qed
qed

lemma Un_Int_only:
  "N \<inter> C = {} \<Longrightarrow> R \<inter> C = {} \<Longrightarrow> H \<inter> C = {} \<Longrightarrow> D \<inter> C = L \<Longrightarrow>
   (R \<union> H \<union> D \<union> N) \<inter> C = L \<and> (R \<union> H \<union> D \<union> N) - C = R \<union> H \<union> (D - C) \<union> N"
  by blast

lemma Un_Int_one:
  "L \<subseteq> C \<Longrightarrow> H \<inter> C = {} \<Longrightarrow> R \<inter> C = {} \<Longrightarrow> D \<inter> C = {} \<Longrightarrow>
   (R \<union> H \<union> L \<union> D) \<inter> C = L \<and> (R \<union> H \<union> L \<union> D) - C = R \<union> H \<union> D"
  by blast

text \<open>
  C40: a save of a static route takes the device from the table to the updated table: the edited row is
  replaced or added, every row of its destination shows the new description, all other rows stay as
  they are, and nothing outside the static routes changes. This covers edits in place, moves to another
  destination or kind, moves that empty a route (which is then deleted as a whole and its description
  written again) and new rows. The updated table is well formed again.
\<close>

theorem static_route_save:
  assumes dev: "device_laws dev single" and sch: "route_schema single"
    and ok: "table_ok existing" and key: "wf_key (update_key u)"
    and orig: "case ru_original u of None \<Rightarrow> True | Some k \<Rightarrow> k \<in> key_of ` set existing"
    and fresh: "update_key u \<notin> key_of ` set (without_key (ru_original u) existing)"
    and R: "R \<inter> routes_root = {}"
  shows "run dev (applyStaticRoute_cmds existing u) (R \<union> route_table existing) = R \<union> route_table (saved_rows existing u) \<and>
    table_ok (saved_rows existing u)"
proof
  let ?n = "row_of u" and ?kept = "without_key (ru_original u) existing" and ?X = "described_rows existing u"
  let ?h = "hopPath (update_key u)" and ?dp = "routeBase (ru_family u) (ru_destination u) @ [''description'']"
  let ?L = "case live_row existing u of None \<Rightarrow> {} | Some r \<Rightarrow> hop_paths r"
  let ?S1 = "R \<union> hops ?kept \<union> ?L \<union> descs ?X"
  have rows: "\<forall>r\<in>set ?kept. row_ok r" using ok by (auto simp: table_ok_def list_all_iff without_key_def)
  have n: "key_of ?n = update_key u" "row_ok ?n" using key by (auto simp: key_of_def row_of_def update_key_def row_ok_def wf_key_def)
  have live: "case live_row existing u of None \<Rightarrow> True | Some r \<Rightarrow> key_of r = update_key u \<and> row_ok r"
    using ok by (auto simp: live_row_def route_moved_def find_Some_iff sameHop_key table_ok_def list_all_iff split: option.splits if_splits)
  have L: "?L \<subseteq> cone ?h"
  proof (cases "live_row existing u")
    case (Some r)
    then have "key_of r = update_key u" using live by simp
    then show ?thesis using hop_paths_cone [of r] Some by simp
  qed simp
  have H: "hops ?kept \<inter> cone ?h = {}" unfolding hops_at [OF rows key] using fresh by (force simp: hops_def)
  have "R \<inter> cone ?h = {}" using R hop_in_root [of "update_key u"] by blast
  note first = Un_Int_one [OF L H this descs_hop_apart, of ?X]
  note at = first [THEN conjunct1] and rest = first [THEN conjunct2]
  have S2: "run dev (hop_cmds (live_row existing u) u) ?S1 = R \<union> hops ?kept \<union> descs ?X \<union> hop_paths ?n"
    unfolding edits_run [OF hop_edits [OF dev sch key live] at] rest ..
  have dc: "desc_cone ?n = cone ?dp" by (simp add: desc_cone_def row_of_def)
  have N: "hop_paths ?n \<inter> desc_cone ?n = {}" using hop_paths_cone [of ?n] hop_desc_apart by blast
  have "R \<inter> desc_cone ?n = {}" using R desc_in_root by blast
  note both = Un_Int_only [OF N this hops_desc_apart live_description_device [OF ok orig], of ?kept]
  have d: "(R \<union> hops ?kept \<union> descs ?X \<union> hop_paths ?n) \<inter> cone ?dp = leaf_paths ?dp (live_description existing u)"
    and rest2: "(R \<union> hops ?kept \<union> descs ?X \<union> hop_paths ?n) - cone ?dp = R \<union> hops ?kept \<union> (descs ?X - desc_cone ?n) \<union> hop_paths ?n"
    using both [THEN conjunct1] both [THEN conjunct2] unfolding dc .
  have single: "single ?dp" using sch unfolding route_schema_def by blast
  have "run dev (applyStaticRoute_cmds existing u) (R \<union> route_table existing) =
      R \<union> hops ?kept \<union> (descs ?X - desc_cone ?n) \<union> hop_paths ?n \<union> leaf_paths ?dp (blank_to_none (ru_description u))"
    unfolding applyStaticRoute_cmds_def run_append drop_run [OF dev ok orig R] S2
      edits_run [OF edits_leaf [OF dev single] d] rest2 ..
  moreover have "leaf_paths ?dp (blank_to_none (ru_description u)) = desc_paths ?n" by (simp add: desc_paths_def row_of_def)
  ultimately show "run dev (applyStaticRoute_cmds existing u) (R \<union> route_table existing) = R \<union> route_table (saved_rows existing u)"
    unfolding described_rows_kept [OF ok orig] saved_table by blast
  have keys: "map key_of (map (described_as ?n) xs) = map key_of xs" for xs by (simp add: described_as_def key_of_def comp_def)
  have "distinct (map key_of ?kept)" using ok by (simp add: table_ok_def without_key_def distinct_map_filter)
  then have "distinct (map key_of (saved_rows existing u))"
    using fresh n(1) unfolding saved_rows_def map_append keys by simp
  moreover have "list_all row_ok (saved_rows existing u)"
    using rows n(2) by (auto simp: saved_rows_def list_all_iff described_as_def row_ok_def)
  moreover have "sr_description r = sr_description s"
    if "r \<in> set (saved_rows existing u)" "s \<in> set (saved_rows existing u)" "same_route r s" for r s
    using saved_description [OF that(1)] saved_description [OF that(2)] that(3) ok
    unfolding table_ok_def same_route_def by metis
  ultimately show "table_ok (saved_rows existing u)" by (simp add: table_ok_def)
qed

text \<open>A delete removes the row, and its route when it was the last one there.\<close>

theorem static_route_delete:
  assumes "device_laws dev single" and "table_ok existing" and "row \<in> set existing" and "R \<inter> routes_root = {}"
  shows "run dev (deleteStaticRoute_cmds existing row) (R \<union> route_table existing) =
    R \<union> route_table (without_key (Some (key_of row)) existing)"
  using table_drop [OF assms(2,3)] drop_in_root [of existing "key_of row"] assms(4)
  by (auto simp: deleteStaticRoute_cmds_def dev_delete [OF assms(1)])

definition route_single :: "path \<Rightarrow> bool" where
  "route_single p \<longleftrightarrow> (length p = 5 \<and> last p = ''description'') \<or>
     (length p = 6 \<and> p ! 4 = ''blackhole'' \<and> last p \<in> {''distance'', ''interface''}) \<or>
     (length p = 7 \<and> last p \<in> {''distance'', ''interface''})"

lemma route_single_schema: "route_schema route_single"
proof -
  have "\<not> route_single (hopPath k) \<and> route_single (hopPath k @ [''distance'']) \<and> route_single (hopPath k @ [''interface''])" for k
    by (cases k rule: hopPath.cases) (simp_all add: route_single_def routeBase_def)
  then show ?thesis by (simp add: route_schema_def route_single_def routeBase_def)
qed

text \<open>The only gateway of a default route becomes a blackhole.\<close>

definition default_gateway :: static_route where
  "default_gateway = \<lparr>sr_family = IPv4, sr_destination = ''0.0.0.0/0'', sr_kind = Gateway, sr_via = Some ''10.0.0.1'',
     sr_interface = None, sr_distance = None, sr_enabled = True, sr_description = Some ''uplink''\<rparr>"

definition to_blackhole :: route_update where
  "to_blackhole = \<lparr>ru_family = IPv4, ru_destination = ''0.0.0.0/0'', ru_kind = Blackhole, ru_via = None,
     ru_interface = None, ru_distance = Some 254, ru_enabled = True, ru_description = Some ''uplink'',
     ru_original = Some (key_of default_gateway)\<rparr>"

lemma static_route_save_witness:
  "run (ref_dev route_single) (applyStaticRoute_cmds [default_gateway] to_blackhole)
     ({[''system'', ''host-name'', ''gw'']} \<union> route_table [default_gateway]) =
   {[''system'', ''host-name'', ''gw'']} \<union> route_table (saved_rows [default_gateway] to_blackhole)"
  by (rule static_route_save [OF ref_dev_laws route_single_schema, THEN conjunct1])
    (simp_all add: table_ok_def row_ok_def default_gateway_def to_blackhole_def wf_key_def update_key_def key_of_def
      without_key_def routes_root_def)

end
