(* ===== verification/Services.thy ===== *)
theory Services
  imports Forms Interfaces Op_Tables
begin

text \<open>
  Network services: \<open>lib/services.ts\<close>, the DHCP relay, the DHCP server with its lease table, and DNS
  forwarding.
\<close>

section \<open>Reading\<close>

text \<open>\<open>childCfg\<close> of this module takes arrays for objects, \<open>strList\<close> also reads the keys of a tag node.\<close>

definition svc_childCfg :: "json \<Rightarrow> string \<Rightarrow> json option" where
  "svc_childCfg v key = (case js_get v key of
       Some (JObj kvs) \<Rightarrow> Some (JObj kvs) | Some (JArr xs) \<Rightarrow> Some (JArr xs) | _ \<Rightarrow> None)"

definition strList :: "json \<Rightarrow> string \<Rightarrow> string list" where
  "strList v key = (case js_get v key of
       Some (JStr s) \<Rightarrow> [s] | Some (JArr xs) \<Rightarrow> strings_of xs | Some (JObj kvs) \<Rightarrow> map fst kvs | _ \<Rightarrow> [])"

definition configNode :: "string \<Rightarrow> vyos_response \<Rightarrow> read_error + json" where
  "configNode child resp =
     (case config_of_response ''Device returned an error reading services.'' resp of
        Inl e \<Rightarrow> Inl e | Inr cfg \<Rightarrow> Inr (obj_or_empty (svc_childCfg cfg child)))"

section \<open>DHCP relay\<close>

record dhcp_relay =
  rl_interfaces :: "string list"
  rl_servers :: "string list"

definition relay_base :: path where
  "relay_base = [''service'', ''dhcp-relay'']"

definition fetchDhcpRelay :: "vyos_response \<Rightarrow> read_error + dhcp_relay" where
  "fetchDhcpRelay resp = (case configNode ''dhcp-relay'' resp of Inl e \<Rightarrow> Inl e
     | Inr d \<Rightarrow> Inr \<lparr>rl_interfaces = sort_by str_cmp (strList d ''interface''),
         rl_servers = sort_by str_cmp (strList d ''server'')\<rparr>)"

definition addDhcpRelayEntries_cmds :: "string \<Rightarrow> string list \<Rightarrow> vyos_command list" where
  "addDhcpRelayEntries_cmds kind values = map (\<lambda>v. cset (relay_base @ [kind, trim v])) values"

definition deleteDhcpRelayEntry_cmds :: "string \<Rightarrow> string \<Rightarrow> vyos_command list" where
  "deleteDhcpRelayEntry_cmds kind v = [cdel (relay_base @ [kind, v])]"

section \<open>DHCP server\<close>

record dhcp_range =
  dr_name :: string
  dr_start :: "string option"
  dr_stop :: "string option"

record dhcp_mapping =
  dm_name :: string
  dm_ip_address :: "string option"
  dm_mac_address :: "string option"
  dm_description :: "string option"

record dhcp_subnet =
  ds_subnet :: string
  ds_subnet_id :: "int option"
  ds_default_router :: "string option"
  ds_name_servers :: "string list"
  ds_domain_name :: "string option"
  ds_lease :: "string option"
  ds_ranges :: "dhcp_range list"
  ds_static_mappings :: "dhcp_mapping list"

record dhcp_server =
  dh_name :: string
  dh_enabled :: bool
  dh_authoritative :: bool
  dh_description :: "string option"
  dh_subnets :: "dhcp_subnet list"

record dhcp_lease =
  le_ip_address :: string
  le_mac_address :: "string option"
  le_state :: "string option"
  le_start :: "string option"
  le_expiration :: "string option"
  le_remaining :: "string option"
  le_pool :: "string option"
  le_hostname :: "string option"

definition optStr :: "json \<Rightarrow> string \<Rightarrow> string option" where
  "optStr subnet key = (case Option.bind (svc_childCfg subnet ''option'') (\<lambda>opt. childStr opt key) of
       Some s \<Rightarrow> Some s | None \<Rightarrow> childStr subnet key)"

definition optList :: "json \<Rightarrow> string \<Rightarrow> string list" where
  "optList subnet key = (let nested = (case svc_childCfg subnet ''option'' of None \<Rightarrow> [] | Some opt \<Rightarrow> strList opt key) in
     if nested \<noteq> [] then nested else strList subnet key)"

definition parseRanges :: "(string \<Rightarrow> string \<Rightarrow> int) \<Rightarrow> json \<Rightarrow> dhcp_range list" where
  "parseRanges lc subnet = sort_by (\<lambda>a b. lc (dr_name a) (dr_name b))
     (map (\<lambda>(name, raw). let cfg = or_empty raw in
        \<lparr>dr_name = name, dr_start = childStr cfg ''start'', dr_stop = childStr cfg ''stop''\<rparr>)
       (object_entries subnet ''range''))"

definition parseStaticMappings :: "(string \<Rightarrow> string \<Rightarrow> int) \<Rightarrow> json \<Rightarrow> dhcp_mapping list" where
  "parseStaticMappings lc subnet = sort_by (\<lambda>a b. lc (dm_name a) (dm_name b))
     (map (\<lambda>(name, raw). let cfg = or_empty raw in
        \<lparr>dm_name = name, dm_ip_address = childStr cfg ''ip-address'',
         dm_mac_address = (case childStr cfg ''mac'' of Some m \<Rightarrow> Some m | None \<Rightarrow> childStr cfg ''mac-address''),
         dm_description = childStr cfg ''description''\<rparr>)
       (object_entries subnet ''static-mapping''))"

definition parseSubnets :: "(string \<Rightarrow> string \<Rightarrow> int) \<Rightarrow> json \<Rightarrow> dhcp_subnet list" where
  "parseSubnets lc network = sort_by (\<lambda>a b. lc (ds_subnet a) (ds_subnet b))
     (map (\<lambda>(cidr, raw). let cfg = or_empty raw in
        \<lparr>ds_subnet = cidr, ds_subnet_id = childNum cfg ''subnet-id'', ds_default_router = optStr cfg ''default-router'',
         ds_name_servers = optList cfg ''name-server'', ds_domain_name = optStr cfg ''domain-name'',
         ds_lease = childStr cfg ''lease'', ds_ranges = parseRanges lc cfg, ds_static_mappings = parseStaticMappings lc cfg\<rparr>)
       (object_entries network ''subnet''))"

definition parse_server :: "(string \<Rightarrow> string \<Rightarrow> int) \<Rightarrow> string \<times> json \<Rightarrow> read_error + dhcp_server" where
  "parse_server lc e = (let cfg = or_empty (snd e) in
     case isEnabled cfg of Inl err \<Rightarrow> Inl err | Inr enabled \<Rightarrow>
     (case has_key ''authoritative'' cfg of Inl err \<Rightarrow> Inl err | Inr auth \<Rightarrow>
       Inr \<lparr>dh_name = fst e, dh_enabled = enabled, dh_authoritative = auth,
         dh_description = childStr cfg ''description'', dh_subnets = parseSubnets lc cfg\<rparr>))"

definition parseServers :: "(string \<Rightarrow> string \<Rightarrow> int) \<Rightarrow> json \<Rightarrow> read_error + dhcp_server list" where
  "parseServers lc d = (case map_res (parse_server lc) (object_entries d ''shared-network-name'') of Inl e \<Rightarrow> Inl e
     | Inr rows \<Rightarrow> Inr (sort_by (\<lambda>a b. lc (dh_name a) (dh_name b)) rows))"

section \<open>The lease table\<close>

definition dash_line :: "string \<Rightarrow> bool" where
  "dash_line l \<longleftrightarrow> trim l \<noteq> [] \<and> list_all (\<lambda>c. c = CHR ''-'' \<or> c = CHR '' '') (trim l) \<and> CHR ''-'' \<in> set (trim l)"

text \<open>The start of each run of dashes; \<open>inside\<close> says that the scan is in a run.\<close>

fun dash_starts :: "bool \<Rightarrow> nat \<Rightarrow> string \<Rightarrow> nat list" where
  "dash_starts inside i [] = []"
| "dash_starts inside i (c # cs) =
     (if c = CHR ''-'' then (if inside then dash_starts True (i + 1) cs else i # dash_starts True (i + 1) cs)
      else dash_starts False (i + 1) cs)"

definition lease_field :: "nat list \<Rightarrow> string \<Rightarrow> nat \<Rightarrow> string" where
  "lease_field starts line col =
     (let start = starts ! col in
      if length line \<le> start then []
      else (let upto = min (if col + 1 < length starts then starts ! (col + 1) else length line) (length line)
        in trim (take (upto - start) (drop start line))))"

definition label_index :: "string list \<Rightarrow> (string \<Rightarrow> bool) \<Rightarrow> nat option" where
  "label_index labels p = index_where p labels"

definition lease_cell :: "nat list \<Rightarrow> string \<Rightarrow> nat option \<Rightarrow> string option" where
  "lease_cell starts line col = (case col of None \<Rightarrow> None
     | Some c \<Rightarrow> (let v = lease_field starts line c in if v = [] then None else Some v))"

definition lease_of_line :: "nat list \<Rightarrow> string list \<Rightarrow> string \<Rightarrow> dhcp_lease option" where
  "lease_of_line starts labels line =
     (let find = (\<lambda>needle. label_index labels (\<lambda>l. sublist needle l));
          cell = (\<lambda>needle. lease_cell starts line (find needle)) in
      if trim line = [] then None
      else (case lease_cell starts line (label_index labels (\<lambda>l. sublist ''ip'' l \<and> sublist ''address'' l)) of
          None \<Rightarrow> None
        | Some ip \<Rightarrow> Some \<lparr>le_ip_address = ip, le_mac_address = cell ''mac'', le_state = cell ''state'',
            le_start = cell ''start'', le_expiration = cell ''expir'', le_remaining = cell ''remain'',
            le_pool = cell ''pool'', le_hostname = cell ''hostname''\<rparr>))"

definition parseLeases :: "string \<Rightarrow> dhcp_lease list" where
  "parseLeases text =
     (let lines = split_on newline text in
      case index_where dash_line lines of
        None \<Rightarrow> []
      | Some s \<Rightarrow> if s = 0 then [] else
          (let starts = dash_starts False 0 (lines ! s);
               labels = map (\<lambda>c. map lower_char (lease_field starts (lines ! (s - 1)) c)) [0..<length starts]
           in if starts = [] then [] else List.map_filter (lease_of_line starts labels) (drop (s + 1) lines)))"

text \<open>Leases are best effort: \<open>leases\<close> is \<open>None\<close> when the request failed.\<close>

definition fetchDhcpServer ::
  "(string \<Rightarrow> string \<Rightarrow> int) \<Rightarrow> vyos_response \<Rightarrow> string option \<Rightarrow> read_error + (dhcp_server list \<times> dhcp_lease list)" where
  "fetchDhcpServer lc resp leases =
     (case configNode ''dhcp-server'' resp of Inl e \<Rightarrow> Inl e
      | Inr d \<Rightarrow> (case parseServers lc d of Inl e \<Rightarrow> Inl e
          | Inr servers \<Rightarrow> Inr (servers, case leases of None \<Rightarrow> [] | Some t \<Rightarrow> parseLeases t)))"

section \<open>DHCP server writes\<close>

definition serverBase :: "string \<Rightarrow> path" where
  "serverBase name = [''service'', ''dhcp-server'', ''shared-network-name'', name]"

definition subnetBase :: "string \<Rightarrow> string \<Rightarrow> path" where
  "subnetBase server cidr = serverBase server @ [''subnet'', cidr]"

record first_subnet =
  fs_subnet :: string
  fs_default_router :: "string option"
  fs_name_servers :: "string list"
  fs_range_start :: string
  fs_range_stop :: string

record server_update =
  su_name :: string
  su_description :: "string option"
  su_authoritative :: bool
  su_enabled :: bool
  su_first_subnet :: "first_subnet option"

definition used_ids :: "dhcp_server list \<Rightarrow> int list" where
  "used_ids servers = concat (map (\<lambda>s. map (\<lambda>n. case ds_subnet_id n of None \<Rightarrow> 0 | Some i \<Rightarrow> i) (dh_subnets s)) servers)"

definition nextSubnetId :: "dhcp_server list \<Rightarrow> int" where
  "nextSubnetId servers = foldl max 0 (used_ids servers) + 1"

definition live_server :: "dhcp_server list \<Rightarrow> string \<Rightarrow> dhcp_server option" where
  "live_server existing name = find (\<lambda>s. dh_name s = name) existing"

definition server_fields :: "dhcp_server option \<Rightarrow> server_update \<Rightarrow> field list" where
  "server_fields live u =
     [Leaf [''description''] (Option.bind live dh_description) (blank_to_none (su_description u)),
      Flag [''authoritative''] (case live of None \<Rightarrow> False | Some l \<Rightarrow> dh_authoritative l) (su_authoritative u),
      Flag [''disable''] (\<not> (case live of None \<Rightarrow> True | Some l \<Rightarrow> dh_enabled l)) (\<not> su_enabled u)]"

definition first_subnet_cmds :: "dhcp_server list \<Rightarrow> string \<Rightarrow> first_subnet \<Rightarrow> vyos_command list" where
  "first_subnet_cmds existing server fs = (let sb = subnetBase server (fs_subnet fs) in
     [cset (sb @ [''subnet-id'', string_of_int (nextSubnetId existing)])] @
     leaf_cmds (sb @ [''option'', ''default-router'']) None (blank_to_none (fs_default_router fs)) @
     list_cmds (sb @ [''option'', ''name-server'']) [] (clean (fs_name_servers fs)) @
     [cset (sb @ [''range'', ''default'', ''start'', fs_range_start fs]),
      cset (sb @ [''range'', ''default'', ''stop'', fs_range_stop fs])])"

definition applyDhcpServer_cmds :: "dhcp_server list \<Rightarrow> server_update \<Rightarrow> vyos_command list" where
  "applyDhcpServer_cmds existing u =
     (let live = live_server existing (su_name u); base = serverBase (su_name u) in
      ensureCreated (form_cmds base (server_fields live u) @
        (case su_first_subnet u of Some fs \<Rightarrow> if live = None then first_subnet_cmds existing (su_name u) fs else [] | None \<Rightarrow> []))
        base (live = None))"

definition deleteDhcpServer_cmds :: "string \<Rightarrow> vyos_command list" where
  "deleteDhcpServer_cmds name = [cdel (serverBase name)]"

record subnet_update =
  nu_server :: string
  nu_subnet :: string
  nu_default_router :: "string option"
  nu_name_servers :: "string list"
  nu_domain_name :: "string option"
  nu_lease :: "string option"

definition live_subnet :: "dhcp_server list \<Rightarrow> string \<Rightarrow> string \<Rightarrow> dhcp_subnet option" where
  "live_subnet servers server subnet =
     Option.bind (live_server servers server) (\<lambda>s. find (\<lambda>n. ds_subnet n = subnet) (dh_subnets s))"

definition subnet_fields :: "dhcp_subnet option \<Rightarrow> subnet_update \<Rightarrow> field list" where
  "subnet_fields live u =
     [Leaf [''option'', ''default-router''] (Option.bind live ds_default_router) (blank_to_none (nu_default_router u)),
      Multi [''option'', ''name-server''] (case live of None \<Rightarrow> [] | Some l \<Rightarrow> ds_name_servers l) (clean (nu_name_servers u)),
      Leaf [''option'', ''domain-name''] (Option.bind live ds_domain_name) (blank_to_none (nu_domain_name u)),
      Leaf [''lease''] (Option.bind live ds_lease) (blank_to_none (nu_lease u))]"

definition applyDhcpSubnet_cmds :: "dhcp_server list \<Rightarrow> subnet_update \<Rightarrow> vyos_command list" where
  "applyDhcpSubnet_cmds servers u =
     (let live = live_subnet servers (nu_server u) (nu_subnet u); base = subnetBase (nu_server u) (nu_subnet u) in
      form_cmds base (subnet_fields live u) @
      (if live = None then [cset (base @ [''subnet-id'', string_of_int (nextSubnetId servers)])] else []))"

definition deleteDhcpSubnet_cmds :: "string \<Rightarrow> string \<Rightarrow> vyos_command list" where
  "deleteDhcpSubnet_cmds server cidr = [cdel (subnetBase server cidr)]"

record range_update =
  gu_server :: string
  gu_subnet :: string
  gu_name :: string
  gu_start :: "string option"
  gu_stop :: "string option"
  gu_original_name :: "string option"

definition renamed :: "string option \<Rightarrow> string \<Rightarrow> bool" where
  "renamed original name \<longleftrightarrow> original \<noteq> None \<and> original \<noteq> Some name"

definition range_base :: "range_update \<Rightarrow> path" where
  "range_base u = subnetBase (gu_server u) (gu_subnet u) @ [''range'', gu_name u]"

definition range_old_base :: "range_update \<Rightarrow> path" where
  "range_old_base u = subnetBase (gu_server u) (gu_subnet u) @ [''range'', case gu_original_name u of None \<Rightarrow> [] | Some n \<Rightarrow> n]"

definition range_moved :: "range_update \<Rightarrow> bool" where
  "range_moved u \<longleftrightarrow> renamed (gu_original_name u) (gu_name u)"

definition range_live :: "dhcp_server list \<Rightarrow> range_update \<Rightarrow> dhcp_range option" where
  "range_live servers u = (if range_moved u then None
     else Option.bind (live_subnet servers (gu_server u) (gu_subnet u)) (\<lambda>n. find (\<lambda>r. dr_name r = gu_name u) (ds_ranges n)))"

definition range_fields :: "dhcp_range option \<Rightarrow> range_update \<Rightarrow> field list" where
  "range_fields live u = [Leaf [''start''] (Option.bind live dr_start) (blank_to_none (gu_start u)),
     Leaf [''stop''] (Option.bind live dr_stop) (blank_to_none (gu_stop u))]"

definition applyDhcpRange_cmds :: "dhcp_server list \<Rightarrow> range_update \<Rightarrow> vyos_command list" where
  "applyDhcpRange_cmds servers u =
     (if range_moved u then [cdel (range_old_base u)] else []) @
     ensureCreated (form_cmds (range_base u) (range_fields (range_live servers u) u)) (range_base u) (range_live servers u = None)"

definition deleteDhcpRange_cmds :: "string \<Rightarrow> string \<Rightarrow> string \<Rightarrow> vyos_command list" where
  "deleteDhcpRange_cmds server subnet name = [cdel (subnetBase server subnet @ [''range'', name])]"

record mapping_update =
  mu_server :: string
  mu_subnet :: string
  mu_name :: string
  mu_ip_address :: "string option"
  mu_mac_address :: "string option"
  mu_description :: "string option"
  mu_original_name :: "string option"

definition mapping_base :: "mapping_update \<Rightarrow> path" where
  "mapping_base u = subnetBase (mu_server u) (mu_subnet u) @ [''static-mapping'', mu_name u]"

definition mapping_old_base :: "mapping_update \<Rightarrow> path" where
  "mapping_old_base u = subnetBase (mu_server u) (mu_subnet u) @
     [''static-mapping'', case mu_original_name u of None \<Rightarrow> [] | Some n \<Rightarrow> n]"

definition mapping_moved :: "mapping_update \<Rightarrow> bool" where
  "mapping_moved u \<longleftrightarrow> renamed (mu_original_name u) (mu_name u)"

definition mapping_live :: "dhcp_server list \<Rightarrow> mapping_update \<Rightarrow> dhcp_mapping option" where
  "mapping_live servers u = (if mapping_moved u then None
     else Option.bind (live_subnet servers (mu_server u) (mu_subnet u))
       (\<lambda>n. find (\<lambda>m. dm_name m = mu_name u) (ds_static_mappings n)))"

definition mapping_fields :: "dhcp_mapping option \<Rightarrow> mapping_update \<Rightarrow> field list" where
  "mapping_fields live u = [Leaf [''ip-address''] (Option.bind live dm_ip_address) (blank_to_none (mu_ip_address u)),
     Leaf [''mac''] (Option.bind live dm_mac_address) (blank_to_none (mu_mac_address u)),
     Leaf [''description''] (Option.bind live dm_description) (blank_to_none (mu_description u))]"

definition applyDhcpMapping_cmds :: "dhcp_server list \<Rightarrow> mapping_update \<Rightarrow> vyos_command list" where
  "applyDhcpMapping_cmds servers u =
     (if mapping_moved u then [cdel (mapping_old_base u)] else []) @
     ensureCreated (form_cmds (mapping_base u) (mapping_fields (mapping_live servers u) u)) (mapping_base u)
       (mapping_live servers u = None)"

definition deleteDhcpMapping_cmds :: "string \<Rightarrow> string \<Rightarrow> string \<Rightarrow> vyos_command list" where
  "deleteDhcpMapping_cmds server subnet name = [cdel (subnetBase server subnet @ [''static-mapping'', name])]"

section \<open>DNS forwarding\<close>

record dns_domain =
  dd_name :: string
  dd_name_servers :: "string list"

record dns_settings =
  dn_listen_addresses :: "string list"
  dn_allow_from :: "string list"
  dn_name_servers :: "string list"
  dn_system :: bool
  dn_cache_size :: "string option"
  dn_dnssec :: "string option"

definition dns_base :: path where
  "dns_base = [''service'', ''dns'', ''forwarding'']"

definition fetchDnsForwarding ::
  "(string \<Rightarrow> string \<Rightarrow> int) \<Rightarrow> vyos_response \<Rightarrow> read_error + (dns_settings \<times> dns_domain list)" where
  "fetchDnsForwarding lc resp = (case configNode ''forwarding'' resp of Inl e \<Rightarrow> Inl e
     | Inr d \<Rightarrow> (case has_key ''system'' d of Inl e \<Rightarrow> Inl e | Inr system \<Rightarrow>
         Inr (\<lparr>dn_listen_addresses = sort_by str_cmp (strList d ''listen-address''),
             dn_allow_from = sort_by str_cmp (strList d ''allow-from''),
             dn_name_servers = sort_by str_cmp (strList d ''name-server''), dn_system = system,
             dn_cache_size = childStr d ''cache-size'', dn_dnssec = childStr d ''dnssec''\<rparr>,
           sort_by (\<lambda>a b. lc (dd_name a) (dd_name b))
             (map (\<lambda>(name, raw). \<lparr>dd_name = name, dd_name_servers = sort_by str_cmp (strList (or_empty raw) ''name-server'')\<rparr>)
               (object_entries d ''domain'')))))"

definition dns_fields :: "dns_settings \<Rightarrow> dns_settings \<Rightarrow> field list" where
  "dns_fields live u =
     [Multi [''listen-address''] (dn_listen_addresses live) (clean (dn_listen_addresses u)),
      Multi [''allow-from''] (dn_allow_from live) (clean (dn_allow_from u)),
      Multi [''name-server''] (dn_name_servers live) (clean (dn_name_servers u)),
      Flag [''system''] (dn_system live) (dn_system u),
      Leaf [''cache-size''] (dn_cache_size live) (blank_to_none (dn_cache_size u)),
      Leaf [''dnssec''] (dn_dnssec live) (blank_to_none (dn_dnssec u))]"

definition applyDnsForwarding_cmds :: "dns_settings \<Rightarrow> dns_settings \<Rightarrow> vyos_command list" where
  "applyDnsForwarding_cmds live u = form_cmds dns_base (dns_fields live u)"

record domain_update =
  ou_name :: string
  ou_name_servers :: "string list"
  ou_original_name :: "string option"

definition domain_base :: "domain_update \<Rightarrow> path" where
  "domain_base u = dns_base @ [''domain'', ou_name u]"

definition domain_old_base :: "domain_update \<Rightarrow> path" where
  "domain_old_base u = dns_base @ [''domain'', case ou_original_name u of None \<Rightarrow> [] | Some n \<Rightarrow> n]"

definition domain_moved :: "domain_update \<Rightarrow> bool" where
  "domain_moved u \<longleftrightarrow> renamed (ou_original_name u) (ou_name u)"

definition domain_live :: "dns_domain list \<Rightarrow> domain_update \<Rightarrow> dns_domain option" where
  "domain_live existing u = (if domain_moved u then None else find (\<lambda>d. dd_name d = ou_name u) existing)"

definition domain_fields :: "dns_domain option \<Rightarrow> domain_update \<Rightarrow> field list" where
  "domain_fields live u =
     [Multi [''name-server''] (case live of None \<Rightarrow> [] | Some d \<Rightarrow> dd_name_servers d) (clean (ou_name_servers u))]"

definition applyDnsDomain_cmds :: "dns_domain list \<Rightarrow> domain_update \<Rightarrow> vyos_command list" where
  "applyDnsDomain_cmds existing u =
     (if domain_moved u then [cdel (domain_old_base u)] else []) @
     ensureCreated (form_cmds (domain_base u) (domain_fields (domain_live existing u) u)) (domain_base u)
       (domain_live existing u = None)"

definition deleteDnsDomain_cmds :: "string \<Rightarrow> vyos_command list" where
  "deleteDnsDomain_cmds name = [cdel (dns_base @ [''domain'', name])]"

section \<open>Renamed nodes\<close>

text \<open>Ranges, static mappings and conditional domains are nodes that are one form.\<close>

definition range_schema :: "(path \<Rightarrow> bool) \<Rightarrow> bool" where
  "range_schema single \<longleftrightarrow> (\<forall>u. single (range_base u @ [''start'']) \<and> single (range_base u @ [''stop'']) \<and>
     \<not> single (butlast (range_base u)))"

definition mapping_schema :: "(path \<Rightarrow> bool) \<Rightarrow> bool" where
  "mapping_schema single \<longleftrightarrow> (\<forall>u. \<not> single (butlast (mapping_base u)) \<and>
     (\<forall>k\<in>{''ip-address'', ''mac'', ''description''}. single (mapping_base u @ [k])))"

definition domain_schema :: "(path \<Rightarrow> bool) \<Rightarrow> bool" where
  "domain_schema single \<longleftrightarrow> (\<forall>u. \<not> single (domain_base u @ [''name-server'']) \<and> \<not> single (butlast (domain_base u)))"

interpretation dhcp_ranges: form_editor range_schema range_moved range_old_base range_base range_live range_fields
proof
  show "apart_fields (range_fields l u)" for l u by (simp add: range_fields_def apart_fields_def)
qed (auto simp: range_live_def range_schema_def range_fields_def form_desired_def)

interpretation dhcp_mappings: form_editor mapping_schema mapping_moved mapping_old_base mapping_base mapping_live mapping_fields
proof
  show "apart_fields (mapping_fields l u)" for l u by (simp add: mapping_fields_def apart_fields_def)
qed (auto simp: mapping_live_def mapping_schema_def mapping_fields_def form_desired_def)

interpretation dns_domains: form_editor domain_schema domain_moved domain_old_base domain_base domain_live domain_fields
proof
  show "apart_fields (domain_fields l u)" for l u by (simp add: domain_fields_def apart_fields_def)
qed (auto simp: domain_live_def domain_schema_def domain_fields_def form_desired_def)

lemma apply_node:
  "applyDhcpRange_cmds = node_diff range_moved range_old_base range_base range_live (form_body range_base range_fields)"
  "applyDhcpMapping_cmds = node_diff mapping_moved mapping_old_base mapping_base mapping_live (form_body mapping_base mapping_fields)"
  "applyDnsDomain_cmds = node_diff domain_moved domain_old_base domain_base domain_live (form_body domain_base domain_fields)"
  by (simp_all add: fun_eq_iff node_diff_def form_body_def applyDhcpRange_cmds_def applyDhcpMapping_cmds_def applyDnsDomain_cmds_def)

text \<open>
  Saving a range, a mapping or a domain: the node of the form holds the form, a renamed node is gone,
  the rest of the device is as before.
\<close>

lemmas dhcp_range_run = dhcp_ranges.diff_run [folded apply_node(1)]
lemmas dhcp_mapping_run = dhcp_mappings.diff_run [folded apply_node(2)]
lemmas dns_domain_run = dns_domains.diff_run [folded apply_node(3)]

section \<open>Subnet numbers\<close>

interpretation subnet_ids: fresh_key "\<lambda>servers. set (used_ids servers)" "\<lambda>_ :: unit. nextSubnetId"
proof
  show "nextSubnetId s \<notin> set (used_ids s)" for s
    using foldl_max_upper [of 0 "used_ids s"] by (force simp: nextSubnetId_def)
qed

lemma next_subnet_id_positive: "1 \<le> nextSubnetId servers"
  using foldl_max_upper [of 0 "used_ids servers"] by (simp add: nextSubnetId_def)

section \<open>The lease table reads back\<close>

lemma dash_starts_shift: "dash_starts b (i + k) s = map ((+) k) (dash_starts b i s)"
proof (induction b i s rule: dash_starts.induct)
  case (2 b i c cs)
  have "i + k + 1 = (i + 1) + k" by simp
  then show ?case using 2 by simp
qed simp

lemma dash_starts_run: "dash_starts True i (replicate w CHR ''-'' @ s) = dash_starts True (i + w) s"
  by (induction w arbitrary: i) simp_all

lemma dash_starts_column:
  "0 < w \<Longrightarrow> dash_starts False 0 (replicate w CHR ''-'' @ s) = 0 # dash_starts True w s"
  by (cases w) (simp_all add: dash_starts_run)

definition separator :: "nat list \<Rightarrow> string" where
  "separator ws = print_line ws (map (\<lambda>w. replicate w CHR ''-'') ws)"

lemma separator_simps:
  "separator [] = []" "separator [w] = replicate w CHR ''-''"
  "separator (w # v # ws) = replicate w CHR ''-'' @ ''  '' @ separator (v # ws)"
  by (simp_all add: separator_def print_line_def pad_def)

lemma dash_starts_separator: "\<forall>w\<in>set ws. 0 < w \<Longrightarrow> dash_starts False 0 (separator ws) = offsets ws"
proof (induction ws rule: induct_list012)
  case (2 w)
  then show ?case using dash_starts_column [of w "[]"] by (simp add: separator_simps)
next
  case (3 w v ws)
  have "dash_starts True w (''  '' @ separator (v # ws)) = dash_starts False (0 + (w + 2)) (separator (v # ws))" by simp
  also have "\<dots> = map ((+) (w + 2)) (offsets (v # ws))"
    unfolding dash_starts_shift using 3 by simp
  finally show ?case using "3.prems" dash_starts_column [of w] by (simp add: separator_simps del: offsets.simps(2)) simp
qed (simp add: separator_simps)

lemma trim_keeps: "x \<in> set s \<Longrightarrow> \<not> js_space x \<Longrightarrow> x \<in> set (trim s)"
proof -
  have keep: "x \<in> set (dropWhile js_space t)" if "x \<in> set t" "\<not> js_space x" for t
    using that by (induction t) auto
  show "x \<in> set s \<Longrightarrow> \<not> js_space x \<Longrightarrow> x \<in> set (trim s)"
    using keep [of "rev (dropWhile js_space s)"] keep [of s] by (simp add: trim_def)
qed

lemma separator_chars: "set (separator ws) \<subseteq> {CHR ''-'', CHR '' ''}"
  by (induction ws rule: induct_list012) (auto simp: separator_simps)

lemma separator_dashes:
  assumes "\<forall>w\<in>set ws. 0 < w" and "ws \<noteq> []"
  shows "dash_line (separator ws)"
proof -
  have "CHR ''-'' \<in> set (separator ws)" using assms by (cases ws rule: remdups_adj.cases) (auto simp: separator_simps)
  then have dash: "CHR ''-'' \<in> set (trim (separator ws))" by (rule trim_keeps) (simp add: js_space_def)
  have "set (trim t) \<subseteq> set t" for t by (auto simp: trim_def dest!: set_dropWhileD)
  then have "set (trim (separator ws)) \<subseteq> {CHR ''-'', CHR '' ''}" using separator_chars by blast
  then show ?thesis using dash by (auto simp: dash_line_def list_all_iff)
qed

lemma lease_field_cell: "lease_field starts line c = table_cell starts line c"
  by (auto simp: lease_field_def table_cell_def Let_def min_def)

lemma table_cells_nth: "c < length starts \<Longrightarrow> table_cell starts line c = table_cells starts line ! c"
  by (simp add: table_cells_def)

text \<open>The columns that the command prints, and the cells of a lease; the last column is not read.\<close>

definition lease_labels :: "string list" where
  "lease_labels = [''IP Address'', ''MAC address'', ''State'', ''Lease start'', ''Lease expiration'', ''Remaining'', ''Pool'',
     ''Hostname'', ''Origin'']"

definition blank_if_none :: "string option \<Rightarrow> string" where
  "blank_if_none v = (case v of None \<Rightarrow> [] | Some s \<Rightarrow> s)"

definition lease_cells :: "dhcp_lease \<times> string \<Rightarrow> string list" where
  "lease_cells e = (case e of (l, origin) \<Rightarrow> [le_ip_address l, blank_if_none (le_mac_address l), blank_if_none (le_state l),
     blank_if_none (le_start l), blank_if_none (le_expiration l), blank_if_none (le_remaining l), blank_if_none (le_pool l),
     blank_if_none (le_hostname l), origin])"

definition wf_lease :: "dhcp_lease \<Rightarrow> bool" where
  "wf_lease l \<longleftrightarrow> le_ip_address l \<noteq> [] \<and> le_mac_address l \<noteq> Some [] \<and> le_state l \<noteq> Some [] \<and> le_start l \<noteq> Some [] \<and>
     le_expiration l \<noteq> Some [] \<and> le_remaining l \<noteq> Some [] \<and> le_pool l \<noteq> Some [] \<and> le_hostname l \<noteq> Some []"

lemma lease_columns:
  "label_index (map (map lower_char) lease_labels) (\<lambda>l. sublist ''ip'' l \<and> sublist ''address'' l) = Some 0"
  "label_index (map (map lower_char) lease_labels) (\<lambda>l. sublist ''mac'' l) = Some 1"
  "label_index (map (map lower_char) lease_labels) (\<lambda>l. sublist ''state'' l) = Some 2"
  "label_index (map (map lower_char) lease_labels) (\<lambda>l. sublist ''start'' l) = Some 3"
  "label_index (map (map lower_char) lease_labels) (\<lambda>l. sublist ''expir'' l) = Some 4"
  "label_index (map (map lower_char) lease_labels) (\<lambda>l. sublist ''remain'' l) = Some 5"
  "label_index (map (map lower_char) lease_labels) (\<lambda>l. sublist ''pool'' l) = Some 6"
  "label_index (map (map lower_char) lease_labels) (\<lambda>l. sublist ''hostname'' l) = Some 7"
  by code_simp+

lemma lease_cell_some:
  assumes "table_cells starts line = cells" and "c < length starts" and "cells ! c = blank_if_none v" and "v \<noteq> Some []"
  shows "lease_cell starts line (Some c) = v"
  using assms by (auto simp: lease_cell_def lease_field_cell table_cells_nth blank_if_none_def Let_def split: option.splits)

lemma lease_row:
  assumes fit: "cells_fit ws (lease_cells (l, origin))" and wf: "wf_lease l" and ws: "length ws = 9"
  shows "lease_of_line (offsets ws) (map (map lower_char) lease_labels) (print_line ws (lease_cells (l, origin))) = Some l"
proof -
  let ?line = "print_line ws (lease_cells (l, origin))" and ?s = "offsets ws"
  have cells: "table_cells ?s ?line = lease_cells (l, origin)"
    using fit by (intro table_cells_print) (auto simp: cells_fit_def)
  have cell: "lease_cell ?s ?line (Some c) = v" if "c < 9" "lease_cells (l, origin) ! c = blank_if_none v" "v \<noteq> Some []" for c v
    by (rule lease_cell_some [OF cells]) (use that ws in simp_all)
  have found: "lease_cell ?s ?line (Some 0) = Some (le_ip_address l)" "lease_cell ?s ?line (Some 1) = le_mac_address l"
    "lease_cell ?s ?line (Some 2) = le_state l" "lease_cell ?s ?line (Some 3) = le_start l"
    "lease_cell ?s ?line (Some 4) = le_expiration l" "lease_cell ?s ?line (Some 5) = le_remaining l"
    "lease_cell ?s ?line (Some 6) = le_pool l" "lease_cell ?s ?line (Some 7) = le_hostname l"
    using wf by - (rule cell; simp add: lease_cells_def wf_lease_def blank_if_none_def)+
  have "trim ?line \<noteq> []"
  proof
    assume blank: "trim ?line = []"
    have "le_ip_address l \<in> snd ` set (zip ws (lease_cells (l, origin)))"
      using ws by (cases ws) (simp_all add: lease_cells_def)
    then have "sublist (le_ip_address l) ?line" unfolding print_line_def by (rule print_row_sublist)
    then have "\<forall>x\<in>set (le_ip_address l). js_space x"
      using blank set_mono_sublist unfolding trim_eq_Nil by blast
    moreover have "trimmed_string (le_ip_address l)"
      using fit ws by (cases ws) (auto simp: cells_fit_def lease_cells_def)
    ultimately show False using wf by (auto simp: trimmed_string_def wf_lease_def)
  qed
  then show ?thesis by (simp add: lease_of_line_def lease_columns found Let_def del: One_nat_def)
qed

lemma index_where_append:
  "\<forall>x\<in>set xs. \<not> P x \<Longrightarrow> P y \<Longrightarrow> index_where P (xs @ y # ys) = Some (length xs)"
  by (induction xs) auto

lemma map_filter_Some: "\<forall>x\<in>set xs. f (g x) = Some (h x) \<Longrightarrow> List.map_filter f (map g xs) = map h xs"
  by (induction xs) (simp_all add: map_filter_simps)

text \<open>
  The table of leases reads back. Given the lines that \<open>show dhcp server leases\<close> prints, a title,
  the headings, the dashed separator and one row per lease, each column padded to its width, the reader
  returns the leases with every column in its field, an empty cell as a missing value.
\<close>

theorem dhcp_leases_roundtrip:
  assumes ws: "length ws = 9" "\<forall>w\<in>set ws. 0 < w"
    and labels: "cells_fit ws lease_labels"
    and rows: "\<forall>e\<in>set ls. cells_fit ws (lease_cells e) \<and> wf_lease (fst e)"
    and title: "\<forall>l\<in>set title. newline \<notin> set l \<and> \<not> dash_line l"
  shows "parseLeases (join_lines (title @ print_line ws lease_labels # separator ws # map (\<lambda>e. print_line ws (lease_cells e)) ls)) =
    map fst ls"
proof -
  let ?header = "print_line ws lease_labels" and ?rows = "map (\<lambda>e. print_line ws (lease_cells e)) ls"
  have line: "newline \<notin> set (print_line ws cells)" if "cells_fit ws cells" for cells
    using that print_row_one_line [of "zip ws cells"] by (auto simp: cells_fit_def print_line_def one_line_def split_beta)
  have "CHR ''-'' \<noteq> newline" by (simp add: newline_iff)
  then have "newline \<notin> set (separator ws)"
    using subsetD [OF separator_chars, of newline ws] newline_blank(2) by (metis insertE singletonD)
  then have lines: "split_on newline (join_lines (title @ ?header # separator ws # ?rows)) = title @ ?header # separator ws # ?rows"
    using title labels rows line by (intro split_join_lines) auto
  have "CHR ''I'' \<in> set ?header"
  proof -
    have "''IP Address'' \<in> snd ` set (zip ws lease_labels)" using ws(1) by (cases ws) (simp_all add: lease_labels_def)
    then have "sublist ''IP Address'' ?header" unfolding print_line_def by (rule print_row_sublist)
    then show ?thesis using set_mono_sublist by fastforce
  qed
  then have I: "CHR ''I'' \<in> set (trim ?header)" by (rule trim_keeps) (simp add: js_space_def)
  have header: "\<not> dash_line ?header"
  proof
    assume "dash_line ?header"
    then have "\<forall>c\<in>set (trim ?header). c = CHR ''-'' \<or> c = CHR '' ''" unfolding dash_line_def list_all_iff by (elim conjE)
    from bspec [OF this I] show False by simp
  qed
  have "ws \<noteq> []" using ws(1) by auto
  then have found: "index_where dash_line ((title @ [?header]) @ separator ws # ?rows) = Some (length (title @ [?header]))"
    using title header separator_dashes [OF ws(2)] by (intro index_where_append) auto
  have starts: "dash_starts False 0 (separator ws) = offsets ws" by (rule dash_starts_separator [OF ws(2)])
  have cells: "table_cells (offsets ws) ?header = lease_labels" using labels by (intro table_cells_print) (auto simp: cells_fit_def)
  have "map (\<lambda>c. map lower_char (lease_field (offsets ws) ?header c)) [0..<length (offsets ws)] =
      map (map lower_char) (table_cells (offsets ws) ?header)"
    by (simp add: lease_field_cell table_cells_def)
  then have heads: "map (\<lambda>c. map lower_char (lease_field (offsets ws) ?header c)) [0..<length (offsets ws)] =
      map (map lower_char) lease_labels" by (simp only: cells)
  have read: "List.map_filter (lease_of_line (offsets ws) (map (map lower_char) lease_labels)) ?rows = map fst ls"
    using lease_row [OF _ _ ws(1)] rows by (intro map_filter_Some) auto
  have nonempty: "offsets ws \<noteq> []" using \<open>ws \<noteq> []\<close> by (metis length_0_conv length_offsets)
  have at: "(title @ ?header # separator ws # ?rows) ! (length title + 1) = separator ws"
    "(title @ ?header # separator ws # ?rows) ! length title = ?header"
    "drop (length title + 2) (title @ ?header # separator ws # ?rows) = ?rows"
    by (simp_all add: nth_append)
  show ?thesis unfolding parseLeases_def lines Let_def
    using found at heads read nonempty by (simp add: starts)
qed

text \<open>A lease without a host name.\<close>

definition lab_lease :: dhcp_lease where
  "lab_lease = \<lparr>le_ip_address = ''10.0.0.9'', le_mac_address = Some ''52:54:00:aa:bb:cc'', le_state = Some ''active'',
     le_start = Some ''2026-07-09 12:34:56'', le_expiration = Some ''2026-07-10 12:34:56'', le_remaining = Some ''23:59:01'',
     le_pool = Some ''LAN'', le_hostname = None\<rparr>"

lemma dhcp_leases_roundtrip_witness:
  "parseLeases (join_lines ([] @ print_line [12, 20, 8, 20, 20, 10, 6, 10, 8] lease_labels # separator [12, 20, 8, 20, 20, 10, 6, 10, 8] #
     map (\<lambda>e. print_line [12, 20, 8, 20, 20, 10, 6, 10, 8] (lease_cells e)) [(lab_lease, ''local'')])) = [lab_lease]"
proof -
  have "cells_fit [12, 20, 8, 20, 20, 10, 6, 10, 8] lease_labels"
    "cells_fit [12, 20, 8, 20, 20, 10, 6, 10, 8] (lease_cells (lab_lease, ''local''))"
    by (simp_all add: cells_fit_def lease_labels_def lease_cells_def lab_lease_def blank_if_none_def trimmed_string_def js_space_def newline_iff)
  then show ?thesis
    using dhcp_leases_roundtrip [of "[12, 20, 8, 20, 20, 10, 6, 10, 8]" "[(lab_lease, ''local'')]" "[]"]
    by (simp add: wf_lease_def lab_lease_def)
qed

end
