(* ===== verification/Child_Forms.thy ===== *)
theory Child_Forms
  imports Forms Interfaces
begin

text \<open>
  Child nodes that are forms themselves, and diffs put together from segments. Neighbors, proposals,
  tunnels, rules of a prefix list and the like are all edited in one of two ways: the node is created
  and then filled (\<open>created_item\<close>), or it is filled and created only when that set nothing
  (\<open>ensured_item\<close>). Both are children in the sense of \<open>child_editor\<close>.
\<close>

section \<open>Reading\<close>

text \<open>
  The routing modules take arrays for objects in \<open>childCfg\<close>, and read the keys of a node as a sorted
  list (\<open>keysOf\<close>). \<open>present\<close> is \<open>key in v\<close> for a value that is known to be an object or an array.
\<close>

definition obj_childCfg :: "json \<Rightarrow> string \<Rightarrow> json option" where
  "obj_childCfg v key = (case js_get v key of
       Some (JObj kvs) \<Rightarrow> Some (JObj kvs) | Some (JArr xs) \<Rightarrow> Some (JArr xs) | _ \<Rightarrow> None)"

abbreviation obj_child :: "json \<Rightarrow> string \<Rightarrow> json" where
  "obj_child v key \<equiv> obj_or_empty (obj_childCfg v key)"

definition keys_at :: "json \<Rightarrow> string \<Rightarrow> string list" where
  "keys_at v key = sort_by str_cmp (map fst (object_entries v key))"

definition present :: "string \<Rightarrow> json \<Rightarrow> bool" where
  "present key v \<longleftrightarrow> js_get v key \<noteq> None"

lemma present_has_key: "has_key key (JObj kvs) = Inr (present key (JObj kvs))"
  by (simp add: present_def map_of_eq_None_iff)

text \<open>The rows of a node, each entry parsed, sorted by name.\<close>

definition named_rows ::
  "(string \<Rightarrow> string \<Rightarrow> int) \<Rightarrow> ('r \<Rightarrow> string) \<Rightarrow> (string \<times> json \<Rightarrow> read_error + 'r) \<Rightarrow> json \<Rightarrow> string \<Rightarrow> read_error + 'r list" where
  "named_rows lc name_of parse v key = (case map_res parse (object_entries v key) of Inl e \<Rightarrow> Inl e
     | Inr rows \<Rightarrow> Inr (sort_by (\<lambda>a b. lc (name_of a) (name_of b)) rows))"

section \<open>Segments of a diff\<close>

text \<open>A segment: the region it is about, its commands, what the region holds before and after.\<close>

type_synonym segment = "path set \<times> vyos_command list \<times> path set \<times> path set"

definition seg_region :: "segment list \<Rightarrow> path set" where
  "seg_region xs = (\<Union>x\<in>set xs. fst x)"

definition seg_cmds :: "segment list \<Rightarrow> vyos_command list" where
  "seg_cmds xs = concat (map (\<lambda>x. fst (snd x)) xs)"

definition seg_before :: "segment list \<Rightarrow> path set" where
  "seg_before xs = (\<Union>x\<in>set xs. fst (snd (snd x)))"

definition seg_after :: "segment list \<Rightarrow> path set" where
  "seg_after xs = (\<Union>x\<in>set xs. snd (snd (snd x)))"

lemmas seg_defs = seg_region_def seg_cmds_def seg_before_def seg_after_def

fun seg_ok :: "(vyos_command \<Rightarrow> path set \<Rightarrow> path set) \<Rightarrow> segment \<Rightarrow> bool" where
  "seg_ok dev (C, cs, L, D) \<longleftrightarrow> edits dev C cs L D"

lemma edits_segments:
  assumes "\<forall>x\<in>set xs. seg_ok dev x" and "sorted_wrt (\<lambda>x y. fst x \<inter> fst y = {}) xs"
  shows "edits dev (seg_region xs) (seg_cmds xs) (seg_before xs) (seg_after xs)"
  using assms
proof (induction xs)
  case Nil
  then show ?case by (simp add: seg_defs edits_nil)
next
  case (Cons x xs)
  obtain C cs L D where x: "x = (C, cs, L, D)" by (cases x)
  have "edits dev (seg_region xs) (seg_cmds xs) (seg_before xs) (seg_after xs)"
    using Cons.prems by (intro Cons.IH) simp_all
  moreover have "C \<inter> seg_region xs = {}" using Cons.prems(2) unfolding x seg_region_def by (simp, blast)
  ultimately have "edits dev (C \<union> seg_region xs) (cs @ seg_cmds xs) (L \<union> seg_before xs) (D \<union> seg_after xs)"
    using Cons.prems(1) by (intro edits_append) (simp_all add: x)
  then show ?case by (simp add: x seg_defs)
qed

text \<open>A run of fields of the node \<open>b\<close> as a segment, over the same places for every live state.\<close>

definition form_seg :: "path \<Rightarrow> field list \<Rightarrow> segment" where
  "form_seg b fs = (form_region b fs, form_cmds b fs, form_live b fs, form_desired b fs)"

lemma form_seg_ok:
  "device_laws dev single \<Longrightarrow> \<forall>f\<in>set fs. field_schema single b f \<Longrightarrow> apart_fields fs \<Longrightarrow> seg_ok dev (form_seg b fs)"
  by (simp add: form_seg_def edits_form)

lemma form_region_apart:
  assumes "list_all (\<lambda>p. \<not> prefix (b @ p) c \<and> \<not> prefix c (b @ p)) (map field_at fs)"
  shows "form_region b fs \<inter> cone c = {}" and "cone c \<inter> form_region b fs = {}"
proof -
  have "cone (b @ field_at f) \<inter> cone c = {}" if "f \<in> set fs" for f
    using assms that by (simp add: list_all_iff cone_disjoint_iff)
  then show "form_region b fs \<inter> cone c = {}" "cone c \<inter> form_region b fs = {}" unfolding form_region_def by blast+
qed

lemma form_regions_apart:
  assumes "list_all (\<lambda>p. list_all (\<lambda>q. \<not> prefix (b @ p) (c @ q) \<and> \<not> prefix (c @ q) (b @ p)) (map field_at gs)) (map field_at fs)"
  shows "form_region b fs \<inter> form_region c gs = {}"
proof -
  have "cone (b @ field_at f) \<inter> cone (c @ field_at g) = {}" if "f \<in> set fs" "g \<in> set gs" for f g
    using assms that by (simp add: list_all_iff cone_disjoint_iff)
  then show ?thesis unfolding form_region_def by blast
qed

section \<open>Fields below a node\<close>

lemma form_below:
  assumes "\<forall>f\<in>set fs. field_at f \<noteq> []"
  shows "b \<notin> form_live b fs" and "b \<notin> form_desired b fs" and "b \<notin> form_region b fs"
proof -
  have "\<not> prefix (b @ field_at f) b" if "f \<in> set fs" for f
    using assms that by (simp add: prefix_def)
  then show "b \<notin> form_region b fs" by (auto simp: form_region_def)
  moreover have "form_live b fs \<subseteq> form_region b fs" "form_desired b fs \<subseteq> form_region b fs"
    unfolding form_defs by (intro UN_mono order_refl field_live_cone field_desired_cone)+
  ultimately show "b \<notin> form_live b fs" "b \<notin> form_desired b fs" by blast+
qed

lemma form_live_region: "form_live b fs \<subseteq> form_region b fs"
  unfolding form_live_def form_region_def using field_live_cone by blast

lemma form_live_in: "form_live b fs \<subseteq> cone b"
  using form_region_cone field_live_cone unfolding form_region_def form_live_def by blast

lemma form_desired_in: "form_desired b fs \<subseteq> cone b"
  using form_region_cone field_desired_cone unfolding form_region_def form_desired_def by blast

section \<open>Children that are created first\<close>

definition created_item ::
  "('k \<Rightarrow> path) \<Rightarrow> ('i option \<Rightarrow> 'i \<Rightarrow> field list) \<Rightarrow> 'k \<Rightarrow> 'i option \<Rightarrow> 'i \<Rightarrow> vyos_command list" where
  "created_item child flds k live i = (if live = None then [cset (child k)] else []) @ form_cmds (child k) (flds live i)"

definition created_before :: "('k \<Rightarrow> path) \<Rightarrow> ('i option \<Rightarrow> 'i \<Rightarrow> field list) \<Rightarrow> 'k \<Rightarrow> 'i \<Rightarrow> path set" where
  "created_before child flds k i = insert (child k) (form_live (child k) (flds (Some i) i))"

definition created_after :: "('k \<Rightarrow> path) \<Rightarrow> ('i option \<Rightarrow> 'i \<Rightarrow> field list) \<Rightarrow> 'k \<Rightarrow> 'i \<Rightarrow> path set" where
  "created_after child flds k i = insert (child k) (form_desired (child k) (flds None i))"

text \<open>
  What the two kinds of children have in common: the fields lie apart below the node of the child,
  what they ask for does not depend on the live child, and what they find does not depend on the form.
\<close>

locale child_forms =
  fixes schema :: "(path \<Rightarrow> bool) \<Rightarrow> bool"
    and parent :: "'o \<Rightarrow> path"
    and child :: "'o \<Rightarrow> 'k \<Rightarrow> path"
    and flds :: "'i option \<Rightarrow> 'i \<Rightarrow> field list"
  assumes child_parent: "prefix (parent n) (child n k)"
    and child_apart: "k \<noteq> l \<Longrightarrow> cone (child n k) \<inter> cone (child n l) = {}"
    and fields_schema: "schema single \<Longrightarrow> f \<in> set (flds m i) \<Longrightarrow> field_schema single (child n k) f"
    and fields_apart: "apart_fields (flds m i)"
    and fields_below: "f \<in> set (flds m i) \<Longrightarrow> field_at f \<noteq> []"
    and fields_desired: "form_desired b (flds m i) = form_desired b (flds None i)"
    and fields_live: "form_live b (flds (Some j) i) = form_live b (flds (Some j) j)"
    and fields_new: "f \<in> set (flds None i) \<Longrightarrow> field_new f"
    and child_multi: "schema single \<Longrightarrow> \<not> single (butlast (child n k))"
begin

lemma new_live [simp]: "form_live b (flds None i) = {}"
  using fields_new by (intro form_new_live) blast

lemma form:
  assumes "device_laws dev single" and "schema single"
  shows "edits dev (form_region (child n k) (flds l i)) (form_cmds (child n k) (flds l i))
    (form_live (child n k) (flds l i)) (form_desired (child n k) (flds None i))"
  using edits_form [OF assms(1), of "flds l i" "child n k"] fields_schema [OF assms(2)] fields_apart
  unfolding fields_desired [of "child n k" l i] by blast

lemma idle_form:
  assumes "form_live (child n k) (flds (Some j) j) = form_desired (child n k) (flds None i)"
  shows "form_cmds (child n k) (flds (Some j) i) = []"
  using assms by (intro form_idle fields_apart) (simp only: fields_live [of _ j i] fields_desired [of _ "Some j" i])

end

sublocale child_forms \<subseteq> created: child_editor schema parent child "\<lambda>_. True" "\<lambda>n. created_item (child n) flds"
  "\<lambda>n. created_before (child n) flds" "\<lambda>n. created_after (child n) flds"
proof
  fix n k l i j single dev
  let ?b = "child n k"
  show "prefix (parent n) ?b" by (rule child_parent)
  show "cone ?b \<inter> cone (child n l) = {}" if "k \<noteq> l" using that by (rule child_apart)
  show "created_before (child n) flds k i \<subseteq> cone ?b" using form_live_in by (simp add: created_before_def)
  show "has_set (created_item (child n) flds k None i) \<and> created_after (child n) flds k i \<noteq> {}"
    by (simp add: created_item_def created_after_def has_set_def)
  have below: "?b \<notin> form_live ?b (flds m i)" "?b \<notin> form_desired ?b (flds m i)" "?b \<notin> form_region ?b (flds m i)" for m i
    using form_below [of "flds m i" ?b] fields_below by blast+
  show "created_item (child n) flds k (Some j) i = []" if "created_before (child n) flds k j = created_after (child n) flds k i"
  proof -
    have "?b \<notin> form_live ?b (flds (Some j) j)" using form_below [of "flds (Some j) j" ?b] fields_below by blast
    then have "form_live ?b (flds (Some j) j) = form_desired ?b (flds None i)"
      using that below(2) [of None] unfolding created_before_def created_after_def by (metis insert_ident)
    then show ?thesis by (simp add: created_item_def idle_form)
  qed
  assume dev: "device_laws dev single" and sch: "schema single"
  have framed: "edits dev (cone ?b) (form_cmds ?b (flds m i)) (insert ?b (form_live ?b (flds m i)))
      (insert ?b (form_desired ?b (flds None i)))" for m
    using edits_frame [OF form [OF dev sch, of n k m i], of "cone ?b" "{?b}"] below form_region_cone by simp
  have "edits dev (cone ?b) [cset ?b] {} {?b}"
    by (rule editsI) (auto simp: dev_set_multi [OF dev child_multi [OF sch]])
  then have "edits dev (cone ?b) ([cset ?b] @ form_cmds ?b (flds None i)) {} (insert ?b (form_desired ?b (flds None i)))"
    using framed [of None] by (intro edits_seq) simp_all
  then show "edits dev (cone ?b) (created_item (child n) flds k None i) {} (created_after (child n) flds k i)"
    by (simp add: created_item_def created_after_def)
  show "edits dev (cone ?b) (created_item (child n) flds k (Some j) i) (created_before (child n) flds k j) (created_after (child n) flds k i)"
    using framed [of "Some j"] by (simp add: created_item_def created_before_def created_after_def fields_live [of _ j i])
qed

section \<open>Children that are created when nothing else creates them\<close>

definition ensured_item ::
  "('k \<Rightarrow> path) \<Rightarrow> ('i option \<Rightarrow> 'i \<Rightarrow> field list) \<Rightarrow> 'k \<Rightarrow> 'i option \<Rightarrow> 'i \<Rightarrow> vyos_command list" where
  "ensured_item child flds k live i = (let sub = form_cmds (child k) (flds live i) in
     sub @ (if live = None \<and> \<not> has_set sub then [cset (child k)] else []))"

definition ensured_before :: "('k \<Rightarrow> path) \<Rightarrow> ('i option \<Rightarrow> 'i \<Rightarrow> field list) \<Rightarrow> 'k \<Rightarrow> 'i \<Rightarrow> path set" where
  "ensured_before child flds k i = form_live (child k) (flds (Some i) i)"

definition ensured_after :: "('k \<Rightarrow> path) \<Rightarrow> ('i option \<Rightarrow> 'i \<Rightarrow> field list) \<Rightarrow> 'k \<Rightarrow> 'i \<Rightarrow> path set" where
  "ensured_after child flds k i = form_desired (child k) (flds None i)"

text \<open>A child of the form that asks for something: the node is there because of its leaves.\<close>

definition asks :: "('i option \<Rightarrow> 'i \<Rightarrow> field list) \<Rightarrow> 'i \<Rightarrow> bool" where
  "asks flds i \<longleftrightarrow> form_desired [] (flds None i) \<noteq> {}"

lemma field_desired_empty: "field_desired b f = {} \<longleftrightarrow> field_desired c f = {}"
  by (cases f) simp_all

lemma form_desired_empty: "form_desired b fs = {} \<longleftrightarrow> form_desired c fs = {}"
  using field_desired_empty unfolding form_desired_def by (simp, blast)

lemma asks_anywhere: "asks flds i \<Longrightarrow> form_desired b (flds None i) \<noteq> {}"
  using form_desired_empty [of b "flds None i" "[]"] by (simp add: asks_def)

sublocale child_forms \<subseteq> ensured: child_editor schema parent child "asks flds" "\<lambda>n. ensured_item (child n) flds"
  "\<lambda>n. ensured_before (child n) flds" "\<lambda>n. ensured_after (child n) flds"
proof
  fix n k l i j single dev
  let ?b = "child n k"
  show "prefix (parent n) ?b" by (rule child_parent)
  show "cone ?b \<inter> cone (child n l) = {}" if "k \<noteq> l" using that by (rule child_apart)
  show "ensured_before (child n) flds k i \<subseteq> cone ?b" using form_live_in by (simp add: ensured_before_def)
  have new: "\<forall>f\<in>set (flds None i). field_new f" using fields_new by blast
  have sets: "has_set (form_cmds ?b (flds None i))" if "asks flds i"
    using form_new_sets [OF new] asks_anywhere [OF that] by simp
  then show "has_set (ensured_item (child n) flds k None i) \<and> ensured_after (child n) flds k i \<noteq> {}" if "asks flds i"
    using that by (simp add: ensured_item_def ensured_after_def asks_anywhere Let_def)
  show "ensured_item (child n) flds k (Some j) i = []" if "ensured_before (child n) flds k j = ensured_after (child n) flds k i"
    using that by (simp add: ensured_item_def ensured_before_def ensured_after_def idle_form)
  assume dev: "device_laws dev single" and sch: "schema single" and good: "asks flds i"
  have form: "edits dev (cone ?b) (form_cmds ?b (flds m i)) (form_live ?b (flds m i)) (form_desired ?b (flds None i))" for m
    using edits_widen [OF form [OF dev sch, of n k m i] form_region_cone] .
  show "edits dev (cone ?b) (ensured_item (child n) flds k None i) {} (ensured_after (child n) flds k i)"
    using form [of None] sets [OF good] by (simp add: ensured_item_def ensured_after_def)
  show "edits dev (cone ?b) (ensured_item (child n) flds k (Some j) i) (ensured_before (child n) flds k j) (ensured_after (child n) flds k i)"
    using form [of "Some j"] by (simp add: ensured_item_def ensured_before_def ensured_after_def fields_live [of _ j i])
qed

section \<open>Children in a list\<close>

text \<open>The modules hold children in lists and look the live ones up by key.\<close>

definition by_key :: "('i \<Rightarrow> 'k) \<Rightarrow> 'i list \<Rightarrow> ('k \<times> 'i) list" where
  "by_key f xs = map (\<lambda>x. (f x, x)) xs"

text \<open>Both sides through a \<open>Map\<close>.\<close>

definition map_by :: "('i \<Rightarrow> 'k) \<Rightarrow> 'i list \<Rightarrow> ('k \<times> 'i) list" where
  "map_by f xs = js_map (by_key f xs)"

text \<open>The wanted ones in their own order, the live ones through a \<open>Map\<close>.\<close>

definition listed_cmds ::
  "('k \<Rightarrow> path) \<Rightarrow> ('k \<Rightarrow> 'i option \<Rightarrow> 'i \<Rightarrow> vyos_command list) \<Rightarrow> ('i \<Rightarrow> 'k) \<Rightarrow> 'i list \<Rightarrow> 'i list \<Rightarrow> vyos_command list" where
  "listed_cmds child item f live want =
     concat (map (\<lambda>x. item (f x) (map_of (map_by f live) (f x)) x) want) @
     map (\<lambda>x. cdel (child (f x))) (filter (\<lambda>x. f x \<notin> f ` set want) live)"

lemma by_key_facts [simp]:
  "map fst (by_key f xs) = map f xs" "fst ` set (by_key f xs) = f ` set xs" "by_key f [] = []"
  "map_of (by_key f xs) k = None \<longleftrightarrow> k \<notin> f ` set xs"
  by (simp_all add: by_key_def map_of_eq_None_iff comp_def image_image)

lemma map_by_facts [simp]: "distinct (map fst (map_by f xs))" "map_by f [] = []"
  by (simp_all add: map_by_def distinct_js_map) (simp add: js_map_def)

lemma map_by_origin: "(k, x) \<in> set (map_by f xs) \<Longrightarrow> x \<in> set xs \<and> k = f x"
  using js_map_origin [of k x "by_key f xs"] by (auto simp: map_by_def by_key_def)

lemma listed_children:
  assumes "distinct (map f live)"
  shows "listed_cmds child item f live want = children_cmds child item (by_key f live) (by_key f want)"
proof -
  have lookup: "map_of (map_by f live) = map_of (by_key f live)"
    unfolding map_by_def using assms by (intro map_of_js_map_distinct) simp
  have del: "map (\<lambda>x. cdel (child (f x))) (filter (\<lambda>x. f x \<notin> f ` set want) live) =
      map (\<lambda>(k, i). cdel (child k)) (filter (\<lambda>(k, i). map_of (by_key f want) k = None) (by_key f live))"
    unfolding by_key_facts by (simp add: by_key_def filter_map comp_def)
  show ?thesis unfolding listed_cmds_def children_cmds_def lookup del by (simp add: by_key_def [of f want] comp_def)
qed

text \<open>A node whose children are a list: created when new, then the children.\<close>

definition listed_node ::
  "path \<Rightarrow> bool \<Rightarrow> ('k \<Rightarrow> path) \<Rightarrow> ('k \<Rightarrow> 'i option \<Rightarrow> 'i \<Rightarrow> vyos_command list) \<Rightarrow> ('i \<Rightarrow> 'k) \<Rightarrow> 'i list \<Rightarrow> 'i list \<Rightarrow>
   vyos_command list" where
  "listed_node base is_new child item f live want = (if is_new then [cset base] else []) @ listed_cmds child item f live want"

lemma children_cong:
  "(\<And>k i l. (k, i) \<in> set want \<Longrightarrow> item k l i = item' k l i) \<Longrightarrow>
   children_cmds child item live want = children_cmds child item' live want"
  unfolding children_cmds_def by (intro arg_cong2 [where f = append] arg_cong [where f = concat] map_cong refl) auto

context child_forms begin

lemma listed_run:
  assumes dev: "device_laws dev single" and sch: "schema single"
    and keys: "distinct (map f live)" "distinct (map f want)"
    and base: "\<not> single (butlast base)" "\<not> prefix (parent n) base"
    and S: "S \<inter> cone (parent n) = children_paths (created_before (child n) flds) (by_key f live)"
  shows "run dev (listed_node base is_new (child n) (created_item (child n) flds) f live want) S =
    (S - cone (parent n)) \<union> children_paths (created_after (child n) flds) (by_key f want) \<union> (if is_new then {base} else {})"
proof -
  let ?T = "if is_new then insert base S else S"
  have e: "edits dev (cone (parent n)) (listed_cmds (child n) (created_item (child n) flds) f live want)
      (children_paths (created_before (child n) flds) (by_key f live)) (children_paths (created_after (child n) flds) (by_key f want))"
    unfolding listed_children [OF keys(1)] using keys by (intro created.children_edits [OF dev sch]) simp_all
  have "?T \<inter> cone (parent n) = children_paths (created_before (child n) flds) (by_key f live)" using S base(2) by auto
  then have "run dev (listed_cmds (child n) (created_item (child n) flds) f live want) ?T =
      (?T - cone (parent n)) \<union> children_paths (created_after (child n) flds) (by_key f want)" by (rule edits_run [OF e])
  moreover have "run dev (if is_new then [cset base] else []) S = ?T" by (simp add: dev_set_multi [OF dev base(1)])
  moreover have "?T - cone (parent n) = (S - cone (parent n)) \<union> (if is_new then {base} else {})" using base(2) by auto
  ultimately show ?thesis by (simp only: listed_node_def run_append) blast
qed

text \<open>A node with a form of its own and children that are created when nothing else creates them.\<close>

text \<open>One node on its own.\<close>

lemma ensured_created: "ensured_item (child n) flds k live i = ensureCreated (form_cmds (child n k) (flds live i)) (child n k) (live = None)"
proof (cases live)
  case None
  have new: "\<forall>f\<in>set (flds None i). field_new f" using fields_new by blast
  have "form_cmds (child n k) (flds None i) = []" if "\<not> has_set (form_cmds (child n k) (flds None i))"
    using that form_new_sets [OF new] by (intro form_idle fields_apart) simp
  then show ?thesis by (auto simp: None ensured_item_def ensureCreated_def Let_def)
qed (simp add: ensured_item_def ensureCreated_def Let_def)

lemma ensured_run:
  assumes dev: "device_laws dev single" and sch: "schema single" and b: "b = child n k"
    and places: "map field_at (flds live i) = map field_at (flds None i)"
    and S: "S \<inter> form_region b (flds None i) = (case live of None \<Rightarrow> {} | Some j \<Rightarrow> form_live b (flds (Some j) j))"
  shows "run dev (ensureCreated (form_cmds b (flds live i)) b (live = None)) S =
    (S - form_region b (flds None i)) \<union> form_desired b (flds None i) \<union>
    (if live = None \<and> form_desired b (flds None i) = {} then {b} else {})"
proof (rule run_ensureCreated [OF dev _ S])
  have r: "form_region b (flds live i) = form_region b (flds None i)" unfolding form_region_places places ..
  have l: "(case live of None \<Rightarrow> {} | Some j \<Rightarrow> form_live b (flds (Some j) j)) = form_live b (flds live i)"
    using fields_live [of b _ i] by (simp split: option.split)
  show "edits dev (form_region b (flds None i)) (form_cmds b (flds live i))
      (case live of None \<Rightarrow> {} | Some j \<Rightarrow> form_live b (flds (Some j) j)) (form_desired b (flds None i))"
    using form [OF dev sch, of n k live i, folded b] unfolding l r .
  have new: "\<forall>f\<in>set (flds None i). field_new f" using fields_new by blast
  show "(case live of None \<Rightarrow> {} | Some j \<Rightarrow> form_live b (flds (Some j) j)) = {} \<and>
      (has_set (form_cmds b (flds live i)) \<longleftrightarrow> form_desired b (flds None i) \<noteq> {})" if "live = None"
    using that form_new_sets [OF new] by simp
  show "\<not> single (butlast b)" unfolding b by (rule child_multi [OF sch])
qed

lemma kids_within:
  "children_paths (created_before (child n) flds) xs \<subseteq> cone (parent n)"
  "children_paths (ensured_before (child n) flds) xs \<subseteq> cone (parent n)"
proof -
  have "cone (child n k) \<subseteq> cone (parent n)" for k by (rule cone_mono [OF child_parent])
  then have "created_before (child n) flds k i \<subseteq> cone (parent n)" "ensured_before (child n) flds k i \<subseteq> cone (parent n)" for k i
    using created.before_in [of n k i] ensured.before_in [of n k i] by blast+
  then show "children_paths (created_before (child n) flds) xs \<subseteq> cone (parent n)"
      "children_paths (ensured_before (child n) flds) xs \<subseteq> cone (parent n)"
    unfolding children_paths_def by (simp_all add: UN_least split_beta)
qed

lemma ensured_node_run:
  assumes dev: "device_laws dev single" and sch: "schema single"
    and fs: "\<forall>f\<in>set fs. field_schema single base f" "apart_fields fs"
    and apart: "form_region base fs \<inter> cone (parent n) = {}" and multi: "\<not> single (butlast base)"
    and new: "is_new \<Longrightarrow> (\<forall>f\<in>set fs. field_new f) \<and> live = []"
    and keys: "distinct (map fst live)" "distinct (map fst want)" and good: "\<forall>(k, i)\<in>set want. asks flds i"
    and S: "S \<inter> (form_region base fs \<union> cone (parent n)) =
      form_live base fs \<union> children_paths (ensured_before (child n) flds) live"
    and D: "D = form_desired base fs \<union> children_paths (ensured_after (child n) flds) want"
  shows "run dev (ensureCreated (form_cmds base fs @ children_cmds (child n) (ensured_item (child n) flds) live want) base is_new) S =
    (S - (form_region base fs \<union> cone (parent n))) \<union> D \<union> (if is_new \<and> D = {} then {base} else {})"
proof (rule run_ensureCreated [OF dev _ S _ multi])
  show "edits dev (form_region base fs \<union> cone (parent n))
      (form_cmds base fs @ children_cmds (child n) (ensured_item (child n) flds) live want)
      (form_live base fs \<union> children_paths (ensured_before (child n) flds) live) D"
    unfolding D by (rule edits_append [OF edits_form [OF dev fs] ensured.children_edits [OF dev sch keys good] apart])
  assume is_new
  then have f: "\<forall>f\<in>set fs. field_new f" and l: "live = []" using new by blast+
  show "form_live base fs \<union> children_paths (ensured_before (child n) flds) live = {} \<and>
      (has_set (form_cmds base fs @ children_cmds (child n) (ensured_item (child n) flds) live want) \<longleftrightarrow> D \<noteq> {})"
    unfolding D l using form_new_sets [OF f, of base] form_new_live [OF f, of base] ensured.children_new_sets [OF good, of n]
    by (simp add: children_paths_def)
qed

end

section \<open>Nodes with a form and children\<close>

text \<open>What the device holds for such a node, and what its form asks for.\<close>

definition node_region :: "path \<Rightarrow> field list \<Rightarrow> path \<Rightarrow> path set" where
  "node_region b fs kids = form_region b fs \<union> cone kids"

definition node_before ::
  "('u option \<Rightarrow> 'u \<Rightarrow> field list) \<Rightarrow> ('k \<Rightarrow> path) \<Rightarrow> ('i option \<Rightarrow> 'i \<Rightarrow> field list) \<Rightarrow> ('u \<Rightarrow> ('k \<times> 'i) list) \<Rightarrow>
   path \<Rightarrow> 'u option \<Rightarrow> path set" where
  "node_before own child flds kids b live = (case live of None \<Rightarrow> {}
     | Some l \<Rightarrow> form_live b (own (Some l) l) \<union> children_paths (ensured_before child flds) (kids l))"

definition node_after ::
  "('u option \<Rightarrow> 'u \<Rightarrow> field list) \<Rightarrow> ('k \<Rightarrow> path) \<Rightarrow> ('i option \<Rightarrow> 'i \<Rightarrow> field list) \<Rightarrow> ('u \<Rightarrow> ('k \<times> 'i) list) \<Rightarrow>
   path \<Rightarrow> 'u \<Rightarrow> path set" where
  "node_after own child flds kids b u =
     form_desired b (own None u) \<union> children_paths (ensured_after child flds) (kids u)"

definition live_kids :: "('u \<Rightarrow> ('k \<times> 'i) list) \<Rightarrow> 'u option \<Rightarrow> ('k \<times> 'i) list" where
  "live_kids kids live = (case live of None \<Rightarrow> [] | Some l \<Rightarrow> kids l)"

locale form_node = child_forms schema parent child flds
  for schema and parent :: "'o \<Rightarrow> path" and child :: "'o \<Rightarrow> 'k \<Rightarrow> path" and flds :: "'i option \<Rightarrow> 'i \<Rightarrow> field list" +
  fixes owner :: "'u \<Rightarrow> 'o" and base :: "'o \<Rightarrow> path" and own :: "'u option \<Rightarrow> 'u \<Rightarrow> field list"
    and kids wanted :: "'u \<Rightarrow> ('k \<times> 'i) list"
  assumes own_schema: "schema single \<Longrightarrow> f \<in> set (own l u) \<Longrightarrow> field_schema single (base n) f"
    and own_apart: "apart_fields (own l u)"
    and own_places: "map field_at (own l u) = map field_at (own None v)"
    and own_desired: "form_desired b (own l u) = form_desired b (own None u)"
    and own_live: "form_live b (own (Some j) u) = form_live b (own (Some j) j)"
    and own_new: "f \<in> set (own None u) \<Longrightarrow> field_new f"
    and own_kids: "form_region (base n) (own None u) \<inter> cone (parent n) = {}"
    and base_multi: "schema single \<Longrightarrow> \<not> single (butlast (base n))"
    and kids_distinct: "distinct (map fst (kids u))" "distinct (map fst (wanted u))"
begin

lemma node_save:
  assumes dev: "device_laws dev single" and sch: "schema single" and good: "\<forall>(k, i)\<in>set (wanted u). asks flds i"
    and b: "b = base (owner u)" and C: "C = node_region b (own None v) (parent (owner u))"
    and D: "D = node_after own (child (owner u)) flds wanted b u"
    and S: "S \<inter> C = node_before own (child (owner u)) flds kids b live"
  shows "run dev (ensureCreated (form_cmds b (own live u) @
      children_cmds (child (owner u)) (ensured_item (child (owner u)) flds) (live_kids kids live) (wanted u)) b (live = None)) S =
    (S - C) \<union> D \<union> (if live = None \<and> D = {} then {b} else {})"
proof -
  have r: "form_region b (own live u) = form_region b (own None v)"
    unfolding form_region_places own_places [of live u v] ..
  note d = own_desired [of b live u]
  have new: "(\<forall>f\<in>set (own live u). field_new f) \<and> live_kids kids live = []" if "live = None"
    using that own_new by (simp add: live_kids_def)
  have "node_before own (child (owner u)) flds kids b live =
      form_live b (own live u) \<union> children_paths (ensured_before (child (owner u)) flds) (live_kids kids live)"
  proof (cases live)
    case None
    then show ?thesis using new by (simp add: node_before_def form_new_live children_paths_def)
  next
    case (Some l)
    show ?thesis unfolding Some own_live [of b l u] by (simp add: node_before_def live_kids_def)
  qed
  then have before: "S \<inter> (form_region b (own live u) \<union> cone (parent (owner u))) =
      form_live b (own live u) \<union> children_paths (ensured_before (child (owner u)) flds) (live_kids kids live)"
    using S unfolding r C node_region_def by simp
  have fs: "\<forall>f\<in>set (own live u). field_schema single b f" using own_schema [OF sch] unfolding b by blast
  have "form_region b (own live u) = form_region b (own None u)" unfolding form_region_places own_places [of live u u] ..
  then have apart: "form_region b (own live u) \<inter> cone (parent (owner u)) = {}" using own_kids unfolding b by simp
  have distinct: "distinct (map fst (live_kids kids live))" using kids_distinct by (simp add: live_kids_def split: option.split)
  have multi: "\<not> single (butlast b)" unfolding b by (rule base_multi [OF sch])
  show ?thesis
    using ensured_node_run [OF dev sch fs own_apart apart multi new distinct kids_distinct(2) good before refl]
    unfolding C D node_region_def node_after_def r d by simp
qed

lemma node_before_in: "node_before own (child n) flds kids (base n) live \<subseteq> node_region (base n) (own None v) (parent n)"
proof (cases live)
  case None
  then show ?thesis by (simp add: node_before_def)
next
  case (Some l)
  have "form_live (base n) (own (Some l) l) \<subseteq> form_region (base n) (own None v)"
    using form_live_region [of "base n" "own (Some l) l"] unfolding form_region_places own_places [of "Some l" l v] .
  moreover have "children_paths (ensured_before (child n) flds) (kids l) \<subseteq> cone (parent n)" by (rule kids_within)
  ultimately show ?thesis by (simp add: Some node_before_def node_region_def le_supI1 le_supI2)
qed

end

section \<open>The entries that a lookup finds\<close>

text \<open>
  The entries of a list that a lookup by key finds when the list becomes a \<open>Map\<close>: those with no later
  entry of the same key.
\<close>

definition last_of :: "('i \<Rightarrow> 'k) \<Rightarrow> 'i list \<Rightarrow> 'i set" where
  "last_of f xs = {x. \<exists>as bs. xs = as @ x # bs \<and> f x \<notin> f ` set bs}"

lemma last_of_Nil [simp]: "last_of f [] = {}"
  by (simp add: last_of_def)

lemma last_of_snoc: "x \<in> last_of f (xs @ [y]) \<longleftrightarrow> x = y \<or> x \<in> last_of f xs \<and> f x \<noteq> f y"
proof
  assume "x \<in> last_of f (xs @ [y])"
  then obtain as bs where *: "xs @ [y] = as @ x # bs" "f x \<notin> f ` set bs" by (auto simp: last_of_def)
  then show "x = y \<or> x \<in> last_of f xs \<and> f x \<noteq> f y"
    by (cases bs rule: rev_cases) (auto simp: last_of_def)
next
  assume "x = y \<or> x \<in> last_of f xs \<and> f x \<noteq> f y"
  then show "x \<in> last_of f (xs @ [y])"
  proof
    assume "x = y"
    then have "xs @ [y] = xs @ x # []" "f x \<notin> f ` set []" by simp_all
    then show ?thesis unfolding last_of_def by blast
  next
    assume "x \<in> last_of f xs \<and> f x \<noteq> f y"
    then obtain as bs where "xs = as @ x # bs" "f x \<notin> f ` set bs" "f x \<noteq> f y" by (auto simp: last_of_def)
    then have "xs @ [y] = as @ x # (bs @ [y])" "f x \<notin> f ` set (bs @ [y])" by auto
    then show ?thesis unfolding last_of_def by blast
  qed
qed

lemma map_by_last: "(k, x) \<in> set (map_by f xs) \<longleftrightarrow> k = f x \<and> x \<in> last_of f xs"
proof -
  have "(k, x) \<in> set (map_by f xs) \<longleftrightarrow> map_of (map_by f xs) k = Some x"
    by (rule map_of_eq_Some_iff [symmetric]) simp
  also have "\<dots> \<longleftrightarrow> map_of (rev (by_key f xs)) k = Some x" by (simp add: map_by_def map_of_js_map)
  also have "\<dots> \<longleftrightarrow> k = f x \<and> x \<in> last_of f xs"
    by (induction xs rule: rev_induct) (auto simp: by_key_def last_of_snoc)
  finally show ?thesis .
qed

lemma children_paths_map_by: "children_paths paths (map_by f xs) = (\<Union>x\<in>last_of f xs. paths (f x) x)"
proof -
  have "set (map_by f xs) = (\<lambda>x. (f x, x)) ` last_of f xs" using map_by_last [of _ _ f xs] by auto
  then show ?thesis by (simp add: children_paths_def)
qed

lemma last_of_distinct: "distinct (map f xs) \<Longrightarrow> last_of f xs = set xs"
proof
  assume "distinct (map f xs)"
  then show "set xs \<subseteq> last_of f xs" by (auto simp: last_of_def dest!: split_list) blast
qed (auto simp: last_of_def)

lemma children_paths_by_key: "children_paths paths (by_key f xs) = (\<Union>x\<in>set xs. paths (f x) x)"
  by (simp add: children_paths_def by_key_def)

end
