(* ===== verification/Mpls.thy ===== *)
theory Mpls
  imports Child_Forms
begin

text \<open>
  MPLS and LDP: \<open>lib/mpls.ts\<close>. One configuration node with leaves at several depths and two families
  of child nodes, the LDP interfaces and the LDP neighbors.
\<close>

section \<open>Model\<close>

record ldp_neighbor =
  ln_address :: string
  ln_password :: "string option"
  ln_session_holdtime :: "int option"
  ln_ttl_security :: "string option"

record targeted_af =
  tg_enable :: bool
  tg_addresses :: "string list"
  tg_hello_interval :: "int option"
  tg_hello_holdtime :: "int option"

record ldp_interface =
  li_name :: string
  li_disable_establish_hello :: bool

record mpls_config =
  mp_interfaces :: "string list"
  mp_no_propagate_ttl :: bool
  mp_maximum_ttl :: "int option"
  mp_ldp_router_id :: "string option"
  mp_ldp_interfaces :: "ldp_interface list"
  mp_transport_ipv4_address :: "string option"
  mp_transport_ipv6_address :: "string option"
  mp_hello_ipv4_interval :: "int option"
  mp_hello_ipv4_holdtime :: "int option"
  mp_session_ipv4_holdtime :: "int option"
  mp_hello_ipv6_interval :: "int option"
  mp_hello_ipv6_holdtime :: "int option"
  mp_session_ipv6_holdtime :: "int option"
  mp_neighbors :: "ldp_neighbor list"
  mp_cisco_interop_tlv :: bool
  mp_ordered_control :: bool
  mp_transport_prefer_ipv4 :: bool
  mp_targeted_ipv4 :: targeted_af
  mp_targeted_ipv6 :: targeted_af

definition emptyTargeted :: targeted_af where
  "emptyTargeted = \<lparr>tg_enable = False, tg_addresses = [], tg_hello_interval = None, tg_hello_holdtime = None\<rparr>"

definition emptyMpls :: mpls_config where
  "emptyMpls = \<lparr>mp_interfaces = [], mp_no_propagate_ttl = False, mp_maximum_ttl = None, mp_ldp_router_id = None,
     mp_ldp_interfaces = [], mp_transport_ipv4_address = None, mp_transport_ipv6_address = None,
     mp_hello_ipv4_interval = None, mp_hello_ipv4_holdtime = None, mp_session_ipv4_holdtime = None,
     mp_hello_ipv6_interval = None, mp_hello_ipv6_holdtime = None, mp_session_ipv6_holdtime = None,
     mp_neighbors = [], mp_cisco_interop_tlv = False, mp_ordered_control = False, mp_transport_prefer_ipv4 = False,
     mp_targeted_ipv4 = emptyTargeted, mp_targeted_ipv6 = emptyTargeted\<rparr>"

section \<open>Reader\<close>

definition parseTargeted :: "json option \<Rightarrow> targeted_af" where
  "parseTargeted v = (case v of None \<Rightarrow> emptyTargeted
     | Some n \<Rightarrow> \<lparr>tg_enable = present ''enable'' n, tg_addresses = keys_at n ''address'',
         tg_hello_interval = childNum n ''hello-interval'', tg_hello_holdtime = childNum n ''hello-holdtime''\<rparr>)"

definition parse_ldp_interface :: "string \<times> json \<Rightarrow> read_error + ldp_interface" where
  "parse_ldp_interface e = (case has_key ''disable-establish-hello'' (or_empty (snd e)) of Inl err \<Rightarrow> Inl err
     | Inr d \<Rightarrow> Inr \<lparr>li_name = fst e, li_disable_establish_hello = d\<rparr>)"

definition parse_ldp_neighbor :: "string \<times> json \<Rightarrow> read_error + ldp_neighbor" where
  "parse_ldp_neighbor e = (let n = or_empty (snd e) in
     Inr \<lparr>ln_address = fst e, ln_password = childStr n ''password'',
       ln_session_holdtime = childNum n ''session-holdtime'', ln_ttl_security = childStr n ''ttl-security''\<rparr>)"

definition parseMpls :: "(string \<Rightarrow> string \<Rightarrow> int) \<Rightarrow> json \<Rightarrow> read_error + mpls_config" where
  "parseMpls lc mpls =
     (let params = obj_child mpls ''parameters''; ldp = obj_child mpls ''ldp''; disc = obj_child ldp ''discovery'';
          ldpParams = obj_child ldp ''parameters''; targeted = obj_child ldp ''targeted-neighbor'' in
      case named_rows lc li_name parse_ldp_interface ldp ''interface'' of Inl e \<Rightarrow> Inl e | Inr ifaces \<Rightarrow>
      (case named_rows lc ln_address parse_ldp_neighbor ldp ''neighbor'' of Inl e \<Rightarrow> Inl e | Inr neighbors \<Rightarrow>
       Inr \<lparr>mp_interfaces = keys_at mpls ''interface'', mp_no_propagate_ttl = present ''no-propagate-ttl'' params,
         mp_maximum_ttl = childNum params ''maximum-ttl'', mp_ldp_router_id = childStr ldp ''router-id'',
         mp_ldp_interfaces = ifaces, mp_transport_ipv4_address = childStr disc ''transport-ipv4-address'',
         mp_transport_ipv6_address = childStr disc ''transport-ipv6-address'',
         mp_hello_ipv4_interval = childNum disc ''hello-ipv4-interval'',
         mp_hello_ipv4_holdtime = childNum disc ''hello-ipv4-holdtime'',
         mp_session_ipv4_holdtime = childNum disc ''session-ipv4-holdtime'',
         mp_hello_ipv6_interval = childNum disc ''hello-ipv6-interval'',
         mp_hello_ipv6_holdtime = childNum disc ''hello-ipv6-holdtime'',
         mp_session_ipv6_holdtime = childNum disc ''session-ipv6-holdtime'', mp_neighbors = neighbors,
         mp_cisco_interop_tlv = present ''cisco-interop-tlv'' ldpParams,
         mp_ordered_control = present ''ordered-control'' ldpParams,
         mp_transport_prefer_ipv4 = present ''transport-prefer-ipv4'' ldpParams,
         mp_targeted_ipv4 = parseTargeted (obj_childCfg targeted ''ipv4''),
         mp_targeted_ipv6 = parseTargeted (obj_childCfg targeted ''ipv6'')\<rparr>))"

definition fetchMpls :: "(string \<Rightarrow> string \<Rightarrow> int) \<Rightarrow> vyos_response \<Rightarrow> read_error + mpls_config" where
  "fetchMpls lc resp = (case config_of_response ''Device returned an error reading MPLS configuration.'' resp of
     Inl e \<Rightarrow> Inl e | Inr mpls \<Rightarrow> parseMpls lc mpls)"

section \<open>Diff\<close>

definition mpls_base :: path where
  "mpls_base = [''protocols'', ''mpls'']"

definition ldp_base :: path where
  "ldp_base = mpls_base @ [''ldp'']"

definition targeted_fields :: "string \<Rightarrow> targeted_af \<Rightarrow> targeted_af \<Rightarrow> field list" where
  "targeted_fields af live u =
     [Flag [''targeted-neighbor'', af, ''enable''] (tg_enable live) (tg_enable u),
      Multi [''targeted-neighbor'', af, ''address''] (tg_addresses live) (clean (tg_addresses u)),
      Leaf [''targeted-neighbor'', af, ''hello-interval''] (numStr (tg_hello_interval live)) (numStr (tg_hello_interval u)),
      Leaf [''targeted-neighbor'', af, ''hello-holdtime''] (numStr (tg_hello_holdtime live)) (numStr (tg_hello_holdtime u))]"

definition mpls_fields :: "mpls_config \<Rightarrow> mpls_config \<Rightarrow> field list" where
  "mpls_fields live u =
     [Multi [''interface''] (mp_interfaces live) (clean (mp_interfaces u)),
      Flag [''parameters'', ''no-propagate-ttl''] (mp_no_propagate_ttl live) (mp_no_propagate_ttl u),
      Leaf [''parameters'', ''maximum-ttl''] (numStr (mp_maximum_ttl live)) (numStr (mp_maximum_ttl u))]"

definition router_fields :: "mpls_config \<Rightarrow> mpls_config \<Rightarrow> field list" where
  "router_fields live u = [Leaf [''router-id''] (mp_ldp_router_id live) (blank_to_none (mp_ldp_router_id u))]"

definition discovery_fields :: "mpls_config \<Rightarrow> mpls_config \<Rightarrow> field list" where
  "discovery_fields live u =
     [Leaf [''discovery'', ''transport-ipv4-address''] (mp_transport_ipv4_address live) (blank_to_none (mp_transport_ipv4_address u)),
      Leaf [''discovery'', ''transport-ipv6-address''] (mp_transport_ipv6_address live) (blank_to_none (mp_transport_ipv6_address u)),
      Leaf [''discovery'', ''hello-ipv4-interval''] (numStr (mp_hello_ipv4_interval live)) (numStr (mp_hello_ipv4_interval u)),
      Leaf [''discovery'', ''hello-ipv4-holdtime''] (numStr (mp_hello_ipv4_holdtime live)) (numStr (mp_hello_ipv4_holdtime u)),
      Leaf [''discovery'', ''session-ipv4-holdtime''] (numStr (mp_session_ipv4_holdtime live)) (numStr (mp_session_ipv4_holdtime u)),
      Leaf [''discovery'', ''hello-ipv6-interval''] (numStr (mp_hello_ipv6_interval live)) (numStr (mp_hello_ipv6_interval u)),
      Leaf [''discovery'', ''hello-ipv6-holdtime''] (numStr (mp_hello_ipv6_holdtime live)) (numStr (mp_hello_ipv6_holdtime u)),
      Leaf [''discovery'', ''session-ipv6-holdtime''] (numStr (mp_session_ipv6_holdtime live)) (numStr (mp_session_ipv6_holdtime u))]"

definition ldp_fields :: "mpls_config \<Rightarrow> mpls_config \<Rightarrow> field list" where
  "ldp_fields live u =
     [Flag [''parameters'', ''cisco-interop-tlv''] (mp_cisco_interop_tlv live) (mp_cisco_interop_tlv u),
      Flag [''parameters'', ''ordered-control''] (mp_ordered_control live) (mp_ordered_control u),
      Flag [''parameters'', ''transport-prefer-ipv4''] (mp_transport_prefer_ipv4 live) (mp_transport_prefer_ipv4 u)] @
     targeted_fields ''ipv4'' (mp_targeted_ipv4 live) (mp_targeted_ipv4 u) @
     targeted_fields ''ipv6'' (mp_targeted_ipv6 live) (mp_targeted_ipv6 u)"

definition ldp_interface_path :: "string \<Rightarrow> path" where
  "ldp_interface_path name = ldp_base @ [''interface'', name]"

definition ldp_interface_fields :: "ldp_interface option \<Rightarrow> ldp_interface \<Rightarrow> field list" where
  "ldp_interface_fields live u =
     [Flag [''disable-establish-hello''] (case live of None \<Rightarrow> False | Some l \<Rightarrow> li_disable_establish_hello l)
        (li_disable_establish_hello u)]"

definition ldp_neighbor_path :: "string \<Rightarrow> path" where
  "ldp_neighbor_path address = ldp_base @ [''neighbor'', address]"

definition ldp_neighbor_fields :: "ldp_neighbor option \<Rightarrow> ldp_neighbor \<Rightarrow> field list" where
  "ldp_neighbor_fields live u =
     [Leaf [''password''] (Option.bind live ln_password) (blank_to_none (ln_password u)),
      Leaf [''session-holdtime''] (numStr (Option.bind live ln_session_holdtime)) (numStr (ln_session_holdtime u)),
      Leaf [''ttl-security''] (Option.bind live ln_ttl_security) (blank_to_none (ln_ttl_security u))]"

definition diffMpls :: "mpls_config \<Rightarrow> mpls_config \<Rightarrow> vyos_command list" where
  "diffMpls live u =
     form_cmds mpls_base (mpls_fields live u) @ form_cmds ldp_base (router_fields live u) @
     children_cmds ldp_interface_path (created_item ldp_interface_path ldp_interface_fields)
       (map_by li_name (mp_ldp_interfaces live)) (map_by li_name (mp_ldp_interfaces u)) @
     form_cmds ldp_base (discovery_fields live u) @
     children_cmds ldp_neighbor_path (created_item ldp_neighbor_path ldp_neighbor_fields)
       (map_by ln_address (mp_neighbors live)) (map_by ln_address (mp_neighbors u)) @
     form_cmds ldp_base (ldp_fields live u)"

section \<open>What a save does\<close>

definition mpls_schema :: "(path \<Rightarrow> bool) \<Rightarrow> bool" where
  "mpls_schema single \<longleftrightarrow>
     (\<forall>f\<in>set (mpls_fields emptyMpls emptyMpls). field_schema single mpls_base f) \<and>
     (\<forall>f\<in>set (router_fields emptyMpls emptyMpls @ discovery_fields emptyMpls emptyMpls @ ldp_fields emptyMpls emptyMpls).
        field_schema single ldp_base f) \<and>
     \<not> single (ldp_base @ [''interface'']) \<and> \<not> single (ldp_base @ [''neighbor'']) \<and>
     (\<forall>a. \<not> single (ldp_interface_path a) \<and>
        (\<forall>k\<in>{''password'', ''session-holdtime'', ''ttl-security''}. single (ldp_neighbor_path a @ [k])))"

interpretation ldp_interfaces: child_forms mpls_schema "\<lambda>_ :: unit. ldp_base @ [''interface'']" "\<lambda>_. ldp_interface_path"
  ldp_interface_fields
  by unfold_locales (auto simp: ldp_interface_path_def ldp_interface_fields_def apart_fields_def form_defs mpls_schema_def
    cone_disjoint_iff butlast_append)

interpretation ldp_neighbors: child_forms mpls_schema "\<lambda>_ :: unit. ldp_base @ [''neighbor'']" "\<lambda>_. ldp_neighbor_path"
  ldp_neighbor_fields
  by unfold_locales (auto simp: ldp_neighbor_path_def ldp_neighbor_fields_def apart_fields_def form_defs mpls_schema_def
    cone_disjoint_iff butlast_append numStr_def)

definition mpls_segments :: "mpls_config \<Rightarrow> mpls_config \<Rightarrow> segment list" where
  "mpls_segments live u =
     [form_seg mpls_base (mpls_fields live u), form_seg ldp_base (router_fields live u),
      (cone (ldp_base @ [''interface'']),
       children_cmds ldp_interface_path (created_item ldp_interface_path ldp_interface_fields)
         (map_by li_name (mp_ldp_interfaces live)) (map_by li_name (mp_ldp_interfaces u)),
       children_paths (created_before ldp_interface_path ldp_interface_fields) (map_by li_name (mp_ldp_interfaces live)),
       children_paths (created_after ldp_interface_path ldp_interface_fields) (map_by li_name (mp_ldp_interfaces u))),
      form_seg ldp_base (discovery_fields live u),
      (cone (ldp_base @ [''neighbor'']),
       children_cmds ldp_neighbor_path (created_item ldp_neighbor_path ldp_neighbor_fields)
         (map_by ln_address (mp_neighbors live)) (map_by ln_address (mp_neighbors u)),
       children_paths (created_before ldp_neighbor_path ldp_neighbor_fields) (map_by ln_address (mp_neighbors live)),
       children_paths (created_after ldp_neighbor_path ldp_neighbor_fields) (map_by ln_address (mp_neighbors u))),
      form_seg ldp_base (ldp_fields live u)]"

lemma mpls_segments_cmds: "diffMpls live u = seg_cmds (mpls_segments live u)"
  by (simp add: diffMpls_def mpls_segments_def seg_cmds_def form_seg_def)

lemmas mpls_field_defs = mpls_fields_def router_fields_def discovery_fields_def ldp_fields_def targeted_fields_def

lemma mpls_fields_schema:
  assumes "mpls_schema single"
  shows "\<forall>f\<in>set (mpls_fields live u). field_schema single mpls_base f"
    and "\<forall>f\<in>set (router_fields live u). field_schema single ldp_base f"
    and "\<forall>f\<in>set (discovery_fields live u). field_schema single ldp_base f"
    and "\<forall>f\<in>set (ldp_fields live u). field_schema single ldp_base f"
  using assms by (simp_all add: mpls_schema_def mpls_field_defs)

lemma mpls_fields_apart:
  "apart_fields (mpls_fields live u)" "apart_fields (router_fields live u)"
  "apart_fields (discovery_fields live u)" "apart_fields (ldp_fields live u)"
  by (simp_all add: mpls_field_defs apart_fields_def)

lemma mpls_segments_ok:
  assumes dev: "device_laws dev single" and sch: "mpls_schema single"
  shows "\<forall>x\<in>set (mpls_segments live u). seg_ok dev x"
  using form_seg_ok [OF dev mpls_fields_schema(1) [OF sch] mpls_fields_apart(1), of live u]
    form_seg_ok [OF dev mpls_fields_schema(2) [OF sch] mpls_fields_apart(2), of live u]
    form_seg_ok [OF dev mpls_fields_schema(3) [OF sch] mpls_fields_apart(3), of live u]
    form_seg_ok [OF dev mpls_fields_schema(4) [OF sch] mpls_fields_apart(4), of live u]
    ldp_interfaces.created.children_edits [OF dev sch, of "map_by li_name (mp_ldp_interfaces live)" "map_by li_name (mp_ldp_interfaces u)"]
    ldp_neighbors.created.children_edits [OF dev sch, of "map_by ln_address (mp_neighbors live)" "map_by ln_address (mp_neighbors u)"]
  by (simp add: mpls_segments_def)

lemma mpls_segments_apart: "sorted_wrt (\<lambda>x y. fst x \<inter> fst y = {}) (mpls_segments live u)"
  by (simp add: mpls_segments_def form_seg_def form_regions_apart form_region_apart mpls_field_defs ldp_base_def mpls_base_def
    cone_disjoint_iff)

text \<open>The part of the device the module edits, what it holds for a configuration, and what a form asks for.\<close>

definition mpls_region :: "path set" where
  "mpls_region = seg_region (mpls_segments emptyMpls emptyMpls)"

definition mpls_before :: "mpls_config \<Rightarrow> path set" where
  "mpls_before live = seg_before (mpls_segments live live)"

definition mpls_after :: "mpls_config \<Rightarrow> path set" where
  "mpls_after u = seg_after (mpls_segments emptyMpls u)"

lemma mpls_segments_only:
  "seg_region (mpls_segments live u) = mpls_region" "seg_before (mpls_segments live u) = mpls_before live"
  "seg_after (mpls_segments live u) = mpls_after u"
  by (simp_all add: mpls_region_def mpls_before_def mpls_after_def seg_defs mpls_segments_def form_seg_def form_defs mpls_field_defs)

lemma mpls_edits:
  assumes "device_laws dev single" and "mpls_schema single"
  shows "edits dev mpls_region (diffMpls live u) (mpls_before live) (mpls_after u)"
  using edits_segments [OF mpls_segments_ok [OF assms] mpls_segments_apart, of live u]
  unfolding mpls_segments_only mpls_segments_cmds .

text \<open>
  Saving the MPLS form on a device that holds the configuration it was opened with gives the
  configuration of the form: the leaves of forwarding, discovery and targeted sessions, and exactly
  the LDP interfaces and the LDP neighbors of the form, each with its own leaves. Nothing else on the
  device changes.
\<close>

theorem mpls_save:
  assumes "device_laws dev single" and "mpls_schema single" and "S \<inter> mpls_region = mpls_before live"
  shows "run dev (diffMpls live u) S = (S - mpls_region) \<union> mpls_after u"
  using assms(3) by (rule edits_run [OF mpls_edits [OF assms(1,2)]])

definition mpls_single :: "path \<Rightarrow> bool" where
  "mpls_single p \<longleftrightarrow> (length p = 4 \<and> last p \<in> {''maximum-ttl'', ''router-id''}) \<or> (length p = 5 \<and> p ! 3 = ''discovery'') \<or>
     (length p = 6 \<and> last p \<in> {''hello-interval'', ''hello-holdtime'', ''password'', ''session-holdtime'', ''ttl-security''})"

lemma mpls_single_schema: "mpls_schema mpls_single"
  by (simp add: mpls_schema_def mpls_single_def mpls_field_defs ldp_interface_path_def ldp_neighbor_path_def ldp_base_def
      mpls_base_def)

text \<open>A neighbor that leaves, one that gets a password, and an interface that comes.\<close>

definition ldp_with :: "ldp_neighbor list \<Rightarrow> ldp_interface list \<Rightarrow> mpls_config" where
  "ldp_with ns is = emptyMpls\<lparr>mp_ldp_router_id := Some ''10.0.0.1'', mp_neighbors := ns, mp_ldp_interfaces := is\<rparr>"

definition ldp_peer :: "string \<Rightarrow> string option \<Rightarrow> ldp_neighbor" where
  "ldp_peer a pw = \<lparr>ln_address = a, ln_password = pw, ln_session_holdtime = None, ln_ttl_security = None\<rparr>"

lemma mpls_save_witness:
  "run (ref_dev mpls_single)
     (diffMpls (ldp_with [ldp_peer ''10.0.0.2'' None, ldp_peer ''10.0.0.3'' None] [])
       (ldp_with [ldp_peer ''10.0.0.3'' (Some ''pw'')] [\<lparr>li_name = ''eth0'', li_disable_establish_hello = True\<rparr>]))
     (mpls_before (ldp_with [ldp_peer ''10.0.0.2'' None, ldp_peer ''10.0.0.3'' None] [])) =
   mpls_after (ldp_with [ldp_peer ''10.0.0.3'' (Some ''pw'')] [\<lparr>li_name = ''eth0'', li_disable_establish_hello = True\<rparr>])"
  (is "run _ (diffMpls ?l ?u) (mpls_before ?l) = mpls_after ?u")
proof -
  have e: "mpls_before ?l \<subseteq> mpls_region"
    using mpls_edits [OF ref_dev_laws mpls_single_schema, of ?l ?u] by (simp add: edits_def)
  then have "mpls_before ?l \<inter> mpls_region = mpls_before ?l" by blast
  from mpls_save [OF ref_dev_laws mpls_single_schema this, of ?u] show ?thesis using e by blast
qed

end
