(* ===== verification/Routing_Policy.thy ===== *)
theory Routing_Policy
  imports Child_Forms
begin

text \<open>
  Routing policy: \<open>lib/routing-policy.ts\<close>, the prefix lists and the route maps that the routing protocols
  refer to. A list is edited as a whole; its rules are child nodes with their sequence number as key.
  A sequence number is \<open>Number\<close> of the key, \<open>None\<close> for \<open>NaN\<close>.
\<close>

section \<open>Model\<close>

datatype prefix_family = PrefixIPv4 | PrefixIPv6

datatype policy_action = Permit | Deny

fun policy_action_str :: "policy_action \<Rightarrow> string" where
  "policy_action_str Permit = ''permit''"
| "policy_action_str Deny = ''deny''"

record prefix_rule =
  pr_seq :: "int option"
  pr_action :: policy_action
  pr_prefix :: string
  pr_ge :: "int option"
  pr_le :: "int option"
  pr_description :: "string option"

record prefix_list =
  pl_name :: string
  pl_family :: prefix_family
  pl_rules :: "prefix_rule list"

record route_map_match =
  rm_ip_prefix_list :: "string option"
  rm_ipv6_prefix_list :: "string option"
  rm_as_path :: "string option"
  rm_community_list :: "string option"
  rm_interface :: "string option"
  rm_metric :: "int option"
  rm_origin :: "string option"
  rm_peer :: "string option"

record route_map_set =
  rx_as_path_prepend :: "string option"
  rx_community :: "string option"
  rx_local_preference :: "int option"
  rx_metric :: "string option"
  rx_ip_next_hop :: "string option"
  rx_origin :: "string option"
  rx_weight :: "int option"
  rx_tag :: "int option"

datatype on_match = OnNone | OnNext | OnGoto

record route_map_rule =
  rr_seq :: "int option"
  rr_action :: policy_action
  rr_description :: "string option"
  rr_match :: route_map_match
  rr_set :: route_map_set
  rr_on_match :: on_match
  rr_goto :: "int option"
  rr_call :: "string option"

record route_map =
  rp_name :: string
  rp_rules :: "route_map_rule list"

definition emptyMatch :: route_map_match where
  "emptyMatch = \<lparr>rm_ip_prefix_list = None, rm_ipv6_prefix_list = None, rm_as_path = None, rm_community_list = None,
     rm_interface = None, rm_metric = None, rm_origin = None, rm_peer = None\<rparr>"

definition emptySet :: route_map_set where
  "emptySet = \<lparr>rx_as_path_prepend = None, rx_community = None, rx_local_preference = None, rx_metric = None,
     rx_ip_next_hop = None, rx_origin = None, rx_weight = None, rx_tag = None\<rparr>"

definition emptyRouteMapRule :: "int option \<Rightarrow> route_map_rule" where
  "emptyRouteMapRule seq = \<lparr>rr_seq = seq, rr_action = Permit, rr_description = None, rr_match = emptyMatch,
     rr_set = emptySet, rr_on_match = OnNone, rr_goto = None, rr_call = None\<rparr>"

section \<open>Reader\<close>

fun PREFIX_NODE :: "prefix_family \<Rightarrow> string" where
  "PREFIX_NODE PrefixIPv4 = ''prefix-list''"
| "PREFIX_NODE PrefixIPv6 = ''prefix-list6''"

definition read_action :: "json \<Rightarrow> policy_action" where
  "read_action v = (if childStr v ''action'' = Some ''deny'' then Deny else Permit)"

definition parsePrefixRule :: "int option \<Rightarrow> json \<Rightarrow> prefix_rule" where
  "parsePrefixRule seq raw = \<lparr>pr_seq = seq, pr_action = read_action raw,
     pr_prefix = (case childStr raw ''prefix'' of None \<Rightarrow> [] | Some p \<Rightarrow> p), pr_ge = childNum raw ''ge'',
     pr_le = childNum raw ''le'', pr_description = childStr raw ''description''\<rparr>"

text \<open>\<open>(a, b) => a.seq - b.seq\<close>; a difference that is \<open>NaN\<close> counts as 0.\<close>

definition seq_diff :: "int option \<Rightarrow> int option \<Rightarrow> int" where
  "seq_diff a b = (case (a, b) of (Some m, Some n) \<Rightarrow> m - n | _ \<Rightarrow> 0)"

definition rules_of :: "('r \<Rightarrow> int option) \<Rightarrow> (int option \<Rightarrow> json \<Rightarrow> 'r) \<Rightarrow> json \<Rightarrow> 'r list" where
  "rules_of seq parse raw = sort_by (\<lambda>a b. seq_diff (seq a) (seq b))
     (map (\<lambda>(k, r). parse (js_number k) (or_empty r)) (object_entries (or_empty raw) ''rule''))"

definition parsePrefixLists :: "(string \<Rightarrow> string \<Rightarrow> int) \<Rightarrow> json \<Rightarrow> prefix_family \<Rightarrow> prefix_list list" where
  "parsePrefixLists lc policy family = sort_by (\<lambda>a b. lc (pl_name a) (pl_name b))
     (map (\<lambda>(name, raw). \<lparr>pl_name = name, pl_family = family, pl_rules = rules_of pr_seq parsePrefixRule raw\<rparr>)
       (object_entries policy (PREFIX_NODE family)))"

definition parse_match :: "json \<Rightarrow> route_map_match" where
  "parse_match m = \<lparr>rm_ip_prefix_list = childStr (obj_child (obj_child m ''ip'') ''address'') ''prefix-list'',
     rm_ipv6_prefix_list = childStr (obj_child (obj_child m ''ipv6'') ''address'') ''prefix-list'',
     rm_as_path = childStr m ''as-path'', rm_community_list = childStr (obj_child m ''community'') ''community-list'',
     rm_interface = childStr m ''interface'', rm_metric = childNum m ''metric'', rm_origin = childStr m ''origin'',
     rm_peer = childStr m ''peer''\<rparr>"

definition parse_set :: "json \<Rightarrow> route_map_set" where
  "parse_set s = \<lparr>rx_as_path_prepend = childStr (obj_child s ''as-path'') ''prepend'', rx_community = childStr s ''community'',
     rx_local_preference = childNum s ''local-preference'', rx_metric = childStr s ''metric'',
     rx_ip_next_hop = childStr s ''ip-next-hop'', rx_origin = childStr s ''origin'', rx_weight = childNum s ''weight'',
     rx_tag = childNum s ''tag''\<rparr>"

definition parseRouteMapRule :: "int option \<Rightarrow> json \<Rightarrow> route_map_rule" where
  "parseRouteMapRule seq raw = (let onMatch = obj_childCfg raw ''on-match'';
       goto = Option.bind onMatch (\<lambda>om. childNum om ''goto'') in
     \<lparr>rr_seq = seq, rr_action = read_action raw, rr_description = childStr raw ''description'',
       rr_match = parse_match (obj_child raw ''match''), rr_set = parse_set (obj_child raw ''set''),
       rr_on_match = (case onMatch of None \<Rightarrow> OnNone
         | Some om \<Rightarrow> if goto \<noteq> None then OnGoto else if present ''next'' om then OnNext else OnNone),
       rr_goto = goto, rr_call = childStr raw ''call''\<rparr>)"

definition parseRouteMaps :: "(string \<Rightarrow> string \<Rightarrow> int) \<Rightarrow> json \<Rightarrow> route_map list" where
  "parseRouteMaps lc policy = sort_by (\<lambda>a b. lc (rp_name a) (rp_name b))
     (map (\<lambda>(name, raw). \<lparr>rp_name = name, rp_rules = rules_of rr_seq parseRouteMapRule raw\<rparr>)
       (object_entries policy ''route-map''))"

definition fetchPolicy :: "vyos_response \<Rightarrow> read_error + json" where
  "fetchPolicy resp = config_of_response ''Device returned an error reading routing policy.'' resp"

definition fetchPrefixLists :: "(string \<Rightarrow> string \<Rightarrow> int) \<Rightarrow> vyos_response \<Rightarrow> read_error + prefix_list list" where
  "fetchPrefixLists lc resp = (case fetchPolicy resp of Inl e \<Rightarrow> Inl e
     | Inr policy \<Rightarrow> Inr (parsePrefixLists lc policy PrefixIPv4 @ parsePrefixLists lc policy PrefixIPv6))"

definition fetchRouteMaps :: "(string \<Rightarrow> string \<Rightarrow> int) \<Rightarrow> vyos_response \<Rightarrow> read_error + route_map list" where
  "fetchRouteMaps lc resp = (case fetchPolicy resp of Inl e \<Rightarrow> Inl e | Inr policy \<Rightarrow> Inr (parseRouteMaps lc policy))"

definition fetchRouteMapNames :: "(string \<Rightarrow> string \<Rightarrow> int) \<Rightarrow> vyos_response \<Rightarrow> string list" where
  "fetchRouteMapNames lc resp = (case fetchRouteMaps lc resp of Inl _ \<Rightarrow> [] | Inr ms \<Rightarrow> map rp_name ms)"

definition fetchPrefixListNames :: "(string \<Rightarrow> string \<Rightarrow> int) \<Rightarrow> prefix_family \<Rightarrow> vyos_response \<Rightarrow> string list" where
  "fetchPrefixListNames lc family resp = (case fetchPrefixLists lc resp of Inl _ \<Rightarrow> []
     | Inr ls \<Rightarrow> map pl_name (filter (\<lambda>p. pl_family p = family) ls))"

section \<open>Writes\<close>

definition seq_str :: "int option \<Rightarrow> string" where
  "seq_str n = (case n of None \<Rightarrow> ''NaN'' | Some i \<Rightarrow> string_of_int i)"

definition rule_node :: "path \<Rightarrow> int option \<Rightarrow> path" where
  "rule_node base seq = base @ [''rule'', seq_str seq]"

definition prefixBase :: "prefix_family \<Rightarrow> string \<Rightarrow> path" where
  "prefixBase family name = [''policy'', PREFIX_NODE family, name]"

definition prefix_fields :: "prefix_rule option \<Rightarrow> prefix_rule \<Rightarrow> field list" where
  "prefix_fields live u =
     [Leaf [''action''] (map_option (policy_action_str \<circ> pr_action) live) (blank_to_none (Some (policy_action_str (pr_action u)))),
      Leaf [''prefix''] (map_option pr_prefix live) (blank_to_none (Some (pr_prefix u))),
      Leaf [''ge''] (numStr (Option.bind live pr_ge)) (numStr (pr_ge u)),
      Leaf [''le''] (numStr (Option.bind live pr_le)) (numStr (pr_le u)),
      Leaf [''description''] (Option.bind live pr_description) (blank_to_none (pr_description u))]"

definition diffPrefixRule :: "path \<Rightarrow> int option \<Rightarrow> prefix_rule option \<Rightarrow> prefix_rule \<Rightarrow> vyos_command list" where
  "diffPrefixRule base = created_item (rule_node base) prefix_fields"

definition applyPrefixList_cmds :: "prefix_list option \<Rightarrow> prefix_list \<Rightarrow> vyos_command list" where
  "applyPrefixList_cmds live u = (let base = prefixBase (pl_family u) (pl_name u) in
     listed_node base (live = None) (rule_node base) (diffPrefixRule base) pr_seq
       (case live of None \<Rightarrow> [] | Some l \<Rightarrow> pl_rules l) (pl_rules u))"

definition deletePrefixList_cmds :: "prefix_family \<Rightarrow> string \<Rightarrow> vyos_command list" where
  "deletePrefixList_cmds family name = [cdel (prefixBase family name)]"

definition routeMapBase :: "string \<Rightarrow> path" where
  "routeMapBase name = [''policy'', ''route-map'', name]"

definition match_fields :: "route_map_match \<Rightarrow> route_map_match \<Rightarrow> field list" where
  "match_fields l m =
     [Leaf [''match'', ''ip'', ''address'', ''prefix-list''] (rm_ip_prefix_list l) (blank_to_none (rm_ip_prefix_list m)),
      Leaf [''match'', ''ipv6'', ''address'', ''prefix-list''] (rm_ipv6_prefix_list l) (blank_to_none (rm_ipv6_prefix_list m)),
      Leaf [''match'', ''as-path''] (rm_as_path l) (blank_to_none (rm_as_path m)),
      Leaf [''match'', ''community'', ''community-list''] (rm_community_list l) (blank_to_none (rm_community_list m)),
      Leaf [''match'', ''interface''] (rm_interface l) (blank_to_none (rm_interface m)),
      Leaf [''match'', ''metric''] (numStr (rm_metric l)) (numStr (rm_metric m)),
      Leaf [''match'', ''origin''] (rm_origin l) (blank_to_none (rm_origin m)),
      Leaf [''match'', ''peer''] (rm_peer l) (blank_to_none (rm_peer m))]"

definition set_fields :: "route_map_set \<Rightarrow> route_map_set \<Rightarrow> field list" where
  "set_fields l s =
     [Leaf [''set'', ''as-path'', ''prepend''] (rx_as_path_prepend l) (blank_to_none (rx_as_path_prepend s)),
      Leaf [''set'', ''community''] (rx_community l) (blank_to_none (rx_community s)),
      Leaf [''set'', ''local-preference''] (numStr (rx_local_preference l)) (numStr (rx_local_preference s)),
      Leaf [''set'', ''metric''] (rx_metric l) (blank_to_none (rx_metric s)),
      Leaf [''set'', ''ip-next-hop''] (rx_ip_next_hop l) (blank_to_none (rx_ip_next_hop s)),
      Leaf [''set'', ''origin''] (rx_origin l) (blank_to_none (rx_origin s)),
      Leaf [''set'', ''weight''] (numStr (rx_weight l)) (numStr (rx_weight s)),
      Leaf [''set'', ''tag''] (numStr (rx_tag l)) (numStr (rx_tag s))]"

definition route_map_fields :: "route_map_rule option \<Rightarrow> route_map_rule \<Rightarrow> field list" where
  "route_map_fields live u =
     [Leaf [''action''] (map_option (policy_action_str \<circ> rr_action) live) (blank_to_none (Some (policy_action_str (rr_action u)))),
      Leaf [''description''] (Option.bind live rr_description) (blank_to_none (rr_description u))] @
     match_fields (case live of None \<Rightarrow> emptyMatch | Some l \<Rightarrow> rr_match l) (rr_match u) @
     set_fields (case live of None \<Rightarrow> emptySet | Some l \<Rightarrow> rr_set l) (rr_set u) @
     [Flag [''on-match'', ''next''] (map_option rr_on_match live = Some OnNext) (rr_on_match u = OnNext),
      Leaf [''on-match'', ''goto''] (if map_option rr_on_match live = Some OnGoto then numStr (Option.bind live rr_goto) else None)
        (if rr_on_match u = OnGoto then numStr (rr_goto u) else None),
      Leaf [''call''] (Option.bind live rr_call) (blank_to_none (rr_call u))]"

definition diffRouteMapRule :: "path \<Rightarrow> int option \<Rightarrow> route_map_rule option \<Rightarrow> route_map_rule \<Rightarrow> vyos_command list" where
  "diffRouteMapRule base = created_item (rule_node base) route_map_fields"

definition applyRouteMap_cmds :: "route_map option \<Rightarrow> route_map \<Rightarrow> vyos_command list" where
  "applyRouteMap_cmds live u = (let base = routeMapBase (rp_name u) in
     listed_node base (live = None) (rule_node base) (diffRouteMapRule base) rr_seq
       (case live of None \<Rightarrow> [] | Some l \<Rightarrow> rp_rules l) (rp_rules u))"

definition deleteRouteMap_cmds :: "string \<Rightarrow> vyos_command list" where
  "deleteRouteMap_cmds name = [cdel (routeMapBase name)]"

section \<open>What a save does\<close>

lemma seq_str_inj [simp]: "seq_str m = seq_str n \<longleftrightarrow> m = n"
proof -
  have "js_number ''NaN'' = None" by code_simp
  then have "string_of_int i \<noteq> ''NaN''" for i by (metis js_number_string_of_int option.distinct(1))
  then show ?thesis by (auto simp: seq_str_def split: option.splits) (metis \<open>\<And>i. string_of_int i \<noteq> ''NaN''\<close>)+
qed

definition prefix_schema :: "(path \<Rightarrow> bool) \<Rightarrow> bool" where
  "prefix_schema single \<longleftrightarrow> (\<forall>family name. let base = prefixBase family name in
     \<not> single (butlast base) \<and> \<not> single (base @ [''rule'']) \<and>
     (\<forall>seq. \<forall>k\<in>{''action'', ''prefix'', ''ge'', ''le'', ''description''}. single (rule_node base seq @ [k])))"

definition route_map_schema :: "(path \<Rightarrow> bool) \<Rightarrow> bool" where
  "route_map_schema single \<longleftrightarrow> (\<forall>name. let base = routeMapBase name in
     \<not> single (butlast base) \<and> \<not> single (base @ [''rule'']) \<and>
     (\<forall>seq. \<forall>f\<in>set (route_map_fields None (emptyRouteMapRule None)). field_schema single (rule_node base seq) f))"

lemmas route_map_field_defs = route_map_fields_def match_fields_def set_fields_def

lemma route_map_fields_new: "f \<in> set (route_map_fields None u) \<Longrightarrow> field_new f"
  by (auto simp: route_map_field_defs emptyMatch_def emptySet_def numStr_def)

lemma route_map_fields_apart: "apart_fields (route_map_fields l u)"
  by (simp add: route_map_field_defs apart_fields_def)

lemma route_map_fields_schema:
  assumes "route_map_schema single"
  shows "\<forall>f\<in>set (route_map_fields l u). field_schema single (rule_node (routeMapBase n) k) f"
  using assms by (simp add: route_map_schema_def route_map_field_defs Let_def)

lemma route_map_fields_only:
  "form_desired b (route_map_fields l u) = form_desired b (route_map_fields None u)"
  "form_live b (route_map_fields (Some l') u) = form_live b (route_map_fields (Some l') l')"
  "\<forall>f\<in>set (route_map_fields l u). field_at f \<noteq> []"
  by (simp_all add: form_defs route_map_field_defs)

interpretation prefix_rules: child_forms prefix_schema "\<lambda>(family, name). prefixBase family name @ [''rule'']"
  "\<lambda>(family, name). rule_node (prefixBase family name)" prefix_fields
  by unfold_locales (auto simp: rule_node_def prefix_fields_def apart_fields_def form_defs prefix_schema_def Let_def
    cone_disjoint_iff butlast_append numStr_def)

interpretation route_map_rules: child_forms route_map_schema "\<lambda>name. routeMapBase name @ [''rule'']"
  "\<lambda>name. rule_node (routeMapBase name)" route_map_fields
proof
  fix n k l single f m u and b :: path and j :: route_map_rule
  show "prefix (routeMapBase n @ [''rule'']) (rule_node (routeMapBase n) k)" by (simp add: rule_node_def)
  show "cone (rule_node (routeMapBase n) k) \<inter> cone (rule_node (routeMapBase n) l) = {}" if "k \<noteq> l"
    using that by (simp add: rule_node_def cone_disjoint_iff)
  show "field_schema single (rule_node (routeMapBase n) k) f" if "route_map_schema single" "f \<in> set (route_map_fields m u)"
    using route_map_fields_schema [OF that(1)] that(2) by blast
  show "apart_fields (route_map_fields m u)" by (rule route_map_fields_apart)
  show "field_at f \<noteq> []" if "f \<in> set (route_map_fields m u)" using route_map_fields_only(3) that by blast
  show "form_desired b (route_map_fields m u) = form_desired b (route_map_fields None u)" by (rule route_map_fields_only(1))
  show "form_live b (route_map_fields (Some j) u) = form_live b (route_map_fields (Some j) j)" by (rule route_map_fields_only(2))
  show "field_new f" if "f \<in> set (route_map_fields None u)" using route_map_fields_new that by blast
  show "\<not> single (butlast (rule_node (routeMapBase n) k))" if "route_map_schema single"
    using that by (simp add: route_map_schema_def rule_node_def butlast_append Let_def)
qed

text \<open>What the device holds for the rules of a list.\<close>

definition prefix_list_paths :: "path \<Rightarrow> prefix_rule list \<Rightarrow> path set" where
  "prefix_list_paths base rules = children_paths (created_before (rule_node base) prefix_fields) (by_key pr_seq rules)"

definition prefix_list_asked :: "path \<Rightarrow> prefix_rule list \<Rightarrow> path set" where
  "prefix_list_asked base rules = children_paths (created_after (rule_node base) prefix_fields) (by_key pr_seq rules)"

definition route_map_paths :: "path \<Rightarrow> route_map_rule list \<Rightarrow> path set" where
  "route_map_paths base rules = children_paths (created_before (rule_node base) route_map_fields) (by_key rr_seq rules)"

definition route_map_asked :: "path \<Rightarrow> route_map_rule list \<Rightarrow> path set" where
  "route_map_asked base rules = children_paths (created_after (rule_node base) route_map_fields) (by_key rr_seq rules)"

text \<open>
  Saving a prefix list gives exactly the rules of the form, in their numbers, with their fields. Nothing
  else on the device changes. The form lists no number twice.
\<close>

theorem prefix_list_save:
  assumes "device_laws dev single" and "prefix_schema single"
    and "distinct (map pr_seq (case live of None \<Rightarrow> [] | Some l \<Rightarrow> pl_rules l))" and "distinct (map pr_seq (pl_rules u))"
    and base: "base = prefixBase (pl_family u) (pl_name u)"
    and "S \<inter> cone (base @ [''rule'']) = prefix_list_paths base (case live of None \<Rightarrow> [] | Some l \<Rightarrow> pl_rules l)"
  shows "run dev (applyPrefixList_cmds live u) S =
    (S - cone (base @ [''rule''])) \<union> prefix_list_asked base (pl_rules u) \<union> (if live = None then {base} else {})"
  using prefix_rules.listed_run [OF assms(1-4), of base "(pl_family u, pl_name u)" S "live = None"] assms(2,6)
  unfolding base applyPrefixList_cmds_def diffPrefixRule_def prefix_list_paths_def prefix_list_asked_def
  by (simp add: prefix_schema_def Let_def)

text \<open>The effect of saving a route map, over the fields of the form.\<close>

lemma route_map_effect:
  assumes "device_laws dev single" and "route_map_schema single"
    and "distinct (map rr_seq (case live of None \<Rightarrow> [] | Some l \<Rightarrow> rp_rules l))" and "distinct (map rr_seq (rp_rules u))"
    and base: "base = routeMapBase (rp_name u)"
    and "S \<inter> cone (base @ [''rule'']) = route_map_paths base (case live of None \<Rightarrow> [] | Some l \<Rightarrow> rp_rules l)"
  shows "run dev (applyRouteMap_cmds live u) S =
    (S - cone (base @ [''rule''])) \<union> route_map_asked base (rp_rules u) \<union> (if live = None then {base} else {})"
  using route_map_rules.listed_run [OF assms(1-4), of base "rp_name u" S "live = None"] assms(2,6)
  unfolding base applyRouteMap_cmds_def diffRouteMapRule_def route_map_paths_def route_map_asked_def
  by (simp add: route_map_schema_def Let_def)

text \<open>
  A rule of a route map, spelled out: which leaf of the device stands for which of its fields. The field
  lists above, which make the commands, do not enter it. Of the two continuations only the chosen one has
  its leaf.
\<close>

definition route_rule_paths :: "path \<Rightarrow> route_map_rule \<Rightarrow> path set" where
  "route_rule_paths base r = (let b = base @ [''rule'', seq_str (rr_seq r)]; m = rr_match r; s = rr_set r in
     insert b (
     leaf_paths (b @ [''action'']) (Some (policy_action_str (rr_action r))) \<union>
     leaf_paths (b @ [''description'']) (rr_description r) \<union>
     leaf_paths (b @ [''match'', ''ip'', ''address'', ''prefix-list'']) (rm_ip_prefix_list m) \<union>
     leaf_paths (b @ [''match'', ''ipv6'', ''address'', ''prefix-list'']) (rm_ipv6_prefix_list m) \<union>
     leaf_paths (b @ [''match'', ''as-path'']) (rm_as_path m) \<union>
     leaf_paths (b @ [''match'', ''community'', ''community-list'']) (rm_community_list m) \<union>
     leaf_paths (b @ [''match'', ''interface'']) (rm_interface m) \<union>
     leaf_paths (b @ [''match'', ''metric'']) (map_option string_of_int (rm_metric m)) \<union>
     leaf_paths (b @ [''match'', ''origin'']) (rm_origin m) \<union>
     leaf_paths (b @ [''match'', ''peer'']) (rm_peer m) \<union>
     leaf_paths (b @ [''set'', ''as-path'', ''prepend'']) (rx_as_path_prepend s) \<union>
     leaf_paths (b @ [''set'', ''community'']) (rx_community s) \<union>
     leaf_paths (b @ [''set'', ''local-preference'']) (map_option string_of_int (rx_local_preference s)) \<union>
     leaf_paths (b @ [''set'', ''metric'']) (rx_metric s) \<union>
     leaf_paths (b @ [''set'', ''ip-next-hop'']) (rx_ip_next_hop s) \<union>
     leaf_paths (b @ [''set'', ''origin'']) (rx_origin s) \<union>
     leaf_paths (b @ [''set'', ''weight'']) (map_option string_of_int (rx_weight s)) \<union>
     leaf_paths (b @ [''set'', ''tag'']) (map_option string_of_int (rx_tag s)) \<union>
     flag_paths (b @ [''on-match'', ''next'']) (rr_on_match r = OnNext) \<union>
     leaf_paths (b @ [''on-match'', ''goto'']) (if rr_on_match r = OnGoto then map_option string_of_int (rr_goto r) else None) \<union>
     leaf_paths (b @ [''call'']) (rr_call r)))"

text \<open>What a filled form stands for: blanks around a text are dropped, and a blank text is no text.\<close>

definition route_rule_form :: "route_map_rule \<Rightarrow> route_map_rule" where
  "route_rule_form r = (let m = rr_match r; s = rr_set r in
     r\<lparr>rr_description := blank_to_none (rr_description r), rr_call := blank_to_none (rr_call r),
       rr_match := m\<lparr>rm_ip_prefix_list := blank_to_none (rm_ip_prefix_list m), rm_ipv6_prefix_list := blank_to_none (rm_ipv6_prefix_list m),
         rm_as_path := blank_to_none (rm_as_path m), rm_community_list := blank_to_none (rm_community_list m),
         rm_interface := blank_to_none (rm_interface m), rm_origin := blank_to_none (rm_origin m), rm_peer := blank_to_none (rm_peer m)\<rparr>,
       rr_set := s\<lparr>rx_as_path_prepend := blank_to_none (rx_as_path_prepend s), rx_community := blank_to_none (rx_community s),
         rx_metric := blank_to_none (rx_metric s), rx_ip_next_hop := blank_to_none (rx_ip_next_hop s),
         rx_origin := blank_to_none (rx_origin s)\<rparr>\<rparr>)"

lemma route_rule_form_seq [simp]: "rr_seq (route_rule_form r) = rr_seq r"
  by (simp add: route_rule_form_def Let_def)

lemma route_rule_live_paths:
  "created_before (rule_node base) route_map_fields (rr_seq r) r = route_rule_paths base r"
  by (cases "rr_on_match r")
    (simp_all add: created_before_def form_live_def route_map_field_defs route_rule_paths_def rule_node_def numStr_def Let_def Un_ac)

lemma action_not_blank: "blank_to_none (Some (policy_action_str a)) = Some (policy_action_str a)"
  by (cases a) (simp_all add: blank_to_none_def trim_def js_space_def)

lemma route_rule_form_paths:
  "created_after (rule_node base) route_map_fields (rr_seq r) r = route_rule_paths base (route_rule_form r)"
  by (cases "rr_on_match r")
    (simp_all add: created_after_def form_desired_def route_map_field_defs route_rule_paths_def route_rule_form_def rule_node_def
      numStr_def action_not_blank Let_def Un_ac)

text \<open>
  C34: saving a route map on a device that holds the one the form was opened with leaves exactly the
  rules of the filled form, with the leaves that \<open>route_rule_paths\<close> lists: action, description, the
  eight match and the eight set clauses, the jump and the call; rules that the form no longer has are gone,
  a new map is created, and of the two continuations of a rule only the chosen one is there. Nothing else
  on the device changes. The form lists no number twice.
\<close>

theorem route_map_save:
  assumes "device_laws dev single" and "route_map_schema single"
    and "distinct (map rr_seq old)" and "distinct (map rr_seq (rp_rules u))"
    and "old = (case live of None \<Rightarrow> [] | Some l \<Rightarrow> rp_rules l)" and base: "base = [''policy'', ''route-map'', rp_name u]"
    and "S \<inter> cone (base @ [''rule'']) = (\<Union>r\<in>set old. route_rule_paths base r)"
  shows "run dev (applyRouteMap_cmds live u) S =
    (S - cone (base @ [''rule''])) \<union> (\<Union>r\<in>set (rp_rules u). route_rule_paths base (route_rule_form r)) \<union>
    (if live = None then {base} else {})"
proof -
  have b: "base = routeMapBase (rp_name u)" by (simp add: base routeMapBase_def)
  have live: "route_map_paths base old = (\<Union>r\<in>set old. route_rule_paths base r)"
    by (simp add: route_map_paths_def children_paths_by_key route_rule_live_paths)
  have asked: "route_map_asked base (rp_rules u) = (\<Union>r\<in>set (rp_rules u). route_rule_paths base (route_rule_form r))"
    by (simp add: route_map_asked_def children_paths_by_key route_rule_form_paths)
  show ?thesis
    using route_map_effect [OF assms(1,2) _ assms(4) b, of live] assms(3,5,7) unfolding live [symmetric] asked [symmetric] by simp
qed

definition policy_single :: "path \<Rightarrow> bool" where
  "policy_single p \<longleftrightarrow> (length p = 6 \<and> p ! 3 = ''rule'' \<and> last p \<noteq> ''on-match'') \<or> (length p = 7 \<and> last p \<notin> {''ip'', ''address''} \<and> p ! 5 \<noteq> ''on-match'') \<or>
     (length p = 7 \<and> last p = ''goto'') \<or> (length p = 8 \<and> last p \<noteq> ''address'') \<or> length p = 9"

lemma policy_single_schema: "route_map_schema policy_single"
  by (simp add: route_map_schema_def policy_single_def route_map_field_defs rule_node_def routeMapBase_def)

text \<open>A rule that turns from a jump to the next rule, one that goes and one that comes.\<close>

definition jump_rule :: "int \<Rightarrow> on_match \<Rightarrow> int option \<Rightarrow> route_map_rule" where
  "jump_rule n k g = (emptyRouteMapRule (Some n))\<lparr>rr_on_match := k, rr_goto := g\<rparr>"

definition tagged_rule :: "int \<Rightarrow> string \<Rightarrow> route_map_rule" where
  "tagged_rule n tag = (emptyRouteMapRule (Some n))
     \<lparr>rr_match := emptyMatch\<lparr>rm_interface := Some ''eth0''\<rparr>, rr_set := emptySet\<lparr>rx_ip_next_hop := Some tag\<rparr>\<rparr>"

lemma route_map_save_witness:
  "run (ref_dev policy_single)
     (applyRouteMap_cmds (Some \<lparr>rp_name = ''RM'', rp_rules = [jump_rule 10 OnGoto (Some 30), jump_rule 20 OnNone None]\<rparr>)
       \<lparr>rp_name = ''RM'', rp_rules = [jump_rule 10 OnNext None, tagged_rule 30 '' 192.0.2.7'']\<rparr>)
     (\<Union>r\<in>{jump_rule 10 OnGoto (Some 30), jump_rule 20 OnNone None}. route_rule_paths [''policy'', ''route-map'', ''RM''] r) =
   (let b = [''policy'', ''route-map'', ''RM'', ''rule''] in
    {b @ [''30''], b @ [''30'', ''action'', ''permit''], b @ [''30'', ''set'', ''ip-next-hop'', ''192.0.2.7''],
     b @ [''30'', ''match'', ''interface'', ''eth0''],
     b @ [''10''], b @ [''10'', ''on-match'', ''next''], b @ [''10'', ''action'', ''permit'']})"
  (is "run _ (applyRouteMap_cmds (Some ?l) ?u) ?S = ?after")
proof -
  let ?b = "[''policy'', ''route-map'', ''RM'']" and ?old = "[jump_rule 10 OnGoto (Some 30), jump_rule 20 OnNone None]"
  have hyps: "distinct (map rr_seq ?old)" "distinct (map rr_seq (rp_rules ?u))"
    "?old = (case Some ?l of None \<Rightarrow> [] | Some l \<Rightarrow> rp_rules l)" "?b = [''policy'', ''route-map'', rp_name ?u]"
    by (simp_all add: jump_rule_def tagged_rule_def emptyRouteMapRule_def)
  have "route_rule_paths ?b r \<subseteq> cone (?b @ [''rule''])" for r
    using route_map_rules.created.before_in [of "''RM''" "rr_seq r" r] cone_mono [of "?b @ [''rule'']" "rule_node ?b k" for k]
    unfolding route_rule_live_paths [symmetric] by (fastforce simp: rule_node_def routeMapBase_def)
  then have sub: "?S \<subseteq> cone (?b @ [''rule''])" by blast
  then have "?S \<inter> cone (?b @ [''rule'']) = (\<Union>r\<in>set ?old. route_rule_paths ?b r)" by auto
  note result = route_map_save [OF ref_dev_laws policy_single_schema hyps this]
  have nums: "string_of_int 10 = ''10''" "string_of_int 30 = ''30''" by code_simp+
  have form: "route_rule_form (jump_rule 10 OnNext None) = jump_rule 10 OnNext None"
    "route_rule_form (tagged_rule 30 '' 192.0.2.7'') = tagged_rule 30 ''192.0.2.7''" by code_simp+
  have ten: "route_rule_paths ?b (jump_rule 10 OnNext None) =
      {?b @ [''rule'', ''10''], ?b @ [''rule'', ''10'', ''on-match'', ''next''], ?b @ [''rule'', ''10'', ''action'', ''permit'']}"
    by (simp add: route_rule_paths_def jump_rule_def emptyRouteMapRule_def emptyMatch_def emptySet_def
        seq_str_def nums leaf_paths_def flag_paths_def Let_def)
  have thirty: "route_rule_paths ?b (tagged_rule 30 ''192.0.2.7'') =
      {?b @ [''rule'', ''30''], ?b @ [''rule'', ''30'', ''action'', ''permit''], ?b @ [''rule'', ''30'', ''set'', ''ip-next-hop'', ''192.0.2.7''],
       ?b @ [''rule'', ''30'', ''match'', ''interface'', ''eth0'']}"
    by (simp add: route_rule_paths_def tagged_rule_def emptyRouteMapRule_def emptyMatch_def emptySet_def
        seq_str_def nums leaf_paths_def flag_paths_def Let_def)
  have after: "(\<Union>r\<in>set (rp_rules ?u). route_rule_paths ?b (route_rule_form r)) = ?after"
    by (simp add: form ten thirty Let_def)
  have gone: "A = (B - C) \<union> D \<union> (if Some l = None then E else {}) \<Longrightarrow> B \<subseteq> C \<Longrightarrow> D = D' \<Longrightarrow> A = D'"
    for A B C D D' E :: "path set" and l :: route_map by auto
  show ?thesis by (rule gone [OF result sub after])
qed

end
