(* ===== verification/Ipsec.thy ===== *)
theory Ipsec
  imports Child_Forms
begin

text \<open>
  IPsec: \<open>lib/ipsec.ts\<close>, the IKE and ESP groups with their proposals, and the site-to-site peers with
  their tunnels. Each is a form with numbered child nodes below it.
\<close>

section \<open>Model\<close>

record ipsec_proposal =
  pp_seq :: int
  pp_encryption :: "string option"
  pp_hash :: "string option"
  pp_dh_group :: "string option"

record ike_group =
  ik_name :: string
  ik_key_exchange :: "string option"
  ik_lifetime :: "int option"
  ik_dpd_action :: "string option"
  ik_dpd_interval :: "int option"
  ik_dpd_timeout :: "int option"
  ik_proposals :: "ipsec_proposal list"

record esp_group =
  eg_name :: string
  eg_lifetime :: "int option"
  eg_pfs :: "string option"
  eg_mode :: "string option"
  eg_proposals :: "ipsec_proposal list"

record ipsec_tunnel =
  tn_seq :: int
  tn_local_prefix :: "string option"
  tn_remote_prefix :: "string option"
  tn_protocol :: "string option"
  tn_esp_group :: "string option"

record ipsec_peer =
  iq_name :: string
  iq_auth_mode :: "string option"
  iq_pre_shared_secret :: "string option"
  iq_local_id :: "string option"
  iq_remote_id :: "string option"
  iq_connection_type :: "string option"
  iq_ike_group :: "string option"
  iq_default_esp_group :: "string option"
  iq_local_address :: "string option"
  iq_remote_address :: "string option"
  iq_vti_bind :: "string option"
  iq_tunnels :: "ipsec_tunnel list"

record ipsec_config =
  ic_interfaces :: "string list"
  ic_ike_groups :: "ike_group list"
  ic_esp_groups :: "esp_group list"
  ic_peers :: "ipsec_peer list"

definition emptyIkeGroup :: ike_group where
  "emptyIkeGroup = \<lparr>ik_name = [], ik_key_exchange = None, ik_lifetime = None, ik_dpd_action = None,
     ik_dpd_interval = None, ik_dpd_timeout = None, ik_proposals = []\<rparr>"

definition emptyEspGroup :: esp_group where
  "emptyEspGroup = \<lparr>eg_name = [], eg_lifetime = None, eg_pfs = None, eg_mode = None, eg_proposals = []\<rparr>"

definition emptyIpsecPeer :: ipsec_peer where
  "emptyIpsecPeer = \<lparr>iq_name = [], iq_auth_mode = None, iq_pre_shared_secret = None, iq_local_id = None,
     iq_remote_id = None, iq_connection_type = None, iq_ike_group = None, iq_default_esp_group = None,
     iq_local_address = None, iq_remote_address = None, iq_vti_bind = None, iq_tunnels = []\<rparr>"

section \<open>Reader\<close>

text \<open>\<open>Number(seq) || 0\<close>; the entries of an object child, arrays excluded.\<close>

definition strict_entries :: "json \<Rightarrow> string \<Rightarrow> (string \<times> json) list" where
  "strict_entries v key = (case childCfg v key of Some (JObj kvs) \<Rightarrow> kvs | _ \<Rightarrow> [])"

abbreviation strict_child :: "json \<Rightarrow> string \<Rightarrow> json" where
  "strict_child v key \<equiv> obj_or_empty (childCfg v key)"

definition parseProposals :: "bool \<Rightarrow> json \<Rightarrow> ipsec_proposal list" where
  "parseProposals withDh v = sort_by (\<lambda>a b. pp_seq a - pp_seq b)
     (map (\<lambda>(seq, raw). let p = or_empty raw in
        \<lparr>pp_seq = number_or_zero seq, pp_encryption = childStr p ''encryption'', pp_hash = childStr p ''hash'',
          pp_dh_group = (if withDh then childStr p ''dh-group'' else None)\<rparr>)
       (strict_entries v ''proposal''))"

definition parseIkeGroup :: "string \<times> json \<Rightarrow> ike_group" where
  "parseIkeGroup e = (let raw = or_empty (snd e); dpd = strict_child raw ''dead-peer-detection'' in
     \<lparr>ik_name = fst e, ik_key_exchange = childStr raw ''key-exchange'', ik_lifetime = childNum raw ''lifetime'',
       ik_dpd_action = childStr dpd ''action'', ik_dpd_interval = childNum dpd ''interval'',
       ik_dpd_timeout = childNum dpd ''timeout'', ik_proposals = parseProposals True raw\<rparr>)"

definition parseEspGroup :: "string \<times> json \<Rightarrow> esp_group" where
  "parseEspGroup e = (let raw = or_empty (snd e) in
     \<lparr>eg_name = fst e, eg_lifetime = childNum raw ''lifetime'', eg_pfs = childStr raw ''pfs'',
       eg_mode = childStr raw ''mode'', eg_proposals = parseProposals False raw\<rparr>)"

definition parseTunnels :: "json \<Rightarrow> ipsec_tunnel list" where
  "parseTunnels v = sort_by (\<lambda>a b. tn_seq a - tn_seq b)
     (map (\<lambda>(seq, raw). let t = or_empty raw in
        \<lparr>tn_seq = number_or_zero seq, tn_local_prefix = childStr (strict_child t ''local'') ''prefix'',
          tn_remote_prefix = childStr (strict_child t ''remote'') ''prefix'', tn_protocol = childStr t ''protocol'',
          tn_esp_group = childStr t ''esp-group''\<rparr>)
       (strict_entries v ''tunnel''))"

definition parseIpsecPeer :: "string \<times> json \<Rightarrow> ipsec_peer" where
  "parseIpsecPeer e = (let raw = or_empty (snd e); auth = strict_child raw ''authentication'' in
     \<lparr>iq_name = fst e, iq_auth_mode = childStr auth ''mode'', iq_pre_shared_secret = childStr auth ''pre-shared-secret'',
       iq_local_id = childStr auth ''local-id'', iq_remote_id = childStr auth ''remote-id'',
       iq_connection_type = childStr raw ''connection-type'', iq_ike_group = childStr raw ''ike-group'',
       iq_default_esp_group = childStr raw ''default-esp-group'', iq_local_address = childStr raw ''local-address'',
       iq_remote_address = childStr raw ''remote-address'', iq_vti_bind = Option.bind (childCfg raw ''vti'') (\<lambda>v. childStr v ''bind''),
       iq_tunnels = parseTunnels raw\<rparr>)"

definition fetchIpsec :: "(string \<Rightarrow> string \<Rightarrow> int) \<Rightarrow> vyos_response \<Rightarrow> read_error + ipsec_config" where
  "fetchIpsec lc resp = (case config_of_response ''Device returned an error reading IPsec configuration.'' resp of
     Inl e \<Rightarrow> Inl e
   | Inr ipsec \<Rightarrow> Inr
      \<lparr>ic_interfaces = sort_by str_cmp (map fst (strict_entries ipsec ''interface'')),
        ic_ike_groups = sort_by (\<lambda>a b. lc (ik_name a) (ik_name b)) (map parseIkeGroup (strict_entries ipsec ''ike-group'')),
        ic_esp_groups = sort_by (\<lambda>a b. lc (eg_name a) (eg_name b)) (map parseEspGroup (strict_entries ipsec ''esp-group'')),
        ic_peers = sort_by (\<lambda>a b. lc (iq_name a) (iq_name b))
          (map parseIpsecPeer (strict_entries (strict_child ipsec ''site-to-site'') ''peer''))\<rparr>)"

section \<open>Diff\<close>

definition ipsec_base :: path where
  "ipsec_base = [''vpn'', ''ipsec'']"

definition proposal_path :: "path \<Rightarrow> int \<Rightarrow> path" where
  "proposal_path base seq = base @ [''proposal'', string_of_int seq]"

definition proposal_fields :: "bool \<Rightarrow> ipsec_proposal option \<Rightarrow> ipsec_proposal \<Rightarrow> field list" where
  "proposal_fields withDh live p =
     [Leaf [''encryption''] (Option.bind live pp_encryption) (blank_to_none (pp_encryption p)),
      Leaf [''hash''] (Option.bind live pp_hash) (blank_to_none (pp_hash p))] @
     (if withDh then [Leaf [''dh-group''] (Option.bind live pp_dh_group) (blank_to_none (pp_dh_group p))] else [])"

definition proposal_cmds :: "bool \<Rightarrow> path \<Rightarrow> int \<Rightarrow> ipsec_proposal option \<Rightarrow> ipsec_proposal \<Rightarrow> vyos_command list" where
  "proposal_cmds withDh base seq live p =
     form_cmds (proposal_path base seq) (proposal_fields withDh live p) @
     (if live = None \<and> blank_to_none (pp_encryption p) = None \<and> blank_to_none (pp_hash p) = None \<and>
         \<not> (withDh \<and> blank_to_none (pp_dh_group p) \<noteq> None)
      then [cset (proposal_path base seq)] else [])"

definition diffProposals :: "bool \<Rightarrow> path \<Rightarrow> ipsec_proposal list \<Rightarrow> ipsec_proposal list \<Rightarrow> vyos_command list" where
  "diffProposals withDh base live want =
     children_cmds (proposal_path base) (proposal_cmds withDh base) (map_by pp_seq live)
       (map_by pp_seq (filter (\<lambda>p. 0 < pp_seq p) want))"

definition applyIpsecInterfaces_cmds :: "string list \<Rightarrow> string list \<Rightarrow> vyos_command list" where
  "applyIpsecInterfaces_cmds live desired = list_cmds (ipsec_base @ [''interface'']) live (clean desired)"

definition ike_base :: "string \<Rightarrow> path" where
  "ike_base name = ipsec_base @ [''ike-group'', name]"

definition ike_fields :: "ike_group option \<Rightarrow> ike_group \<Rightarrow> field list" where
  "ike_fields live u =
     [Leaf [''key-exchange''] (Option.bind live ik_key_exchange) (blank_to_none (ik_key_exchange u)),
      Leaf [''lifetime''] (numStr (Option.bind live ik_lifetime)) (numStr (ik_lifetime u)),
      Leaf [''dead-peer-detection'', ''action''] (Option.bind live ik_dpd_action) (blank_to_none (ik_dpd_action u)),
      Leaf [''dead-peer-detection'', ''interval''] (numStr (Option.bind live ik_dpd_interval)) (numStr (ik_dpd_interval u)),
      Leaf [''dead-peer-detection'', ''timeout''] (numStr (Option.bind live ik_dpd_timeout)) (numStr (ik_dpd_timeout u))]"

definition diffIkeGroup :: "ike_group option \<Rightarrow> ike_group \<Rightarrow> vyos_command list" where
  "diffIkeGroup live u = (let base = ike_base (ik_name u) in
     ensureCreated (form_cmds base (ike_fields live u) @ diffProposals True base (case live of None \<Rightarrow> [] | Some l \<Rightarrow> ik_proposals l) (ik_proposals u))
       base (live = None))"

definition deleteIkeGroup_cmds :: "string \<Rightarrow> vyos_command list" where
  "deleteIkeGroup_cmds name = [cdel (ike_base name)]"

definition esp_base :: "string \<Rightarrow> path" where
  "esp_base name = ipsec_base @ [''esp-group'', name]"

definition esp_fields :: "esp_group option \<Rightarrow> esp_group \<Rightarrow> field list" where
  "esp_fields live u =
     [Leaf [''lifetime''] (numStr (Option.bind live eg_lifetime)) (numStr (eg_lifetime u)),
      Leaf [''pfs''] (Option.bind live eg_pfs) (blank_to_none (eg_pfs u)),
      Leaf [''mode''] (Option.bind live eg_mode) (blank_to_none (eg_mode u))]"

definition diffEspGroup :: "esp_group option \<Rightarrow> esp_group \<Rightarrow> vyos_command list" where
  "diffEspGroup live u = (let base = esp_base (eg_name u) in
     ensureCreated (form_cmds base (esp_fields live u) @ diffProposals False base (case live of None \<Rightarrow> [] | Some l \<Rightarrow> eg_proposals l) (eg_proposals u))
       base (live = None))"

definition deleteEspGroup_cmds :: "string \<Rightarrow> vyos_command list" where
  "deleteEspGroup_cmds name = [cdel (esp_base name)]"

definition tunnel_path :: "path \<Rightarrow> int \<Rightarrow> path" where
  "tunnel_path base seq = base @ [''tunnel'', string_of_int seq]"

definition tunnel_fields :: "ipsec_tunnel option \<Rightarrow> ipsec_tunnel \<Rightarrow> field list" where
  "tunnel_fields live t =
     [Leaf [''local'', ''prefix''] (Option.bind live tn_local_prefix) (blank_to_none (tn_local_prefix t)),
      Leaf [''remote'', ''prefix''] (Option.bind live tn_remote_prefix) (blank_to_none (tn_remote_prefix t)),
      Leaf [''protocol''] (Option.bind live tn_protocol) (blank_to_none (tn_protocol t)),
      Leaf [''esp-group''] (Option.bind live tn_esp_group) (blank_to_none (tn_esp_group t))]"

definition tunnel_cmds :: "path \<Rightarrow> int \<Rightarrow> ipsec_tunnel option \<Rightarrow> ipsec_tunnel \<Rightarrow> vyos_command list" where
  "tunnel_cmds base seq live t = form_cmds (tunnel_path base seq) (tunnel_fields live t) @
     (if live = None \<and> blank_to_none (tn_local_prefix t) = None \<and> blank_to_none (tn_remote_prefix t) = None
      then [cset (tunnel_path base seq)] else [])"

definition diffTunnels :: "path \<Rightarrow> ipsec_tunnel list \<Rightarrow> ipsec_tunnel list \<Rightarrow> vyos_command list" where
  "diffTunnels base live want =
     children_cmds (tunnel_path base) (tunnel_cmds base) (map_by tn_seq live) (map_by tn_seq (filter (\<lambda>t. 0 \<le> tn_seq t) want))"

definition ipsec_peer_base :: "string \<Rightarrow> path" where
  "ipsec_peer_base name = ipsec_base @ [''site-to-site'', ''peer'', name]"

definition ipsec_peer_fields :: "ipsec_peer option \<Rightarrow> ipsec_peer \<Rightarrow> field list" where
  "ipsec_peer_fields live u =
     [Leaf [''authentication'', ''mode''] (Option.bind live iq_auth_mode) (blank_to_none (iq_auth_mode u)),
      Leaf [''authentication'', ''pre-shared-secret''] (Option.bind live iq_pre_shared_secret) (blank_to_none (iq_pre_shared_secret u)),
      Leaf [''authentication'', ''local-id''] (Option.bind live iq_local_id) (blank_to_none (iq_local_id u)),
      Leaf [''authentication'', ''remote-id''] (Option.bind live iq_remote_id) (blank_to_none (iq_remote_id u)),
      Leaf [''connection-type''] (Option.bind live iq_connection_type) (blank_to_none (iq_connection_type u)),
      Leaf [''ike-group''] (Option.bind live iq_ike_group) (blank_to_none (iq_ike_group u)),
      Leaf [''default-esp-group''] (Option.bind live iq_default_esp_group) (blank_to_none (iq_default_esp_group u)),
      Leaf [''local-address''] (Option.bind live iq_local_address) (blank_to_none (iq_local_address u)),
      Leaf [''remote-address''] (Option.bind live iq_remote_address) (blank_to_none (iq_remote_address u)),
      Leaf [''vti'', ''bind''] (Option.bind live iq_vti_bind) (blank_to_none (iq_vti_bind u))]"

definition diffIpsecPeer :: "ipsec_peer option \<Rightarrow> ipsec_peer \<Rightarrow> vyos_command list" where
  "diffIpsecPeer live u = (let base = ipsec_peer_base (iq_name u) in
     ensureCreated (form_cmds base (ipsec_peer_fields live u) @ diffTunnels base (case live of None \<Rightarrow> [] | Some l \<Rightarrow> iq_tunnels l) (iq_tunnels u))
       base (live = None))"

definition deleteIpsecPeer_cmds :: "string \<Rightarrow> vyos_command list" where
  "deleteIpsecPeer_cmds name = [cdel (ipsec_peer_base name)]"

section \<open>Proposals and tunnels as children\<close>

definition ipsec_schema :: "(path \<Rightarrow> bool) \<Rightarrow> bool" where
  "ipsec_schema single \<longleftrightarrow> (\<forall>n.
     (\<forall>f\<in>set (ike_fields None emptyIkeGroup). field_schema single (ike_base n) f) \<and>
     (\<forall>f\<in>set (esp_fields None emptyEspGroup). field_schema single (esp_base n) f) \<and>
     (\<forall>f\<in>set (ipsec_peer_fields None emptyIpsecPeer). field_schema single (ipsec_peer_base n) f) \<and>
     (\<forall>b\<in>{ike_base n, esp_base n}. \<not> single (butlast b) \<and> \<not> single (b @ [''proposal'']) \<and>
        (\<forall>seq. \<forall>k\<in>{''encryption'', ''hash'', ''dh-group''}. single (proposal_path b seq @ [k]))) \<and>
     \<not> single (butlast (ipsec_peer_base n)) \<and> \<not> single (ipsec_peer_base n @ [''tunnel'']) \<and>
     (\<forall>seq. \<forall>p\<in>{[''local'', ''prefix''], [''remote'', ''prefix''], [''protocol''], [''esp-group'']}.
        single (tunnel_path (ipsec_peer_base n) seq @ p)))"

interpretation ike_proposals: child_forms ipsec_schema "\<lambda>n. ike_base n @ [''proposal'']" "\<lambda>n. proposal_path (ike_base n)" "proposal_fields True"
  by unfold_locales (auto simp: proposal_path_def proposal_fields_def apart_fields_def form_defs ipsec_schema_def cone_disjoint_iff
    butlast_append)

interpretation esp_proposals: child_forms ipsec_schema "\<lambda>n. esp_base n @ [''proposal'']" "\<lambda>n. proposal_path (esp_base n)" "proposal_fields False"
  by unfold_locales (auto simp: proposal_path_def proposal_fields_def apart_fields_def form_defs ipsec_schema_def cone_disjoint_iff
    butlast_append)

interpretation tunnels: child_forms ipsec_schema "\<lambda>n. ipsec_peer_base n @ [''tunnel'']" "\<lambda>n. tunnel_path (ipsec_peer_base n)" tunnel_fields
  by unfold_locales (auto simp: tunnel_path_def tunnel_fields_def apart_fields_def form_defs ipsec_schema_def cone_disjoint_iff
    butlast_append)

lemma proposal_ensured: "proposal_cmds withDh base = ensured_item (proposal_path base) (proposal_fields withDh)"
proof (intro ext)
  fix seq live p
  have "has_set (form_cmds b (proposal_fields withDh None p)) \<longleftrightarrow> form_desired b (proposal_fields withDh None p) \<noteq> {}" for b
    by (intro form_new_sets) (auto simp: proposal_fields_def)
  then show "proposal_cmds withDh base seq live p = ensured_item (proposal_path base) (proposal_fields withDh) seq live p"
    by (cases live) (auto simp: proposal_cmds_def ensured_item_def proposal_fields_def form_desired_def Let_def)
qed

text \<open>
  A tunnel of the form has a prefix on one side. (A new one that has only a protocol would also be
  created explicitly, beside the leaf that creates it.)
\<close>

definition has_prefix :: "ipsec_tunnel \<Rightarrow> bool" where
  "has_prefix t \<longleftrightarrow> blank_to_none (tn_local_prefix t) \<noteq> None \<or> blank_to_none (tn_remote_prefix t) \<noteq> None"

lemma has_prefix_asks: "has_prefix t \<Longrightarrow> asks tunnel_fields t"
  by (auto simp: has_prefix_def asks_def tunnel_fields_def form_desired_def)

lemma tunnel_ensured: "has_prefix t \<Longrightarrow> tunnel_cmds base seq live t = ensured_item (tunnel_path base) tunnel_fields seq live t"
proof -
  assume *: "has_prefix t"
  have "has_set (form_cmds b (tunnel_fields None t)) \<longleftrightarrow> form_desired b (tunnel_fields None t) \<noteq> {}" for b
    by (intro form_new_sets) (auto simp: tunnel_fields_def)
  then have "has_set (form_cmds b (tunnel_fields None t))" for b using asks_anywhere [OF has_prefix_asks [OF *]] by blast
  with * show ?thesis by (cases live) (auto simp: tunnel_cmds_def ensured_item_def has_prefix_def Let_def)
qed

lemma diffTunnels_children:
  assumes "\<forall>t\<in>set want. 0 \<le> tn_seq t \<longrightarrow> has_prefix t"
  shows "diffTunnels base live want = children_cmds (tunnel_path base) (ensured_item (tunnel_path base) tunnel_fields)
    (map_by tn_seq live) (map_by tn_seq (filter (\<lambda>t. 0 \<le> tn_seq t) want))"
  unfolding diffTunnels_def using assms by (intro children_cong tunnel_ensured) (auto dest: map_by_origin)

section \<open>What a save does\<close>

definition live_proposals :: "('g \<Rightarrow> ipsec_proposal list) \<Rightarrow> 'g \<Rightarrow> (int \<times> ipsec_proposal) list" where
  "live_proposals f g = map_by pp_seq (f g)"

definition wanted_proposals :: "('g \<Rightarrow> ipsec_proposal list) \<Rightarrow> 'g \<Rightarrow> (int \<times> ipsec_proposal) list" where
  "wanted_proposals f g = map_by pp_seq (filter (\<lambda>p. 0 < pp_seq p) (f g))"

definition live_tunnels :: "ipsec_peer \<Rightarrow> (int \<times> ipsec_tunnel) list" where
  "live_tunnels p = map_by tn_seq (iq_tunnels p)"

definition wanted_tunnels :: "ipsec_peer \<Rightarrow> (int \<times> ipsec_tunnel) list" where
  "wanted_tunnels p = map_by tn_seq (filter (\<lambda>t. 0 \<le> tn_seq t) (iq_tunnels p))"

lemmas ipsec_kids = live_proposals_def wanted_proposals_def live_tunnels_def wanted_tunnels_def

interpretation ike_groups: form_node ipsec_schema "\<lambda>n. ike_base n @ [''proposal'']" "\<lambda>n. proposal_path (ike_base n)"
  "proposal_fields True" ik_name ike_base ike_fields "live_proposals ik_proposals" "wanted_proposals ik_proposals"
  by unfold_locales (auto simp: ike_fields_def apart_fields_def form_desired_def form_live_def ipsec_schema_def form_region_apart
    ipsec_kids numStr_def)

interpretation esp_groups: form_node ipsec_schema "\<lambda>n. esp_base n @ [''proposal'']" "\<lambda>n. proposal_path (esp_base n)"
  "proposal_fields False" eg_name esp_base esp_fields "live_proposals eg_proposals" "wanted_proposals eg_proposals"
  by unfold_locales (auto simp: esp_fields_def apart_fields_def form_desired_def form_live_def ipsec_schema_def form_region_apart
    ipsec_kids numStr_def)

interpretation ipsec_peers: form_node ipsec_schema "\<lambda>n. ipsec_peer_base n @ [''tunnel'']" "\<lambda>n. tunnel_path (ipsec_peer_base n)"
  tunnel_fields iq_name ipsec_peer_base ipsec_peer_fields live_tunnels wanted_tunnels
  by unfold_locales (auto simp: ipsec_peer_fields_def apart_fields_def form_desired_def form_live_def ipsec_schema_def
    form_region_apart ipsec_kids)

lemma diffIkeGroup_node:
  "diffIkeGroup live u = ensureCreated (form_cmds (ike_base (ik_name u)) (ike_fields live u) @
     children_cmds (proposal_path (ike_base (ik_name u))) (ensured_item (proposal_path (ike_base (ik_name u))) (proposal_fields True))
       (live_kids (live_proposals ik_proposals) live) (wanted_proposals ik_proposals u)) (ike_base (ik_name u)) (live = None)"
  by (cases live) (simp_all add: diffIkeGroup_def diffProposals_def proposal_ensured live_kids_def ipsec_kids Let_def)

lemma diffEspGroup_node:
  "diffEspGroup live u = ensureCreated (form_cmds (esp_base (eg_name u)) (esp_fields live u) @
     children_cmds (proposal_path (esp_base (eg_name u))) (ensured_item (proposal_path (esp_base (eg_name u))) (proposal_fields False))
       (live_kids (live_proposals eg_proposals) live) (wanted_proposals eg_proposals u)) (esp_base (eg_name u)) (live = None)"
  by (cases live) (simp_all add: diffEspGroup_def diffProposals_def proposal_ensured live_kids_def ipsec_kids Let_def)

lemma diffIpsecPeer_node:
  assumes "\<forall>t\<in>set (iq_tunnels u). 0 \<le> tn_seq t \<longrightarrow> has_prefix t"
  shows "diffIpsecPeer live u = ensureCreated (form_cmds (ipsec_peer_base (iq_name u)) (ipsec_peer_fields live u) @
     children_cmds (tunnel_path (ipsec_peer_base (iq_name u))) (ensured_item (tunnel_path (ipsec_peer_base (iq_name u))) tunnel_fields)
       (live_kids live_tunnels live) (wanted_tunnels u)) (ipsec_peer_base (iq_name u)) (live = None)"
  by (cases live) (simp_all add: diffIpsecPeer_def diffTunnels_children [OF assms] live_kids_def ipsec_kids Let_def)

text \<open>The part of the device that belongs to a node, what it holds for one, and what a form asks for.\<close>

definition ike_region :: "string \<Rightarrow> path set" where
  "ike_region n = node_region (ike_base n) (ike_fields None emptyIkeGroup) (ike_base n @ [''proposal''])"

definition ike_before :: "string \<Rightarrow> ike_group option \<Rightarrow> path set" where
  "ike_before n = node_before ike_fields (proposal_path (ike_base n)) (proposal_fields True) (live_proposals ik_proposals) (ike_base n)"

definition ike_after :: "ike_group \<Rightarrow> path set" where
  "ike_after u = node_after ike_fields (proposal_path (ike_base (ik_name u))) (proposal_fields True) (wanted_proposals ik_proposals)
     (ike_base (ik_name u)) u"

definition esp_region :: "string \<Rightarrow> path set" where
  "esp_region n = node_region (esp_base n) (esp_fields None emptyEspGroup) (esp_base n @ [''proposal''])"

definition esp_before :: "string \<Rightarrow> esp_group option \<Rightarrow> path set" where
  "esp_before n = node_before esp_fields (proposal_path (esp_base n)) (proposal_fields False) (live_proposals eg_proposals) (esp_base n)"

definition esp_after :: "esp_group \<Rightarrow> path set" where
  "esp_after u = node_after esp_fields (proposal_path (esp_base (eg_name u))) (proposal_fields False) (wanted_proposals eg_proposals)
     (esp_base (eg_name u)) u"

definition ipsec_peer_region :: "string \<Rightarrow> path set" where
  "ipsec_peer_region n = node_region (ipsec_peer_base n) (ipsec_peer_fields None emptyIpsecPeer) (ipsec_peer_base n @ [''tunnel''])"

definition ipsec_peer_before :: "string \<Rightarrow> ipsec_peer option \<Rightarrow> path set" where
  "ipsec_peer_before n = node_before ipsec_peer_fields (tunnel_path (ipsec_peer_base n)) tunnel_fields live_tunnels (ipsec_peer_base n)"

definition ipsec_peer_after :: "ipsec_peer \<Rightarrow> path set" where
  "ipsec_peer_after u = node_after ipsec_peer_fields (tunnel_path (ipsec_peer_base (iq_name u))) tunnel_fields wanted_tunnels
     (ipsec_peer_base (iq_name u)) u"

text \<open>Every proposal of the form asks for an algorithm; then the groups of the device become those of the form.\<close>

lemma wanted_asks:
  assumes "\<forall>p\<in>set ps. 0 < pp_seq p \<longrightarrow> asks (proposal_fields d) p"
  shows "\<forall>(k, p)\<in>set (map_by pp_seq (filter (\<lambda>p. 0 < pp_seq p) ps)). asks (proposal_fields d) p"
  using assms by (auto dest!: map_by_origin)

theorem ike_group_save:
  assumes "device_laws dev single" and "ipsec_schema single"
    and "\<forall>p\<in>set (ik_proposals u). 0 < pp_seq p \<longrightarrow> asks (proposal_fields True) p"
    and "S \<inter> ike_region (ik_name u) = ike_before (ik_name u) live"
  shows "run dev (diffIkeGroup live u) S = (S - ike_region (ik_name u)) \<union> ike_after u \<union>
    (if live = None \<and> ike_after u = {} then {ike_base (ik_name u)} else {})"
  unfolding diffIkeGroup_node
  using assms(3,4) by (intro ike_groups.node_save [OF assms(1,2)])
    (simp_all add: wanted_asks wanted_proposals_def ike_region_def ike_before_def ike_after_def)

theorem esp_group_save:
  assumes "device_laws dev single" and "ipsec_schema single"
    and "\<forall>p\<in>set (eg_proposals u). 0 < pp_seq p \<longrightarrow> asks (proposal_fields False) p"
    and "S \<inter> esp_region (eg_name u) = esp_before (eg_name u) live"
  shows "run dev (diffEspGroup live u) S = (S - esp_region (eg_name u)) \<union> esp_after u \<union>
    (if live = None \<and> esp_after u = {} then {esp_base (eg_name u)} else {})"
  unfolding diffEspGroup_node
  using assms(3,4) by (intro esp_groups.node_save [OF assms(1,2)])
    (simp_all add: wanted_asks wanted_proposals_def esp_region_def esp_before_def esp_after_def)

text \<open>The effect of saving a peer, over the fields of the form and its tunnels.\<close>

lemma ipsec_peer_effect:
  assumes "device_laws dev single" and "ipsec_schema single"
    and "\<forall>t\<in>set (iq_tunnels u). 0 \<le> tn_seq t \<longrightarrow> has_prefix t"
    and "S \<inter> ipsec_peer_region (iq_name u) = ipsec_peer_before (iq_name u) live"
  shows "run dev (diffIpsecPeer live u) S = (S - ipsec_peer_region (iq_name u)) \<union> ipsec_peer_after u \<union>
    (if live = None \<and> ipsec_peer_after u = {} then {ipsec_peer_base (iq_name u)} else {})"
proof -
  have good: "\<forall>(k, t)\<in>set (wanted_tunnels u). asks tunnel_fields t"
    using assms(3) by (auto simp: wanted_tunnels_def dest!: map_by_origin intro: has_prefix_asks)
  show ?thesis
    unfolding diffIpsecPeer_node [OF assms(3)]
    using assms(4) by (intro ipsec_peers.node_save [OF assms(1,2) good])
      (simp_all add: ipsec_peer_region_def ipsec_peer_before_def ipsec_peer_after_def)
qed

text \<open>
  The node of a peer, spelled out: which leaf of the device stands for which field of the peer and of each
  of its tunnels. The field lists above, which make the commands, do not enter it. Of two tunnels with one
  number the later counts.
\<close>

definition ipsec_tunnel_paths :: "string \<Rightarrow> ipsec_tunnel \<Rightarrow> path set" where
  "ipsec_tunnel_paths name t =
     (let b = [''vpn'', ''ipsec'', ''site-to-site'', ''peer'', name, ''tunnel'', string_of_int (tn_seq t)] in
      leaf_paths (b @ [''local'', ''prefix'']) (tn_local_prefix t) \<union>
      leaf_paths (b @ [''remote'', ''prefix'']) (tn_remote_prefix t) \<union>
      leaf_paths (b @ [''protocol'']) (tn_protocol t) \<union>
      leaf_paths (b @ [''esp-group'']) (tn_esp_group t))"

definition ipsec_peer_paths :: "string \<Rightarrow> ipsec_peer \<Rightarrow> path set" where
  "ipsec_peer_paths name p = (let b = [''vpn'', ''ipsec'', ''site-to-site'', ''peer'', name] in
     leaf_paths (b @ [''authentication'', ''mode'']) (iq_auth_mode p) \<union>
     leaf_paths (b @ [''authentication'', ''pre-shared-secret'']) (iq_pre_shared_secret p) \<union>
     leaf_paths (b @ [''authentication'', ''local-id'']) (iq_local_id p) \<union>
     leaf_paths (b @ [''authentication'', ''remote-id'']) (iq_remote_id p) \<union>
     leaf_paths (b @ [''connection-type'']) (iq_connection_type p) \<union>
     leaf_paths (b @ [''ike-group'']) (iq_ike_group p) \<union>
     leaf_paths (b @ [''default-esp-group'']) (iq_default_esp_group p) \<union>
     leaf_paths (b @ [''local-address'']) (iq_local_address p) \<union>
     leaf_paths (b @ [''remote-address'']) (iq_remote_address p) \<union>
     leaf_paths (b @ [''vti'', ''bind'']) (iq_vti_bind p) \<union>
     (\<Union>t\<in>last_of tn_seq (iq_tunnels p). ipsec_tunnel_paths name t))"

text \<open>The places of those leaves; whatever else a device has below a peer is not touched.\<close>

definition ipsec_peer_places :: "string \<Rightarrow> path set" where
  "ipsec_peer_places name = (let b = [''vpn'', ''ipsec'', ''site-to-site'', ''peer'', name] in
     cone (b @ [''authentication'', ''mode'']) \<union> cone (b @ [''authentication'', ''pre-shared-secret'']) \<union>
     cone (b @ [''authentication'', ''local-id'']) \<union> cone (b @ [''authentication'', ''remote-id'']) \<union>
     cone (b @ [''connection-type'']) \<union> cone (b @ [''ike-group'']) \<union> cone (b @ [''default-esp-group'']) \<union>
     cone (b @ [''local-address'']) \<union> cone (b @ [''remote-address'']) \<union> cone (b @ [''vti'', ''bind'']) \<union>
     cone (b @ [''tunnel'']))"

text \<open>
  What a filled form stands for: blanks around a text are dropped, a blank text is no text, and a tunnel row
  with a negative number is no tunnel.
\<close>

definition ipsec_tunnel_form :: "ipsec_tunnel \<Rightarrow> ipsec_tunnel" where
  "ipsec_tunnel_form t = t\<lparr>tn_local_prefix := blank_to_none (tn_local_prefix t), tn_remote_prefix := blank_to_none (tn_remote_prefix t),
     tn_protocol := blank_to_none (tn_protocol t), tn_esp_group := blank_to_none (tn_esp_group t)\<rparr>"

definition ipsec_peer_form :: "ipsec_peer \<Rightarrow> ipsec_peer" where
  "ipsec_peer_form p = p\<lparr>iq_auth_mode := blank_to_none (iq_auth_mode p), iq_pre_shared_secret := blank_to_none (iq_pre_shared_secret p),
     iq_local_id := blank_to_none (iq_local_id p), iq_remote_id := blank_to_none (iq_remote_id p),
     iq_connection_type := blank_to_none (iq_connection_type p), iq_ike_group := blank_to_none (iq_ike_group p),
     iq_default_esp_group := blank_to_none (iq_default_esp_group p), iq_local_address := blank_to_none (iq_local_address p),
     iq_remote_address := blank_to_none (iq_remote_address p), iq_vti_bind := blank_to_none (iq_vti_bind p),
     iq_tunnels := map ipsec_tunnel_form (filter (\<lambda>t. 0 \<le> tn_seq t) (iq_tunnels p))\<rparr>"

lemma ipsec_peer_places_region: "ipsec_peer_region n = ipsec_peer_places n"
  by (simp add: ipsec_peer_region_def ipsec_peer_places_def node_region_def form_region_def ipsec_peer_fields_def
      ipsec_peer_base_def ipsec_base_def Let_def Un_ac)

lemma tunnel_live_paths: "form_live (tunnel_path (ipsec_peer_base n) (tn_seq t)) (tunnel_fields (Some t) t) = ipsec_tunnel_paths n t"
  by (simp add: form_live_def tunnel_fields_def ipsec_tunnel_paths_def tunnel_path_def ipsec_peer_base_def ipsec_base_def Let_def Un_ac)

lemma tunnel_form_paths:
  "form_desired (tunnel_path (ipsec_peer_base n) (tn_seq t)) (tunnel_fields None t) = ipsec_tunnel_paths n (ipsec_tunnel_form t)"
  by (simp add: form_desired_def tunnel_fields_def ipsec_tunnel_paths_def tunnel_path_def ipsec_peer_base_def ipsec_base_def
      ipsec_tunnel_form_def Let_def Un_ac)

lemma last_of_map: "f \<circ> g = f \<Longrightarrow> last_of f (map g xs) = g ` last_of f xs"
proof (induction xs rule: rev_induct)
  case (snoc x xs)
  then have "f (g y) = f y" for y by (metis comp_apply)
  then show ?case using snoc by (auto simp: last_of_snoc set_eq_iff)
qed simp

lemma ipsec_peer_before_paths: "ipsec_peer_before n (Some l) = ipsec_peer_paths n l"
proof -
  have "form_live (ipsec_peer_base n) (ipsec_peer_fields (Some l) l) \<union> (\<Union>t\<in>last_of tn_seq (iq_tunnels l). ipsec_tunnel_paths n t) =
      ipsec_peer_paths n l"
    by (simp add: form_live_def ipsec_peer_fields_def ipsec_peer_paths_def ipsec_peer_base_def ipsec_base_def Let_def Un_ac)
  then show ?thesis
    by (simp add: ipsec_peer_before_def node_before_def live_tunnels_def children_paths_map_by ensured_before_def tunnel_live_paths)
qed

lemma ipsec_peer_after_paths: "ipsec_peer_after u = ipsec_peer_paths (iq_name u) (ipsec_peer_form u)"
proof -
  have "last_of tn_seq (iq_tunnels (ipsec_peer_form u)) = ipsec_tunnel_form ` last_of tn_seq (filter (\<lambda>t. 0 \<le> tn_seq t) (iq_tunnels u))"
    by (simp add: ipsec_peer_form_def) (rule last_of_map, simp add: ipsec_tunnel_form_def fun_eq_iff)
  then have "form_desired (ipsec_peer_base (iq_name u)) (ipsec_peer_fields None u) \<union>
      (\<Union>t\<in>last_of tn_seq (filter (\<lambda>t. 0 \<le> tn_seq t) (iq_tunnels u)). ipsec_tunnel_paths (iq_name u) (ipsec_tunnel_form t)) =
      ipsec_peer_paths (iq_name u) (ipsec_peer_form u)"
    by (simp add: ipsec_peer_paths_def Let_def)
      (simp add: form_desired_def ipsec_peer_fields_def ipsec_peer_base_def ipsec_base_def ipsec_peer_form_def Un_ac)
  then show ?thesis
    by (simp add: ipsec_peer_after_def node_after_def wanted_tunnels_def children_paths_map_by ensured_after_def tunnel_form_paths)
qed

text \<open>
  C33: saving a site-to-site peer on a device that holds the one the form was opened with leaves exactly
  the leaves of the filled form (\<open>ipsec_peer_paths\<close> says leaf by leaf which they are): authentication,
  groups, addresses and binding, and the tunnels of the form, each under its number with its prefixes,
  protocol and group; a new peer that asks for nothing is still created. Nothing else on the device
  changes. Every tunnel of the form has a prefix.
\<close>

theorem ipsec_peer_save:
  assumes "device_laws dev single" and "ipsec_schema single"
    and "\<forall>t\<in>set (iq_tunnels u). 0 \<le> tn_seq t \<longrightarrow>
      blank_to_none (tn_local_prefix t) \<noteq> None \<or> blank_to_none (tn_remote_prefix t) \<noteq> None"
    and "S \<inter> ipsec_peer_places (iq_name u) = (case live of None \<Rightarrow> {} | Some l \<Rightarrow> ipsec_peer_paths (iq_name u) l)"
    and "D = ipsec_peer_paths (iq_name u) (ipsec_peer_form u)"
  shows "run dev (diffIpsecPeer live u) S = (S - ipsec_peer_places (iq_name u)) \<union> D \<union>
    (if live = None \<and> D = {} then {[''vpn'', ''ipsec'', ''site-to-site'', ''peer'', iq_name u]} else {})"
proof -
  have "S \<inter> ipsec_peer_region (iq_name u) = ipsec_peer_before (iq_name u) live"
    using assms(4) ipsec_peer_before_paths [of "iq_name u"]
    by (cases live) (simp_all add: ipsec_peer_places_region, simp add: ipsec_peer_before_def node_before_def)
  from ipsec_peer_effect [OF assms(1,2) _ this] assms(3) show ?thesis
    unfolding ipsec_peer_after_paths ipsec_peer_places_region assms(5) [symmetric]
    by (simp add: has_prefix_def ipsec_peer_base_def ipsec_base_def)
qed

definition ipsec_single :: "path \<Rightarrow> bool" where
  "ipsec_single p \<longleftrightarrow> (length p = 5 \<and> last p \<noteq> ''proposal'' \<and> p ! 2 \<noteq> ''site-to-site'' \<and> last p \<noteq> ''dead-peer-detection'') \<or>
     (length p = 6 \<and> p ! 4 = ''dead-peer-detection'' \<and> p ! 2 \<noteq> ''site-to-site'') \<or> (length p = 7 \<and> p ! 4 = ''proposal'') \<or>
     (length p = 6 \<and> p ! 2 = ''site-to-site'' \<and> last p \<noteq> ''tunnel'') \<or> (length p = 7 \<and> p ! 2 = ''site-to-site'') \<or>
     length p = 8 \<or> length p = 9"

lemma ipsec_single_schema: "ipsec_schema ipsec_single"
  by (simp add: ipsec_schema_def ipsec_single_def ike_fields_def esp_fields_def ipsec_peer_fields_def proposal_path_def
      tunnel_path_def ike_base_def esp_base_def ipsec_peer_base_def ipsec_base_def)

text \<open>A tunnel that changes its remote side and one that goes.\<close>

definition tunnel_to :: "int \<Rightarrow> string \<Rightarrow> ipsec_tunnel" where
  "tunnel_to n p = \<lparr>tn_seq = n, tn_local_prefix = Some ''10.0.0.0/24'', tn_remote_prefix = Some p, tn_protocol = None, tn_esp_group = None\<rparr>"

definition peer_with :: "ipsec_tunnel list \<Rightarrow> ipsec_peer" where
  "peer_with ts = emptyIpsecPeer\<lparr>iq_name := ''office'', iq_remote_address := Some ''192.0.2.1'', iq_tunnels := ts\<rparr>"

lemma ipsec_peer_save_witness:
  "run (ref_dev ipsec_single)
     (diffIpsecPeer (Some (peer_with [tunnel_to 0 ''10.1.0.0/24'', tunnel_to 1 ''10.2.0.0/24''])) (peer_with [tunnel_to 0 '' 10.3.0.0/24'']))
     (ipsec_peer_paths ''office'' (peer_with [tunnel_to 0 ''10.1.0.0/24'', tunnel_to 1 ''10.2.0.0/24''])) =
   (let b = [''vpn'', ''ipsec'', ''site-to-site'', ''peer'', ''office''] in
    {b @ [''remote-address'', ''192.0.2.1''], b @ [''tunnel'', ''0'', ''local'', ''prefix'', ''10.0.0.0/24''],
     b @ [''tunnel'', ''0'', ''remote'', ''prefix'', ''10.3.0.0/24'']})"
  (is "run _ (diffIpsecPeer (Some ?l) ?u) ?S = _")
proof -
  have n: "iq_name ?u = ''office''" by (simp add: peer_with_def)
  have pre: "\<forall>t\<in>set (iq_tunnels ?u). 0 \<le> tn_seq t \<longrightarrow>
      blank_to_none (tn_local_prefix t) \<noteq> None \<or> blank_to_none (tn_remote_prefix t) \<noteq> None" by code_simp
  have sub: "?S \<subseteq> ipsec_peer_places ''office''"
    unfolding ipsec_peer_before_paths [symmetric] ipsec_peer_places_region [symmetric] ipsec_peer_before_def ipsec_peer_region_def
    by (rule ipsec_peers.node_before_in)
  then have "?S \<inter> ipsec_peer_places (iq_name ?u) = (case Some ?l of None \<Rightarrow> {} | Some l \<Rightarrow> ipsec_peer_paths (iq_name ?u) l)"
    unfolding n by auto
  note result = ipsec_peer_save [OF ref_dev_laws ipsec_single_schema pre this refl]
  have zero: "string_of_int 0 = ''0''" by code_simp
  have form: "ipsec_peer_form ?u = peer_with [tunnel_to 0 ''10.3.0.0/24'']" by code_simp
  have last: "last_of tn_seq [tunnel_to 0 ''10.3.0.0/24''] = {tunnel_to 0 ''10.3.0.0/24''}"
    by (subst last_of_distinct) simp_all
  have after: "ipsec_peer_paths ''office'' (ipsec_peer_form ?u) =
     (let b = [''vpn'', ''ipsec'', ''site-to-site'', ''peer'', ''office''] in
      {b @ [''remote-address'', ''192.0.2.1''], b @ [''tunnel'', ''0'', ''local'', ''prefix'', ''10.0.0.0/24''],
       b @ [''tunnel'', ''0'', ''remote'', ''prefix'', ''10.3.0.0/24'']})"
    unfolding form by (simp add: ipsec_peer_paths_def ipsec_tunnel_paths_def peer_with_def last emptyIpsecPeer_def Let_def)
      (simp add: tunnel_to_def leaf_paths_def zero insert_commute)
  show ?thesis using result sub unfolding n after by auto
qed

end
