(* ===== verification/L2tp.thy ===== *)
theory L2tp
  imports Child_Forms
begin

text \<open>
  L2TP remote access: \<open>lib/l2tp.ts\<close>, the server-wide form and its local users, address pools and RADIUS
  servers, each edited on its own.
\<close>

section \<open>Model\<close>

definition L2TP_AUTH_PROTOCOLS :: "string list" where
  "L2TP_AUTH_PROTOCOLS = [''pap'', ''chap'', ''mschap'', ''mschap-v2'']"

record l2tp_user =
  lu_username :: string
  lu_password :: "string option"
  lu_static_ip :: "string option"
  lu_disabled :: bool

record l2tp_pool =
  lp_name :: string
  lp_range :: "string option"

record l2tp_radius =
  lr_address :: string
  lr_key :: "string option"
  lr_port :: "int option"
  lr_disabled :: bool

record l2tp_general =
  lg_outside_address :: "string option"
  lg_gateway_address :: "string option"
  lg_name_servers :: "string list"
  lg_mtu :: "int option"
  lg_auth_mode :: "string option"
  lg_auth_protocols :: "string list"
  lg_default_pool :: "string option"
  lg_ipsec_auth_mode :: "string option"
  lg_ipsec_pre_shared_secret :: "string option"

record l2tp_config =
  lt_general :: l2tp_general
  lt_users :: "l2tp_user list"
  lt_pools :: "l2tp_pool list"
  lt_radius_servers :: "l2tp_radius list"

definition emptyL2tpGeneral :: l2tp_general where
  "emptyL2tpGeneral = \<lparr>lg_outside_address = None, lg_gateway_address = None, lg_name_servers = [], lg_mtu = None,
     lg_auth_mode = None, lg_auth_protocols = [], lg_default_pool = None, lg_ipsec_auth_mode = None,
     lg_ipsec_pre_shared_secret = None\<rparr>"

definition emptyL2tpUser :: l2tp_user where
  "emptyL2tpUser = \<lparr>lu_username = [], lu_password = None, lu_static_ip = None, lu_disabled = False\<rparr>"

definition emptyL2tpPool :: l2tp_pool where
  "emptyL2tpPool = \<lparr>lp_name = [], lp_range = None\<rparr>"

definition emptyL2tpRadius :: l2tp_radius where
  "emptyL2tpRadius = \<lparr>lr_address = [], lr_key = None, lr_port = None, lr_disabled = False\<rparr>"

section \<open>Reader\<close>

text \<open>\<open>childCfg(v, k) ?? {}\<close> and its entries, arrays excluded.\<close>

abbreviation l2tp_child :: "json \<Rightarrow> string \<Rightarrow> json" where
  "l2tp_child v key \<equiv> obj_or_empty (childCfg v key)"

definition parse_l2tp_general :: "json \<Rightarrow> l2tp_general" where
  "parse_l2tp_general ra = (let auth = l2tp_child ra ''authentication'';
       ipsecAuth = l2tp_child (l2tp_child ra ''ipsec-settings'') ''authentication'' in
     \<lparr>lg_outside_address = childStr ra ''outside-address'', lg_gateway_address = childStr ra ''gateway-address'',
       lg_name_servers = sort_by str_cmp (childList ra ''name-server''), lg_mtu = childNum ra ''mtu'',
       lg_auth_mode = childStr auth ''mode'',
       lg_auth_protocols = filter (\<lambda>p. p \<in> set L2TP_AUTH_PROTOCOLS) (childList auth ''protocols''),
       lg_default_pool = childStr ra ''default-pool'', lg_ipsec_auth_mode = childStr ipsecAuth ''mode'',
       lg_ipsec_pre_shared_secret = childStr ipsecAuth ''pre-shared-secret''\<rparr>)"

definition parse_l2tp_user :: "string \<times> json \<Rightarrow> read_error + l2tp_user" where
  "parse_l2tp_user e = (let u = or_empty (snd e) in
     case has_key ''disable'' u of Inl err \<Rightarrow> Inl err | Inr d \<Rightarrow>
       Inr \<lparr>lu_username = fst e, lu_password = childStr u ''password'', lu_static_ip = childStr u ''static-ip'', lu_disabled = d\<rparr>)"

definition parse_l2tp_users :: "(string \<Rightarrow> string \<Rightarrow> int) \<Rightarrow> json \<Rightarrow> read_error + l2tp_user list" where
  "parse_l2tp_users lc ra =
     (case map_res parse_l2tp_user (obj_entries (l2tp_child (l2tp_child (l2tp_child ra ''authentication'') ''local-users'') ''username'')) of
        Inl e \<Rightarrow> Inl e | Inr us \<Rightarrow> Inr (sort_by (\<lambda>a b. lc (lu_username a) (lu_username b)) us))"

definition parse_l2tp_pools :: "(string \<Rightarrow> string \<Rightarrow> int) \<Rightarrow> json \<Rightarrow> l2tp_pool list" where
  "parse_l2tp_pools lc ra = sort_by (\<lambda>a b. lc (lp_name a) (lp_name b))
     (map (\<lambda>(name, raw). \<lparr>lp_name = name, lp_range = childStr (or_empty raw) ''range''\<rparr>) (obj_entries (l2tp_child ra ''client-ip-pool'')))"

definition parse_l2tp_radius_server :: "string \<times> json \<Rightarrow> read_error + l2tp_radius" where
  "parse_l2tp_radius_server e = (let s = or_empty (snd e) in
     case has_key ''disable'' s of Inl err \<Rightarrow> Inl err | Inr d \<Rightarrow>
       Inr \<lparr>lr_address = fst e, lr_key = childStr s ''key'', lr_port = childNum s ''port'', lr_disabled = d\<rparr>)"

definition parse_l2tp_radius :: "(string \<Rightarrow> string \<Rightarrow> int) \<Rightarrow> json \<Rightarrow> read_error + l2tp_radius list" where
  "parse_l2tp_radius lc ra =
     (case map_res parse_l2tp_radius_server (obj_entries (l2tp_child (l2tp_child (l2tp_child ra ''authentication'') ''radius'') ''server'')) of
        Inl e \<Rightarrow> Inl e | Inr ss \<Rightarrow> Inr (sort_by (\<lambda>a b. lc (lr_address a) (lr_address b)) ss))"

definition fetchL2tp :: "(string \<Rightarrow> string \<Rightarrow> int) \<Rightarrow> vyos_response \<Rightarrow> read_error + l2tp_config" where
  "fetchL2tp lc resp = (case config_of_response ''Device returned an error reading L2TP configuration.'' resp of
     Inl e \<Rightarrow> Inl e
   | Inr ra \<Rightarrow> (case parse_l2tp_users lc ra of Inl e \<Rightarrow> Inl e
       | Inr us \<Rightarrow> (case parse_l2tp_radius lc ra of Inl e \<Rightarrow> Inl e
           | Inr rs \<Rightarrow> Inr \<lparr>lt_general = parse_l2tp_general ra, lt_users = us, lt_pools = parse_l2tp_pools lc ra,
               lt_radius_servers = rs\<rparr>)))"

section \<open>Diff\<close>

definition l2tp_base :: path where
  "l2tp_base = [''vpn'', ''l2tp'', ''remote-access'']"

definition l2tp_fields :: "l2tp_general \<Rightarrow> l2tp_general \<Rightarrow> field list" where
  "l2tp_fields live u =
     [Leaf [''outside-address''] (lg_outside_address live) (blank_to_none (lg_outside_address u)),
      Leaf [''gateway-address''] (lg_gateway_address live) (blank_to_none (lg_gateway_address u)),
      Multi [''name-server''] (lg_name_servers live) (clean (lg_name_servers u)),
      Leaf [''mtu''] (numStr (lg_mtu live)) (numStr (lg_mtu u)),
      Leaf [''authentication'', ''mode''] (lg_auth_mode live) (blank_to_none (lg_auth_mode u)),
      Multi [''authentication'', ''protocols''] (lg_auth_protocols live) (clean (lg_auth_protocols u)),
      Leaf [''default-pool''] (lg_default_pool live) (blank_to_none (lg_default_pool u)),
      Leaf [''ipsec-settings'', ''authentication'', ''mode''] (lg_ipsec_auth_mode live) (blank_to_none (lg_ipsec_auth_mode u)),
      Leaf [''ipsec-settings'', ''authentication'', ''pre-shared-secret''] (lg_ipsec_pre_shared_secret live)
        (blank_to_none (lg_ipsec_pre_shared_secret u))]"

definition diffL2tpGeneral :: "l2tp_general \<Rightarrow> l2tp_general \<Rightarrow> vyos_command list" where
  "diffL2tpGeneral live u = form_cmds l2tp_base (l2tp_fields live u)"

definition l2tp_user_base :: "string \<Rightarrow> path" where
  "l2tp_user_base name = l2tp_base @ [''authentication'', ''local-users'', ''username'', name]"

definition l2tp_user_fields :: "l2tp_user option \<Rightarrow> l2tp_user \<Rightarrow> field list" where
  "l2tp_user_fields live u =
     [Leaf [''password''] (Option.bind live lu_password) (blank_to_none (lu_password u)),
      Leaf [''static-ip''] (Option.bind live lu_static_ip) (blank_to_none (lu_static_ip u)),
      Flag [''disable''] (case live of None \<Rightarrow> False | Some l \<Rightarrow> lu_disabled l) (lu_disabled u)]"

definition diffL2tpUser :: "l2tp_user option \<Rightarrow> l2tp_user \<Rightarrow> vyos_command list" where
  "diffL2tpUser live u = ensured_item l2tp_user_base l2tp_user_fields (lu_username u) live u"

definition deleteL2tpUser_cmds :: "string \<Rightarrow> vyos_command list" where
  "deleteL2tpUser_cmds username = [cdel (l2tp_user_base username)]"

definition l2tp_pool_base :: "string \<Rightarrow> path" where
  "l2tp_pool_base name = l2tp_base @ [''client-ip-pool'', name]"

definition l2tp_pool_fields :: "l2tp_pool option \<Rightarrow> l2tp_pool \<Rightarrow> field list" where
  "l2tp_pool_fields live u = [Leaf [''range''] (Option.bind live lp_range) (blank_to_none (lp_range u))]"

definition diffL2tpPool :: "l2tp_pool option \<Rightarrow> l2tp_pool \<Rightarrow> vyos_command list" where
  "diffL2tpPool live u = ensured_item l2tp_pool_base l2tp_pool_fields (lp_name u) live u"

definition deleteL2tpPool_cmds :: "string \<Rightarrow> vyos_command list" where
  "deleteL2tpPool_cmds name = [cdel (l2tp_pool_base name)]"

definition l2tp_radius_base :: "string \<Rightarrow> path" where
  "l2tp_radius_base address = l2tp_base @ [''authentication'', ''radius'', ''server'', address]"

definition l2tp_radius_fields :: "l2tp_radius option \<Rightarrow> l2tp_radius \<Rightarrow> field list" where
  "l2tp_radius_fields live u =
     [Leaf [''key''] (Option.bind live lr_key) (blank_to_none (lr_key u)),
      Leaf [''port''] (numStr (Option.bind live lr_port)) (numStr (lr_port u)),
      Flag [''disable''] (case live of None \<Rightarrow> False | Some l \<Rightarrow> lr_disabled l) (lr_disabled u)]"

definition diffL2tpRadius :: "l2tp_radius option \<Rightarrow> l2tp_radius \<Rightarrow> vyos_command list" where
  "diffL2tpRadius live u = ensured_item l2tp_radius_base l2tp_radius_fields (lr_address u) live u"

definition deleteL2tpRadius_cmds :: "string \<Rightarrow> vyos_command list" where
  "deleteL2tpRadius_cmds address = [cdel (l2tp_radius_base address)]"

section \<open>What a save does\<close>

definition l2tp_schema :: "(path \<Rightarrow> bool) \<Rightarrow> bool" where
  "l2tp_schema single \<longleftrightarrow> (\<forall>f\<in>set (l2tp_fields emptyL2tpGeneral emptyL2tpGeneral). field_schema single l2tp_base f) \<and>
     (\<forall>n. (\<forall>f\<in>set (l2tp_user_fields None emptyL2tpUser). field_schema single (l2tp_user_base n) f) \<and>
        (\<forall>f\<in>set (l2tp_pool_fields None emptyL2tpPool). field_schema single (l2tp_pool_base n) f) \<and>
        (\<forall>f\<in>set (l2tp_radius_fields None emptyL2tpRadius). field_schema single (l2tp_radius_base n) f) \<and>
        \<not> single (butlast (l2tp_user_base n)) \<and> \<not> single (butlast (l2tp_pool_base n)) \<and> \<not> single (butlast (l2tp_radius_base n)))"

interpretation l2tp_users: child_forms l2tp_schema "\<lambda>_ :: unit. l2tp_base @ [''authentication'', ''local-users'', ''username'']"
  "\<lambda>_. l2tp_user_base" l2tp_user_fields
  by unfold_locales (auto simp: l2tp_user_base_def l2tp_user_fields_def apart_fields_def form_defs l2tp_schema_def cone_disjoint_iff
    butlast_append)

interpretation l2tp_pools: child_forms l2tp_schema "\<lambda>_ :: unit. l2tp_base @ [''client-ip-pool'']"
  "\<lambda>_. l2tp_pool_base" l2tp_pool_fields
  by unfold_locales (auto simp: l2tp_pool_base_def l2tp_pool_fields_def apart_fields_def form_defs l2tp_schema_def cone_disjoint_iff
    butlast_append)

interpretation l2tp_servers: child_forms l2tp_schema "\<lambda>_ :: unit. l2tp_base @ [''authentication'', ''radius'', ''server'']"
  "\<lambda>_. l2tp_radius_base" l2tp_radius_fields
  by unfold_locales (auto simp: l2tp_radius_base_def l2tp_radius_fields_def apart_fields_def form_defs l2tp_schema_def cone_disjoint_iff
    butlast_append numStr_def)

text \<open>
  The server-wide settings, a user, a pool and a RADIUS server: each save gives the leaves of the form, a
  new entry that asks for nothing is still created, and nothing else on the device changes.
\<close>

theorem l2tp_general_save:
  assumes "device_laws dev single" and "l2tp_schema single"
    and "S \<inter> form_region l2tp_base (l2tp_fields live live) = form_live l2tp_base (l2tp_fields live live)"
  shows "run dev (diffL2tpGeneral live u) S =
    (S - form_region l2tp_base (l2tp_fields live live)) \<union> form_desired l2tp_base (l2tp_fields live u)"
proof -
  have "\<forall>f\<in>set (l2tp_fields live u). field_schema single l2tp_base f" "apart_fields (l2tp_fields live u)"
    using assms(2) by (simp_all add: l2tp_schema_def l2tp_fields_def apart_fields_def)
  moreover have "form_region l2tp_base (l2tp_fields live u) = form_region l2tp_base (l2tp_fields live live)"
      "form_live l2tp_base (l2tp_fields live u) = form_live l2tp_base (l2tp_fields live live)"
    by (simp_all add: form_defs l2tp_fields_def)
  ultimately show ?thesis
    using edits_run [OF edits_form [OF assms(1), of "l2tp_fields live u" l2tp_base]] assms(3) by (simp add: diffL2tpGeneral_def)
qed

theorem l2tp_user_save:
  assumes "device_laws dev single" and "l2tp_schema single" and "b = l2tp_user_base (lu_username u)"
    and "S \<inter> form_region b (l2tp_user_fields None u) = (case live of None \<Rightarrow> {} | Some l \<Rightarrow> form_live b (l2tp_user_fields (Some l) l))"
  shows "run dev (diffL2tpUser live u) S =
    (S - form_region b (l2tp_user_fields None u)) \<union> form_desired b (l2tp_user_fields None u) \<union>
    (if live = None \<and> form_desired b (l2tp_user_fields None u) = {} then {b} else {})"
  unfolding diffL2tpUser_def l2tp_users.ensured_created assms(3) [symmetric]
  by (rule l2tp_users.ensured_run [OF assms(1-3) _ assms(4)]) (simp add: l2tp_user_fields_def)

theorem l2tp_pool_save:
  assumes "device_laws dev single" and "l2tp_schema single" and "b = l2tp_pool_base (lp_name u)"
    and "S \<inter> form_region b (l2tp_pool_fields None u) = (case live of None \<Rightarrow> {} | Some l \<Rightarrow> form_live b (l2tp_pool_fields (Some l) l))"
  shows "run dev (diffL2tpPool live u) S =
    (S - form_region b (l2tp_pool_fields None u)) \<union> form_desired b (l2tp_pool_fields None u) \<union>
    (if live = None \<and> form_desired b (l2tp_pool_fields None u) = {} then {b} else {})"
  unfolding diffL2tpPool_def l2tp_pools.ensured_created assms(3) [symmetric]
  by (rule l2tp_pools.ensured_run [OF assms(1-3) _ assms(4)]) (simp add: l2tp_pool_fields_def)

theorem l2tp_radius_save:
  assumes "device_laws dev single" and "l2tp_schema single" and "b = l2tp_radius_base (lr_address u)"
    and "S \<inter> form_region b (l2tp_radius_fields None u) = (case live of None \<Rightarrow> {} | Some l \<Rightarrow> form_live b (l2tp_radius_fields (Some l) l))"
  shows "run dev (diffL2tpRadius live u) S =
    (S - form_region b (l2tp_radius_fields None u)) \<union> form_desired b (l2tp_radius_fields None u) \<union>
    (if live = None \<and> form_desired b (l2tp_radius_fields None u) = {} then {b} else {})"
  unfolding diffL2tpRadius_def l2tp_servers.ensured_created assms(3) [symmetric]
  by (rule l2tp_servers.ensured_run [OF assms(1-3) _ assms(4)]) (simp add: l2tp_radius_fields_def)

end
