(* ===== verification/Openvpn.thy ===== *)
theory Openvpn
  imports Child_Forms
begin

text \<open>
  OpenVPN interfaces: \<open>lib/openvpn.ts\<close>. An interface runs in one of three modes, and which leaves have a
  meaning depends on the mode; a change of the mode first drops the nodes of the old one. A mode is
  the string that the device reports, as in the source, where the type of the mode is only asserted.
\<close>

section \<open>Model\<close>

definition OPENVPN_MODES :: "string list" where
  "OPENVPN_MODES = [''site-to-site'', ''client'', ''server'']"

record openvpn_interface =
  ov_name :: string
  ov_mode :: string
  ov_description :: "string option"
  ov_device_type :: "string option"
  ov_protocol :: "string option"
  ov_local_host :: "string option"
  ov_local_port :: "int option"
  ov_persistent_tunnel :: bool
  ov_enabled :: bool
  ov_encryption_cipher :: "string option"
  ov_hash :: "string option"
  ov_tls_ca_certificate :: "string option"
  ov_tls_certificate :: "string option"
  ov_tls_dh_params :: "string option"
  ov_tls_role :: "string option"
  ov_local_address :: "string option"
  ov_remote_address :: "string option"
  ov_shared_secret_key :: "string option"
  ov_remote_host :: "string option"
  ov_remote_port :: "int option"
  ov_auth_username :: "string option"
  ov_auth_password :: "string option"
  ov_server_subnet :: "string option"
  ov_server_topology :: "string option"
  ov_server_push_routes :: "string list"
  ov_server_name_servers :: "string list"
  ov_server_max_connections :: "int option"
  ov_options :: "string list"

definition emptyOpenvpn :: openvpn_interface where
  "emptyOpenvpn = \<lparr>ov_name = [], ov_mode = ''site-to-site'', ov_description = None, ov_device_type = None, ov_protocol = None,
     ov_local_host = None, ov_local_port = None, ov_persistent_tunnel = False, ov_enabled = True,
     ov_encryption_cipher = None, ov_hash = None, ov_tls_ca_certificate = None, ov_tls_certificate = None,
     ov_tls_dh_params = None, ov_tls_role = None, ov_local_address = None, ov_remote_address = None,
     ov_shared_secret_key = None, ov_remote_host = None, ov_remote_port = None, ov_auth_username = None,
     ov_auth_password = None, ov_server_subnet = None, ov_server_topology = None, ov_server_push_routes = [],
     ov_server_name_servers = [], ov_server_max_connections = None, ov_options = []\<rparr>"

section \<open>Reader\<close>

definition parse_openvpn :: "string \<times> json \<Rightarrow> read_error + openvpn_interface" where
  "parse_openvpn e = (let raw = or_empty (snd e); enc = obj_or_empty (childCfg raw ''encryption'');
       tls = obj_or_empty (childCfg raw ''tls''); server = obj_or_empty (childCfg raw ''server'');
       auth = obj_or_empty (childCfg raw ''authentication'') in
     case has_key ''persistent-tunnel'' raw of Inl err \<Rightarrow> Inl err | Inr persistent \<Rightarrow>
     (case has_key ''disable'' raw of Inl err \<Rightarrow> Inl err | Inr disabled \<Rightarrow>
      Inr \<lparr>ov_name = fst e, ov_mode = (case childStr raw ''mode'' of None \<Rightarrow> ''site-to-site'' | Some m \<Rightarrow> m),
        ov_description = childStr raw ''description'', ov_device_type = childStr raw ''device-type'',
        ov_protocol = childStr raw ''protocol'', ov_local_host = childStr raw ''local-host'',
        ov_local_port = childNum raw ''local-port'', ov_persistent_tunnel = persistent, ov_enabled = (\<not> disabled),
        ov_encryption_cipher = childStr enc ''cipher'', ov_hash = childStr raw ''hash'',
        ov_tls_ca_certificate = childStr tls ''ca-certificate'', ov_tls_certificate = childStr tls ''certificate'',
        ov_tls_dh_params = childStr tls ''dh-params'', ov_tls_role = childStr tls ''role'',
        ov_local_address = childStr raw ''local-address'', ov_remote_address = childStr raw ''remote-address'',
        ov_shared_secret_key = childStr raw ''shared-secret-key'', ov_remote_host = childStr raw ''remote-host'',
        ov_remote_port = childNum raw ''remote-port'', ov_auth_username = childStr auth ''username'',
        ov_auth_password = childStr auth ''password'', ov_server_subnet = childStr server ''subnet'',
        ov_server_topology = childStr server ''topology'',
        ov_server_push_routes = sort_by str_cmp (childList server ''push-route''),
        ov_server_name_servers = sort_by str_cmp (childList server ''name-server''),
        ov_server_max_connections = childNum server ''max-connections'', ov_options = childList raw ''openvpn-option''\<rparr>))"

definition fetchOpenvpn :: "(string \<Rightarrow> string \<Rightarrow> int) \<Rightarrow> vyos_response \<Rightarrow> read_error + openvpn_interface list" where
  "fetchOpenvpn lc resp = (case config_of_response ''Device returned an error reading OpenVPN configuration.'' resp of
     Inl e \<Rightarrow> Inl e
   | Inr node \<Rightarrow> (case map_res parse_openvpn (obj_entries node) of Inl e \<Rightarrow> Inl e
       | Inr rows \<Rightarrow> Inr (sort_by (\<lambda>a b. lc (ov_name a) (ov_name b)) rows)))"

section \<open>Diff\<close>

definition openvpn_base :: "string \<Rightarrow> path" where
  "openvpn_base name = [''interfaces'', ''openvpn'', name]"

definition MODE_NODES :: "string \<Rightarrow> string list option" where
  "MODE_NODES mode = map_of [(''site-to-site'', [''local-address'', ''remote-address'', ''shared-secret-key'']),
     (''client'', [''remote-host'', ''remote-port'', ''authentication'']), (''server'', [''server''])] mode"

text \<open>Iterating over the nodes of a mode that the table does not have throws.\<close>

definition purge_cmds :: "openvpn_interface option \<Rightarrow> openvpn_interface \<Rightarrow> read_error + vyos_command list" where
  "purge_cmds live u = (case live of None \<Rightarrow> Inr [] | Some l \<Rightarrow>
     if ov_mode l = ov_mode u then Inr [] else
     (case MODE_NODES (ov_mode l) of None \<Rightarrow> Inl TypeError
      | Some nodes \<Rightarrow> Inr (map (\<lambda>n. cdel (openvpn_base (ov_name u) @ [n])) nodes @
          (if ov_mode l = ''site-to-site'' \<and> ov_tls_role l \<notin> {None, Some ''''} then [cdel (openvpn_base (ov_name u) @ [''tls'', ''role''])] else []))))"

definition openvpn_fields :: "openvpn_interface option \<Rightarrow> openvpn_interface \<Rightarrow> field list" where
  "openvpn_fields live u =
     [Leaf [''mode''] (map_option ov_mode live) (blank_to_none (Some (ov_mode u))),
      Leaf [''description''] (Option.bind live ov_description) (blank_to_none (ov_description u)),
      Leaf [''device-type''] (Option.bind live ov_device_type) (blank_to_none (ov_device_type u)),
      Leaf [''protocol''] (Option.bind live ov_protocol) (blank_to_none (ov_protocol u)),
      Leaf [''local-host''] (Option.bind live ov_local_host) (blank_to_none (ov_local_host u)),
      Leaf [''local-port''] (numStr (Option.bind live ov_local_port)) (numStr (ov_local_port u)),
      Flag [''persistent-tunnel''] (case live of None \<Rightarrow> False | Some l \<Rightarrow> ov_persistent_tunnel l) (ov_persistent_tunnel u),
      Flag [''disable''] (case live of None \<Rightarrow> False | Some l \<Rightarrow> \<not> ov_enabled l) (\<not> ov_enabled u),
      Leaf [''encryption'', ''cipher''] (Option.bind live ov_encryption_cipher) (blank_to_none (ov_encryption_cipher u)),
      Leaf [''hash''] (Option.bind live ov_hash) (blank_to_none (ov_hash u)),
      Leaf [''tls'', ''ca-certificate''] (Option.bind live ov_tls_ca_certificate) (blank_to_none (ov_tls_ca_certificate u)),
      Leaf [''tls'', ''certificate''] (Option.bind live ov_tls_certificate) (blank_to_none (ov_tls_certificate u)),
      Leaf [''tls'', ''dh-params''] (Option.bind live ov_tls_dh_params) (blank_to_none (ov_tls_dh_params u))]"

text \<open>
  The leaves of a mode, in the order of the source: those before the leaf for the remote host, the
  remote host (not in server mode), those after it. \<open>live\<close> is the live interface when its mode is the
  same.
\<close>

definition mode_fields1 :: "string \<Rightarrow> openvpn_interface option \<Rightarrow> openvpn_interface \<Rightarrow> field list" where
  "mode_fields1 mode live u =
     (if mode = ''site-to-site'' then
        [Leaf [''local-address''] (Option.bind live ov_local_address) (blank_to_none (ov_local_address u)),
         Leaf [''remote-address''] (Option.bind live ov_remote_address) (blank_to_none (ov_remote_address u))]
      else if mode = ''client'' then []
      else
        [Leaf [''server'', ''subnet''] (Option.bind live ov_server_subnet) (blank_to_none (ov_server_subnet u)),
         Leaf [''server'', ''topology''] (Option.bind live ov_server_topology) (blank_to_none (ov_server_topology u)),
         Leaf [''server'', ''max-connections''] (numStr (Option.bind live ov_server_max_connections)) (numStr (ov_server_max_connections u)),
         Multi [''server'', ''push-route''] (case live of None \<Rightarrow> [] | Some l \<Rightarrow> ov_server_push_routes l) (clean (ov_server_push_routes u)),
         Multi [''server'', ''name-server''] (case live of None \<Rightarrow> [] | Some l \<Rightarrow> ov_server_name_servers l) (clean (ov_server_name_servers u))])"

definition has_host :: "string \<Rightarrow> bool" where
  "has_host mode \<longleftrightarrow> mode = ''site-to-site'' \<or> mode = ''client''"

definition host_cmds :: "string \<Rightarrow> openvpn_interface option \<Rightarrow> openvpn_interface \<Rightarrow> vyos_command list" where
  "host_cmds mode live u = (if has_host mode
     then leaf_cmds (openvpn_base (ov_name u) @ [''remote-host'']) (Option.bind live ov_remote_host) (blank_to_none (ov_remote_host u))
     else [])"

definition mode_fields2 :: "string \<Rightarrow> openvpn_interface option \<Rightarrow> openvpn_interface \<Rightarrow> field list" where
  "mode_fields2 mode live u =
     (if mode = ''site-to-site'' then
        [Leaf [''shared-secret-key''] (Option.bind live ov_shared_secret_key) (blank_to_none (ov_shared_secret_key u)),
         Leaf [''tls'', ''role''] (Option.bind live ov_tls_role) (blank_to_none (ov_tls_role u))]
      else if mode = ''client'' then
        [Leaf [''remote-port''] (numStr (Option.bind live ov_remote_port)) (numStr (ov_remote_port u)),
         Leaf [''authentication'', ''username''] (Option.bind live ov_auth_username) (blank_to_none (ov_auth_username u)),
         Leaf [''authentication'', ''password''] (Option.bind live ov_auth_password) (blank_to_none (ov_auth_password u))]
      else [])"

definition option_fields :: "openvpn_interface option \<Rightarrow> openvpn_interface \<Rightarrow> field list" where
  "option_fields live u = [Multi [''openvpn-option''] (case live of None \<Rightarrow> [] | Some l \<Rightarrow> ov_options l) (clean (ov_options u))]"

definition same_mode :: "openvpn_interface option \<Rightarrow> openvpn_interface \<Rightarrow> openvpn_interface option" where
  "same_mode live u = (case live of None \<Rightarrow> None | Some l \<Rightarrow> if ov_mode l = ov_mode u then Some l else None)"

definition openvpn_cmds :: "openvpn_interface option \<Rightarrow> openvpn_interface \<Rightarrow> vyos_command list" where
  "openvpn_cmds live u = (let base = openvpn_base (ov_name u); l = same_mode live u in
     form_cmds base (openvpn_fields live u) @ form_cmds base (mode_fields1 (ov_mode u) l u) @ host_cmds (ov_mode u) l u @
     form_cmds base (mode_fields2 (ov_mode u) l u) @ form_cmds base (option_fields live u))"

definition diffOpenvpn :: "openvpn_interface option \<Rightarrow> openvpn_interface \<Rightarrow> read_error + vyos_command list" where
  "diffOpenvpn live u = (case purge_cmds live u of Inl e \<Rightarrow> Inl e
     | Inr purge \<Rightarrow> Inr (ensureCreated (purge @ openvpn_cmds live u) (openvpn_base (ov_name u)) (live = None)))"

definition deleteOpenvpn_cmds :: "string \<Rightarrow> vyos_command list" where
  "deleteOpenvpn_cmds name = [cdel (openvpn_base name)]"

section \<open>What a save does\<close>

definition host_path :: "path \<Rightarrow> path" where
  "host_path base = base @ [''remote-host'']"

text \<open>What the device holds for an interface that has only the leaves of its mode.\<close>

definition openvpn_before :: "path \<Rightarrow> openvpn_interface \<Rightarrow> path set" where
  "openvpn_before base l = form_live base (openvpn_fields (Some l) l) \<union> form_live base (mode_fields1 (ov_mode l) (Some l) l) \<union>
     leaf_paths (host_path base) (if has_host (ov_mode l) then ov_remote_host l else None) \<union>
     form_live base (mode_fields2 (ov_mode l) (Some l) l) \<union> form_live base (option_fields (Some l) l)"

text \<open>What the form asks for.\<close>

definition openvpn_asked :: "path \<Rightarrow> openvpn_interface \<Rightarrow> path set" where
  "openvpn_asked base u = form_desired base (openvpn_fields None u) \<union> form_desired base (mode_fields1 (ov_mode u) None u) \<union>
     leaf_paths (host_path base) (if has_host (ov_mode u) then blank_to_none (ov_remote_host u) else None) \<union>
     form_desired base (mode_fields2 (ov_mode u) None u) \<union> form_desired base (option_fields None u)"

text \<open>
  What is left over: \<open>remote-host\<close> belongs to two modes but is dropped only when a client stops being one,
  and it is not compared with the live value across a change of the mode.
\<close>

definition stale_host :: "openvpn_interface option \<Rightarrow> openvpn_interface \<Rightarrow> string option" where
  "stale_host live u = (case live of None \<Rightarrow> None | Some l \<Rightarrow>
     if ov_mode l = ''site-to-site'' \<and> ov_mode u \<noteq> ''site-to-site'' \<and>
        (if has_host (ov_mode u) then blank_to_none (ov_remote_host u) = None else True)
     then ov_remote_host l else None)"

definition openvpn_schema :: "(path \<Rightarrow> bool) \<Rightarrow> bool" where
  "openvpn_schema single \<longleftrightarrow> (\<forall>name. let base = openvpn_base name in
     (\<forall>f\<in>set (openvpn_fields None emptyOpenvpn @ option_fields None emptyOpenvpn). field_schema single base f) \<and>
     (\<forall>m\<in>set OPENVPN_MODES. \<forall>f\<in>set (mode_fields1 m None emptyOpenvpn @ mode_fields2 m None emptyOpenvpn). field_schema single base f) \<and>
     single (host_path base) \<and> \<not> single (butlast base))"

lemmas openvpn_field_defs = openvpn_fields_def mode_fields1_def mode_fields2_def option_fields_def

lemma openvpn_form_facts:
  assumes "openvpn_schema single"
  shows "\<forall>f\<in>set (openvpn_fields live u). field_schema single (openvpn_base n) f"
    and "\<forall>f\<in>set (option_fields live u). field_schema single (openvpn_base n) f"
    and "m \<in> set OPENVPN_MODES \<Longrightarrow> \<forall>f\<in>set (mode_fields1 m live u). field_schema single (openvpn_base n) f"
    and "m \<in> set OPENVPN_MODES \<Longrightarrow> \<forall>f\<in>set (mode_fields2 m live u). field_schema single (openvpn_base n) f"
proof -
  note a = assms [unfolded openvpn_schema_def, rule_format, of n, unfolded Let_def]
  show "\<forall>f\<in>set (openvpn_fields live u). field_schema single (openvpn_base n) f"
      "\<forall>f\<in>set (option_fields live u). field_schema single (openvpn_base n) f"
    using a by (simp_all add: openvpn_fields_def option_fields_def)
  assume m: "m \<in> set OPENVPN_MODES"
  have one: "\<forall>f\<in>set (mode_fields1 m None emptyOpenvpn). field_schema single (openvpn_base n) f"
    and two: "\<forall>f\<in>set (mode_fields2 m None emptyOpenvpn). field_schema single (openvpn_base n) f"
    using a m by simp_all
  show "\<forall>f\<in>set (mode_fields1 m live u). field_schema single (openvpn_base n) f"
    using one by (cases "m = ''site-to-site''"; cases "m = ''client''"; simp add: mode_fields1_def)
  show "\<forall>f\<in>set (mode_fields2 m live u). field_schema single (openvpn_base n) f"
    using two by (cases "m = ''site-to-site''"; cases "m = ''client''"; simp add: mode_fields2_def)
qed

lemma openvpn_fields_apart:
  "apart_fields (openvpn_fields live u)" "apart_fields (mode_fields1 m live u)" "apart_fields (mode_fields2 m live u)"
  "apart_fields (option_fields live u)"
  by (simp_all add: openvpn_field_defs apart_fields_def)

lemma openvpn_desired_only:
  "form_desired b (openvpn_fields live u) = form_desired b (openvpn_fields None u)"
  "form_desired b (mode_fields1 m live u) = form_desired b (mode_fields1 m None u)"
  "form_desired b (mode_fields2 m live u) = form_desired b (mode_fields2 m None u)"
  "form_desired b (option_fields live u) = form_desired b (option_fields None u)"
  by (simp_all add: form_desired_def openvpn_fields_def option_fields_def)
    (cases "m = ''site-to-site''"; cases "m = ''client''"; simp add: mode_fields1_def mode_fields2_def)+

lemma openvpn_live_only:
  "form_live b (openvpn_fields (Some l) u) = form_live b (openvpn_fields (Some l) l)"
  "form_live b (mode_fields1 m (Some l) u) = form_live b (mode_fields1 m (Some l) l)"
  "form_live b (mode_fields2 m (Some l) u) = form_live b (mode_fields2 m (Some l) l)"
  "form_live b (option_fields (Some l) u) = form_live b (option_fields (Some l) l)"
  by (simp_all add: form_live_def openvpn_fields_def option_fields_def)
    (cases "m = ''site-to-site''"; cases "m = ''client''"; simp add: mode_fields1_def mode_fields2_def)+

lemma openvpn_new_live [simp]:
  "form_live b (openvpn_fields None u) = {}" "form_live b (mode_fields1 m None u) = {}"
  "form_live b (mode_fields2 m None u) = {}" "form_live b (option_fields None u) = {}"
  by (simp_all add: form_live_def openvpn_fields_def option_fields_def numStr_def)
    (cases "m = ''site-to-site''"; cases "m = ''client''"; simp add: mode_fields1_def mode_fields2_def numStr_def)+

text \<open>The remote host, when the live value of another mode may be there.\<close>

definition host_after :: "openvpn_interface option \<Rightarrow> openvpn_interface \<Rightarrow> string option \<Rightarrow> string option" where
  "host_after live u old = (if has_host (ov_mode u) \<and> (same_mode live u \<noteq> None \<or> blank_to_none (ov_remote_host u) \<noteq> None)
     then blank_to_none (ov_remote_host u) else old)"

lemma edits_host:
  assumes dev: "device_laws dev single" and sch: "openvpn_schema single"
    and old: "\<And>l. same_mode live u = Some l \<Longrightarrow> has_host (ov_mode u) \<Longrightarrow> old = ov_remote_host l"
    and p: "p = host_path (openvpn_base (ov_name u))"
  shows "edits dev (cone p) (host_cmds (ov_mode u) (same_mode live u) u) (leaf_paths p old) (leaf_paths p (host_after live u old))"
proof -
  let ?d = "blank_to_none (ov_remote_host u)" and ?l = "same_mode live u"
  have single: "single p" using sch by (simp add: openvpn_schema_def p Let_def)
  consider "\<not> has_host (ov_mode u)" | l where "has_host (ov_mode u)" "?l = Some l" | "has_host (ov_mode u)" "?l = None" "?d = None"
    | d where "has_host (ov_mode u)" "?l = None" "?d = Some d" by fastforce
  then show ?thesis
  proof cases
    case 1
    then show ?thesis by (simp add: host_cmds_def host_after_def edits_nil leaf_paths_cone)
  next
    case (2 l)
    then show ?thesis using old [OF 2(2,1)] edits_leaf [OF dev single, of old ?d]
      by (simp add: host_cmds_def host_after_def p host_path_def)
  next
    case 3
    then show ?thesis by (simp add: host_cmds_def host_after_def edits_nil leaf_paths_cone)
  next
    case (4 d)
    have "edits dev (cone p) [cset (p @ [d])] (leaf_paths p old) (leaf_paths p (Some d))"
      by (rule editsI) (auto simp: dev_set_single [OF dev] single leaf_paths_def split: option.splits)
    then show ?thesis using 4 by (simp add: host_cmds_def host_after_def leaf_cmds_def p host_path_def)
  qed
qed

text \<open>The commands after the purge, from what the purge leaves.\<close>

definition after_purge :: "path \<Rightarrow> openvpn_interface option \<Rightarrow> openvpn_interface \<Rightarrow> string option \<Rightarrow> path set" where
  "after_purge base live u old = form_live base (openvpn_fields live u) \<union>
     form_live base (mode_fields1 (ov_mode u) (same_mode live u) u) \<union> leaf_paths (host_path base) old \<union>
     form_live base (mode_fields2 (ov_mode u) (same_mode live u) u) \<union> form_live base (option_fields live u)"

definition openvpn_result :: "path \<Rightarrow> openvpn_interface option \<Rightarrow> openvpn_interface \<Rightarrow> string option \<Rightarrow> path set" where
  "openvpn_result base live u old = form_desired base (openvpn_fields None u) \<union> form_desired base (mode_fields1 (ov_mode u) None u) \<union>
     leaf_paths (host_path base) (host_after live u old) \<union>
     form_desired base (mode_fields2 (ov_mode u) None u) \<union> form_desired base (option_fields None u)"

lemma openvpn_cmds_edits:
  assumes dev: "device_laws dev single" and sch: "openvpn_schema single" and mode: "ov_mode u \<in> set OPENVPN_MODES"
    and old: "\<And>l. same_mode live u = Some l \<Longrightarrow> has_host (ov_mode u) \<Longrightarrow> old = ov_remote_host l"
    and b: "b = openvpn_base (ov_name u)"
  shows "edits dev (cone b) (openvpn_cmds live u) (after_purge b live u old) (openvpn_result b live u old)"
proof -
  let ?l = "same_mode live u" and ?m = "ov_mode u"
  let ?segs = "[form_seg b (openvpn_fields live u), form_seg b (mode_fields1 ?m ?l u),
    (cone (host_path b), host_cmds ?m ?l u, leaf_paths (host_path b) old, leaf_paths (host_path b) (host_after live u old)),
    form_seg b (mode_fields2 ?m ?l u), form_seg b (option_fields live u)]"
  note f = openvpn_form_facts [OF sch, where u = u and n = "ov_name u", folded b]
  have host: "edits dev (cone (host_path b)) (host_cmds ?m ?l u) (leaf_paths (host_path b) old) (leaf_paths (host_path b) (host_after live u old))"
    using b by (intro edits_host [OF dev sch old]) simp_all
  have ok: "\<forall>x\<in>set ?segs. seg_ok dev x"
    using form_seg_ok [OF dev f(1) openvpn_fields_apart(1), of live] form_seg_ok [OF dev f(2) openvpn_fields_apart(4), of live]
      form_seg_ok [OF dev f(3) [OF mode] openvpn_fields_apart(2), of ?l] form_seg_ok [OF dev f(4) [OF mode] openvpn_fields_apart(3), of ?l] host
    by simp
  have disj: "sorted_wrt (\<lambda>x y. fst x \<inter> fst y = {}) ?segs"
    by (simp add: form_seg_def form_regions_apart form_region_apart openvpn_field_defs host_path_def)
  have "seg_region ?segs \<subseteq> cone b"
    using form_region_cone cone_append_subset [of b "[''remote-host'']"] by (simp add: seg_region_def form_seg_def host_path_def)
  from edits_widen [OF edits_segments [OF ok disj] this] show ?thesis
    unfolding openvpn_result_def openvpn_desired_only(1) [of b live u, symmetric] openvpn_desired_only(2) [of b ?m ?l u, symmetric]
      openvpn_desired_only(3) [of b ?m ?l u, symmetric] openvpn_desired_only(4) [of b live u, symmetric]
    by (simp add: seg_cmds_def seg_before_def seg_after_def form_seg_def openvpn_cmds_def after_purge_def b Let_def Un_assoc)
qed

text \<open>What the purge leaves of the live interface.\<close>

definition host_before :: "openvpn_interface option \<Rightarrow> openvpn_interface \<Rightarrow> string option" where
  "host_before live u = (case live of None \<Rightarrow> None | Some l \<Rightarrow>
     if ov_mode l = ''site-to-site'' \<or> (ov_mode l = ''client'' \<and> ov_mode u = ''client'') then ov_remote_host l else None)"

definition purged :: "path \<Rightarrow> string list \<Rightarrow> openvpn_interface \<Rightarrow> path set" where
  "purged b nodes l = (\<Union>p\<in>set (map (\<lambda>n. [n]) nodes @
     (if ov_mode l = ''site-to-site'' \<and> ov_tls_role l \<notin> {None, Some ''''} then [[''tls'', ''role'']] else [])). cone (b @ p))"

lemma mode_cases:
  assumes "m \<in> set OPENVPN_MODES" and "MODE_NODES m = Some nodes"
  obtains "m = ''site-to-site''" "nodes = [''local-address'', ''remote-address'', ''shared-secret-key'']"
    | "m = ''client''" "nodes = [''remote-host'', ''remote-port'', ''authentication'']" | "m = ''server''" "nodes = [''server'']"
  using assms by (auto simp: OPENVPN_MODES_def MODE_NODES_def)

lemma purged_mode_nodes:
  "m = ''site-to-site'' \<Longrightarrow> ov_mode l = m \<Longrightarrow> purged b [''local-address'', ''remote-address'', ''shared-secret-key''] l =
     cone (b @ [''local-address'']) \<union> cone (b @ [''remote-address'']) \<union> cone (b @ [''shared-secret-key'']) \<union>
     (if ov_tls_role l \<notin> {None, Some ''''} then cone (b @ [''tls'', ''role'']) else {})"
  "m = ''client'' \<Longrightarrow> ov_mode l = m \<Longrightarrow> purged b [''remote-host'', ''remote-port'', ''authentication''] l =
     cone (b @ [''remote-host'']) \<union> cone (b @ [''remote-port'']) \<union> cone (b @ [''authentication''])"
  "m = ''server'' \<Longrightarrow> ov_mode l = m \<Longrightarrow> purged b [''server''] l = cone (b @ [''server''])"
  by (auto simp: purged_def)

lemma leaf_paths_below: "leaf_paths (b @ x # xs) v \<subseteq> cone (b @ [x])"
  using leaf_paths_cone [of "b @ x # xs" v] cone_append_subset [of "b @ [x]" xs] by fastforce

lemma list_paths_below: "list_paths (b @ x # xs) vs \<subseteq> cone (b @ [x])"
  using list_paths_cone [of "b @ x # xs" vs] cone_append_subset [of "b @ [x]" xs] by fastforce

lemma leaf_paths_none: "v = None \<Longrightarrow> leaf_paths p v = {}"
  by simp

lemma purge_common:
  assumes "ov_mode l \<in> set OPENVPN_MODES" and "MODE_NODES (ov_mode l) = Some nodes"
  shows "form_region b (openvpn_fields (Some l) l) \<inter> purged b nodes l = {}"
    and "form_region b (option_fields (Some l) l) \<inter> purged b nodes l = {}"
  using assms by (cases rule: mode_cases; simp add: purged_mode_nodes form_region_apart openvpn_fields_def option_fields_def Int_Un_distrib)+

lemma purge_own:
  assumes "ov_mode l \<in> set OPENVPN_MODES" and "MODE_NODES (ov_mode l) = Some nodes" and "ov_tls_role l \<noteq> Some ''''"
  shows "form_live b (mode_fields1 (ov_mode l) (Some l) l) \<subseteq> purged b nodes l"
    and "form_live b (mode_fields2 (ov_mode l) (Some l) l) \<subseteq> purged b nodes l"
proof -
  have role: "leaf_paths (b @ [''tls'', ''role'']) (ov_tls_role l) \<subseteq> (if ov_tls_role l \<notin> {None, Some ''''} then cone (b @ [''tls'', ''role'']) else {})"
    using leaf_paths_cone assms(3) by auto
  show "form_live b (mode_fields1 (ov_mode l) (Some l) l) \<subseteq> purged b nodes l"
    using assms by (cases rule: mode_cases)
      (simp_all add: purged_mode_nodes form_live_def mode_fields1_def le_supI1 le_supI2 leaf_paths_below list_paths_below)
  show "form_live b (mode_fields2 (ov_mode l) (Some l) l) \<subseteq> purged b nodes l"
    using assms role by (cases rule: mode_cases)
      (simp_all add: purged_mode_nodes form_live_def mode_fields2_def le_supI1 le_supI2 leaf_paths_below list_paths_below)
qed

lemma purge_parts:
  assumes "ov_mode l \<in> set OPENVPN_MODES" and "MODE_NODES (ov_mode l) = Some nodes" and "ov_tls_role l \<noteq> Some ''''"
  shows "form_live b (openvpn_fields (Some l) l) \<inter> purged b nodes l = {}" "form_live b (option_fields (Some l) l) \<inter> purged b nodes l = {}"
    "form_live b (mode_fields1 (ov_mode l) (Some l) l) \<subseteq> purged b nodes l"
    "form_live b (mode_fields2 (ov_mode l) (Some l) l) \<subseteq> purged b nodes l"
  using purge_common [OF assms(1,2), of b] purge_own [OF assms, of b] form_live_region [of b "openvpn_fields (Some l) l"]
    form_live_region [of b "option_fields (Some l) l"] by blast+

lemma purge_host:
  assumes "ov_mode l \<in> set OPENVPN_MODES" and "MODE_NODES (ov_mode l) = Some nodes" and "ov_mode l \<noteq> ov_mode u"
  shows "leaf_paths (host_path b) (if has_host (ov_mode l) then ov_remote_host l else None) - purged b nodes l =
    leaf_paths (host_path b) (host_before (Some l) u)"
  using assms by (cases rule: mode_cases)
    (auto simp: purged_def host_before_def has_host_def host_path_def leaf_paths_def split: option.splits)

lemma purge_leaves:
  assumes dev: "device_laws dev single" and mode: "ov_mode l \<in> set OPENVPN_MODES" and b: "b = openvpn_base (ov_name u)"
    and S: "S \<inter> cone b = openvpn_before b l" and purge: "purge_cmds (Some l) u = Inr ds"
  and role: "ov_tls_role l \<noteq> Some ''''"
  shows "run dev ds S \<inter> cone b = after_purge b (Some l) u (host_before (Some l) u) \<and> run dev ds S - cone b = S - cone b"
proof (cases "ov_mode l = ov_mode u")
  case True
  then have "ds = []" "host_before (Some l) u = (if has_host (ov_mode l) then ov_remote_host l else None)"
    using purge mode by (auto simp: purge_cmds_def host_before_def has_host_def OPENVPN_MODES_def)
  moreover have "after_purge b (Some l) u (if has_host (ov_mode l) then ov_remote_host l else None) = openvpn_before b l"
    unfolding after_purge_def openvpn_before_def same_mode_def option.case openvpn_live_only(1) [of b l u] openvpn_live_only(4) [of b l u]
    using True by (simp add: openvpn_live_only(2) [of b _ l u] openvpn_live_only(3) [of b _ l u])
  ultimately show ?thesis using S by simp
next
  case False
  let ?role = "if ov_mode l = ''site-to-site'' \<and> ov_tls_role l \<notin> {None, Some ''''} then [[''tls'', ''role'']] else []"
  obtain nodes where nodes: "MODE_NODES (ov_mode l) = Some nodes" using mode by (auto simp: MODE_NODES_def OPENVPN_MODES_def)
  let ?gone = "purged b nodes l"
  have ds: "ds = map (\<lambda>p. cdel (b @ p)) (map (\<lambda>n. [n]) nodes @ ?role)"
    using purge False nodes by (auto simp: purge_cmds_def b comp_def)
  have run: "run dev ds S = S - ?gone" unfolding ds purged_def by (rule run_deletes [OF dev])
  have "?gone \<subseteq> cone b" unfolding purged_def using cone_append_subset by blast
  then have out: "run dev ds S - cone b = S - cone b" unfolding run by blast
  have inside: "run dev ds S \<inter> cone b = openvpn_before b l - ?gone" unfolding run S [symmetric] by blast
  note parts = purge_parts [OF mode nodes role, of b]
  have "openvpn_before b l - ?gone = form_live b (openvpn_fields (Some l) l) \<union> form_live b (option_fields (Some l) l) \<union>
      leaf_paths (host_path b) (host_before (Some l) u)"
    using parts(1-4) purge_host [OF mode nodes False, of b] unfolding openvpn_before_def by blast
  then have "run dev ds S \<inter> cone b = after_purge b (Some l) u (host_before (Some l) u)"
    unfolding inside after_purge_def same_mode_def openvpn_live_only(1) [of b l u] openvpn_live_only(4) [of b l u]
    using False by auto
  then show ?thesis using out by blast
qed

text \<open>What is left of the remote host is what the form asks for and what the switch of the mode forgets.\<close>

lemma host_result:
  assumes "\<And>l. live = Some l \<Longrightarrow> ov_mode l \<in> set OPENVPN_MODES" and "ov_mode u \<in> set OPENVPN_MODES"
  shows "leaf_paths p (host_after live u (host_before live u)) =
    leaf_paths p (if has_host (ov_mode u) then blank_to_none (ov_remote_host u) else None) \<union> leaf_paths p (stale_host live u)"
proof (cases live)
  case None
  then show ?thesis by (simp add: host_after_def host_before_def stale_host_def same_mode_def)
next
  case (Some l)
  have m: "has_host m \<longleftrightarrow> m = ''site-to-site'' \<or> m = ''client''" for m by (simp add: has_host_def)
  show ?thesis
    by (cases "ov_mode l = ov_mode u"; cases "ov_mode u = ''site-to-site''"; cases "ov_mode u = ''client''";
        cases "blank_to_none (ov_remote_host u)")
      (simp_all add: Some host_after_def host_before_def stale_host_def same_mode_def m)
qed

lemma new_form_sets:
  assumes "ov_mode u \<in> set OPENVPN_MODES"
  shows "has_set (openvpn_cmds None u)"
proof -
  have "\<forall>m\<in>set OPENVPN_MODES. blank_to_none (Some m) = Some m" by code_simp
  with assms have "blank_to_none (Some (ov_mode u)) = Some (ov_mode u)" by blast
  then have "form_cmds b (openvpn_fields None u) = cset (b @ [''mode'', ov_mode u]) # form_cmds b (tl (openvpn_fields None u))" for b
    by (simp add: form_cmds_def openvpn_fields_def leaf_cmds_def)
  then show ?thesis by (simp add: openvpn_cmds_def has_set_def Let_def)
qed

definition live_openvpn :: "openvpn_interface \<Rightarrow> bool" where
  "live_openvpn l \<longleftrightarrow> ov_mode l \<in> set OPENVPN_MODES \<and> ov_tls_role l \<noteq> Some ''''"

text \<open>The effect of a save over the fields of the form.\<close>

lemma openvpn_effect:
  assumes dev: "device_laws dev single" and sch: "openvpn_schema single" and mode: "ov_mode u \<in> set OPENVPN_MODES"
    and live: "case live of None \<Rightarrow> True | Some l \<Rightarrow> live_openvpn l" and b: "b = openvpn_base (ov_name u)"
    and S: "S \<inter> cone b = (case live of None \<Rightarrow> {} | Some l \<Rightarrow> openvpn_before b l)" and cs: "diffOpenvpn live u = Inr cs"
  shows "run dev cs S = (S - cone b) \<union> openvpn_asked b u \<union> leaf_paths (host_path b) (stale_host live u)"
proof -
  let ?h = "host_before live u"
  obtain ds where ds: "purge_cmds live u = Inr ds" using cs by (auto simp: diffOpenvpn_def split: sum.splits)
  have cmds: "cs = ds @ openvpn_cmds live u"
    using cs ds new_form_sets [OF mode] by (cases live) (auto simp: diffOpenvpn_def ensureCreated_def has_set_def)
  have inside: "run dev ds S \<inter> cone b = after_purge b live u ?h" and out: "run dev ds S - cone b = S - cone b"
  proof (atomize (full), cases live)
    case None
    then show "run dev ds S \<inter> cone b = after_purge b live u ?h \<and> run dev ds S - cone b = S - cone b"
      using ds S by (simp add: purge_cmds_def after_purge_def host_before_def same_mode_def)
  next
    case (Some l)
    then show "run dev ds S \<inter> cone b = after_purge b live u ?h \<and> run dev ds S - cone b = S - cone b"
      using purge_leaves [OF dev _ b _ ds [unfolded Some], of S] live S by (simp add: live_openvpn_def)
  qed
  have old: "?h = ov_remote_host l" if "same_mode live u = Some l" "has_host (ov_mode u)" for l
    using that by (auto simp: same_mode_def host_before_def has_host_def split: option.splits if_splits)
  have "run dev cs S = (run dev ds S - cone b) \<union> openvpn_result b live u ?h"
    using edits_run [OF openvpn_cmds_edits [OF dev sch mode old b] inside] by (simp add: cmds)
  also have "openvpn_result b live u ?h = openvpn_asked b u \<union> leaf_paths (host_path b) (stale_host live u)"
    unfolding openvpn_result_def openvpn_asked_def
    using live by (subst host_result [OF _ mode]) (auto simp: live_openvpn_def)
  finally show ?thesis by (simp add: out Un_assoc)
qed

text \<open>
  The node of an interface, spelled out: which leaf of the device stands for which field, and which leaves a
  mode has. The field lists above, which make the commands, do not enter it.
\<close>

definition openvpn_mode_paths :: "path \<Rightarrow> openvpn_interface \<Rightarrow> path set" where
  "openvpn_mode_paths b i =
     (if ov_mode i = ''site-to-site'' then
        leaf_paths (b @ [''local-address'']) (ov_local_address i) \<union>
        leaf_paths (b @ [''remote-address'']) (ov_remote_address i) \<union>
        leaf_paths (b @ [''remote-host'']) (ov_remote_host i) \<union>
        leaf_paths (b @ [''shared-secret-key'']) (ov_shared_secret_key i) \<union>
        leaf_paths (b @ [''tls'', ''role'']) (ov_tls_role i)
      else if ov_mode i = ''client'' then
        leaf_paths (b @ [''remote-host'']) (ov_remote_host i) \<union>
        leaf_paths (b @ [''remote-port'']) (map_option string_of_int (ov_remote_port i)) \<union>
        leaf_paths (b @ [''authentication'', ''username'']) (ov_auth_username i) \<union>
        leaf_paths (b @ [''authentication'', ''password'']) (ov_auth_password i)
      else
        leaf_paths (b @ [''server'', ''subnet'']) (ov_server_subnet i) \<union>
        leaf_paths (b @ [''server'', ''topology'']) (ov_server_topology i) \<union>
        leaf_paths (b @ [''server'', ''max-connections'']) (map_option string_of_int (ov_server_max_connections i)) \<union>
        list_paths (b @ [''server'', ''push-route'']) (ov_server_push_routes i) \<union>
        list_paths (b @ [''server'', ''name-server'']) (ov_server_name_servers i))"

definition openvpn_paths :: "path \<Rightarrow> openvpn_interface \<Rightarrow> path set" where
  "openvpn_paths b i =
     leaf_paths (b @ [''mode'']) (Some (ov_mode i)) \<union>
     leaf_paths (b @ [''description'']) (ov_description i) \<union>
     leaf_paths (b @ [''device-type'']) (ov_device_type i) \<union>
     leaf_paths (b @ [''protocol'']) (ov_protocol i) \<union>
     leaf_paths (b @ [''local-host'']) (ov_local_host i) \<union>
     leaf_paths (b @ [''local-port'']) (map_option string_of_int (ov_local_port i)) \<union>
     flag_paths (b @ [''persistent-tunnel'']) (ov_persistent_tunnel i) \<union>
     flag_paths (b @ [''disable'']) (\<not> ov_enabled i) \<union>
     leaf_paths (b @ [''encryption'', ''cipher'']) (ov_encryption_cipher i) \<union>
     leaf_paths (b @ [''hash'']) (ov_hash i) \<union>
     leaf_paths (b @ [''tls'', ''ca-certificate'']) (ov_tls_ca_certificate i) \<union>
     leaf_paths (b @ [''tls'', ''certificate'']) (ov_tls_certificate i) \<union>
     leaf_paths (b @ [''tls'', ''dh-params'']) (ov_tls_dh_params i) \<union>
     list_paths (b @ [''openvpn-option'']) (ov_options i) \<union>
     openvpn_mode_paths b i"

text \<open>What a filled form stands for: blanks around a text are dropped, and a blank text is no text.\<close>

definition openvpn_form :: "openvpn_interface \<Rightarrow> openvpn_interface" where
  "openvpn_form u = u\<lparr>ov_description := blank_to_none (ov_description u), ov_device_type := blank_to_none (ov_device_type u),
     ov_protocol := blank_to_none (ov_protocol u), ov_local_host := blank_to_none (ov_local_host u),
     ov_encryption_cipher := blank_to_none (ov_encryption_cipher u), ov_hash := blank_to_none (ov_hash u),
     ov_tls_ca_certificate := blank_to_none (ov_tls_ca_certificate u), ov_tls_certificate := blank_to_none (ov_tls_certificate u),
     ov_tls_dh_params := blank_to_none (ov_tls_dh_params u), ov_tls_role := blank_to_none (ov_tls_role u),
     ov_local_address := blank_to_none (ov_local_address u), ov_remote_address := blank_to_none (ov_remote_address u),
     ov_shared_secret_key := blank_to_none (ov_shared_secret_key u), ov_remote_host := blank_to_none (ov_remote_host u),
     ov_auth_username := blank_to_none (ov_auth_username u), ov_auth_password := blank_to_none (ov_auth_password u),
     ov_server_subnet := blank_to_none (ov_server_subnet u), ov_server_topology := blank_to_none (ov_server_topology u),
     ov_server_push_routes := clean (ov_server_push_routes u), ov_server_name_servers := clean (ov_server_name_servers u),
     ov_options := clean (ov_options u)\<rparr>"

lemma openvpn_before_paths:
  assumes "ov_mode l \<in> set OPENVPN_MODES"
  shows "openvpn_before b l = openvpn_paths b l"
proof -
  consider "ov_mode l = ''site-to-site''" | "ov_mode l = ''client''" | "ov_mode l = ''server''"
    using assms by (auto simp: OPENVPN_MODES_def)
  then show ?thesis
    by cases (simp_all add: openvpn_before_def openvpn_paths_def openvpn_mode_paths_def openvpn_field_defs form_live_def
        has_host_def host_path_def numStr_def Un_ac)
qed

lemma openvpn_asked_paths:
  assumes "ov_mode u \<in> set OPENVPN_MODES"
  shows "openvpn_asked b u = openvpn_paths b (openvpn_form u)"
proof -
  have mode: "blank_to_none (Some (ov_mode u)) = Some (ov_mode u)"
    using assms by (auto simp: OPENVPN_MODES_def blank_to_none_def trim_def js_space_def)
  consider "ov_mode u = ''site-to-site''" | "ov_mode u = ''client''" | "ov_mode u = ''server''"
    using assms by (auto simp: OPENVPN_MODES_def)
  then show ?thesis
    by cases (insert mode, simp_all add: openvpn_asked_def openvpn_paths_def openvpn_mode_paths_def openvpn_field_defs form_desired_def
        has_host_def host_path_def numStr_def openvpn_form_def Un_ac)
qed

text \<open>
  C32: saving an OpenVPN interface, whatever mode it had and whatever mode the form asks for, leaves
  the device with exactly the leaves of the filled form: the common ones and those of its mode
  (\<open>openvpn_paths\<close> says leaf by leaf which they are), when it had those of the live interface. Every
  other leaf of the mode it had goes, and nothing outside the interface changes. One leaf escapes the purge,
  which is the last set: when a site-to-site interface becomes a server, or a client with no remote host, its
  \<open>remote-host\<close> stays on the device.
\<close>

theorem openvpn_save:
  assumes dev: "device_laws dev single" and sch: "openvpn_schema single" and mode: "ov_mode u \<in> set OPENVPN_MODES"
    and live: "case live of None \<Rightarrow> True | Some l \<Rightarrow> live_openvpn l" and b: "b = [''interfaces'', ''openvpn'', ov_name u]"
    and S: "S \<inter> cone b = (case live of None \<Rightarrow> {} | Some l \<Rightarrow> openvpn_paths b l)" and cs: "diffOpenvpn live u = Inr cs"
  shows "run dev cs S = (S - cone b) \<union> openvpn_paths b (openvpn_form u) \<union> leaf_paths (b @ [''remote-host'']) (stale_host live u)"
proof -
  have b': "b = openvpn_base (ov_name u)" by (simp add: b openvpn_base_def)
  have "S \<inter> cone b = (case live of None \<Rightarrow> {} | Some l \<Rightarrow> openvpn_before b l)"
    using S live by (cases live) (simp_all add: live_openvpn_def openvpn_before_paths)
  from openvpn_effect [OF dev sch mode live b' this cs] show ?thesis
    by (simp add: openvpn_asked_paths [OF mode] host_path_def)
qed

definition openvpn_single :: "path \<Rightarrow> bool" where
  "openvpn_single p \<longleftrightarrow> length p \<ge> 4 \<and> last p \<notin> set [''openvpn-option'', ''push-route'', ''name-server'']"

lemma openvpn_single_schema: "openvpn_schema openvpn_single"
  by (simp add: openvpn_schema_def openvpn_single_def openvpn_base_def openvpn_field_defs OPENVPN_MODES_def host_path_def Let_def)

text \<open>A site-to-site tunnel that becomes a server keeps its peer.\<close>

definition tunnel_site :: openvpn_interface where
  "tunnel_site = emptyOpenvpn\<lparr>ov_name := ''vtun0'', ov_mode := ''site-to-site'', ov_remote_host := Some ''192.0.2.9'',
     ov_tls_role := Some ''active'', ov_local_address := Some ''10.9.0.1''\<rparr>"

definition tunnel_server :: openvpn_interface where
  "tunnel_server = emptyOpenvpn\<lparr>ov_name := ''vtun0'', ov_mode := ''server'', ov_server_subnet := Some ''10.9.0.0/24''\<rparr>"

lemma openvpn_paths_cone: "openvpn_paths b i \<subseteq> cone b"
  unfolding openvpn_paths_def openvpn_mode_paths_def
  by (simp add: order_trans [OF leaf_paths_cone cone_append_subset] order_trans [OF list_paths_cone cone_append_subset]
      order_trans [OF flag_paths_cone cone_append_subset])

lemma openvpn_save_witness:
  "\<exists>cs. diffOpenvpn (Some tunnel_site) tunnel_server = Inr cs \<and>
     run (ref_dev openvpn_single) cs (openvpn_paths [''interfaces'', ''openvpn'', ''vtun0''] tunnel_site) =
       {[''interfaces'', ''openvpn'', ''vtun0'', ''mode'', ''server''],
        [''interfaces'', ''openvpn'', ''vtun0'', ''server'', ''subnet'', ''10.9.0.0/24''],
        [''interfaces'', ''openvpn'', ''vtun0'', ''remote-host'', ''192.0.2.9'']}"
proof -
  let ?b = "[''interfaces'', ''openvpn'', ''vtun0'']"
  have n: "?b = [''interfaces'', ''openvpn'', ov_name tunnel_server]" by (simp add: tunnel_server_def)
  have mode: "ov_mode tunnel_server \<in> set OPENVPN_MODES" by code_simp
  have live: "case Some tunnel_site of None \<Rightarrow> True | Some l \<Rightarrow> live_openvpn l" by code_simp
  obtain cs where cs: "diffOpenvpn (Some tunnel_site) tunnel_server = Inr cs"
    by (simp add: diffOpenvpn_def purge_cmds_def MODE_NODES_def tunnel_site_def tunnel_server_def emptyOpenvpn_def)
  have stale: "stale_host (Some tunnel_site) tunnel_server = Some ''192.0.2.9''" by code_simp
  have form: "openvpn_form tunnel_server = tunnel_server" by code_simp
  have sub: "openvpn_paths ?b tunnel_site \<subseteq> cone ?b" by (rule openvpn_paths_cone)
  then have "openvpn_paths ?b tunnel_site \<inter> cone ?b = (case Some tunnel_site of None \<Rightarrow> {} | Some l \<Rightarrow> openvpn_paths ?b l)" by auto
  moreover have "openvpn_paths ?b tunnel_server = {?b @ [''mode'', ''server''], ?b @ [''server'', ''subnet'', ''10.9.0.0/24'']}"
    by (simp add: openvpn_paths_def openvpn_mode_paths_def tunnel_server_def emptyOpenvpn_def leaf_paths_def list_paths_def flag_paths_def insert_commute)
  ultimately show ?thesis
    using openvpn_save [OF ref_dev_laws openvpn_single_schema mode live n, of "openvpn_paths ?b tunnel_site" cs] cs sub
    by (auto simp: stale form leaf_paths_def)
qed

end
