(* ===== verification/Switched_Nodes.thy ===== *)
theory Switched_Nodes
  imports Child_Forms
begin

text \<open>
  Two more parts that the diffs of the routing protocols are made of: a subtree that is switched on and
  off as a whole and has leaves of its own while it is on (an address family, the origination of a
  default route), and nodes at several levels below one node whose presence alone says something (a
  redistributed protocol).
\<close>

section \<open>Nodes that are switched on and off\<close>

text \<open>
  Switched off, everything from \<open>trunk\<close> on goes; switched on, the node is created when it was off, and
  its leaves are compared with those it had, or with nothing.
\<close>

definition switched_cmds ::
  "path \<Rightarrow> ('k \<Rightarrow> path) \<Rightarrow> ('i option \<Rightarrow> 'i \<Rightarrow> field list) \<Rightarrow> 'k \<Rightarrow> 'i option \<Rightarrow> 'i option \<Rightarrow> vyos_command list" where
  "switched_cmds trunk child flds k live want = (case want of
       None \<Rightarrow> if live = None then [] else [cdel trunk]
     | Some w \<Rightarrow> created_item child flds k live w)"

definition switched_before ::
  "('k \<Rightarrow> path) \<Rightarrow> ('i option \<Rightarrow> 'i \<Rightarrow> field list) \<Rightarrow> 'k \<Rightarrow> 'i option \<Rightarrow> path set" where
  "switched_before child flds k live = (case live of None \<Rightarrow> {} | Some j \<Rightarrow> created_before child flds k j)"

definition switched_after ::
  "('k \<Rightarrow> path) \<Rightarrow> ('i option \<Rightarrow> 'i \<Rightarrow> field list) \<Rightarrow> 'k \<Rightarrow> 'i option \<Rightarrow> path set" where
  "switched_after child flds k want = (case want of None \<Rightarrow> {} | Some i \<Rightarrow> created_after child flds k i)"

context child_forms begin

lemma switched_edits:
  assumes dev: "device_laws dev single" and sch: "schema single" and trunk: "prefix trunk (child n k)"
  shows "edits dev (cone trunk) (switched_cmds trunk (child n) flds k live want)
    (switched_before (child n) flds k live) (switched_after (child n) flds k want)"
proof -
  have sub: "cone (child n k) \<subseteq> cone trunk" by (rule cone_mono [OF trunk])
  have before: "switched_before (child n) flds k live \<subseteq> cone trunk"
    using created.before_in [of n k] sub by (auto simp: switched_before_def split: option.split)
  show ?thesis
  proof (cases want)
    case None
    show ?thesis
    proof (cases "live = None")
      case True
      then show ?thesis by (simp add: None switched_cmds_def switched_before_def switched_after_def edits_nil)
    next
      case False
      then have "switched_cmds trunk (child n) flds k live want = [cdel trunk]" by (simp add: None switched_cmds_def)
      then show ?thesis using edits_delete [OF dev before] by (simp add: None switched_after_def)
    qed
  next
    case (Some w)
    have "edits dev (cone (child n k)) (created_item (child n) flds k live w)
        (switched_before (child n) flds k live) (created_after (child n) flds k w)"
      using created.item_new [OF dev sch] created.item_live [OF dev sch]
      by (cases live) (simp_all add: switched_before_def)
    from edits_widen [OF this sub] show ?thesis by (simp add: Some switched_cmds_def switched_after_def)
  qed
qed

lemma switched_new:
  "has_set (switched_cmds trunk (child n) flds k None want) \<longleftrightarrow> switched_after (child n) flds k want \<noteq> {}"
  "switched_before (child n) flds k None = {}"
  by (cases want; simp add: switched_cmds_def switched_before_def switched_after_def created_item_def created_after_def has_set_def)+

end

text \<open>A list of segments that starts from nothing sets something exactly when it ends with something.\<close>

lemma seg_new_sets:
  "\<forall>x\<in>set xs. has_set (fst (snd x)) \<longleftrightarrow> snd (snd (snd x)) \<noteq> {} \<Longrightarrow> has_set (seg_cmds xs) \<longleftrightarrow> seg_after xs \<noteq> {}"
  by (induction xs) (simp_all add: seg_cmds_def seg_after_def has_set_def bex_Un)

section \<open>Nodes that are toggled by presence\<close>

text \<open>
  \<open>for (x of want) if (!live.has(key(x))) set(at(x))\<close>, then the deletes the other way round. Two entries
  with the same key are the same node.
\<close>

definition toggle_cmds :: "('x \<Rightarrow> path) \<Rightarrow> ('x \<Rightarrow> string) \<Rightarrow> 'x list \<Rightarrow> 'x list \<Rightarrow> vyos_command list" where
  "toggle_cmds at key live want =
     map (\<lambda>x. cset (at x)) (filter (\<lambda>x. key x \<notin> key ` set live) want) @
     map (\<lambda>x. cdel (at x)) (filter (\<lambda>x. key x \<notin> key ` set want) live)"

locale toggled =
  fixes at :: "'x \<Rightarrow> path" and key :: "'x \<Rightarrow> string" and trunk :: path and schema :: "(path \<Rightarrow> bool) \<Rightarrow> bool"
  assumes same_node: "at x = at y \<longleftrightarrow> key x = key y"
    and same_depth: "length (at x) = length (at y)"
    and at_trunk: "prefix trunk (at x)"
    and at_multi: "schema single \<Longrightarrow> \<not> single (butlast (at x))"
begin

lemma toggles_edits:
  assumes dev: "device_laws dev single" and sch: "schema single"
  shows "edits dev (cone trunk) (toggle_cmds at key live want) (at ` set live) (at ` set want)"
proof (rule editsI)
  show "at ` set live \<subseteq> cone trunk" "at ` set want \<subseteq> cone trunk" using at_trunk by auto
  fix R :: "path set"
  assume R: "R \<inter> cone trunk = {}"
  let ?new = "filter (\<lambda>x. key x \<notin> key ` set live) want" and ?gone = "filter (\<lambda>x. key x \<notin> key ` set want) live"
  have below: "prefix (at x) (at y) \<longleftrightarrow> key x = key y" for x y
    using same_node [of x y] same_depth [of x y] by (auto simp: prefix_def)
  have "\<not> prefix (at x) q" if "q \<in> R" for q x
    using that R at_trunk [of x] prefix_order.trans [of trunk "at x" q] by auto
  then have out: "R - (\<Union>x\<in>set ?gone. cone (at x)) = R" by auto
  have run: "run dev (toggle_cmds at key live want) (R \<union> at ` set live) =
      (R \<union> at ` set live \<union> at ` set ?new) - (\<Union>x\<in>set ?gone. cone (at x))"
    unfolding toggle_cmds_def run_append run_deletes [OF dev] using run_sets [OF dev, of ?new at] at_multi [OF sch] by simp
  have "(at ` set live \<union> at ` set ?new) - (\<Union>x\<in>set ?gone. cone (at x)) = at ` set want"
  proof (rule set_eqI)
    fix q
    show "q \<in> (at ` set live \<union> at ` set ?new) - (\<Union>x\<in>set ?gone. cone (at x)) \<longleftrightarrow> q \<in> at ` set want"
    proof
      assume q: "q \<in> (at ` set live \<union> at ` set ?new) - (\<Union>x\<in>set ?gone. cone (at x))"
      then obtain y where y: "q = at y" "y \<in> set live \<or> y \<in> set ?new" by auto
      then have "y \<in> set ?new \<or> key y \<in> key ` set want" using q below by (auto simp: image_iff)
      then show "q \<in> at ` set want" using y same_node by (auto simp: image_iff)
    next
      assume "q \<in> at ` set want"
      then obtain y where y: "q = at y" "y \<in> set want" by auto
      have "q \<in> at ` set live \<union> at ` set ?new"
        using y same_node by (cases "key y \<in> key ` set live") (auto simp: image_iff)
      moreover have "\<not> prefix (at x) q" if "x \<in> set ?gone" for x
        using that y below by (auto simp: image_iff)
      ultimately show "q \<in> (at ` set live \<union> at ` set ?new) - (\<Union>x\<in>set ?gone. cone (at x))" by auto
    qed
  qed
  then show "run dev (toggle_cmds at key live want) (R \<union> at ` set live) = R \<union> at ` set want"
    unfolding run using out by (simp add: Un_assoc Un_Diff)
qed

end

end
