(* ===== verification/Isis.thy ===== *)
theory Isis
  imports Switched_Nodes
begin

text \<open>
  IS-IS: \<open>lib/isis.ts\<close>. One global form, whose redistribution and default origination are nodes toggled by
  their presence, and one form per interface.
\<close>

section \<open>Model\<close>

datatype isis_afi = IsisIPv4 | IsisIPv6

datatype isis_level = Level1 | Level2

fun isis_afi_str :: "isis_afi \<Rightarrow> string" where
  "isis_afi_str IsisIPv4 = ''ipv4''"
| "isis_afi_str IsisIPv6 = ''ipv6''"

fun isis_level_str :: "isis_level \<Rightarrow> string" where
  "isis_level_str Level1 = ''level-1''"
| "isis_level_str Level2 = ''level-2''"

record isis_redistribute =
  ir_afi :: isis_afi
  ir_protocol :: string
  ir_level :: isis_level

record isis_originate =
  io_afi :: isis_afi
  io_level :: isis_level

record isis_global =
  ig_net :: "string option"
  ig_level :: "string option"
  ig_metric_style :: "string option"
  ig_dynamic_hostname :: bool
  ig_set_attached_bit :: bool
  ig_set_overload_bit :: bool
  ig_lsp_gen_interval :: "int option"
  ig_lsp_refresh_interval :: "int option"
  ig_spf_interval :: "int option"
  ig_redistribute :: "isis_redistribute list"
  ig_default_originate :: "isis_originate list"

record isis_interface =
  ii_name :: string
  ii_circuit_type :: "string option"
  ii_hello_interval :: "int option"
  ii_hello_multiplier :: "int option"
  ii_metric :: "int option"
  ii_point_to_point :: bool
  ii_passive :: bool
  ii_bfd :: bool
  ii_password :: "string option"

record isis_config =
  ix_global :: isis_global
  ix_interfaces :: "isis_interface list"

definition emptyIsisGlobal :: isis_global where
  "emptyIsisGlobal = \<lparr>ig_net = None, ig_level = None, ig_metric_style = None, ig_dynamic_hostname = False,
     ig_set_attached_bit = False, ig_set_overload_bit = False, ig_lsp_gen_interval = None,
     ig_lsp_refresh_interval = None, ig_spf_interval = None, ig_redistribute = [], ig_default_originate = []\<rparr>"

definition emptyIsisInterface :: isis_interface where
  "emptyIsisInterface = \<lparr>ii_name = '''', ii_circuit_type = None, ii_hello_interval = None, ii_hello_multiplier = None,
     ii_metric = None, ii_point_to_point = False, ii_passive = False, ii_bfd = False, ii_password = None\<rparr>"

section \<open>Reader\<close>

text \<open>The levels that a node has, in the order of the source.\<close>

definition levels_in :: "json \<Rightarrow> read_error + isis_level list" where
  "levels_in v = (case has_key ''level-1'' v of Inl e \<Rightarrow> Inl e | Inr a \<Rightarrow>
     (case has_key ''level-2'' v of Inl e \<Rightarrow> Inl e | Inr b \<Rightarrow>
      Inr ((if a then [Level1] else []) @ (if b then [Level2] else []))))"

definition parse_redistributed :: "isis_afi \<times> string \<times> json \<Rightarrow> read_error + isis_redistribute list" where
  "parse_redistributed e = (case levels_in (or_empty (snd (snd e))) of Inl err \<Rightarrow> Inl err
     | Inr ls \<Rightarrow> Inr (map (\<lambda>l. \<lparr>ir_afi = fst e, ir_protocol = fst (snd e), ir_level = l\<rparr>) ls))"

definition parseRedistribute :: "json option \<Rightarrow> read_error + isis_redistribute list" where
  "parseRedistribute redist = (case redist of None \<Rightarrow> Inr []
     | Some r \<Rightarrow> (case map_res parse_redistributed
           (concat (map (\<lambda>afi. map (Pair afi) (object_entries r (isis_afi_str afi))) [IsisIPv4, IsisIPv6])) of
         Inl e \<Rightarrow> Inl e | Inr xss \<Rightarrow> Inr (concat xss)))"

definition parseDefaultOriginate :: "json option \<Rightarrow> isis_originate list" where
  "parseDefaultOriginate di = (case Option.bind di (\<lambda>d. obj_childCfg d ''originate'') of None \<Rightarrow> []
     | Some originate \<Rightarrow> concat (map (\<lambda>afi. case obj_childCfg originate (isis_afi_str afi) of None \<Rightarrow> []
         | Some n \<Rightarrow> map (\<lambda>l. \<lparr>io_afi = afi, io_level = l\<rparr>) (filter (\<lambda>l. present (isis_level_str l) n) [Level1, Level2]))
         [IsisIPv4, IsisIPv6]))"

definition parse_isis_global :: "json \<Rightarrow> read_error + isis_global" where
  "parse_isis_global isis = (case parseRedistribute (obj_childCfg isis ''redistribute'') of Inl e \<Rightarrow> Inl e
     | Inr redist \<Rightarrow> Inr \<lparr>ig_net = childStr isis ''net'', ig_level = childStr isis ''level'',
         ig_metric_style = childStr isis ''metric-style'', ig_dynamic_hostname = present ''dynamic-hostname'' isis,
         ig_set_attached_bit = present ''set-attached-bit'' isis, ig_set_overload_bit = present ''set-overload-bit'' isis,
         ig_lsp_gen_interval = childNum isis ''lsp-gen-interval'',
         ig_lsp_refresh_interval = childNum isis ''lsp-refresh-interval'', ig_spf_interval = childNum isis ''spf-interval'',
         ig_redistribute = redist,
         ig_default_originate = parseDefaultOriginate (obj_childCfg isis ''default-information'')\<rparr>)"

definition parse_isis_interface :: "string \<times> json \<Rightarrow> read_error + isis_interface" where
  "parse_isis_interface e = (let raw = or_empty (snd e) in
     case has_key ''passive'' raw of Inl err \<Rightarrow> Inl err | Inr passive \<Rightarrow>
     (case has_key ''bfd'' raw of Inl err \<Rightarrow> Inl err | Inr bfd \<Rightarrow>
      Inr \<lparr>ii_name = fst e, ii_circuit_type = childStr raw ''circuit-type'', ii_hello_interval = childNum raw ''hello-interval'',
        ii_hello_multiplier = childNum raw ''hello-multiplier'', ii_metric = childNum raw ''metric'',
        ii_point_to_point = (case obj_childCfg raw ''network'' of None \<Rightarrow> False | Some n \<Rightarrow> present ''point-to-point'' n),
        ii_passive = passive, ii_bfd = bfd,
        ii_password = Option.bind (obj_childCfg raw ''password'') (\<lambda>p. childStr p ''plaintext-password'')\<rparr>))"

definition fetchIsis :: "(string \<Rightarrow> string \<Rightarrow> int) \<Rightarrow> vyos_response \<Rightarrow> read_error + isis_config" where
  "fetchIsis lc resp = (case config_of_response ''Device returned an error reading IS-IS configuration.'' resp of
     Inl e \<Rightarrow> Inl e | Inr isis \<Rightarrow>
     (case named_rows lc ii_name parse_isis_interface isis ''interface'' of Inl e \<Rightarrow> Inl e | Inr interfaces \<Rightarrow>
     (case parse_isis_global isis of Inl e \<Rightarrow> Inl e | Inr g \<Rightarrow> Inr \<lparr>ix_global = g, ix_interfaces = interfaces\<rparr>)))"

section \<open>Diff\<close>

definition isis_base :: path where
  "isis_base = [''protocols'', ''isis'']"

definition redistKey :: "isis_redistribute \<Rightarrow> string" where
  "redistKey r = isis_afi_str (ir_afi r) @ ''/'' @ ir_protocol r @ ''/'' @ isis_level_str (ir_level r)"

definition originateKey :: "isis_originate \<Rightarrow> string" where
  "originateKey d = isis_afi_str (io_afi d) @ ''/'' @ isis_level_str (io_level d)"

definition redist_path :: "isis_redistribute \<Rightarrow> path" where
  "redist_path r = isis_base @ [''redistribute'', isis_afi_str (ir_afi r), ir_protocol r, isis_level_str (ir_level r)]"

definition originate_path :: "isis_originate \<Rightarrow> path" where
  "originate_path d = isis_base @ [''default-information'', ''originate'', isis_afi_str (io_afi d), isis_level_str (io_level d)]"

definition isis_fields :: "isis_global \<Rightarrow> isis_global \<Rightarrow> field list" where
  "isis_fields live u =
     [Leaf [''net''] (ig_net live) (blank_to_none (ig_net u)), Leaf [''level''] (ig_level live) (blank_to_none (ig_level u)),
      Leaf [''metric-style''] (ig_metric_style live) (blank_to_none (ig_metric_style u)),
      Flag [''dynamic-hostname''] (ig_dynamic_hostname live) (ig_dynamic_hostname u),
      Flag [''set-attached-bit''] (ig_set_attached_bit live) (ig_set_attached_bit u),
      Flag [''set-overload-bit''] (ig_set_overload_bit live) (ig_set_overload_bit u),
      Leaf [''lsp-gen-interval''] (numStr (ig_lsp_gen_interval live)) (numStr (ig_lsp_gen_interval u)),
      Leaf [''lsp-refresh-interval''] (numStr (ig_lsp_refresh_interval live)) (numStr (ig_lsp_refresh_interval u)),
      Leaf [''spf-interval''] (numStr (ig_spf_interval live)) (numStr (ig_spf_interval u))]"

definition diffIsisGlobal :: "isis_global \<Rightarrow> isis_global \<Rightarrow> vyos_command list" where
  "diffIsisGlobal live u = form_cmds isis_base (isis_fields live u) @
     toggle_cmds redist_path redistKey (ig_redistribute live) (ig_redistribute u) @
     toggle_cmds originate_path originateKey (ig_default_originate live) (ig_default_originate u)"

definition isis_interface_path :: "string \<Rightarrow> path" where
  "isis_interface_path name = isis_base @ [''interface'', name]"

definition isis_interface_fields :: "isis_interface option \<Rightarrow> isis_interface \<Rightarrow> field list" where
  "isis_interface_fields live u =
     [Leaf [''circuit-type''] (Option.bind live ii_circuit_type) (blank_to_none (ii_circuit_type u)),
      Leaf [''hello-interval''] (numStr (Option.bind live ii_hello_interval)) (numStr (ii_hello_interval u)),
      Leaf [''hello-multiplier''] (numStr (Option.bind live ii_hello_multiplier)) (numStr (ii_hello_multiplier u)),
      Leaf [''metric''] (numStr (Option.bind live ii_metric)) (numStr (ii_metric u)),
      Flag [''network'', ''point-to-point''] (case live of None \<Rightarrow> False | Some l \<Rightarrow> ii_point_to_point l) (ii_point_to_point u),
      Flag [''passive''] (case live of None \<Rightarrow> False | Some l \<Rightarrow> ii_passive l) (ii_passive u),
      Flag [''bfd''] (case live of None \<Rightarrow> False | Some l \<Rightarrow> ii_bfd l) (ii_bfd u),
      Leaf [''password'', ''plaintext-password''] (Option.bind live ii_password) (blank_to_none (ii_password u))]"

definition diffIsisInterface :: "isis_interface option \<Rightarrow> isis_interface \<Rightarrow> vyos_command list" where
  "diffIsisInterface live u = ensureCreated (form_cmds (isis_interface_path (ii_name u)) (isis_interface_fields live u))
     (isis_interface_path (ii_name u)) (live = None)"

definition deleteIsisInterface_cmds :: "string \<Rightarrow> vyos_command list" where
  "deleteIsisInterface_cmds name = [cdel (isis_interface_path name)]"

section \<open>What a save does\<close>

definition isis_schema :: "(path \<Rightarrow> bool) \<Rightarrow> bool" where
  "isis_schema single \<longleftrightarrow> (\<forall>f\<in>set (isis_fields emptyIsisGlobal emptyIsisGlobal). field_schema single isis_base f) \<and>
     (\<forall>r. \<not> single (butlast (redist_path r))) \<and> (\<forall>d. \<not> single (butlast (originate_path d))) \<and>
     \<not> single (isis_base @ [''interface'']) \<and>
     (\<forall>n. \<forall>f\<in>set (isis_interface_fields None emptyIsisInterface). field_schema single (isis_interface_path n) f)"

lemma isis_strs [simp]:
  "isis_afi_str a = isis_afi_str b \<longleftrightarrow> a = b" "isis_level_str l = isis_level_str m \<longleftrightarrow> l = m"
  by (cases a; cases b; simp) (cases l; cases m; simp)

text \<open>The key of a toggle names its node: the text before the first slash and after the last one are from fixed lists.\<close>

lemma redistKey_inj: "redistKey r = redistKey s \<longleftrightarrow> redist_path r = redist_path s"
proof -
  have "redistKey r = redistKey s \<longleftrightarrow> ir_afi r = ir_afi s \<and> ir_protocol r = ir_protocol s \<and> ir_level r = ir_level s"
    by (cases "ir_afi r"; cases "ir_afi s"; cases "ir_level r"; cases "ir_level s") (auto simp: redistKey_def)
  then show ?thesis by (auto simp: redist_path_def)
qed

lemma originateKey_inj: "originateKey d = originateKey e \<longleftrightarrow> originate_path d = originate_path e"
  by (cases "io_afi d"; cases "io_afi e"; cases "io_level d"; cases "io_level e") (simp_all add: originateKey_def originate_path_def)

interpretation redistributed: toggled redist_path redistKey "isis_base @ [''redistribute'']" isis_schema
  by unfold_locales (auto simp: redistKey_inj redist_path_def isis_schema_def)

interpretation originated: toggled originate_path originateKey "isis_base @ [''default-information'']" isis_schema
  by unfold_locales (auto simp: originateKey_inj originate_path_def isis_schema_def)

interpretation isis_interfaces: child_forms isis_schema "\<lambda>_ :: unit. isis_base @ [''interface'']" "\<lambda>_. isis_interface_path"
  isis_interface_fields
  by unfold_locales (auto simp: isis_interface_path_def isis_interface_fields_def apart_fields_def form_defs isis_schema_def
    cone_disjoint_iff butlast_append numStr_def)

definition isis_region :: "path set" where
  "isis_region = form_region isis_base (isis_fields emptyIsisGlobal emptyIsisGlobal) \<union> cone (isis_base @ [''redistribute'']) \<union>
     cone (isis_base @ [''default-information''])"

definition isis_before :: "isis_global \<Rightarrow> path set" where
  "isis_before l = form_live isis_base (isis_fields l l) \<union> redist_path ` set (ig_redistribute l) \<union>
     originate_path ` set (ig_default_originate l)"

definition isis_after :: "isis_global \<Rightarrow> path set" where
  "isis_after u = form_desired isis_base (isis_fields u u) \<union> redist_path ` set (ig_redistribute u) \<union>
     originate_path ` set (ig_default_originate u)"

lemma isis_edits:
  assumes dev: "device_laws dev single" and sch: "isis_schema single"
  shows "edits dev isis_region (diffIsisGlobal live u) (isis_before live) (isis_after u)"
proof -
  have f: "\<forall>f\<in>set (isis_fields live u). field_schema single isis_base f" using sch by (simp add: isis_schema_def isis_fields_def)
  have a: "apart_fields (isis_fields live u)" by (simp add: isis_fields_def apart_fields_def)
  let ?segs = "[form_seg isis_base (isis_fields live u),
    (cone (isis_base @ [''redistribute'']), toggle_cmds redist_path redistKey (ig_redistribute live) (ig_redistribute u),
      redist_path ` set (ig_redistribute live), redist_path ` set (ig_redistribute u)),
    (cone (isis_base @ [''default-information'']),
      toggle_cmds originate_path originateKey (ig_default_originate live) (ig_default_originate u),
      originate_path ` set (ig_default_originate live), originate_path ` set (ig_default_originate u))]"
  have ok: "\<forall>x\<in>set ?segs. seg_ok dev x"
    using form_seg_ok [OF dev f a] redistributed.toggles_edits [OF dev sch] originated.toggles_edits [OF dev sch] by simp
  have disj: "sorted_wrt (\<lambda>x y. fst x \<inter> fst y = {}) ?segs"
    by (simp add: form_seg_def form_region_apart isis_fields_def cone_disjoint_iff)
  have "seg_region ?segs = isis_region" "seg_before ?segs = isis_before live" "seg_after ?segs = isis_after u"
    by (simp_all add: isis_region_def isis_before_def isis_after_def seg_defs form_seg_def form_defs isis_fields_def Un_assoc)
  then show ?thesis using edits_segments [OF ok disj]
    by (simp add: diffIsisGlobal_def seg_cmds_def form_seg_def)
qed

text \<open>
  Saving the IS-IS settings on a device that holds the settings the form was opened with gives the
  settings of the form: its leaves and flags, and exactly the redistributed protocols and the
  originated default routes of the form, each at its address family and level. Nothing else changes.
\<close>

theorem isis_global_save:
  assumes "device_laws dev single" and "isis_schema single" and "S \<inter> isis_region = isis_before live"
  shows "run dev (diffIsisGlobal live u) S = (S - isis_region) \<union> isis_after u"
  using assms(3) by (rule edits_run [OF isis_edits [OF assms(1,2)]])

theorem isis_interface_save:
  assumes "device_laws dev single" and "isis_schema single" and "b = isis_interface_path (ii_name u)"
    and "S \<inter> form_region b (isis_interface_fields None u) =
      (case live of None \<Rightarrow> {} | Some l \<Rightarrow> form_live b (isis_interface_fields (Some l) l))"
  shows "run dev (diffIsisInterface live u) S =
    (S - form_region b (isis_interface_fields None u)) \<union> form_desired b (isis_interface_fields None u) \<union>
    (if live = None \<and> form_desired b (isis_interface_fields None u) = {} then {b} else {})"
  unfolding diffIsisInterface_def assms(3) [symmetric]
  by (rule isis_interfaces.ensured_run [OF assms(1,2,3) _ assms(4)]) (simp add: isis_interface_fields_def)

definition isis_single :: "path \<Rightarrow> bool" where
  "isis_single p \<longleftrightarrow> (length p = 3 \<and> last p \<noteq> ''interface'') \<or> (length p = 5 \<and> p ! 2 = ''interface'' \<and> last p \<noteq> ''network'') \<or>
     (length p = 6 \<and> last p = ''plaintext-password'' \<and> p ! 2 = ''interface'')"

lemma isis_single_schema: "isis_schema isis_single"
  by (simp add: isis_schema_def isis_single_def isis_fields_def isis_interface_fields_def isis_interface_path_def isis_base_def
    redist_path_def originate_path_def)

text \<open>Static routes move from level 2 to level 1, and the overload bit goes.\<close>

definition redist_static :: "isis_level \<Rightarrow> isis_redistribute" where
  "redist_static l = \<lparr>ir_afi = IsisIPv4, ir_protocol = ''static'', ir_level = l\<rparr>"

lemma isis_global_save_witness:
  "run (ref_dev isis_single)
     (diffIsisGlobal (emptyIsisGlobal\<lparr>ig_set_overload_bit := True, ig_redistribute := [redist_static Level2]\<rparr>)
       (emptyIsisGlobal\<lparr>ig_redistribute := [redist_static Level1]\<rparr>))
     (isis_before (emptyIsisGlobal\<lparr>ig_set_overload_bit := True, ig_redistribute := [redist_static Level2]\<rparr>)) =
   isis_after (emptyIsisGlobal\<lparr>ig_redistribute := [redist_static Level1]\<rparr>)"
  (is "run _ (diffIsisGlobal ?l ?u) _ = _")
proof -
  have e: "isis_before ?l \<subseteq> isis_region"
    using isis_edits [OF ref_dev_laws isis_single_schema, of ?l ?u] by (simp add: edits_def)
  then have "isis_before ?l \<inter> isis_region = isis_before ?l" by blast
  from isis_global_save [OF ref_dev_laws isis_single_schema this, of ?u] show ?thesis using e by blast
qed

end
