(* ===== verification/Ospf.thy ===== *)
theory Ospf
  imports Switched_Nodes
begin

text \<open>
  OSPF: \<open>lib/ospf.ts\<close>. A global form with two subtrees that are switched on and off (logging of adjacency
  changes, origination of a default route), areas whose type is a node of its own, and interfaces.
\<close>

section \<open>Model\<close>

definition OSPF_REDISTRIBUTE :: "string list" where
  "OSPF_REDISTRIBUTE = [''connected'', ''static'', ''kernel'', ''bgp'', ''rip'']"

definition OSPF_NETWORK_TYPES :: "string list" where
  "OSPF_NETWORK_TYPES = [''broadcast'', ''non-broadcast'', ''point-to-multipoint'', ''point-to-point'']"

datatype area_type = NormalArea | StubArea | NssaArea

fun area_type_str :: "area_type \<Rightarrow> string" where
  "area_type_str NormalArea = ''normal''"
| "area_type_str StubArea = ''stub''"
| "area_type_str NssaArea = ''nssa''"

record ospf_global =
  og_router_id :: "string option"
  og_default_information :: bool
  og_default_information_always :: bool
  og_default_information_metric :: "int option"
  og_default_information_metric_type :: "string option"
  og_default_metric :: "int option"
  og_reference_bandwidth :: "int option"
  og_distance :: "int option"
  og_maximum_paths :: "int option"
  og_log_adjacency_changes :: bool
  og_log_adjacency_changes_detail :: bool
  og_passive_default :: bool
  og_redistribute :: "string list"

record ospf_area =
  oa_area :: string
  oa_area_type :: area_type
  oa_no_summary :: bool
  oa_networks :: "string list"
  oa_ranges :: "string list"

record ospf_interface =
  oi_name :: string
  oi_area :: "string option"
  oi_cost :: "int option"
  oi_priority :: "int option"
  oi_hello_interval :: "int option"
  oi_dead_interval :: "int option"
  oi_network_type :: "string option"
  oi_passive :: bool
  oi_bfd :: bool
  oi_mtu_ignore :: bool
  oi_auth_password :: "string option"

record ospf_config =
  oc_global :: ospf_global
  oc_areas :: "ospf_area list"
  oc_interfaces :: "ospf_interface list"

definition emptyOspfGlobal :: ospf_global where
  "emptyOspfGlobal = \<lparr>og_router_id = None, og_default_information = False, og_default_information_always = False,
     og_default_information_metric = None, og_default_information_metric_type = None, og_default_metric = None,
     og_reference_bandwidth = None, og_distance = None, og_maximum_paths = None, og_log_adjacency_changes = False,
     og_log_adjacency_changes_detail = False, og_passive_default = False, og_redistribute = []\<rparr>"

definition emptyOspfArea :: ospf_area where
  "emptyOspfArea = \<lparr>oa_area = '''', oa_area_type = NormalArea, oa_no_summary = False, oa_networks = [], oa_ranges = []\<rparr>"

definition emptyOspfInterface :: ospf_interface where
  "emptyOspfInterface = \<lparr>oi_name = '''', oi_area = None, oi_cost = None, oi_priority = None, oi_hello_interval = None,
     oi_dead_interval = None, oi_network_type = None, oi_passive = False, oi_bfd = False, oi_mtu_ignore = False,
     oi_auth_password = None\<rparr>"

section \<open>Reader\<close>

definition parse_ospf_global :: "json \<Rightarrow> ospf_global" where
  "parse_ospf_global ospf =
     (let params = obj_child ospf ''parameters'';
          originate = Option.bind (obj_childCfg ospf ''default-information'') (\<lambda>di. obj_childCfg di ''originate'');
          lac = obj_childCfg ospf ''log-adjacency-changes'' in
      \<lparr>og_router_id = childStr params ''router-id'', og_default_information = (originate \<noteq> None),
        og_default_information_always = (case originate of None \<Rightarrow> False | Some n \<Rightarrow> present ''always'' n),
        og_default_information_metric = Option.bind originate (\<lambda>n. childNum n ''metric''),
        og_default_information_metric_type = Option.bind originate (\<lambda>n. childStr n ''metric-type''),
        og_default_metric = childNum ospf ''default-metric'',
        og_reference_bandwidth = childNum (obj_child ospf ''auto-cost'') ''reference-bandwidth'',
        og_distance = childNum (obj_child ospf ''distance'') ''global'', og_maximum_paths = childNum ospf ''maximum-paths'',
        og_log_adjacency_changes = present ''log-adjacency-changes'' ospf,
        og_log_adjacency_changes_detail = (case lac of None \<Rightarrow> False | Some n \<Rightarrow> present ''detail'' n),
        og_passive_default = present ''default'' (obj_child ospf ''passive-interface''),
        og_redistribute = filter (\<lambda>k. k \<in> set OSPF_REDISTRIBUTE) (keys_at ospf ''redistribute'')\<rparr>)"

definition parse_ospf_area :: "string \<times> json \<Rightarrow> ospf_area" where
  "parse_ospf_area e =
     (let raw = or_empty (snd e);
          kind = (case obj_childCfg raw ''area-type'' of None \<Rightarrow> (NormalArea, False)
            | Some t \<Rightarrow>
                if present ''nssa'' t then (NssaArea, present ''no-summary'' (obj_child t ''nssa''))
                else if present ''stub'' t then (StubArea, present ''no-summary'' (obj_child t ''stub''))
                else (NormalArea, False)) in
      \<lparr>oa_area = fst e, oa_area_type = fst kind, oa_no_summary = snd kind, oa_networks = keys_at raw ''network'',
        oa_ranges = keys_at raw ''range''\<rparr>)"

definition parse_ospf_interface :: "string \<times> json \<Rightarrow> read_error + ospf_interface" where
  "parse_ospf_interface e = (let raw = or_empty (snd e) in
     case has_key ''passive'' raw of Inl err \<Rightarrow> Inl err | Inr passive \<Rightarrow>
     (case has_key ''bfd'' raw of Inl err \<Rightarrow> Inl err | Inr bfd \<Rightarrow>
     (case has_key ''mtu-ignore'' raw of Inl err \<Rightarrow> Inl err | Inr mtu \<Rightarrow>
      Inr \<lparr>oi_name = fst e, oi_area = childStr raw ''area'', oi_cost = childNum raw ''cost'', oi_priority = childNum raw ''priority'',
        oi_hello_interval = childNum raw ''hello-interval'', oi_dead_interval = childNum raw ''dead-interval'',
        oi_network_type = childStr raw ''network'',
        oi_passive = (passive \<and> \<not> (case obj_childCfg raw ''passive'' of None \<Rightarrow> False | Some p \<Rightarrow> present ''disable'' p)),
        oi_bfd = bfd, oi_mtu_ignore = mtu,
        oi_auth_password = Option.bind (obj_childCfg raw ''authentication'') (\<lambda>a. childStr a ''plaintext-password'')\<rparr>)))"

text \<open>Areas are sorted by a comparison that reads runs of digits as numbers (\<open>num_lc\<close>).\<close>

definition fetchOspf ::
  "(string \<Rightarrow> string \<Rightarrow> int) \<Rightarrow> (string \<Rightarrow> string \<Rightarrow> int) \<Rightarrow> vyos_response \<Rightarrow> read_error + ospf_config" where
  "fetchOspf lc num_lc resp = (case config_of_response ''Device returned an error reading OSPF configuration.'' resp of
     Inl e \<Rightarrow> Inl e | Inr ospf \<Rightarrow>
     (case named_rows lc oi_name parse_ospf_interface ospf ''interface'' of Inl e \<Rightarrow> Inl e | Inr interfaces \<Rightarrow>
      Inr \<lparr>oc_global = parse_ospf_global ospf,
        oc_areas = sort_by (\<lambda>a b. num_lc (oa_area a) (oa_area b)) (map parse_ospf_area (object_entries ospf ''area'')),
        oc_interfaces = interfaces\<rparr>))"

text \<open>
  The networks of an area are values of a multi-value leaf. Rendered as a string or as an array of
  strings, as \<open>wireguard.ts\<close> reads such leaves, they are read as no network, or as their positions.
\<close>

lemma ospf_networks_misread:
  "oa_networks (parse_ospf_area (''0'', JObj [(''network'', JStr ''10.0.0.0/8'')])) = []"
  "oa_networks (parse_ospf_area (''0'', JObj [(''network'', JArr [JStr ''10.0.0.0/8'', JStr ''10.1.0.0/16''])])) = [''0'', ''1'']"
  by code_simp+

section \<open>Diff\<close>

definition ospf_base :: path where
  "ospf_base = [''protocols'', ''ospf'']"

definition ospf_fields :: "ospf_global \<Rightarrow> ospf_global \<Rightarrow> field list" where
  "ospf_fields live u =
     [Leaf [''parameters'', ''router-id''] (og_router_id live) (blank_to_none (og_router_id u)),
      Leaf [''default-metric''] (numStr (og_default_metric live)) (numStr (og_default_metric u)),
      Leaf [''auto-cost'', ''reference-bandwidth''] (numStr (og_reference_bandwidth live)) (numStr (og_reference_bandwidth u)),
      Leaf [''distance'', ''global''] (numStr (og_distance live)) (numStr (og_distance u)),
      Leaf [''maximum-paths''] (numStr (og_maximum_paths live)) (numStr (og_maximum_paths u)),
      Flag [''passive-interface'', ''default''] (og_passive_default live) (og_passive_default u)]"

definition log_base :: path where
  "log_base = ospf_base @ [''log-adjacency-changes'']"

definition log_cmds :: "ospf_global \<Rightarrow> ospf_global \<Rightarrow> vyos_command list" where
  "log_cmds live u = flag_cmds log_base (og_log_adjacency_changes live) (og_log_adjacency_changes u) @
     (if og_log_adjacency_changes u
      then flag_cmds (log_base @ [''detail'']) (og_log_adjacency_changes live \<and> og_log_adjacency_changes_detail live)
        (og_log_adjacency_changes_detail u)
      else [])"

definition information_base :: path where
  "information_base = ospf_base @ [''default-information'']"

definition originate_base :: path where
  "originate_base = information_base @ [''originate'']"

definition originate_fields :: "ospf_global option \<Rightarrow> ospf_global \<Rightarrow> field list" where
  "originate_fields base u =
     [Flag [''always''] (case base of None \<Rightarrow> False | Some l \<Rightarrow> og_default_information_always l) (og_default_information_always u),
      Leaf [''metric''] (numStr (Option.bind base og_default_information_metric)) (numStr (og_default_information_metric u)),
      Leaf [''metric-type''] (Option.bind base og_default_information_metric_type)
        (blank_to_none (og_default_information_metric_type u))]"

definition originate_cmds :: "ospf_global \<Rightarrow> ospf_global \<Rightarrow> vyos_command list" where
  "originate_cmds live u =
     (if \<not> og_default_information u then (if og_default_information live then [cdel information_base] else [])
      else (if \<not> og_default_information live then [cset originate_base] else []) @
        form_cmds originate_base (originate_fields (if og_default_information live then Some live else None) u))"

definition redistribute_fields :: "ospf_global \<Rightarrow> ospf_global \<Rightarrow> field list" where
  "redistribute_fields live u = [Multi [''redistribute''] (og_redistribute live) (clean (og_redistribute u))]"

definition diffOspfGlobal :: "ospf_global \<Rightarrow> ospf_global \<Rightarrow> vyos_command list" where
  "diffOspfGlobal live u = form_cmds ospf_base (ospf_fields live u) @ log_cmds live u @ originate_cmds live u @
     form_cmds ospf_base (redistribute_fields live u)"

definition ospf_area_path :: "string \<Rightarrow> path" where
  "ospf_area_path area = ospf_base @ [''area'', area]"

definition area_kind_path :: "string \<Rightarrow> area_type \<Rightarrow> path" where
  "area_kind_path area t = ospf_area_path area @ [''area-type'', area_type_str t]"

text \<open>The type of an area is rebuilt when it changes.\<close>

definition area_type_cmds :: "ospf_area option \<Rightarrow> ospf_area \<Rightarrow> vyos_command list" where
  "area_type_cmds live u =
     (let live_type = (case live of None \<Rightarrow> NormalArea | Some l \<Rightarrow> oa_area_type l);
          live_no_summary = (case live of None \<Rightarrow> False | Some l \<Rightarrow> oa_area_type l = oa_area_type u \<and> oa_no_summary l) in
      (if oa_area_type u \<noteq> live_type
       then (if live \<noteq> None \<and> live_type \<noteq> NormalArea then [cdel (ospf_area_path (oa_area u) @ [''area-type''])] else []) @
         (if oa_area_type u \<noteq> NormalArea then [cset (area_kind_path (oa_area u) (oa_area_type u))] else [])
       else []) @
      (if oa_area_type u \<noteq> NormalArea
       then flag_cmds (area_kind_path (oa_area u) (oa_area_type u) @ [''no-summary'']) live_no_summary (oa_no_summary u)
       else []))"

definition area_fields :: "ospf_area option \<Rightarrow> ospf_area \<Rightarrow> field list" where
  "area_fields live u =
     [Multi [''network''] (case live of None \<Rightarrow> [] | Some l \<Rightarrow> oa_networks l) (clean (oa_networks u)),
      Multi [''range''] (case live of None \<Rightarrow> [] | Some l \<Rightarrow> oa_ranges l) (clean (oa_ranges u))]"

definition diffOspfArea :: "ospf_area option \<Rightarrow> ospf_area \<Rightarrow> vyos_command list" where
  "diffOspfArea live u = ensureCreated (area_type_cmds live u @ form_cmds (ospf_area_path (oa_area u)) (area_fields live u))
     (ospf_area_path (oa_area u)) (live = None)"

definition deleteOspfArea_cmds :: "string \<Rightarrow> vyos_command list" where
  "deleteOspfArea_cmds area = [cdel (ospf_area_path area)]"

definition ospf_interface_path :: "string \<Rightarrow> path" where
  "ospf_interface_path name = ospf_base @ [''interface'', name]"

definition ospf_interface_fields :: "ospf_interface option \<Rightarrow> ospf_interface \<Rightarrow> field list" where
  "ospf_interface_fields live u =
     [Leaf [''area''] (Option.bind live oi_area) (blank_to_none (oi_area u)),
      Leaf [''cost''] (numStr (Option.bind live oi_cost)) (numStr (oi_cost u)),
      Leaf [''priority''] (numStr (Option.bind live oi_priority)) (numStr (oi_priority u)),
      Leaf [''hello-interval''] (numStr (Option.bind live oi_hello_interval)) (numStr (oi_hello_interval u)),
      Leaf [''dead-interval''] (numStr (Option.bind live oi_dead_interval)) (numStr (oi_dead_interval u)),
      Leaf [''network''] (Option.bind live oi_network_type) (blank_to_none (oi_network_type u)),
      Flag [''passive''] (case live of None \<Rightarrow> False | Some l \<Rightarrow> oi_passive l) (oi_passive u),
      Flag [''bfd''] (case live of None \<Rightarrow> False | Some l \<Rightarrow> oi_bfd l) (oi_bfd u),
      Flag [''mtu-ignore''] (case live of None \<Rightarrow> False | Some l \<Rightarrow> oi_mtu_ignore l) (oi_mtu_ignore u),
      Leaf [''authentication'', ''plaintext-password''] (Option.bind live oi_auth_password) (blank_to_none (oi_auth_password u))]"

definition diffOspfInterface :: "ospf_interface option \<Rightarrow> ospf_interface \<Rightarrow> vyos_command list" where
  "diffOspfInterface live u = ensureCreated (form_cmds (ospf_interface_path (oi_name u)) (ospf_interface_fields live u))
     (ospf_interface_path (oi_name u)) (live = None)"

definition deleteOspfInterface_cmds :: "string \<Rightarrow> vyos_command list" where
  "deleteOspfInterface_cmds name = [cdel (ospf_interface_path name)]"

section \<open>The parts of the configuration\<close>

definition detail_fields :: "bool option \<Rightarrow> bool \<Rightarrow> field list" where
  "detail_fields live d = [Flag [''detail''] (live = Some True) d]"

definition summary_fields :: "bool option \<Rightarrow> bool \<Rightarrow> field list" where
  "summary_fields live d = [Flag [''no-summary''] (live = Some True) d]"

definition ospf_schema :: "(path \<Rightarrow> bool) \<Rightarrow> bool" where
  "ospf_schema single \<longleftrightarrow>
     (\<forall>f\<in>set (ospf_fields emptyOspfGlobal emptyOspfGlobal @ redistribute_fields emptyOspfGlobal emptyOspfGlobal).
        field_schema single ospf_base f) \<and>
     \<not> single ospf_base \<and> \<not> single log_base \<and> \<not> single information_base \<and>
     (\<forall>f\<in>set (originate_fields None emptyOspfGlobal). field_schema single originate_base f) \<and>
     \<not> single (ospf_base @ [''area'']) \<and> \<not> single (ospf_base @ [''interface'']) \<and>
     (\<forall>a. \<not> single (ospf_area_path a @ [''area-type'']) \<and> (\<forall>t. \<not> single (area_kind_path a t)) \<and>
        (\<forall>f\<in>set (area_fields None emptyOspfArea). field_schema single (ospf_area_path a) f)) \<and>
     (\<forall>n. \<forall>f\<in>set (ospf_interface_fields None emptyOspfInterface). field_schema single (ospf_interface_path n) f)"

interpretation adjacency_log: child_forms ospf_schema "\<lambda>_ :: unit. log_base" "\<lambda>_ (_ :: unit). log_base" detail_fields
  by unfold_locales (auto simp: detail_fields_def apart_fields_def form_defs ospf_schema_def log_base_def butlast_append)

interpretation origination: child_forms ospf_schema "\<lambda>_ :: unit. information_base" "\<lambda>_ (_ :: unit). originate_base" originate_fields
  by unfold_locales (auto simp: originate_fields_def apart_fields_def form_defs ospf_schema_def originate_base_def butlast_append
    numStr_def)

interpretation area_kinds: child_forms ospf_schema "\<lambda>a. ospf_area_path a @ [''area-type'']" area_kind_path summary_fields
proof unfold_locales
  fix n k l
  assume "k \<noteq> (l :: area_type)"
  then show "cone (area_kind_path n k) \<inter> cone (area_kind_path n l) = {}"
    by (cases k; cases l) (simp_all add: area_kind_path_def cone_disjoint_iff)
qed (auto simp: summary_fields_def area_kind_path_def apart_fields_def form_defs ospf_schema_def butlast_append)

interpretation ospf_interfaces: child_forms ospf_schema "\<lambda>_ :: unit. ospf_base @ [''interface'']" "\<lambda>_. ospf_interface_path"
  ospf_interface_fields
  by unfold_locales (auto simp: ospf_interface_path_def ospf_interface_fields_def apart_fields_def form_defs ospf_schema_def
    cone_disjoint_iff butlast_append numStr_def)

definition log_state :: "ospf_global \<Rightarrow> bool option" where
  "log_state g = (if og_log_adjacency_changes g then Some (og_log_adjacency_changes_detail g) else None)"

definition originate_state :: "ospf_global \<Rightarrow> ospf_global option" where
  "originate_state g = (if og_default_information g then Some g else None)"

lemma log_switched: "log_cmds live u = switched_cmds log_base (\<lambda>_. log_base) detail_fields () (log_state live) (log_state u)"
  by (auto simp: log_cmds_def switched_cmds_def log_state_def created_item_def detail_fields_def form_cmds_def flag_cmds_def)

lemma originate_switched:
  "originate_cmds live u = switched_cmds information_base (\<lambda>_. originate_base) originate_fields () (originate_state live) (originate_state u)"
  by (simp add: originate_cmds_def switched_cmds_def originate_state_def created_item_def)

section \<open>What a save of the settings does\<close>

definition ospf_segments :: "ospf_global \<Rightarrow> ospf_global \<Rightarrow> segment list" where
  "ospf_segments live u =
     [form_seg ospf_base (ospf_fields live u),
      (cone log_base, log_cmds live u, switched_before (\<lambda>_. log_base) detail_fields () (log_state live),
        switched_after (\<lambda>_. log_base) detail_fields () (log_state u)),
      (cone information_base, originate_cmds live u, switched_before (\<lambda>_. originate_base) originate_fields () (originate_state live),
        switched_after (\<lambda>_. originate_base) originate_fields () (originate_state u)),
      form_seg ospf_base (redistribute_fields live u)]"

definition ospf_region :: "path set" where
  "ospf_region = seg_region (ospf_segments emptyOspfGlobal emptyOspfGlobal)"

definition ospf_before :: "ospf_global \<Rightarrow> path set" where
  "ospf_before l = seg_before (ospf_segments l l)"

definition ospf_after :: "ospf_global \<Rightarrow> path set" where
  "ospf_after u = seg_after (ospf_segments emptyOspfGlobal u)"

lemma ospf_edits:
  assumes dev: "device_laws dev single" and sch: "ospf_schema single"
  shows "edits dev ospf_region (diffOspfGlobal live u) (ospf_before live) (ospf_after u)"
proof -
  have f: "\<forall>f\<in>set (ospf_fields live u). field_schema single ospf_base f"
      "\<forall>f\<in>set (redistribute_fields live u). field_schema single ospf_base f"
    using sch by (simp_all add: ospf_schema_def ospf_fields_def redistribute_fields_def)
  have a: "apart_fields (ospf_fields live u)" "apart_fields (redistribute_fields live u)"
    by (simp_all add: ospf_fields_def redistribute_fields_def apart_fields_def)
  have ok: "\<forall>x\<in>set (ospf_segments live u). seg_ok dev x"
    unfolding ospf_segments_def log_switched originate_switched
    using form_seg_ok [OF dev f(1) a(1)] form_seg_ok [OF dev f(2) a(2)]
      adjacency_log.switched_edits [OF dev sch, of log_base] origination.switched_edits [OF dev sch, of information_base]
    by (simp add: originate_base_def)
  have disj: "sorted_wrt (\<lambda>x y. fst x \<inter> fst y = {}) (ospf_segments live u)"
    by (simp add: ospf_segments_def form_seg_def form_region_apart form_regions_apart ospf_fields_def redistribute_fields_def
      log_base_def information_base_def cone_disjoint_iff)
  have "seg_region (ospf_segments live u) = ospf_region" "seg_before (ospf_segments live u) = ospf_before live"
      "seg_after (ospf_segments live u) = ospf_after u"
    by (simp_all add: ospf_region_def ospf_before_def ospf_after_def ospf_segments_def seg_defs form_seg_def form_defs
      ospf_fields_def redistribute_fields_def)
  moreover have "seg_cmds (ospf_segments live u) = diffOspfGlobal live u"
    by (simp add: ospf_segments_def seg_cmds_def diffOspfGlobal_def form_seg_def)
  ultimately show ?thesis using edits_segments [OF ok disj] by simp
qed

text \<open>
  The settings on the device, spelled out leaf by leaf; the field lists and segments above, which make the
  commands, do not enter it. Two subtrees are there only while they are switched on: the detail of the
  adjacency log below the log, and the leaves of the default route below its node.
\<close>

definition ospf_settings_paths :: "ospf_global \<Rightarrow> path set" where
  "ospf_settings_paths g = (let b = [''protocols'', ''ospf''] in
     leaf_paths (b @ [''parameters'', ''router-id'']) (og_router_id g) \<union>
     leaf_paths (b @ [''default-metric'']) (map_option string_of_int (og_default_metric g)) \<union>
     leaf_paths (b @ [''auto-cost'', ''reference-bandwidth'']) (map_option string_of_int (og_reference_bandwidth g)) \<union>
     leaf_paths (b @ [''distance'', ''global'']) (map_option string_of_int (og_distance g)) \<union>
     leaf_paths (b @ [''maximum-paths'']) (map_option string_of_int (og_maximum_paths g)) \<union>
     flag_paths (b @ [''passive-interface'', ''default'']) (og_passive_default g) \<union>
     flag_paths (b @ [''log-adjacency-changes'']) (og_log_adjacency_changes g) \<union>
     flag_paths (b @ [''log-adjacency-changes'', ''detail'']) (og_log_adjacency_changes g \<and> og_log_adjacency_changes_detail g) \<union>
     (if og_default_information g
      then insert (b @ [''default-information'', ''originate''])
        (flag_paths (b @ [''default-information'', ''originate'', ''always'']) (og_default_information_always g) \<union>
         leaf_paths (b @ [''default-information'', ''originate'', ''metric'']) (map_option string_of_int (og_default_information_metric g)) \<union>
         leaf_paths (b @ [''default-information'', ''originate'', ''metric-type'']) (og_default_information_metric_type g))
      else {}) \<union>
     list_paths (b @ [''redistribute'']) (og_redistribute g))"

definition ospf_settings_places :: "path set" where
  "ospf_settings_places = (let b = [''protocols'', ''ospf''] in
     cone (b @ [''parameters'', ''router-id'']) \<union> cone (b @ [''default-metric'']) \<union> cone (b @ [''auto-cost'', ''reference-bandwidth'']) \<union>
     cone (b @ [''distance'', ''global'']) \<union> cone (b @ [''maximum-paths'']) \<union> cone (b @ [''passive-interface'', ''default'']) \<union>
     cone (b @ [''log-adjacency-changes'']) \<union> cone (b @ [''default-information'']) \<union> cone (b @ [''redistribute'']))"

text \<open>What a filled form stands for: blanks around a text are dropped, and a blank text is no text.\<close>

definition ospf_settings_form :: "ospf_global \<Rightarrow> ospf_global" where
  "ospf_settings_form u = u\<lparr>og_router_id := blank_to_none (og_router_id u),
     og_default_information_metric_type := blank_to_none (og_default_information_metric_type u), og_redistribute := clean (og_redistribute u)\<rparr>"

lemma ospf_before_paths: "ospf_before l = ospf_settings_paths l"
proof -
  have "switched_before (\<lambda>_. log_base) detail_fields () (log_state l) =
      flag_paths log_base (og_log_adjacency_changes l) \<union>
      flag_paths (log_base @ [''detail'']) (og_log_adjacency_changes l \<and> og_log_adjacency_changes_detail l)"
    by (simp add: switched_before_def log_state_def created_before_def detail_fields_def form_live_def flag_paths_def insert_commute)
  then show ?thesis
    by (simp add: ospf_before_def ospf_segments_def seg_before_def form_seg_def ospf_settings_paths_def Let_def)
      (simp add: form_live_def ospf_fields_def redistribute_fields_def numStr_def log_base_def ospf_base_def switched_before_def
        originate_state_def created_before_def originate_fields_def originate_base_def information_base_def Un_ac)
qed

lemma ospf_after_paths: "ospf_after u = ospf_settings_paths (ospf_settings_form u)"
proof -
  have "switched_after (\<lambda>_. log_base) detail_fields () (log_state u) =
      flag_paths log_base (og_log_adjacency_changes u) \<union>
      flag_paths (log_base @ [''detail'']) (og_log_adjacency_changes u \<and> og_log_adjacency_changes_detail u)"
    by (simp add: switched_after_def log_state_def created_after_def detail_fields_def form_desired_def flag_paths_def insert_commute)
  then show ?thesis
    by (simp add: ospf_after_def ospf_segments_def seg_after_def form_seg_def ospf_settings_paths_def ospf_settings_form_def Let_def)
      (simp add: form_desired_def ospf_fields_def redistribute_fields_def numStr_def log_base_def ospf_base_def switched_after_def
        originate_state_def created_after_def originate_fields_def originate_base_def information_base_def Un_ac)
qed

lemma ospf_region_places: "ospf_region = ospf_settings_places"
  by (simp add: ospf_region_def ospf_segments_def seg_region_def form_seg_def form_region_def ospf_fields_def redistribute_fields_def
      ospf_settings_places_def log_base_def information_base_def ospf_base_def Let_def Un_ac)

text \<open>
  C36: saving the OSPF settings on a device that holds the settings the form was opened with leaves exactly
  the leaves of the filled form (\<open>ospf_settings_paths\<close> says leaf by leaf which they are), with the two
  subtrees that are switched as a whole: the detail of the adjacency log exists only with the log, and the
  leaves of the default route go with it and start from nothing when it comes back. Areas, interfaces and
  everything else on the device stay as they are.
\<close>

theorem ospf_global_save:
  assumes "device_laws dev single" and "ospf_schema single" and "S \<inter> ospf_settings_places = ospf_settings_paths live"
  shows "run dev (diffOspfGlobal live u) S = (S - ospf_settings_places) \<union> ospf_settings_paths (ospf_settings_form u)"
  using edits_run [OF ospf_edits [OF assms(1,2)], of S live u] assms(3)
  by (simp add: ospf_before_paths ospf_after_paths ospf_region_places)

section \<open>What a save of an area does\<close>

definition kind_before :: "string \<Rightarrow> ospf_area \<Rightarrow> path set" where
  "kind_before a l = (if oa_area_type l = NormalArea then {}
     else created_before (area_kind_path a) summary_fields (oa_area_type l) (oa_no_summary l))"

definition kind_after :: "string \<Rightarrow> ospf_area \<Rightarrow> path set" where
  "kind_after a u = (if oa_area_type u = NormalArea then {}
     else created_after (area_kind_path a) summary_fields (oa_area_type u) (oa_no_summary u))"

definition live_kind :: "string \<Rightarrow> ospf_area option \<Rightarrow> path set" where
  "live_kind a live = (case live of None \<Rightarrow> {} | Some l \<Rightarrow> kind_before a l)"

text \<open>The commands for the type, by what it was and what it becomes.\<close>

lemma area_type_same:
  assumes "live = Some l" and "oa_area_type l = oa_area_type u" and "oa_area_type u \<noteq> NormalArea"
  shows "area_type_cmds live u =
    created_item (area_kind_path (oa_area u)) summary_fields (oa_area_type u) (Some (oa_no_summary l)) (oa_no_summary u)"
  using assms by (simp add: area_type_cmds_def created_item_def summary_fields_def form_cmds_def)

lemma area_type_changed:
  assumes "live = None \<Longrightarrow> t = NormalArea" and "\<And>l. live = Some l \<Longrightarrow> t = oa_area_type l" and "t \<noteq> oa_area_type u"
  shows "area_type_cmds live u =
    (if t = NormalArea then [] else [cdel (ospf_area_path (oa_area u) @ [''area-type''])]) @
    (if oa_area_type u = NormalArea then []
     else created_item (area_kind_path (oa_area u)) summary_fields (oa_area_type u) None (oa_no_summary u))"
  using assms
  by (cases live) (auto simp: area_type_cmds_def created_item_def summary_fields_def form_cmds_def)

lemma area_type_edits:
  assumes dev: "device_laws dev single" and sch: "ospf_schema single"
  shows "edits dev (cone (ospf_area_path (oa_area u) @ [''area-type''])) (area_type_cmds live u)
    (live_kind (oa_area u) live) (kind_after (oa_area u) u)"
proof -
  let ?a = "oa_area u" and ?C = "cone (ospf_area_path (oa_area u) @ [''area-type''])"
  define t where "t = (case live of None \<Rightarrow> NormalArea | Some l \<Rightarrow> oa_area_type l)"
  have sub: "cone (area_kind_path ?a k) \<subseteq> ?C" for k
    using cone_append_subset [of "ospf_area_path ?a @ [''area-type'']"] by (simp add: area_kind_path_def)
  have "created_before (area_kind_path ?a) summary_fields k i \<subseteq> ?C" for k i
    using area_kinds.created.before_in [of ?a k i] sub [of k] by blast
  then have in_C: "live_kind ?a live \<subseteq> ?C" by (simp add: live_kind_def kind_before_def split: option.split)
  have new: "edits dev ?C (if oa_area_type u = NormalArea then []
       else created_item (area_kind_path ?a) summary_fields (oa_area_type u) None (oa_no_summary u)) {} (kind_after ?a u)"
    using edits_widen [OF area_kinds.created.item_new [OF dev sch] sub]
    by (simp add: kind_after_def edits_nil)
  show ?thesis
  proof (cases "t = oa_area_type u")
    case True
    show ?thesis
    proof (cases "t = NormalArea")
      case normal: True
      have "area_type_cmds live u = []" using True normal by (cases live) (simp_all add: t_def area_type_cmds_def)
      moreover have "live_kind ?a live = {}" "kind_after ?a u = {}"
        using True normal by (cases live; simp add: t_def live_kind_def kind_before_def kind_after_def)+
      ultimately show ?thesis by (simp add: edits_nil)
    next
      case False
      then obtain l where l: "live = Some l" "oa_area_type l = oa_area_type u" "oa_area_type u \<noteq> NormalArea"
        using True by (cases live) (auto simp: t_def)
      show ?thesis unfolding area_type_same [OF l]
        using edits_widen [OF area_kinds.created.item_live [OF dev sch] sub] l
        by (simp add: live_kind_def kind_before_def kind_after_def)
    qed
  next
    case False
    have cmds: "area_type_cmds live u = (if t = NormalArea then [] else [cdel (ospf_area_path ?a @ [''area-type''])]) @
        (if oa_area_type u = NormalArea then []
         else created_item (area_kind_path ?a) summary_fields (oa_area_type u) None (oa_no_summary u))"
      using False by (intro area_type_changed) (auto simp: t_def)
    have "edits dev ?C (if t = NormalArea then [] else [cdel (ospf_area_path ?a @ [''area-type''])]) (live_kind ?a live) {}"
    proof (cases "t = NormalArea")
      case True
      then have "live_kind ?a live = {}" by (cases live) (simp_all add: t_def live_kind_def kind_before_def)
      then show ?thesis by (simp add: True edits_nil)
    next
      case False
      then show ?thesis using edits_delete [OF dev in_C] by simp
    qed
    then show ?thesis unfolding cmds using new by (rule edits_seq)
  qed
qed

definition ospf_area_region :: "string \<Rightarrow> path set" where
  "ospf_area_region a = cone (ospf_area_path a @ [''area-type'']) \<union> form_region (ospf_area_path a) (area_fields None emptyOspfArea)"

definition ospf_area_before :: "string \<Rightarrow> ospf_area option \<Rightarrow> path set" where
  "ospf_area_before a live = (case live of None \<Rightarrow> {}
     | Some l \<Rightarrow> kind_before a l \<union> form_live (ospf_area_path a) (area_fields (Some l) l))"

definition ospf_area_after :: "ospf_area \<Rightarrow> path set" where
  "ospf_area_after u = kind_after (oa_area u) u \<union> form_desired (ospf_area_path (oa_area u)) (area_fields None u)"

lemma area_edits:
  assumes dev: "device_laws dev single" and sch: "ospf_schema single"
  shows "edits dev (ospf_area_region (oa_area u)) (area_type_cmds live u @ form_cmds (ospf_area_path (oa_area u)) (area_fields live u))
    (ospf_area_before (oa_area u) live) (ospf_area_after u)"
proof -
  let ?b = "ospf_area_path (oa_area u)"
  have f: "\<forall>f\<in>set (area_fields live u). field_schema single ?b f" using sch by (simp add: ospf_schema_def area_fields_def)
  have a: "apart_fields (area_fields live u)" by (simp add: area_fields_def apart_fields_def)
  have apart: "cone (?b @ [''area-type'']) \<inter> form_region ?b (area_fields live u) = {}"
    by (simp add: form_region_apart area_fields_def)
  have "form_region ?b (area_fields live u) = form_region ?b (area_fields None emptyOspfArea)"
    by (simp add: form_region_def area_fields_def)
  moreover have "form_desired ?b (area_fields live u) = form_desired ?b (area_fields None u)"
    by (simp add: form_desired_def area_fields_def)
  moreover have "live_kind (oa_area u) live \<union> form_live ?b (area_fields live u) = ospf_area_before (oa_area u) live"
    by (simp add: live_kind_def form_live_def area_fields_def ospf_area_before_def split: option.split)
  ultimately show ?thesis
    using edits_append [OF area_type_edits [OF dev sch, of u live] edits_form [OF dev f a] apart]
    by (simp add: ospf_area_region_def ospf_area_after_def)
qed


section \<open>Interfaces\<close>

theorem ospf_interface_save:
  assumes "device_laws dev single" and "ospf_schema single" and "b = ospf_interface_path (oi_name u)"
    and "S \<inter> form_region b (ospf_interface_fields None u) =
      (case live of None \<Rightarrow> {} | Some l \<Rightarrow> form_live b (ospf_interface_fields (Some l) l))"
  shows "run dev (diffOspfInterface live u) S =
    (S - form_region b (ospf_interface_fields None u)) \<union> form_desired b (ospf_interface_fields None u) \<union>
    (if live = None \<and> form_desired b (ospf_interface_fields None u) = {} then {b} else {})"
  unfolding diffOspfInterface_def assms(3) [symmetric]
  by (rule ospf_interfaces.ensured_run [OF assms(1,2,3) _ assms(4)]) (simp add: ospf_interface_fields_def)

section \<open>An example\<close>

definition ospf_single :: "path \<Rightarrow> bool" where
  "ospf_single p \<longleftrightarrow>
     (length p = 3 \<and> last p \<in> {''default-metric'', ''maximum-paths''}) \<or>
     (length p = 4 \<and> last p \<in> {''router-id'', ''reference-bandwidth'', ''global''} \<and> p ! 2 \<notin> {''area'', ''interface''}) \<or>
     (length p = 5 \<and> p ! 2 = ''default-information'') \<or>
     (length p = 5 \<and> p ! 2 = ''interface'' \<and> last p \<noteq> ''authentication'') \<or>
     (length p = 6 \<and> p ! 2 = ''interface'' \<and> last p = ''plaintext-password'')"

lemma ospf_single_schema: "ospf_schema ospf_single"
  by (simp add: ospf_schema_def ospf_single_def ospf_fields_def redistribute_fields_def originate_fields_def area_fields_def
    ospf_interface_fields_def ospf_interface_path_def area_kind_path_def ospf_area_path_def originate_base_def information_base_def
    log_base_def ospf_base_def)

text \<open>A stub area becomes a not-so-stubby one and loses a network.\<close>

definition area_of :: "area_type \<Rightarrow> bool \<Rightarrow> string list \<Rightarrow> ospf_area" where
  "area_of t s ns = \<lparr>oa_area = ''1'', oa_area_type = t, oa_no_summary = s, oa_networks = ns, oa_ranges = []\<rparr>"


lemma ospf_global_save_witness:
  "run (ref_dev ospf_single)
     (diffOspfGlobal (emptyOspfGlobal\<lparr>og_default_information := True, og_default_information_metric := Some 10\<rparr>)
       (emptyOspfGlobal\<lparr>og_log_adjacency_changes := True, og_redistribute := [''static '']\<rparr>))
     (ospf_settings_paths (emptyOspfGlobal\<lparr>og_default_information := True, og_default_information_metric := Some 10\<rparr>)) =
   {[''protocols'', ''ospf'', ''log-adjacency-changes''], [''protocols'', ''ospf'', ''redistribute'', ''static'']}"
  (is "run _ (diffOspfGlobal ?l ?u) _ = _")
proof -
  have e: "ospf_settings_paths ?l \<subseteq> ospf_settings_places"
    using ospf_edits [OF ref_dev_laws ospf_single_schema, of ?l ?u] unfolding ospf_before_paths ospf_region_places by (simp add: edits_def)
  then have "ospf_settings_paths ?l \<inter> ospf_settings_places = ospf_settings_paths ?l" by blast
  note result = ospf_global_save [OF ref_dev_laws ospf_single_schema this, of ?u]
  have "clean [''static ''] = [''static'']" "blank_to_none None = None" by code_simp+
  then have after: "ospf_settings_paths (ospf_settings_form ?u) =
     {[''protocols'', ''ospf'', ''log-adjacency-changes''], [''protocols'', ''ospf'', ''redistribute'', ''static'']}"
    by (simp add: ospf_settings_paths_def ospf_settings_form_def emptyOspfGlobal_def leaf_paths_def list_paths_def flag_paths_def Let_def
        insert_commute)
  show ?thesis using result e unfolding after by auto
qed

end
