(* ===== verification/Bgp.thy ===== *)
theory Bgp
  imports Switched_Nodes
begin

text \<open>
  BGP: \<open>lib/bgp.ts\<close>. The global form with its address families, and the peers: neighbors and peer groups
  share one shape, and each of the three address families of a peer is switched on and off as a whole.
\<close>

section \<open>Model\<close>

datatype address_family = IPv4Unicast | IPv6Unicast | L2vpnEvpn

fun address_family_str :: "address_family \<Rightarrow> string" where
  "address_family_str IPv4Unicast = ''ipv4-unicast''"
| "address_family_str IPv6Unicast = ''ipv6-unicast''"
| "address_family_str L2vpnEvpn = ''l2vpn-evpn''"

definition ADDRESS_FAMILIES :: "address_family list" where
  "ADDRESS_FAMILIES = [IPv4Unicast, IPv6Unicast, L2vpnEvpn]"

record neighbor_af =
  na_enabled :: bool
  na_route_reflector_client :: bool
  na_nexthop_self :: bool
  na_soft_reconfiguration_inbound :: bool
  na_allowas_in :: "int option"
  na_maximum_prefix :: "int option"
  na_route_map_import :: "string option"
  na_route_map_export :: "string option"

record bgp_peer =
  np_name :: string
  np_is_interface :: bool
  np_remote_as :: "string option"
  np_peer_group :: "string option"
  np_update_source :: "string option"
  np_ebgp_multihop :: "int option"
  np_description :: "string option"
  np_extended_nexthop :: bool
  np_bfd :: bool
  np_enabled :: bool
  np_afi :: "address_family \<Rightarrow> neighbor_af"

record bgp_unicast_af =
  uf_networks :: "string list"
  uf_redistribute :: "string list"

record bgp_evpn_af =
  ev_advertise_all_vni :: bool
  ev_advertise_ipv4_unicast :: bool
  ev_advertise_ipv6_unicast :: bool

record bgp_global =
  bg_system_as :: "string option"
  bg_router_id :: "string option"
  bg_default_no_ipv4_unicast :: bool
  bg_bestpath_as_path_multipath_relax :: bool
  bg_bestpath_compare_routerid :: bool
  bg_log_neighbor_changes :: bool
  bg_cluster_id :: "string option"
  bg_ipv4_unicast :: bgp_unicast_af
  bg_ipv6_unicast :: bgp_unicast_af
  bg_evpn :: bgp_evpn_af

record bgp_config =
  bc_global :: bgp_global
  bc_neighbors :: "bgp_peer list"
  bc_peerGroups :: "bgp_peer list"

definition emptyAf :: neighbor_af where
  "emptyAf = \<lparr>na_enabled = False, na_route_reflector_client = False, na_nexthop_self = False,
     na_soft_reconfiguration_inbound = False, na_allowas_in = None, na_maximum_prefix = None,
     na_route_map_import = None, na_route_map_export = None\<rparr>"

definition emptyAfi :: "address_family \<Rightarrow> neighbor_af" where
  "emptyAfi = (\<lambda>_. emptyAf)"

definition emptyBgpPeer :: bgp_peer where
  "emptyBgpPeer = \<lparr>np_name = '''', np_is_interface = False, np_remote_as = None, np_peer_group = None,
     np_update_source = None, np_ebgp_multihop = None, np_description = None, np_extended_nexthop = False,
     np_bfd = False, np_enabled = True, np_afi = emptyAfi\<rparr>"

definition emptyBgpGlobal :: bgp_global where
  "emptyBgpGlobal = \<lparr>bg_system_as = None, bg_router_id = None, bg_default_no_ipv4_unicast = False,
     bg_bestpath_as_path_multipath_relax = False, bg_bestpath_compare_routerid = False, bg_log_neighbor_changes = False,
     bg_cluster_id = None, bg_ipv4_unicast = \<lparr>uf_networks = [], uf_redistribute = []\<rparr>,
     bg_ipv6_unicast = \<lparr>uf_networks = [], uf_redistribute = []\<rparr>,
     bg_evpn = \<lparr>ev_advertise_all_vni = False, ev_advertise_ipv4_unicast = False, ev_advertise_ipv6_unicast = False\<rparr>\<rparr>"

section \<open>Reader\<close>

definition parseAf :: "json option \<Rightarrow> neighbor_af" where
  "parseAf af = (case af of None \<Rightarrow> emptyAf
     | Some n \<Rightarrow> \<lparr>na_enabled = True, na_route_reflector_client = present ''route-reflector-client'' n,
         na_nexthop_self = present ''nexthop-self'' n,
         na_soft_reconfiguration_inbound = present ''inbound'' (obj_child n ''soft-reconfiguration''),
         na_allowas_in = (case obj_childCfg n ''allowas-in'' of
             Some a \<Rightarrow> Some (case childNum a ''number'' of None \<Rightarrow> 1 | Some k \<Rightarrow> k)
           | None \<Rightarrow> if present ''allowas-in'' n then Some 1 else None),
         na_maximum_prefix = childNum n ''maximum-prefix'',
         na_route_map_import = Option.bind (obj_childCfg n ''route-map'') (\<lambda>rm. childStr rm ''import''),
         na_route_map_export = Option.bind (obj_childCfg n ''route-map'') (\<lambda>rm. childStr rm ''export'')\<rparr>)"

text \<open>\<open>a ?? b\<close>.\<close>

definition or_else :: "'a option \<Rightarrow> 'a option \<Rightarrow> 'a option" where
  "or_else a b = (case a of None \<Rightarrow> b | Some x \<Rightarrow> Some x)"

definition parse_bgp_peer :: "string \<times> json \<Rightarrow> read_error + bgp_peer" where
  "parse_bgp_peer e =
     (let raw = or_empty (snd e); root = obj_child raw ''address-family''; iface = obj_childCfg raw ''interface'';
          inner = map_option (\<lambda>i. case obj_childCfg i ''v6only'' of None \<Rightarrow> i | Some v \<Rightarrow> v) iface in
      case has_key ''bfd'' raw of Inl err \<Rightarrow> Inl err | Inr bfd \<Rightarrow>
      (case has_key ''shutdown'' raw of Inl err \<Rightarrow> Inl err | Inr shut \<Rightarrow>
       Inr \<lparr>np_name = fst e, np_is_interface = (iface \<noteq> None),
         np_remote_as = or_else (childStr raw ''remote-as'') (Option.bind inner (\<lambda>i. childStr i ''remote-as'')),
         np_peer_group = or_else (childStr raw ''peer-group'') (Option.bind inner (\<lambda>i. childStr i ''peer-group'')),
         np_update_source = childStr raw ''update-source'', np_ebgp_multihop = childNum raw ''ebgp-multihop'',
         np_description = childStr raw ''description'',
         np_extended_nexthop = present ''extended-nexthop'' (obj_child raw ''capability''),
         np_bfd = bfd, np_enabled = (\<not> shut), np_afi = (\<lambda>af. parseAf (obj_childCfg root (address_family_str af)))\<rparr>))"

definition parse_unicast :: "json \<Rightarrow> bgp_unicast_af" where
  "parse_unicast n = \<lparr>uf_networks = keys_at n ''network'', uf_redistribute = keys_at n ''redistribute''\<rparr>"

definition parse_bgp_global :: "json \<Rightarrow> bgp_global" where
  "parse_bgp_global bgp =
     (let params = obj_child bgp ''parameters''; bestpath = obj_child params ''bestpath'';
          af = obj_child bgp ''address-family''; evpn = obj_child af ''l2vpn-evpn''; advertise = obj_child evpn ''advertise'' in
      \<lparr>bg_system_as = childStr bgp ''system-as'', bg_router_id = childStr params ''router-id'',
        bg_default_no_ipv4_unicast = present ''no-ipv4-unicast'' (obj_child params ''default''),
        bg_bestpath_as_path_multipath_relax = present ''multipath-relax'' (obj_child bestpath ''as-path''),
        bg_bestpath_compare_routerid = present ''compare-routerid'' bestpath,
        bg_log_neighbor_changes = present ''log-neighbor-changes'' params, bg_cluster_id = childStr params ''cluster-id'',
        bg_ipv4_unicast = parse_unicast (obj_child af ''ipv4-unicast''),
        bg_ipv6_unicast = parse_unicast (obj_child af ''ipv6-unicast''),
        bg_evpn = \<lparr>ev_advertise_all_vni = present ''advertise-all-vni'' evpn,
          ev_advertise_ipv4_unicast = present ''unicast'' (obj_child advertise ''ipv4''),
          ev_advertise_ipv6_unicast = present ''unicast'' (obj_child advertise ''ipv6'')\<rparr>\<rparr>)"

definition fetchBgp :: "(string \<Rightarrow> string \<Rightarrow> int) \<Rightarrow> vyos_response \<Rightarrow> read_error + bgp_config" where
  "fetchBgp lc resp = (case config_of_response ''Device returned an error reading BGP configuration.'' resp of
     Inl e \<Rightarrow> Inl e | Inr bgp \<Rightarrow>
     (case named_rows lc np_name parse_bgp_peer bgp ''neighbor'' of Inl e \<Rightarrow> Inl e | Inr neighbors \<Rightarrow>
     (case named_rows lc np_name parse_bgp_peer bgp ''peer-group'' of Inl e \<Rightarrow> Inl e | Inr groups \<Rightarrow>
      Inr \<lparr>bc_global = parse_bgp_global bgp, bc_neighbors = neighbors, bc_peerGroups = groups\<rparr>)))"

section \<open>Diff\<close>

definition bgp_base :: path where
  "bgp_base = [''protocols'', ''bgp'']"

definition unicast_fields :: "string \<Rightarrow> bgp_unicast_af \<Rightarrow> bgp_unicast_af \<Rightarrow> field list" where
  "unicast_fields af l d =
     [Multi [''address-family'', af, ''network''] (uf_networks l) (clean (uf_networks d)),
      Multi [''address-family'', af, ''redistribute''] (uf_redistribute l) (clean (uf_redistribute d))]"

definition bgp_fields :: "bgp_global \<Rightarrow> bgp_global \<Rightarrow> field list" where
  "bgp_fields live u =
     [Leaf [''system-as''] (bg_system_as live) (blank_to_none (bg_system_as u)),
      Leaf [''parameters'', ''router-id''] (bg_router_id live) (blank_to_none (bg_router_id u)),
      Leaf [''parameters'', ''cluster-id''] (bg_cluster_id live) (blank_to_none (bg_cluster_id u)),
      Flag [''parameters'', ''default'', ''no-ipv4-unicast''] (bg_default_no_ipv4_unicast live) (bg_default_no_ipv4_unicast u),
      Flag [''parameters'', ''bestpath'', ''as-path'', ''multipath-relax''] (bg_bestpath_as_path_multipath_relax live)
        (bg_bestpath_as_path_multipath_relax u),
      Flag [''parameters'', ''bestpath'', ''compare-routerid''] (bg_bestpath_compare_routerid live) (bg_bestpath_compare_routerid u),
      Flag [''parameters'', ''log-neighbor-changes''] (bg_log_neighbor_changes live) (bg_log_neighbor_changes u)] @
     unicast_fields ''ipv4-unicast'' (bg_ipv4_unicast live) (bg_ipv4_unicast u) @
     unicast_fields ''ipv6-unicast'' (bg_ipv6_unicast live) (bg_ipv6_unicast u) @
     [Flag [''address-family'', ''l2vpn-evpn'', ''advertise-all-vni''] (ev_advertise_all_vni (bg_evpn live))
        (ev_advertise_all_vni (bg_evpn u)),
      Flag [''address-family'', ''l2vpn-evpn'', ''advertise'', ''ipv4'', ''unicast''] (ev_advertise_ipv4_unicast (bg_evpn live))
        (ev_advertise_ipv4_unicast (bg_evpn u)),
      Flag [''address-family'', ''l2vpn-evpn'', ''advertise'', ''ipv6'', ''unicast''] (ev_advertise_ipv6_unicast (bg_evpn live))
        (ev_advertise_ipv6_unicast (bg_evpn u))]"

definition diffBgpGlobal :: "bgp_global \<Rightarrow> bgp_global \<Rightarrow> vyos_command list" where
  "diffBgpGlobal live u = form_cmds bgp_base (bgp_fields live u)"

definition peer_af_path :: "path \<Rightarrow> address_family \<Rightarrow> path" where
  "peer_af_path base af = base @ [''address-family'', address_family_str af]"

definition af_fields :: "address_family \<Rightarrow> neighbor_af \<Rightarrow> neighbor_af \<Rightarrow> field list" where
  "af_fields af live u =
     [Flag [''route-reflector-client''] (na_route_reflector_client live) (na_route_reflector_client u),
      Flag [''nexthop-self''] (na_nexthop_self live) (na_nexthop_self u),
      Flag [''soft-reconfiguration'', ''inbound''] (na_soft_reconfiguration_inbound live) (na_soft_reconfiguration_inbound u),
      Leaf [''allowas-in'', ''number''] (numStr (na_allowas_in live)) (numStr (na_allowas_in u))] @
     (if af \<noteq> L2vpnEvpn then [Leaf [''maximum-prefix''] (numStr (na_maximum_prefix live)) (numStr (na_maximum_prefix u))] else []) @
     [Leaf [''route-map'', ''import''] (na_route_map_import live) (blank_to_none (na_route_map_import u)),
      Leaf [''route-map'', ''export''] (na_route_map_export live) (blank_to_none (na_route_map_export u))]"

definition diffPeerAf :: "path \<Rightarrow> address_family \<Rightarrow> neighbor_af \<Rightarrow> neighbor_af \<Rightarrow> vyos_command list" where
  "diffPeerAf base af live u =
     (if \<not> na_enabled u then (if na_enabled live then [cdel (peer_af_path base af)] else [])
      else (let baseline = if na_enabled live then live else emptyAf in
        (if \<not> na_enabled live then [cset (peer_af_path base af)] else []) @
        form_cmds (peer_af_path base af) (af_fields af baseline u)))"

datatype peer_kind = BgpNeighbor | BgpPeerGroup

fun peer_kind_str :: "peer_kind \<Rightarrow> string" where
  "peer_kind_str BgpNeighbor = ''neighbor''"
| "peer_kind_str BgpPeerGroup = ''peer-group''"

definition bgp_peer_path :: "peer_kind \<Rightarrow> string \<Rightarrow> path" where
  "bgp_peer_path kind name = bgp_base @ [peer_kind_str kind, name]"

definition unnumbered :: "peer_kind \<Rightarrow> bgp_peer \<Rightarrow> bool" where
  "unnumbered kind u \<longleftrightarrow> kind = BgpNeighbor \<and> np_is_interface u"

definition v6only_path :: "path \<Rightarrow> path" where
  "v6only_path base = base @ [''interface'', ''v6only'']"

definition remote_as_field :: "bgp_peer option \<Rightarrow> bgp_peer \<Rightarrow> field" where
  "remote_as_field live u = Leaf [''remote-as''] (Option.bind live np_remote_as) (blank_to_none (np_remote_as u))"

definition peer_group_field :: "bgp_peer option \<Rightarrow> bgp_peer \<Rightarrow> field" where
  "peer_group_field live u = Leaf [''peer-group''] (Option.bind live np_peer_group) (blank_to_none (np_peer_group u))"

definition v6only_fields :: "bgp_peer option \<Rightarrow> bgp_peer \<Rightarrow> field list" where
  "v6only_fields live u = [remote_as_field live u, peer_group_field live u]"

definition direct_fields :: "peer_kind \<Rightarrow> bgp_peer option \<Rightarrow> bgp_peer \<Rightarrow> field list" where
  "direct_fields kind live u = remote_as_field live u # (if kind = BgpNeighbor then [peer_group_field live u] else [])"

definition placement_cmds :: "peer_kind \<Rightarrow> bgp_peer option \<Rightarrow> bgp_peer \<Rightarrow> vyos_command list" where
  "placement_cmds kind live u = (let base = bgp_peer_path kind (np_name u) in
     if unnumbered kind u
     then flag_cmds (v6only_path base) (case live of None \<Rightarrow> False | Some l \<Rightarrow> np_is_interface l) True @
       form_cmds (v6only_path base) (v6only_fields live u)
     else form_cmds base (direct_fields kind live u))"

definition bgp_peer_fields :: "bgp_peer option \<Rightarrow> bgp_peer \<Rightarrow> field list" where
  "bgp_peer_fields live u =
     [Leaf [''update-source''] (Option.bind live np_update_source) (blank_to_none (np_update_source u)),
      Leaf [''ebgp-multihop''] (numStr (Option.bind live np_ebgp_multihop)) (numStr (np_ebgp_multihop u)),
      Leaf [''description''] (Option.bind live np_description) (blank_to_none (np_description u)),
      Flag [''capability'', ''extended-nexthop''] (case live of None \<Rightarrow> False | Some l \<Rightarrow> np_extended_nexthop l) (np_extended_nexthop u),
      Flag [''bfd''] (case live of None \<Rightarrow> False | Some l \<Rightarrow> np_bfd l) (np_bfd u),
      Flag [''shutdown''] (case live of None \<Rightarrow> False | Some l \<Rightarrow> \<not> np_enabled l) (\<not> np_enabled u)]"

definition live_af :: "bgp_peer option \<Rightarrow> address_family \<Rightarrow> neighbor_af" where
  "live_af live af = (case live of None \<Rightarrow> emptyAf | Some l \<Rightarrow> np_afi l af)"

definition bgp_peer_cmds :: "peer_kind \<Rightarrow> bgp_peer option \<Rightarrow> bgp_peer \<Rightarrow> vyos_command list" where
  "bgp_peer_cmds kind live u = (let base = bgp_peer_path kind (np_name u) in
     placement_cmds kind live u @ form_cmds base (bgp_peer_fields live u) @
     concat (map (\<lambda>af. diffPeerAf base af (live_af live af) (np_afi u af)) ADDRESS_FAMILIES))"

definition diffBgpPeer :: "peer_kind \<Rightarrow> bgp_peer option \<Rightarrow> bgp_peer \<Rightarrow> vyos_command list" where
  "diffBgpPeer kind live u = ensureCreated (bgp_peer_cmds kind live u) (bgp_peer_path kind (np_name u)) (live = None)"

definition deleteBgpPeer_cmds :: "peer_kind \<Rightarrow> string \<Rightarrow> vyos_command list" where
  "deleteBgpPeer_cmds kind name = [cdel (bgp_peer_path kind name)]"

section \<open>The parts of the configuration\<close>

definition peer_af_fields :: "address_family \<Rightarrow> neighbor_af option \<Rightarrow> neighbor_af \<Rightarrow> field list" where
  "peer_af_fields af live u = af_fields af (case live of None \<Rightarrow> emptyAf | Some l \<Rightarrow> l) u"

definition bgp_schema :: "(path \<Rightarrow> bool) \<Rightarrow> bool" where
  "bgp_schema single \<longleftrightarrow> (\<forall>f\<in>set (bgp_fields emptyBgpGlobal emptyBgpGlobal). field_schema single bgp_base f) \<and>
     (\<forall>kind name. let b = bgp_peer_path kind name in
        \<not> single (butlast b) \<and> \<not> single (b @ [''interface'']) \<and> \<not> single (b @ [''address-family'']) \<and>
        (\<forall>f\<in>set (direct_fields kind None emptyBgpPeer @ bgp_peer_fields None emptyBgpPeer). field_schema single b f) \<and>
        (\<forall>f\<in>set (v6only_fields None emptyBgpPeer). field_schema single (v6only_path b) f) \<and>
        (\<forall>af. \<forall>f\<in>set (af_fields IPv4Unicast emptyAf emptyAf). field_schema single (peer_af_path b af) f))"

lemmas bgp_peer_field_defs = remote_as_field_def peer_group_field_def v6only_fields_def direct_fields_def bgp_peer_fields_def

lemma bgp_schemaD:
  assumes "bgp_schema single"
  shows "\<not> single (butlast (bgp_peer_path kind name))" "\<not> single (bgp_peer_path kind name @ [''interface''])"
    "\<not> single (bgp_peer_path kind name @ [''address-family''])"
    "\<forall>f\<in>set (direct_fields kind None emptyBgpPeer). field_schema single (bgp_peer_path kind name) f"
    "\<forall>f\<in>set (bgp_peer_fields None emptyBgpPeer). field_schema single (bgp_peer_path kind name) f"
    "\<forall>f\<in>set (v6only_fields None emptyBgpPeer). field_schema single (v6only_path (bgp_peer_path kind name)) f"
    "\<forall>f\<in>set (af_fields IPv4Unicast emptyAf emptyAf). field_schema single (peer_af_path (bgp_peer_path kind name) af) f"
  using assms by (simp_all add: bgp_schema_def Let_def ball_Un)

lemma address_family_str_inj [simp]: "address_family_str a = address_family_str b \<longleftrightarrow> a = b"
  by (cases a; cases b; simp)

text \<open>A peer is known by its kind and its name.\<close>

abbreviation peer_base :: "peer_kind \<times> string \<Rightarrow> path" where
  "peer_base n \<equiv> bgp_peer_path (fst n) (snd n)"

interpretation v6only: child_forms bgp_schema "\<lambda>n. peer_base n @ [''interface'']" "\<lambda>n (_ :: unit). v6only_path (peer_base n)"
  v6only_fields
proof unfold_locales
  fix single f m i n k
  assume sch: "bgp_schema single"
  show "\<not> single (butlast (v6only_path (peer_base n)))"
    using bgp_schemaD(2) [OF sch] by (simp add: v6only_path_def butlast_append)
  assume "f \<in> set (v6only_fields m i)"
  then show "field_schema single (v6only_path (peer_base n)) f"
    using bgp_schemaD(6) [OF sch, of "fst n" "snd n"] by (auto simp: bgp_peer_field_defs)
qed (auto simp: v6only_path_def bgp_peer_field_defs apart_fields_def form_defs)

lemma af_fields_schema:
  assumes "bgp_schema single" and "f \<in> set (af_fields a l i)"
  shows "field_schema single (peer_af_path (bgp_peer_path kind name) af) f"
  using bgp_schemaD(7) [OF assms(1), of kind name af] assms(2)
  by (cases "a = L2vpnEvpn") (auto simp: af_fields_def)

interpretation peer_af: child_forms bgp_schema "\<lambda>n. peer_base n @ [''address-family'']" "\<lambda>n. peer_af_path (peer_base n)"
  "peer_af_fields af" for af
proof unfold_locales
  fix single f m i j n b
  fix k l :: address_family
  show "prefix (peer_base n @ [''address-family'']) (peer_af_path (peer_base n) k)" by (simp add: peer_af_path_def)
  show "cone (peer_af_path (peer_base n) k) \<inter> cone (peer_af_path (peer_base n) l) = {}" if "k \<noteq> l"
    using that by (simp add: peer_af_path_def cone_disjoint_iff)
  show "apart_fields (peer_af_fields af m i)" by (simp add: peer_af_fields_def af_fields_def apart_fields_def)
  show "field_at f \<noteq> []" if "f \<in> set (peer_af_fields af m i)"
    using that by (cases "af = L2vpnEvpn") (auto simp: peer_af_fields_def af_fields_def)
  show "form_desired b (peer_af_fields af m i) = form_desired b (peer_af_fields af None i)"
    by (simp add: form_desired_def peer_af_fields_def af_fields_def)
  show "form_live b (peer_af_fields af (Some j) i) = form_live b (peer_af_fields af (Some j) j)"
    by (simp add: form_live_def peer_af_fields_def af_fields_def)
  show "field_new f" if "f \<in> set (peer_af_fields af None i)"
    using that by (cases "af = L2vpnEvpn") (auto simp: peer_af_fields_def af_fields_def emptyAf_def numStr_def)
  assume sch: "bgp_schema single"
  show "\<not> single (butlast (peer_af_path (peer_base n) k))"
    using bgp_schemaD(3) [OF sch] by (simp add: peer_af_path_def butlast_append)
  show "field_schema single (peer_af_path (peer_base n) k) f" if "f \<in> set (peer_af_fields af m i)"
    using af_fields_schema [OF sch] that unfolding peer_af_fields_def by blast
qed

definition af_state :: "neighbor_af \<Rightarrow> neighbor_af option" where
  "af_state a = (if na_enabled a then Some a else None)"

lemma diffPeerAf_switched:
  "diffPeerAf base af live u =
   switched_cmds (peer_af_path base af) (peer_af_path base) (peer_af_fields af) af (af_state live) (af_state u)"
  by (simp add: diffPeerAf_def switched_cmds_def af_state_def created_item_def peer_af_fields_def Let_def)

lemma af_state_empty [simp]: "af_state emptyAf = None"
  by (simp add: af_state_def emptyAf_def)

section \<open>What a save does\<close>

definition bgp_region :: "path set" where
  "bgp_region = form_region bgp_base (bgp_fields emptyBgpGlobal emptyBgpGlobal)"

definition bgp_before :: "bgp_global \<Rightarrow> path set" where
  "bgp_before l = form_live bgp_base (bgp_fields l l)"

definition bgp_after :: "bgp_global \<Rightarrow> path set" where
  "bgp_after u = form_desired bgp_base (bgp_fields u u)"

theorem bgp_global_save:
  assumes dev: "device_laws dev single" and sch: "bgp_schema single" and S: "S \<inter> bgp_region = bgp_before live"
  shows "run dev (diffBgpGlobal live u) S = (S - bgp_region) \<union> bgp_after u"
proof -
  have f: "\<forall>f\<in>set (bgp_fields live u). field_schema single bgp_base f"
    using sch by (simp add: bgp_schema_def bgp_fields_def unicast_fields_def)
  have a: "apart_fields (bgp_fields live u)" by (simp add: bgp_fields_def unicast_fields_def apart_fields_def)
  have e: "form_region bgp_base (bgp_fields live u) = bgp_region" "form_live bgp_base (bgp_fields live u) = bgp_before live"
      "form_desired bgp_base (bgp_fields live u) = bgp_after u"
    by (simp_all add: bgp_region_def bgp_before_def bgp_after_def form_defs bgp_fields_def unicast_fields_def)
  show ?thesis using edits_run [OF edits_form [OF dev f a], unfolded e] S by (simp add: diffBgpGlobal_def)
qed

text \<open>A peer as segments: where its session parameters live, its own leaves, its three address families.\<close>

definition placement_segment :: "peer_kind \<Rightarrow> bgp_peer option \<Rightarrow> bgp_peer \<Rightarrow> segment" where
  "placement_segment kind live u = (let b = bgp_peer_path kind (np_name u) in
     if unnumbered kind u
     then (cone (b @ [''interface'']), placement_cmds kind live u, switched_before (\<lambda>_. v6only_path b) v6only_fields () live,
       switched_after (\<lambda>_. v6only_path b) v6only_fields () (Some u))
     else form_seg b (direct_fields kind live u))"

definition af_segment :: "path \<Rightarrow> bgp_peer option \<Rightarrow> bgp_peer \<Rightarrow> address_family \<Rightarrow> segment" where
  "af_segment b live u af = (cone (peer_af_path b af), diffPeerAf b af (live_af live af) (np_afi u af),
     switched_before (peer_af_path b) (peer_af_fields af) af (af_state (live_af live af)),
     switched_after (peer_af_path b) (peer_af_fields af) af (af_state (np_afi u af)))"

definition bgp_peer_segments :: "peer_kind \<Rightarrow> bgp_peer option \<Rightarrow> bgp_peer \<Rightarrow> segment list" where
  "bgp_peer_segments kind live u = (let b = bgp_peer_path kind (np_name u) in
     placement_segment kind live u # form_seg b (bgp_peer_fields live u) # map (af_segment b live u) ADDRESS_FAMILIES)"

lemma bgp_peer_segments_cmds: "seg_cmds (bgp_peer_segments kind live u) = bgp_peer_cmds kind live u"
  by (simp add: bgp_peer_segments_def bgp_peer_cmds_def seg_cmds_def placement_segment_def placement_cmds_def form_seg_def
      af_segment_def comp_def Let_def)

text \<open>The form does not let a peer change between numbered and unnumbered.\<close>

definition same_peer :: "peer_kind \<Rightarrow> bgp_peer option \<Rightarrow> bgp_peer \<Rightarrow> bool" where
  "same_peer kind live u \<longleftrightarrow> (case live of None \<Rightarrow> True
     | Some l \<Rightarrow> np_name l = np_name u \<and> (kind = BgpNeighbor \<longrightarrow> np_is_interface l = np_is_interface u))"

lemma placement_ok:
  assumes dev: "device_laws dev single" and sch: "bgp_schema single" and same: "same_peer kind live u"
  shows "seg_ok dev (placement_segment kind live u)"
proof (cases "unnumbered kind u")
  case True
  let ?b = "bgp_peer_path kind (np_name u)"
  have "placement_cmds kind live u = switched_cmds (?b @ [''interface'']) (\<lambda>_. v6only_path ?b) v6only_fields () live (Some u)"
    using same True by (cases live) (simp_all add: placement_cmds_def switched_cmds_def created_item_def same_peer_def
      unnumbered_def flag_cmds_def Let_def)
  then show ?thesis
    using v6only.switched_edits [OF dev sch, of "?b @ [''interface'']" "(kind, np_name u)" "()" live "Some u"] True
    by (simp add: placement_segment_def Let_def v6only_path_def)
next
  case False
  have "\<forall>f\<in>set (direct_fields kind live u). field_schema single (bgp_peer_path kind (np_name u)) f"
    using bgp_schemaD(4) [OF sch, of kind "np_name u"] by (simp add: bgp_peer_field_defs)
  moreover have "apart_fields (direct_fields kind live u)" by (simp add: bgp_peer_field_defs apart_fields_def)
  ultimately show ?thesis using form_seg_ok [OF dev] False by (simp add: placement_segment_def)
qed

lemma af_segment_ok:
  assumes "device_laws dev single" and "bgp_schema single"
  shows "seg_ok dev (af_segment (bgp_peer_path kind name) live u af)"
  using peer_af.switched_edits [OF assms, of "peer_af_path (bgp_peer_path kind name) af" "(kind, name)" af]
  by (simp add: af_segment_def diffPeerAf_switched)

lemma bgp_peer_segments_ok:
  assumes dev: "device_laws dev single" and sch: "bgp_schema single" and same: "same_peer kind live u"
  shows "\<forall>x\<in>set (bgp_peer_segments kind live u). seg_ok dev x"
proof -
  have "\<forall>f\<in>set (bgp_peer_fields live u). field_schema single (bgp_peer_path kind (np_name u)) f"
    using bgp_schemaD(5) [OF sch, of kind "np_name u"] by (simp add: bgp_peer_fields_def)
  moreover have "apart_fields (bgp_peer_fields live u)" by (simp add: bgp_peer_fields_def apart_fields_def)
  ultimately show ?thesis
    using placement_ok [OF dev sch same] af_segment_ok [OF dev sch] form_seg_ok [OF dev]
    by (simp add: bgp_peer_segments_def Let_def)
qed

lemma bgp_peer_segments_apart: "sorted_wrt (\<lambda>x y. fst x \<inter> fst y = {}) (bgp_peer_segments kind live u)"
  by (simp add: bgp_peer_segments_def placement_segment_def af_segment_def form_seg_def peer_af_path_def ADDRESS_FAMILIES_def
      form_region_apart form_regions_apart bgp_peer_field_defs cone_disjoint_iff Let_def)

definition bgp_peer_region :: "peer_kind \<Rightarrow> bgp_peer \<Rightarrow> path set" where
  "bgp_peer_region kind u = seg_region (bgp_peer_segments kind None u)"

definition bgp_peer_before :: "peer_kind \<Rightarrow> bgp_peer option \<Rightarrow> path set" where
  "bgp_peer_before kind live = (case live of None \<Rightarrow> {} | Some l \<Rightarrow> seg_before (bgp_peer_segments kind (Some l) l))"

definition bgp_peer_after :: "peer_kind \<Rightarrow> bgp_peer \<Rightarrow> path set" where
  "bgp_peer_after kind u = seg_after (bgp_peer_segments kind None u)"

lemma bgp_new_before:
  "form_live b (bgp_peer_fields None u) = {}" "form_live b (direct_fields kind None u) = {}"
  "switched_before child flds k None = {}"
  by (simp_all add: form_live_def bgp_peer_field_defs numStr_def switched_before_def)

lemma bgp_peer_segments_only:
  assumes "same_peer kind live u"
  shows "seg_region (bgp_peer_segments kind live u) = bgp_peer_region kind u"
    and "seg_before (bgp_peer_segments kind live u) = bgp_peer_before kind live"
    and "seg_after (bgp_peer_segments kind live u) = bgp_peer_after kind u"
proof -
  show "seg_region (bgp_peer_segments kind live u) = bgp_peer_region kind u"
    by (simp add: bgp_peer_region_def bgp_peer_segments_def placement_segment_def af_segment_def seg_region_def form_seg_def
        form_region_def bgp_peer_field_defs Let_def)
  show "seg_after (bgp_peer_segments kind live u) = bgp_peer_after kind u"
    by (simp add: bgp_peer_after_def bgp_peer_segments_def placement_segment_def af_segment_def seg_after_def form_seg_def
        form_desired_def bgp_peer_field_defs Let_def)
  show "seg_before (bgp_peer_segments kind live u) = bgp_peer_before kind live"
  proof (cases live)
    case None
    then show ?thesis
      by (simp add: bgp_peer_before_def bgp_peer_segments_def placement_segment_def af_segment_def seg_before_def form_seg_def
          bgp_new_before live_af_def Let_def)
  next
    case (Some l)
    have n: "np_name l = np_name u" "unnumbered kind l = unnumbered kind u"
      using assms by (auto simp: same_peer_def Some unnumbered_def)
    show ?thesis
      by (simp add: Some bgp_peer_before_def bgp_peer_segments_def placement_segment_def af_segment_def seg_before_def
          form_seg_def form_live_def bgp_peer_field_defs live_af_def n Let_def)
  qed
qed

text \<open>The effect of saving a peer, over the segments of its diff.\<close>

lemma bgp_peer_effect:
  assumes dev: "device_laws dev single" and sch: "bgp_schema single" and same: "same_peer kind live u"
    and S: "S \<inter> bgp_peer_region kind u = bgp_peer_before kind live"
  shows "run dev (diffBgpPeer kind live u) S = (S - bgp_peer_region kind u) \<union> bgp_peer_after kind u \<union>
    (if live = None \<and> bgp_peer_after kind u = {} then {bgp_peer_path kind (np_name u)} else {})"
  unfolding diffBgpPeer_def
proof (rule run_ensureCreated [OF dev _ S])
  note only = bgp_peer_segments_only [OF same]
  show "edits dev (bgp_peer_region kind u) (bgp_peer_cmds kind live u) (bgp_peer_before kind live) (bgp_peer_after kind u)"
    using edits_segments [OF bgp_peer_segments_ok [OF dev sch same] bgp_peer_segments_apart]
    unfolding only bgp_peer_segments_cmds .
  show "\<not> single (butlast (bgp_peer_path kind (np_name u)))" by (rule bgp_schemaD(1) [OF sch])
  assume new: "live = None"
  let ?b = "bgp_peer_path kind (np_name u)"
  have own: "has_set (form_cmds ?b (bgp_peer_fields None u)) \<longleftrightarrow> form_desired ?b (bgp_peer_fields None u) \<noteq> {}"
      "has_set (form_cmds ?b (direct_fields kind None u)) \<longleftrightarrow> form_desired ?b (direct_fields kind None u) \<noteq> {}"
    by (rule form_new_sets; simp add: bgp_peer_field_defs numStr_def)+
  have "has_set (fst (snd (placement_segment kind None u))) \<longleftrightarrow> snd (snd (snd (placement_segment kind None u))) \<noteq> {}"
    using own(2) by (auto simp: placement_segment_def form_seg_def placement_cmds_def switched_after_def created_after_def
      has_set_def flag_cmds_def Let_def)
  moreover have "has_set (fst (snd (af_segment ?b None u af))) \<longleftrightarrow> snd (snd (snd (af_segment ?b None u af))) \<noteq> {}" for af
    using peer_af.switched_new(1) [of "peer_af_path ?b af" "(kind, np_name u)" af]
    by (simp add: af_segment_def diffPeerAf_switched live_af_def)
  ultimately have "has_set (seg_cmds (bgp_peer_segments kind None u)) \<longleftrightarrow> seg_after (bgp_peer_segments kind None u) \<noteq> {}"
    using own(1) by (intro seg_new_sets) (auto simp: bgp_peer_segments_def form_seg_def Let_def)
  then show "bgp_peer_before kind live = {} \<and> (has_set (bgp_peer_cmds kind live u) \<longleftrightarrow> bgp_peer_after kind u \<noteq> {})"
    by (simp add: new bgp_peer_before_def bgp_peer_segments_cmds bgp_peer_after_def)
qed

text \<open>
  The node of a peer, spelled out: where the device has each field of a neighbor or a peer group. The
  field lists and segments above, which make the commands, do not enter it. An unnumbered neighbor has its
  session parameters below \<open>interface v6only\<close>; a peer group has no group of its own; a family that is on
  has a node and its leaves.
\<close>

definition neighbor_af_paths :: "path \<Rightarrow> address_family \<Rightarrow> neighbor_af \<Rightarrow> path set" where
  "neighbor_af_paths peer af a = (let b = peer @ [''address-family'', address_family_str af] in
     if \<not> na_enabled a then {}
     else insert b
       (flag_paths (b @ [''route-reflector-client'']) (na_route_reflector_client a) \<union>
        flag_paths (b @ [''nexthop-self'']) (na_nexthop_self a) \<union>
        flag_paths (b @ [''soft-reconfiguration'', ''inbound'']) (na_soft_reconfiguration_inbound a) \<union>
        leaf_paths (b @ [''allowas-in'', ''number'']) (map_option string_of_int (na_allowas_in a)) \<union>
        leaf_paths (b @ [''maximum-prefix'']) (if af = L2vpnEvpn then None else map_option string_of_int (na_maximum_prefix a)) \<union>
        leaf_paths (b @ [''route-map'', ''import'']) (na_route_map_import a) \<union>
        leaf_paths (b @ [''route-map'', ''export'']) (na_route_map_export a)))"

definition session_paths :: "path \<Rightarrow> peer_kind \<Rightarrow> bgp_peer \<Rightarrow> path set" where
  "session_paths b kind p =
     (if kind = BgpNeighbor \<and> np_is_interface p
      then insert (b @ [''interface'', ''v6only''])
        (leaf_paths (b @ [''interface'', ''v6only'', ''remote-as'']) (np_remote_as p) \<union>
         leaf_paths (b @ [''interface'', ''v6only'', ''peer-group'']) (np_peer_group p))
      else leaf_paths (b @ [''remote-as'']) (np_remote_as p) \<union>
        leaf_paths (b @ [''peer-group'']) (if kind = BgpNeighbor then np_peer_group p else None))"

definition bgp_peer_paths :: "path \<Rightarrow> peer_kind \<Rightarrow> bgp_peer \<Rightarrow> path set" where
  "bgp_peer_paths b kind p =
     session_paths b kind p \<union>
     leaf_paths (b @ [''update-source'']) (np_update_source p) \<union>
     leaf_paths (b @ [''ebgp-multihop'']) (map_option string_of_int (np_ebgp_multihop p)) \<union>
     leaf_paths (b @ [''description'']) (np_description p) \<union>
     flag_paths (b @ [''capability'', ''extended-nexthop'']) (np_extended_nexthop p) \<union>
     flag_paths (b @ [''bfd'']) (np_bfd p) \<union>
     flag_paths (b @ [''shutdown'']) (\<not> np_enabled p) \<union>
     neighbor_af_paths b IPv4Unicast (np_afi p IPv4Unicast) \<union>
     neighbor_af_paths b IPv6Unicast (np_afi p IPv6Unicast) \<union>
     neighbor_af_paths b L2vpnEvpn (np_afi p L2vpnEvpn)"

text \<open>The places of those leaves; whatever else a device has below a peer is not touched.\<close>

definition bgp_peer_places :: "path \<Rightarrow> peer_kind \<Rightarrow> bgp_peer \<Rightarrow> path set" where
  "bgp_peer_places b kind p =
     (if kind = BgpNeighbor \<and> np_is_interface p then cone (b @ [''interface''])
      else cone (b @ [''remote-as'']) \<union> (if kind = BgpNeighbor then cone (b @ [''peer-group'']) else {})) \<union>
     cone (b @ [''update-source'']) \<union> cone (b @ [''ebgp-multihop'']) \<union> cone (b @ [''description'']) \<union>
     cone (b @ [''capability'', ''extended-nexthop'']) \<union> cone (b @ [''bfd'']) \<union> cone (b @ [''shutdown'']) \<union>
     cone (b @ [''address-family'', ''ipv4-unicast'']) \<union> cone (b @ [''address-family'', ''ipv6-unicast'']) \<union>
     cone (b @ [''address-family'', ''l2vpn-evpn''])"

text \<open>What a filled form stands for: blanks around a text are dropped, and a blank text is no text.\<close>

definition neighbor_af_form :: "neighbor_af \<Rightarrow> neighbor_af" where
  "neighbor_af_form a = a\<lparr>na_route_map_import := blank_to_none (na_route_map_import a),
     na_route_map_export := blank_to_none (na_route_map_export a)\<rparr>"

definition bgp_peer_form :: "bgp_peer \<Rightarrow> bgp_peer" where
  "bgp_peer_form p = p\<lparr>np_remote_as := blank_to_none (np_remote_as p), np_peer_group := blank_to_none (np_peer_group p),
     np_update_source := blank_to_none (np_update_source p), np_description := blank_to_none (np_description p),
     np_afi := (\<lambda>af. neighbor_af_form (np_afi p af))\<rparr>"

lemma af_live_paths: "switched_before (peer_af_path b) (peer_af_fields af) af (af_state a) = neighbor_af_paths b af a"
  by (simp add: switched_before_def af_state_def created_before_def form_live_def peer_af_fields_def af_fields_def
      neighbor_af_paths_def peer_af_path_def numStr_def Let_def Un_ac)

lemma af_form_paths:
  "switched_after (peer_af_path b) (peer_af_fields af) af (af_state a) = neighbor_af_paths b af (neighbor_af_form a)"
  by (simp add: switched_after_def af_state_def created_after_def form_desired_def peer_af_fields_def af_fields_def
      neighbor_af_paths_def neighbor_af_form_def peer_af_path_def numStr_def Let_def Un_ac)

lemma session_live_paths:
  "fst (snd (snd (placement_segment kind (Some l) l))) = session_paths (bgp_peer_path kind (np_name l)) kind l"
  by (cases kind) (simp_all add: placement_segment_def session_paths_def unnumbered_def switched_before_def created_before_def
      form_live_def form_seg_def bgp_peer_field_defs v6only_path_def Let_def Un_ac)

lemma session_form_paths:
  "snd (snd (snd (placement_segment kind None u))) = session_paths (bgp_peer_path kind (np_name u)) kind (bgp_peer_form u)"
  by (cases kind) (simp_all add: placement_segment_def session_paths_def unnumbered_def switched_after_def created_after_def
      form_desired_def form_seg_def bgp_peer_field_defs v6only_path_def bgp_peer_form_def Let_def Un_ac)

lemma bgp_peer_before_paths:
  "bgp_peer_before kind (Some l) = bgp_peer_paths (bgp_peer_path kind (np_name l)) kind l"
proof -
  have "form_live b (bgp_peer_fields (Some l) l) =
     leaf_paths (b @ [''update-source'']) (np_update_source l) \<union>
     leaf_paths (b @ [''ebgp-multihop'']) (map_option string_of_int (np_ebgp_multihop l)) \<union>
     leaf_paths (b @ [''description'']) (np_description l) \<union>
     flag_paths (b @ [''capability'', ''extended-nexthop'']) (np_extended_nexthop l) \<union>
     flag_paths (b @ [''bfd'']) (np_bfd l) \<union> flag_paths (b @ [''shutdown'']) (\<not> np_enabled l)" for b
    by (simp add: form_live_def bgp_peer_fields_def numStr_def Un_ac)
  then show ?thesis
    by (simp add: bgp_peer_before_def bgp_peer_segments_def seg_before_def session_live_paths form_seg_def af_segment_def
        live_af_def af_live_paths ADDRESS_FAMILIES_def bgp_peer_paths_def Let_def Un_ac)
qed

lemma bgp_peer_after_paths:
  "bgp_peer_after kind u = bgp_peer_paths (bgp_peer_path kind (np_name u)) kind (bgp_peer_form u)"
proof -
  have "form_desired b (bgp_peer_fields None u) =
     leaf_paths (b @ [''update-source'']) (np_update_source (bgp_peer_form u)) \<union>
     leaf_paths (b @ [''ebgp-multihop'']) (map_option string_of_int (np_ebgp_multihop (bgp_peer_form u))) \<union>
     leaf_paths (b @ [''description'']) (np_description (bgp_peer_form u)) \<union>
     flag_paths (b @ [''capability'', ''extended-nexthop'']) (np_extended_nexthop (bgp_peer_form u)) \<union>
     flag_paths (b @ [''bfd'']) (np_bfd (bgp_peer_form u)) \<union> flag_paths (b @ [''shutdown'']) (\<not> np_enabled (bgp_peer_form u))" for b
    by (simp add: form_desired_def bgp_peer_fields_def bgp_peer_form_def numStr_def Un_ac)
  moreover have "np_afi (bgp_peer_form u) af = neighbor_af_form (np_afi u af)" for af by (simp add: bgp_peer_form_def)
  ultimately show ?thesis
    by (simp add: bgp_peer_after_def bgp_peer_segments_def seg_after_def session_form_paths form_seg_def af_segment_def
        af_form_paths ADDRESS_FAMILIES_def bgp_peer_paths_def Let_def Un_ac)
qed

lemma bgp_peer_region_places: "bgp_peer_region kind u = bgp_peer_places (bgp_peer_path kind (np_name u)) kind u"
  by (cases kind; cases "np_is_interface u")
    (simp_all add: bgp_peer_region_def bgp_peer_segments_def placement_segment_def af_segment_def seg_region_def form_seg_def
      form_region_def bgp_peer_field_defs unnumbered_def ADDRESS_FAMILIES_def peer_af_path_def bgp_peer_places_def Let_def Un_ac)

text \<open>
  C35: saving a neighbor or a peer group on a device that holds the peer the form was opened with leaves
  exactly the leaves of the filled form (\<open>bgp_peer_paths\<close> says leaf by leaf which they are): its session
  parameters at the place where a numbered or an unnumbered peer has them, its own leaves, and for each
  address family that is on, the family with exactly its leaves; a family that is switched off goes as a
  whole. A new peer without anything is created on its own. Nothing else on the device changes. The form
  does not let a peer change its name or turn from numbered to unnumbered.
\<close>

theorem bgp_peer_save:
  assumes dev: "device_laws dev single" and sch: "bgp_schema single" and same: "same_peer kind live u"
    and b: "b = [''protocols'', ''bgp'', peer_kind_str kind, np_name u]"
    and S: "S \<inter> bgp_peer_places b kind u = (case live of None \<Rightarrow> {} | Some l \<Rightarrow> bgp_peer_paths b kind l)"
    and D: "D = bgp_peer_paths b kind (bgp_peer_form u)"
  shows "run dev (diffBgpPeer kind live u) S = (S - bgp_peer_places b kind u) \<union> D \<union> (if live = None \<and> D = {} then {b} else {})"
proof -
  have b': "bgp_peer_path kind (np_name u) = b" by (simp add: b bgp_peer_path_def bgp_base_def)
  have "bgp_peer_before kind live = (case live of None \<Rightarrow> {} | Some l \<Rightarrow> bgp_peer_paths b kind l)"
  proof (cases live)
    case None
    then show ?thesis by (simp add: bgp_peer_before_def)
  next
    case (Some l)
    then have "bgp_peer_path kind (np_name l) = b" using same b' by (simp add: same_peer_def)
    then show ?thesis using Some by (simp add: bgp_peer_before_paths)
  qed
  with S have "S \<inter> bgp_peer_region kind u = bgp_peer_before kind live" by (simp add: bgp_peer_region_places b')
  from bgp_peer_effect [OF dev sch same this] show ?thesis
    by (simp add: bgp_peer_region_places bgp_peer_after_paths b' D)
qed

section \<open>Accepting the own number\<close>

text \<open>
  A bare \<open>allowas-in\<close> is read as one occurrence. Clearing the field then deletes the number, which the
  device does not have, and the flag stays.
\<close>

lemma bare_allowas_stays:
  assumes dev: "device_laws dev single"
  defines "l \<equiv> parseAf (Some (JObj [(''allowas-in'', JObj [])]))"
  shows "na_allowas_in l = Some 1"
    and "run dev (diffPeerAf b af l (l\<lparr>na_allowas_in := None\<rparr>)) {peer_af_path b af, peer_af_path b af @ [''allowas-in'']} =
      {peer_af_path b af, peer_af_path b af @ [''allowas-in'']}"
proof -
  have l: "l = emptyAf\<lparr>na_enabled := True, na_allowas_in := Some 1\<rparr>" unfolding l_def by code_simp
  then show "na_allowas_in l = Some 1" by simp
  have "diffPeerAf b af l (l\<lparr>na_allowas_in := None\<rparr>) = [cdel (peer_af_path b af @ [''allowas-in'', ''number''])]"
    by (simp add: l diffPeerAf_def af_fields_def emptyAf_def form_cmds_def leaf_cmds_def flag_cmds_def numStr_def blank_to_none_def)
  then show "run dev (diffPeerAf b af l (l\<lparr>na_allowas_in := None\<rparr>)) {peer_af_path b af, peer_af_path b af @ [''allowas-in'']} =
      {peer_af_path b af, peer_af_path b af @ [''allowas-in'']}"
    by (auto simp: dev_delete [OF dev] prefix_def)
qed

section \<open>An example\<close>

definition bgp_single :: "path \<Rightarrow> bool" where
  "bgp_single p \<longleftrightarrow> (length p = 3 \<and> last p = ''system-as'') \<or>
     (length p = 4 \<and> p ! 2 = ''parameters'' \<and> last p \<in> {''router-id'', ''cluster-id''}) \<or>
     (length p = 5 \<and> last p \<in> {''remote-as'', ''peer-group'', ''update-source'', ''ebgp-multihop'', ''description''}) \<or>
     (length p = 7 \<and> last p \<in> {''remote-as'', ''peer-group'', ''maximum-prefix''}) \<or>
     (length p = 8 \<and> last p \<in> {''number'', ''import'', ''export''})"

lemma peer_kind_strs: "peer_kind_str k \<noteq> ''system-as''" "peer_kind_str k \<noteq> ''parameters''"
  by (cases k; simp)+

lemma bgp_single_schema: "bgp_schema bgp_single"
  by (simp add: peer_kind_strs bgp_schema_def bgp_single_def bgp_fields_def unicast_fields_def bgp_peer_field_defs af_fields_def peer_af_path_def
    v6only_path_def bgp_peer_path_def bgp_base_def Let_def)

text \<open>An unnumbered neighbor leaves IPv4 unicast and gets a route map for the overlay.\<close>

definition fabric_peer :: "(address_family \<Rightarrow> neighbor_af) \<Rightarrow> bgp_peer" where
  "fabric_peer afi = emptyBgpPeer\<lparr>np_name := ''eth1'', np_is_interface := True, np_remote_as := Some ''external'', np_afi := afi\<rparr>"

definition on_af :: "string option \<Rightarrow> neighbor_af" where
  "on_af rm = emptyAf\<lparr>na_enabled := True, na_route_map_import := rm\<rparr>"

lemma bgp_peer_save_witness:
  "run (ref_dev bgp_single)
     (diffBgpPeer BgpNeighbor (Some (fabric_peer (emptyAfi(IPv4Unicast := on_af None, L2vpnEvpn := on_af None))))
       (fabric_peer (emptyAfi(L2vpnEvpn := on_af (Some ''leaf '')))))
     (bgp_peer_paths [''protocols'', ''bgp'', ''neighbor'', ''eth1''] BgpNeighbor
       (fabric_peer (emptyAfi(IPv4Unicast := on_af None, L2vpnEvpn := on_af None)))) =
   (let b = [''protocols'', ''bgp'', ''neighbor'', ''eth1''] in
    {b @ [''address-family'', ''l2vpn-evpn''], b @ [''address-family'', ''l2vpn-evpn'', ''route-map'', ''import'', ''leaf''],
     b @ [''interface'', ''v6only''], b @ [''interface'', ''v6only'', ''remote-as'', ''external'']})"
  (is "run _ (diffBgpPeer _ (Some ?l) ?u) ?S = ?after")
proof -
  let ?b = "[''protocols'', ''bgp'', ''neighbor'', ''eth1'']"
  have same: "same_peer BgpNeighbor (Some ?l) ?u" by (simp add: same_peer_def fabric_peer_def)
  have n: "?b = [''protocols'', ''bgp'', peer_kind_str BgpNeighbor, np_name ?u]" by (simp add: fabric_peer_def)
  then have b: "bgp_peer_path BgpNeighbor (np_name ?u) = ?b" "bgp_peer_path BgpNeighbor (np_name ?l) = ?b"
    by (simp_all add: bgp_peer_path_def bgp_base_def fabric_peer_def)
  have sub: "?S \<subseteq> bgp_peer_places ?b BgpNeighbor ?u"
    using edits_segments [OF bgp_peer_segments_ok [OF ref_dev_laws bgp_single_schema same] bgp_peer_segments_apart]
    unfolding bgp_peer_segments_only [OF same] bgp_peer_region_places bgp_peer_before_paths b by (simp add: edits_def)
  then have S: "?S \<inter> bgp_peer_places ?b BgpNeighbor ?u = (case Some ?l of None \<Rightarrow> {} | Some l \<Rightarrow> bgp_peer_paths ?b BgpNeighbor l)"
    by auto
  have after: "bgp_peer_paths ?b BgpNeighbor (bgp_peer_form ?u) = ?after"
  proof -
    have "blank_to_none (Some ''leaf '') = Some ''leaf''" "blank_to_none (Some ''external'') = Some ''external''" by code_simp+
    then show ?thesis
      by (simp add: bgp_peer_paths_def session_paths_def neighbor_af_paths_def bgp_peer_form_def neighbor_af_form_def
          fabric_peer_def emptyBgpPeer_def emptyAfi_def emptyAf_def on_af_def leaf_paths_def flag_paths_def Let_def
          blank_to_none_def [of None])
  qed
  have gone: "A = (B - C) \<union> D \<union> (if Some l = None \<and> D = {} then E else {}) \<Longrightarrow> B \<subseteq> C \<Longrightarrow> D = D' \<Longrightarrow> A = D'"
    for A B C D D' E :: "path set" and l :: bgp_peer by auto
  show ?thesis by (rule gone [OF bgp_peer_save [OF ref_dev_laws bgp_single_schema same n S refl] sub after])
qed

end
