(* ===== verification/Content_Filtering.thy ===== *)
theory Content_Filtering
  imports Ssl_Inspection
begin

text \<open>
  Content filtering: \<open>lib/content-filtering.ts\<close>. The configuration under \<open>service content-filtering\<close>, its
  filter groups, and the diff of the whole model, whose defaults the device may leave out. Status,
  categories, logs and the test of a URL are requests.
\<close>

section \<open>Model\<close>

datatype log_level = LogNone | LogBlocked | LogAll

fun log_level_str :: "log_level \<Rightarrow> string" where
  "log_level_str LogNone = ''none''"
| "log_level_str LogBlocked = ''blocked-only''"
| "log_level_str LogAll = ''all''"

record filter_group =
  fg_name :: string
  fg_description :: "string option"
  fg_sourceAddress :: "string list"
  fg_blanketBlock :: bool
  fg_categories :: "string list"
  fg_blockDomains :: "string list"
  fg_allowDomains :: "string list"
  fg_blockUrlRegex :: "string list"
  fg_phraseFiltering :: bool
  fg_naughtynessLimit :: int
  fg_safeSearch :: bool
  fg_blockFileExtensions :: "string list"
  fg_blockMimeTypes :: "string list"

record blocklists =
  bk_sources :: "string list"
  bk_autoUpdate :: bool
  bk_updateIntervalHours :: int

record content_filtering =
  cn_enabled :: bool
  cn_listenPort :: int
  cn_groups :: "filter_group list"
  cn_blocklists :: blocklists
  cn_message :: "string option"
  cn_contact :: "string option"
  cn_logLevel :: log_level

definition DEFAULT_NAUGHTYNESS :: int where
  "DEFAULT_NAUGHTYNESS = 150"

definition DEFAULT_GROUP_NAME :: string where
  "DEFAULT_GROUP_NAME = ''Global''"

definition emptyFilterGroup :: "string \<Rightarrow> filter_group" where
  "emptyFilterGroup name = \<lparr>fg_name = name, fg_description = None, fg_sourceAddress = [], fg_blanketBlock = False,
     fg_categories = [], fg_blockDomains = [], fg_allowDomains = [], fg_blockUrlRegex = [], fg_phraseFiltering = False,
     fg_naughtynessLimit = DEFAULT_NAUGHTYNESS, fg_safeSearch = False, fg_blockFileExtensions = [], fg_blockMimeTypes = []\<rparr>"

definition emptyContentFilteringConfig :: content_filtering where
  "emptyContentFilteringConfig = \<lparr>cn_enabled = False, cn_listenPort = 1344, cn_groups = [],
     cn_blocklists = \<lparr>bk_sources = [], bk_autoUpdate = False, bk_updateIntervalHours = 24\<rparr>,
     cn_message = None, cn_contact = None, cn_logLevel = LogBlocked\<rparr>"

definition cn_base :: path where
  "cn_base = [''service'', ''content-filtering'']"

section \<open>Reading\<close>

definition read_group :: "string \<times> json \<Rightarrow> filter_group" where
  "read_group e = (let g = as_object (snd e) in
     \<lparr>fg_name = fst e, fg_description = childStr g ''description'', fg_sourceAddress = childList g ''source-address'',
       fg_blanketBlock = in_object ''blanket-block'' g, fg_categories = childList g ''category'',
       fg_blockDomains = childList g ''block-domain'', fg_allowDomains = childList g ''allow-domain'',
       fg_blockUrlRegex = childList g ''block-url-regex'', fg_phraseFiltering = in_object ''phrase-filtering'' g,
       fg_naughtynessLimit = number_or DEFAULT_NAUGHTYNESS (childStr g ''naughtyness-limit''),
       fg_safeSearch = in_object ''safe-search'' g, fg_blockFileExtensions = childList g ''block-file-extension'',
       fg_blockMimeTypes = childList g ''block-mime-type''\<rparr>)"

definition readGroups :: "(string \<Rightarrow> string \<Rightarrow> int) \<Rightarrow> json option \<Rightarrow> filter_group list" where
  "readGroups lc node = (case node of None \<Rightarrow> []
     | Some n \<Rightarrow> sort_by (\<lambda>a b. lc (fg_name a) (fg_name b)) (map read_group (obj_entries n)))"

definition read_log_level :: "string option \<Rightarrow> log_level" where
  "read_log_level lvl = (if lvl = Some ''none'' then LogNone else if lvl = Some ''all'' then LogAll else LogBlocked)"

definition read_content_filtering :: "(string \<Rightarrow> string \<Rightarrow> int) \<Rightarrow> json \<Rightarrow> read_error + content_filtering" where
  "read_content_filtering lc cfg =
     (let bl = obj_or_empty (childCfg cfg ''blocklists''); bp = obj_or_empty (childCfg cfg ''block-page'');
          lg = obj_or_empty (childCfg cfg ''log''); groups = readGroups lc (childCfg cfg ''filter-group'') in
      case has_key ''enable'' cfg of Inl e \<Rightarrow> Inl e
      | Inr enabled \<Rightarrow> Inr \<lparr>cn_enabled = enabled, cn_listenPort = number_or 1344 (childStr cfg ''listen-port''),
          cn_groups = (if groups \<noteq> [] then groups else [emptyFilterGroup DEFAULT_GROUP_NAME]),
          cn_blocklists = \<lparr>bk_sources = childList bl ''source'', bk_autoUpdate = in_object ''auto-update'' bl,
            bk_updateIntervalHours = number_or 24 (childStr bl ''update-interval'')\<rparr>,
          cn_message = childStr bp ''message'', cn_contact = childStr bp ''contact'',
          cn_logLevel = read_log_level (childStr lg ''level'')\<rparr>)"

definition fetchContentFiltering :: "(string \<Rightarrow> string \<Rightarrow> int) \<Rightarrow> vyos_response \<Rightarrow> read_error + content_filtering" where
  "fetchContentFiltering lc resp =
     (if \<not> resp_success resp then
        (let e = (case resp_error resp of None \<Rightarrow> [] | Some e \<Rightarrow> e) in
         if sublist ''empty'' (map lower_char e) then Inr emptyContentFilteringConfig
         else Inl (DeviceError (if e = [] then ''Device returned an error reading the content-filtering config.'' else e)))
      else read_content_filtering lc (case resp_data resp of None \<Rightarrow> empty_obj | Some d \<Rightarrow> or_empty d))"

text \<open>
  The default group is synthesised when the node has no group, so that it is always visible. It is not
  when the device has no node at all and says so.
\<close>

lemma default_group_missing:
  "map_sum id cn_groups (fetchContentFiltering lc \<lparr>resp_success = True, resp_data = Some empty_obj, resp_error = None\<rparr>) =
     Inr [emptyFilterGroup ''Global'']"
  "map_sum id cn_groups (fetchContentFiltering lc \<lparr>resp_success = False, resp_data = None,
     resp_error = Some ''Configuration under specified path is empty''\<rparr>) = Inr []"
proof -
  have "sublist ''empty'' (map lower_char ''Configuration under specified path is empty'')" by code_simp
  then show "map_sum id cn_groups (fetchContentFiltering lc \<lparr>resp_success = False, resp_data = None,
     resp_error = Some ''Configuration under specified path is empty''\<rparr>) = Inr []"
    unfolding fetchContentFiltering_def by (simp add: emptyContentFilteringConfig_def)
qed (simp add: fetchContentFiltering_def read_content_filtering_def readGroups_def empty_obj_def childCfg_def DEFAULT_GROUP_NAME_def
    Let_def)

section \<open>Diff\<close>

definition cn_group_base :: "string \<Rightarrow> path" where
  "cn_group_base name = cn_base @ [''filter-group'', name]"

definition group_cmds :: "filter_group \<Rightarrow> filter_group \<Rightarrow> vyos_command list" where
  "group_cmds prev g = (let p = cn_group_base (fg_name g) in
     leaf_cmds (p @ [''description'']) (fg_description prev) (fg_description g) @
     multiDiff (p @ [''source-address'']) (fg_sourceAddress prev) (fg_sourceAddress g) @
     flag_cmds (p @ [''blanket-block'']) (fg_blanketBlock prev) (fg_blanketBlock g) @
     multiDiff (p @ [''category'']) (fg_categories prev) (fg_categories g) @
     multiDiff (p @ [''block-domain'']) (fg_blockDomains prev) (fg_blockDomains g) @
     multiDiff (p @ [''allow-domain'']) (fg_allowDomains prev) (fg_allowDomains g) @
     multiDiff (p @ [''block-url-regex'']) (fg_blockUrlRegex prev) (fg_blockUrlRegex g) @
     flag_cmds (p @ [''phrase-filtering'']) (fg_phraseFiltering prev) (fg_phraseFiltering g) @
     leaf_cmds (p @ [''naughtyness-limit'']) (Some (string_of_int (fg_naughtynessLimit prev)))
       (Some (string_of_int (fg_naughtynessLimit g))) @
     flag_cmds (p @ [''safe-search'']) (fg_safeSearch prev) (fg_safeSearch g) @
     multiDiff (p @ [''block-file-extension'']) (fg_blockFileExtensions prev) (fg_blockFileExtensions g) @
     multiDiff (p @ [''block-mime-type'']) (fg_blockMimeTypes prev) (fg_blockMimeTypes g))"

definition groups_by_name :: "filter_group list \<Rightarrow> (string \<times> filter_group) list" where
  "groups_by_name gs = js_map (map (\<lambda>g. (fg_name g, g)) gs)"

definition prev_group :: "filter_group list \<Rightarrow> string \<Rightarrow> filter_group" where
  "prev_group live name = (case map_of (groups_by_name live) name of None \<Rightarrow> emptyFilterGroup name | Some g \<Rightarrow> g)"

definition groupDiff :: "filter_group list \<Rightarrow> filter_group list \<Rightarrow> vyos_command list" where
  "groupDiff live desired =
     concat (map (\<lambda>g. group_cmds (prev_group live (fg_name g)) g) desired) @
     map (\<lambda>g. cdel (cn_group_base (fg_name g))) (filter (\<lambda>g. map_of (groups_by_name desired) (fg_name g) = None) live)"

definition diffContentFiltering :: "content_filtering \<Rightarrow> content_filtering \<Rightarrow> vyos_command list" where
  "diffContentFiltering live d =
     flag_cmds (cn_base @ [''enable'']) (cn_enabled live) (cn_enabled d) @
     leaf_cmds (cn_base @ [''listen-port'']) (Some (string_of_int (cn_listenPort live))) (Some (string_of_int (cn_listenPort d))) @
     groupDiff (cn_groups live) (cn_groups d) @
     multiDiff (cn_base @ [''blocklists'', ''source'']) (bk_sources (cn_blocklists live)) (bk_sources (cn_blocklists d)) @
     flag_cmds (cn_base @ [''blocklists'', ''auto-update'']) (bk_autoUpdate (cn_blocklists live)) (bk_autoUpdate (cn_blocklists d)) @
     leaf_cmds (cn_base @ [''blocklists'', ''update-interval'']) (Some (string_of_int (bk_updateIntervalHours (cn_blocklists live))))
       (Some (string_of_int (bk_updateIntervalHours (cn_blocklists d)))) @
     leaf_cmds (cn_base @ [''block-page'', ''message'']) (cn_message live) (cn_message d) @
     leaf_cmds (cn_base @ [''block-page'', ''contact'']) (cn_contact live) (cn_contact d) @
     leaf_cmds (cn_base @ [''log'', ''level'']) (Some (log_level_str (cn_logLevel live))) (Some (log_level_str (cn_logLevel d)))"

text \<open>What is committed, if anything is.\<close>

definition applyContentFiltering_cmds :: "content_filtering \<Rightarrow> content_filtering \<Rightarrow> vyos_command list option" where
  "applyContentFiltering_cmds live d = (let cs = diffContentFiltering live d in if cs = [] then None else Some cs)"

definition setContentFilteringEnabled_cmds :: "content_filtering \<Rightarrow> bool \<Rightarrow> vyos_command list option" where
  "setContentFilteringEnabled_cmds live enabled =
     (if cn_enabled live = enabled then None
      else Some [if enabled then cset (cn_base @ [''enable'']) else cdel (cn_base @ [''enable''])])"

section \<open>Checks of the form\<close>

datatype check_error = EnterDomain | UseCidr | UseValidCidr

definition validateDomain :: "string \<Rightarrow> check_error option" where
  "validateDomain pat = (let core = pattern_core pat in
     if core = [] \<or> 253 < length core \<or> \<not> list_all domain_label (split_on (CHR ''.'') core) then Some EnterDomain else None)"

definition short_octet :: "string \<Rightarrow> bool" where
  "short_octet s \<longleftrightarrow> s \<noteq> [] \<and> length s \<le> 3 \<and> list_all is_digit s"

definition dotted_quad :: "string \<Rightarrow> bool" where
  "dotted_quad s \<longleftrightarrow> length (split_on (CHR ''.'') s) = 4 \<and> list_all short_octet (split_on (CHR ''.'') s)"

definition validateCidr :: "string \<Rightarrow> check_error option" where
  "validateCidr cidr = (case split_on (CHR ''/'') cidr of
       [a, l] \<Rightarrow>
         if a = [] \<or> l = [] \<or> \<not> list_all is_digit l then Some UseCidr
         else if dotted_quad a \<and> nat_of_digits l \<le> 32 then None
         else if CHR '':'' \<in> set a \<and> nat_of_digits l \<le> 128 then None
         else Some UseValidCidr
     | _ \<Rightarrow> Some UseCidr)"

text \<open>The check is one of shape: octets above 255 pass, and so does any text with a colon in it.\<close>

lemma validateCidr_loose:
  "validateCidr ''999.0.0.1/8'' = None" "validateCidr '':/0'' = None" "validateCidr ''10.0.0.0/33'' = Some UseValidCidr"
  by code_simp+

section \<open>What a save does\<close>

text \<open>The kinds of parts a form with defaults has.\<close>

definition flag_part :: "path \<Rightarrow> bool \<Rightarrow> bool \<Rightarrow> part" where
  "flag_part p l d = (cone p, flag_cmds p l d, (\<lambda>X. X = flag_paths p l), (\<lambda>X. X = flag_paths p d))"

definition multi_part :: "path \<Rightarrow> string list \<Rightarrow> string list \<Rightarrow> part" where
  "multi_part p l d = (cone p, multiDiff p l d, (\<lambda>X. X = list_paths p l), (\<lambda>X. X = list_paths p d))"

definition leaf_part :: "path \<Rightarrow> string option \<Rightarrow> string option \<Rightarrow> part" where
  "leaf_part p l d = (cone p, leaf_cmds p l d, (\<lambda>X. X = leaf_paths p l), (\<lambda>X. X = leaf_paths p d))"

definition default_part :: "path \<Rightarrow> string \<Rightarrow> string \<Rightarrow> string \<Rightarrow> part" where
  "default_part p dflt l d = (cone p, leaf_cmds p (Some l) (Some d), reads_leaf p (Some dflt) l, reads_leaf p (Some dflt) d)"

lemmas part_kind_defs = flag_part_def multi_part_def leaf_part_def default_part_def

lemma part_kinds_ok:
  assumes "device_laws dev single"
  shows "\<not> single (butlast p) \<Longrightarrow> part_ok dev (flag_part p a b)" "\<not> single p \<Longrightarrow> part_ok dev (multi_part p xs ys)"
    "single p \<Longrightarrow> part_ok dev (leaf_part p u v)" "single p \<Longrightarrow> part_ok dev (default_part p w x y)"
  by (simp_all add: part_ok_def part_cmds_def part_kind_defs achieves_flag [OF assms] achieves_multiDiff [OF assms]
      achieves_leaf [OF assms] achieves_leaf_default [OF assms])

lemma part_kinds_at [simp]:
  "fst (flag_part p a b) = cone p" "fst (multi_part p xs ys) = cone p" "fst (leaf_part p u v) = cone p"
  "fst (default_part p w x y) = cone p"
  by (simp_all add: part_kind_defs)

text \<open>Parts below one node are a part of their own.\<close>

lemma achieves_parts:
  assumes "\<forall>x\<in>set xs. part_ok dev x" and "sorted_wrt (\<lambda>x y. fst x \<inter> fst y = {}) xs" and "\<forall>x\<in>set xs. fst x \<subseteq> C"
  shows "achieves dev C (concat (map part_cmds xs)) (\<lambda>X. \<forall>x\<in>set xs. part_before X x) (\<lambda>X. \<forall>x\<in>set xs. part_after X x)"
proof (rule achievesI)
  fix S assume before: "\<forall>x\<in>set xs. part_before (S \<inter> C) x"
  have in_C: "T \<inter> C \<inter> fst x = T \<inter> fst x" if "x \<in> set xs" for T x using assms(3) that by blast
  have "\<forall>x\<in>set xs. part_before S x" using before in_C by (simp add: part_before_def)
  from parts_run [OF assms(1,2) this]
  have run: "\<forall>x\<in>set xs. part_after (run dev (concat (map part_cmds xs)) S) x"
      "run dev (concat (map part_cmds xs)) S - (\<Union>x\<in>set xs. fst x) = S - (\<Union>x\<in>set xs. fst x)" by simp_all
  show "\<forall>x\<in>set xs. part_after (run dev (concat (map part_cmds xs)) S \<inter> C) x"
    using run(1) in_C by (simp add: part_after_def)
  show "run dev (concat (map part_cmds xs)) S - C = S - C" using run(2) assms(3) by blast
qed

text \<open>A filter group.\<close>

definition group_parts :: "path \<Rightarrow> filter_group \<Rightarrow> filter_group \<Rightarrow> part list" where
  "group_parts p l g =
     [leaf_part (p @ [''description'']) (fg_description l) (fg_description g),
      multi_part (p @ [''source-address'']) (fg_sourceAddress l) (fg_sourceAddress g),
      flag_part (p @ [''blanket-block'']) (fg_blanketBlock l) (fg_blanketBlock g),
      multi_part (p @ [''category'']) (fg_categories l) (fg_categories g),
      multi_part (p @ [''block-domain'']) (fg_blockDomains l) (fg_blockDomains g),
      multi_part (p @ [''allow-domain'']) (fg_allowDomains l) (fg_allowDomains g),
      multi_part (p @ [''block-url-regex'']) (fg_blockUrlRegex l) (fg_blockUrlRegex g),
      flag_part (p @ [''phrase-filtering'']) (fg_phraseFiltering l) (fg_phraseFiltering g),
      default_part (p @ [''naughtyness-limit'']) ''150'' (string_of_int (fg_naughtynessLimit l)) (string_of_int (fg_naughtynessLimit g)),
      flag_part (p @ [''safe-search'']) (fg_safeSearch l) (fg_safeSearch g),
      multi_part (p @ [''block-file-extension'']) (fg_blockFileExtensions l) (fg_blockFileExtensions g),
      multi_part (p @ [''block-mime-type'']) (fg_blockMimeTypes l) (fg_blockMimeTypes g)]"

definition group_reads :: "string \<Rightarrow> filter_group \<Rightarrow> path set \<Rightarrow> bool" where
  "group_reads name g X \<longleftrightarrow> (\<forall>x\<in>set (group_parts (cn_group_base name) g g). part_before X x)"

text \<open>The part of the device at a name: the group of that name reads as the model has it, or there is nothing.\<close>

definition groups_read :: "filter_group list \<Rightarrow> string \<Rightarrow> path set \<Rightarrow> bool" where
  "groups_read gs name X \<longleftrightarrow> (case map_of (groups_by_name gs) name of None \<Rightarrow> X = {} | Some g \<Rightarrow> group_reads name g X)"

lemma group_parts_reads:
  "(\<forall>x\<in>set (group_parts (cn_group_base n) l g). part_before X x) \<longleftrightarrow> group_reads n l X"
  "(\<forall>x\<in>set (group_parts (cn_group_base n) l g). part_after X x) \<longleftrightarrow> group_reads n g X"
  by (simp_all add: group_reads_def group_parts_def part_before_def part_after_def part_kind_defs)

lemma group_parts_cmds: "concat (map part_cmds (group_parts (cn_group_base (fg_name g)) l g)) = group_cmds l g"
  by (simp add: group_parts_def group_cmds_def part_cmds_def part_kind_defs Let_def)

definition cn_schema :: "(path \<Rightarrow> bool) \<Rightarrow> bool" where
  "cn_schema single \<longleftrightarrow>
     \<not> single cn_base \<and> \<not> single (cn_base @ [''blocklists'']) \<and> \<not> single (cn_base @ [''blocklists'', ''source'']) \<and>
     (\<forall>p\<in>{[''listen-port''], [''blocklists'', ''update-interval''], [''block-page'', ''message''], [''block-page'', ''contact''],
        [''log'', ''level'']}. single (cn_base @ p)) \<and>
     (\<forall>n. \<not> single (cn_group_base n) \<and> single (cn_group_base n @ [''description'']) \<and> single (cn_group_base n @ [''naughtyness-limit'']) \<and>
        (\<forall>k\<in>{''source-address'', ''category'', ''block-domain'', ''allow-domain'', ''block-url-regex'', ''block-file-extension'',
          ''block-mime-type''}. \<not> single (cn_group_base n @ [k])))"

lemma achieves_group:
  assumes dev: "device_laws dev single" and sch: "cn_schema single"
  shows "achieves dev (cone (cn_group_base (fg_name g))) (group_cmds l g) (group_reads (fg_name g) l) (group_reads (fg_name g) g)"
proof -
  let ?xs = "group_parts (cn_group_base (fg_name g)) l g"
  have ok: "\<forall>x\<in>set ?xs. part_ok dev x" using sch by (simp add: group_parts_def part_kinds_ok [OF dev] cn_schema_def)
  have disj: "sorted_wrt (\<lambda>x y. fst x \<inter> fst y = {}) ?xs" by (simp add: group_parts_def cone_disjoint_iff)
  have sub: "\<forall>x\<in>set ?xs. fst x \<subseteq> cone (cn_group_base (fg_name g))" using cone_append_subset by (simp add: group_parts_def)
  from achieves_parts [OF ok disj sub] show ?thesis by (simp only: group_parts_cmds group_parts_reads)
qed

lemma group_reads_nothing: "group_reads n (emptyFilterGroup m) {}"
proof -
  have "string_of_int 150 = ''150''" by code_simp
  then show ?thesis
    by (simp add: group_reads_def group_parts_def part_before_def part_kind_defs emptyFilterGroup_def DEFAULT_NAUGHTYNESS_def
        reads_leaf_def)
qed

lemma groups_by_name_lookup:
  assumes "distinct (map fg_name gs)"
  shows "g \<in> set gs \<Longrightarrow> map_of (groups_by_name gs) (fg_name g) = Some g"
    and "map_of (groups_by_name gs) n = None \<longleftrightarrow> n \<notin> fg_name ` set gs"
proof -
  have m: "map_of (groups_by_name gs) = map_of (map (\<lambda>g. (fg_name g, g)) gs)"
    unfolding groups_by_name_def using assms by (intro map_of_js_map_distinct) (simp add: comp_def)
  show "map_of (groups_by_name gs) (fg_name g) = Some g" if "g \<in> set gs"
    unfolding m using assms that by (simp add: map_of_eq_Some_iff comp_def)
  show "map_of (groups_by_name gs) n = None \<longleftrightarrow> n \<notin> fg_name ` set gs"
    unfolding m by (simp add: map_of_eq_None_iff image_image)
qed

text \<open>The diff of the groups as parts, one for each name that it touches.\<close>

definition group_part :: "filter_group list \<Rightarrow> filter_group list \<Rightarrow> string \<times> vyos_command list \<Rightarrow> part" where
  "group_part live desired x = (cone (cn_group_base (fst x)), snd x, groups_read live (fst x), groups_read desired (fst x))"

definition touched :: "filter_group list \<Rightarrow> filter_group list \<Rightarrow> (string \<times> vyos_command list) list" where
  "touched live desired =
     map (\<lambda>g. (fg_name g, group_cmds (prev_group live (fg_name g)) g)) desired @
     map (\<lambda>g. (fg_name g, [cdel (cn_group_base (fg_name g))])) (filter (\<lambda>g. map_of (groups_by_name desired) (fg_name g) = None) live)"

lemma concat_singles: "concat (map (\<lambda>x. [f x]) xs) = map f xs"
  by (induction xs) simp_all

lemma touched_cmds: "concat (map part_cmds (map (group_part live desired) (touched live desired))) = groupDiff live desired"
  by (simp add: touched_def groupDiff_def group_part_def part_cmds_def comp_def concat_singles)

lemma touched_ok:
  assumes dev: "device_laws dev single" and sch: "cn_schema single"
    and live: "distinct (map fg_name live)" and des: "distinct (map fg_name desired)" and x: "x \<in> set (touched live desired)"
  shows "part_ok dev (group_part live desired x)"
proof -
  consider g where "g \<in> set desired" "x = (fg_name g, group_cmds (prev_group live (fg_name g)) g)"
    | g where "g \<in> set live" "fg_name g \<notin> fg_name ` set desired" "x = (fg_name g, [cdel (cn_group_base (fg_name g))])"
    using x groups_by_name_lookup(2) [OF des] by (auto simp: touched_def)
  then show ?thesis
  proof cases
    case 1
    have after: "groups_read desired (fg_name g) = group_reads (fg_name g) g"
      using groups_by_name_lookup(1) [OF des 1(1)] by (simp add: groups_read_def fun_eq_iff)
    have before: "groups_read live (fg_name g) X \<Longrightarrow> group_reads (fg_name g) (prev_group live (fg_name g)) X" for X
      using group_reads_nothing by (auto simp: groups_read_def prev_group_def split: option.splits)
    show ?thesis
      using achieves_weaken [OF achieves_group [OF dev sch] before] by (simp add: 1(2) group_part_def part_ok_def part_cmds_def after)
  next
    case 2
    have "groups_read desired (fg_name g) = (\<lambda>X. X = {})"
      using 2(2) groups_by_name_lookup(2) [OF des, of "fg_name g"] by (simp add: groups_read_def fun_eq_iff)
    moreover have "achieves dev (cone p) [cdel p] P (\<lambda>X. X = {})" for p P
      by (rule achievesI) (auto simp: dev_delete [OF dev])
    ultimately show ?thesis by (simp add: 2(3) group_part_def part_ok_def part_cmds_def)
  qed
qed

lemma touched_distinct:
  assumes live: "distinct (map fg_name live)" and des: "distinct (map fg_name desired)"
  shows "distinct (map fst (touched live desired))"
proof -
  let ?gone = "filter (\<lambda>g. map_of (groups_by_name desired) (fg_name g) = None) live"
  have "distinct (map fg_name ?gone)" by (rule distinct_map_filter [OF live])
  moreover have "set (map fg_name desired) \<inter> set (map fg_name ?gone) = {}"
    unfolding groups_by_name_lookup(2) [OF des] by (auto simp: image_iff)
  ultimately show ?thesis using des by (simp add: touched_def comp_def)
qed

lemma group_cones_apart: "n \<noteq> m \<Longrightarrow> cone (cn_group_base n) \<inter> cone (cn_group_base m) = {}"
  by (simp add: cn_group_base_def cone_disjoint_iff)

lemma touched_apart:
  assumes "distinct (map fst xs)"
  shows "sorted_wrt (\<lambda>x y. fst x \<inter> fst y = {}) (map (group_part live desired) xs)"
  using assms by (induction xs) (auto simp: group_part_def image_iff intro!: group_cones_apart)

definition head_parts :: "content_filtering \<Rightarrow> content_filtering \<Rightarrow> part list" where
  "head_parts l d =
     [flag_part (cn_base @ [''enable'']) (cn_enabled l) (cn_enabled d),
      default_part (cn_base @ [''listen-port'']) ''1344'' (string_of_int (cn_listenPort l)) (string_of_int (cn_listenPort d))]"

definition tail_parts :: "content_filtering \<Rightarrow> content_filtering \<Rightarrow> part list" where
  "tail_parts l d =
     [multi_part (cn_base @ [''blocklists'', ''source'']) (bk_sources (cn_blocklists l)) (bk_sources (cn_blocklists d)),
      flag_part (cn_base @ [''blocklists'', ''auto-update'']) (bk_autoUpdate (cn_blocklists l)) (bk_autoUpdate (cn_blocklists d)),
      default_part (cn_base @ [''blocklists'', ''update-interval'']) ''24'' (string_of_int (bk_updateIntervalHours (cn_blocklists l)))
        (string_of_int (bk_updateIntervalHours (cn_blocklists d))),
      leaf_part (cn_base @ [''block-page'', ''message'']) (cn_message l) (cn_message d),
      leaf_part (cn_base @ [''block-page'', ''contact'']) (cn_contact l) (cn_contact d),
      default_part (cn_base @ [''log'', ''level'']) ''blocked-only'' (log_level_str (cn_logLevel l)) (log_level_str (cn_logLevel d))]"

definition cn_parts :: "content_filtering \<Rightarrow> content_filtering \<Rightarrow> part list" where
  "cn_parts l d = head_parts l d @
     map (group_part (cn_groups l) (cn_groups d)) (touched (cn_groups l) (cn_groups d)) @ tail_parts l d"

lemma cn_parts_cmds: "concat (map part_cmds (cn_parts l d)) = diffContentFiltering l d"
  unfolding cn_parts_def map_append concat_append touched_cmds
  by (simp add: head_parts_def tail_parts_def diffContentFiltering_def part_cmds_def part_kind_defs)

text \<open>The device holds the model, with defaults spelled out or left out.\<close>

definition cn_reads :: "path set \<Rightarrow> content_filtering \<Rightarrow> bool" where
  "cn_reads S c \<longleftrightarrow> (\<forall>x\<in>set (head_parts c c @ tail_parts c c). part_before S x) \<and>
     (\<forall>n. groups_read (cn_groups c) n (S \<inter> cone (cn_group_base n)))"

lemma cn_fixed_reads:
  "(\<forall>x\<in>set (head_parts l d @ tail_parts l d). part_before S x) \<longleftrightarrow> (\<forall>x\<in>set (head_parts l l @ tail_parts l l). part_before S x)"
  "(\<forall>x\<in>set (head_parts l d @ tail_parts l d). part_after S x) \<longleftrightarrow> (\<forall>x\<in>set (head_parts d d @ tail_parts d d). part_before S x)"
  by (simp_all add: head_parts_def tail_parts_def part_before_def part_after_def part_kind_defs)

lemma cn_parts_ok:
  assumes dev: "device_laws dev single" and sch: "cn_schema single"
    and live: "distinct (map fg_name (cn_groups l))" and des: "distinct (map fg_name (cn_groups d))"
  shows "\<forall>x\<in>set (cn_parts l d). part_ok dev x"
proof -
  have "\<forall>x\<in>set (head_parts l d @ tail_parts l d). part_ok dev x"
    using sch by (simp add: head_parts_def tail_parts_def part_kinds_ok [OF dev] cn_schema_def butlast_append)
  then show ?thesis using touched_ok [OF dev sch live des] by (auto simp: cn_parts_def)
qed

lemma fixed_group_apart: "\<forall>x\<in>set (head_parts l d @ tail_parts l d). fst x \<inter> cone (cn_group_base n) = {}"
  by (simp add: head_parts_def tail_parts_def cn_group_base_def cone_disjoint_iff)

lemma group_part_at: "fst (group_part a b x) = cone (cn_group_base (fst x))"
  by (simp add: group_part_def)

lemma cn_parts_apart:
  assumes "distinct (map fg_name (cn_groups l))" and "distinct (map fg_name (cn_groups d))"
  shows "sorted_wrt (\<lambda>x y. fst x \<inter> fst y = {}) (cn_parts l d)"
proof -
  have fixed: "sorted_wrt (\<lambda>x y. fst x \<inter> fst y = {}) (head_parts l d)" "sorted_wrt (\<lambda>x y. fst x \<inter> fst y = {}) (tail_parts l d)"
      "\<forall>x\<in>set (head_parts l d). \<forall>y\<in>set (tail_parts l d). fst x \<inter> fst y = {}"
    by (simp_all add: head_parts_def tail_parts_def cone_disjoint_iff)
  show ?thesis
    unfolding cn_parts_def sorted_wrt_append using fixed touched_apart [OF touched_distinct [OF assms]] fixed_group_apart
    by (simp add: group_part_at Int_commute ball_Un)
qed


definition cn_single :: "path \<Rightarrow> bool" where
  "cn_single p \<longleftrightarrow> (length p = 3 \<and> last p = ''listen-port'') \<or>
     (length p = 4 \<and> last p \<in> {''update-interval'', ''message'', ''contact'', ''level''} \<and> p ! 2 \<noteq> ''filter-group'') \<or>
     (length p = 5 \<and> last p \<in> {''description'', ''naughtyness-limit''})"

lemma cn_single_schema: "cn_schema cn_single"
  by (simp add: cn_schema_def cn_single_def cn_base_def cn_group_base_def)

text \<open>A group for a network comes to an empty device.\<close>

definition kids_group :: filter_group where
  "kids_group = (emptyFilterGroup ''kids'')\<lparr>fg_sourceAddress := [''10.0.20.0/24''], fg_safeSearch := True\<rparr>"


text \<open>
  What the diff cannot express: a group that asks for nothing beyond the defaults. Adding one sends
  nothing, and the group of the form does not come to exist.
\<close>

lemma default_group_not_created:
  assumes "distinct (map fg_name gs)" and "n \<notin> fg_name ` set gs"
  shows "groupDiff gs (gs @ [emptyFilterGroup n]) = []"
proof -
  have des: "distinct (map fg_name (gs @ [emptyFilterGroup n]))" using assms by (auto simp: emptyFilterGroup_def)
  have "group_cmds (prev_group gs (fg_name g)) g = []" if "g \<in> set gs" for g
    using groups_by_name_lookup(1) [OF assms(1) that] by (simp add: prev_group_def group_cmds_def multiDiff_def Let_def)
  moreover have "map_of (groups_by_name gs) n = None" using assms by (simp add: groups_by_name_lookup(2))
  then have "group_cmds (prev_group gs n) (emptyFilterGroup n) = []"
    by (simp add: prev_group_def group_cmds_def multiDiff_def Let_def)
  moreover have "filter (\<lambda>g. map_of (groups_by_name (gs @ [emptyFilterGroup n])) (fg_name g) = None) gs = []"
    unfolding groups_by_name_lookup(2) [OF des] by (simp add: filter_empty_conv)
  moreover have "fg_name (emptyFilterGroup n) = n" by (simp add: emptyFilterGroup_def)
  ultimately show ?thesis by (simp add: groupDiff_def)
qed

end
