(* ===== verification/System_Config.thy ===== *)
theory System_Config
  imports Child_Forms Services
begin

text \<open>
  System settings: \<open>lib/system.ts\<close>, the configuration half. Login users with their SSH keys, the general
  settings with the NTP service, and the SSH service.
\<close>

section \<open>Model\<close>

record ssh_key =
  sk_id :: string
  sk_type :: "string option"
  sk_key :: "string option"

record system_user =
  ss_name :: string
  ss_full_name :: "string option"
  ss_has_password :: bool
  ss_keys :: "ssh_key list"

record general_settings =
  gs_hostname :: "string option"
  gs_domain_name :: "string option"
  gs_name_servers :: "string list"
  gs_timezone :: "string option"
  gs_ntp_servers :: "string list"

record ssh_settings =
  sh_enabled :: bool
  sh_ports :: "string list"
  sh_listen_addresses :: "string list"
  sh_password_auth_disabled :: bool

record system_config =
  sx_users :: "system_user list"
  sx_general :: general_settings
  sx_ssh :: ssh_settings

text \<open>The forms have the same shape as the settings; the form of a user also has a password and the old name.\<close>

record user_update =
  uu_name :: string
  uu_full_name :: "string option"
  uu_password :: "string option"
  uu_keys :: "ssh_key list"
  uu_original_name :: "string option"

section \<open>Reading\<close>

definition configTree :: "vyos_response \<Rightarrow> read_error + json" where
  "configTree resp = config_of_response ''Device returned an error reading the system config.'' resp"

definition parse_ssh_key :: "string \<times> json \<Rightarrow> ssh_key" where
  "parse_ssh_key e = (let k = or_empty (snd e) in
     \<lparr>sk_id = fst e, sk_type = childStr k ''type'', sk_key = childStr k ''key''\<rparr>)"

definition parse_system_user :: "string \<times> json \<Rightarrow> system_user" where
  "parse_system_user e =
     (let cfg = or_empty (snd e); auth = obj_or_empty (childCfg cfg ''authentication'');
          pubkeys = obj_or_empty (childCfg auth ''public-keys'') in
      \<lparr>ss_name = fst e, ss_full_name = childStr cfg ''full-name'',
        ss_has_password = (childStr auth ''encrypted-password'' \<noteq> None),
        ss_keys = map parse_ssh_key (obj_entries pubkeys)\<rparr>)"

definition parseUsers :: "(string \<Rightarrow> string \<Rightarrow> int) \<Rightarrow> json \<Rightarrow> system_user list" where
  "parseUsers lc login = sort_by (\<lambda>a b. lc (ss_name a) (ss_name b))
     (map parse_system_user (obj_entries (obj_or_empty (childCfg login ''user''))))"

definition read_ssh :: "json option \<Rightarrow> ssh_settings" where
  "read_ssh ssh = (case ssh of
       None \<Rightarrow> \<lparr>sh_enabled = False, sh_ports = [], sh_listen_addresses = [], sh_password_auth_disabled = False\<rparr>
     | Some s \<Rightarrow> \<lparr>sh_enabled = True, sh_ports = strList s ''port'', sh_listen_addresses = strList s ''listen-address'',
         sh_password_auth_disabled = present ''disable-password-authentication'' s\<rparr>)"

definition fetchSystemConfig ::
  "(string \<Rightarrow> string \<Rightarrow> int) \<Rightarrow> vyos_response \<Rightarrow> vyos_response \<Rightarrow> read_error + system_config" where
  "fetchSystemConfig lc system_resp service_resp =
     (case configTree system_resp of Inl e \<Rightarrow> Inl e | Inr system \<Rightarrow>
     (case configTree service_resp of Inl e \<Rightarrow> Inl e | Inr service \<Rightarrow>
      Inr \<lparr>sx_users = parseUsers lc (obj_or_empty (childCfg system ''login'')),
        sx_general = \<lparr>gs_hostname = childStr system ''host-name'', gs_domain_name = childStr system ''domain-name'',
          gs_name_servers = strList system ''name-server'', gs_timezone = childStr system ''time-zone'',
          gs_ntp_servers = strList (obj_or_empty (childCfg service ''ntp'')) ''server''\<rparr>,
        sx_ssh = read_ssh (childCfg service ''ssh'')\<rparr>))"

section \<open>General settings\<close>

definition general_fields :: "general_settings \<Rightarrow> general_settings \<Rightarrow> field list" where
  "general_fields live u =
     [Leaf [''host-name''] (gs_hostname live) (blank_to_none (gs_hostname u)),
      Leaf [''domain-name''] (gs_domain_name live) (blank_to_none (gs_domain_name u)),
      Multi [''name-server''] (gs_name_servers live) (clean (gs_name_servers u)),
      Leaf [''time-zone''] (gs_timezone live) (blank_to_none (gs_timezone u))]"

definition ntp_base :: path where
  "ntp_base = [''service'', ''ntp'']"

text \<open>The list is cleaned once here and once more by the diff of the list.\<close>

definition ntp_cmds :: "general_settings \<Rightarrow> general_settings \<Rightarrow> vyos_command list" where
  "ntp_cmds live u = (let desired = clean (gs_ntp_servers u) in
     if desired = [] \<and> gs_ntp_servers live \<noteq> [] then [cdel ntp_base]
     else list_cmds (ntp_base @ [''server'']) (gs_ntp_servers live) (clean desired))"

definition diffGeneral :: "general_settings \<Rightarrow> general_settings \<Rightarrow> vyos_command list" where
  "diffGeneral live u = form_cmds [''system''] (general_fields live u) @ ntp_cmds live u"

section \<open>Users\<close>

definition sys_userBase :: "string \<Rightarrow> path" where
  "sys_userBase name = [''system'', ''login'', ''user'', name]"

definition keys_base :: "string \<Rightarrow> path" where
  "keys_base name = sys_userBase name @ [''authentication'', ''public-keys'']"

definition password_path :: "string \<Rightarrow> path" where
  "password_path name = sys_userBase name @ [''authentication'', ''plaintext-password'']"

text \<open>A value that counts as given: neither missing nor empty.\<close>

definition given :: "string option \<Rightarrow> bool" where
  "given v \<longleftrightarrow> v \<noteq> None \<and> v \<noteq> Some ''''"

definition set_given :: "path \<Rightarrow> string option \<Rightarrow> vyos_command list" where
  "set_given p v = (case v of None \<Rightarrow> [] | Some s \<Rightarrow> if s = '''' then [] else [cset (p @ [s])])"

definition live_key :: "ssh_key list \<Rightarrow> string \<Rightarrow> ssh_key option" where
  "live_key ks i = find (\<lambda>x. sk_id x = i) ks"

definition ssh_key_path :: "string \<Rightarrow> string \<Rightarrow> path" where
  "ssh_key_path name i = keys_base name @ [i]"

definition ssh_key_cmds :: "string \<Rightarrow> string \<Rightarrow> ssh_key option \<Rightarrow> ssh_key \<Rightarrow> vyos_command list" where
  "ssh_key_cmds name i lk k =
     (if (case lk of None \<Rightarrow> True | Some l \<Rightarrow> sk_type l \<noteq> sk_type k \<or> sk_key l \<noteq> sk_key k)
      then set_given (ssh_key_path name i @ [''type'']) (sk_type k) @ set_given (ssh_key_path name i @ [''key'']) (sk_key k)
      else [])"

definition user_live :: "system_user list \<Rightarrow> user_update \<Rightarrow> system_user option" where
  "user_live existing u = (case uu_original_name u of None \<Rightarrow> None | Some n \<Rightarrow> find (\<lambda>x. ss_name x = n) existing)"

definition keys_of_user :: "system_user option \<Rightarrow> ssh_key list" where
  "keys_of_user live = (case live of None \<Rightarrow> [] | Some l \<Rightarrow> ss_keys l)"

definition user_cmds :: "system_user option \<Rightarrow> user_update \<Rightarrow> vyos_command list" where
  "user_cmds live u =
     leaf_cmds (sys_userBase (uu_name u) @ [''full-name'']) (Option.bind live ss_full_name) (blank_to_none (uu_full_name u)) @
     set_given (password_path (uu_name u)) (uu_password u) @
     concat (map (\<lambda>k. ssh_key_cmds (uu_name u) (sk_id k) (live_key (keys_of_user live) (sk_id k)) k) (uu_keys u)) @
     map (\<lambda>l. cdel (ssh_key_path (uu_name u) (sk_id l))) (filter (\<lambda>l. sk_id l \<notin> sk_id ` set (uu_keys u)) (keys_of_user live))"

definition diffUser :: "system_user list \<Rightarrow> user_update \<Rightarrow> vyos_command list" where
  "diffUser existing u = (let out = user_cmds (user_live existing u) u in
     out @ (if user_live existing u = None \<and> out = [] then [cset (sys_userBase (uu_name u))] else []))"

definition deleteUser_cmds :: "string \<Rightarrow> vyos_command list" where
  "deleteUser_cmds name = [cdel (sys_userBase name)]"

definition setUserPassword_cmds :: "string \<Rightarrow> string \<Rightarrow> vyos_command list" where
  "setUserPassword_cmds name password = [cset (password_path name @ [password])]"

section \<open>SSH service\<close>

definition ssh_base :: path where
  "ssh_base = [''service'', ''ssh'']"

definition ssh_fields :: "ssh_settings \<Rightarrow> ssh_settings \<Rightarrow> field list" where
  "ssh_fields live u =
     [Multi [''port''] (sh_ports live) (clean (sh_ports u)),
      Multi [''listen-address''] (sh_listen_addresses live) (clean (sh_listen_addresses u)),
      Flag [''disable-password-authentication''] (sh_password_auth_disabled live) (sh_password_auth_disabled u)]"

definition diffSsh :: "ssh_settings \<Rightarrow> ssh_settings \<Rightarrow> vyos_command list" where
  "diffSsh live u =
     (if \<not> sh_enabled u then (if sh_enabled live then [cdel ssh_base] else [])
      else ensureCreated (form_cmds ssh_base (ssh_fields live u)) ssh_base (\<not> sh_enabled live))"

section \<open>What the saves do\<close>

definition system_schema :: "(path \<Rightarrow> bool) \<Rightarrow> bool" where
  "system_schema single \<longleftrightarrow>
     (\<forall>p\<in>{[''system'', ''host-name''], [''system'', ''domain-name''], [''system'', ''time-zone'']}. single p) \<and>
     (\<forall>p\<in>{[''system'', ''name-server''], ntp_base @ [''server''], [''service''], ssh_base, ssh_base @ [''port''],
        ssh_base @ [''listen-address'']}. \<not> single p) \<and>
     (\<forall>n. \<not> single (butlast (sys_userBase n)) \<and> single (sys_userBase n @ [''full-name'']) \<and> single (password_path n) \<and>
        (\<forall>i. single (ssh_key_path n i @ [''type'']) \<and> single (ssh_key_path n i @ [''key''])))"

lemma clean_idem [simp]: "clean (clean xs) = clean xs"
  by (induction xs) (simp_all add: clean_def)

text \<open>The part of the device that the NTP list is about: the whole service when the list is emptied.\<close>

definition ntp_region :: "general_settings \<Rightarrow> general_settings \<Rightarrow> path set" where
  "ntp_region live u = (if clean (gs_ntp_servers u) = [] \<and> gs_ntp_servers live \<noteq> [] then cone ntp_base else cone (ntp_base @ [''server'']))"

text \<open>
  Saving the general settings leaves the host name, the domain, the time zone, the name servers
  and the NTP servers of the form, and touches nothing else; clearing the last NTP server removes the
  whole NTP service, since the device refuses one without servers.
\<close>

theorem general_save:
  assumes dev: "device_laws dev single" and sch: "system_schema single"
    and S: "S \<inter> form_region [''system''] (general_fields live u) = form_live [''system''] (general_fields live u)"
    and ntp: "S \<inter> cone (ntp_base @ [''server'']) = list_paths (ntp_base @ [''server'']) (gs_ntp_servers live)"
  shows "run dev (diffGeneral live u) S =
    (S - (form_region [''system''] (general_fields live u) \<union> ntp_region live u)) \<union>
    form_desired [''system''] (general_fields live u) \<union> list_paths (ntp_base @ [''server'']) (clean (gs_ntp_servers u))"
proof -
  let ?f = "general_fields live u" and ?b = "[''system'']" and ?p = "ntp_base @ [''server'']"
  let ?T = "run dev (form_cmds ?b ?f) S"
  have f: "\<forall>f\<in>set ?f. field_schema single ?b f" using sch by (simp add: general_fields_def system_schema_def)
  have a: "apart_fields ?f" by (simp add: general_fields_def apart_fields_def)
  have T: "?T = (S - form_region ?b ?f) \<union> form_desired ?b ?f" by (rule edits_run [OF edits_form [OF dev f a] S])
  have in_b: "form_region ?b ?f \<subseteq> cone ?b" "form_desired ?b ?f \<subseteq> cone ?b" by (rule form_region_cone, rule form_desired_in)
  have apart: "cone ?b \<inter> cone ntp_base = {}" by (simp add: ntp_base_def cone_disjoint_iff)
  have sub: "cone ?p \<subseteq> cone ntp_base" by (rule cone_append_subset)
  show ?thesis
  proof (cases "clean (gs_ntp_servers u) = [] \<and> gs_ntp_servers live \<noteq> []")
    case True
    have "run dev (diffGeneral live u) S = ?T - cone ntp_base"
      using True by (simp add: diffGeneral_def ntp_cmds_def dev_delete [OF dev] Let_def)
    also have "\<dots> = (S - (form_region ?b ?f \<union> cone ntp_base)) \<union> form_desired ?b ?f"
      unfolding T using in_b apart by blast
    finally show ?thesis using True by (simp add: ntp_region_def)
  next
    case False
    have "?T \<inter> cone ?p = list_paths ?p (gs_ntp_servers live)" unfolding T using ntp in_b apart sub by blast
    moreover have "\<not> single ?p" using sch by (simp add: system_schema_def)
    ultimately have "run dev (list_cmds ?p (gs_ntp_servers live) (clean (gs_ntp_servers u))) ?T =
        (?T - cone ?p) \<union> list_paths ?p (clean (gs_ntp_servers u))"
      by (intro edits_run [OF edits_list [OF dev]])
    moreover have "ntp_cmds live u = list_cmds ?p (gs_ntp_servers live) (clean (gs_ntp_servers u))"
      using False by (auto simp: ntp_cmds_def Let_def)
    moreover have "?T - cone ?p = (S - (form_region ?b ?f \<union> cone ?p)) \<union> form_desired ?b ?f"
      unfolding T using in_b apart sub by blast
    moreover have "ntp_region live u = cone ?p" using False by (auto simp: ntp_region_def)
    ultimately show ?thesis by (simp add: diffGeneral_def Un_assoc)
  qed
qed

text \<open>The SSH service. Reading a device without it gives settings without anything in them.\<close>

lemma read_ssh_off: "\<not> sh_enabled (read_ssh s) \<Longrightarrow> form_live ssh_base (ssh_fields (read_ssh s) u) = {}"
  by (cases s) (simp_all add: read_ssh_def form_live_def ssh_fields_def)

theorem ssh_save:
  assumes dev: "device_laws dev single" and sch: "system_schema single" and off: "\<not> sh_enabled live \<Longrightarrow> live = read_ssh None"
    and S: "S \<inter> form_region ssh_base (ssh_fields live u) = form_live ssh_base (ssh_fields live u)"
  shows "run dev (diffSsh live u) S =
    (if \<not> sh_enabled u then (if sh_enabled live then S - cone ssh_base else S)
     else (S - form_region ssh_base (ssh_fields live u)) \<union> form_desired ssh_base (ssh_fields live u) \<union>
       (if \<not> sh_enabled live \<and> form_desired ssh_base (ssh_fields live u) = {} then {ssh_base} else {}))"
proof (cases "sh_enabled u")
  case False
  then show ?thesis by (simp add: diffSsh_def dev_delete [OF dev])
next
  case True
  let ?f = "ssh_fields live u"
  have f: "\<forall>f\<in>set ?f. field_schema single ssh_base f"
    using sch by (simp add: ssh_fields_def system_schema_def)
  have a: "apart_fields ?f" by (simp add: ssh_fields_def apart_fields_def)
  have new: "\<forall>f\<in>set ?f. field_new f" if "\<not> sh_enabled live" using off [OF that] by (simp add: ssh_fields_def read_ssh_def)
  have "run dev (ensureCreated (form_cmds ssh_base ?f) ssh_base (\<not> sh_enabled live)) S =
      (S - form_region ssh_base ?f) \<union> form_desired ssh_base ?f \<union>
      (if \<not> sh_enabled live \<and> form_desired ssh_base ?f = {} then {ssh_base} else {})"
  proof (rule run_ensureCreated [OF dev edits_form [OF dev f a] S])
    show "\<not> single (butlast ssh_base)" using sch by (simp add: system_schema_def ssh_base_def)
    show "form_live ssh_base ?f = {} \<and> (has_set (form_cmds ssh_base ?f) \<longleftrightarrow> form_desired ssh_base ?f \<noteq> {})"
      if "\<not> sh_enabled live" using form_new_live [OF new [OF that]] form_new_sets [OF new [OF that]] by simp
  qed
  then show ?thesis using True by (simp add: diffSsh_def)
qed

section \<open>What a save of a user does\<close>

lemma edits_set_given:
  assumes dev: "device_laws dev single" and single: "single p"
  shows "edits dev (cone p) (set_given p v) (leaf_paths p old) (leaf_paths p (if given v then v else old))"
proof (cases "given v")
  case True
  then obtain s where s: "v = Some s" "s \<noteq> ''''" by (auto simp: given_def)
  have "edits dev (cone p) [cset (p @ [s])] (leaf_paths p old) (leaf_paths p (Some s))"
    by (rule editsI) (auto simp: dev_set_single [OF dev] single leaf_paths_def split: option.splits)
  then show ?thesis using True s by (simp add: set_given_def)
next
  case False
  then have "set_given p v = []" by (cases v) (auto simp: given_def set_given_def)
  then show ?thesis using False by (simp add: edits_nil leaf_paths_cone)
qed

definition complete_key :: "ssh_key \<Rightarrow> bool" where
  "complete_key k \<longleftrightarrow> given (sk_type k) \<and> given (sk_key k)"

definition ssh_key_paths :: "string \<Rightarrow> string \<Rightarrow> ssh_key \<Rightarrow> path set" where
  "ssh_key_paths name i k = leaf_paths (ssh_key_path name i @ [''type'']) (sk_type k) \<union> leaf_paths (ssh_key_path name i @ [''key'']) (sk_key k)"

text \<open>What a key of the form becomes: a value that the form does not give stays as it was.\<close>

definition kept_key :: "ssh_key option \<Rightarrow> ssh_key \<Rightarrow> ssh_key" where
  "kept_key lk k = k\<lparr>sk_type := (if given (sk_type k) then sk_type k else Option.bind lk sk_type),
     sk_key := (if given (sk_key k) then sk_key k else Option.bind lk sk_key)\<rparr>"

lemma ssh_key_edits:
  assumes dev: "device_laws dev single" and sch: "system_schema single"
  shows "edits dev (cone (ssh_key_path name i)) (ssh_key_cmds name i lk k)
    (case lk of None \<Rightarrow> {} | Some l \<Rightarrow> ssh_key_paths name i l) (ssh_key_paths name i (kept_key lk k))"
proof -
  let ?p = "ssh_key_path name i"
  let ?C = "cone (?p @ [''type'']) \<union> cone (?p @ [''key''])"
  have single: "single (?p @ [''type''])" "single (?p @ [''key''])" using sch by (simp_all add: system_schema_def)
  have sub: "?C \<subseteq> cone ?p" using cone_append_subset by blast
  have disj: "cone (?p @ [''type'']) \<inter> cone (?p @ [''key'']) = {}" by (simp add: cone_disjoint_iff)
  have before: "(case lk of None \<Rightarrow> {} | Some l \<Rightarrow> ssh_key_paths name i l) =
      leaf_paths (?p @ [''type'']) (Option.bind lk sk_type) \<union> leaf_paths (?p @ [''key'']) (Option.bind lk sk_key)"
    by (cases lk) (simp_all add: ssh_key_paths_def)
  have "edits dev ?C (set_given (?p @ [''type'']) (sk_type k) @ set_given (?p @ [''key'']) (sk_key k))
      (case lk of None \<Rightarrow> {} | Some l \<Rightarrow> ssh_key_paths name i l) (ssh_key_paths name i (kept_key lk k))"
    unfolding before unfolding ssh_key_paths_def
    using edits_append [OF edits_set_given [OF dev single(1)] edits_set_given [OF dev single(2)] disj] by (simp add: kept_key_def)
  from edits_widen [OF this sub] have change: "edits dev (cone ?p)
      (set_given (?p @ [''type'']) (sk_type k) @ set_given (?p @ [''key'']) (sk_key k))
      (case lk of None \<Rightarrow> {} | Some l \<Rightarrow> ssh_key_paths name i l) (ssh_key_paths name i (kept_key lk k))" .
  show ?thesis
  proof (cases "case lk of None \<Rightarrow> True | Some l \<Rightarrow> sk_type l \<noteq> sk_type k \<or> sk_key l \<noteq> sk_key k")
    case True
    then show ?thesis using change by (simp add: ssh_key_cmds_def)
  next
    case False
    then obtain l where l: "lk = Some l" "sk_type l = sk_type k" "sk_key l = sk_key k" by (cases lk) auto
    then have "ssh_key_paths name i (kept_key lk k) = ssh_key_paths name i l" by (simp add: ssh_key_paths_def kept_key_def)
    moreover have "ssh_key_paths name i l \<subseteq> cone ?p"
      using leaf_paths_cone [of "?p @ [''type'']" "sk_type l"] leaf_paths_cone [of "?p @ [''key'']" "sk_key l"] sub
      unfolding ssh_key_paths_def by blast
    ultimately show ?thesis using False l by (simp add: ssh_key_cmds_def edits_nil)
  qed
qed

lemma set_given_set: "given v \<Longrightarrow> set_given p v = [cset (p @ [the v])]"
  by (cases v) (simp_all add: given_def set_given_def)

lemma leaf_paths_inj [simp]: "leaf_paths p v = leaf_paths p w \<longleftrightarrow> v = w"
  by (cases v; cases w) (auto simp: leaf_paths_def)

lemma complete_kept: "complete_key k \<Longrightarrow> kept_key lk k = k"
  by (simp add: complete_key_def kept_key_def)

lemma ssh_key_paths_same:
  assumes "ssh_key_paths name i j = ssh_key_paths name i k"
  shows "sk_type j = sk_type k" and "sk_key j = sk_key k"
proof -
  let ?t = "ssh_key_path name i @ [''type'']" and ?k = "ssh_key_path name i @ [''key'']"
  have "cone ?t \<inter> cone ?k = {}" by (simp add: cone_disjoint_iff)
  then have "leaf_paths ?t (sk_type j) = leaf_paths ?t (sk_type k)" "leaf_paths ?k (sk_key j) = leaf_paths ?k (sk_key k)"
    using assms leaf_paths_cone [of ?t] leaf_paths_cone [of ?k] unfolding ssh_key_paths_def by blast+
  then show "sk_type j = sk_type k" "sk_key j = sk_key k" by simp_all
qed

interpretation user_keys: child_editor system_schema keys_base ssh_key_path complete_key ssh_key_cmds ssh_key_paths ssh_key_paths
proof
  fix n i j dev single
  fix k l :: ssh_key
  show "prefix (keys_base n) (ssh_key_path n i)" by (simp add: ssh_key_path_def)
  show "cone (ssh_key_path n i) \<inter> cone (ssh_key_path n j) = {}" if "i \<noteq> j" using that by (simp add: ssh_key_path_def cone_disjoint_iff)
  show "ssh_key_paths n i k \<subseteq> cone (ssh_key_path n i)"
    using leaf_paths_cone [of "ssh_key_path n i @ [''type'']" "sk_type k"] leaf_paths_cone [of "ssh_key_path n i @ [''key'']" "sk_key k"]
      cone_append_subset [of "ssh_key_path n i"] unfolding ssh_key_paths_def by blast
  show "ssh_key_cmds n i (Some l) k = []" if "ssh_key_paths n i l = ssh_key_paths n i k"
    using ssh_key_paths_same [OF that] by (simp add: ssh_key_cmds_def)
  show "has_set (ssh_key_cmds n i None k) \<and> ssh_key_paths n i k \<noteq> {}" if "complete_key k"
    using that by (auto simp: complete_key_def ssh_key_cmds_def set_given_set has_set_def ssh_key_paths_def given_def leaf_paths_def)
  assume dev: "device_laws dev single" "system_schema single" and k: "complete_key k"
  show "edits dev (cone (ssh_key_path n i)) (ssh_key_cmds n i None k) {} (ssh_key_paths n i k)"
    using ssh_key_edits [OF dev, of n i None k] by (simp add: complete_kept [OF k])
  show "edits dev (cone (ssh_key_path n i)) (ssh_key_cmds n i (Some l) k) (ssh_key_paths n i l) (ssh_key_paths n i k)"
    using ssh_key_edits [OF dev, of n i "Some l" k] by (simp add: complete_kept [OF k])
qed

lemma map_of_by_key: "map_of (by_key f xs) k = find (\<lambda>x. f x = k) xs"
  by (induction xs) (simp_all add: by_key_def)

lemma user_keys_children:
  "concat (map (\<lambda>k. ssh_key_cmds n (sk_id k) (live_key live (sk_id k)) k) want) @
   map (\<lambda>l. cdel (ssh_key_path n (sk_id l))) (filter (\<lambda>l. sk_id l \<notin> sk_id ` set want) live) =
   children_cmds (ssh_key_path n) (ssh_key_cmds n) (by_key sk_id live) (by_key sk_id want)"
proof -
  have "map (\<lambda>l. cdel (ssh_key_path n (sk_id l))) (filter (\<lambda>l. sk_id l \<notin> sk_id ` set want) live) =
      map (\<lambda>(k, i). cdel (ssh_key_path n k)) (filter (\<lambda>(k, i). map_of (by_key sk_id want) k = None) (by_key sk_id live))"
    unfolding by_key_facts by (simp add: by_key_def filter_map comp_def)
  moreover have "map (\<lambda>k. ssh_key_cmds n (sk_id k) (live_key live (sk_id k)) k) want =
      map (\<lambda>(k, i). ssh_key_cmds n k (map_of (by_key sk_id live) k) i) (by_key sk_id want)"
    unfolding map_of_by_key by (simp add: by_key_def live_key_def)
  ultimately show ?thesis by (simp only: children_cmds_def)
qed

definition user_region :: "string \<Rightarrow> path set" where
  "user_region n = cone (sys_userBase n @ [''full-name'']) \<union> cone (password_path n) \<union> cone (keys_base n)"

definition user_before :: "string \<Rightarrow> system_user option \<Rightarrow> path set" where
  "user_before n live = leaf_paths (sys_userBase n @ [''full-name'']) (Option.bind live ss_full_name) \<union>
     children_paths (ssh_key_paths n) (by_key sk_id (keys_of_user live))"

definition user_after :: "user_update \<Rightarrow> path set" where
  "user_after u = leaf_paths (sys_userBase (uu_name u) @ [''full-name'']) (blank_to_none (uu_full_name u)) \<union>
     leaf_paths (password_path (uu_name u)) (if given (uu_password u) then uu_password u else None) \<union>
     children_paths (ssh_key_paths (uu_name u)) (by_key sk_id (uu_keys u))"

definition user_ok :: "system_user option \<Rightarrow> user_update \<Rightarrow> bool" where
  "user_ok live u \<longleftrightarrow> distinct (map sk_id (keys_of_user live)) \<and> distinct (map sk_id (uu_keys u)) \<and> list_all complete_key (uu_keys u)"

lemma user_edits:
  assumes dev: "device_laws dev single" and sch: "system_schema single" and ok: "user_ok live u"
  shows "edits dev (user_region (uu_name u)) (user_cmds live u) (user_before (uu_name u) live) (user_after u)"
proof -
  let ?n = "uu_name u"
  let ?f = "sys_userBase ?n @ [''full-name'']"
  let ?segs = "[(cone ?f, leaf_cmds ?f (Option.bind live ss_full_name) (blank_to_none (uu_full_name u)),
      leaf_paths ?f (Option.bind live ss_full_name), leaf_paths ?f (blank_to_none (uu_full_name u))),
    (cone (password_path ?n), set_given (password_path ?n) (uu_password u), leaf_paths (password_path ?n) None,
      leaf_paths (password_path ?n) (if given (uu_password u) then uu_password u else None)),
    (cone (keys_base ?n), children_cmds (ssh_key_path ?n) (ssh_key_cmds ?n) (by_key sk_id (keys_of_user live)) (by_key sk_id (uu_keys u)),
      children_paths (ssh_key_paths ?n) (by_key sk_id (keys_of_user live)), children_paths (ssh_key_paths ?n) (by_key sk_id (uu_keys u)))]"
  have single: "single ?f" "single (password_path ?n)" using sch by (simp_all add: system_schema_def)
  have good: "\<forall>(k, i)\<in>set (by_key sk_id (uu_keys u)). complete_key i" using ok by (auto simp: user_ok_def by_key_def list_all_iff)
  have "\<forall>x\<in>set ?segs. seg_ok dev x"
    using edits_leaf [OF dev single(1)] edits_set_given [OF dev single(2), of "uu_password u" None]
      user_keys.children_edits [OF dev sch _ _ good, of "by_key sk_id (keys_of_user live)" ?n] ok
    by (simp add: user_ok_def)
  moreover have "sorted_wrt (\<lambda>x y. fst x \<inter> fst y = {}) ?segs"
    by (simp add: password_path_def keys_base_def sys_userBase_def cone_disjoint_iff)
  ultimately have "edits dev (seg_region ?segs) (seg_cmds ?segs) (seg_before ?segs) (seg_after ?segs)" by (rule edits_segments)
  then show ?thesis
    by (simp add: seg_defs user_region_def user_before_def user_after_def user_cmds_def user_keys_children Un_assoc)
qed

text \<open>
  Saving a login user on a device that holds the user the form was opened with leaves the full name
  of the form, the new password when one was entered, to be hashed by the commit, and exactly the SSH
  keys of the form, each with its type and its body. A new user about which nothing is said is still
  created. Nothing else changes.
\<close>

theorem user_save:
  assumes dev: "device_laws dev single" and sch: "system_schema single" and ok: "user_ok (user_live existing u) u"
    and S: "S \<inter> user_region (uu_name u) = user_before (uu_name u) (user_live existing u)"
  shows "run dev (diffUser existing u) S = (S - user_region (uu_name u)) \<union> user_after u \<union>
    (if user_live existing u = None \<and> user_after u = {} then {sys_userBase (uu_name u)} else {})"
proof -
  let ?live = "user_live existing u" and ?n = "uu_name u"
  note e = user_edits [OF dev sch ok]
  have run: "run dev (user_cmds ?live u) S = (S - user_region ?n) \<union> user_after u" by (rule edits_run [OF e S])
  have empty: "user_cmds ?live u = [] \<longleftrightarrow> user_after u = {}" if new: "?live = None"
  proof
    have before: "user_before ?n ?live = {}" by (simp add: new user_before_def keys_of_user_def children_paths_def)
    show "user_after u = {}" if "user_cmds ?live u = []" using edits_run [OF e, of "{}"] that unfolding before by simp
    assume after: "user_after u = {}"
    then have name: "blank_to_none (uu_full_name u) = None" and "\<not> given (uu_password u)"
      by (auto simp: user_after_def leaf_paths_def split: option.splits if_splits) (auto simp: given_def)
    moreover from this have "set_given (password_path ?n) (uu_password u) = []"
      by (cases "uu_password u") (auto simp: set_given_def given_def)
    moreover have "uu_keys u = []"
    proof (rule ccontr)
      assume "uu_keys u \<noteq> []"
      then obtain k where k: "k \<in> set (uu_keys u)" by (cases "uu_keys u") auto
      then have "ssh_key_paths ?n (sk_id k) k \<noteq> {}"
        using ok user_keys.item_sets [of k ?n "sk_id k"] by (auto simp: user_ok_def list_all_iff)
      moreover have "ssh_key_paths ?n (sk_id k) k \<subseteq> user_after u"
        using k by (auto simp: user_after_def children_paths_def by_key_def)
      ultimately show False using after by blast
    qed
    ultimately show "user_cmds ?live u = []" by (simp add: user_cmds_def new keys_of_user_def)
  qed
  have base: "\<not> single (butlast (sys_userBase ?n))" using sch by (simp add: system_schema_def)
  show ?thesis
  proof (cases "?live = None \<and> user_after u = {}")
    case True
    then have cs: "user_cmds ?live u = []" using empty by blast
    then have "diffUser existing u = [cset (sys_userBase ?n)]" using True by (simp add: diffUser_def Let_def)
    then show ?thesis using True run cs by (simp add: dev_set_multi [OF dev base])
  next
    case False
    then have "diffUser existing u = user_cmds ?live u" using empty by (auto simp: diffUser_def Let_def)
    then show ?thesis using False run by auto
  qed
qed

text \<open>A type that the form leaves blank is not removed from a key that has one.\<close>

lemma blank_key_type_stays:
  assumes "device_laws dev single" and "system_schema single" and "sk_type k = None"
    and "S \<inter> cone (ssh_key_path n i) = ssh_key_paths n i l"
  shows "ssh_key_path n i @ [''type'', t] \<in> run dev (ssh_key_cmds n i (Some l) k) S \<longleftrightarrow> sk_type l = Some t"
proof -
  have "run dev (ssh_key_cmds n i (Some l) k) S = (S - cone (ssh_key_path n i)) \<union> ssh_key_paths n i (kept_key (Some l) k)"
    using edits_run [OF ssh_key_edits [OF assms(1,2), of n i "Some l" k]] assms(4) by simp
  then show ?thesis using assms(3) by (auto simp: kept_key_def given_def ssh_key_paths_def leaf_paths_def split: option.splits)
qed

section \<open>Examples\<close>

definition system_single :: "path \<Rightarrow> bool" where
  "system_single p \<longleftrightarrow> (length p = 2 \<and> last p \<in> {''host-name'', ''domain-name'', ''time-zone''}) \<or>
     (length p = 5 \<and> last p = ''full-name'') \<or> (length p = 6 \<and> last p = ''plaintext-password'') \<or> length p = 8"

lemma system_single_schema: "system_schema system_single"
  by (simp add: system_schema_def system_single_def sys_userBase_def password_path_def ssh_key_path_def keys_base_def ntp_base_def
    ssh_base_def)

text \<open>A user changes the password and replaces a key.\<close>

definition rsa_key :: "string \<Rightarrow> ssh_key" where
  "rsa_key i = \<lparr>sk_id = i, sk_type = Some ''ssh-rsa'', sk_key = Some ''AAAA''\<rparr>"

definition admin_user :: system_user where
  "admin_user = \<lparr>ss_name = ''admin'', ss_full_name = Some ''Admin'', ss_has_password = True, ss_keys = [rsa_key ''old'']\<rparr>"

definition admin_update :: user_update where
  "admin_update = \<lparr>uu_name = ''admin'', uu_full_name = Some ''Admin'', uu_password = Some ''secret'', uu_keys = [rsa_key ''new''],
     uu_original_name = Some ''admin''\<rparr>"

lemma user_save_witness:
  "run (ref_dev system_single) (diffUser [admin_user] admin_update) (user_before ''admin'' (Some admin_user)) = user_after admin_update"
proof -
  have live: "user_live [admin_user] admin_update = Some admin_user" and n: "uu_name admin_update = ''admin''" by code_simp+
  have ok: "user_ok (user_live [admin_user] admin_update) admin_update" unfolding live by code_simp
  have e: "user_before ''admin'' (Some admin_user) \<subseteq> user_region ''admin''"
    using user_edits [OF ref_dev_laws system_single_schema ok] unfolding live n by (simp add: edits_def)
  then have "user_before ''admin'' (Some admin_user) \<inter> user_region (uu_name admin_update) =
      user_before (uu_name admin_update) (user_live [admin_user] admin_update)" unfolding live n by blast
  from user_save [OF ref_dev_laws system_single_schema ok this] show ?thesis using e unfolding live n by auto
qed

end
