(* ===== verification/System_Images.thy ===== *)
theory System_Images
  imports Op_Tables
begin

text \<open>
  System images: \<open>lib/system.ts\<close>, the maintenance half. The list of installed images as the device prints
  it, the name an image will get, and the installation of one, which the client follows by polling.
\<close>

section \<open>The printed list\<close>

record system_image =
  im_name :: string
  im_default_boot :: bool
  im_running :: bool

text \<open>\<open>line.search(/k/i)\<close>: the first position at which the text continues with \<open>k\<close>, \<open>None\<close> for -1.\<close>

fun search_ci :: "string \<Rightarrow> string \<Rightarrow> nat option" where
  "search_ci k s = (if prefix (map lower_char k) (map lower_char s) then Some 0
     else (case s of [] \<Rightarrow> None | c # cs \<Rightarrow> map_option Suc (search_ci k cs)))"

declare search_ci.simps [simp del]

definition header_cols :: "string \<Rightarrow> (nat \<times> nat) option" where
  "header_cols line = (case search_ci ''Default boot'' line of None \<Rightarrow> None
     | Some d \<Rightarrow> map_option (Pair d) (search_ci ''Running'' line))"

fun first_cols :: "string list \<Rightarrow> (nat \<times> nat) option" where
  "first_cols [] = None"
| "first_cols (l # ls) = (case header_cols l of None \<Rightarrow> first_cols ls | Some c \<Rightarrow> Some c)"

text \<open>
  \<open>/^\d+:\s+(\S+)(.*)$/\<close>: digits, a colon, white space, the name, and the rest of the line, in which a dot
  does not match a line terminator.
\<close>

definition legacy_row :: "string \<Rightarrow> (string \<times> string) option" where
  "legacy_row t =
     (let digits = takeWhile is_digit t; rest = dropWhile is_digit t; body = dropWhile js_space (tl rest);
          name = takeWhile (\<lambda>c. \<not> js_space c) body; tail = dropWhile (\<lambda>c. \<not> js_space c) body in
      if digits = [] \<or> rest = [] \<or> hd rest \<noteq> CHR '':'' \<or> body = tl rest \<or> name = [] \<or>
         \<not> list_all (\<lambda>c. (of_char c :: nat) \<noteq> 10 \<and> (of_char c :: nat) \<noteq> 13) tail
      then None else Some (name, tail))"

definition word_char :: "char \<Rightarrow> bool" where
  "word_char c \<longleftrightarrow> is_letter c \<or> is_digit c \<or> c = CHR ''_''"

text \<open>The header, the separator and the summary below the table.\<close>

definition skipped_row :: "string \<Rightarrow> bool" where
  "skipped_row t \<longleftrightarrow>
     (prefix ''name'' (map lower_char t) \<and> (length t = 4 \<or> \<not> word_char (t ! 4))) \<or>
     (t \<noteq> [] \<and> list_all (\<lambda>c. c = CHR ''-'' \<or> js_space c) t) \<or> includes_ci t ''image(s) installed''"

definition leading_word :: "string \<Rightarrow> string" where
  "leading_word t = takeWhile (\<lambda>c. \<not> js_space c) t"

text \<open>\<open>/^y/i\<close>.\<close>

definition yes_cell :: "string \<Rightarrow> bool" where
  "yes_cell s \<longleftrightarrow> s \<noteq> [] \<and> lower_char (hd s) = CHR ''y''"

text \<open>\<open>line.slice(from, to)\<close>.\<close>

definition slice :: "nat \<Rightarrow> nat \<Rightarrow> string \<Rightarrow> string" where
  "slice from till s = take (till - from) (drop from s)"

text \<open>\<open>t.split(/\s{2,}/)\<close>: runs of two or more white space characters separate.\<close>

function (sequential) wide_split :: "string \<Rightarrow> string \<Rightarrow> string list" where
  "wide_split acc [] = [acc]"
| "wide_split acc [c] = [acc @ [c]]"
| "wide_split acc (c # d # cs) =
     (if js_space c \<and> js_space d then acc # wide_split [] (dropWhile js_space cs) else wide_split (acc @ [c]) (d # cs))"
  by pat_completeness auto

termination
  by (relation "measure (\<lambda>(acc, s). length s)") (auto simp: le_imp_less_Suc le_SucI length_dropWhile_le)

definition image_row :: "(nat \<times> nat) option \<Rightarrow> string \<Rightarrow> system_image option" where
  "image_row cols line =
     (let t = trim line in
      if t = [] then None
      else (case legacy_row t of
          Some (name, rest) \<Rightarrow> Some \<lparr>im_name = name, im_default_boot = includes_ci rest ''default boot'',
            im_running = includes_ci rest ''running''\<rparr>
        | None \<Rightarrow>
            if skipped_row t then None
            else (case cols of
                Some (d, r) \<Rightarrow> Some \<lparr>im_name = leading_word t, im_default_boot = yes_cell (trim (slice d r line)),
                  im_running = yes_cell (trim (drop r line))\<rparr>
              | None \<Rightarrow> (let cells = wide_split [] t in
                  Some \<lparr>im_name = leading_word t, im_default_boot = 1 < length cells \<and> yes_cell (cells ! 1),
                    im_running = 2 < length cells \<and> yes_cell (cells ! 2)\<rparr>))))"

definition parseSystemImages :: "string \<Rightarrow> system_image list" where
  "parseSystemImages text = (let ls = split_on newline text in List.map_filter (image_row (first_cols ls)) ls)"

definition fetchImages :: "string option \<Rightarrow> system_image list" where
  "fetchImages text = (case text of None \<Rightarrow> [] | Some t \<Rightarrow> if t = [] then [] else parseSystemImages t)"

section \<open>The name of an image\<close>

definition IMAGE_ARCHS :: "string list" where
  "IMAGE_ARCHS = [''amd64'', ''arm64'', ''i386'', ''armhf'']"

text \<open>
  \<open>/^(.+)-(amd64|arm64|i386|armhf)\.iso$/i\<close>: the tail is one of four, none of which ends another, so the
  match is the text before the one tail that fits.
\<close>

definition iso_suffix :: "string \<Rightarrow> string option" where
  "iso_suffix s = find (\<lambda>a. suffix (''-'' @ a @ ''.iso'') (map lower_char s)) IMAGE_ARCHS"

definition imageNameFromIsoName :: "string \<Rightarrow> string option" where
  "imageNameFromIsoName fileName =
     (let s = trim fileName in
      case iso_suffix s of None \<Rightarrow> None
      | Some a \<Rightarrow> (let name = take (length s - (length a + 5)) s in
          if name = [] \<or> \<not> list_all (\<lambda>c. (of_char c :: nat) \<noteq> 10 \<and> (of_char c :: nat) \<noteq> 13) name then None else Some name))"

section \<open>Following an installation\<close>

datatype image_phase = Starting | Downloading | Verifying | Installing | Done | Failed

record image_job =
  ij_id :: string
  ij_phase :: image_phase
  ij_downloaded_bytes :: int
  ij_total_bytes :: "int option"
  ij_image_name :: "string option"
  ij_error :: "string option"
  ij_started_unix :: int
  ij_finished_unix :: "int option"

text \<open>An error is the text of the device, or the notice that an image of that name is there already.\<close>

datatype image_error = ImageError string | ImageExists string

datatype install_outcome = Installed | InstallFailed image_error

definition failure_message :: "string option \<Rightarrow> string \<Rightarrow> string" where
  "failure_message err dflt = (case err of None \<Rightarrow> dflt | Some e \<Rightarrow> if e = [] then dflt else e)"

text \<open>
  One answer to a poll is \<open>None\<close> when the request failed, \<open>Some None\<close> when there is no job, and \<open>Some (Some j)\<close>
  otherwise. A finished job with another id than ours is an old one.
\<close>

definition stale_job :: "string option \<Rightarrow> image_job \<Rightarrow> bool" where
  "stale_job jobId j \<longleftrightarrow> (case jobId of None \<Rightarrow> False | Some i \<Rightarrow> i \<noteq> [] \<and> ij_id j \<noteq> i) \<and> ij_phase j \<in> {Done, Failed}"

definition poll_step :: "string option \<Rightarrow> image_job option option \<Rightarrow> image_job list \<times> install_outcome option" where
  "poll_step jobId answer = (case answer of
       Some (Some j) \<Rightarrow>
         if stale_job jobId j then ([], None)
         else ([j], if ij_phase j = Done then Some Installed
           else if ij_phase j = Failed then Some (InstallFailed (ImageError (failure_message (ij_error j) ''The image install failed.'')))
           else None)
     | _ \<Rightarrow> ([], None))"

text \<open>The loop over the answers: the jobs that the caller was shown, and the outcome unless the polling goes on.\<close>

fun poll_install :: "string option \<Rightarrow> image_job option option list \<Rightarrow> image_job list \<times> install_outcome option" where
  "poll_install jobId [] = ([], None)"
| "poll_install jobId (a # as) = (case poll_step jobId a of
       (shown, Some out) \<Rightarrow> (shown, Some out)
     | (shown, None) \<Rightarrow> (case poll_install jobId as of (later, out) \<Rightarrow> (shown @ later, out)))"

text \<open>
  \<open>translateImageAddError\<close>: \<open>/\[Errno 17\][^']*'[^']*\/boot\/([^/']+)\//\<close>. After the marker the first quote opens
  a quoted text, in which the last \<open>/boot/<name>/\<close> is meant; the leftmost marker that matches decides.
\<close>

fun last_boot :: "string \<Rightarrow> string option" where
  "last_boot [] = None"
| "last_boot (c # cs) = (case last_boot cs of
       Some n \<Rightarrow> Some n
     | None \<Rightarrow> if prefix ''/boot/'' (c # cs) then
         (let rest = drop 5 cs; name = takeWhile (\<lambda>x. x \<noteq> CHR ''/'' \<and> x \<noteq> CHR 0x27) rest;
              after = dropWhile (\<lambda>x. x \<noteq> CHR ''/'' \<and> x \<noteq> CHR 0x27) rest in
          if name \<noteq> [] \<and> after \<noteq> [] \<and> hd after = CHR ''/'' then Some name else None)
       else None)"

definition quoted_boot :: "string \<Rightarrow> string option" where
  "quoted_boot s = (let q = dropWhile (\<lambda>c. c \<noteq> CHR 0x27) s in
     if q = [] then None else last_boot (takeWhile (\<lambda>c. c \<noteq> CHR 0x27) (tl q)))"

fun existing_image :: "string \<Rightarrow> string option" where
  "existing_image [] = None"
| "existing_image (c # cs) =
     (case (if prefix ''[Errno 17]'' (c # cs) then quoted_boot (drop 9 cs) else None) of
        Some n \<Rightarrow> Some n | None \<Rightarrow> existing_image cs)"

definition translateImageAddError :: "string \<Rightarrow> image_error" where
  "translateImageAddError msg = (case existing_image msg of None \<Rightarrow> ImageError msg | Some n \<Rightarrow> ImageExists n)"

definition addImage ::
  "bool \<Rightarrow> string option \<Rightarrow> string option \<Rightarrow> image_job option option list \<Rightarrow> image_job list \<times> install_outcome option" where
  "addImage success err jobId answers =
     (if \<not> success then ([], Some (InstallFailed (translateImageAddError
        (failure_message err ''Device returned an error trying to install the image.''))))
      else poll_install jobId answers)"

section \<open>Polling\<close>

text \<open>
  What the caller is promised, stated without the loop: an answer that shows our job done finishes the
  installation, one that shows it failed ends it with the job's error, or with a text of our own when it has
  none. Any job is ours when the device gave no id; otherwise the job of that id.
\<close>

inductive our_job :: "string option \<Rightarrow> image_job \<Rightarrow> bool" where
  no_id: "our_job None j"
| blank_id: "our_job (Some []) j"
| same_id: "our_job (Some (ij_id j)) j"

inductive finishes :: "string option \<Rightarrow> image_job option option \<Rightarrow> install_outcome \<Rightarrow> bool" where
  job_done: "our_job jobId j \<Longrightarrow> ij_phase j = Done \<Longrightarrow> finishes jobId (Some (Some j)) Installed"
| job_failed: "our_job jobId j \<Longrightarrow> ij_phase j = Failed \<Longrightarrow> ij_error j = Some e \<Longrightarrow> e \<noteq> [] \<Longrightarrow>
    finishes jobId (Some (Some j)) (InstallFailed (ImageError e))"
| job_failed_silently: "our_job jobId j \<Longrightarrow> ij_phase j = Failed \<Longrightarrow> ij_error j \<in> {None, Some []} \<Longrightarrow>
    finishes jobId (Some (Some j)) (InstallFailed (ImageError ''The image install failed.''))"

inductive_simps finishes_simps:
  "finishes jobId None out" "finishes jobId (Some None) out" "finishes jobId (Some (Some j)) out"

lemma our_job_iff: "our_job jobId j \<longleftrightarrow> jobId \<in> {None, Some [], Some (ij_id j)}"
  by (auto simp: our_job.simps)

lemma stale_iff: "stale_job jobId j \<longleftrightarrow> \<not> our_job jobId j \<and> ij_phase j \<in> {Done, Failed}"
  by (auto simp: stale_job_def our_job_iff split: option.splits)

lemma poll_step_finishes: "snd (poll_step jobId a) = Some out \<longleftrightarrow> finishes jobId a out"
proof (cases a)
  case (Some r)
  then show ?thesis
    by (cases r) (auto simp: poll_step_def stale_iff finishes_simps failure_message_def split: option.splits)
qed (simp add: poll_step_def finishes_simps)

lemma poll_step_pending: "snd (poll_step jobId a) = None \<longleftrightarrow> (\<forall>out. \<not> finishes jobId a out)"
  by (metis poll_step_finishes option.exhaust option.distinct(1))

lemma first_pending:
  assumes "\<And>o'. \<not> P a o'"
  shows "(\<exists>before c after. a # as = before @ c # after \<and> (\<forall>b\<in>set before. \<forall>o'. \<not> P b o') \<and> P c out) \<longleftrightarrow>
    (\<exists>before c after. as = before @ c # after \<and> (\<forall>b\<in>set before. \<forall>o'. \<not> P b o') \<and> P c out)"
    (is "?l \<longleftrightarrow> ?r")
proof
  assume ?l
  then obtain before c after where *: "a # as = before @ c # after" "\<forall>b\<in>set before. \<forall>o'. \<not> P b o'" "P c out" by blast
  with assms show ?r by (cases before) auto
next
  assume ?r
  then obtain before c after where *: "as = before @ c # after" "\<forall>b\<in>set before. \<forall>o'. \<not> P b o'" "P c out" by blast
  with assms have "a # as = (a # before) @ c # after \<and> (\<forall>b\<in>set (a # before). \<forall>o'. \<not> P b o') \<and> P c out" by simp
  then show ?l by blast
qed

lemma first_found:
  assumes "P a r"
  shows "(\<exists>before c after. a # as = before @ c # after \<and> (\<forall>b\<in>set before. \<forall>o'. \<not> P b o') \<and> P c out) \<longleftrightarrow> P a out"
    (is "?l \<longleftrightarrow> _")
proof
  assume ?l
  then obtain before c after where *: "a # as = before @ c # after" "\<forall>b\<in>set before. \<forall>o'. \<not> P b o'" "P c out" by blast
  with assms show "P a out" by (cases before) auto
next
  assume "P a out"
  then have "a # as = [] @ a # as \<and> (\<forall>b\<in>set []. \<forall>o'. \<not> P b o') \<and> P a out" by simp
  then show ?l by blast
qed

text \<open>
  C39: what following an installation comes to. The polling returns exactly when some answer finishes our
  job, and then with the outcome of the first such answer: installed when that job is done, its error when
  it failed. Failed requests, missing jobs, jobs in progress and finished jobs of an earlier installation
  before it are passed over, nothing after it is looked at, and while no answer finishes the job the polling
  does not return.
\<close>

theorem install_settles:
  "snd (poll_install jobId answers) = Some out \<longleftrightarrow>
   (\<exists>before a after. answers = before @ a # after \<and> (\<forall>b\<in>set before. \<forall>o'. \<not> finishes jobId b o') \<and> finishes jobId a out)"
proof (induction answers)
  case (Cons a as)
  obtain shown res where step: "poll_step jobId a = (shown, res)" by (cases "poll_step jobId a")
  show ?case
  proof (cases res)
    case None
    then have a: "\<not> finishes jobId a o'" for o' using poll_step_pending [of jobId a] by (simp add: step)
    have poll: "snd (poll_install jobId (a # as)) = snd (poll_install jobId as)" by (simp add: step None split: prod.split)
    then show ?thesis unfolding poll Cons.IH by (intro sym [OF first_pending] a)
  next
    case (Some r)
    then have a: "finishes jobId a o' \<longleftrightarrow> o' = r" for o' using poll_step_finishes [of jobId a o'] by (auto simp: step)
    have "snd (poll_install jobId (a # as)) = Some r" by (simp add: step Some)
    moreover have "(\<exists>before c after. a # as = before @ c # after \<and> (\<forall>b\<in>set before. \<forall>o'. \<not> finishes jobId b o') \<and>
        finishes jobId c out) \<longleftrightarrow> out = r"
      by (subst first_found [of "finishes jobId"]) (auto simp: a)
    ultimately show ?thesis by auto
  qed
qed simp

text \<open>What is shown to the caller on the way is never an old job, and a job in progress is always shown.\<close>

lemma shown_jobs: "j \<in> set (fst (poll_install jobId answers)) \<Longrightarrow> Some (Some j) \<in> set answers \<and> \<not> stale_job jobId j"
proof (induction answers)
  case (Cons a as)
  have step: "j \<in> set (fst (poll_step jobId a)) \<Longrightarrow> a = Some (Some j) \<and> \<not> stale_job jobId j"
    by (auto simp: poll_step_def split: option.splits if_splits)
  show ?case
    using Cons step by (fastforce split: prod.splits option.splits)
qed simp

section \<open>The name of an image\<close>

theorem image_name_roundtrip:
  assumes "v \<noteq> []" and "a \<in> set IMAGE_ARCHS" and "trimmed_string (v @ ''-'' @ a @ ''.iso'')" and "one_line v"
  shows "imageNameFromIsoName (v @ ''-'' @ a @ ''.iso'') = Some v"
proof -
  let ?s = "v @ ''-'' @ a @ ''.iso''"
  have lower: "map lower_char (''-'' @ b @ ''.iso'') = ''-'' @ b @ ''.iso''" if "b \<in> set IMAGE_ARCHS" for b
    using that by (auto simp: IMAGE_ARCHS_def lower_char_def)
  have s: "map lower_char ?s = map lower_char v @ ''-'' @ a @ ''.iso''" using lower [OF assms(2)] by simp
  have ends: "suffix (''-'' @ b @ ''.iso'') (w @ ''-'' @ a @ ''.iso'') \<longleftrightarrow> b = a" if "b \<in> set IMAGE_ARCHS" for b and w :: string
    using that assms(2) by (auto simp: IMAGE_ARCHS_def suffix_to_prefix)
  have "iso_suffix ?s = find (\<lambda>b. b = a) IMAGE_ARCHS"
    unfolding iso_suffix_def s using ends by (intro find_cong refl) blast
  also have "\<dots> = Some a" using assms(2) by (auto simp: IMAGE_ARCHS_def)
  finally have "iso_suffix ?s = Some a" .
  moreover have "list_all (\<lambda>c. (of_char c :: nat) \<noteq> 10 \<and> (of_char c :: nat) \<noteq> 13) v"
    using assms(4) by (auto simp: one_line_def list_all_iff newline_iff)
  ultimately show ?thesis using assms(1) unfolding imageNameFromIsoName_def trim_id [OF assms(3)] by simp
qed

section \<open>A printed list reads back\<close>

definition IMAGE_HEADERS :: "string list" where
  "IMAGE_HEADERS = [''Name'', ''Default boot'', ''Running'']"

definition image_cells :: "system_image \<Rightarrow> string list" where
  "image_cells m = [im_name m, if im_default_boot m then ''Yes'' else '''', if im_running m then ''Yes'' else '''']"

text \<open>
  How the command prints the images: the header, a separator, a line for each image, columns two spaces
  apart, and blank cells for the images that are neither the default nor running.
\<close>

definition print_images :: "nat \<Rightarrow> string \<Rightarrow> system_image list \<Rightarrow> string" where
  "print_images w sep ms = join_lines (print_line [w, 12, 7] IMAGE_HEADERS # sep # map (\<lambda>m. print_line [w, 12, 7] (image_cells m)) ms)"

text \<open>A name that the list can carry: one word, without a colon or a parenthesis, and not all dashes.\<close>

definition image_name_ok :: "nat \<Rightarrow> string \<Rightarrow> bool" where
  "image_name_ok w n \<longleftrightarrow> n \<noteq> [] \<and> length n \<le> w \<and> (\<forall>c\<in>set n. \<not> js_space c \<and> c \<noteq> CHR '':'' \<and> c \<noteq> CHR ''('') \<and>
     (\<exists>c\<in>set n. c \<noteq> CHR ''-'') \<and> \<not> prefix ''name'' (map lower_char n)"

lemma search_ci_here: "prefix (map lower_char k) (map lower_char s) \<Longrightarrow> search_ci k s = Some 0"
  by (subst search_ci.simps) simp

lemma search_ci_skip:
  assumes "k \<noteq> []" and "lower_char (hd k) \<notin> lower_char ` set a"
  shows "search_ci k (a @ s) = map_option ((+) (length a)) (search_ci k s)"
  using assms(2)
proof (induction a)
  case Nil
  then show ?case by (cases "search_ci k s") simp_all
next
  case (Cons c a)
  have "\<not> prefix (map lower_char k) (map lower_char ((c # a) @ s))"
    using assms(1) Cons.prems by (cases k) auto
  then have "search_ci k ((c # a) @ s) = map_option Suc (search_ci k (a @ s))" by (subst search_ci.simps) simp
  also have "\<dots> = map_option ((+) (length (c # a))) (search_ci k s)"
    using Cons by (cases "search_ci k s") simp_all
  finally show ?case .
qed

lemma print_line_three: "print_line [a, b, c] [x, y, z] = pad a x @ ''  '' @ pad b y @ ''  '' @ pad c z"
  by (simp add: print_line_def)

lemma not_lowered: "\<forall>c\<in>set s. lower_char c \<noteq> x \<Longrightarrow> set a \<subseteq> set s \<Longrightarrow> x \<notin> lower_char ` set a"
  by auto

lemma header_letters:
  "\<forall>c\<in>set ''Name ''. lower_char c \<noteq> lower_char (hd ''Default boot'')"
  "\<forall>c\<in>set (''Name '' @ ''Default boot  ''). lower_char c \<noteq> lower_char (hd ''Running'')"
  by code_simp+

lemma image_header_cols: "4 \<le> w \<Longrightarrow> header_cols (print_line [w, 12, 7] IMAGE_HEADERS) = Some (w + 2, w + 16)"
proof -
  assume w: "4 \<le> w"
  let ?a = "pad w ''Name'' @ ''  ''" and ?m = "''Default boot'' @ ''  ''" and ?r = "''Running''"
  have line: "print_line [w, 12, 7] IMAGE_HEADERS = ?a @ ?m @ ?r"
    by (simp add: IMAGE_HEADERS_def print_line_three pad_def)
  have len: "length ?a = w + 2" using w by (simp add: pad_def)
  have name: "set ?a \<subseteq> set ''Name ''" by (auto simp: pad_def)

  have d: "search_ci ''Default boot'' (?a @ ?m @ ?r) = Some (w + 2)"
  proof -
    have "lower_char (hd ''Default boot'') \<notin> lower_char ` set ?a" by (rule not_lowered [OF header_letters(1) name])
    moreover have "search_ci ''Default boot'' (?m @ ?r) = Some 0" by (rule search_ci_here) simp
    ultimately show ?thesis using search_ci_skip [of "''Default boot''" ?a "?m @ ?r"] len by simp
  qed
  have r: "search_ci ''Running'' (?a @ ?m @ ?r) = Some (w + 16)"
  proof -
    have "set (?a @ ?m) \<subseteq> set (''Name '' @ ''Default boot  '')" using name by auto
    then have "lower_char (hd ''Running'') \<notin> lower_char ` set (?a @ ?m)" by (rule not_lowered [OF header_letters(2)])
    moreover have "search_ci ''Running'' ?r = Some 0" by (rule search_ci_here) simp
    ultimately show ?thesis using search_ci_skip [of "''Running''" "?a @ ?m" ?r] len by simp
  qed
  show ?thesis by (simp only: header_cols_def line d r option.case option.map)
qed

lemma takeWhile_trim:
  assumes "s \<noteq> []" and "\<not> js_space (hd s)"
  shows "leading_word (trim s) = leading_word s" and "trim s \<noteq> []" and "hd (trim s) = hd s"
proof -
  have t: "trim s = rev (dropWhile js_space (rev s))" using assms by (simp add: trim_def dropWhile_idle)
  have split: "s = trim s @ rev (takeWhile js_space (rev s))"
    unfolding t by (metis rev_append rev_rev_ident takeWhile_dropWhile_id)
  show ne: "trim s \<noteq> []" using assms hd_in_set by (auto simp: trim_eq_Nil)
  then show "hd (trim s) = hd s" using split by (metis hd_append2)
  have spaces: "\<forall>c\<in>set (rev (takeWhile js_space (rev s))). js_space c" by (auto dest: set_takeWhileD)
  show "leading_word (trim s) = leading_word s"
  proof (cases "\<forall>c\<in>set (trim s). \<not> js_space c")
    case True
    then have "leading_word (trim s @ x) = trim s @ leading_word x" for x by (simp add: leading_word_def takeWhile_append2)
    moreover have "leading_word (rev (takeWhile js_space (rev s))) = []"
      using spaces by (cases "rev (takeWhile js_space (rev s))") (auto simp: leading_word_def)
    moreover have "leading_word (trim s) = trim s" using True by (simp add: leading_word_def)
    ultimately show ?thesis using split by (metis append_Nil2)
  next
    case False
    then obtain c where "c \<in> set (trim s)" "\<not> \<not> js_space c" by blast
    then have "leading_word (trim s @ x) = leading_word (trim s)" for x unfolding leading_word_def by (rule takeWhile_append1)
    then show ?thesis using split by metis
  qed
qed

text \<open>A line that starts with a word without a colon is not a row of the old format.\<close>

lemma not_legacy:
  assumes "\<forall>c\<in>set n. c \<noteq> CHR '':''" and "s = [] \<or> js_space (hd s)"
  shows "legacy_row (n @ s) = None"
proof -
  have "dropWhile is_digit (n @ s) = [] \<or> hd (dropWhile is_digit (n @ s)) \<noteq> CHR '':''"
  proof (cases "\<forall>c\<in>set n. is_digit c")
    case True
    then have "dropWhile is_digit (n @ s) = dropWhile is_digit s" by (induction n) simp_all
    moreover have "dropWhile is_digit s = s" using assms(2) digit_not_space by (cases s) auto
    moreover have "\<not> js_space CHR '':''" by (simp add: js_space_def)
    ultimately show ?thesis using assms(2) by auto
  next
    case False
    then have "dropWhile is_digit (n @ s) = dropWhile is_digit n @ s" by (auto simp: dropWhile_append1)
    moreover have "dropWhile is_digit n \<noteq> []" using False by (auto simp: dropWhile_eq_Nil_conv)
    moreover from this have "hd (dropWhile is_digit n) \<in> set n" by (metis hd_in_set set_dropWhileD)
    ultimately show ?thesis using assms(1) by auto
  qed
  then show ?thesis by (auto simp: legacy_row_def Let_def)
qed

lemma lower_paren: "lower_char c = CHR ''('' \<Longrightarrow> c = CHR ''(''"
proof -
  assume l: "lower_char c = CHR ''(''"
  have "(of_char (lower_char c) :: nat) = 40" using l by simp
  moreover have "(of_char (lower_char c) :: nat) \<ge> 97" if "65 \<le> (of_char c :: nat)" "(of_char c :: nat) \<le> 90"
    using that by (simp add: lower_char_def)
  ultimately show ?thesis using l by (fastforce simp: lower_char_def split: if_splits)
qed

lemma lower_space: "js_space c \<Longrightarrow> lower_char c = c"
  by (auto simp: js_space_def lower_char_def)

text \<open>A line that starts with the name of an image is neither a header nor a separator nor a summary.\<close>

lemma named_row:
  assumes n: "image_name_ok w n" and s: "s = [] \<or> js_space (hd s)" and plain: "CHR ''('' \<notin> set s"
  shows "\<not> skipped_row (n @ s)" and "legacy_row (n @ s) = None"
proof -
  have "\<not> prefix ''name'' (map lower_char (n @ s))"
  proof
    assume "prefix ''name'' (map lower_char (n @ s))"
    then consider "prefix ''name'' (map lower_char n)"
      | us where "''name'' = map lower_char n @ us" "prefix us (map lower_char s)"
      by (auto simp: prefix_append)
    then show False
    proof cases
      case 1
      then show ?thesis using n by (simp add: image_name_ok_def)
    next
      case 2
      then have "us \<noteq> []" using n by (auto simp: image_name_ok_def)
      then have "hd us \<in> set ''name''" "hd us = lower_char (hd s)" "s \<noteq> []"
        using 2 by (metis Un_iff hd_in_set set_append) (use 2 \<open>us \<noteq> []\<close> in \<open>cases us; cases s; simp\<close>)+
      then have "js_space (hd us)" using s lower_space by simp
      moreover have "\<forall>c\<in>set ''name''. \<not> js_space c" by code_simp
      ultimately show ?thesis using \<open>hd us \<in> set ''name''\<close> by blast
    qed
  qed
  moreover have "\<not> list_all (\<lambda>c. c = CHR ''-'' \<or> js_space c) (n @ s)"
    using n by (auto simp: image_name_ok_def list_all_iff)
  moreover have "\<not> includes_ci (n @ s) ''image(s) installed''"
  proof
    assume "includes_ci (n @ s) ''image(s) installed''"
    then have "set (map lower_char ''image(s) installed'') \<subseteq> lower_char ` set (n @ s)"
      unfolding includes_ci_def by (metis list.set_map set_mono_sublist)
    moreover have "CHR ''('' \<in> set (map lower_char ''image(s) installed'')" by code_simp
    ultimately have "CHR ''('' \<in> lower_char ` set (n @ s)" by blast
    then obtain c where "c \<in> set (n @ s)" "lower_char c = CHR ''(''" by (metis imageE)
    then show False using lower_paren n plain by (auto simp: image_name_ok_def)
  qed
  ultimately show "\<not> skipped_row (n @ s)" by (simp add: skipped_row_def)
  show "legacy_row (n @ s) = None" using n s by (intro not_legacy) (simp_all add: image_name_ok_def)
qed

lemma image_row_print:
  assumes "4 \<le> w" and n: "image_name_ok w (im_name m)"
  shows "image_row (Some (w + 2, w + 16)) (print_line [w, 12, 7] (image_cells m)) = Some m"
proof -
  let ?n = "im_name m" and ?d = "if im_default_boot m then ''Yes'' else ''''" and ?r = "if im_running m then ''Yes'' else ''''"
  let ?line = "print_line [w, 12, 7] (image_cells m)"
  define s where "s = replicate (w - length ?n) CHR '' '' @ ''  '' @ pad 12 ?d @ ''  '' @ pad 7 ?r"
  have line: "?line = ?n @ s" by (simp add: image_cells_def print_line_three pad_def s_def)
  have ne: "?n \<noteq> []" and solid: "\<forall>c\<in>set ?n. \<not> js_space c" using n by (simp_all add: image_name_ok_def)
  have "s = CHR '' '' # replicate (w - length ?n) CHR '' '' @ '' '' @ pad 12 ?d @ ''  '' @ pad 7 ?r"
    unfolding s_def by (simp add: replicate_app_Cons_same)
  then have s: "s \<noteq> []" "js_space (hd s)" by (simp_all add: js_space_def)
  have set_s: "set s \<subseteq> set ''Yes ''" by (auto simp: s_def pad_def)
  have word: "leading_word (?n @ s) = ?n" using solid s by (cases s) (simp_all add: leading_word_def takeWhile_append2)
  define t where "t = trim ?line"
  have "hd ?line = hd ?n" using ne line by simp
  then have start: "\<not> js_space (hd ?line)" "?line \<noteq> []" using solid ne line by simp_all
  have first: "leading_word t = ?n" and t: "t \<noteq> []"
    using takeWhile_trim [OF start(2,1)] word line unfolding t_def by simp_all
  define u where "u = dropWhile (\<lambda>c. \<not> js_space c) t"
  have split: "t = ?n @ u" using first unfolding leading_word_def u_def by (metis takeWhile_dropWhile_id)
  have u: "u = [] \<or> js_space (hd u)" using hd_dropWhile [of "\<lambda>c. \<not> js_space c" t] unfolding u_def by blast
  have "set t \<subseteq> set ?line" unfolding t_def trim_def using set_dropWhileD by (metis set_rev subsetI)
  then have "CHR ''('' \<notin> set u" using split line set_s n unfolding image_name_ok_def by auto
  note row = named_row [OF n u this]
  have "\<forall>(w, c)\<in>set (zip [w, 12, 7] (image_cells m)). trimmed_string c \<and> length c \<le> w"
    using n solid ne by (auto simp: image_cells_def image_name_ok_def trimmed_string_def js_space_def)
  then have "cut_cells (offsets [w, 12, 7]) ?line = image_cells m"
    using table_cells_print [of "image_cells m" "[w, 12, 7]"] by (simp add: image_cells_def table_cells_cut)
  moreover have "offsets [w, 12, 7] = [0, w + 2, w + 16]" by simp
  ultimately have "cut_cells [0, w + 2, w + 16] ?line = image_cells m" by metis
  then have cells: "trim (slice (w + 2) (w + 16) ?line) = ?d" "trim (drop (w + 16) ?line) = ?r"
    by (simp_all add: image_cells_def slice_def)
  have "yes_cell ''Yes''" "\<not> yes_cell ''''" by code_simp+
  then have yes: "yes_cell (if b then ''Yes'' else '''') = b" for b by simp
  show ?thesis
    using row t first cells yes unfolding image_row_def t_def [symmetric] Let_def split [symmetric] by simp
qed

text \<open>
  C38: the list of the installed images reads back. For every list of images whose names a line can carry,
  printed under the header of the device in a first column of at least four characters, the parser returns
  exactly these images in this order, with the default and the running marks at the images that have them;
  the header and the separator are no images.
\<close>

theorem system_images_roundtrip:
  assumes w: "4 \<le> w" and names: "\<forall>m\<in>set ms. image_name_ok w (im_name m) \<and> newline \<notin> set (im_name m)"
    and sep: "\<forall>c\<in>set sep. c = CHR ''-'' \<or> c = CHR '' ''"
  shows "parseSystemImages (print_images w sep ms) = ms"
proof -
  let ?header = "print_line [w, 12, 7] IMAGE_HEADERS" and ?row = "\<lambda>m. print_line [w, 12, 7] (image_cells m)"
  let ?cols = "Some (w + 2, w + 16)"
  have header: "?header = ''Name'' @ replicate (w - 4) CHR '' '' @ ''  Default boot  Running''"
    by (simp add: IMAGE_HEADERS_def print_line_three pad_def)
  have letters: "newline \<notin> set ''Name  Default boot  Running''" "newline \<notin> set ''Yes ''" "newline \<notin> set ''- ''"
    by code_simp+
  have "set ?header \<subseteq> set ''Name  Default boot  Running''" by (auto simp: header)
  then have "newline \<notin> set ?header" using letters(1) by (rule contra_subsetD)
  moreover have "set sep \<subseteq> set ''- ''" using sep by auto
  then have "newline \<notin> set sep" using letters(3) by (rule contra_subsetD)
  moreover have "newline \<notin> set (?row m)" if "m \<in> set ms" for m
  proof -
    have "set (?row m) \<subseteq> set (im_name m) \<union> set ''Yes ''" by (auto simp: image_cells_def print_line_three pad_def)
    moreover have "newline \<notin> set (im_name m) \<union> set ''Yes ''" using letters(2) names that by blast
    ultimately show ?thesis by (rule contra_subsetD)
  qed
  ultimately have lines: "split_on newline (print_images w sep ms) = ?header # sep # map ?row ms"
    unfolding print_images_def by (intro split_join_lines) auto
  have "image_row ?cols ?header = None"
  proof -
    have "trim ?header = ?header" unfolding header by (intro trim_id) (simp add: trimmed_string_def js_space_def)
    moreover have "legacy_row ?header = None" by (simp add: header legacy_row_def is_digit_def)
    moreover have "skipped_row ?header"
    proof -
      have "map lower_char ''Name'' = ''name''" "\<not> word_char CHR '' ''" by code_simp+
      moreover have "?header = ''Name'' @ CHR '' '' # replicate (w - 4) CHR '' '' @ '' Default boot  Running''"
        unfolding header by (simp add: replicate_app_Cons_same)
      ultimately have "prefix ''name'' (map lower_char ?header)" "\<not> word_char (?header ! 4)"
        by (simp_all only: map_append prefixI nth_append) simp
      then show ?thesis by (simp add: skipped_row_def)
    qed
    ultimately show ?thesis by (simp add: image_row_def header)
  qed
  moreover have "image_row ?cols sep = None"
  proof -
    have "legacy_row (trim sep) = None \<and> skipped_row (trim sep)" if "trim sep \<noteq> []"
    proof -
      have dashes: "\<forall>c\<in>set (trim sep). c = CHR ''-'' \<or> js_space c"
        using sep unfolding trim_def js_space_def by (fastforce dest: set_dropWhileD)
      then have "\<not> is_digit c" if "c \<in> set (trim sep)" for c using that digit_not_space by (force simp: is_digit_def)
      then have "takeWhile is_digit (trim sep) = []" using that by (cases "trim sep") auto
      then show ?thesis using dashes that by (simp add: legacy_row_def Let_def skipped_row_def list_all_iff)
    qed
    then show ?thesis by (simp add: image_row_def Let_def)
  qed
  moreover have "List.map_filter (image_row ?cols) (map ?row ms) = ms"
    using names image_row_print [OF w] by (induction ms) simp_all
  ultimately show ?thesis
    by (simp add: parseSystemImages_def lines image_header_cols [OF w])
qed

definition two_images :: "system_image list" where
  "two_images = [\<lparr>im_name = ''1.5-rolling'', im_default_boot = True, im_running = True\<rparr>,
     \<lparr>im_name = ''1.4.0'', im_default_boot = False, im_running = False\<rparr>]"

theorem system_images_roundtrip_witness:
  "parseSystemImages (print_images 16 ''----  ----'' two_images) = two_images"
proof (rule system_images_roundtrip)
  show "(4 :: nat) \<le> 16" by simp
  show "\<forall>m\<in>set two_images. image_name_ok 16 (im_name m) \<and> newline \<notin> set (im_name m)" by code_simp
  show "\<forall>c\<in>set ''----  ----''. c = CHR ''-'' \<or> c = CHR '' ''" by simp
qed

text \<open>An installation that first shows the finished job before it, then its own progress, then its end.\<close>

definition image_at :: "string \<Rightarrow> image_phase \<Rightarrow> image_job" where
  "image_at i p = \<lparr>ij_id = i, ij_phase = p, ij_downloaded_bytes = 0, ij_total_bytes = None, ij_image_name = None,
     ij_error = None, ij_started_unix = 0, ij_finished_unix = None\<rparr>"

theorem install_settles_witness:
  "snd (poll_install (Some ''b'') [Some (Some (image_at ''a'' Done)), None, Some (Some (image_at ''b'' Downloading)),
     Some (Some (image_at ''b'' Done))]) = Some Installed"
proof -
  let ?before = "[Some (Some (image_at ''a'' Done)), None, Some (Some (image_at ''b'' Downloading))]"
    and ?last = "Some (Some (image_at ''b'' Done))"
  have "\<forall>b\<in>set ?before. \<forall>o'. \<not> finishes (Some ''b'') b o'" "finishes (Some ''b'') ?last Installed"
    by (simp_all add: finishes_simps our_job_iff image_at_def)
  then have "\<exists>before a after. ?before @ [?last] = before @ a # after \<and>
      (\<forall>b\<in>set before. \<forall>o'. \<not> finishes (Some ''b'') b o') \<and> finishes (Some ''b'') a Installed" by blast
  then show ?thesis using install_settles [of "Some ''b''" "?before @ [?last]" Installed] by simp
qed

theorem image_name_roundtrip_witness: "imageNameFromIsoName ''vyos-1.5-amd64.iso'' = Some ''vyos-1.5''"
proof -
  have "''amd64'' \<in> set IMAGE_ARCHS" "trimmed_string (''vyos-1.5'' @ ''-'' @ ''amd64'' @ ''.iso'')" "one_line ''vyos-1.5''"
    by code_simp+
  then show ?thesis using image_name_roundtrip [of "''vyos-1.5''" "''amd64''"] by simp
qed

end
