(* ===== verification/Spec2Isabelle.thy ===== *)
theory Spec2Isabelle
  imports Firewall_Rule_Effects Firewall_Order Firewall_Logging Interfaces_Diff Nat44 Boot_Save Guard_Safety
    Rule_Services Firewall_Typing Config_Sync Commit_Log Wireguard Virtual_Server
    Vrrp Static_Routes Services Mpls Routing_Policy Ipsec L2tp Openvpn
    Isis Ospf Bgp Content_Filtering System_Config System_Images
begin

text \<open>
  A model of the data layer of the QuartzFire web interface: the modules under
  \<open>src/quartzfire-webui/frontend/lib\<close> that read the configuration of a VyOS-based firewall, turn the
  desired state of a form into set/delete commands, and keep the features that refer to one another
  consistent.

  The program. Every feature of the interface has a module that reads its part of the
  configuration as JSON (\<open>fetch...\<close>), offers the desired state to a form, and turns the difference
  between the live and the desired state into a list of commands (\<open>diff...\<close>), which one commit
  applies. \<open>firewall.ts\<close> is the largest: aliases, port policies, zones, rules that exist once per
  zone pair, auto-managed groups behind the endpoints of a rule, and the order of the rules.
  \<open>interfaces.ts\<close> and \<open>nat.ts\<close> do the same for interfaces and NAT; \<open>geolocation.ts\<close> and
  \<open>appcontrol.ts\<close> attach to firewall rules by number, and \<open>rule-cascade.ts\<close> keeps them in step when a
  rule is deleted or moved. \<open>guard.ts\<close> carries commits through commit-confirm, \<open>bootSave.ts\<close> saves the
  boot configuration in the background.

  Conventions. A string is a character list, each character the code point with its number (below
  256); \<open>localeCompare\<close> is a parameter \<open>lc\<close>, with the consistency of a comparison as hypothesis where
  it matters. A \<open>Number\<close> is an integer, read from decimal digits. A configuration object is a
  \<open>json\<close> value; an error that the code throws is the left summand of a result. The functions that
  push onto an array return the pushed commands. \<open>apply...\<close> and \<open>delete...\<close>, which only commit a
  command list, are modelled by the list (\<open>..._cmds\<close>). An asynchronous function is split at its
  awaits, and the replies of the outside are arguments.

  The device is outside of the repository. It is the parameter \<open>dev\<close> of the statements: a function
  from a command and the set of configured paths to the new set, with the hypothesis
  \<open>device_laws\<close> that a delete removes a subtree and that a set adds a path, replacing the value of a
  single-value leaf. Which leaves hold one value is the parameter \<open>single\<close>, constrained by the
  \<open>..._schema\<close> hypotheses. The witnesses use \<open>ref_dev\<close>, a device that has these laws.

  The theories.

  \<^item> Prelude: the parts of the language the modules use: trimming, splitting, numbers as
    strings, duplicate removal, stable sorting, the \<open>Map\<close> class, results that may be an
    error.
  \<^item> Vyos_Config: the JSON readers, the commands, the device, and what a command list does
    inside a region.
  \<^item> Node_Editor: the two shared interfaces and the facts their interpretations use.
  \<^item> Firewall_Model, Firewall_Read: the data of \<open>firewall.ts\<close> and its readers,
    from the JSON of the device to the rules of the table (\<open>fetchFirewall\<close>); one rule
    of the table stands for the copies in all its zone pairs
    (\<open>groupZoneRules_partition\<close>).
  \<^item> Firewall_Groups: aliases and policies: what their diffs do, and the round trips of the
    marks that their descriptions carry.
  \<^item> Firewall_Zones: zone validation and its invariant (no interface in two zones, one local
    zone), the zone diff, and that deleting a zone leaves no pair dangling.
  \<^item> Firewall_Endpoints: the sides of a rule: selection and zone pairs (with their round
    trip), the chains of a rule, auto-managed groups with fresh names, the plan of a side.
  \<^item> Firewall_Rules, Firewall_Rule_Effects: the rule diff, the largest function of the
    module, and its properties: every scope the form asks for has exactly the rule of the form,
    scopes it leaves are emptied, other rules are untouched.
  \<^item> Firewall_Order: renumbering: the commands of a reorder carry every subtree to its new
    number, whatever numbers are swapped, and the maps tell other features where each rule went.
  \<^item> Firewall_Logging: default actions, traffic logging, rule counters.
  \<^item> Interfaces, Interfaces_Diff: the readers and diffs of \<open>interfaces.ts\<close>:
    Ethernet, VLANs, loopback, bonds, bridges, VXLAN.
  \<^item> Nat44: the readers and the diff of \<open>nat.ts\<close>, and the reading of a pair of
    1:1 rules as one mapping.
  \<^item> Boot_Save: \<open>bootSave.ts\<close> among commits and the device: whatever was asked
    to be saved is saved, or the state says that it failed.
  \<^item> Guard, Guard_Safety: \<open>guard.ts\<close> as a step relation in which any number of
    its asynchronous calls interleave: a change that would lock the user out is applied only with
    consent, and how each call ends.
  \<^item> Geolocation, Geolocation_Effects: \<open>geolocation.ts\<close>: actions and policies,
    the attachment of an action to all scopes of a rule, renames, and the address helpers.
  \<^item> App_Control: \<open>appcontrol.ts\<close>: the bindings, the catalog tree and the
    verdicts.
  \<^item> Rule_Cascade: \<open>rule-cascade.ts\<close>: the features follow a rule that is
    deleted or moved.
  \<^item> Reads: diffs against a configuration whose defaults may be left out:
    \<open>achieves\<close> judges a command list by what the device reads as before and after.
  \<^item> Ssl_Inspection: \<open>ssl-inspection.ts\<close>: the TLS inspection form.
  \<^item> Rule_Services: \<open>rule-services.ts\<close>: one save of a rule with its TLS,
    geolocation and application-control bindings.
  \<^item> Firewall_Typing: every configuration that \<open>fetchFirewall\<close> returns is well
    formed.
  \<^item> Forms: the diffs that go field by field through a form and then key by key through
    child nodes: \<open>edits_form\<close> and the interface \<open>child_editor\<close>.
  \<^item> Enroll_Token: \<open>quartz-command.ts\<close>: the connection settings, and the check
    of an enrollment token beside the parser of the agent (\<open>qfagent/src/token.rs\<close>) that
    it mirrors.
  \<^item> Config_Sync: \<open>config-sync.ts\<close>: the sections to synchronise, and when a
    save loses one.
  \<^item> Wireguard, Virtual_Server: \<open>wireguard.ts\<close> and
    \<open>virtual-server.ts\<close>: a form with peers, or real servers, below it.
  \<^item> Vrrp: VRRP groups, their virtual addresses, sync groups and the global settings
    (\<open>vrrp.ts\<close>).
  \<^item> Static_Routes: the table of \<open>routing.ts\<close>: one row per next hop, a
    description shared by the rows of a route; a save and a delete as operations on the table.
  \<^item> Services: \<open>services.ts\<close>: DHCP relay and server, the lease table, DNS
    forwarding.
  \<^item> Child_Forms: child nodes that are forms themselves, and diffs put together from
    segments with disjoint regions.
  \<^item> Mpls, Routing_Policy: \<open>mpls.ts\<close>: forwarding, LDP and its neighbors;
    \<open>routing-policy.ts\<close>: prefix lists and route maps with their numbered rules.
  \<^item> Ipsec, L2tp, Openvpn: \<open>ipsec.ts\<close>: IKE and ESP groups, peers and tunnels;
    \<open>l2tp.ts\<close>: the server, its users, pools and RADIUS servers;
    \<open>openvpn.ts\<close>: interfaces whose leaves depend on their mode.
  \<^item> Switched_Nodes: nodes that a switch of the form creates and removes with all below
    them, and families of nodes toggled by presence (the interface \<open>toggled\<close>).
  \<^item> Isis, Ospf, Bgp: \<open>isis.ts\<close>, \<open>ospf.ts\<close>, \<open>bgp.ts\<close>:
    the routing protocols, their global settings, interfaces, areas and peers.
  \<^item> Content_Filtering: \<open>content-filtering.ts\<close>: the filter groups and the
    global settings, and the checks of domains and networks.
  \<^item> System_Config, System_Images: \<open>system.ts\<close>: general settings, users and
    their keys, the SSH service; the list of the installed images and the installation of one,
    followed by polling.
  \<^item> Op_Tables: the parsers of printed output (\<open>vpn-status.ts\<close>,
    \<open>vyos.ts\<close>): fixed-width tables, WireGuard blocks, counters.
  \<^item> Commit_Log: \<open>audit.ts\<close>: the commit history and the summary of a commit.

  The interfaces. \<open>keyed_nodes\<close> (Node_Editor) says that the nodes of a family of keys are disjoint
  subtrees; \<open>node_editor\<close> is the contract of a \<open>diff\<close> function for one node, from which follow what the
  commands do to the device, that they are empty when nothing changes, and that their deletes name
  configured nodes; \<open>child_editor\<close> (Forms) is the contract of the nodes below one node that are added,
  changed and removed by key (peers, real servers), and \<open>form_editor\<close> of a node that one form
  describes and may rename (a DHCP range, a DNS domain); \<open>child_forms\<close> and \<open>form_node\<close>
  (Child_Forms) are the contracts of child nodes that are forms themselves and of the node that holds
  them (IPsec peers and tunnels, route maps and their
  rules); \<open>toggled\<close> (Switched_Nodes) of nodes that exist or not (IS-IS redistribution); \<open>fresh_key\<close> (Prelude) is the contract of everything that hands out an unused
  key. Each is interpreted on the functions of the modules in the theory that defines them.

  How the properties are stated. A refinement property runs the commands on the device and says what
  the device has afterwards, inside the edited region as a function of the form, outside of it as
  before (\<open>run dev (diff...) S = ...\<close>). The abstract view of a configuration node is the set of its
  paths; \<open>edits dev C cs L D\<close> is the simulation between a command list and the change from \<open>L\<close> to
  \<open>D\<close> inside the region \<open>C\<close>. The state machines (\<open>Guard\<close>, \<open>Boot_Save\<close>) are step relations with
  invariants by rule induction over their reachable states.

  Bounds. No function needs fuel: all recursion is structural or has a measure. Search loops (the
  names of auto-managed groups) are bounded by the number of names taken plus one, which
  \<open>allocAutoName_fresh\<close> shows to be enough.

  Not modelled. The React pages and components, which render what the data modules compute; the
  transport (\<open>api.ts\<close>) and the bodies of requests to the backend; the other languages of the
  repository (the Rust backend and daemons, the build scripts). Of the modelled modules: the requests
  themselves, the subscriptions of the two stores, and a few printing helpers that the manifest
  names. Of the data layer these modules are left out: the four \<open>...-status.ts\<close> of the routing
  protocols (display of printed status), \<open>ips.ts\<close> (requests to the backend),
  \<open>devices.ts\<close>, \<open>unified-logs.ts\<close>, \<open>flows.ts\<close>, \<open>donut.ts\<close> and \<open>format.ts\<close> (lists of the backend as the
  monitoring pages show them), and the power, upload and backup operations of \<open>system.ts\<close>, each of
  which is one request.
\<close>

end
